(* ===== verification/Prelude.thy ===== *)
theory Prelude
  imports Main
begin

text \<open>
  Shared vocabulary of the development: the error-returning style of the Go code
  as values, the theorem collections the components add to, and the generic list
  facts the component proofs share.

  A Go function returning \<open>(T, error)\<close> is a function into \<open>'e + 't\<close>, with \<open>Inl\<close> the
  error; a Go function returning a bare \<open>error\<close> is a function into \<open>'e option\<close>, with
  \<open>None\<close> for \<open>nil\<close>. The statement \<open>if err := f(); err != nil { return err }\<close> is
  \<open>check (f ...) rest\<close>; \<open>x, err := f(); if err != nil { return err }\<close> is
  \<open>bind_res (f ...) (\<lambda>x. rest)\<close>.
\<close>

section \<open>Results\<close>

definition bind_res :: "'e + 'a \<Rightarrow> ('a \<Rightarrow> 'e + 'b) \<Rightarrow> 'e + 'b" where
  "bind_res r k = (case r of Inl e \<Rightarrow> Inl e | Inr x \<Rightarrow> k x)"

definition check :: "'e option \<Rightarrow> 'e + 'a \<Rightarrow> 'e + 'a" where
  "check r k = (case r of Some e \<Rightarrow> Inl e | None \<Rightarrow> k)"

text \<open>The same early return for a function that itself returns a bare \<open>error\<close>.\<close>

definition check_err :: "'e option \<Rightarrow> 'e option \<Rightarrow> 'e option" where
  "check_err r k = (case r of Some e \<Rightarrow> Some e | None \<Rightarrow> k)"

definition map_err :: "('e \<Rightarrow> 'f) \<Rightarrow> 'e + 'a \<Rightarrow> 'f + 'a" where
  "map_err f r = (case r of Inl e \<Rightarrow> Inl (f e) | Inr x \<Rightarrow> Inr x)"

definition is_ok :: "'e + 'a \<Rightarrow> bool" where
  "is_ok r = (case r of Inl _ \<Rightarrow> False | Inr _ \<Rightarrow> True)"

text \<open>
  \<open>res_simps\<close> evaluates the result combinators on known results, \<open>res_inv\<close> inverts a
  successful chain into the success of each link, \<open>gostr\<close> collects the string facts.
\<close>

named_theorems res_simps
named_theorems res_inv
named_theorems gostr

lemma bind_res_simps [simp, res_simps]:
  "bind_res (Inl e) k = Inl e"
  "bind_res (Inr x) k = k x"
  by (simp_all add: bind_res_def)

lemma check_simps [simp, res_simps]:
  "check (Some e) k = Inl e"
  "check None k = k"
  by (simp_all add: check_def)

lemma check_err_simps [simp, res_simps]:
  "check_err (Some e) k = Some e"
  "check_err None k = k"
  by (simp_all add: check_err_def)

lemma map_err_simps [simp, res_simps]:
  "map_err f (Inl e) = Inl (f e)"
  "map_err f (Inr x) = Inr x"
  by (simp_all add: map_err_def)

lemma is_ok_simps [simp, res_simps]:
  "\<not> is_ok (Inl e)"
  "is_ok (Inr x)"
  by (simp_all add: is_ok_def)

lemma bind_res_Inr_iff [res_inv]:
  "bind_res r k = Inr y \<longleftrightarrow> (\<exists>x. r = Inr x \<and> k x = Inr y)"
  by (cases r) auto

lemma bind_res_Inl_iff:
  "bind_res r k = Inl e \<longleftrightarrow> r = Inl e \<or> (\<exists>x. r = Inr x \<and> k x = Inl e)"
  by (cases r) auto

lemma check_Inr_iff [res_inv]: "check r k = Inr y \<longleftrightarrow> r = None \<and> k = Inr y"
  by (cases r) auto

lemma check_Inl_iff: "check r k = Inl e \<longleftrightarrow> r = Some e \<or> (r = None \<and> k = Inl e)"
  by (cases r) auto

lemma check_err_None_iff [res_inv]: "check_err r k = None \<longleftrightarrow> r = None \<and> k = None"
  by (cases r) auto

lemma check_err_Some_iff: "check_err r k = Some e \<longleftrightarrow> r = Some e \<or> (r = None \<and> k = Some e)"
  by (cases r) auto

lemma map_err_Inr_iff [res_inv]: "map_err f r = Inr y \<longleftrightarrow> r = Inr y"
  by (cases r) auto

lemma map_err_Inl_iff: "map_err f r = Inl e \<longleftrightarrow> (\<exists>e'. r = Inl e' \<and> e = f e')"
  by (cases r) auto

lemma is_ok_iff: "is_ok r \<longleftrightarrow> (\<exists>x. r = Inr x)"
  by (cases r) auto

section \<open>Loops that stop at the first error\<close>

text \<open>
  \<open>for i, x := range xs { if err := f(i, x); err != nil { return err } }\<close>: the first
  error in list order, or \<open>None\<close> when every element passes.
\<close>

fun first_err :: "('a \<Rightarrow> 'e option) \<Rightarrow> 'a list \<Rightarrow> 'e option" where
  "first_err f [] = None"
| "first_err f (x # xs) = check_err (f x) (first_err f xs)"

lemma first_err_None_iff [simp]: "first_err f xs = None \<longleftrightarrow> (\<forall>x\<in>set xs. f x = None)"
  by (induction xs) (auto simp: check_err_None_iff)

lemma first_err_Some: "first_err f xs = Some e \<Longrightarrow> \<exists>x\<in>set xs. f x = Some e"
  by (induction xs) (auto simp: check_err_Some_iff)

lemma first_err_cong [fundef_cong]:
  "xs = ys \<Longrightarrow> (\<And>x. x \<in> set ys \<Longrightarrow> f x = g x) \<Longrightarrow> first_err f xs = first_err g ys"
  by (induction ys arbitrary: xs) auto

text \<open>\<open>enum k xs\<close> is what \<open>for i, x := range xs\<close> walks, counting from \<open>k\<close>.\<close>

fun enum :: "nat \<Rightarrow> 'a list \<Rightarrow> (nat \<times> 'a) list" where
  "enum k [] = []"
| "enum k (x # xs) = (k, x) # enum (Suc k) xs"

lemma enum_zip: "enum k xs = zip [k..<k + length xs] xs"
  by (induction xs arbitrary: k) (auto simp del: upt_Suc simp: upt_conv_Cons)

lemma length_enum [simp]: "length (enum k xs) = length xs"
  by (induction xs arbitrary: k) auto

lemma map_snd_enum [simp]: "map snd (enum k xs) = xs"
  by (induction xs arbitrary: k) auto

lemma map_fst_enum: "map fst (enum k xs) = [k..<k + length xs]"
  by (simp add: enum_zip)

lemma nth_enum: "i < length xs \<Longrightarrow> enum k xs ! i = (k + i, xs ! i)"
  by (simp add: enum_zip)

lemma mem_enum: "(i, x) \<in> set (enum 0 xs) \<longleftrightarrow> i < length xs \<and> x = xs ! i"
  by (auto simp: in_set_conv_nth nth_enum)

lemma ball_enum: "(\<forall>x\<in>set (enum 0 xs). P x) \<longleftrightarrow> (\<forall>i<length xs. P (i, xs ! i))"
  by (metis (no_types, lifting) mem_enum old.prod.exhaust)

section \<open>Generic list facts\<close>

lemma dropWhile_no_hd: "dropWhile P xs = [] \<or> \<not> P (hd (dropWhile P xs))"
  by (induction xs) auto

lemma hd_last_notin: "c \<notin> set s \<Longrightarrow> s \<noteq> [] \<Longrightarrow> hd s \<noteq> c \<and> last s \<noteq> c"
  by (metis last_in_set list.set_sel(1))

end
