(* ===== verification/GoStrings.thy ===== *)
theory GoStrings
  imports Prelude
begin

text \<open>
  The functions of Go's \<open>strings\<close>, \<open>strconv\<close> and \<open>unicode/utf8\<close> that the modelled
  code calls. A Go string is its bytes: a \<open>string\<close> here is a list of bytes, one
  \<open>char\<close> each, so \<open>length\<close> is Go's \<open>len\<close> and a non-ASCII letter is several chars.
\<close>

section \<open>Prefixes and suffixes\<close>

fun has_prefix :: "string \<Rightarrow> string \<Rightarrow> bool" where
  "has_prefix s [] = True"
| "has_prefix [] (p # ps) = False"
| "has_prefix (c # s) (p # ps) = (c = p \<and> has_prefix s ps)"

definition has_suffix :: "string \<Rightarrow> string \<Rightarrow> bool" where
  "has_suffix s p = has_prefix (rev s) (rev p)"

definition trim_prefix :: "string \<Rightarrow> string \<Rightarrow> string" where
  "trim_prefix s p = (if has_prefix s p then drop (length p) s else s)"

definition trim_suffix :: "string \<Rightarrow> string \<Rightarrow> string" where
  "trim_suffix s p = (if has_suffix s p then take (length s - length p) s else s)"

lemma has_prefix_iff [gostr]: "has_prefix s p \<longleftrightarrow> (\<exists>t. s = p @ t)"
  by (induction s p rule: has_prefix.induct) auto

lemma has_suffix_iff [gostr]: "has_suffix s p \<longleftrightarrow> (\<exists>t. s = t @ p)"
proof -
  have "has_suffix s p \<longleftrightarrow> (\<exists>t. rev s = rev p @ t)"
    by (simp add: has_suffix_def has_prefix_iff)
  also have "\<dots> \<longleftrightarrow> (\<exists>t. s = t @ p)"
    by (metis rev_append rev_rev_ident)
  finally show ?thesis .
qed

lemma has_prefix_append [simp]: "has_prefix (p @ t) p"
  by (auto simp: has_prefix_iff)

lemma trim_prefix_append [simp]: "trim_prefix (p @ t) p = t"
  by (simp add: trim_prefix_def)

lemma trim_suffix_append [simp]: "trim_suffix (t @ p) p = t"
  by (auto simp: trim_suffix_def has_suffix_iff)

section \<open>Trimming a set of characters\<close>

text \<open>\<open>strings.TrimLeft(s, "c")\<close>, \<open>strings.TrimRight(s, "c")\<close> and \<open>strings.Trim(s, "c")\<close>.\<close>

definition trim_left_char :: "char \<Rightarrow> string \<Rightarrow> string" where
  "trim_left_char c s = dropWhile (\<lambda>x. x = c) s"

definition trim_right_char :: "char \<Rightarrow> string \<Rightarrow> string" where
  "trim_right_char c s = rev (dropWhile (\<lambda>x. x = c) (rev s))"

definition trim_char :: "char \<Rightarrow> string \<Rightarrow> string" where
  "trim_char c s = trim_right_char c (trim_left_char c s)"

lemma trim_left_char_hd: "trim_left_char c s = [] \<or> hd (trim_left_char c s) \<noteq> c"
  by (induction s) (auto simp: trim_left_char_def)

lemma trim_left_char_id [simp]: "s = [] \<or> hd s \<noteq> c \<Longrightarrow> trim_left_char c s = s"
  by (cases s) (auto simp: trim_left_char_def)

lemma trim_right_char_id [simp]: "s = [] \<or> last s \<noteq> c \<Longrightarrow> trim_right_char c s = s"
  by (cases s rule: rev_cases) (auto simp: trim_right_char_def)

lemma trim_char_id: "s = [] \<or> (hd s \<noteq> c \<and> last s \<noteq> c) \<Longrightarrow> trim_char c s = s"
  by (auto simp: trim_char_def)

section \<open>TrimSpace\<close>

text \<open>
  \<open>strings.TrimSpace\<close> removes every leading and trailing rune for which
  \<open>unicode.IsSpace\<close> holds. UTF-8 is self-synchronising, so a string starts (ends) with
  such a rune exactly when one of these byte sequences is a prefix (suffix) of it.
\<close>

definition space_encodings :: "string list" where
  "space_encodings =
     map (map char_of)
       ([[9], [10], [11], [12], [13], [32], [0xC2, 0x85], [0xC2, 0xA0], [0xE1, 0x9A, 0x80],
         [0xE2, 0x80, 0xA8], [0xE2, 0x80, 0xA9], [0xE2, 0x80, 0xAF], [0xE2, 0x81, 0x9F],
         [0xE3, 0x80, 0x80], [0xE2, 0x80, 0x80], [0xE2, 0x80, 0x81], [0xE2, 0x80, 0x82],
         [0xE2, 0x80, 0x83], [0xE2, 0x80, 0x84], [0xE2, 0x80, 0x85], [0xE2, 0x80, 0x86],
         [0xE2, 0x80, 0x87], [0xE2, 0x80, 0x88], [0xE2, 0x80, 0x89], [0xE2, 0x80, 0x8A]] :: nat list list)"

fun strip_one :: "string list \<Rightarrow> string \<Rightarrow> string option" where
  "strip_one [] s = None"
| "strip_one (e # es) s =
     (if e \<noteq> [] \<and> has_prefix s e then Some (drop (length e) s) else strip_one es s)"

lemma strip_one_shorter: "strip_one es s = Some s' \<Longrightarrow> length s' < length s"
  by (induction es) (auto simp: has_prefix_iff split: if_splits)

function strip_leading :: "string list \<Rightarrow> string \<Rightarrow> string" where
  "strip_leading es s = (case strip_one es s of None \<Rightarrow> s | Some s' \<Rightarrow> strip_leading es s')"
  by pat_completeness auto
termination
  by (relation "measure (\<lambda>(es, s). length s)") (auto dest: strip_one_shorter)

declare strip_leading.simps [simp del]

definition trim_space :: "string \<Rightarrow> string" where
  "trim_space s =
     rev (strip_leading (map rev space_encodings) (rev (strip_leading space_encodings s)))"

lemma strip_leading_suffix: "\<exists>p. s = p @ strip_leading es s"
proof (induction es s rule: strip_leading.induct)
  case (1 es s)
  show ?case
  proof (cases "strip_one es s")
    case None
    then show ?thesis by (simp add: strip_leading.simps)
  next
    case (Some s')
    have "\<exists>q. s = q @ s'"
      using Some by (induction es) (auto simp: has_prefix_iff split: if_splits)
    with 1 [OF Some] Some show ?thesis
      by (metis append.assoc option.simps(5) strip_leading.simps)
  qed
qed

lemma strip_leading_Nil [simp]: "strip_leading es [] = []"
  using strip_leading_suffix [of "[]" es] by simp

lemma trim_space_Nil [simp]: "trim_space [] = []"
  by (simp add: trim_space_def)

lemma trim_space_infix: "\<exists>p q. s = p @ trim_space s @ q"
proof -
  obtain p where p: "s = p @ strip_leading space_encodings s"
    using strip_leading_suffix by blast
  obtain q where "rev (strip_leading space_encodings s) =
      q @ strip_leading (map rev space_encodings) (rev (strip_leading space_encodings s))"
    using strip_leading_suffix by blast
  then have "strip_leading space_encodings s = trim_space s @ rev q"
    by (metis rev_append rev_rev_ident trim_space_def)
  with p show ?thesis by metis
qed

text \<open>A string that starts and ends with a printable ASCII byte is its own trim.\<close>

definition printable :: "char \<Rightarrow> bool" where
  "printable c \<longleftrightarrow> 33 \<le> (of_char c :: nat) \<and> (of_char c :: nat) \<le> 126"

lemma strip_one_None:
  "\<forall>e\<in>set es. e = [] \<or> hd e \<noteq> c \<Longrightarrow> strip_one es (c # s) = None"
  by (induction es) (auto simp: has_prefix_iff neq_Nil_conv)

lemma space_encodings_first:
  "\<forall>e\<in>set space_encodings. e = [] \<or> \<not> printable (hd e)"
  by (simp add: space_encodings_def printable_def)

lemma space_encodings_last:
  "\<forall>e\<in>set (map rev space_encodings). e = [] \<or> \<not> printable (hd e)"
  by (simp add: space_encodings_def printable_def)

lemma strip_leading_printable:
  assumes "\<forall>e\<in>set es. e = [] \<or> \<not> printable (hd e)" and "printable c"
  shows "strip_leading es (c # s) = c # s"
proof -
  have "strip_one es (c # s) = None"
    by (rule strip_one_None) (use assms in auto)
  then show ?thesis by (simp add: strip_leading.simps)
qed

lemma trim_space_printable:
  assumes "s = [] \<or> (printable (hd s) \<and> printable (last s))"
  shows "trim_space s = s"
proof (cases "s = []")
  case False
  then obtain c t where c: "s = c # t" by (cases s) auto
  obtain d u where d: "s = u @ [d]" using False by (cases s rule: rev_cases) auto
  have "strip_leading space_encodings s = s"
    unfolding c by (rule strip_leading_printable [OF space_encodings_first]) (use assms c in simp)
  moreover have "strip_leading (map rev space_encodings) (rev s) = rev s"
    unfolding d rev_append rev.simps append.simps
    by (rule strip_leading_printable [OF space_encodings_last]) (use assms d in simp)
  ultimately show ?thesis by (simp add: trim_space_def)
qed simp

section \<open>Splitting, joining, cutting\<close>

text \<open>\<open>strings.Split(s, "c")\<close> for a one-byte separator, \<open>strings.Join\<close> and \<open>strings.Cut\<close>.\<close>

fun split_char :: "char \<Rightarrow> string \<Rightarrow> string list" where
  "split_char c [] = [[]]"
| "split_char c (x # xs) =
     (if x = c then [] # split_char c xs
      else (case split_char c xs of [] \<Rightarrow> [[x]] | w # ws \<Rightarrow> (x # w) # ws))"

fun join :: "string \<Rightarrow> string list \<Rightarrow> string" where
  "join sep [] = []"
| "join sep [x] = x"
| "join sep (x # y # xs) = x @ sep @ join sep (y # xs)"

definition cut_char :: "char \<Rightarrow> string \<Rightarrow> (string \<times> string) option" where
  "cut_char c s =
     (if c \<in> set s then Some (takeWhile (\<lambda>x. x \<noteq> c) s, tl (dropWhile (\<lambda>x. x \<noteq> c) s)) else None)"

lemma split_char_not_Nil [simp]: "split_char c s \<noteq> []"
  by (induction s) (auto split: list.splits)

lemma split_char_single: "c \<notin> set s \<Longrightarrow> split_char c s = [s]"
  by (induction s) auto

lemma split_char_append: "split_char c (a @ c # b) = split_char c a @ split_char c b"
proof (induction a)
  case (Cons x xs)
  obtain w ws where "split_char c xs = w # ws" by (cases "split_char c xs") auto
  with Cons show ?case by simp
qed simp

lemma split_char_no_sep: "w \<in> set (split_char c s) \<Longrightarrow> c \<notin> set w"
proof (induction s arbitrary: w)
  case (Cons x xs)
  obtain v vs where v: "split_char c xs = v # vs" by (cases "split_char c xs") auto
  have "c \<notin> set v" "\<And>u. u \<in> set vs \<Longrightarrow> c \<notin> set u" using Cons.IH v by auto
  with Cons.prems v show ?case by (cases "x = c") auto
qed simp

lemma split_char_join:
  "ws \<noteq> [] \<Longrightarrow> \<forall>w\<in>set ws. c \<notin> set w \<Longrightarrow> split_char c (join [c] ws) = ws"
proof (induction ws rule: induct_list012)
  case (3 x y zs)
  then have "split_char c (join [c] (y # zs)) = y # zs" and "c \<notin> set x" by simp_all
  then show ?case using split_char_append [of c x "join [c] (y # zs)"]
    by (simp add: split_char_single)
qed (simp_all add: split_char_single)

lemma join_split_char: "join [c] (split_char c s) = s"
proof (induction s)
  case (Cons x xs)
  obtain w ws where "split_char c xs = w # ws" by (cases "split_char c xs") auto
  with Cons show ?case by (cases ws) auto
qed simp

lemma join_append:
  "xs \<noteq> [] \<Longrightarrow> ys \<noteq> [] \<Longrightarrow> join sep (xs @ ys) = join sep xs @ sep @ join sep ys"
proof (induction xs rule: induct_list012)
  case (2 x)
  then show ?case by (cases ys) auto
qed auto

lemma cut_char_None: "cut_char c s = None \<longleftrightarrow> c \<notin> set s"
  by (simp add: cut_char_def)

lemma cut_char_first: "c \<notin> set a \<Longrightarrow> cut_char c (a @ c # b) = Some (a, b)"
proof -
  assume "c \<notin> set a"
  then have "takeWhile (\<lambda>x. x \<noteq> c) (a @ c # b) = a" "dropWhile (\<lambda>x. x \<noteq> c) (a @ c # b) = c # b"
    by (auto simp: takeWhile_append dropWhile_append)
  then show ?thesis by (simp add: cut_char_def)
qed

lemma cut_char_Some: "cut_char c s = Some (a, b) \<longleftrightarrow> s = a @ c # b \<and> c \<notin> set a"
proof
  assume l: "cut_char c s = Some (a, b)"
  then have "c \<in> set s" by (simp add: cut_char_def split: if_splits)
  then obtain a' b' where s: "s = a' @ c # b'" "c \<notin> set a'" by (metis split_list_first)
  with l cut_char_first show "s = a @ c # b \<and> c \<notin> set a" by fastforce
qed (auto simp: cut_char_first)

section \<open>Case\<close>

text \<open>
  \<open>strings.ToLower\<close> on the ASCII letters; the strings the modelled code lowers are
  provider names, compared with ASCII literals.
\<close>

definition lower_char :: "char \<Rightarrow> char" where
  "lower_char c = (let n = of_char c :: nat in if 65 \<le> n \<and> n \<le> 90 then char_of (n + 32) else c)"

definition to_lower :: "string \<Rightarrow> string" where
  "to_lower s = map lower_char s"

definition equal_fold :: "string \<Rightarrow> string \<Rightarrow> bool" where
  "equal_fold a b = (to_lower a = to_lower b)"

section \<open>Decimal integers\<close>

text \<open>\<open>fmt.Sprintf("%d", n)\<close> and \<open>strconv.Itoa\<close>.\<close>

fun nat_digits :: "nat \<Rightarrow> string" where
  "nat_digits n =
     (if n < 10 then [char_of (48 + n)] else nat_digits (n div 10) @ [char_of (48 + n mod 10)])"

declare nat_digits.simps [simp del]

definition itoa :: "int \<Rightarrow> string" where
  "itoa i = (if i < 0 then CHR ''-'' # nat_digits (nat (- i)) else nat_digits (nat i))"

definition digits_value :: "string \<Rightarrow> nat" where
  "digits_value s = foldl (\<lambda>a c. 10 * a + (of_char c - 48)) 0 s"

lemma digits_value_nat_digits: "digits_value (nat_digits n) = n"
proof (induction n rule: nat_digits.induct)
  case (1 n)
  show ?case
  proof (cases "n < 10")
    case True
    then show ?thesis by (simp add: nat_digits.simps digits_value_def)
  next
    case False
    with 1 have "digits_value (nat_digits (n div 10)) = n div 10" by simp
    with False show ?thesis by (simp add: nat_digits.simps [of n] digits_value_def)
  qed
qed

lemma nat_digits_inj: "nat_digits m = nat_digits n \<Longrightarrow> m = n"
  by (metis digits_value_nat_digits)

lemma nat_digits_digit: "c \<in> set (nat_digits n) \<Longrightarrow> 48 \<le> (of_char c :: nat) \<and> (of_char c :: nat) \<le> 57"
proof (induction n rule: nat_digits.induct)
  case (1 n)
  show ?case
  proof (cases "n < 10")
    case True
    with 1(2) show ?thesis by (simp add: nat_digits.simps [of n])
  next
    case False
    with 1 show ?thesis by (auto simp: nat_digits.simps [of n])
  qed
qed

lemma nat_digits_not_minus: "CHR ''-'' \<notin> set (nat_digits n)"
proof
  assume "CHR ''-'' \<in> set (nat_digits n)"
  from nat_digits_digit [OF this] show False by simp
qed

lemma nat_digits_not_Nil [simp]: "nat_digits n \<noteq> []"
  by (simp add: nat_digits.simps [of n])

lemma itoa_inj: "itoa a = itoa b \<Longrightarrow> a = b"
proof -
  assume eq: "itoa a = itoa b"
  have "nat_digits k \<noteq> CHR ''-'' # s" for k s
    using nat_digits_not_minus [of k] by auto
  with eq show ?thesis
    by (auto simp: itoa_def dest!: nat_digits_inj split: if_splits)
       (metis list.set_intros(1) nat_digits_not_minus)+
qed

text \<open>\<open>strings.Contains\<close>.\<close>

fun contains :: "string \<Rightarrow> string \<Rightarrow> bool" where
  "contains [] t = (t = [])"
| "contains (c # s) t = (has_prefix (c # s) t \<or> contains s t)"

end
