(* ===== verification/GoRunes.thy ===== *)
theory GoRunes
  imports GoStrings
begin

text \<open>
  Strings seen as runes, the way \<open>regexp\<close> reads them: \<open>utf8.DecodeRuneInString\<close> takes one
  rune off the front, and a byte that begins no valid encoding is the replacement
  character U+FFFD of width one.
\<close>

definition byte_of :: "char \<Rightarrow> nat" where
  "byte_of c = of_char c"

definition cont_byte :: "nat \<Rightarrow> bool" where
  "cont_byte b \<longleftrightarrow> 128 \<le> b \<and> b \<le> 191"

abbreviation rune_error :: nat where "rune_error \<equiv> 65533"

text \<open>The second byte of a three and of a four byte encoding, by its first byte.\<close>

definition second_ok3 :: "nat \<Rightarrow> nat \<Rightarrow> bool" where
  "second_ok3 b0 b1 \<longleftrightarrow>
     (if b0 = 224 then 160 \<le> b1 \<and> b1 \<le> 191 else if b0 = 237 then 128 \<le> b1 \<and> b1 \<le> 159 else cont_byte b1)"

definition second_ok4 :: "nat \<Rightarrow> nat \<Rightarrow> bool" where
  "second_ok4 b0 b1 \<longleftrightarrow>
     (if b0 = 240 then 144 \<le> b1 \<and> b1 \<le> 191 else if b0 = 244 then 128 \<le> b1 \<and> b1 \<le> 143 else cont_byte b1)"

definition decode_rune :: "nat list \<Rightarrow> nat \<times> nat" where
  "decode_rune bs =
     (let b0 = hd bs; b1 = bs ! 1; b2 = bs ! 2; b3 = bs ! 3
      in if b0 < 128 then (b0, 1)
         else if 194 \<le> b0 \<and> b0 \<le> 223 \<and> 2 \<le> length bs \<and> cont_byte b1
           then ((b0 - 192) * 64 + (b1 - 128), 2)
         else if 224 \<le> b0 \<and> b0 \<le> 239 \<and> 3 \<le> length bs \<and> second_ok3 b0 b1 \<and> cont_byte b2
           then ((b0 - 224) * 4096 + (b1 - 128) * 64 + (b2 - 128), 3)
         else if 240 \<le> b0 \<and> b0 \<le> 244 \<and> 4 \<le> length bs \<and> second_ok4 b0 b1 \<and> cont_byte b2 \<and> cont_byte b3
           then ((b0 - 240) * 262144 + (b1 - 128) * 4096 + (b2 - 128) * 64 + (b3 - 128), 4)
         else (rune_error, 1))"

lemma decode_rune_width: "0 < snd (decode_rune bs)"
  by (simp add: decode_rune_def Let_def)

text \<open>The runes of a byte string, each with the width it was read at.\<close>

function decode_runes :: "nat list \<Rightarrow> (nat \<times> nat) list" where
  "decode_runes [] = []"
| "decode_runes (b # bs) =
     (let (r, w) = decode_rune (b # bs) in (r, w) # decode_runes (drop w (b # bs)))"
  by pat_completeness auto
termination
proof (relation "measure length")
  fix b bs x r w
  assume "x = decode_rune (b # bs)" and "(r, w) = x"
  then have "0 < w" using decode_rune_width [of "b # bs"] by (metis snd_conv)
  then show "(drop w (b # bs), b # bs) \<in> measure length" by simp
qed simp

definition runes :: "string \<Rightarrow> nat list" where
  "runes s = map fst (decode_runes (map byte_of s))"

definition valid_utf8 :: "string \<Rightarrow> bool" where
  "valid_utf8 s \<longleftrightarrow> (rune_error, 1) \<notin> set (decode_runes (map byte_of s))"

definition ascii :: "string \<Rightarrow> bool" where
  "ascii s \<longleftrightarrow> (\<forall>c\<in>set s. byte_of c < 128)"

lemma ascii_simps [simp]:
  "ascii []"
  "ascii (c # s) \<longleftrightarrow> byte_of c < 128 \<and> ascii s"
  "ascii (s @ t) \<longleftrightarrow> ascii s \<and> ascii t"
  by (auto simp: ascii_def)

lemma decode_runes_low:
  "b < 128 \<Longrightarrow> decode_runes (b # bs) = (b, 1) # decode_runes bs"
  by (simp add: decode_rune_def)

lemma decode_runes_ascii_append:
  "\<forall>b\<in>set bs. b < 128 \<Longrightarrow> decode_runes (bs @ cs) = map (\<lambda>b. (b, 1)) bs @ decode_runes cs"
  by (induction bs) (simp_all add: decode_runes_low del: decode_runes.simps(2))

lemma decode_runes_Nil [simp]: "runes [] = []"
  by (simp add: runes_def)

lemma runes_ascii: "ascii s \<Longrightarrow> runes s = map byte_of s"
  using decode_runes_ascii_append [of "map byte_of s" "[]"]
  by (simp add: runes_def ascii_def comp_def)

lemma valid_utf8_ascii: "ascii s \<Longrightarrow> valid_utf8 s"
  using decode_runes_ascii_append [of "map byte_of s" "[]"]
  by (auto simp: valid_utf8_def ascii_def)

text \<open>
  An ASCII byte is never part of a longer encoding, so a slash in the bytes is a slash in
  the runes and the runes of two parts joined by one are the runes of the parts joined.
\<close>

lemma decode_rune_append_low:
  assumes "bs \<noteq> []" and "c < 128"
  shows "decode_rune (bs @ c # cs) = decode_rune bs \<and> snd (decode_rune bs) \<le> length bs"
proof -
  obtain b bs' where bs: "bs = b # bs'" using assms(1) by (cases bs) auto
  have nc: "\<not> cont_byte c" "\<not> second_ok3 d c" "\<not> second_ok4 d c" for d
    using assms(2) by (auto simp: cont_byte_def second_ok3_def second_ok4_def)
  consider "bs' = []" | x where "bs' = [x]" | x y where "bs' = [x, y]" | x y z w where "bs' = x # y # z # w"
    by (metis neq_Nil_conv)
  then show ?thesis
    by cases (auto simp: bs decode_rune_def Let_def nc)
qed

lemma decode_runes_append_low:
  "c < 128 \<Longrightarrow> decode_runes (bs @ c # cs) = decode_runes bs @ (c, 1) # decode_runes cs"
proof (induction bs rule: decode_runes.induct)
  case 1
  then show ?case by (simp add: decode_runes_low del: decode_runes.simps(2))
next
  case (2 b bs)
  obtain r w where rw: "decode_rune (b # bs) = (r, w)" by fastforce
  with decode_rune_append_low [of "b # bs" c cs] 2(2)
  have app: "decode_rune (b # bs @ c # cs) = (r, w)" and le: "w \<le> length (b # bs)" by auto
  have "decode_runes (drop w (b # bs) @ c # cs) = decode_runes (drop w (b # bs)) @ (c, 1) # decode_runes cs"
    using 2(1) [OF rw [symmetric] refl] 2(2) by blast
  moreover have "drop w ((b # bs) @ c # cs) = drop w (b # bs) @ c # cs"
    using le by (subst drop_append) simp
  ultimately show ?case using rw app by simp
qed

lemma runes_append_low:
  "byte_of c < 128 \<Longrightarrow> runes (s @ c # t) = runes s @ byte_of c # runes t"
  by (simp add: runes_def decode_runes_append_low)

text \<open>Only an ASCII byte decodes to an ASCII rune.\<close>

lemma decode_rune_low: "decode_rune (b # bs) = (r, w) \<Longrightarrow> r < 128 \<Longrightarrow> r = b \<and> w = 1"
  by (auto simp: decode_rune_def Let_def cont_byte_def second_ok3_def second_ok4_def split: if_splits)

lemma decode_runes_set_low: "(r, w) \<in> set (decode_runes bs) \<Longrightarrow> r < 128 \<Longrightarrow> r \<in> set bs"
proof (induction bs rule: decode_runes.induct)
  case (2 b bs)
  obtain r' w' where rw: "decode_rune (b # bs) = (r', w')" by fastforce
  with 2(2) consider "r = r'" "w = w'" | "(r, w) \<in> set (decode_runes (drop w' (b # bs)))" by auto
  then show ?case
  proof cases
    case 1
    then show ?thesis using decode_rune_low [OF rw] 2(3) by simp
  next
    case 2
    then show ?thesis using "2.IH" [OF rw [symmetric] refl] "2.prems"(2) in_set_dropD by metis
  qed
qed simp

lemma runes_set_low: "r \<in> set (runes s) \<Longrightarrow> r < 128 \<Longrightarrow> r \<in> byte_of ` set s"
  using decode_runes_set_low by (fastforce simp: runes_def)

lemma runes_no_low: "c \<notin> set s \<Longrightarrow> byte_of c < 128 \<Longrightarrow> byte_of c \<notin> set (runes s)"
  using runes_set_low [of "byte_of c" s] by (auto simp: byte_of_def)

lemma byte_of_inj [simp]: "byte_of c = byte_of d \<longleftrightarrow> c = d"
  by (simp add: byte_of_def)

lemma decode_runes_eq_low:
  "\<forall>b\<in>set cs. b < 128 \<Longrightarrow> map fst (decode_runes bs) = cs \<longleftrightarrow> bs = cs"
proof (induction bs arbitrary: cs rule: decode_runes.induct)
  case (2 b bs)
  obtain r w where rw: "decode_rune (b # bs) = (r, w)" by fastforce
  show ?case
  proof (cases cs)
    case (Cons c cs')
    show ?thesis
    proof (cases "r < 128")
      case True
      then have "r = b" "w = 1" using decode_rune_low [OF rw] by auto
      with 2(1) [OF rw [symmetric] refl, of cs'] 2(2) rw Cons show ?thesis by auto
    next
      case False
      have "b \<noteq> c"
      proof
        assume "b = c"
        with 2(2) Cons have "b < 128" by simp
        then have "decode_rune (b # bs) = (b, 1)" by (simp add: decode_rune_def)
        with rw False \<open>b < 128\<close> show False by simp
      qed
      moreover have "map fst (decode_runes (b # bs)) \<noteq> cs"
        using False 2(2) Cons rw by auto
      ultimately show ?thesis using Cons by auto
    qed
  qed (simp add: rw)
qed auto

lemma inj_byte_of: "inj byte_of"
  by (simp add: inj_def)

lemma runes_eq_ascii: "ascii p \<Longrightarrow> runes s = map byte_of p \<longleftrightarrow> s = p"
  using decode_runes_eq_low [of "map byte_of p" "map byte_of s"]
  by (auto simp: runes_def ascii_def inj_map_eq_map [OF inj_byte_of])

text \<open>A valid text with a byte outside ASCII has fewer runes than bytes.\<close>

lemma decode_rune_one:
  "decode_rune (b # bs) = (r, 1) \<Longrightarrow> r \<noteq> rune_error \<Longrightarrow> b < 128"
  by (auto simp: decode_rune_def Let_def split: if_splits)

lemma decode_rune_width_le: "snd (decode_rune (b # bs)) \<le> length (b # bs)"
  by (auto simp: decode_rune_def Let_def)

lemma length_decode_runes:
  "length (decode_runes bs) \<le> length bs \<and>
   ((rune_error, 1) \<notin> set (decode_runes bs) \<and> length (decode_runes bs) = length bs \<longrightarrow> (\<forall>b\<in>set bs. b < 128))"
proof (induction bs rule: decode_runes.induct)
  case (2 b bs)
  obtain r w where rw: "decode_rune (b # bs) = (r, w)" by fastforce
  note IH = 2 [OF rw [symmetric] refl]
  have w: "0 < w" using decode_rune_width [of "b # bs"] rw by simp
  have le: "length (decode_runes (drop w (b # bs))) \<le> length (b # bs) - w" using IH by simp
  show ?case
  proof (cases "w = 1")
    case True
    with IH rw decode_rune_one [of b bs r] show ?thesis by auto
  next
    case False
    have "w \<le> length (b # bs)" using decode_rune_width_le [of b bs] rw by simp
    with False w le rw show ?thesis by auto
  qed
qed simp

lemma length_runes_valid:
  assumes "valid_utf8 s" and "\<not> ascii s"
  shows "length (runes s) < length s"
proof -
  have "length (decode_runes (map byte_of s)) \<noteq> length (map byte_of s)"
    using length_decode_runes [of "map byte_of s"] assms by (auto simp: valid_utf8_def ascii_def)
  moreover have "length (decode_runes (map byte_of s)) \<le> length (map byte_of s)"
    using length_decode_runes by blast
  ultimately show ?thesis by (simp add: runes_def)
qed

lemma decode_runes_mem_low: "b \<in> set bs \<Longrightarrow> b < 128 \<Longrightarrow> (b, 1) \<in> set (decode_runes bs)"
  by (metis decode_runes_append_low in_set_conv_decomp split_list)

lemma runes_low_iff: "byte_of c < 128 \<Longrightarrow> byte_of c \<in> set (runes s) \<longleftrightarrow> c \<in> set s"
  using runes_no_low [of c s] decode_runes_mem_low [of "byte_of c" "map byte_of s"]
  by (force simp: runes_def)

end
