(* ===== verification/GoPath.thy ===== *)
theory GoPath
  imports GoStrings
begin

text \<open>
  Go's \<open>path\<close> package, and \<open>path/filepath\<close> on Unix, where the two agree: \<open>Clean\<close>,
  \<open>Base\<close>, \<open>Dir\<close> and \<open>Join\<close>. A path is read as its \<open>/\<close>-separated components; \<open>Clean\<close>
  drops empty and \<open>.\<close> components and resolves each \<open>..\<close> against the component before
  it, which is what the lexical rewriting of the library amounts to.
\<close>

abbreviation slash :: char where "slash \<equiv> CHR ''/''"

section \<open>Clean\<close>

text \<open>
  The component stack is kept reversed. \<open>..\<close> pops a name; at the root of a rooted path
  it is dropped, and above the start of a relative path it is kept.
\<close>

definition clean_step :: "bool \<Rightarrow> string list \<Rightarrow> string \<Rightarrow> string list" where
  "clean_step rooted st c =
     (if c = [] \<or> c = ''.'' then st
      else if c = ''..'' then
        (case st of [] \<Rightarrow> (if rooted then [] else [''..''])
         | t # rest \<Rightarrow> (if t = ''..'' then ''..'' # st else rest))
      else c # st)"

definition clean_comps :: "bool \<Rightarrow> string list \<Rightarrow> string list" where
  "clean_comps rooted cs = rev (foldl (clean_step rooted) [] cs)"

definition rooted :: "string \<Rightarrow> bool" where
  "rooted p = (case p of [] \<Rightarrow> False | c # _ \<Rightarrow> c = slash)"

definition path_comps :: "string \<Rightarrow> string list" where
  "path_comps p = clean_comps (rooted p) (split_char slash p)"

definition path_clean :: "string \<Rightarrow> string" where
  "path_clean p =
     (if rooted p then slash # join [slash] (path_comps p)
      else if path_comps p = [] then ''.''
      else join [slash] (path_comps p))"

section \<open>Base, Dir, Join\<close>

definition after_last_slash :: "string \<Rightarrow> string" where
  "after_last_slash p = rev (takeWhile (\<lambda>c. c \<noteq> slash) (rev p))"

definition upto_last_slash :: "string \<Rightarrow> string" where
  "upto_last_slash p = rev (dropWhile (\<lambda>c. c \<noteq> slash) (rev p))"

definition path_base :: "string \<Rightarrow> string" where
  "path_base p =
     (if p = [] then ''.''
      else let b = after_last_slash (trim_right_char slash p) in if b = [] then [slash] else b)"

definition path_dir :: "string \<Rightarrow> string" where
  "path_dir p = path_clean (upto_last_slash p)"

definition path_join2 :: "string \<Rightarrow> string \<Rightarrow> string" where
  "path_join2 a b =
     (if a = [] then (if b = [] then [] else path_clean b) else path_clean (a @ slash # b))"

lemma split_at_last_slash: "upto_last_slash p @ after_last_slash p = p"
  by (metis after_last_slash_def rev_append rev_rev_ident takeWhile_dropWhile_id upto_last_slash_def)

section \<open>Facts about components\<close>

text \<open>A \<^emph>\<open>name\<close> is a component \<open>Clean\<close> keeps as it is.\<close>

definition is_name :: "string \<Rightarrow> bool" where
  "is_name c \<longleftrightarrow> c \<noteq> [] \<and> c \<noteq> ''.'' \<and> c \<noteq> ''..'' \<and> slash \<notin> set c"

lemma clean_step_name [simp]: "is_name c \<Longrightarrow> clean_step r st c = c # st"
  by (simp add: is_name_def clean_step_def)

lemma foldl_clean_names:
  "\<forall>c\<in>set cs. is_name c \<Longrightarrow> foldl (clean_step r) st cs = rev cs @ st"
  by (induction cs arbitrary: st) auto

lemma clean_comps_append_names:
  "\<forall>c\<in>set ys. is_name c \<Longrightarrow> clean_comps r (xs @ ys) = clean_comps r xs @ ys"
  by (simp add: clean_comps_def foldl_clean_names)

lemma clean_comps_names: "\<forall>c\<in>set ys. is_name c \<Longrightarrow> clean_comps r ys = ys"
  using clean_comps_append_names [of ys r "[]"] by (simp add: clean_comps_def)

text \<open>
  The shape of a cleaned path: some \<open>..\<close> (none when rooted), then names only.
\<close>

definition clean_stack :: "bool \<Rightarrow> string list \<Rightarrow> bool" where
  "clean_stack r st \<longleftrightarrow>
     (\<exists>ns k. st = ns @ replicate k ''..'' \<and> (\<forall>c\<in>set ns. is_name c) \<and> (r \<longrightarrow> k = 0))"

lemma clean_stack_Nil: "clean_stack r []"
  by (auto simp: clean_stack_def)

lemma clean_stack_step:
  assumes "clean_stack r st" and "slash \<notin> set c"
  shows "clean_stack r (clean_step r st c)"
proof -
  obtain ns k where st: "st = ns @ replicate k ''..''" and ns: "\<forall>c\<in>set ns. is_name c"
    and k: "r \<longrightarrow> k = 0"
    using assms(1) by (auto simp: clean_stack_def)
  consider "c = [] \<or> c = ''.''" | "c = ''..''" | "is_name c"
    using assms(2) by (auto simp: is_name_def)
  then show ?thesis
  proof cases
    case 1
    then show ?thesis using assms(1) by (auto simp: clean_step_def)
  next
    case 2
    show ?thesis
    proof (cases ns)
      case Nil
      show ?thesis
      proof (cases k)
        case 0
        have "clean_stack False [''..'']"
          unfolding clean_stack_def by (rule exI [of _ "[]"], rule exI [of _ 1]) simp
        with 0 2 Nil st show ?thesis by (auto simp: clean_step_def clean_stack_Nil)
      next
        case (Suc m)
        with k have "\<not> r" by auto
        with Suc 2 Nil st have "clean_step r st c = [] @ replicate (Suc k) ''..''"
          by (simp add: clean_step_def)
        with \<open>\<not> r\<close> show ?thesis
          unfolding clean_stack_def by (intro exI [of _ "[]"] exI [of _ "Suc k"]) simp
      qed
    next
      case (Cons n ns')
      with ns have "n \<noteq> ''..''" by (auto simp: is_name_def)
      with Cons 2 st have "clean_step r st c = ns' @ replicate k ''..''"
        by (simp add: clean_step_def)
      with Cons ns k show ?thesis unfolding clean_stack_def by auto
    qed
  next
    case 3
    then have "clean_step r st c = (c # ns) @ replicate k ''..''" using st by simp
    with 3 ns k show ?thesis unfolding clean_stack_def by (metis set_ConsD)
  qed
qed

lemma clean_stack_foldl:
  "clean_stack r st \<Longrightarrow> \<forall>c\<in>set cs. slash \<notin> set c \<Longrightarrow> clean_stack r (foldl (clean_step r) st cs)"
  by (induction cs arbitrary: st) (auto intro: clean_stack_step)

lemma path_comps_shape:
  "\<exists>k ns. path_comps p = replicate k ''..'' @ ns \<and> (\<forall>c\<in>set ns. is_name c) \<and> (rooted p \<longrightarrow> k = 0)"
proof -
  have "clean_stack (rooted p) (foldl (clean_step (rooted p)) [] (split_char slash p))"
    by (rule clean_stack_foldl) (auto simp: clean_stack_Nil dest: split_char_no_sep)
  then obtain ns k where "foldl (clean_step (rooted p)) [] (split_char slash p) = ns @ replicate k ''..''"
    and "\<forall>c\<in>set ns. is_name c" and "rooted p \<longrightarrow> k = 0"
    by (auto simp: clean_stack_def)
  then show ?thesis
    by (intro exI [of _ k] exI [of _ "rev ns"]) (auto simp: path_comps_def clean_comps_def)
qed

lemma path_comps_no_slash: "c \<in> set (path_comps p) \<Longrightarrow> slash \<notin> set c \<and> c \<noteq> []"
proof -
  assume c: "c \<in> set (path_comps p)"
  obtain k ns where "path_comps p = replicate k ''..'' @ ns" "\<forall>c\<in>set ns. is_name c"
    using path_comps_shape by blast
  with c have "c = ''..'' \<or> is_name c" by (auto split: if_splits)
  then show ?thesis by (auto simp: is_name_def)
qed

lemma rooted_Cons [simp]: "rooted (c # s) \<longleftrightarrow> c = slash" "\<not> rooted []"
  by (simp_all add: rooted_def)

text \<open>The components of a cleaned path are the components of the path: \<open>Clean\<close> is idempotent.\<close>

lemma foldl_clean_dots:
  "foldl (clean_step False) (replicate j ''..'') (replicate k ''..'') = replicate (k + j) ''..''"
proof (induction k arbitrary: j)
  case (Suc k)
  have "clean_step False (replicate j ''..'') ''..'' = replicate (Suc j) ''..''"
    by (cases j) (simp_all add: clean_step_def)
  then show ?case using Suc.IH [of "Suc j"] by simp
qed simp

lemma clean_comps_replicate_dots:
  assumes "\<forall>c\<in>set ns. is_name c"
  shows "clean_comps False (replicate k ''..'' @ ns) = replicate k ''..'' @ ns"
proof -
  have "clean_comps False (replicate k ''..'') = replicate k ''..''"
    using foldl_clean_dots [of 0 k] by (simp add: clean_comps_def)
  with assms show ?thesis by (simp add: clean_comps_append_names)
qed

lemma path_comps_clean: "path_comps (path_clean p) = path_comps p"
  and rooted_clean: "rooted (path_clean p) = rooted p"
proof -
  obtain k ns where pc: "path_comps p = replicate k ''..'' @ ns"
    and ns: "\<forall>c\<in>set ns. is_name c" and k: "rooted p \<longrightarrow> k = 0"
    using path_comps_shape by blast
  let ?cs = "path_comps p"
  have sj: "?cs \<noteq> [] \<Longrightarrow> split_char slash (join [slash] ?cs) = ?cs"
    by (rule split_char_join) (auto dest: path_comps_no_slash)
  have nr: "\<not> rooted (join [slash] ?cs)" if "?cs \<noteq> []"
  proof -
    obtain c cs where c: "?cs = c # cs" using \<open>?cs \<noteq> []\<close> by (cases ?cs) auto
    then have "slash \<notin> set c \<and> c \<noteq> []" using path_comps_no_slash [of c p] by simp
    then show ?thesis by (cases c; cases cs) (auto simp: c)
  qed
  show "rooted (path_clean p) = rooted p"
    using nr by (auto simp: path_clean_def)
  show "path_comps (path_clean p) = ?cs"
  proof (cases "rooted p")
    case True
    then have "path_clean p = slash # join [slash] ?cs" by (simp add: path_clean_def)
    then have "path_comps (path_clean p) = clean_comps True ([] # split_char slash (join [slash] ?cs))"
      by (simp add: path_comps_def [of "slash # join [slash] (path_comps p)"])
    also have "\<dots> = clean_comps True (split_char slash (join [slash] ?cs))"
      by (simp add: clean_comps_def clean_step_def)
    also have "\<dots> = ?cs"
    proof (cases "?cs = []")
      case True
      then show ?thesis by (simp add: clean_comps_def clean_step_def)
    next
      case False
      with sj True k pc ns show ?thesis by (simp add: clean_comps_names)
    qed
    finally show ?thesis .
  next
    case False
    show ?thesis
    proof (cases "?cs = []")
      case True
      then have "path_clean p = ''.''" using False by (simp add: path_clean_def)
      then show ?thesis using True by (simp add: path_comps_def clean_comps_def clean_step_def)
    next
      case nonempty: False
      then have "path_clean p = join [slash] ?cs" using False by (simp add: path_clean_def)
      moreover have "path_comps (join [slash] ?cs) = clean_comps False ?cs"
        using sj nonempty nr path_comps_def [of "join [slash] ?cs"] by simp
      ultimately show ?thesis using clean_comps_replicate_dots [OF ns, of k] pc by simp
    qed
  qed
qed

lemma path_clean_idem: "path_clean (path_clean p) = path_clean p"
  by (simp add: path_clean_def [of "path_clean p"] path_comps_clean rooted_clean)
     (simp add: path_clean_def)

text \<open>Two clean paths with the same root and components are the same string.\<close>

lemma path_clean_eqI: "rooted p = rooted q \<Longrightarrow> path_comps p = path_comps q \<Longrightarrow> path_clean p = path_clean q"
  by (simp add: path_clean_def)

text \<open>Joining a relative path of names below a root appends its components to the root's.\<close>

lemma rooted_append: "p \<noteq> [] \<Longrightarrow> rooted (p @ q) = rooted p"
  by (cases p) auto

lemma path_comps_join_names:
  assumes "root \<noteq> []" and "\<forall>c\<in>set ns. is_name c" and "ns \<noteq> []"
  shows "path_comps (root @ slash # join [slash] ns) = path_comps root @ ns"
  using assms
  by (simp add: path_comps_def split_char_append rooted_append clean_comps_append_names
      split_char_join is_name_def)

section \<open>Dir makes a path shorter\<close>

definition comps_weight :: "string list \<Rightarrow> nat" where
  "comps_weight cs = sum_list (map (\<lambda>c. length c + 1) cs)"

lemma comps_weight_simps [simp]:
  "comps_weight [] = 0"
  "comps_weight (c # cs) = length c + 1 + comps_weight cs"
  "comps_weight (as @ bs) = comps_weight as + comps_weight bs"
  "comps_weight (rev cs) = comps_weight cs"
  by (auto simp: comps_weight_def rev_map [symmetric])

lemma clean_step_weight: "comps_weight (clean_step r st c) \<le> comps_weight st + length c + 1"
  by (auto simp: clean_step_def split: list.splits)

lemma clean_foldl_weight: "comps_weight (foldl (clean_step r) st cs) \<le> comps_weight st + comps_weight cs"
proof (induction cs arbitrary: st)
  case (Cons c cs)
  show ?case using Cons.IH [of "clean_step r st c"] clean_step_weight [of r st c] by simp
qed simp

lemma split_char_weight: "comps_weight (split_char c s) = length s + 1"
proof (induction c s rule: split_char.induct)
  case (2 c x s)
  then show ?case by (cases "split_char c s") auto
qed auto

lemma length_join1: "cs \<noteq> [] \<Longrightarrow> length (join [c] cs) + 1 = comps_weight cs"
  by (induction cs rule: induct_list012) auto

lemma path_comps_weight: "comps_weight (path_comps p) \<le> (if rooted p then length p else length p + 1)"
proof (cases "rooted p")
  case True
  then obtain t where p: "p = slash # t" by (cases p) auto
  have "split_char slash p = [] # split_char slash t" using p by simp
  then have "path_comps p = clean_comps True (split_char slash t)"
    using p by (simp add: path_comps_def clean_comps_def clean_step_def)
  then show ?thesis
    using clean_foldl_weight [of True "[]" "split_char slash t"] split_char_weight [of slash t] p
    by (simp add: clean_comps_def)
next
  case False
  then show ?thesis
    using clean_foldl_weight [of False "[]" "split_char slash p"] split_char_weight [of slash p]
    by (simp add: path_comps_def clean_comps_def)
qed

lemma length_path_clean: "p \<noteq> [] \<Longrightarrow> length (path_clean p) \<le> length p"
proof (cases "path_comps p = []")
  case True
  then show "p \<noteq> [] \<Longrightarrow> length (path_clean p) \<le> length p" by (cases p) (auto simp: path_clean_def)
next
  case False
  then show "p \<noteq> [] \<Longrightarrow> length (path_clean p) \<le> length p"
    using path_comps_weight [of p] length_join1 [OF False, of slash]
    by (auto simp: path_clean_def split: if_splits)
qed

text \<open>A trailing slash is dropped, unless the path is the root.\<close>

lemma path_clean_trailing:
  assumes "q \<noteq> []"
  shows "path_clean (q @ [slash]) = path_clean q"
proof (rule path_clean_eqI)
  show "rooted (q @ [slash]) = rooted q" using assms by (cases q) auto
  show "path_comps (q @ [slash]) = path_comps q"
    using split_char_append [of slash q "[]"] assms rooted_append [OF assms, of "[slash]"]
    by (simp add: path_comps_def clean_comps_def clean_step_def)
qed

lemma upto_last_slash_cases:
  "upto_last_slash p = [] \<or> (\<exists>q. upto_last_slash p = q @ [slash])"
proof (cases "upto_last_slash p = []")
  case False
  then have "hd (dropWhile (\<lambda>c. c \<noteq> slash) (rev p)) = slash"
    using hd_dropWhile [of "\<lambda>c. c \<noteq> slash" "rev p"] by (auto simp: upto_last_slash_def)
  with False show ?thesis
    by (metis list.collapse rev.simps(2) rev_is_Nil_conv upto_last_slash_def)
qed simp

lemma path_dir_shorter:
  assumes "p \<noteq> ''.''" and "p \<noteq> ''/''" and "p \<noteq> []"
  shows "length (path_dir p) < length p \<or> path_dir p = ''.''"
proof -
  have le: "length (upto_last_slash p) \<le> length p"
    using split_at_last_slash [of p] by (metis le_add1 length_append)
  consider "upto_last_slash p = []" | "upto_last_slash p = [slash]"
    | q where "q \<noteq> []" "upto_last_slash p = q @ [slash]"
    using upto_last_slash_cases [of p] by fastforce
  then show ?thesis
  proof cases
    case 1
    then show ?thesis by (simp add: path_dir_def path_clean_def path_comps_def clean_comps_def clean_step_def)
  next
    case 2
    have "p \<noteq> [slash]" using assms(2) by simp
    then have "length p \<noteq> 1" using 2 split_at_last_slash [of p] by (auto simp: length_Suc_conv)
    moreover have "path_dir p = ''/''"
      using 2 by (simp add: path_dir_def path_clean_def path_comps_def clean_comps_def clean_step_def)
    moreover have "length p \<noteq> 0" using assms(3) by simp
    ultimately have "Suc 0 < length p" by linarith
    then show ?thesis using \<open>path_dir p = ''/''\<close> by simp
  next
    case 3
    then have "length (path_dir p) \<le> length q"
      using length_path_clean [of q] path_clean_trailing [of q] by (simp add: path_dir_def)
    with 3 le show ?thesis by simp
  qed
qed

section \<open>Joined names\<close>

lemma upto_last_slash_append: "slash \<notin> set b \<Longrightarrow> upto_last_slash (a @ slash # b) = a @ [slash]"
proof -
  assume "slash \<notin> set b"
  then have "dropWhile (\<lambda>c. c \<noteq> slash) (rev b @ slash # rev a) = dropWhile (\<lambda>c. c \<noteq> slash) (slash # rev a)"
    by (intro dropWhile_append2) auto
  then show ?thesis by (simp add: upto_last_slash_def)
qed

lemma upto_last_slash_none: "slash \<notin> set b \<Longrightarrow> upto_last_slash b = []"
  using dropWhile_eq_Nil_conv [of "\<lambda>c. c \<noteq> slash" "rev b"] by (auto simp: upto_last_slash_def)

lemma join_names_ends:
  assumes "zs \<noteq> []" and "\<forall>z\<in>set zs. is_name z"
  shows "join [slash] zs \<noteq> [] \<and> hd (join [slash] zs) \<noteq> slash \<and> last (join [slash] zs) \<noteq> slash"
proof -
  have n: "z \<noteq> [] \<and> hd z \<noteq> slash \<and> last z \<noteq> slash" if "is_name z" for z
    using that hd_last_notin [of slash z] by (auto simp: is_name_def)
  show ?thesis using assms
  proof (induction zs rule: induct_list012)
    case (2 z)
    then show ?case using n by simp
  next
    case (3 z y zs)
    then show ?case using n [of z] by auto
  qed simp
qed

lemma path_clean_join_names:
  assumes "zs \<noteq> []" and "\<forall>z\<in>set zs. is_name z"
  shows "path_clean (join [slash] zs) = join [slash] zs"
proof -
  have r: "\<not> rooted (join [slash] zs)"
    using join_names_ends [OF assms] by (cases "join [slash] zs") auto
  have "split_char slash (join [slash] zs) = zs"
    by (rule split_char_join) (use assms in \<open>auto simp: is_name_def\<close>)
  then have "path_comps (join [slash] zs) = zs"
    using r assms(2) by (simp add: path_comps_def clean_comps_names)
  with r assms(1) show ?thesis by (simp add: path_clean_def)
qed

lemma join_name_not_dot: "\<forall>z\<in>set zs. is_name z \<Longrightarrow> join [slash] zs \<noteq> ''.''"
proof (induction zs rule: induct_list012)
  case (3 z y zs)
  then show ?case by (cases z) (auto simp: is_name_def)
qed (auto simp: is_name_def)

lemma path_dir_join_names:
  assumes "\<forall>z\<in>set (zs @ [z]). is_name z"
  shows "path_dir (join [slash] (zs @ [z])) = (if zs = [] then ''.'' else join [slash] zs)"
proof (cases "zs = []")
  case True
  then show ?thesis
    using assms upto_last_slash_none [of z]
    by (simp add: is_name_def path_dir_def path_clean_def path_comps_def clean_comps_def clean_step_def)
next
  case False
  have "join [slash] (zs @ [z]) = join [slash] zs @ slash # z" using False join_append [of zs "[z]" "[slash]"] by simp
  then have "path_dir (join [slash] (zs @ [z])) = path_clean (join [slash] zs @ [slash])"
    using assms upto_last_slash_append [of z "join [slash] zs"] by (simp add: path_dir_def is_name_def)
  also have "\<dots> = join [slash] zs"
    using path_clean_trailing path_clean_join_names [OF False] join_names_ends [OF False] assms by simp
  finally show ?thesis using False by simp
qed

end
