(* ===== verification/GlobMatch.thy ===== *)
theory GlobMatch
  imports GoRunes GoPath
begin

text \<open>
  \<open>data-mig/storagex/filter/glob.go\<close>: an rsync glob is translated, piece by piece, into
  an anchored regular expression, which Go's \<open>regexp\<close> then matches against the runes of
  the path. Every piece the translation writes is a complete regular expression of its
  own, so the expression is kept as the list of its pieces (\<open>frag\<close>) and matching is
  matching the pieces one after the other.

  One kind of piece is not complete by itself: a bracket class is copied into the
  expression unchanged, and a backslash or a \<open>[:\<close> inside it can make the regexp parser
  read past its end. A pattern with such a class is handed to the parameter \<open>rx\<close>, which
  stands for the whole regexp package on that pattern; all other patterns, errors
  included, are evaluated here.
\<close>

section \<open>Pieces of the emitted expression\<close>

datatype frag =
    FOptDirs                             \<comment> \<open>\<open>(?:.*/)?\<close>\<close>
  | FDirs                                \<comment> \<open>\<open>.*/\<close>\<close>
  | FAny                                 \<comment> \<open>\<open>.*\<close>\<close>
  | FSeg                                 \<comment> \<open>\<open>[^/]*\<close>\<close>
  | FOne                                 \<comment> \<open>\<open>[^/]\<close>\<close>
  | FLit nat                             \<comment> \<open>\<open>QuoteMeta(string(c))\<close>: the rune numbered like the byte\<close>
  | FRaw string                          \<comment> \<open>\<open>[body]\<close>, not yet parsed\<close>
  | FClass bool "(nat \<times> nat) list"       \<comment> \<open>\<open>[body]\<close>, parsed: negated, ranges\<close>

definition glob_char_class :: "string \<Rightarrow> (string \<times> string) option" where
  "glob_char_class s =
     (let j1 = (if s \<noteq> [] \<and> (hd s = CHR ''!'' \<or> hd s = CHR ''^'') then 1 else 0);
          j2 = (if j1 < length s \<and> s ! j1 = CHR '']'' then Suc j1 else j1);
          j3 = j2 + length (takeWhile (\<lambda>c. c \<noteq> CHR '']'') (drop j2 s))
      in if length s \<le> j3 then None
         else (let body = take j3 s
               in Some (if has_prefix body ''!'' then CHR ''^'' # drop 1 body else body,
                        drop (Suc j3) s)))"

lemma glob_char_class_shorter: "glob_char_class s = Some (b, t) \<Longrightarrow> length t < length s"
  by (auto simp: glob_char_class_def Let_def split: if_splits)

text \<open>
  The loop of \<open>buildGlobRegexp\<close>. The argument \<open>at_start\<close> is \<open>i == 0\<close>, the string what is
  left of the pattern from \<open>i\<close> on.
\<close>

function glob_frags :: "bool \<Rightarrow> string \<Rightarrow> frag list" where
  "glob_frags at_start [] = []"
| "glob_frags at_start (c # r) =
     (if c = CHR ''*'' then
        (if r \<noteq> [] \<and> hd r = CHR ''*'' then
           (let r2 = tl r
            in if r2 \<noteq> [] \<and> hd r2 = slash
               then (if at_start then FOptDirs else FDirs) # glob_frags False (tl r2)
               else FAny # glob_frags False r2)
         else FSeg # glob_frags False r)
      else if c = CHR ''?'' then FOne # glob_frags False r
      else if c = CHR ''['' then
        (case glob_char_class r of
           None \<Rightarrow> FLit (byte_of c) # glob_frags False r
         | Some (body, r') \<Rightarrow> FRaw body # glob_frags False r')
      else FLit (byte_of c) # glob_frags False r)"
  by pat_completeness auto
termination
  by (relation "measure (\<lambda>(a, s). length s)") (auto dest: glob_char_class_shorter)

section \<open>Compiling\<close>

definition foreign_class :: "string \<Rightarrow> bool" where
  "foreign_class body \<longleftrightarrow>
     CHR 0x5C \<in> set body \<or> (\<exists>i<length body. take 2 (drop i body) = ''[:'')"

text \<open>
  \<open>parseClass\<close> of \<open>regexp/syntax\<close> on a class without escapes and POSIX names: a leading
  \<open>^\<close> negates, \<open>lo-hi\<close> is a range and is refused when \<open>hi < lo\<close>, a \<open>-\<close> that has no upper
  end stands for itself.
\<close>

fun class_ranges :: "nat list \<Rightarrow> (nat \<times> nat) list option" where
  "class_ranges [] = Some []"
| "class_ranges [lo] = Some [(lo, lo)]"
| "class_ranges [lo, d] = Some [(lo, lo), (d, d)]"
| "class_ranges (lo # d # hi # r) =
     (if d = 45
      then (if hi < lo then None else map_option ((#) (lo, hi)) (class_ranges r))
      else map_option ((#) (lo, lo)) (class_ranges (d # hi # r)))"

definition parse_class :: "string \<Rightarrow> frag option" where
  "parse_class body =
     (if \<not> valid_utf8 body then None
      else (let rs = runes body; neg = (rs \<noteq> [] \<and> hd rs = 94)
            in map_option (FClass neg) (class_ranges (if neg then tl rs else rs))))"

fun compile_frags :: "frag list \<Rightarrow> frag list option" where
  "compile_frags [] = Some []"
| "compile_frags (FRaw body # fs) =
     (case parse_class body of None \<Rightarrow> None | Some f \<Rightarrow> map_option ((#) f) (compile_frags fs))"
| "compile_frags (f # fs) = map_option ((#) f) (compile_frags fs)"

datatype compiled_glob =
    GlobErr                    \<comment> \<open>\<open>err != nil\<close>\<close>
  | GlobRe "frag list" bool    \<comment> \<open>the expression and \<open>dirOnly\<close>\<close>
  | GlobForeign bool           \<comment> \<open>left to the parameter, and \<open>dirOnly\<close>\<close>

definition build_glob_regexp :: "string \<Rightarrow> compiled_glob" where
  "build_glob_regexp pattern0 =
     (let dirOnly = has_suffix pattern0 ''/'';
          pattern1 = trim_suffix pattern0 ''/'';
          anchored = has_prefix pattern1 ''/'';
          pattern = trim_prefix pattern1 ''/''
      in if pattern = [] then GlobErr
         else (let fs = (if anchored then [] else [FOptDirs]) @ glob_frags True pattern
               in if \<exists>body\<in>set (List.map_filter (\<lambda>f. case f of FRaw b \<Rightarrow> Some b | _ \<Rightarrow> None) fs). foreign_class body
                  then GlobForeign dirOnly
                  else (case compile_frags fs of None \<Rightarrow> GlobErr | Some gs \<Rightarrow> GlobRe gs dirOnly)))"

section \<open>Matching\<close>

text \<open>
  What \<open>regexp\<close> matches: \<open>.\<close> is every rune but a newline, a negated class also takes a
  newline, and \<open>^\<close> and \<open>$\<close> are the ends of the whole text.
\<close>

definition in_ranges :: "(nat \<times> nat) list \<Rightarrow> nat \<Rightarrow> bool" where
  "in_ranges rs x \<longleftrightarrow> (\<exists>r\<in>set rs. fst r \<le> x \<and> x \<le> snd r)"

fun frag_weight :: "frag \<Rightarrow> nat" where
  "frag_weight FOptDirs = 2"
| "frag_weight _ = 1"

function frags_match :: "frag list \<Rightarrow> nat list \<Rightarrow> bool" where
  "frags_match [] w = (w = [])"
| "frags_match (FOptDirs # fs) w = (frags_match fs w \<or> frags_match (FDirs # fs) w)"
| "frags_match (FDirs # fs) w =
     (case w of [] \<Rightarrow> False
      | x # w' \<Rightarrow> (x = 47 \<and> frags_match fs w') \<or> (x \<noteq> 10 \<and> frags_match (FDirs # fs) w'))"
| "frags_match (FAny # fs) w =
     (frags_match fs w \<or> (case w of [] \<Rightarrow> False | x # w' \<Rightarrow> x \<noteq> 10 \<and> frags_match (FAny # fs) w'))"
| "frags_match (FSeg # fs) w =
     (frags_match fs w \<or> (case w of [] \<Rightarrow> False | x # w' \<Rightarrow> x \<noteq> 47 \<and> frags_match (FSeg # fs) w'))"
| "frags_match (FOne # fs) w =
     (case w of [] \<Rightarrow> False | x # w' \<Rightarrow> x \<noteq> 47 \<and> frags_match fs w')"
| "frags_match (FLit c # fs) w =
     (case w of [] \<Rightarrow> False | x # w' \<Rightarrow> x = c \<and> frags_match fs w')"
| "frags_match (FRaw b # fs) w = False"
| "frags_match (FClass neg rs # fs) w =
     (case w of [] \<Rightarrow> False | x # w' \<Rightarrow> in_ranges rs x \<noteq> neg \<and> frags_match fs w')"
  by pat_completeness auto
termination
  by (relation "measure (\<lambda>(fs, w). length w + sum_list (map frag_weight fs))") auto

type_synonym regexp_engine = "string \<Rightarrow> string \<Rightarrow> bool"

definition glob_match :: "regexp_engine \<Rightarrow> string \<Rightarrow> string \<Rightarrow> bool \<Rightarrow> bool" where
  "glob_match rx pattern path isDir =
     (case build_glob_regexp pattern of
        GlobErr \<Rightarrow> False
      | GlobForeign dirOnly \<Rightarrow>
          (if dirOnly \<and> \<not> isDir then False else rx pattern (trim_char slash path))
      | GlobRe fs dirOnly \<Rightarrow>
          (if dirOnly \<and> \<not> isDir then False
           else frags_match fs (runes (trim_char slash path))))"

section \<open>The language of a piece\<close>

text \<open>
  The declarative reading the matcher implements: each piece has a set of texts, and a
  list of pieces matches a text that splits into one text for each.
\<close>

definition dirs_lang :: "nat list set" where
  "dirs_lang = {u @ [47] | u. 10 \<notin> set u}"

fun frag_lang :: "frag \<Rightarrow> nat list set" where
  "frag_lang FOptDirs = insert [] dirs_lang"
| "frag_lang FDirs = dirs_lang"
| "frag_lang FAny = {u. 10 \<notin> set u}"
| "frag_lang FSeg = {u. 47 \<notin> set u}"
| "frag_lang FOne = {[x] | x. x \<noteq> 47}"
| "frag_lang (FLit c) = {[c]}"
| "frag_lang (FRaw b) = {}"
| "frag_lang (FClass neg rs) = {[x] | x. in_ranges rs x \<noteq> neg}"

fun frags_lang :: "frag list \<Rightarrow> nat list set" where
  "frags_lang [] = {[]}"
| "frags_lang (f # fs) = {u @ v | u v. u \<in> frag_lang f \<and> v \<in> frags_lang fs}"

lemma frags_langI: "u \<in> frag_lang f \<Longrightarrow> v \<in> frags_lang fs \<Longrightarrow> u @ v \<in> frags_lang (f # fs)"
  by auto

lemma dirs_lang_Cons:
  "x # u \<in> dirs_lang \<longleftrightarrow> (x = 47 \<and> u = []) \<or> (x \<noteq> 10 \<and> u \<in> dirs_lang)"
proof -
  have "x # u \<in> dirs_lang \<longleftrightarrow> (\<exists>v. 10 \<notin> set v \<and> x # u = v @ [47])" by (auto simp: dirs_lang_def)
  also have "\<dots> \<longleftrightarrow> (x = 47 \<and> u = []) \<or> (\<exists>v. 10 \<notin> set v \<and> x \<noteq> 10 \<and> u = v @ [47])"
  proof
    assume "\<exists>v. 10 \<notin> set v \<and> x # u = v @ [47]"
    then obtain v where "10 \<notin> set v" "x # u = v @ [47]" by blast
    then show "(x = 47 \<and> u = []) \<or> (\<exists>v. 10 \<notin> set v \<and> x \<noteq> 10 \<and> u = v @ [47])" by (cases v) auto
  next
    assume "(x = 47 \<and> u = []) \<or> (\<exists>v. 10 \<notin> set v \<and> x \<noteq> 10 \<and> u = v @ [47])"
    then show "\<exists>v. 10 \<notin> set v \<and> x # u = v @ [47]"
    proof (elim disjE exE conjE)
      fix v assume "10 \<notin> set v" "x \<noteq> 10" "u = v @ [47]"
      then show ?thesis by (intro exI [of _ "x # v"]) auto
    qed (auto intro: exI [of _ "[]"])
  qed
  finally show ?thesis by (auto simp: dirs_lang_def)
qed

lemma dirs_lang_not_Nil [simp]: "[] \<notin> dirs_lang"
  by (simp add: dirs_lang_def)

text \<open>Prefixing one rune to a text of a looping piece.\<close>

lemma frags_lang_Cons_split:
  "x # w \<in> frags_lang (f # fs) \<longleftrightarrow>
     ([] \<in> frag_lang f \<and> x # w \<in> frags_lang fs) \<or>
     (\<exists>u v. w = u @ v \<and> x # u \<in> frag_lang f \<and> v \<in> frags_lang fs)"
proof
  assume "x # w \<in> frags_lang (f # fs)"
  then obtain u v where uv: "x # w = u @ v" "u \<in> frag_lang f" "v \<in> frags_lang fs" by auto
  then show "([] \<in> frag_lang f \<and> x # w \<in> frags_lang fs) \<or>
     (\<exists>u v. w = u @ v \<and> x # u \<in> frag_lang f \<and> v \<in> frags_lang fs)"
    by (cases u) auto
next
  assume "([] \<in> frag_lang f \<and> x # w \<in> frags_lang fs) \<or>
     (\<exists>u v. w = u @ v \<and> x # u \<in> frag_lang f \<and> v \<in> frags_lang fs)"
  then show "x # w \<in> frags_lang (f # fs)"
    by (metis append.simps(1) append.simps(2) frags_langI)
qed

lemma Nil_frags_lang: "[] \<in> frags_lang (f # fs) \<longleftrightarrow> [] \<in> frag_lang f \<and> [] \<in> frags_lang fs"
  by auto

lemma frags_lang_single:
  assumes "\<forall>u\<in>frag_lang f. \<exists>x. u = [x]"
  shows "w \<in> frags_lang (f # fs) \<longleftrightarrow> (case w of [] \<Rightarrow> False | x # v \<Rightarrow> [x] \<in> frag_lang f \<and> v \<in> frags_lang fs)"
proof (cases w)
  case Nil
  with assms show ?thesis by (auto simp: Nil_frags_lang simp del: frags_lang.simps(2))
next
  case (Cons x v)
  have "[] \<notin> frag_lang f" using assms by auto
  moreover have "u = []" if "x # u \<in> frag_lang f" for u using assms that by auto
  ultimately show ?thesis
    by (simp only: Cons frags_lang_Cons_split list.case) (metis append_Nil)
qed

lemma single_langs:
  "w \<in> frags_lang (FOne # fs) \<longleftrightarrow> (case w of [] \<Rightarrow> False | x # v \<Rightarrow> x \<noteq> 47 \<and> v \<in> frags_lang fs)"
  "w \<in> frags_lang (FLit c # fs) \<longleftrightarrow> (case w of [] \<Rightarrow> False | x # v \<Rightarrow> x = c \<and> v \<in> frags_lang fs)"
  "w \<in> frags_lang (FClass neg rs # fs) \<longleftrightarrow>
     (case w of [] \<Rightarrow> False | x # v \<Rightarrow> in_ranges rs x \<noteq> neg \<and> v \<in> frags_lang fs)"
  "w \<notin> frags_lang (FRaw b # fs)"
  by (simp; fail | subst frags_lang_single; auto split: list.splits)+

theorem frags_match_lang: "frags_match fs w \<longleftrightarrow> w \<in> frags_lang fs"
proof (induction fs w rule: frags_match.induct)
  case (2 fs w)
  have "w \<in> frags_lang (FOptDirs # fs) \<longleftrightarrow> w \<in> frags_lang fs \<or> w \<in> frags_lang (FDirs # fs)"
    by auto
  with 2 show ?case by simp
next
  case (3 fs w)
  show ?case
  proof (cases w)
    case (Cons x w')
    have "w \<in> frags_lang (FDirs # fs) \<longleftrightarrow>
      (\<exists>u v. w' = u @ v \<and> ((x = 47 \<and> u = []) \<or> (x \<noteq> 10 \<and> u \<in> dirs_lang)) \<and> v \<in> frags_lang fs)"
      by (simp only: Cons frags_lang_Cons_split frag_lang.simps dirs_lang_Cons dirs_lang_not_Nil) simp
    then have "w \<in> frags_lang (FDirs # fs) \<longleftrightarrow>
      (x = 47 \<and> w' \<in> frags_lang fs) \<or> (x \<noteq> 10 \<and> w' \<in> frags_lang (FDirs # fs))" by auto
    with 3 Cons show ?thesis by auto
  qed auto
next
  case (4 fs w)
  show ?case
  proof (cases w)
    case (Cons x w')
    have "w \<in> frags_lang (FAny # fs) \<longleftrightarrow>
      w \<in> frags_lang fs \<or> (x \<noteq> 10 \<and> w' \<in> frags_lang (FAny # fs))"
      by (simp only: Cons frags_lang_Cons_split) auto
    with 4 Cons show ?thesis by auto
  qed (use 4 in \<open>simp add: Nil_frags_lang del: frags_lang.simps(2)\<close>)
next
  case (5 fs w)
  show ?case
  proof (cases w)
    case (Cons x w')
    have "w \<in> frags_lang (FSeg # fs) \<longleftrightarrow>
      w \<in> frags_lang fs \<or> (x \<noteq> 47 \<and> w' \<in> frags_lang (FSeg # fs))"
      by (simp only: Cons frags_lang_Cons_split) auto
    with 5 Cons show ?thesis by auto
  qed (use 5 in \<open>simp add: Nil_frags_lang del: frags_lang.simps(2)\<close>)
qed (simp_all add: single_langs split: list.splits del: frags_lang.simps(2))

section \<open>Literal text\<close>

definition glob_meta :: "char \<Rightarrow> bool" where
  "glob_meta c \<longleftrightarrow> c = CHR ''*'' \<or> c = CHR ''?'' \<or> c = CHR ''[''"

definition literal :: "string \<Rightarrow> bool" where
  "literal s \<longleftrightarrow> (\<forall>c\<in>set s. \<not> glob_meta c)"

definition lits :: "string \<Rightarrow> frag list" where
  "lits s = map (\<lambda>c. FLit (byte_of c)) s"

lemma glob_frags_literal:
  "literal a \<Longrightarrow> glob_frags st (a @ r) = lits a @ glob_frags (st \<and> a = []) r"
  by (induction a arbitrary: st) (auto simp: literal_def glob_meta_def lits_def)

lemma frags_lang_lits: "w \<in> frags_lang (lits a @ fs) \<longleftrightarrow> (\<exists>v. w = map byte_of a @ v \<and> v \<in> frags_lang fs)"
proof (induction a arbitrary: w)
  case (Cons c a)
  then show ?case
    by (cases w) (auto simp: lits_def single_langs simp del: frags_lang.simps(2))
qed (simp add: lits_def)

lemma lits_match: "frags_match (lits a) w \<longleftrightarrow> w = map byte_of a"
  using frags_lang_lits [of w a "[]"] by (simp add: frags_match_lang)

lemma lits_no_raw [simp]:
  "List.map_filter (\<lambda>f. case f of FRaw b \<Rightarrow> Some b | _ \<Rightarrow> None) (lits a @ fs) =
   List.map_filter (\<lambda>f. case f of FRaw b \<Rightarrow> Some b | _ \<Rightarrow> None) fs"
  by (induction a) (simp_all add: lits_def map_filter_simps)

lemma compile_lits: "compile_frags (lits a @ fs) = map_option ((@) (lits a)) (compile_frags fs)"
  by (induction a) (simp_all add: lits_def option.map_comp comp_def option.map_ident)

lemma last_snoc_eq: "c # p = t @ [d] \<Longrightarrow> p \<noteq> [] \<Longrightarrow> last p = d"
  by (metis last_ConsR last_snoc)

text \<open>
  Compiling an anchored pattern and an unanchored one whose pieces contain no class.
\<close>

definition class_free :: "frag list \<Rightarrow> bool" where
  "class_free fs \<longleftrightarrow> (\<forall>f\<in>set fs. \<forall>b. f \<noteq> FRaw b)"

lemma class_free_no_raw:
  "class_free fs \<Longrightarrow> List.map_filter (\<lambda>f. case f of FRaw b \<Rightarrow> Some b | _ \<Rightarrow> None) fs = []"
  by (induction fs) (auto simp: class_free_def map_filter_simps split: frag.splits)

lemma compile_class_free: "class_free fs \<Longrightarrow> compile_frags fs = Some fs"
proof (induction fs)
  case (Cons f fs)
  then show ?case by (cases f) (auto simp: class_free_def)
qed simp

lemma build_class_free:
  assumes "p \<noteq> []" and "hd p \<noteq> slash" and "last p \<noteq> slash" and "class_free (glob_frags True p)"
  shows "build_glob_regexp p = GlobRe (FOptDirs # glob_frags True p) False"
    and "build_glob_regexp (slash # p) = GlobRe (glob_frags True p) False"
    and "build_glob_regexp (p @ [slash]) = GlobRe (FOptDirs # glob_frags True p) True"
proof -
  have ns: "\<not> has_suffix p ''/''" "\<not> has_suffix (slash # p) ''/''" "\<not> has_prefix p ''/''"
    using assms(1-3) by (auto simp: has_suffix_iff has_prefix_iff dest: last_snoc_eq)
  have cf: "class_free (FOptDirs # glob_frags True p)" using assms(4) by (auto simp: class_free_def)
  note facts = class_free_no_raw [OF cf] class_free_no_raw [OF assms(4)]
    compile_class_free [OF cf] compile_class_free [OF assms(4)]
  have pre: "trim_prefix (slash # p) ''/'' = p" using trim_prefix_append [of "''/''" p] by simp
  have hp: "has_prefix (slash # p) ''/''" by simp
  have sf: "trim_suffix (p @ [slash]) ''/'' = p" "has_suffix (p @ [slash]) ''/''"
    by (simp_all add: has_suffix_iff)
  show "build_glob_regexp p = GlobRe (FOptDirs # glob_frags True p) False"
    using assms(1) ns facts by (simp add: build_glob_regexp_def Let_def trim_suffix_def trim_prefix_def)
  show "build_glob_regexp (slash # p) = GlobRe (glob_frags True p) False"
    using assms(1) ns hp pre facts by (simp add: build_glob_regexp_def Let_def trim_suffix_def del: has_prefix.simps)
  show "build_glob_regexp (p @ [slash]) = GlobRe (FOptDirs # glob_frags True p) True"
    using assms(1) ns sf facts by (simp add: build_glob_regexp_def Let_def trim_prefix_def)
qed

section \<open>What the patterns of the documentation match\<close>

lemma literal_class_free: "class_free (lits p)"
  by (auto simp: class_free_def lits_def)

lemma glob_frags_lits: "literal p \<Longrightarrow> glob_frags st p = lits p"
  using glob_frags_literal [of p st "[]"] by simp

definition trimmed :: "string \<Rightarrow> bool" where
  "trimmed s \<longleftrightarrow> s \<noteq> [] \<and> hd s \<noteq> slash \<and> last s \<noteq> slash"

lemma trimmed_trim [simp]: "trimmed s \<Longrightarrow> trim_char slash s = s"
  by (auto simp: trimmed_def intro: trim_char_id)

lemma byte_slash [simp]: "byte_of slash = 47"
  by (simp add: byte_of_def)

text \<open>
  an anchored literal pattern \<open>/name\<close> (a valid UTF-8 name without wildcards) matches the
  path it spells exactly when the name is ASCII. A name with a byte outside ASCII, a
  Korean file name say, never matches itself, because each of its bytes is written into
  the expression as a rune of its own (\<open>regexp.QuoteMeta(string(c))\<close> on a byte).
\<close>

lemma glob_literal_matches_itself_iff_ascii:
  assumes "literal p" and "trimmed p" and "valid_utf8 p"
  shows "glob_match rx (slash # p) p isDir \<longleftrightarrow> ascii p"
proof -
  have "build_glob_regexp (slash # p) = GlobRe (lits p) False"
    using build_class_free(2) [of p] assms literal_class_free
    by (simp add: trimmed_def glob_frags_lits)
  then have "glob_match rx (slash # p) p isDir \<longleftrightarrow> runes p = map byte_of p"
    using assms(2) by (simp add: glob_match_def lits_match)
  moreover have "\<not> ascii p \<Longrightarrow> runes p \<noteq> map byte_of p"
    using length_runes_valid [OF assms(3)] by (metis length_map less_irrefl)
  ultimately show ?thesis using runes_ascii by blast
qed

lemma glob_literal_matches_itself_iff_ascii_witness:
  "glob_match (\<lambda>_ _. False) ''/logs'' ''logs'' False \<and>
   \<not> glob_match (\<lambda>_ _. False) (slash # [CHR 0xEA, CHR 0xB0, CHR 0x80]) [CHR 0xEA, CHR 0xB0, CHR 0x80] False"
proof -
  have "literal ''logs''" "trimmed ''logs''" "ascii ''logs''"
    by (simp_all add: literal_def glob_meta_def trimmed_def ascii_def byte_of_def)
  moreover have "literal [CHR 0xEA, CHR 0xB0, CHR 0x80]" "trimmed [CHR 0xEA, CHR 0xB0, CHR 0x80]"
    "valid_utf8 [CHR 0xEA, CHR 0xB0, CHR 0x80]" "\<not> ascii [CHR 0xEA, CHR 0xB0, CHR 0x80]"
    by (simp_all add: literal_def glob_meta_def trimmed_def byte_of_def valid_utf8_def decode_rune_def
        cont_byte_def second_ok3_def)
  ultimately show ?thesis
    using glob_literal_matches_itself_iff_ascii [of "''logs''" "\<lambda>_ _. False" False]
      glob_literal_matches_itself_iff_ascii [of "[CHR 0xEA, CHR 0xB0, CHR 0x80]" "\<lambda>_ _. False" False]
      valid_utf8_ascii [of "''logs''"] by simp
qed

text \<open>A slash-free pattern without classes and without \<open>**\<close> has pieces that stay in one segment.\<close>

definition seg_frag :: "frag \<Rightarrow> bool" where
  "seg_frag f \<longleftrightarrow> (case f of FSeg \<Rightarrow> True | FOne \<Rightarrow> True | FLit c \<Rightarrow> c \<noteq> 47 | _ \<Rightarrow> False)"

definition name_pattern :: "string \<Rightarrow> bool" where
  "name_pattern p \<longleftrightarrow> p \<noteq> [] \<and> slash \<notin> set p \<and> CHR ''['' \<notin> set p \<and>
     (\<forall>i<length p. take 2 (drop i p) \<noteq> ''**'')"

lemma name_pattern_frags:
  "slash \<notin> set p \<Longrightarrow> CHR ''['' \<notin> set p \<Longrightarrow> \<forall>i<length p. take 2 (drop i p) \<noteq> ''**'' \<Longrightarrow>
   \<forall>f\<in>set (glob_frags st p). seg_frag f"
proof (induction p arbitrary: st)
  case (Cons c r)
  have "take 2 (drop i r) \<noteq> ''**''" if "i < length r" for i
    using Cons.prems(3) [rule_format, of "Suc i"] that by simp
  with Cons have IH: "\<forall>f\<in>set (glob_frags st' r). seg_frag f" for st' by auto
  have "\<not> (c = CHR ''*'' \<and> r \<noteq> [] \<and> hd r = CHR ''*'')"
    using Cons.prems(3) [rule_format, of 0] by (cases r) (auto simp: numeral_2_eq_2)
  moreover have "byte_of c \<noteq> 47" using Cons.prems(1) byte_of_inj [of c slash] by auto
  ultimately show ?case using Cons.prems(2) IH by (auto simp: seg_frag_def)
qed simp

lemma seg_frags_lang: "\<forall>f\<in>set fs. seg_frag f \<Longrightarrow> w \<in> frags_lang fs \<Longrightarrow> 47 \<notin> set w"
proof (induction fs arbitrary: w)
  case (Cons f fs)
  from Cons.prems(2) obtain u v where w: "w = u @ v" "u \<in> frag_lang f" "v \<in> frags_lang fs" by auto
  moreover have "47 \<notin> set u" using w(2) Cons.prems(1) by (cases f) (auto simp: seg_frag_def)
  ultimately show ?case using Cons by auto
qed simp

lemma seg_class_free: "\<forall>f\<in>set fs. seg_frag f \<Longrightarrow> class_free fs"
  by (force simp: class_free_def seg_frag_def)

lemma last_sep_unique:
  assumes "d @ x # b = d' @ x # v" and "x \<notin> set b" and "x \<notin> set v"
  shows "d = d' \<and> b = v"
proof -
  have "takeWhile (\<lambda>y. y \<noteq> x) (rev (a @ x # c)) = rev c" if "x \<notin> set c" for a c
    using that takeWhile_append2 [of "rev c" "\<lambda>y. y \<noteq> x" "x # rev a"] by auto
  then have "rev b = rev v" using assms by metis
  with assms(1) show ?thesis by simp
qed

text \<open>What the optional-directories piece adds: the match is decided behind the last slash.\<close>

lemma opt_dirs_base:
  assumes "\<forall>f\<in>set fs. seg_frag f" and "47 \<notin> set b"
  shows "d @ 47 # b \<in> frags_lang (FOptDirs # fs) \<longleftrightarrow> 10 \<notin> set d \<and> b \<in> frags_lang fs"
proof
  assume "d @ 47 # b \<in> frags_lang (FOptDirs # fs)"
  then obtain u v where uv: "d @ 47 # b = u @ v" "u = [] \<or> u \<in> dirs_lang" "v \<in> frags_lang fs" by auto
  have nv: "47 \<notin> set v" using seg_frags_lang assms(1) uv(3) by blast
  then have "u \<noteq> []" using uv(1) by auto
  then obtain d' where u: "u = d' @ [47]" "10 \<notin> set d'" using uv(2) by (auto simp: dirs_lang_def)
  have "d = d' \<and> b = v"
    using uv(1) u(1) nv assms(2) by (intro last_sep_unique [of d 47 b d' v]) auto
  with u uv show "10 \<notin> set d \<and> b \<in> frags_lang fs" by simp
next
  assume "10 \<notin> set d \<and> b \<in> frags_lang fs"
  then show "d @ 47 # b \<in> frags_lang (FOptDirs # fs)"
    using frags_langI [of "d @ [47]" FOptDirs b fs] by (auto simp: dirs_lang_def)
qed

text \<open>
  a pattern with no slash judges the base name, at any depth: for a path \<open>d/b\<close> it holds
  exactly when the same pattern anchored holds of \<open>b\<close> and the directory part \<open>d\<close> has no
  newline (the emitted \<open>.\<close> does not cross one).
\<close>

lemma glob_name_pattern_base:
  assumes "name_pattern p" and "slash \<notin> set b" and "b \<noteq> []" and "d \<noteq> []" and "hd d \<noteq> slash"
  shows "glob_match rx p (d @ slash # b) isDir \<longleftrightarrow>
     CHR 0x0A \<notin> set d \<and> glob_match rx (slash # p) b isDir"
proof -
  let ?fs = "glob_frags True p"
  have seg: "\<forall>f\<in>set ?fs. seg_frag f" using assms(1) name_pattern_frags by (auto simp: name_pattern_def)
  have p: "p \<noteq> []" "hd p \<noteq> slash" "last p \<noteq> slash"
    using assms(1) hd_last_notin [of slash p] by (auto simp: name_pattern_def)
  note b = build_class_free [OF p seg_class_free [OF seg]]
  have tr: "trimmed (d @ slash # b)" "trimmed b"
    using assms(2-5) hd_last_notin [of slash b] by (auto simp: trimmed_def)
  have nb: "47 \<notin> set (runes b)" using runes_no_low [OF assms(2)] by simp
  have nl: "10 \<in> set (runes d) \<longleftrightarrow> CHR 0x0A \<in> set d"
    by (rule runes_low_iff [of "CHR 0x0A", simplified byte_of_def, simplified])
  have "glob_match rx p (d @ slash # b) isDir \<longleftrightarrow> runes d @ 47 # runes b \<in> frags_lang (FOptDirs # ?fs)"
    using tr b(1) by (simp add: glob_match_def runes_append_low frags_match_lang del: frags_lang.simps frags_match.simps)
  also have "\<dots> \<longleftrightarrow> 10 \<notin> set (runes d) \<and> runes b \<in> frags_lang ?fs" by (rule opt_dirs_base [OF seg nb])
  also have "runes b \<in> frags_lang ?fs \<longleftrightarrow> glob_match rx (slash # p) b isDir"
    using tr b(2) by (simp add: glob_match_def frags_match_lang)
  finally show ?thesis using nl by simp
qed

lemma glob_name_pattern_base_witness:
  "glob_match (\<lambda>_ _. False) ''*.go'' ''src/main.go'' False =
     (CHR 0x0A \<notin> set ''src'' \<and> glob_match (\<lambda>_ _. False) ''/*.go'' ''main.go'' False)"
proof -
  have "take 2 (drop i ''*.go'') \<noteq> ''**''" for i
    by (cases i; cases "i - 1"; cases "i - 2"; cases "i - 3") (auto simp: numeral_2_eq_2 drop_Cons')
  then have "name_pattern ''*.go''" by (simp add: name_pattern_def)
  from glob_name_pattern_base [OF this, of "''main.go''" "''src''" "\<lambda>_ _. False" False]
  show ?thesis by simp
qed

text \<open>
  The two-star pieces: \<open>a/**/x\<close> anchored, \<open>**/x\<close>, and \<open>a/**\<close>, with \<open>a\<close> and \<open>x\<close> literal.
\<close>

lemma literal_append [simp]: "literal (a @ b) \<longleftrightarrow> literal a \<and> literal b"
  by (auto simp: literal_def)

lemma between_frags:
  assumes "literal a" and "a \<noteq> []" and "literal x"
  shows "glob_frags True (a @ ''/**/'' @ x) = lits (a @ ''/'') @ FDirs # lits x"
  using glob_frags_literal [of "a @ ''/''" True "''**/'' @ x"] glob_frags_lits [of x False] assms
  by (simp add: literal_def glob_meta_def)

lemma frags_lang_lits_whole: "w \<in> frags_lang (lits x) \<longleftrightarrow> w = map byte_of x"
  using frags_lang_lits [of w x "[]"] by simp

text \<open>
  \<open>/a/**/x\<close> needs at least one directory in between: it matches a path exactly when the
  path is \<open>a/\<close>, then a non-empty run ending in a slash, then \<open>x\<close> \<open>(\<close>with no newline in the run\<open>)\<close>;
  in particular never \<open>a/x\<close>.
\<close>

lemma glob_double_star_between:
  assumes "literal a" and "literal x" and "ascii a" and "ascii x" and "trimmed a" and "trimmed x"
    and "trimmed w"
  shows "glob_match rx (''/'' @ a @ ''/**/'' @ x) w isDir \<longleftrightarrow>
     (\<exists>u. runes w = runes a @ [47] @ u @ [47] @ runes x \<and> 10 \<notin> set u)"
proof -
  let ?p = "a @ ''/**/'' @ x"
  have ne: "?p \<noteq> []" "hd ?p \<noteq> slash" "last ?p \<noteq> slash" "a \<noteq> []"
    using assms(5,6) by (auto simp: trimmed_def)
  have fr: "glob_frags True ?p = lits (a @ ''/'') @ FDirs # lits x"
    using between_frags assms(1,2) ne(4) by blast
  have cf: "class_free (glob_frags True ?p)"
    using literal_class_free [of "a @ ''/''"] literal_class_free [of x]
    unfolding fr class_free_def by auto
  have "glob_match rx (slash # ?p) w isDir \<longleftrightarrow> runes w \<in> frags_lang (lits (a @ ''/'') @ FDirs # lits x)"
    using build_class_free(2) [OF ne(1-3) cf] assms(7) fr
    by (simp add: glob_match_def frags_match_lang del: frags_lang.simps frags_match.simps)
  also have "\<dots> \<longleftrightarrow> (\<exists>u. runes w = map byte_of a @ [47] @ u @ [47] @ map byte_of x \<and> 10 \<notin> set u)"
    by (auto simp: frags_lang_lits frags_lang_lits_whole dirs_lang_def)
  finally show ?thesis using assms(3,4) by (simp add: runes_ascii)
qed

lemma glob_double_star_between_witness:
  "glob_match (\<lambda>_ _. False) (''/'' @ ''a'' @ ''/**/'' @ ''x.txt'') ''a/b/c/x.txt'' False"
proof -
  have l: "literal ''a''" "literal ''x.txt''" "ascii ''a''" "ascii ''x.txt''" "trimmed ''a''" "trimmed ''x.txt''"
    "trimmed ''a/b/c/x.txt''" "ascii ''a/b/c/x.txt''"
    by (simp_all add: literal_def glob_meta_def byte_of_def trimmed_def)
  have "runes ''a/b/c/x.txt'' = runes ''a'' @ [47] @ map byte_of ''b/c'' @ [47] @ runes ''x.txt''"
    using l by (simp add: runes_ascii byte_of_def)
  moreover have "10 \<notin> set (map byte_of ''b/c'')" by (simp add: byte_of_def)
  ultimately show ?thesis
    using glob_double_star_between [OF l(1-7), of "\<lambda>_ _. False" False] by blast
qed

text \<open>
  the catch-all \<open>*\<close> reaches every item whose directory part has no newline, and misses
  the others, which is why \<open>isCatchAllExclude\<close>'s ``drops everything that reaches it'' holds
  for all names but those.
\<close>

lemma glob_catch_all:
  assumes "trimmed w"
  shows "glob_match rx ''*'' w isDir \<longleftrightarrow>
     (\<forall>d b. w = d @ slash # b \<and> slash \<notin> set b \<longrightarrow> CHR 0x0A \<notin> set d)"
proof -
  have cf: "class_free (glob_frags True ''*'')" by (simp add: class_free_def)
  have m: "glob_match rx ''*'' w isDir \<longleftrightarrow> runes w \<in> frags_lang [FOptDirs, FSeg]"
    using build_class_free(1) [OF _ _ _ cf] assms
    by (simp add: glob_match_def frags_match_lang del: frags_lang.simps frags_match.simps)
  show ?thesis
  proof (cases "slash \<in> set w")
    case True
    then obtain b' d' where "rev w = b' @ slash # d'" "slash \<notin> set b'"
      by (metis set_rev split_list_first)
    then have w: "w = rev d' @ slash # rev b'" "slash \<notin> set (rev b')" by (simp_all add: rev_swap)
    have "runes w = runes (rev d') @ 47 # runes (rev b')" using w(1) runes_append_low [of slash] by simp
    moreover have "47 \<notin> set (runes (rev b'))" using runes_no_low [OF w(2)] by simp
    ultimately have "glob_match rx ''*'' w isDir \<longleftrightarrow> 10 \<notin> set (runes (rev d'))"
      using opt_dirs_base [of "[FSeg]" "runes (rev b')" "runes (rev d')"] m by (simp add: seg_frag_def)
    also have "\<dots> \<longleftrightarrow> CHR 0x0A \<notin> set (rev d')"
      using runes_low_iff [of "CHR 0x0A" "rev d'"] by (simp add: byte_of_def)
    also have "\<dots> \<longleftrightarrow> (\<forall>d b. w = d @ slash # b \<and> slash \<notin> set b \<longrightarrow> CHR 0x0A \<notin> set d)"
      using last_sep_unique w by metis
    finally show ?thesis .
  next
    case False
    then have "47 \<notin> set (runes w)" using runes_no_low [of slash w] by simp
    then have "runes w \<in> frags_lang [FOptDirs, FSeg]" by auto
    with m False show ?thesis by auto
  qed
qed

lemma glob_catch_all_witness:
  "glob_match (\<lambda>_ _. False) ''*'' ''main.go'' False"
  using glob_catch_all [of "''main.go''" "\<lambda>_ _. False" False]
  by (auto simp: trimmed_def append_eq_Cons_conv Cons_eq_append_conv)

end
