(* ===== verification/CommonModel.thy ===== *)
theory CommonModel
  imports GoStrings
begin

text \<open>
  The property types shared by the source and target models
  (\<open>dmdl/common-model/connection.go\<close>, \<open>filter.go\<close>, \<open>model.go\<close>). A Go struct is a
  record, a pointer field an \<open>option\<close>, a slice a list (a nil slice and an empty one are
  both \<open>[]\<close>, except where the code tells them apart, see \<open>SourceModel\<close>), an \<open>int\<close> or
  \<open>int64\<close> an \<open>int\<close>. Field names carry the record's initials, since Isabelle's selectors
  are global.
\<close>

section \<open>Connection references\<close>

text \<open>
  \<open>ConnectionSource\<close> is a Go string with seven named values; any other string can reach
  the code (no validator runs on the tags), which is \<open>UnknownSource\<close>.
\<close>

datatype connection_source =
    ConnectionSourceHoneybee
  | ConnectionSourceBeetleSSH
  | ConnectionSourceBeetleObjectStorage
  | ConnectionSourceBeetleDB
  | ConnectionSourceSSH
  | ConnectionSourceMinio
  | ConnectionSourceDB
  | UnknownSource string

fun connection_source_string :: "connection_source \<Rightarrow> string" where
  "connection_source_string ConnectionSourceHoneybee = ''honeybee''"
| "connection_source_string ConnectionSourceBeetleSSH = ''beetleSsh''"
| "connection_source_string ConnectionSourceBeetleObjectStorage = ''beetleObjectStorage''"
| "connection_source_string ConnectionSourceBeetleDB = ''beetleDb''"
| "connection_source_string ConnectionSourceSSH = ''ssh''"
| "connection_source_string ConnectionSourceMinio = ''minio''"
| "connection_source_string ConnectionSourceDB = ''db''"
| "connection_source_string (UnknownSource s) = s"

abbreviation ProviderOpenStack :: string where "ProviderOpenStack \<equiv> ''openstack''"
abbreviation ProviderOnPrem :: string where "ProviderOnPrem \<equiv> ''onprem''"

record honeybee_ref =
  hb_ConnectionID :: string

record beetle_ssh_ref =
  bssh_NsID :: string
  bssh_InfraID :: string
  bssh_NodeID :: string

record beetle_os_ref =
  bos_NsID :: string
  bos_OsID :: string

record beetle_db_ref =
  bdb_NsID :: string
  bdb_RdbmsID :: string
  bdb_Username :: string
  bdb_Password :: string
  bdb_TLSMode :: string
  bdb_TLSCAPEM :: string

record ssh_conn_config =
  ssh_Host :: string
  ssh_Port :: int
  ssh_Username :: string
  ssh_PrivateKey :: string

record minio_conn_config =
  mc_ProviderName :: string
  mc_Endpoint :: string
  mc_AccessKeyId :: string
  mc_SecretAccessKey :: string
  mc_Region :: string
  mc_UseSSL :: bool
  mc_BucketLookup :: string

record db_conn_config =
  dbc_ProviderName :: string
  dbc_DBMSType :: string
  dbc_AccessType :: string
  dbc_Host :: string
  dbc_Port :: int
  dbc_Username :: string
  dbc_Password :: string
  dbc_ConnectTimeout :: int
  dbc_TLSMode :: string
  dbc_TLSCAPEM :: string
  dbc_AuthSource :: string
  dbc_SSHTunnel :: "ssh_conn_config option"

record connection_ref =
  cr_Source :: connection_source
  cr_Honeybee :: "honeybee_ref option"
  cr_BeetleSSH :: "beetle_ssh_ref option"
  cr_BeetleOS :: "beetle_os_ref option"
  cr_BeetleDB :: "beetle_db_ref option"
  cr_SSH :: "ssh_conn_config option"
  cr_Minio :: "minio_conn_config option"
  cr_DB :: "db_conn_config option"

text \<open>A ref whose pointers are all nil, and the honeybee ref a discovery produces.\<close>

definition empty_ref :: "connection_source \<Rightarrow> connection_ref" where
  "empty_ref s =
     \<lparr>cr_Source = s, cr_Honeybee = None, cr_BeetleSSH = None, cr_BeetleOS = None,
      cr_BeetleDB = None, cr_SSH = None, cr_Minio = None, cr_DB = None\<rparr>"

definition honeybee_conn :: "string \<Rightarrow> connection_ref" where
  "honeybee_conn i =
     (empty_ref ConnectionSourceHoneybee)\<lparr>cr_Honeybee := Some \<lparr>hb_ConnectionID = i\<rparr>\<rparr>"

section \<open>Filters\<close>

abbreviation FilterActionInclude :: string where "FilterActionInclude \<equiv> ''include''"
abbreviation FilterActionExclude :: string where "FilterActionExclude \<equiv> ''exclude''"
abbreviation PathRuleGlob :: string where "PathRuleGlob \<equiv> ''glob''"
abbreviation PathRuleSize :: string where "PathRuleSize \<equiv> ''size''"

record path_filter_rule =
  pfr_Action :: string
  pfr_Type :: string
  pfr_Pattern :: string
  pfr_Op :: string
  pfr_Value :: int

abbreviation DBMSRuleTableColumn :: string where "DBMSRuleTableColumn \<equiv> ''table_column''"
abbreviation DBMSRuleRowExclude :: string where "DBMSRuleRowExclude \<equiv> ''row_exclude''"
abbreviation DBMSRuleObjectExclude :: string where "DBMSRuleObjectExclude \<equiv> ''object_exclude''"

record dbms_filter_rule =
  dfr_Type :: string
  dfr_Table :: string
  dfr_Columns :: "string list"
  dfr_Match :: string
  dfr_Kind :: string
  dfr_Name :: string

record pg_schema_mapping =
  pg_SrcName :: string
  pg_DstName :: string

record target_mapping =
  tm_SrcName :: string
  tm_DstName :: string
  tm_PgSchemas :: "pg_schema_mapping list"

record file_system_filter =
  fsf_Rules :: "path_filter_rule list"
  fsf_TargetMapping :: target_mapping

record object_storage_filter =
  osf_Rules :: "path_filter_rule list"
  osf_TargetMapping :: target_mapping

record dbms_filter_entry =
  dfe_TargetMapping :: target_mapping
  dfe_Rules :: "dbms_filter_rule list"

record dbms_filter =
  df_Databases :: "dbms_filter_entry list"

section \<open>Enumerations\<close>

abbreviation DBMSTypePostgreSQL :: string where "DBMSTypePostgreSQL \<equiv> ''postgresql''"
abbreviation DBMSTypeMongoDB :: string where "DBMSTypeMongoDB \<equiv> ''mongodb''"
abbreviation StrategyDirect :: string where "StrategyDirect \<equiv> ''direct''"
abbreviation StrategyRelay :: string where "StrategyRelay \<equiv> ''relay''"
abbreviation StorageTypeFilesystem :: string where "StorageTypeFilesystem \<equiv> ''filesystem''"
abbreviation StorageTypeObjectStorage :: string where "StorageTypeObjectStorage \<equiv> ''objectstorage''"

end
