(* ===== verification/PathFilter.thy ===== *)
theory PathFilter
  imports GlobMatch CommonModel
begin

text \<open>
  The ordered filter pipeline of \<open>data-mig/storagex/filter\<close> (\<open>filter.go\<close>, \<open>size.go\<close>,
  \<open>registry.go\<close>, \<open>path.go\<close>), its translation to rsync flags (\<open>rsyncFilterArgs\<close> of
  \<open>executor-rsync.go\<close>) and the conversion of plan rules into it
  (\<open>pkg/core/migration/filterconv.go\<close>). The two matcher types are the two the repository
  registers. The \<open>sync.Once\<close> caches of an \<open>Option\<close> hold values that are functions of its
  fields, so the functions are called where the code reads the cache.
\<close>

section \<open>Items, matchers, rules\<close>

record item =
  it_Path :: string
  it_Name :: string
  it_Size :: int
  it_ModTime :: int
  it_IsDir :: bool

datatype matcher = GlobMatcher string | SizeMatcher string int

record filter_rule =
  fr_Action :: string
  fr_Matcher :: "matcher option"

record filter_option =
  fo_Rules :: "filter_rule list"
  fo_Include :: "string list"
  fo_Exclude :: "string list"
  fo_MaxDepth :: int

datatype filter_error =
    InvalidAction string
  | UnknownFilterType string
  | GlobPatternRequired
  | SizeInvalidOp string
  | GlobUnknownAction string
  | SizeOnlyExclude string
  | SizeExcludesAll int
  | SizeOpInexpressible string
  | NoTranslator

abbreviation ActionInclude :: string where "ActionInclude \<equiv> ''include''"
abbreviation ActionExclude :: string where "ActionExclude \<equiv> ''exclude''"

text \<open>The value an \<open>int64\<close> holds after an addition.\<close>

definition wrap64 :: "int \<Rightarrow> int" where
  "wrap64 x = (x + 2 ^ 63) mod 2 ^ 64 - 2 ^ 63"

definition max_int64 :: int where
  "max_int64 = 2 ^ 63 - 1"

lemma wrap64_id: "- (2 ^ 63) \<le> x \<Longrightarrow> x \<le> max_int64 \<Longrightarrow> wrap64 x = x"
  by (simp add: wrap64_def max_int64_def)

section \<open>Decoding a rule\<close>

definition new_glob_matcher :: "string \<Rightarrow> filter_error + matcher" where
  "new_glob_matcher pattern =
     (if pattern = [] then Inl GlobPatternRequired else Inr (GlobMatcher pattern))"

definition new_size_matcher :: "string \<Rightarrow> int \<Rightarrow> filter_error + matcher" where
  "new_size_matcher op v =
     (if op \<in> {''>'', ''>='', ''<'', ''<='', ''==''} then Inr (SizeMatcher op v) else Inl (SizeInvalidOp op))"

text \<open>
  A plan rule reaches the pipeline as the JSON object its fields serialise to;
  \<open>UnmarshalJSON\<close> dispatches on the type to the registered factory.
\<close>

definition rule_unmarshal :: "path_filter_rule \<Rightarrow> filter_error + filter_rule" where
  "rule_unmarshal r =
     (if pfr_Action r \<noteq> ActionInclude \<and> pfr_Action r \<noteq> ActionExclude then Inl (InvalidAction (pfr_Action r))
      else
        bind_res
          (if pfr_Type r = ''glob'' then new_glob_matcher (pfr_Pattern r)
           else if pfr_Type r = ''size'' then new_size_matcher (pfr_Op r) (pfr_Value r)
           else Inl (UnknownFilterType (pfr_Type r)))
          (\<lambda>m. Inr \<lparr>fr_Action = pfr_Action r, fr_Matcher = Some m\<rparr>))"

fun unmarshal_rules :: "path_filter_rule list \<Rightarrow> filter_error + filter_rule list" where
  "unmarshal_rules [] = Inr []"
| "unmarshal_rules (r # rs) =
     bind_res (rule_unmarshal r) (\<lambda>x. bind_res (unmarshal_rules rs) (\<lambda>xs. Inr (x # xs)))"

definition to_data_mig_filter :: "path_filter_rule list \<Rightarrow> filter_error + filter_option option" where
  "to_data_mig_filter rules =
     (if rules = [] then Inr None
      else bind_res (unmarshal_rules rules)
             (\<lambda>rs. Inr (Some \<lparr>fo_Rules = rs, fo_Include = [], fo_Exclude = [], fo_MaxDepth = 0\<rparr>)))"

section \<open>Matching\<close>

definition size_match :: "string \<Rightarrow> int \<Rightarrow> item \<Rightarrow> bool" where
  "size_match op v it =
     (if op = ''>'' then it_Size it > v
      else if op = ''>='' then it_Size it \<ge> v
      else if op = ''<'' then it_Size it < v
      else if op = ''<='' then it_Size it \<le> v
      else if op = ''=='' then it_Size it = v
      else False)"

fun matcher_match :: "regexp_engine \<Rightarrow> matcher \<Rightarrow> item \<Rightarrow> bool" where
  "matcher_match rx (GlobMatcher p) it = glob_match rx p (it_Path it) (it_IsDir it)"
| "matcher_match rx (SizeMatcher op v) it = size_match op v it"

definition rule_applies :: "regexp_engine \<Rightarrow> filter_rule \<Rightarrow> item \<Rightarrow> bool" where
  "rule_applies rx r it = (case fr_Matcher r of None \<Rightarrow> False | Some m \<Rightarrow> matcher_match rx m it)"

fun match_rules :: "regexp_engine \<Rightarrow> filter_rule list \<Rightarrow> item \<Rightarrow> bool" where
  "match_rules rx [] it = True"
| "match_rules rx (r # rs) it =
     (if rule_applies rx r it then fr_Action r = ActionInclude else match_rules rx rs it)"

definition has_include :: "filter_rule list \<Rightarrow> bool" where
  "has_include rules = list_ex (\<lambda>r. fr_Action r = ActionInclude) rules"

definition is_catch_all_exclude :: "filter_rule \<Rightarrow> bool" where
  "is_catch_all_exclude r =
     (if fr_Action r \<noteq> ActionExclude then False
      else (case fr_Matcher r of
              Some (GlobMatcher p) \<Rightarrow> p = ''*'' \<or> p = ''**''
            | _ \<Rightarrow> False))"

definition dir_pass :: filter_rule where
  "dir_pass = \<lparr>fr_Action = ActionInclude, fr_Matcher = Some (GlobMatcher ''*/'')\<rparr>"

fun insert_dir_pass :: "filter_rule list \<Rightarrow> filter_rule list" where
  "insert_dir_pass [] = []"
| "insert_dir_pass (r # rs) =
     (if is_catch_all_exclude r then dir_pass # r # rs else r # insert_dir_pass rs)"

definition with_dir_pass :: "filter_rule list \<Rightarrow> filter_rule list" where
  "with_dir_pass rules = (if \<not> has_include rules then rules else insert_dir_pass rules)"

definition glob_rule :: "string \<Rightarrow> string \<Rightarrow> filter_rule" where
  "glob_rule action p = \<lparr>fr_Action = action, fr_Matcher = Some (GlobMatcher p)\<rparr>"

definition build_effective :: "filter_option \<Rightarrow> filter_rule list" where
  "build_effective opt =
     (if fo_Rules opt \<noteq> [] then with_dir_pass (fo_Rules opt)
      else with_dir_pass
        (map (glob_rule ActionExclude) (fo_Exclude opt) @
         (if fo_Include opt \<noteq> []
          then map (glob_rule ActionInclude) (fo_Include opt) @ [glob_rule ActionExclude ''*'']
          else [])))"

definition effective_rules :: "filter_option option \<Rightarrow> filter_rule list" where
  "effective_rules opt = (case opt of None \<Rightarrow> [] | Some opt' \<Rightarrow> build_effective opt')"

definition option_match :: "regexp_engine \<Rightarrow> filter_option option \<Rightarrow> item \<Rightarrow> bool" where
  "option_match rx opt it =
     (if opt = None then True
      else if it_Path it = [] then True
      else match_rules rx (effective_rules opt) it)"

definition is_glob_rule :: "filter_rule \<Rightarrow> bool" where
  "is_glob_rule r = (case fr_Matcher r of Some (GlobMatcher _) \<Rightarrow> True | _ \<Rightarrow> False)"

definition directory_rules :: "filter_option option \<Rightarrow> filter_rule list" where
  "directory_rules opt = filter is_glob_rule (effective_rules opt)"

text \<open>The directories the loop of \<open>MatchPath\<close> visits, starting from \<open>dir\<close>.\<close>

function path_ancestors :: "string \<Rightarrow> string list" where
  "path_ancestors dir =
     (if dir \<noteq> ''.'' \<and> dir \<noteq> ''/'' \<and> dir \<noteq> '''' then dir # path_ancestors (path_dir dir) else [])"
  by pat_completeness auto
termination
proof (relation "measure (\<lambda>d. if d = ''.'' then 0 else length d)")
  fix dir :: string
  assume "dir \<noteq> ''.'' \<and> dir \<noteq> ''/'' \<and> dir \<noteq> ''''"
  then show "(path_dir dir, dir) \<in> measure (\<lambda>d. if d = ''.'' then 0 else length d)"
    using path_dir_shorter [of dir] by auto
qed simp

declare path_ancestors.simps [simp del]

definition mk_item :: "string \<Rightarrow> int \<Rightarrow> bool \<Rightarrow> item" where
  "mk_item p sz isDir =
     \<lparr>it_Path = p, it_Name = path_base p, it_Size = sz, it_ModTime = 0, it_IsDir = isDir\<rparr>"

definition match_path :: "regexp_engine \<Rightarrow> filter_option option \<Rightarrow> string \<Rightarrow> int \<Rightarrow> bool \<Rightarrow> bool" where
  "match_path rx opt rel0 sz isDir =
     (if opt = None then True
      else (let rel = trim_char slash rel0
            in if rel = [] then True
               else if \<not> option_match rx opt (mk_item rel sz isDir) then False
               else list_all (\<lambda>dir. match_rules rx (directory_rules opt) (mk_item dir 0 True))
                      (path_ancestors (path_dir rel))))"

definition filter_rel :: "string \<Rightarrow> string \<Rightarrow> string" where
  "filter_rel root0 path =
     (let root = trim_char slash root0; rel = trim_char slash path
      in if root = [] then rel
         else if rel = root then []
         else if has_prefix rel (root @ ''/'') then drop (length root + 1) rel
         else rel)"

section \<open>Translation to rsync flags\<close>

definition glob_rsync_args :: "string \<Rightarrow> string \<Rightarrow> filter_error + string list" where
  "glob_rsync_args p action =
     (if action = ActionInclude then Inr [''--include='' @ p]
      else if action = ActionExclude then Inr [''--exclude='' @ p]
      else Inl (GlobUnknownAction action))"

definition size_rsync_args :: "string \<Rightarrow> int \<Rightarrow> string \<Rightarrow> filter_error + string list" where
  "size_rsync_args op v action =
     (if action \<noteq> ActionExclude then Inl (SizeOnlyExclude action)
      else if op = ''>'' then Inr [''--max-size='' @ itoa v]
      else if op = ''>='' then
        (if v \<le> 0 then Inl (SizeExcludesAll v) else Inr [''--max-size='' @ itoa (wrap64 (v - 1))])
      else if op = ''<'' then Inr [''--min-size='' @ itoa v]
      else if op = ''<='' then Inr [''--min-size='' @ itoa (wrap64 (v + 1))]
      else Inl (SizeOpInexpressible op))"

fun matcher_rsync_args :: "matcher \<Rightarrow> string \<Rightarrow> filter_error + string list" where
  "matcher_rsync_args (GlobMatcher p) action = glob_rsync_args p action"
| "matcher_rsync_args (SizeMatcher op v) action = size_rsync_args op v action"

fun rules_rsync_args :: "filter_rule list \<Rightarrow> filter_error + string list" where
  "rules_rsync_args [] = Inr []"
| "rules_rsync_args (r # rs) =
     (case fr_Matcher r of
        None \<Rightarrow> Inl NoTranslator
      | Some m \<Rightarrow>
          bind_res (matcher_rsync_args m (fr_Action r))
            (\<lambda>a. bind_res (rules_rsync_args rs) (\<lambda>as. Inr (a @ as))))"

definition rsync_filter_args :: "filter_option option \<Rightarrow> filter_error + string list" where
  "rsync_filter_args opt = (if opt = None then Inr [] else rules_rsync_args (effective_rules opt))"

section \<open>The pipeline\<close>

lemma match_rules_append:
  "match_rules rx (as @ bs) it =
     (if list_ex (\<lambda>r. rule_applies rx r it) as then match_rules rx as it else match_rules rx bs it)"
  by (induction as) auto

lemma match_rules_no_apply: "\<not> list_ex (\<lambda>r. rule_applies rx r it) rs \<Longrightarrow> match_rules rx rs it"
  by (induction rs) auto

lemma insert_dir_pass_shape:
  "insert_dir_pass rules = rules \<or>
   (\<exists>as c bs. rules = as @ c # bs \<and> is_catch_all_exclude c \<and> insert_dir_pass rules = as @ dir_pass # c # bs)"
proof (induction rules)
  case (Cons r rs)
  show ?case
  proof (cases "is_catch_all_exclude r")
    case True
    then show ?thesis by (intro disjI2 exI [of _ "[]"]) simp
  next
    case False
    from Cons show ?thesis
    proof
      assume "\<exists>as c bs. rs = as @ c # bs \<and> is_catch_all_exclude c \<and> insert_dir_pass rs = as @ dir_pass # c # bs"
      then obtain as c bs where "rs = as @ c # bs" "is_catch_all_exclude c" "insert_dir_pass rs = as @ dir_pass # c # bs"
        by blast
      with False show ?thesis by (intro disjI2 exI [of _ "r # as"] exI [of _ c] exI [of _ bs]) simp
    qed (use False in simp)
  qed
qed simp

lemma with_dir_pass_shape:
  "with_dir_pass rules = rules \<or>
   (\<exists>as c bs. rules = as @ c # bs \<and> is_catch_all_exclude c \<and> with_dir_pass rules = as @ dir_pass # c # bs)"
  using insert_dir_pass_shape [of rules] by (auto simp: with_dir_pass_def)

lemma dir_pass_glob: "build_glob_regexp ''*/'' = GlobRe [FOptDirs, FSeg] True"
  using build_class_free(3) [of "''*''"] by (simp add: class_free_def)

lemma dir_pass_file: "\<not> it_IsDir it \<Longrightarrow> \<not> rule_applies rx dir_pass it"
  by (simp add: rule_applies_def dir_pass_def glob_match_def dir_pass_glob)

lemma with_dir_pass_file:
  assumes "\<not> it_IsDir it"
  shows "match_rules rx (with_dir_pass rules) it = match_rules rx rules it"
  using with_dir_pass_shape [of rules] dir_pass_file [OF assms]
  by (auto simp: match_rules_append)

text \<open>
  the traversal rule \<open>withDirPass\<close> adds changes no file's verdict, and it changes a
  directory's verdict only from dropped to kept, and only for a directory that no rule
  above the catch-all has an opinion about.
\<close>

lemma dir_pass_rescues_only_undecided_dirs:
  "(\<not> it_IsDir it \<longrightarrow> match_rules rx (with_dir_pass rules) it = match_rules rx rules it) \<and>
   (match_rules rx (with_dir_pass rules) it = match_rules rx rules it \<or>
     (it_IsDir it \<and> match_rules rx (with_dir_pass rules) it \<and>
      (\<exists>as c bs. rules = as @ c # bs \<and> is_catch_all_exclude c \<and> \<not> list_ex (\<lambda>r. rule_applies rx r it) as)))"
proof (cases "it_IsDir it")
  case True
  from with_dir_pass_shape [of rules] show ?thesis
  proof (elim disjE exE conjE)
    fix as c bs
    assume r: "rules = as @ c # bs" "is_catch_all_exclude c" "with_dir_pass rules = as @ dir_pass # c # bs"
    show ?thesis
    proof (cases "list_ex (\<lambda>r. rule_applies rx r it) as \<or> \<not> rule_applies rx dir_pass it")
      case applies: True
      then show ?thesis using r by (auto simp: match_rules_append)
    next
      case False
      then have "match_rules rx (with_dir_pass rules) it" using r by (simp add: match_rules_append dir_pass_def)
      with False r True show ?thesis by blast
    qed
  qed simp
next
  case False
  then show ?thesis by (simp add: with_dir_pass_file)
qed

definition go_file :: item where
  "go_file = mk_item ''src/main.go'' 10 False"

lemma dir_pass_rescues_only_undecided_dirs_witness:
  "match_rules (\<lambda>_ _. False) (with_dir_pass [glob_rule ActionInclude ''*.go'', glob_rule ActionExclude ''*'']) go_file
   = match_rules (\<lambda>_ _. False) [glob_rule ActionInclude ''*.go'', glob_rule ActionExclude ''*''] go_file"
  using dir_pass_rescues_only_undecided_dirs [of go_file "\<lambda>_ _. False"] by (simp add: go_file_def mk_item_def)

section \<open>The size gates\<close>

lemma itoa_flag_inj: "a @ itoa m = a @ itoa n \<Longrightarrow> m = n"
  using itoa_inj by simp

text \<open>
  What the size flags of a list would keep if every one of them counted, and what rsync keeps: its
  \<open>--max-size\<close> and \<open>--min-size\<close> take one value each, and a later flag replaces an earlier one.
\<close>

definition passes_every_gate :: "string list \<Rightarrow> int \<Rightarrow> bool" where
  "passes_every_gate args n \<longleftrightarrow>
     (\<forall>v. ''--max-size='' @ itoa v \<in> set args \<longrightarrow> n \<le> v) \<and>
     (\<forall>v. ''--min-size='' @ itoa v \<in> set args \<longrightarrow> v \<le> n)"

definition size_flags :: "string \<Rightarrow> string list \<Rightarrow> string list" where
  "size_flags flag args = filter (\<lambda>a. has_prefix a flag) args"

definition rsync_keeps_size :: "string list \<Rightarrow> int \<Rightarrow> bool" where
  "rsync_keeps_size args n \<longleftrightarrow>
     (let maxs = size_flags ''--max-size='' args; mins = size_flags ''--min-size='' args
      in (\<forall>v. maxs \<noteq> [] \<and> last maxs = ''--max-size='' @ itoa v \<longrightarrow> n \<le> v) \<and>
         (\<forall>v. mins \<noteq> [] \<and> last mins = ''--min-size='' @ itoa v \<longrightarrow> v \<le> n))"

definition single_gates :: "string list \<Rightarrow> bool" where
  "single_gates args \<longleftrightarrow> length (size_flags ''--max-size='' args) \<le> 1 \<and> length (size_flags ''--min-size='' args) \<le> 1"

lemma every_gate_kept: "passes_every_gate args n \<Longrightarrow> rsync_keeps_size args n"
proof -
  assume p: "passes_every_gate args n"
  have "last (size_flags f args) \<in> set args" if "size_flags f args \<noteq> []" for f
    using last_in_set [OF that] by (simp add: size_flags_def)
  then show ?thesis using p unfolding rsync_keeps_size_def passes_every_gate_def Let_def by metis
qed

lemma single_gate: "length xs \<le> 1 \<Longrightarrow> x \<in> set xs \<Longrightarrow> xs \<noteq> [] \<and> last xs = x"
  by (cases xs) auto

lemma single_gates_exact: "single_gates args \<Longrightarrow> rsync_keeps_size args n \<longleftrightarrow> passes_every_gate args n"
proof
  assume s: "single_gates args" and r: "rsync_keeps_size args n"
  have "''--max-size='' @ itoa v \<in> set (size_flags ''--max-size='' args)" if "''--max-size='' @ itoa v \<in> set args" for v
    using that by (simp add: size_flags_def)
  moreover have "''--min-size='' @ itoa v \<in> set (size_flags ''--min-size='' args)" if "''--min-size='' @ itoa v \<in> set args" for v
    using that by (simp add: size_flags_def)
  moreover have "length (size_flags ''--max-size='' args) \<le> 1" "length (size_flags ''--min-size='' args) \<le> 1"
    using s by (simp_all add: single_gates_def)
  ultimately have ends: "''--max-size='' @ itoa v \<in> set args \<Longrightarrow> size_flags ''--max-size='' args \<noteq> [] \<and> last (size_flags ''--max-size='' args) = ''--max-size='' @ itoa v"
    "''--min-size='' @ itoa v \<in> set args \<Longrightarrow> size_flags ''--min-size='' args \<noteq> [] \<and> last (size_flags ''--min-size='' args) = ''--min-size='' @ itoa v" for v
    using single_gate by (metis (no_types))+
  show "passes_every_gate args n"
    using r ends unfolding rsync_keeps_size_def passes_every_gate_def Let_def by blast
qed (rule every_gate_kept)

definition gate_safe :: "filter_rule \<Rightarrow> bool" where
  "gate_safe r \<longleftrightarrow> (\<forall>op v. fr_Matcher r = Some (SizeMatcher op v) \<longrightarrow> - (2 ^ 63) \<le> v \<and> v < max_int64)"

lemma passes_every_gate_append: "passes_every_gate (as @ bs) n \<longleftrightarrow> passes_every_gate as n \<and> passes_every_gate bs n"
  by (auto simp: passes_every_gate_def)

lemma passes_every_gate_Nil [simp]: "passes_every_gate [] n"
  by (simp add: passes_every_gate_def)

lemma passes_every_gate_max: "passes_every_gate [''--max-size='' @ itoa v] n \<longleftrightarrow> n \<le> v"
  using itoa_inj [of _ v] by (auto simp: passes_every_gate_def)

lemma passes_every_gate_min: "passes_every_gate [''--min-size='' @ itoa v] n \<longleftrightarrow> v \<le> n"
  using itoa_inj [of _ v] by (auto simp: passes_every_gate_def)

text \<open>
  rsync's bounds are strict: \<open>--max-size=N\<close> drops what is larger than \<open>N\<close>. The flag a size
  rule becomes lets through exactly what the rule does not match.
\<close>

lemma size_rsync_args_exact:
  assumes "size_rsync_args op v ActionExclude = Inr args" and "- (2 ^ 63) \<le> v" and "v < max_int64"
  shows "passes_every_gate args (it_Size it) \<longleftrightarrow> \<not> size_match op v it"
proof -
  have w: "wrap64 (v + 1) = v + 1" using assms(2,3) by (intro wrap64_id) (auto simp: max_int64_def)
  have w': "0 < v \<Longrightarrow> wrap64 (v - 1) = v - 1" using assms(2,3) by (intro wrap64_id) (auto simp: max_int64_def)
  show ?thesis
    using assms(1) w w'
    by (auto simp: size_rsync_args_def size_match_def passes_every_gate_max [simplified] passes_every_gate_min [simplified]
        split: if_splits)
qed

lemma rules_rsync_args_append:
  "rules_rsync_args (as @ bs) = Inr args \<longleftrightarrow>
     (\<exists>x y. rules_rsync_args as = Inr x \<and> rules_rsync_args bs = Inr y \<and> args = x @ y)"
proof (induction as arbitrary: args)
  case (Cons r as)
  then show ?case by (cases "fr_Matcher r") (fastforce simp: bind_res_Inr_iff)+
qed simp

lemma rules_rsync_args_Cons:
  "rules_rsync_args (r # rs) = Inr args \<longleftrightarrow>
     (\<exists>m x y. fr_Matcher r = Some m \<and> matcher_rsync_args m (fr_Action r) = Inr x \<and>
        rules_rsync_args rs = Inr y \<and> args = x @ y)"
  by (cases "fr_Matcher r") (auto simp: bind_res_Inr_iff)

declare rules_rsync_args.simps(2) [simp del]

lemma glob_args_no_gate: "glob_rsync_args p action = Inr args \<Longrightarrow> passes_every_gate args n"
  by (auto simp: glob_rsync_args_def passes_every_gate_def split: if_splits)

text \<open>The order \<open>validateSizeGateOrdering\<close> asks for, on decoded rules.\<close>

fun sizes_first :: "bool \<Rightarrow> filter_rule list \<Rightarrow> bool" where
  "sizes_first seen [] = True"
| "sizes_first seen (r # rs) =
     (if fr_Action r = ActionInclude then sizes_first True rs
      else (is_glob_rule r \<or> \<not> seen) \<and> sizes_first seen rs)"

lemma no_gates_after_include:
  "rules_rsync_args rs = Inr args \<Longrightarrow> sizes_first True rs \<Longrightarrow>
   filter is_glob_rule rs = rs \<and> passes_every_gate args n"
proof (induction rs arbitrary: args)
  case (Cons r rs)
  from Cons.prems(1) obtain m x y where m: "fr_Matcher r = Some m" "matcher_rsync_args m (fr_Action r) = Inr x"
    "rules_rsync_args rs = Inr y" "args = x @ y" by (auto simp: rules_rsync_args_Cons)
  have rest: "filter is_glob_rule rs = rs \<and> passes_every_gate y n"
    using Cons m(3) by (auto split: if_splits)
  have "is_glob_rule r \<and> passes_every_gate x n"
  proof (cases m)
    case (GlobMatcher p)
    then show ?thesis using m(1,2) glob_args_no_gate by (simp add: is_glob_rule_def)
  next
    case (SizeMatcher op v)
    then have "fr_Action r = ActionExclude" using m(2) by (auto simp: size_rsync_args_def split: if_splits)
    then have "is_glob_rule r" using Cons.prems(2) by simp
    then show ?thesis using m(1) SizeMatcher by (simp add: is_glob_rule_def)
  qed
  with rest m(4) show ?case by (simp add: passes_every_gate_append)
qed simp

lemma in_order_is_gated:
  assumes "rules_rsync_args rs = Inr args" and "sizes_first False rs" and "\<forall>r\<in>set rs. gate_safe r"
  shows "match_rules rx rs it \<longleftrightarrow> match_rules rx (filter is_glob_rule rs) it \<and> passes_every_gate args (it_Size it)"
  using assms
proof (induction rs arbitrary: args)
  case (Cons r rs)
  from Cons.prems(1) obtain m x y where m: "fr_Matcher r = Some m" "matcher_rsync_args m (fr_Action r) = Inr x"
    "rules_rsync_args rs = Inr y" "args = x @ y" by (auto simp: rules_rsync_args_Cons)
  show ?case
  proof (cases m)
    case (GlobMatcher p)
    then have g: "is_glob_rule r" "passes_every_gate x (it_Size it)"
      using m(1,2) glob_args_no_gate by (simp_all add: is_glob_rule_def)
    show ?thesis
    proof (cases "fr_Action r = ActionInclude")
      case True
      then have "filter is_glob_rule rs = rs \<and> passes_every_gate y (it_Size it)"
        using no_gates_after_include [OF m(3)] Cons.prems(2) by simp
      then show ?thesis using g m(4) by (simp add: passes_every_gate_append)
    next
      case False
      have "match_rules rx rs it \<longleftrightarrow> match_rules rx (filter is_glob_rule rs) it \<and> passes_every_gate y (it_Size it)"
        by (rule Cons.IH [OF m(3)]) (use Cons.prems False in simp_all)
      with False g m(4) show ?thesis by (simp add: passes_every_gate_append)
    qed
  next
    case (SizeMatcher op v)
    then have a: "fr_Action r = ActionExclude" "size_rsync_args op v ActionExclude = Inr x"
      using m(2) by (auto simp: size_rsync_args_def split: if_splits)
    have "- (2 ^ 63) \<le> v" "v < max_int64" using Cons.prems(3) m(1) SizeMatcher by (auto simp: gate_safe_def)
    note gate = size_rsync_args_exact [OF a(2) this, of it]
    have "match_rules rx rs it \<longleftrightarrow> match_rules rx (filter is_glob_rule rs) it \<and> passes_every_gate y (it_Size it)"
      by (rule Cons.IH [OF m(3)]) (use Cons.prems a in simp_all)
    moreover have "\<not> is_glob_rule r" using m(1) SizeMatcher by (simp add: is_glob_rule_def)
    ultimately show ?thesis
      using gate a(1) m(1,4) SizeMatcher by (auto simp: rule_applies_def passes_every_gate_append)
  qed
qed simp

lemma with_dir_pass_rsync:
  assumes "rules_rsync_args (with_dir_pass rules) = Inr args"
  shows "\<exists>args'. rules_rsync_args rules = Inr args' \<and> passes_every_gate args' n = passes_every_gate args n"
  using with_dir_pass_shape [of rules]
proof (elim disjE exE conjE)
  fix as c bs
  assume r: "rules = as @ c # bs" "with_dir_pass rules = as @ dir_pass # c # bs"
  from assms obtain x y z where xyz: "rules_rsync_args as = Inr x" "rules_rsync_args [dir_pass] = Inr y"
    "rules_rsync_args (c # bs) = Inr z" "args = x @ y @ z"
    unfolding r(2) rules_rsync_args_append rules_rsync_args_Cons [of dir_pass] by auto
  have "passes_every_gate y n" using xyz(2) glob_args_no_gate by (auto simp: dir_pass_def rules_rsync_args_Cons)
  moreover have "rules_rsync_args rules = Inr (x @ z)"
    using rules_rsync_args_append [of as "c # bs" "x @ z"] xyz r(1) by auto
  ultimately show ?thesis using xyz(4) by (auto simp: passes_every_gate_append)
qed (use assms in auto)

lemma with_dir_pass_globs_file:
  "\<not> it_IsDir it \<Longrightarrow>
   match_rules rx (filter is_glob_rule (with_dir_pass rules)) it = match_rules rx (filter is_glob_rule rules) it"
proof -
  assume f: "\<not> it_IsDir it"
  have g: "is_glob_rule dir_pass" by (simp add: is_glob_rule_def dir_pass_def)
  show ?thesis
    using with_dir_pass_shape [of rules]
  proof (elim disjE exE conjE)
    fix as c bs
    assume r: "rules = as @ c # bs" "with_dir_pass rules = as @ dir_pass # c # bs"
    have "filter is_glob_rule (with_dir_pass rules) = filter is_glob_rule as @ dir_pass # filter is_glob_rule (c # bs)"
      "filter is_glob_rule rules = filter is_glob_rule as @ filter is_glob_rule (c # bs)"
      using r g by simp_all
    then show ?thesis using dir_pass_file [OF f, of rx] by (simp add: match_rules_append del: filter.simps)
  qed simp
qed

text \<open>The rules of a non-empty plan list, decoded, are what the pipeline runs.\<close>

lemma effective_decoded:
  assumes "to_data_mig_filter rules = Inr opt" and "unmarshal_rules rules = Inr frs"
  shows "effective_rules opt = with_dir_pass frs"
proof (cases rules)
  case Nil
  then show ?thesis using assms by (auto simp: to_data_mig_filter_def effective_rules_def with_dir_pass_def has_include_def)
next
  case (Cons r rs)
  then have "frs \<noteq> []" using assms(2) by (auto simp: bind_res_Inr_iff)
  then show ?thesis using assms Cons by (auto simp: to_data_mig_filter_def effective_rules_def build_effective_def)
qed

lemma to_data_mig_filter_Inr: "to_data_mig_filter rules = Inr opt \<Longrightarrow> \<exists>frs. unmarshal_rules rules = Inr frs"
  by (cases rules) (auto simp: to_data_mig_filter_def bind_res_Inr_iff split: if_splits)

section \<open>Ancestors\<close>

lemma path_ancestors_names:
  "\<forall>z\<in>set zs. is_name z \<Longrightarrow> zs \<noteq> [] \<Longrightarrow>
   path_ancestors (join [slash] zs) = map (\<lambda>k. join [slash] (take k zs)) (rev [1..<Suc (length zs)])"
proof (induction zs rule: rev_induct)
  case (snoc z zs)
  have names: "\<forall>y\<in>set zs. is_name y" using snoc.prems by simp
  have j: "join [slash] (zs @ [z]) \<noteq> []" "join [slash] (zs @ [z]) \<noteq> ''/''" "join [slash] (zs @ [z]) \<noteq> ''.''"
    using join_names_ends [OF _ snoc.prems(1)] path_clean_join_names [OF _ snoc.prems(1)] join_name_not_dot [OF snoc.prems(1)] by auto
  have anc: "path_ancestors (path_dir (join [slash] (zs @ [z]))) = map (\<lambda>k. join [slash] (take k zs)) (rev [1..<Suc (length zs)])"
  proof (cases "zs = []")
    case True
    then show ?thesis using path_dir_join_names [OF snoc.prems(1)] by (simp add: path_ancestors.simps [of "''.''"])
  next
    case False
    then show ?thesis using path_dir_join_names [OF snoc.prems(1)] snoc.IH [OF names] by simp
  qed
  have "map (\<lambda>k. join [slash] (take k zs)) (rev [1..<Suc (length zs)]) =
      map (\<lambda>k. join [slash] (take k (zs @ [z]))) (rev [1..<Suc (length zs)])" by (rule map_cong) auto
  then show ?case
    using anc j by (subst path_ancestors.simps) simp
qed simp

text \<open>
  C13: \<open>MatchPath\<close> judges an item the way a transfer walks a tree: it is kept exactly when the
  whole pipeline keeps the item itself and the glob rules alone keep each directory above
  it, so nothing beneath a dropped directory is ever kept.
\<close>

theorem match_path_walks_ancestors:
  assumes "zs \<noteq> []" and "\<forall>z\<in>set zs. is_name z"
  shows "match_path rx (Some opt) (join [slash] zs) sz isDir \<longleftrightarrow>
     option_match rx (Some opt) (mk_item (join [slash] zs) sz isDir) \<and>
     (\<forall>k. 1 \<le> k \<and> k < length zs \<longrightarrow>
        match_rules rx (directory_rules (Some opt)) (mk_item (join [slash] (take k zs)) 0 True))"
proof -
  obtain ys y where zs: "zs = ys @ [y]" using assms(1) by (cases zs rule: rev_cases) auto
  have names: "\<forall>z\<in>set ys. is_name z" using assms(2) zs by simp
  let ?D = "\<lambda>dir. match_rules rx (directory_rules (Some opt)) (mk_item dir 0 True)"
  have tr: "trim_char slash (join [slash] zs) = join [slash] zs"
    by (rule trim_char_id) (use join_names_ends [OF assms] in simp)
  have "list_all ?D (path_ancestors (path_dir (join [slash] zs))) \<longleftrightarrow>
      (\<forall>k. 1 \<le> k \<and> k < length zs \<longrightarrow> ?D (join [slash] (take k zs)))"
  proof (cases "ys = []")
    case True
    then show ?thesis using path_dir_join_names [of ys y] assms(2) zs by (simp add: path_ancestors.simps)
  next
    case False
    then have "path_ancestors (path_dir (join [slash] zs)) = map (\<lambda>k. join [slash] (take k ys)) (rev [1..<Suc (length ys)])"
      using path_dir_join_names [of ys y] assms(2) zs path_ancestors_names [OF names False] by simp
    then show ?thesis using zs by (auto simp: list_all_iff)
  qed
  then show ?thesis
    using join_names_ends [OF assms] tr by (simp add: match_path_def Let_def)
qed

definition drop_modules :: filter_option where
  "drop_modules = \<lparr>fo_Rules = [glob_rule ActionExclude ''mods''], fo_Include = [], fo_Exclude = [], fo_MaxDepth = 0\<rparr>"

theorem match_path_walks_ancestors_witness:
  "\<not> match_path (\<lambda>_ _. False) (Some drop_modules) ''mods/a.go'' 3 False"
proof -
  have names: "\<forall>z\<in>set [''mods'', ''a.go'']. is_name z" by (simp add: is_name_def)
  have lit: "literal ''mods''" "ascii ''mods''" "trimmed ''mods''"
    by (simp_all add: literal_def glob_meta_def byte_of_def trimmed_def)
  have "build_glob_regexp ''mods'' = GlobRe (FOptDirs # lits ''mods'') False"
    using build_class_free(1) [of "''mods''"] literal_class_free [of "''mods''"] glob_frags_lits [OF lit(1)] by simp
  then have "glob_match (\<lambda>_ _. False) ''mods'' ''mods'' True"
    using lit(2,3) by (simp add: glob_match_def lits_match runes_ascii)
  then have "\<not> match_rules (\<lambda>_ _. False) (directory_rules (Some drop_modules)) (mk_item ''mods'' 0 True)"
    by (simp add: directory_rules_def effective_rules_def build_effective_def with_dir_pass_def has_include_def
        drop_modules_def glob_rule_def is_glob_rule_def rule_applies_def mk_item_def)
  with match_path_walks_ancestors [OF _ names, of "\<lambda>_ _. False" drop_modules 3 False]
  show ?thesis by (auto dest!: spec [of _ 1])
qed

end
