(* ===== verification/MigrationModels.thy ===== *)
theory MigrationModels
  imports CommonModel
begin

text \<open>
  What a discovery observed (\<open>dmdl/source-model\<close>), the plan a migration executes
  (\<open>dmdl/target-model\<close>) and the plan request (\<open>pkg/api/rest/model/plan.go\<close>). Embedded
  Go structs (\<open>FSInfo\<close>, \<open>ObjectStorageInfo\<close>) are fields here. Time stamps are opaque
  strings, as in the source.

  The plan code distinguishes a nil slice from an empty one in two places: the object
  inventories of \<open>DBMSInfo\<close> (\<open>names == nil\<close>: not collected) and \<open>DBTableInfo.Indexes\<close>.
  Those fields are \<open>option\<close>s of lists; every other slice is a list.
\<close>

section \<open>Source model: DBMS\<close>

record db_column_info =
  col_Name :: string
  col_DataType :: string
  col_IsNullable :: bool
  col_Default :: string
  col_IsPrimary :: bool
  col_Comment :: string
  col_CharacterSet :: string
  col_Collation :: string

record db_index_info =
  idx_Name :: string
  idx_Columns :: "string list"
  idx_IsUnique :: bool
  idx_Type :: string

record db_pg_schema_info =
  pgs_Name :: string
  pgs_TotalSize :: int
  pgs_DataSize :: int
  pgs_IndexSize :: int
  pgs_TableCount :: int

record db_table_info =
  tab_PgSchema :: string
  tab_Name :: string
  tab_RowCount :: int
  tab_DataSize :: int
  tab_IndexSize :: int
  tab_TotalSize :: int
  tab_Engine :: string
  tab_CharacterSet :: string
  tab_Collation :: string
  tab_Columns :: "db_column_info list"
  tab_Indexes :: "db_index_info list option"

record dbms_info =
  dbi_ServerVersion :: string
  dbi_Database :: string
  dbi_CharacterSet :: string
  dbi_Collation :: string
  dbi_Ctype :: string
  dbi_TotalSize :: int
  dbi_DataSize :: int
  dbi_IndexSize :: int
  dbi_TableCount :: int
  dbi_PgSchema :: "db_pg_schema_info list"
  dbi_Tables :: "db_table_info list"
  dbi_ForeignKeys :: "string list option"
  dbi_Views :: "string list option"
  dbi_Functions :: "string list option"
  dbi_Procedures :: "string list option"
  dbi_Triggers :: "string list option"
  dbi_Events :: "string list option"
  dbi_MaterializedViews :: "string list option"
  dbi_Sequences :: "string list option"
  dbi_Types :: "string list option"
  dbi_Extensions :: "string list option"
  dbi_Rules :: "string list option"
  dbi_Validators :: "string list option"

record source_db_model =
  sdb_Connection :: connection_ref
  sdb_Databases :: "dbms_info list"

text \<open>The zero value a Go map lookup yields for an absent database name.\<close>

definition zero_dbms_info :: dbms_info where
  "zero_dbms_info =
     \<lparr>dbi_ServerVersion = [], dbi_Database = [], dbi_CharacterSet = [], dbi_Collation = [],
      dbi_Ctype = [], dbi_TotalSize = 0, dbi_DataSize = 0, dbi_IndexSize = 0, dbi_TableCount = 0,
      dbi_PgSchema = [], dbi_Tables = [], dbi_ForeignKeys = None, dbi_Views = None,
      dbi_Functions = None, dbi_Procedures = None, dbi_Triggers = None, dbi_Events = None,
      dbi_MaterializedViews = None, dbi_Sequences = None, dbi_Types = None,
      dbi_Extensions = None, dbi_Rules = None, dbi_Validators = None\<rparr>"

section \<open>Source model: file systems and object storage\<close>

record fs_entry =
  fse_Path :: string
  fse_IsMount :: bool
  fse_ModTime :: string
  fse_Permissions :: string
  fse_FileCount :: "int option"
  fse_FileSize :: "int option"

record fs_info =
  fsi_Path :: string
  fsi_IsMount :: bool
  fsi_TotalSize :: "int option"
  fsi_FileCount :: "int option"
  fsi_ExtensionCounts :: "(string \<times> int) list"
  fsi_Folders :: "fs_entry list"

record source_file_system_model =
  sfs_Connection :: connection_ref
  sfs_FSInfo :: fs_info

record object_entry =
  oe_Key :: string
  oe_LastModified :: string
  oe_ObjectCount :: "int option"
  oe_Size :: "int option"

record object_storage_info =
  osi_Path :: string
  osi_TotalSize :: "int option"
  osi_ObjectCount :: "int option"
  osi_ExtensionCounts :: "(string \<times> int) list"
  osi_Folders :: "object_entry list"

record source_object_storage_model =
  sos_Connection :: connection_ref
  sos_ObjectStorageInfo :: object_storage_info

record source_data_migration_property =
  sdm_FileSystems :: "source_file_system_model list"
  sdm_ObjectStorages :: "source_object_storage_model list"
  sdm_Databases :: "source_db_model list"

section \<open>Target model\<close>

record fs_migration_info =
  fmi_Order :: nat
  fmi_SrcPath :: string
  fmi_DstPath :: string
  fmi_Rules :: "path_filter_rule list"

record migration_file_system_model =
  mfs_PlanEntryID :: string
  mfs_SrcConnection :: connection_ref
  mfs_DstConnection :: connection_ref
  mfs_DstType :: string
  mfs_Strategy :: string
  mfs_Folders :: "fs_migration_info list"
  mfs_Errors :: "string list"

record object_migration_info =
  omi_Order :: nat
  omi_SrcPath :: string
  omi_DstPath :: string
  omi_Rules :: "path_filter_rule list"

record migration_object_storage_model =
  mos_PlanEntryID :: string
  mos_SrcConnection :: connection_ref
  mos_DstConnection :: connection_ref
  mos_DstType :: string
  mos_Buckets :: "object_migration_info list"
  mos_Errors :: "string list"
  mos_Strategy :: string

record db_migration_info =
  dmi_Order :: nat
  dmi_SrcName :: string
  dmi_DstName :: string
  dmi_PgSchemas :: "pg_schema_mapping list"
  dmi_Rules :: "dbms_filter_rule list"

record migration_db_model =
  mdb_PlanEntryID :: string
  mdb_SrcConnection :: connection_ref
  mdb_DstConnection :: connection_ref
  mdb_DBType :: string
  mdb_Databases :: "db_migration_info list"
  mdb_Errors :: "string list"

record target_data_migration_property =
  tdm_FileSystems :: "migration_file_system_model list"
  tdm_ObjectStorages :: "migration_object_storage_model list"
  tdm_Databases :: "migration_db_model list"

definition empty_target :: target_data_migration_property where
  "empty_target = \<lparr>tdm_FileSystems = [], tdm_ObjectStorages = [], tdm_Databases = []\<rparr>"

section \<open>Plan request\<close>

record plan_entry =
  pe_SrcConnection :: connection_ref
  pe_DstConnection :: connection_ref
  pe_FileSystemStrategy :: string
  pe_FileSystemFilter :: "file_system_filter option"
  pe_ObjectStorageFilter :: "object_storage_filter option"
  pe_DBMSFilter :: "dbms_filter option"
  pe_ObjectStorageStrategy :: string

record target_plan_req =
  tpr_Source :: source_data_migration_property
  tpr_Plans :: "plan_entry list"

end
