(* ===== verification/PlanEntry.thy ===== *)
theory PlanEntry
  imports MigrationModels GoPath
begin

text \<open>
  \<open>pkg/core/plan/entry.go\<close>: the key a source connection is matched by, the name an
  entry carries, and the checks that a plan names no entry and no destination twice and
  never migrates \<open>/\<close> onto \<open>/\<close>. \<open>uuid.New().String()\<close> is third-party: it is the
  parameter \<open>uuid\<close>, the string the \<open>n\<close>-th call returns, and the number of calls made so
  far is passed along.
\<close>

section \<open>Definitions\<close>

definition src_conn_key :: "connection_ref \<Rightarrow> string" where
  "src_conn_key ref = (case cr_Honeybee ref of None \<Rightarrow> [] | Some h \<Rightarrow> hb_ConnectionID h)"

definition new_plan_entry_id :: "(nat \<Rightarrow> string) \<Rightarrow> nat \<Rightarrow> string \<times> nat" where
  "new_plan_entry_id uuid n = (take 8 (uuid n), Suc n)"

text \<open>
  The three loops of \<open>AssignMissingEntryIDs\<close> are one loop each over a list with its own
  id field, so the loop takes the field's reader and writer.
\<close>

fun assign_ids ::
  "(nat \<Rightarrow> string) \<Rightarrow> ('a \<Rightarrow> string) \<Rightarrow> (string \<Rightarrow> 'a \<Rightarrow> 'a) \<Rightarrow> nat \<Rightarrow> 'a list \<Rightarrow> 'a list \<times> nat" where
  "assign_ids uuid get put n [] = ([], n)"
| "assign_ids uuid get put n (x # xs) =
     (if get x = []
      then (let (i, n') = new_plan_entry_id uuid n; (ys, m) = assign_ids uuid get put n' xs
            in (put i x # ys, m))
      else (let (ys, m) = assign_ids uuid get put n xs in (x # ys, m)))"

definition assign_missing_entry_ids ::
  "(nat \<Rightarrow> string) \<Rightarrow> nat \<Rightarrow> target_data_migration_property \<Rightarrow> target_data_migration_property \<times> nat"
where
  "assign_missing_entry_ids uuid n p =
     (let (fs, n1) = assign_ids uuid mfs_PlanEntryID (\<lambda>i. mfs_PlanEntryID_update (\<lambda>_. i)) n (tdm_FileSystems p);
          (os, n2) = assign_ids uuid mos_PlanEntryID (\<lambda>i. mos_PlanEntryID_update (\<lambda>_. i)) n1 (tdm_ObjectStorages p);
          (ds, n3) = assign_ids uuid mdb_PlanEntryID (\<lambda>i. mdb_PlanEntryID_update (\<lambda>_. i)) n2 (tdm_Databases p)
      in (p\<lparr>tdm_FileSystems := fs, tdm_ObjectStorages := os, tdm_Databases := ds\<rparr>, n3))"

text \<open>The ids in the order \<open>DuplicateEntryID\<close> and the other readers walk the entries.\<close>

definition plan_entry_ids :: "target_data_migration_property \<Rightarrow> string list" where
  "plan_entry_ids p =
     map mfs_PlanEntryID (tdm_FileSystems p) @ map mos_PlanEntryID (tdm_ObjectStorages p)
     @ map mdb_PlanEntryID (tdm_Databases p)"

fun scan_entry_ids :: "string list \<Rightarrow> string list \<Rightarrow> string" where
  "scan_entry_ids seen [] = []"
| "scan_entry_ids seen (i # is) =
     (if i = [] then scan_entry_ids seen is
      else if i \<in> set seen then i
      else scan_entry_ids (i # seen) is)"

definition duplicate_entry_id :: "target_data_migration_property \<Rightarrow> string" where
  "duplicate_entry_id p = scan_entry_ids [] (plan_entry_ids p)"

definition unresolved_key :: "connection_ref \<Rightarrow> string" where
  "unresolved_key ref = ''unresolved:'' @ connection_source_string (cr_Source ref)"

definition dst_key :: "connection_ref \<Rightarrow> string" where
  "dst_key ref =
     (case cr_Source ref of
        ConnectionSourceHoneybee \<Rightarrow>
          (case cr_Honeybee ref of Some r \<Rightarrow> ''honeybee:'' @ hb_ConnectionID r
           | None \<Rightarrow> unresolved_key ref)
      | ConnectionSourceBeetleSSH \<Rightarrow>
          (case cr_BeetleSSH ref of
             Some r \<Rightarrow> ''beetleSsh:'' @ bssh_NsID r @ ''/'' @ bssh_InfraID r @ ''/'' @ bssh_NodeID r
           | None \<Rightarrow> unresolved_key ref)
      | ConnectionSourceBeetleObjectStorage \<Rightarrow>
          (case cr_BeetleOS ref of
             Some r \<Rightarrow> ''beetleObjectStorage:'' @ bos_NsID r @ ''/'' @ bos_OsID r
           | None \<Rightarrow> unresolved_key ref)
      | ConnectionSourceBeetleDB \<Rightarrow>
          (case cr_BeetleDB ref of
             Some r \<Rightarrow> ''beetleDb:'' @ bdb_NsID r @ ''/'' @ bdb_RdbmsID r
           | None \<Rightarrow> unresolved_key ref)
      | ConnectionSourceSSH \<Rightarrow>
          (case cr_SSH ref of
             Some r \<Rightarrow> ''ssh:'' @ ssh_Username r @ ''@'' @ ssh_Host r @ '':'' @ itoa (ssh_Port r)
           | None \<Rightarrow> unresolved_key ref)
      | ConnectionSourceMinio \<Rightarrow>
          (case cr_Minio ref of
             Some r \<Rightarrow> ''minio:'' @ mc_ProviderName r @ ''/'' @ mc_Endpoint r
           | None \<Rightarrow> unresolved_key ref)
      | ConnectionSourceDB \<Rightarrow>
          (case cr_DB ref of
             Some r \<Rightarrow> ''db:'' @ dbc_DBMSType r @ ''/'' @ dbc_Host r @ '':'' @ itoa (dbc_Port r)
           | None \<Rightarrow> unresolved_key ref)
      | UnknownSource _ \<Rightarrow> unresolved_key ref)"

text \<open>
  One call of the closure \<open>claim\<close>: the claiming entry, the destination key, the path in
  it and what the path is called in the message. The message itself is a value: the
  claim that failed and the entry that already holds the destination.
\<close>

record dst_claim =
  cl_entryID :: string
  cl_key :: string
  cl_path :: string
  cl_what :: string

datatype dup_destination = DupDestination dst_claim string

definition claim_full :: "dst_claim \<Rightarrow> string" where
  "claim_full c = cl_key c @ ''|'' @ cl_path c"

fun claim_all :: "(string \<rightharpoonup> string) \<Rightarrow> dst_claim list \<Rightarrow> dup_destination option" where
  "claim_all seen [] = None"
| "claim_all seen (c # cs) =
     (case seen (claim_full c) of
        Some prev \<Rightarrow> Some (DupDestination c prev)
      | None \<Rightarrow> claim_all (seen(claim_full c \<mapsto> cl_entryID c)) cs)"

definition fs_claims :: "migration_file_system_model \<Rightarrow> dst_claim list" where
  "fs_claims e =
     map (\<lambda>f. \<lparr>cl_entryID = mfs_PlanEntryID e, cl_key = dst_key (mfs_DstConnection e),
               cl_path = fmi_DstPath f, cl_what = ''destination path''\<rparr>) (mfs_Folders e)"

definition os_claims :: "migration_object_storage_model \<Rightarrow> dst_claim list" where
  "os_claims e =
     map (\<lambda>b. \<lparr>cl_entryID = mos_PlanEntryID e, cl_key = dst_key (mos_DstConnection e),
               cl_path = omi_DstPath b, cl_what = ''destination path''\<rparr>) (mos_Buckets e)"

definition db_claims :: "migration_db_model \<Rightarrow> dst_claim list" where
  "db_claims e =
     map (\<lambda>d. \<lparr>cl_entryID = mdb_PlanEntryID e, cl_key = dst_key (mdb_DstConnection e),
               cl_path = dmi_DstName d, cl_what = ''target database''\<rparr>) (mdb_Databases e)"

definition plan_claims :: "target_data_migration_property \<Rightarrow> dst_claim list" where
  "plan_claims p =
     concat (map fs_claims (tdm_FileSystems p)) @ concat (map os_claims (tdm_ObjectStorages p))
     @ concat (map db_claims (tdm_Databases p))"

definition duplicate_destination :: "target_data_migration_property \<Rightarrow> dup_destination option" where
  "duplicate_destination p = claim_all Map.empty (plan_claims p)"

definition is_root :: "string \<Rightarrow> bool" where
  "is_root p = (let trimmed = trim_space p in trimmed \<noteq> [] \<and> path_clean trimmed = ''/'')"

text \<open>The message names the entry and its two paths.\<close>

datatype root_to_root_msg = RootToRoot string string string

fun find_root_folder :: "string \<Rightarrow> fs_migration_info list \<Rightarrow> root_to_root_msg option" where
  "find_root_folder i [] = None"
| "find_root_folder i (f # fs) =
     (if is_root (fmi_SrcPath f) \<and> is_root (fmi_DstPath f)
      then Some (RootToRoot i (fmi_SrcPath f) (fmi_DstPath f))
      else find_root_folder i fs)"

fun root_to_root_entries :: "migration_file_system_model list \<Rightarrow> root_to_root_msg option" where
  "root_to_root_entries [] = None"
| "root_to_root_entries (e # es) =
     (if mfs_DstType e \<noteq> [] \<and> mfs_DstType e \<noteq> StorageTypeFilesystem then root_to_root_entries es
      else (case find_root_folder (mfs_PlanEntryID e) (mfs_Folders e) of
              Some m \<Rightarrow> Some m
            | None \<Rightarrow> root_to_root_entries es))"

definition root_to_root :: "target_data_migration_property \<Rightarrow> root_to_root_msg option" where
  "root_to_root p = root_to_root_entries (tdm_FileSystems p)"

section \<open>Entry ids\<close>

lemma scan_entry_ids_Nil_iff:
  "scan_entry_ids seen is = [] \<longleftrightarrow>
     distinct (filter (\<lambda>i. i \<noteq> []) is) \<and> (\<forall>i\<in>set is. i \<noteq> [] \<longrightarrow> i \<notin> set seen)"
  by (induction seen "is" rule: scan_entry_ids.induct) auto

lemma scan_entry_ids_found:
  "scan_entry_ids seen is = d \<Longrightarrow> d \<noteq> [] \<Longrightarrow>
     \<exists>a b. is = a @ d # b \<and> (d \<in> set a \<or> d \<in> set seen)"
proof (induction seen "is" rule: scan_entry_ids.induct)
  case (2 seen i "is")
  consider "i = []" | "i \<noteq> []" "i \<in> set seen" | "i \<noteq> []" "i \<notin> set seen" by blast
  then show ?case
  proof cases
    case 1
    then obtain a b where "is = a @ d # b" "d \<in> set a \<or> d \<in> set seen" using 2 by auto
    then show ?thesis by (intro exI [of _ "i # a"] exI [of _ b]) auto
  next
    case 2
    then show ?thesis using "2.prems" by (intro exI [of _ "[]"] exI [of _ "is"]) auto
  next
    case 3
    then obtain a b where "is = a @ d # b" "d \<in> set a \<or> d \<in> set (i # seen)"
      using 2 by auto
    then show ?thesis by (intro exI [of _ "i # a"] exI [of _ b]) auto
  qed
qed simp

lemma assign_ids_no_missing:
  assumes "\<And>m. uuid m \<noteq> []" and put: "\<And>i x. get (put i x) = i"
  shows "\<forall>y\<in>set (fst (assign_ids uuid get put n xs)). get y \<noteq> []"
  by (induction xs arbitrary: n) (auto simp: put assms(1) new_plan_entry_id_def case_prod_beta Let_def)

lemma assign_ids_kept:
  "list_all2 (\<lambda>x y. if get x = [] then \<exists>i. y = put i x else y = x) xs
     (fst (assign_ids uuid get put n xs))"
  by (induction xs arbitrary: n) (auto simp: Let_def new_plan_entry_id_def case_prod_beta)

lemma assign_ids_noop:
  "\<forall>x\<in>set xs. get x \<noteq> [] \<Longrightarrow> assign_ids uuid get put n xs = (xs, n)"
  by (induction xs) auto

text \<open>
  The ids after assignment: kept ones in place, and for the missing ones consecutive
  outputs of the generator.
\<close>

fun fill_ids :: "(nat \<Rightarrow> string) \<Rightarrow> nat \<Rightarrow> string list \<Rightarrow> string list \<times> nat" where
  "fill_ids uuid n [] = ([], n)"
| "fill_ids uuid n (i # is) =
     (if i = [] then (let (js, m) = fill_ids uuid (Suc n) is in (take 8 (uuid n) # js, m))
      else (let (js, m) = fill_ids uuid n is in (i # js, m)))"

lemma assign_ids_fill:
  assumes "\<And>i x. get (put i x) = i"
  shows "fill_ids uuid n (map get xs) =
     (map get (fst (assign_ids uuid get put n xs)), snd (assign_ids uuid get put n xs))"
  by (induction xs arbitrary: n)
     (auto simp: assms new_plan_entry_id_def split: prod.splits)

lemma fill_ids_append:
  "fill_ids uuid n (is @ js) =
     (let (is', m) = fill_ids uuid n is; (js', k) = fill_ids uuid m js in (is' @ js', k))"
  by (induction "is" arbitrary: n) (auto simp: Let_def split: prod.splits)

lemma assign_missing_fill:
  "plan_entry_ids (fst (assign_missing_entry_ids uuid n p)) = fst (fill_ids uuid n (plan_entry_ids p))"
  by (simp add: plan_entry_ids_def assign_missing_entry_ids_def fill_ids_append Let_def
      assign_ids_fill [where get = mfs_PlanEntryID and put = "\<lambda>i. mfs_PlanEntryID_update (\<lambda>_. i)"]
      assign_ids_fill [where get = mos_PlanEntryID and put = "\<lambda>i. mos_PlanEntryID_update (\<lambda>_. i)"]
      assign_ids_fill [where get = mdb_PlanEntryID and put = "\<lambda>i. mdb_PlanEntryID_update (\<lambda>_. i)"]
      split: prod.splits)

lemma fill_ids_set:
  "j \<in> set (fst (fill_ids uuid n is)) \<Longrightarrow>
   (j \<in> set is \<and> j \<noteq> []) \<or> (\<exists>k\<in>{n..<n + length is}. j = take 8 (uuid k))"
proof (induction uuid n "is" rule: fill_ids.induct)
  case (2 uuid n i "is")
  show ?case
  proof (cases "i = []")
    case True
    with 2 consider "j = take 8 (uuid n)" | "j \<in> set (fst (fill_ids uuid (Suc n) is))"
      by (auto split: prod.splits)
    then show ?thesis
    proof cases
      case 2
      with "2.IH"(1) [OF True] show ?thesis
        by (auto simp: new_plan_entry_id_def intro: bexI [of _ n])
    qed (auto intro!: bexI [of _ n])
  next
    case False
    with 2 have "j = i \<or> j \<in> set (fst (fill_ids uuid n is))" by (auto split: prod.splits)
    with "2.IH"(2) [OF False] False show ?thesis by auto
  qed
qed simp

lemma fill_ids_distinct:
  assumes "inj_on (\<lambda>k. take 8 (uuid k)) {n..<n + length is}"
    and "\<forall>k\<in>{n..<n + length is}. take 8 (uuid k) \<notin> set is"
    and "distinct (filter (\<lambda>i. i \<noteq> []) is)"
  shows "distinct (fst (fill_ids uuid n is))"
  using assms
proof (induction "is" arbitrary: n)
  case (Cons i "is")
  have sub: "{Suc n..<Suc n + length is} \<subseteq> {n..<n + length (i # is)}"
    "{n..<n + length is} \<subseteq> {n..<n + length (i # is)}" by auto
  have IH: "distinct (fst (fill_ids uuid m is))" if "{m..<m + length is} \<subseteq> {n..<n + length (i # is)}" for m
    by (rule Cons.IH) (use Cons.prems that in \<open>auto intro: inj_on_subset split: if_splits\<close>)
  show ?case
  proof (cases "i = []")
    case True
    have "take 8 (uuid n) \<notin> set (fst (fill_ids uuid (Suc n) is))"
    proof
      assume "take 8 (uuid n) \<in> set (fst (fill_ids uuid (Suc n) is))"
      then consider "take 8 (uuid n) \<in> set is"
        | k where "k \<in> {Suc n..<Suc n + length is}" "take 8 (uuid n) = take 8 (uuid k)"
        using fill_ids_set by blast
      then show False
      proof cases
        case 1
        then show False using Cons.prems(2) by auto
      next
        case 2
        then have "n = k" using inj_onD [OF Cons.prems(1) 2(2)] by auto
        with 2(1) show False by simp
      qed
    qed
    with True IH [OF sub(1)] show ?thesis by (auto split: prod.splits)
  next
    case False
    have "i \<notin> set (fst (fill_ids uuid n is))"
    proof
      assume "i \<in> set (fst (fill_ids uuid n is))"
      then have "i \<in> set is \<or> (\<exists>k\<in>{n..<n + length is}. i = take 8 (uuid k))" using fill_ids_set by blast
      with Cons.prems False show False by auto
    qed
    with False IH [OF sub(2)] show ?thesis by (auto split: prod.splits)
  qed
qed simp

section \<open>Destinations\<close>

lemma claim_all_None_iff:
  "claim_all seen cs = None \<longleftrightarrow>
     distinct (map claim_full cs) \<and> (\<forall>c\<in>set cs. seen (claim_full c) = None)"
proof (induction cs arbitrary: seen)
  case (Cons c cs)
  show ?case
  proof (cases "seen (claim_full c)")
    case None
    have "(\<forall>d\<in>set cs. (seen(claim_full c \<mapsto> cl_entryID c)) (claim_full d) = None) \<longleftrightarrow>
        claim_full c \<notin> claim_full ` set cs \<and> (\<forall>d\<in>set cs. seen (claim_full d) = None)"
      by (auto simp: image_iff)
    with None Cons.IH show ?thesis by (simp del: fun_upd_apply) blast
  qed simp
qed simp

lemma claim_all_Some:
  "claim_all seen cs = Some (DupDestination c prev) \<Longrightarrow>
     \<exists>a b. cs = a @ c # b \<and>
       (seen (claim_full c) = Some prev \<or>
        (\<exists>d\<in>set a. claim_full d = claim_full c \<and> cl_entryID d = prev))"
proof (induction cs arbitrary: seen)
  case (Cons d cs)
  show ?case
  proof (cases "seen (claim_full d)")
    case None
    with Cons.prems have "claim_all (seen(claim_full d \<mapsto> cl_entryID d)) cs = Some (DupDestination c prev)"
      by simp
    from Cons.IH [OF this] obtain a b where ab: "cs = a @ c # b"
      and "(seen(claim_full d \<mapsto> cl_entryID d)) (claim_full c) = Some prev \<or>
        (\<exists>d\<in>set a. claim_full d = claim_full c \<and> cl_entryID d = prev)" by blast
    then show ?thesis
      by (intro exI [of _ "d # a"] exI [of _ b]) (auto split: if_splits)
  next
    case (Some q)
    with Cons.prems show ?thesis by (intro exI [of _ "[]"] exI [of _ cs]) auto
  qed
qed simp

lemma claim_full_inj:
  assumes "CHR ''|'' \<notin> set (cl_key c)" and "CHR ''|'' \<notin> set (cl_key d)"
    and "claim_full c = claim_full d"
  shows "cl_key c = cl_key d \<and> cl_path c = cl_path d"
proof -
  have "cut_char (CHR ''|'') (claim_full c) = Some (cl_key c, cl_path c)"
    using cut_char_first [OF assms(1)] by (simp add: claim_full_def)
  moreover have "cut_char (CHR ''|'') (claim_full d) = Some (cl_key d, cl_path d)"
    using cut_char_first [OF assms(2)] by (simp add: claim_full_def)
  ultimately show ?thesis using assms(3) by simp
qed

section \<open>Roots\<close>

lemma path_clean_root_iff: "path_clean p = ''/'' \<longleftrightarrow> rooted p \<and> path_comps p = []"
proof
  assume l: "path_clean p = ''/''"
  then have r: "rooted p" using rooted_clean [of p] by simp
  have "path_comps p = path_comps ''/''" using path_comps_clean [of p] l by simp
  also have "\<dots> = []" by (simp add: path_comps_def clean_comps_def clean_step_def)
  finally show "rooted p \<and> path_comps p = []" using r by simp
qed (simp add: path_clean_def)

lemma is_root_iff: "is_root p \<longleftrightarrow> rooted (trim_space p) \<and> path_comps (trim_space p) = []"
  by (auto simp: is_root_def Let_def path_clean_root_iff)

lemma find_root_folder_None:
  "find_root_folder i fs = None \<longleftrightarrow> (\<forall>f\<in>set fs. \<not> (is_root (fmi_SrcPath f) \<and> is_root (fmi_DstPath f)))"
  by (induction i fs rule: find_root_folder.induct) auto

lemma root_to_root_None:
  "root_to_root p = None \<longleftrightarrow>
     (\<forall>e\<in>set (tdm_FileSystems p). mfs_DstType e \<in> {[], StorageTypeFilesystem} \<longrightarrow>
        (\<forall>f\<in>set (mfs_Folders e). \<not> (is_root (fmi_SrcPath f) \<and> is_root (fmi_DstPath f))))"
proof -
  have "root_to_root_entries es = None \<longleftrightarrow>
     (\<forall>e\<in>set es. mfs_DstType e \<in> {[], StorageTypeFilesystem} \<longrightarrow>
        (\<forall>f\<in>set (mfs_Folders e). \<not> (is_root (fmi_SrcPath f) \<and> is_root (fmi_DstPath f))))" for es
  proof (induction es)
    case (Cons e es)
    have "find_root_folder (mfs_PlanEntryID e) (mfs_Folders e) = None \<longleftrightarrow>
        (\<forall>f\<in>set (mfs_Folders e). \<not> (is_root (fmi_SrcPath f) \<and> is_root (fmi_DstPath f)))"
      by (rule find_root_folder_None)
    with Cons.IH show ?case
      by (cases "find_root_folder (mfs_PlanEntryID e) (mfs_Folders e)") auto
  qed simp
  then show ?thesis by (simp add: root_to_root_def)
qed

section \<open>Properties\<close>

text \<open>
  \<open>DuplicateEntryID\<close> answers the empty string exactly when no two entries of the plan,
  of whatever kind, carry the same non-empty id; any other answer is an id that two
  entries do carry.
\<close>

lemma duplicate_entry_id_correct:
  "(duplicate_entry_id p = [] \<longleftrightarrow> distinct (filter (\<lambda>i. i \<noteq> []) (plan_entry_ids p))) \<and>
   (duplicate_entry_id p = [] \<or>
     (\<exists>a b c. plan_entry_ids p = a @ duplicate_entry_id p # b @ duplicate_entry_id p # c))"
proof
  show "duplicate_entry_id p = [] \<longleftrightarrow> distinct (filter (\<lambda>i. i \<noteq> []) (plan_entry_ids p))"
    by (simp add: duplicate_entry_id_def scan_entry_ids_Nil_iff)
  show "duplicate_entry_id p = [] \<or>
     (\<exists>a b c. plan_entry_ids p = a @ duplicate_entry_id p # b @ duplicate_entry_id p # c)"
  proof (cases "duplicate_entry_id p = []")
    case False
    then obtain a b where ab: "plan_entry_ids p = a @ duplicate_entry_id p # b" "duplicate_entry_id p \<in> set a"
      using scan_entry_ids_found [of "[]" "plan_entry_ids p" "duplicate_entry_id p"]
      by (auto simp: duplicate_entry_id_def)
    from ab(2) obtain a1 a2 where "a = a1 @ duplicate_entry_id p # a2" by (meson split_list)
    with ab(1) have "plan_entry_ids p = a1 @ duplicate_entry_id p # a2 @ duplicate_entry_id p # b" by simp
    then show ?thesis by blast
  qed simp
qed

lemma fill_ids_keeps:
  "list_all2 (\<lambda>i j. i = [] \<or> j = i) is (fst (fill_ids uuid n is))"
  by (induction uuid n "is" rule: fill_ids.induct) (auto split: prod.splits)

text \<open>
  \<open>AssignMissingEntryIDs\<close> leaves every entry with an id, keeps each id that was given,
  and, when the generated ids are fresh and the given ones distinct, leaves no two
  entries with the same id, so \<open>DuplicateEntryID\<close> accepts the plan.
\<close>

lemma assign_missing_entry_ids_unique:
  assumes "inj_on (\<lambda>k. take 8 (uuid k)) {n..<n + length (plan_entry_ids p)}"
    and "\<forall>k\<in>{n..<n + length (plan_entry_ids p)}. take 8 (uuid k) \<noteq> [] \<and> take 8 (uuid k) \<notin> set (plan_entry_ids p)"
    and "duplicate_entry_id p = []"
  shows "let p' = fst (assign_missing_entry_ids uuid n p)
    in [] \<notin> set (plan_entry_ids p') \<and> distinct (plan_entry_ids p') \<and> duplicate_entry_id p' = [] \<and>
       list_all2 (\<lambda>i j. i = [] \<or> j = i) (plan_entry_ids p) (plan_entry_ids p')"
proof -
  have d: "distinct (filter (\<lambda>i. i \<noteq> []) (plan_entry_ids p))"
    using assms(3) by (simp add: duplicate_entry_id_def scan_entry_ids_Nil_iff)
  have e: "[] \<notin> set (fst (fill_ids uuid n (plan_entry_ids p)))"
    using fill_ids_set [of "[]" uuid n "plan_entry_ids p"] assms(2) by auto
  have f: "distinct (fst (fill_ids uuid n (plan_entry_ids p)))"
    using fill_ids_distinct [of uuid n "plan_entry_ids p"] assms(1,2) d by simp
  show ?thesis
    using e f fill_ids_keeps [of "plan_entry_ids p" uuid n]
    by (simp add: Let_def assign_missing_fill duplicate_entry_id_def scan_entry_ids_Nil_iff)
qed

text \<open>
  with destination keys free of the separator \<open>|\<close>, \<open>DuplicateDestination\<close> accepts a plan
  exactly when no two of its items write to the same path of the same destination.
\<close>

lemma duplicate_destination_iff:
  assumes "\<forall>c\<in>set (plan_claims p). CHR ''|'' \<notin> set (cl_key c)"
  shows "duplicate_destination p = None \<longleftrightarrow> distinct (map (\<lambda>c. (cl_key c, cl_path c)) (plan_claims p))"
proof -
  have "distinct (map claim_full cs) \<longleftrightarrow> distinct (map (\<lambda>c. (cl_key c, cl_path c)) cs)"
    if "\<forall>c\<in>set cs. CHR ''|'' \<notin> set (cl_key c)" for cs
    using that
  proof (induction cs)
    case (Cons c cs)
    have "claim_full c \<in> claim_full ` set cs \<longleftrightarrow> (cl_key c, cl_path c) \<in> (\<lambda>c. (cl_key c, cl_path c)) ` set cs"
    proof
      assume "claim_full c \<in> claim_full ` set cs"
      then obtain d where "d \<in> set cs" "claim_full c = claim_full d" by auto
      with claim_full_inj [of c d] Cons.prems show "(cl_key c, cl_path c) \<in> (\<lambda>c. (cl_key c, cl_path c)) ` set cs"
        by force
    qed (force simp: claim_full_def image_iff)
    with Cons show ?case by simp
  qed simp
  with assms show ?thesis by (simp add: duplicate_destination_def claim_all_None_iff)
qed

definition two_folders :: target_data_migration_property where
  "two_folders = empty_target\<lparr>tdm_FileSystems :=
     [\<lparr>mfs_PlanEntryID = ''a'', mfs_SrcConnection = honeybee_conn ''c'', mfs_DstConnection = honeybee_conn ''d'',
       mfs_DstType = StorageTypeFilesystem, mfs_Strategy = StrategyDirect,
       mfs_Folders = [\<lparr>fmi_Order = 1, fmi_SrcPath = ''/x'', fmi_DstPath = ''/y'', fmi_Rules = []\<rparr>,
                      \<lparr>fmi_Order = 2, fmi_SrcPath = ''/z'', fmi_DstPath = ''/y'', fmi_Rules = []\<rparr>],
       mfs_Errors = []\<rparr>]\<rparr>"

lemma duplicate_destination_iff_witness: "duplicate_destination two_folders \<noteq> None"
proof -
  have c: "plan_claims two_folders = map (\<lambda>_. \<lparr>cl_entryID = ''a'', cl_key = ''honeybee:d'', cl_path = ''/y'', cl_what = ''destination path''\<rparr>) [(), ()]"
    by (simp add: plan_claims_def two_folders_def fs_claims_def empty_target_def dst_key_def honeybee_conn_def empty_ref_def)
  from duplicate_destination_iff [of two_folders] show ?thesis by (simp add: c)
qed

definition two_entries :: target_data_migration_property where
  "two_entries = two_folders\<lparr>tdm_FileSystems := map (mfs_PlanEntryID_update (\<lambda>_. [])) (tdm_FileSystems two_folders)
     @ tdm_FileSystems two_folders\<rparr>"

lemma assign_missing_entry_ids_unique_witness:
  "[] \<notin> set (plan_entry_ids (fst (assign_missing_entry_ids (\<lambda>k. replicate (Suc k) (CHR ''u'')) 0 two_entries)))"
proof -
  have ids: "plan_entry_ids two_entries = [[], ''a'']"
    by (simp add: two_entries_def two_folders_def plan_entry_ids_def empty_target_def)
  have inj: "inj_on (\<lambda>k. take 8 (replicate (Suc k) (CHR ''u''))) {0..<0 + length (plan_entry_ids two_entries)}"
    by (auto simp: ids inj_on_def)
  have "duplicate_entry_id two_entries = []" by (simp add: duplicate_entry_id_def ids)
  from assign_missing_entry_ids_unique [OF inj _ this] show ?thesis by (simp add: ids Let_def)
qed

text \<open>
  \<open>RootToRoot\<close> reports a plan exactly when some file system entry whose destination is a
  file system (an empty type counts as one) has an item both of whose paths, after
  trimming white space and cleaning, are the root.
\<close>

lemma root_to_root_iff:
  "root_to_root p \<noteq> None \<longleftrightarrow>
     (\<exists>e f. e \<in> set (tdm_FileSystems p) \<and> mfs_DstType e \<in> {[], StorageTypeFilesystem} \<and> f \<in> set (mfs_Folders e) \<and>
        rooted (trim_space (fmi_SrcPath f)) \<and> path_comps (trim_space (fmi_SrcPath f)) = [] \<and>
        rooted (trim_space (fmi_DstPath f)) \<and> path_comps (trim_space (fmi_DstPath f)) = [])"
  using root_to_root_None [of p] by (auto simp: is_root_iff)

end
