(* ===== verification/PgObjectName.thy ===== *)
theory PgObjectName
  imports GoStrings
begin

text \<open>
  \<open>data-mig/dbmsx/filter/object_name.go\<close>: which schema object an \<open>object_exclude\<close> rule
  takes, given the object's name as an inspection lists it. PostgreSQL spells one object
  several ways: bare, schema-qualified, quoted, and for routines with its identity
  arguments.
\<close>

section \<open>Fields\<close>

text \<open>\<open>strings.Fields\<close>: the maximal runs between white-space runes.\<close>

definition flush_word :: "string \<Rightarrow> string list \<Rightarrow> string list" where
  "flush_word w ws = (if w = [] then ws else rev w # ws)"

function fields_from :: "string \<Rightarrow> string \<Rightarrow> string list" where
  "fields_from w s =
     (case strip_one space_encodings s of
        Some s' \<Rightarrow> flush_word w (fields_from [] s')
      | None \<Rightarrow> (case s of [] \<Rightarrow> flush_word w [] | c # s' \<Rightarrow> fields_from (c # w) s'))"
  by pat_completeness auto
termination
  by (relation "measure (\<lambda>(w, s). length s)") (auto dest: strip_one_shorter)

declare fields_from.simps [simp del]

definition go_fields :: "string \<Rightarrow> string list" where
  "go_fields s = fields_from [] s"

section \<open>Splitting a PostgreSQL name\<close>

abbreviation dquote :: char where "dquote \<equiv> CHR 34"
abbreviation blank :: char where "blank \<equiv> CHR '' ''"

text \<open>
  The text of a quoted identifier after its opening quote, and what follows the closing
  one. A doubled quote is one quote of the identifier; \<open>None\<close> is an unterminated one.
\<close>

fun pg_quoted :: "string \<Rightarrow> (string \<times> string) option" where
  "pg_quoted [] = None"
| "pg_quoted [c] = (if c = dquote then Some ([], []) else None)"
| "pg_quoted (c # d # s) =
     (if c = dquote then
        (if d = dquote then map_option (\<lambda>(i, r). (dquote # i, r)) (pg_quoted s)
         else Some ([], d # s))
      else map_option (\<lambda>(i, r). (c # i, r)) (pg_quoted (d # s)))"

definition pg_ident :: "string \<Rightarrow> (string \<times> string) option" where
  "pg_ident s =
     (if has_prefix s [dquote] then pg_quoted (drop 1 s)
      else Some (trim_space (takeWhile (\<lambda>c. c \<noteq> CHR ''.'' \<and> c \<noteq> CHR ''('') s),
                 dropWhile (\<lambda>c. c \<noteq> CHR ''.'' \<and> c \<noteq> CHR ''('') s))"

text \<open>
  The loop over dotted identifiers; the number is how many more the name may hold (two
  in all, so a third dot fails).
\<close>

fun pg_parts :: "nat \<Rightarrow> string \<Rightarrow> (string list \<times> string) option" where
  "pg_parts 0 s = None"
| "pg_parts (Suc k) s =
     (case pg_ident s of
        None \<Rightarrow> None
      | Some (i, r) \<Rightarrow>
          (if i = [] then None
           else let r' = trim_left_char blank r in
             (if has_prefix r' ''.'' then
                (case pg_parts k (trim_left_char blank (drop 1 r')) of
                   None \<Rightarrow> None
                 | Some (ps, t) \<Rightarrow> Some (i # ps, t))
              else Some ([i], r'))))"

record pg_name =
  pn_parts :: "string list"
  pn_args :: string
  pn_hasArgs :: bool

definition split_pg_name :: "string \<Rightarrow> pg_name option" where
  "split_pg_name s =
     (case pg_parts 2 (trim_space s) of
        None \<Rightarrow> None
      | Some (ps, t) \<Rightarrow>
          (if t = [] then Some \<lparr>pn_parts = ps, pn_args = [], pn_hasArgs = False\<rparr>
           else if has_prefix t ''('' \<and> has_suffix t '')''
             then Some \<lparr>pn_parts = ps, pn_args = take (length t - 2) (drop 1 t), pn_hasArgs = True\<rparr>
           else None))"

section \<open>Matching\<close>

definition normalize_arg :: "string \<Rightarrow> string" where
  "normalize_arg a =
     (let fs = go_fields a;
          fs' = (if length fs > 1 \<and> equal_fold (hd fs) ''IN'' then tl fs else fs)
      in join '' '' fs')"

definition normalize_pg_args :: "string \<Rightarrow> string" where
  "normalize_pg_args args =
     (let list = map normalize_arg (split_char (CHR '','') args)
      in if length list = 1 \<and> hd list = [] then [] else join '', '' list)"

definition pg_routine_rule_matches :: "string \<Rightarrow> string \<Rightarrow> string \<Rightarrow> string \<Rightarrow> bool" where
  "pg_routine_rule_matches rule schema name args =
     (if rule = name \<or> rule = schema @ ''.'' @ name then True
      else (case split_pg_name rule of
              None \<Rightarrow> False
            | Some n \<Rightarrow>
                (if pn_parts n = [name] \<or> pn_parts n = [schema, name]
                 then \<not> pn_hasArgs n \<or> normalize_pg_args (pn_args n) = normalize_pg_args args
                 else False)))"

definition object_name_matches :: "string \<Rightarrow> string \<Rightarrow> string \<Rightarrow> string \<Rightarrow> bool" where
  "object_name_matches dbms_type kind rule inventory_name =
     (if rule = inventory_name then True
      else if dbms_type \<noteq> ''postgresql'' then False
      else (case split_pg_name inventory_name of
              None \<Rightarrow> False
            | Some n \<Rightarrow>
                (case pn_parts n of
                   [p] \<Rightarrow> rule = p
                 | p # q # _ \<Rightarrow>
                     (if kind = ''function'' \<or> kind = ''procedure''
                      then pn_hasArgs n \<and> pg_routine_rule_matches rule p q (pn_args n)
                      else \<not> pn_hasArgs n \<and> (rule = q \<or> rule = p @ ''.'' @ q))
                 | [] \<Rightarrow> False)))"

section \<open>Quoted names round-trip\<close>

definition quote_ident :: "string \<Rightarrow> string" where
  "quote_ident i = dquote # concat (map (\<lambda>c. if c = dquote then [dquote, dquote] else [c]) i) @ [dquote]"

lemma pg_quoted_quote:
  assumes "r = [] \<or> hd r \<noteq> dquote"
  shows "pg_quoted (concat (map (\<lambda>c. if c = dquote then [dquote, dquote] else [c]) i) @ dquote # r) = Some (i, r)"
proof (induction i)
  case Nil
  show ?case using assms by (cases r) auto
next
  case (Cons c i)
  obtain d t where "concat (map (\<lambda>c. if c = dquote then [dquote, dquote] else [c]) i) @ dquote # r = d # t"
    by (cases "concat (map (\<lambda>c. if c = dquote then [dquote, dquote] else [c]) i) @ dquote # r") auto
  with Cons show ?case by (cases "c = dquote") simp_all
qed

lemma pg_ident_quote: "r = [] \<or> hd r \<noteq> dquote \<Longrightarrow> pg_ident (quote_ident i @ r) = Some (i, r)"
  using pg_quoted_quote [of r i] by (simp add: pg_ident_def quote_ident_def)

lemma quote_ident_shape: "quote_ident i \<noteq> []" "hd (quote_ident i @ r) = dquote" "last (r @ quote_ident i) = dquote"
  by (simp_all add: quote_ident_def)

lemma quote_ident_trim_left: "trim_left_char blank (quote_ident i @ r) = quote_ident i @ r"
  by (simp add: quote_ident_def trim_left_char_def)

lemma pg_parts_qualified:
  assumes "s \<noteq> []" and "n \<noteq> []" and "r = [] \<or> (hd r \<noteq> dquote \<and> hd r \<noteq> blank \<and> hd r \<noteq> CHR ''.'')"
  shows "pg_parts 2 (quote_ident s @ ''.'' @ quote_ident n @ r) = Some ([s, n], r)"
proof -
  have r: "trim_left_char blank r = r" using assms(3) by (auto intro: trim_left_char_id)
  have nd: "\<not> has_prefix r ''.''" using assms(3) by (cases r) auto
  have one: "pg_parts (Suc 0) (quote_ident n @ r) = Some ([n], r)"
    using pg_ident_quote [of r n] assms(2,3) r nd by auto
  have "pg_ident (quote_ident s @ ''.'' @ quote_ident n @ r) = Some (s, ''.'' @ quote_ident n @ r)"
    by (rule pg_ident_quote) simp
  with one assms(1) quote_ident_trim_left [of n r] show ?thesis
    by (simp add: numeral_2_eq_2 trim_left_char_def [of _ "CHR ''.'' # _"])
qed

section \<open>Properties\<close>

lemma split_pg_name_qualified:
  assumes "s \<noteq> []" and "n \<noteq> []"
  shows "split_pg_name (quote_ident s @ ''.'' @ quote_ident n) =
     Some \<lparr>pn_parts = [s, n], pn_args = [], pn_hasArgs = False\<rparr>"
proof -
  have "trim_space (quote_ident s @ ''.'' @ quote_ident n) = quote_ident s @ ''.'' @ quote_ident n"
    by (rule trim_space_printable)
       (use quote_ident_shape(2) [of s] quote_ident_shape(3) [of "quote_ident s @ ''.''" n] in \<open>simp add: printable_def\<close>)
  with pg_parts_qualified [OF assms, of "[]"] show ?thesis by (simp add: split_pg_name_def)
qed

text \<open>
  whatever characters a PostgreSQL schema and object name hold (dots, spaces, quotes,
  parentheses), an object listed under its quoted, qualified name is taken by a rule
  exactly when the rule spells that listing, the bare name, or \<open>schema.name\<close> unquoted.
\<close>

lemma quoted_object_matched_by_name:
  assumes "s \<noteq> []" and "n \<noteq> []" and "kind \<noteq> ''function''" and "kind \<noteq> ''procedure''"
  shows "object_name_matches ''postgresql'' kind rule (quote_ident s @ ''.'' @ quote_ident n) \<longleftrightarrow>
     rule = quote_ident s @ ''.'' @ quote_ident n \<or> rule = n \<or> rule = s @ ''.'' @ n"
  using split_pg_name_qualified [OF assms(1,2)] assms(3,4) by (simp add: object_name_matches_def)

lemma quoted_object_matched_by_name_witness:
  "object_name_matches ''postgresql'' ''view'' ''a.b'' (quote_ident ''public'' @ ''.'' @ quote_ident ''a.b'')"
  using quoted_object_matched_by_name [of "''public''" "''a.b''" "''view''" "''a.b''"] by simp

end
