(* ===== verification/DbmsFilter.thy ===== *)
theory DbmsFilter
  imports CommonModel PgObjectName
begin

text \<open>
  The exclude-only filter pipeline of a database migration:
  \<open>data-mig/dbmsx/filter/filter.go\<close>, \<open>table_col_exclude.go\<close>, \<open>row_exclude.go\<close> and
  \<open>object_exclude.go\<close>. A matcher is one of the three types the repository registers; the
  internal interfaces \<open>tableColumnRule\<close>, \<open>rowExcludeRule\<close> and \<open>objectExcludeRule\<close> are then
  the constructors. Whether a predicate is the text of a JSON object, and of the empty
  one, is \<open>encoding/json\<close>'s answer: the parameter \<open>json_object\<close>.
\<close>

section \<open>Engines and object kinds\<close>

abbreviation MySQL :: string where "MySQL \<equiv> ''mysql''"
abbreviation MariaDB :: string where "MariaDB \<equiv> ''mariadb''"
abbreviation PostgreSQL :: string where "PostgreSQL \<equiv> ''postgresql''"
abbreviation MongoDB :: string where "MongoDB \<equiv> ''mongodb''"

definition object_kind_engines :: "(string \<times> string list) list" where
  "object_kind_engines =
     [(''view'', [MySQL, MariaDB, PostgreSQL, MongoDB]), (''index'', [MySQL, MariaDB, PostgreSQL, MongoDB]),
      (''function'', [MySQL, MariaDB, PostgreSQL]), (''procedure'', [MySQL, MariaDB, PostgreSQL]),
      (''trigger'', [MySQL, MariaDB, PostgreSQL]), (''foreign_key'', [MySQL, MariaDB, PostgreSQL]),
      (''event'', [MySQL, MariaDB]), (''materialized_view'', [PostgreSQL]), (''sequence'', [PostgreSQL]),
      (''type'', [PostgreSQL]), (''extension'', [PostgreSQL]), (''rule'', [PostgreSQL]),
      (''validator'', [MongoDB])]"

definition row_exclude_sql_engines :: "string list" where
  "row_exclude_sql_engines = [MySQL, MariaDB, PostgreSQL]"

definition row_exclude_doc_engines :: "string list" where
  "row_exclude_doc_engines = [MongoDB]"

section \<open>Matchers\<close>

datatype dbms_matcher =
    TableColumn string "string list"
  | RowExclude string string
  | ObjectExclude string string string    \<comment> \<open>kind, name, table\<close>

type_synonym dbms_rules = "dbms_matcher option list"

datatype dbms_filter_error =
    RuleTypeMissing
  | RuleTypeUnknown string
  | FieldRequired string string
  | ObjectKindUnknown string
  | TableOnlyForIndex string
  | NoMatcher nat
  | EngineUnsupported string string
  | RuleFieldRequired nat string
  | ColumnsNeedDirect string
  | PredicateIsDocument string string
  | PredicateIsSQL string string
  | RowsNeedDirect string
  | ObjectNeedsDirect string string

fun dbms_matcher_type :: "dbms_matcher \<Rightarrow> string" where
  "dbms_matcher_type (TableColumn _ _) = ''table_column''"
| "dbms_matcher_type (RowExclude _ _) = ''row_exclude''"
| "dbms_matcher_type (ObjectExclude _ _ _) = ''object_exclude''"

fun applies_to :: "dbms_matcher \<Rightarrow> string \<Rightarrow> bool" where
  "applies_to (TableColumn _ _) t = True"
| "applies_to (RowExclude _ _) t = (t \<in> set row_exclude_sql_engines \<or> t \<in> set row_exclude_doc_engines)"
| "applies_to (ObjectExclude k _ _) t =
     (case map_of object_kind_engines k of None \<Rightarrow> False | Some es \<Rightarrow> t \<in> set es)"

definition new_table_column :: "dbms_filter_rule \<Rightarrow> dbms_filter_error + dbms_matcher" where
  "new_table_column r =
     (if dfr_Table r = [] then Inl (FieldRequired ''table_column'' ''table'')
      else Inr (TableColumn (dfr_Table r) (dfr_Columns r)))"

definition new_row_exclude :: "dbms_filter_rule \<Rightarrow> dbms_filter_error + dbms_matcher" where
  "new_row_exclude r =
     (if dfr_Table r = [] then Inl (FieldRequired ''row_exclude'' ''table'')
      else if dfr_Match r = [] then Inl (FieldRequired ''row_exclude'' ''match'')
      else Inr (RowExclude (dfr_Table r) (dfr_Match r)))"

definition new_object_exclude :: "dbms_filter_rule \<Rightarrow> dbms_filter_error + dbms_matcher" where
  "new_object_exclude r =
     (if dfr_Kind r = [] then Inl (FieldRequired ''object_exclude'' ''kind'')
      else if map_of object_kind_engines (dfr_Kind r) = None then Inl (ObjectKindUnknown (dfr_Kind r))
      else if dfr_Name r = [] then Inl (FieldRequired ''object_exclude'' ''name'')
      else if dfr_Table r \<noteq> [] \<and> dfr_Kind r \<noteq> ''index'' then Inl (TableOnlyForIndex (dfr_Kind r))
      else Inr (ObjectExclude (dfr_Kind r) (dfr_Name r) (dfr_Table r)))"

definition dbms_rule_unmarshal :: "dbms_filter_rule \<Rightarrow> dbms_filter_error + dbms_matcher" where
  "dbms_rule_unmarshal r =
     (if dfr_Type r = [] then Inl RuleTypeMissing
      else if dfr_Type r = DBMSRuleTableColumn then new_table_column r
      else if dfr_Type r = DBMSRuleRowExclude then new_row_exclude r
      else if dfr_Type r = DBMSRuleObjectExclude then new_object_exclude r
      else Inl (RuleTypeUnknown (dfr_Type r)))"

fun dbms_unmarshal_rules :: "dbms_filter_rule list \<Rightarrow> dbms_filter_error + dbms_rules" where
  "dbms_unmarshal_rules [] = Inr []"
| "dbms_unmarshal_rules (r # rs) =
     bind_res (dbms_rule_unmarshal r) (\<lambda>m. bind_res (dbms_unmarshal_rules rs) (\<lambda>ms. Inr (Some m # ms)))"

text \<open>\<open>toDBMSFilter\<close> of \<open>pkg/core/migration/filterconv.go\<close>: no rules is a nil option.\<close>

definition to_dbms_filter :: "dbms_filter_rule list \<Rightarrow> dbms_filter_error + dbms_rules option" where
  "to_dbms_filter rules =
     (if rules = [] then Inr None else bind_res (dbms_unmarshal_rules rules) (\<lambda>ms. Inr (Some ms)))"

section \<open>Validation against an engine\<close>

type_synonym json_object = "string \<Rightarrow> bool \<times> bool"

definition validate_table_column :: "nat \<Rightarrow> string \<Rightarrow> string list \<Rightarrow> bool \<Rightarrow> dbms_filter_error option" where
  "validate_table_column i table columns directAccess =
     (if table = [] then Some (RuleFieldRequired i ''table'')
      else if columns \<noteq> [] \<and> \<not> directAccess then Some (ColumnsNeedDirect table)
      else None)"

definition validate_row_exclude ::
  "json_object \<Rightarrow> nat \<Rightarrow> string \<Rightarrow> string \<Rightarrow> string \<Rightarrow> bool \<Rightarrow> dbms_filter_error option" where
  "validate_row_exclude json i dbmsType table pred directAccess =
     (if table = [] then Some (RuleFieldRequired i ''table'')
      else if pred = [] then Some (RuleFieldRequired i ''match'')
      else (let (isDoc, empty) = json pred
            in if dbmsType \<in> set row_exclude_sql_engines \<and> isDoc then Some (PredicateIsDocument table dbmsType)
               else if dbmsType \<in> set row_exclude_doc_engines \<and> \<not> isDoc then Some (PredicateIsSQL table dbmsType)
               else if dbmsType \<in> set row_exclude_doc_engines \<and> empty then Some (RuleFieldRequired i ''match'')
               else if \<not> directAccess then Some (RowsNeedDirect table)
               else None))"

definition validate_object_exclude :: "nat \<Rightarrow> string \<Rightarrow> string \<Rightarrow> bool \<Rightarrow> dbms_filter_error option" where
  "validate_object_exclude i kind name directAccess =
     (if kind = [] then Some (RuleFieldRequired i ''kind'')
      else if name = [] then Some (RuleFieldRequired i ''name'')
      else if \<not> directAccess then Some (ObjectNeedsDirect kind name)
      else None)"

definition validate_dbms_rule ::
  "json_object \<Rightarrow> string \<Rightarrow> bool \<Rightarrow> nat \<times> dbms_matcher option \<Rightarrow> dbms_filter_error option" where
  "validate_dbms_rule json dbmsType directAccess = (\<lambda>(i, r).
     (case r of
        None \<Rightarrow> Some (NoMatcher i)
      | Some m \<Rightarrow>
          (if \<not> applies_to m dbmsType then Some (EngineUnsupported (dbms_matcher_type m) dbmsType)
           else (case m of
                   TableColumn t cs \<Rightarrow> validate_table_column i t cs directAccess
                 | RowExclude t p \<Rightarrow> validate_row_exclude json i dbmsType t p directAccess
                 | ObjectExclude k n t \<Rightarrow> validate_object_exclude i k n directAccess))))"

definition dbms_filter_validate ::
  "json_object \<Rightarrow> dbms_rules option \<Rightarrow> string \<Rightarrow> bool \<Rightarrow> dbms_filter_error option" where
  "dbms_filter_validate json opt dbmsType directAccess =
     (case opt of None \<Rightarrow> None
      | Some rules \<Rightarrow> first_err (validate_dbms_rule json dbmsType directAccess) (enum 0 rules))"

section \<open>Resolution, as the drivers consult it\<close>

definition opt_rules :: "dbms_rules option \<Rightarrow> dbms_rules" where
  "opt_rules opt = (case opt of None \<Rightarrow> [] | Some rs \<Rightarrow> rs)"

definition is_table_excluded :: "dbms_rules option \<Rightarrow> string \<Rightarrow> bool" where
  "is_table_excluded opt table =
     list_ex (\<lambda>r. case r of Some (TableColumn t cs) \<Rightarrow> t = table \<and> cs = [] | _ \<Rightarrow> False) (opt_rules opt)"

definition filter_tables :: "dbms_rules option \<Rightarrow> string list \<Rightarrow> string list" where
  "filter_tables opt names = filter (\<lambda>n. \<not> is_table_excluded opt n) names"

definition excluded_columns :: "dbms_rules option \<Rightarrow> string \<Rightarrow> string list" where
  "excluded_columns opt table =
     concat (map (\<lambda>r. case r of Some (TableColumn t cs) \<Rightarrow> if t = table then cs else [] | _ \<Rightarrow> []) (opt_rules opt))"

definition keep_columns :: "dbms_rules option \<Rightarrow> string \<Rightarrow> string list \<Rightarrow> string list" where
  "keep_columns opt table cols = filter (\<lambda>c. c \<notin> set (excluded_columns opt table)) cols"

fun first_seen :: "string list \<Rightarrow> string list \<Rightarrow> string list" where
  "first_seen seen [] = []"
| "first_seen seen (x # xs) =
     (if x = [] \<or> x \<in> set seen then first_seen seen xs else x # first_seen (x # seen) xs)"

definition excluded_table_names :: "dbms_rules option \<Rightarrow> string list" where
  "excluded_table_names opt =
     first_seen [] (concat (map (\<lambda>r. case r of Some (TableColumn t cs) \<Rightarrow> if cs = [] then [t] else [] | _ \<Rightarrow> []) (opt_rules opt)))"

definition row_exclude_matches :: "dbms_rules option \<Rightarrow> string \<Rightarrow> string list" where
  "row_exclude_matches opt table =
     concat (map (\<lambda>r. case r of Some (RowExclude t m) \<Rightarrow> if t = table \<and> m \<noteq> [] then [m] else [] | _ \<Rightarrow> []) (opt_rules opt))"

definition row_exclude_queries :: "json_object \<Rightarrow> dbms_rules option \<Rightarrow> string \<Rightarrow> string list" where
  "row_exclude_queries json opt collection =
     concat (map (\<lambda>r. case r of Some (RowExclude t m) \<Rightarrow>
         if t = collection \<and> m \<noteq> [] \<and> \<not> snd (json m) then [m] else [] | _ \<Rightarrow> []) (opt_rules opt))"

definition is_object_excluded :: "dbms_rules option \<Rightarrow> string \<Rightarrow> string \<Rightarrow> bool" where
  "is_object_excluded opt kind name =
     list_ex (\<lambda>r. case r of Some (ObjectExclude k n t) \<Rightarrow> k = kind \<and> n = name \<and> t = [] | _ \<Rightarrow> False) (opt_rules opt)"

definition is_object_excluded_in_table :: "dbms_rules option \<Rightarrow> string \<Rightarrow> string \<Rightarrow> string \<Rightarrow> bool" where
  "is_object_excluded_in_table opt kind table name =
     list_ex (\<lambda>r. case r of Some (ObjectExclude k n t) \<Rightarrow> k = kind \<and> n = name \<and> (t = [] \<or> t = table) | _ \<Rightarrow> False)
       (opt_rules opt)"

definition rule_target :: "dbms_matcher \<Rightarrow> string" where
  "rule_target m = (case m of TableColumn t _ \<Rightarrow> t | RowExclude t _ \<Rightarrow> t
                    | ObjectExclude _ n t \<Rightarrow> (if t \<noteq> [] then t else n))"

definition rule_targets :: "dbms_rules option \<Rightarrow> string list" where
  "rule_targets opt =
     first_seen [] (concat (map (\<lambda>r. case r of Some m \<Rightarrow> [rule_target m] | None \<Rightarrow> []) (opt_rules opt)))"

definition filter_objects :: "dbms_rules option \<Rightarrow> string \<Rightarrow> string list \<Rightarrow> string list" where
  "filter_objects opt kind names = filter (\<lambda>n. \<not> is_object_excluded opt kind n) names"

section \<open>Facts\<close>

lemma first_seen_spec:
  "distinct (first_seen seen xs) \<and> set (first_seen seen xs) = {x \<in> set xs. x \<noteq> [] \<and> x \<notin> set seen}"
proof (induction seen xs rule: first_seen.induct)
  case (2 seen x xs)
  then show ?case by (cases "x = [] \<or> x \<in> set seen") auto
qed simp

text \<open>
  the two ways a driver leaves whole tables out agree: a table survives
  \<open>FilterTables\<close> exactly when it was listed and \<open>ExcludedTableNames\<close>, the flags handed to
  a native dump, does not name it, and those flags name each table once.
\<close>

lemma excluded_tables_two_readings_agree:
  assumes "table \<noteq> []"
  shows "(table \<in> set (filter_tables opt names) \<longleftrightarrow> table \<in> set names \<and> table \<notin> set (excluded_table_names opt)) \<and>
     distinct (excluded_table_names opt)"
proof -
  have "table \<in> set (concat (map (\<lambda>r. case r of Some (TableColumn t cs) \<Rightarrow> if cs = [] then [t] else [] | _ \<Rightarrow> []) rs)) \<longleftrightarrow>
      list_ex (\<lambda>r. case r of Some (TableColumn t cs) \<Rightarrow> t = table \<and> cs = [] | _ \<Rightarrow> False) rs" for rs
    by (induction rs) (auto split: option.splits dbms_matcher.splits)
  then show ?thesis
    using assms first_seen_spec by (auto simp: filter_tables_def is_table_excluded_def excluded_table_names_def)
qed

lemma excluded_tables_two_readings_agree_witness:
  "''log'' \<notin> set (filter_tables (Some [Some (TableColumn ''log'' [])]) [''log'', ''users''])"
  using excluded_tables_two_readings_agree [of "''log''" "Some [Some (TableColumn ''log'' [])]" "[''log'', ''users'']"]
  by (simp add: excluded_table_names_def opt_rules_def)

text \<open>
  over an SSH tunnel only whole-table exclusion is left: a pipeline that \<open>Validate\<close>
  accepts without direct access drops no column, no row and no single object, so nothing
  a native dump cannot express is silently ignored.
\<close>

lemma tunnel_filter_drops_only_tables:
  assumes "dbms_filter_validate json opt dbmsType False = None"
  shows "keep_columns opt table cols = cols \<and> row_exclude_matches opt table = [] \<and>
     filter_objects opt kind names = names \<and> \<not> is_object_excluded_in_table opt kind table name"
proof -
  have only: "\<exists>t. r = Some (TableColumn t [])" if "r \<in> set (opt_rules opt)" for r
  proof -
    from that obtain rules where opt: "opt = Some rules" "r \<in> set rules" by (cases opt) (auto simp: opt_rules_def)
    then obtain i where i: "i < length rules" "r = rules ! i" by (auto simp: in_set_conv_nth)
    have v: "validate_dbms_rule json dbmsType False (i, r) = None"
      using assms opt(1) i by (auto simp: dbms_filter_validate_def ball_enum)
    then show ?thesis
      by (auto simp: validate_dbms_rule_def validate_table_column_def validate_row_exclude_def
          validate_object_exclude_def Let_def split: option.splits dbms_matcher.splits if_splits prod.splits)
  qed
  have "set (excluded_columns opt table) = {}" using only by (fastforce simp: excluded_columns_def)
  moreover have "row_exclude_matches opt table = []" using only by (fastforce simp: row_exclude_matches_def)
  moreover have "\<not> is_object_excluded opt kind n" for n using only by (fastforce simp: is_object_excluded_def list_ex_iff)
  moreover have "\<not> is_object_excluded_in_table opt kind table name"
    using only by (fastforce simp: is_object_excluded_in_table_def list_ex_iff)
  ultimately show ?thesis by (simp add: keep_columns_def filter_objects_def)
qed

lemma tunnel_filter_drops_only_tables_witness:
  "keep_columns (Some [Some (TableColumn ''log'' [])]) ''users'' [''id''] = [''id'']"
  by (rule conjunct1, rule tunnel_filter_drops_only_tables [of "\<lambda>_. (False, False)" _ MySQL])
     (simp add: dbms_filter_validate_def validate_dbms_rule_def validate_table_column_def)

end
