(* ===== verification/ServerVersion.thy ===== *)
theory ServerVersion
  imports GoStrings
begin

text \<open>
  \<open>data-mig/dbmsx/driver/base/version.go\<close>: reading the numbers out of the version string
  a database server reports, and deciding whether a target precedes its source. The
  components are Go \<open>int\<close>s, so \<open>strconv.Atoi\<close>'s range check is part of the parse.
\<close>

section \<open>Atoi\<close>

definition is_digit :: "char \<Rightarrow> bool" where
  "is_digit c = (let n = of_char c :: nat in 48 \<le> n \<and> n \<le> 57)"

definition atoi_digits :: "string \<Rightarrow> nat option" where
  "atoi_digits s = (if s \<noteq> [] \<and> list_all is_digit s then Some (digits_value s) else None)"

definition in_int64 :: "int \<Rightarrow> bool" where
  "in_int64 n \<longleftrightarrow> - (2 ^ 63) \<le> n \<and> n < 2 ^ 63"

definition atoi :: "string \<Rightarrow> int option" where
  "atoi s =
     (let v = (case s of
                 [] \<Rightarrow> None
               | c # r \<Rightarrow>
                   (if c = CHR ''-'' then map_option (\<lambda>n. - int n) (atoi_digits r)
                    else if c = CHR ''+'' then map_option int (atoi_digits r)
                    else map_option int (atoi_digits s)))
      in case v of None \<Rightarrow> None | Some n \<Rightarrow> if in_int64 n then Some n else None)"

section \<open>Parsing and comparing\<close>

definition version_separators :: "char set" where
  "version_separators = set '' -+~_''"

fun parse_parts :: "string list \<Rightarrow> int list" where
  "parse_parts [] = []"
| "parse_parts (p # ps) =
     (case atoi (trim_space p) of
        None \<Rightarrow> []
      | Some n \<Rightarrow> if n < 0 then [] else n # parse_parts ps)"

definition parse_server_version :: "string \<Rightarrow> int list" where
  "parse_server_version s =
     parse_parts (split_char (CHR ''.'') (takeWhile (\<lambda>c. c \<notin> version_separators) s))"

definition significant_version_depth :: "string \<Rightarrow> int list \<Rightarrow> nat" where
  "significant_version_depth dbms_type version =
     (if dbms_type = ''postgresql'' \<and> 0 < length version \<and> 10 \<le> hd version then 1 else 2)"

fun compare_prefix :: "nat \<Rightarrow> int list \<Rightarrow> int list \<Rightarrow> int" where
  "compare_prefix (Suc d) (a # as) (b # bs) =
     (if a < b then -1 else if a > b then 1 else compare_prefix d as bs)"
| "compare_prefix _ _ _ = 0"

text \<open>\<open>None\<close> is the Go pair \<open>(0, false)\<close>: nothing was compared.\<close>

definition compare_server_versions :: "string \<Rightarrow> string \<Rightarrow> string \<Rightarrow> int option" where
  "compare_server_versions dbms_type a b =
     (let pa = parse_server_version a; pb = parse_server_version b in
      if length pa = 0 \<or> length pb = 0 then None
      else
        let depth = foldl min (significant_version_depth dbms_type pa)
              [significant_version_depth dbms_type pb, length pa, length pb]
        in Some (compare_prefix depth pa pb))"

record version_compatibility =
  vc_DBMSType :: string
  vc_Source :: string
  vc_Target :: string
  vc_Comparable :: bool
  vc_Downgrade :: bool

definition check_server_versions :: "string \<Rightarrow> string \<Rightarrow> string \<Rightarrow> version_compatibility" where
  "check_server_versions dbms_type source target =
     (let r = compare_server_versions dbms_type source target in
      \<lparr>vc_DBMSType = dbms_type, vc_Source = source, vc_Target = target,
       vc_Comparable = (r \<noteq> None),
       vc_Downgrade = (case r of None \<Rightarrow> False | Some c \<Rightarrow> c > 0)\<rparr>)"

section \<open>The comparison\<close>

lemma compare_prefix_antisym: "compare_prefix d as bs = - compare_prefix d bs as"
  by (induction d as bs rule: compare_prefix.induct) auto

lemma compare_prefix_refl: "compare_prefix d as as = 0"
proof (induction as arbitrary: d)
  case (Cons a as)
  then show ?case by (cases d) simp_all
qed simp

lemma compare_prefix_values: "compare_prefix d as bs \<in> {-1, 0, 1}"
  by (induction d as bs rule: compare_prefix.induct) auto

lemma compare_server_versions_swap:
  "compare_server_versions t b a = map_option uminus (compare_server_versions t a b)"
proof -
  let ?pa = "parse_server_version a" and ?pb = "parse_server_version b"
  have "foldl min (significant_version_depth t ?pb)
          [significant_version_depth t ?pa, length ?pb, length ?pa]
      = foldl min (significant_version_depth t ?pa)
          [significant_version_depth t ?pb, length ?pa, length ?pb]"
    by (simp add: min.commute min.left_commute)
  then show ?thesis
    using compare_prefix_antisym [of _ ?pb ?pa]
    by (simp add: compare_server_versions_def Let_def)
qed

text \<open>The comparison only looks at a prefix of length at most two.\<close>

lemma compare_prefix_take: "d \<le> k \<Longrightarrow> compare_prefix d (take k as) (take k bs) = compare_prefix d as bs"
proof (induction d as bs arbitrary: k rule: compare_prefix.induct)
  case (1 d a as b bs)
  then show ?case by (cases k) auto
qed (auto simp: take_Cons' neq_Nil_conv)

lemma compare_prefix_lex:
  "d \<le> length as \<Longrightarrow> d \<le> length bs \<Longrightarrow>
     compare_prefix d as bs > 0 \<longleftrightarrow> (take d bs, take d as) \<in> lexord {(x, y). x < y}"
proof (induction d as bs rule: compare_prefix.induct)
  case (1 d a as b bs)
  then show ?case by auto
qed (auto)

section \<open>Parsing what the engines print\<close>

lemma atoi_nat_digits: "int n < 2 ^ 63 \<Longrightarrow> atoi (nat_digits n) = Some (int n)"
proof -
  assume n: "int n < 2 ^ 63"
  obtain c r where c: "nat_digits n = c # r" by (cases "nat_digits n") auto
  have d: "48 \<le> (of_char x :: nat) \<and> (of_char x :: nat) \<le> 57" if "x \<in> set (nat_digits n)" for x
    using nat_digits_digit [OF that] .
  then have "list_all is_digit (nat_digits n)" by (simp add: list_all_iff is_digit_def Let_def)
  then have "atoi_digits (nat_digits n) = Some n"
    by (simp add: atoi_digits_def digits_value_nat_digits)
  moreover have "c \<noteq> CHR ''-''" "c \<noteq> CHR ''+''" using d [of c] c by auto
  ultimately show ?thesis using n c by (simp add: atoi_def in_int64_def)
qed

lemma nat_digits_printable: "x \<in> set (nat_digits n) \<Longrightarrow> printable x"
  using nat_digits_digit by (fastforce simp: printable_def)

lemma trim_space_nat_digits [simp]: "trim_space (nat_digits n) = nat_digits n"
  by (rule trim_space_printable)
     (use nat_digits_printable [OF hd_in_set] nat_digits_printable [OF last_in_set] in simp)

lemma nat_digits_no_dot: "CHR ''.'' \<notin> set (nat_digits n)"
  using nat_digits_digit [of "CHR ''.''" n] by auto

lemma nat_digits_no_separator: "x \<in> set (nat_digits n) \<Longrightarrow> x \<notin> version_separators"
  using nat_digits_digit [of x n] by (auto simp: version_separators_def)

definition render_version :: "nat list \<Rightarrow> string" where
  "render_version ns = join ''.'' (map nat_digits ns)"

lemma set_join: "set (join sep ws) \<subseteq> set sep \<union> (\<Union>w\<in>set ws. set w)"
  by (induction sep ws rule: join.induct) auto

lemma parse_parts_digits:
  "\<forall>n\<in>set ns. int n < 2 ^ 63 \<Longrightarrow> parse_parts (map nat_digits ns) = map int ns"
  by (induction ns) (auto simp: atoi_nat_digits)

lemma parse_render_version:
  assumes "ns \<noteq> []" and "\<forall>n\<in>set ns. int n < 2 ^ 63"
    and "suffix = [] \<or> hd suffix \<in> version_separators"
  shows "parse_server_version (render_version ns @ suffix) = map int ns"
proof -
  have "set (render_version ns) \<subseteq> {CHR ''.''} \<union> (\<Union>n\<in>set ns. set (nat_digits n))"
    using set_join [of "''.''" "map nat_digits ns"] by (simp add: render_version_def)
  then have "\<forall>c\<in>set (render_version ns). c \<notin> version_separators"
    using nat_digits_no_separator by (auto simp: version_separators_def subset_iff)
  then have "takeWhile (\<lambda>c. c \<notin> version_separators) (render_version ns @ suffix) =
      render_version ns @ takeWhile (\<lambda>c. c \<notin> version_separators) suffix"
    by (simp add: takeWhile_append2)
  also have "takeWhile (\<lambda>c. c \<notin> version_separators) suffix = []"
    using assms(3) by (cases suffix) auto
  finally have "parse_server_version (render_version ns @ suffix) =
      parse_parts (split_char (CHR ''.'') (render_version ns))"
    by (simp add: parse_server_version_def)
  also have "split_char (CHR ''.'') (render_version ns) = map nat_digits ns"
    unfolding render_version_def
    by (rule split_char_join) (use assms(1) nat_digits_no_dot in auto)
  finally show ?thesis using assms(2) by (simp add: parse_parts_digits)
qed

section \<open>Properties\<close>

lemma downgrade_iff:
  "vc_Downgrade (check_server_versions t s d) \<longleftrightarrow>
     (let ps = parse_server_version s; pd = parse_server_version d;
          k = min (min (significant_version_depth t ps) (significant_version_depth t pd)) (min (length ps) (length pd))
      in ps \<noteq> [] \<and> pd \<noteq> [] \<and> (take k pd, take k ps) \<in> lexord {(x, y). x < y})"
proof -
  let ?ps = "parse_server_version s" and ?pd = "parse_server_version d"
  let ?k = "min (min (significant_version_depth t ?ps) (significant_version_depth t ?pd)) (min (length ?ps) (length ?pd))"
  have fold: "foldl min (significant_version_depth t ?ps) [significant_version_depth t ?pd, length ?ps, length ?pd] = ?k"
    by (simp add: min.assoc)
  show ?thesis
  proof (cases "?ps = [] \<or> ?pd = []")
    case True
    then show ?thesis by (auto simp: check_server_versions_def compare_server_versions_def Let_def)
  next
    case False
    have "vc_Downgrade (check_server_versions t s d) \<longleftrightarrow> compare_prefix ?k ?ps ?pd > 0"
      using False fold by (simp add: check_server_versions_def compare_server_versions_def Let_def)
    also have "\<dots> \<longleftrightarrow> (take ?k ?pd, take ?k ?ps) \<in> lexord {(x, y). x < y}"
      by (rule compare_prefix_lex) simp_all
    finally show ?thesis using False by (simp add: Let_def)
  qed
qed

text \<open>
  a target is refused as a downgrade exactly when both version strings have numeric
  components and, at the depth that decides a feature set on the engine (one component
  for PostgreSQL 10 and later, two otherwise, never more than either string has), the
  target's prefix is lexicographically below the source's.
\<close>

lemma downgrade_iff_smaller_prefix:
  "vc_Downgrade (check_server_versions t s d) \<longleftrightarrow>
     (let ps = parse_server_version s; pd = parse_server_version d;
          k = min (min (significant_version_depth t ps) (significant_version_depth t pd)) (min (length ps) (length pd))
      in ps \<noteq> [] \<and> pd \<noteq> [] \<and> (take k pd, take k ps) \<in> lexord {(x, y). x < y})"
  by (rule downgrade_iff)

text \<open>
  a patch release is never a downgrade: two versions that agree in their first two
  components (the first, from PostgreSQL 10 on) are compatible in both directions,
  whatever follows them.
\<close>

lemma patch_level_never_downgrade:
  assumes "take 2 (parse_server_version s) = take 2 (parse_server_version d)"
  shows "\<not> vc_Downgrade (check_server_versions t s d) \<and> \<not> vc_Downgrade (check_server_versions t d s)"
proof -
  have "compare_prefix k (parse_server_version a) (parse_server_version b) = 0"
    if "k \<le> 2" "take 2 (parse_server_version a) = take 2 (parse_server_version b)" for k a b
    using compare_prefix_take [OF that(1), of "parse_server_version a" "parse_server_version b"] that(2)
    by (simp add: compare_prefix_refl)
  moreover have "foldl min (significant_version_depth t p) ks \<le> 2" for p ks
    by (induction ks arbitrary: p rule: rev_induct) (auto simp: significant_version_depth_def min_le_iff_disj)
  ultimately show ?thesis using assms
    by (auto simp: check_server_versions_def compare_server_versions_def Let_def simp del: foldl_Cons split: if_splits)
qed

lemma patch_level_never_downgrade_witness:
  "\<not> vc_Downgrade (check_server_versions ''mysql'' ''8.0.36'' ''8.0.32-log'') \<and>
   \<not> vc_Downgrade (check_server_versions ''mysql'' ''8.0.32-log'' ''8.0.36'')"
proof (rule patch_level_never_downgrade)
  have d: "nat_digits 8 = ''8''" "nat_digits 0 = ''0''" "nat_digits 36 = ''36''" "nat_digits 32 = ''32''"
    by code_simp+
  have "parse_server_version ''8.0.36'' = [8, 0, 36]"
    using parse_render_version [of "[8, 0, 36]" "''''"] by (simp add: render_version_def d)
  moreover have "parse_server_version ''8.0.32-log'' = [8, 0, 32]"
    using parse_render_version [of "[8, 0, 32]" "''-log''"] by (simp add: render_version_def d version_separators_def)
  ultimately show "take 2 (parse_server_version ''8.0.36'') = take 2 (parse_server_version ''8.0.32-log'')" by simp
qed

end
