(* ===== verification/TransferCore.thy ===== *)
theory TransferCore
  imports Prelude
begin

text \<open>
  What every transfer is built from, \<open>data-mig/core\<close>: the pipeline of steps
  (\<open>pipeline.go\<close>), the handle a running migration is watched through (\<open>handle.go\<close>), the
  observations it reports (\<open>report.go\<close>) and the concurrency a migration may ask for
  (\<open>concurrency.go\<close>).

  A step's executor does I/O, so it is a function of a world \<open>'w\<close>; whether the context is
  done is a reading of that world. A Go generic over a domain's progress struct becomes a
  record of its accessors, and the contract those accessors keep is a locale.
\<close>

section \<open>Concurrency\<close>

abbreviation DefaultConcurrency :: int where "DefaultConcurrency \<equiv> 4"
abbreviation MaxConcurrency :: int where "MaxConcurrency \<equiv> 32"

definition validate_concurrency :: "int \<Rightarrow> int option" where
  "validate_concurrency n = (if n < 0 \<or> n > MaxConcurrency then Some n else None)"

text \<open>The context carries the requested figure under one key: \<open>None\<close> until it is set.\<close>

definition with_concurrency :: "int option \<Rightarrow> int \<Rightarrow> int option" where
  "with_concurrency ctx n = (if n \<le> 0 then ctx else Some n)"

definition concurrency_from :: "int option \<Rightarrow> int" where
  "concurrency_from ctx = (case ctx of Some n \<Rightarrow> (if n > 0 then n else DefaultConcurrency) | None \<Rightarrow> DefaultConcurrency)"

lemma concurrency_from_bounds:
  assumes "validate_concurrency n = None"
  shows "1 \<le> concurrency_from (with_concurrency None n) \<and> concurrency_from (with_concurrency None n) \<le> MaxConcurrency"
  using assms by (auto simp: validate_concurrency_def with_concurrency_def concurrency_from_def split: if_splits)

section \<open>Observations\<close>

record update =
  u_Step :: int
  u_Steps :: int
  u_Bytes :: int
  u_Files :: int
  u_Item :: string
  u_Rows :: int
  u_Units :: int
  u_UnitsTotal :: int
  u_Phase :: string
  u_Concurrency :: int
  u_ConcurrencyNote :: string

definition step_update :: "nat \<Rightarrow> nat \<Rightarrow> update \<Rightarrow> update" where
  "step_update step steps u = u\<lparr>u_Step := int step, u_Steps := int steps\<rparr>"

definition concurrency_update :: "int \<Rightarrow> string \<Rightarrow> update" where
  "concurrency_update applied note =
     \<lparr>u_Step = 0, u_Steps = 0, u_Bytes = -1, u_Files = -1, u_Item = [], u_Rows = 0, u_Units = 0, u_UnitsTotal = 0,
      u_Phase = [], u_Concurrency = applied, u_ConcurrencyNote = note\<rparr>"

section \<open>Pipelines\<close>

text \<open>A step's executor learns which step it is through its context: the pair \<open>(step, steps)\<close>.\<close>

record ('l, 'w) step =
  st_Name :: string
  st_Source :: 'l
  st_Destination :: 'l
  st_Executor :: "nat \<times> nat \<Rightarrow> 'l \<Rightarrow> 'l \<Rightarrow> 'w \<Rightarrow> string option \<times> 'w"

record ('l, 'w) pipeline =
  pl_Name :: string
  pl_Strategy :: string
  pl_Steps :: "('l, 'w) step list"
  pl_Cleanup :: "('w \<Rightarrow> 'w) option"
  pl_Preflight :: "('w \<Rightarrow> string option \<times> 'w) option"

datatype pipeline_error = PreflightFailed string | ContextError string | StepFailed nat string string

fun run_steps ::
  "('w \<Rightarrow> string option) \<Rightarrow> nat \<Rightarrow> nat \<Rightarrow> ('l, 'w) step list \<Rightarrow> 'w \<Rightarrow> pipeline_error option \<times> 'w" where
  "run_steps ctx i n [] w = (None, w)"
| "run_steps ctx i n (s # ss) w =
     (case ctx w of
        Some e \<Rightarrow> (Some (ContextError e), w)
      | None \<Rightarrow>
          (case st_Executor s (Suc i, n) (st_Source s) (st_Destination s) w of
             (Some e, w') \<Rightarrow> (Some (StepFailed (Suc i) (st_Name s) e), w')
           | (None, w') \<Rightarrow> run_steps ctx (Suc i) n ss w'))"

definition pipeline_execute ::
  "('w \<Rightarrow> string option) \<Rightarrow> ('l, 'w) pipeline \<Rightarrow> 'w \<Rightarrow> pipeline_error option \<times> 'w" where
  "pipeline_execute ctx p w =
     (let clean = (case pl_Cleanup p of None \<Rightarrow> id | Some f \<Rightarrow> f);
          (pre, w1) = (case pl_Preflight p of None \<Rightarrow> (None, w) | Some f \<Rightarrow> f w)
      in case pre of
           Some e \<Rightarrow> (Some (PreflightFailed e), clean w1)
         | None \<Rightarrow> (let (err, w2) = run_steps ctx 0 (length (pl_Steps p)) (pl_Steps p) w1 in (err, clean w2)))"

text \<open>
  The specification: steps complete in order, each started with the context alive and
  succeeding from the world the one before left.
\<close>

inductive completes ::
  "('w \<Rightarrow> string option) \<Rightarrow> nat \<Rightarrow> nat \<Rightarrow> ('l, 'w) step list \<Rightarrow> 'w \<Rightarrow> 'w \<Rightarrow> bool" for ctx n where
  completes_none: "completes ctx n i [] w w"
| completes_step: "ctx w = None \<Longrightarrow> st_Executor s (Suc i, n) (st_Source s) (st_Destination s) w = (None, w')
     \<Longrightarrow> completes ctx n (Suc i) ss w' w'' \<Longrightarrow> completes ctx n i (s # ss) w w''"

inductive_simps completes_Nil: "completes ctx n i [] w w'"
inductive_simps completes_Cons: "completes ctx n i (s # ss) w w''"

lemmas completes_simps = completes_Nil completes_Cons

lemma run_steps_None: "run_steps ctx i n ss w = (None, w') \<longleftrightarrow> completes ctx n i ss w w'"
proof (induction ss arbitrary: i w)
  case (Cons s ss)
  obtain r w1 where ex: "st_Executor s (Suc i, n) (st_Source s) (st_Destination s) w = (r, w1)" by (meson surj_pair)
  show ?case
    by (cases r; cases "ctx w") (simp_all add: completes_simps ex Cons.IH)
qed (auto simp: completes_simps)

text \<open>Where a run stops, by its first step or a later one.\<close>

lemma stop_split:
  assumes ex: "st_Executor s (Suc i, n) (st_Source s) (st_Destination s) w = (r, w1)"
  shows "(\<exists>ss1 t ss2 v. s # ss = ss1 @ t # ss2 \<and> completes ctx n i ss1 w v \<and> P (length ss1) t v) \<longleftrightarrow>
      P 0 s w \<or> (ctx w = None \<and> r = None \<and>
        (\<exists>ss1 t ss2 v. ss = ss1 @ t # ss2 \<and> completes ctx n (Suc i) ss1 w1 v \<and> P (Suc (length ss1)) t v))"
    (is "?L \<longleftrightarrow> _ \<or> (_ \<and> _ \<and> ?R)")
proof
  assume ?L
  then show "P 0 s w \<or> (ctx w = None \<and> r = None \<and> ?R)"
    by (auto simp: Cons_eq_append_conv completes_simps ex) blast
next
  assume "P 0 s w \<or> (ctx w = None \<and> r = None \<and> ?R)"
  then show ?L
  proof
    assume "P 0 s w"
    then show ?L
      by (intro exI [of _ "[]"] exI [of _ s] exI [of _ ss] exI [of _ w]) (simp add: completes_simps)
  next
    assume "ctx w = None \<and> r = None \<and> ?R"
    then obtain ss1 t ss2 v where "ctx w = None" "r = None" "ss = ss1 @ t # ss2"
      "completes ctx n (Suc i) ss1 w1 v" "P (Suc (length ss1)) t v" by blast
    then have "s # ss = (s # ss1) @ t # ss2 \<and> completes ctx n i (s # ss1) w v \<and> P (length (s # ss1)) t v"
      using ex by (auto simp: completes_simps)
    then show ?L by - (rule exI, rule exI, rule exI, rule exI, assumption)
  qed
qed

lemma run_steps_Some:
  "run_steps ctx i n ss w = (Some err, w') \<longleftrightarrow>
     (\<exists>ss1 s ss2 w1. ss = ss1 @ s # ss2 \<and> completes ctx n i ss1 w w1 \<and>
        ((\<exists>e. ctx w1 = Some e \<and> err = ContextError e \<and> w' = w1) \<or>
         (\<exists>e. ctx w1 = None \<and> err = StepFailed (Suc (i + length ss1)) (st_Name s) e \<and>
              st_Executor s (Suc (i + length ss1), n) (st_Source s) (st_Destination s) w1 = (Some e, w'))))"
proof (induction ss arbitrary: i w)
  case Nil
  then show ?case by simp
next
  case (Cons s ss)
  obtain r w1 where ex: "st_Executor s (Suc i, n) (st_Source s) (st_Destination s) w = (r, w1)" by (meson surj_pair)
  show ?case
    unfolding stop_split [OF ex, of ss ctx "\<lambda>k t v. (\<exists>e. ctx v = Some e \<and> err = ContextError e \<and> w' = v) \<or>
         (\<exists>e. ctx v = None \<and> err = StepFailed (Suc (i + k)) (st_Name t) e \<and>
              st_Executor t (Suc (i + k), n) (st_Source t) (st_Destination t) v = (Some e, w'))"]
    by (cases "ctx w"; cases r) (auto simp: ex Cons.IH)
qed

text \<open>What a pipeline with no preflight and no cleanup does there: nothing.\<close>

definition preflight_of :: "('l, 'w) pipeline \<Rightarrow> 'w \<Rightarrow> string option \<times> 'w" where
  "preflight_of p w = (case pl_Preflight p of None \<Rightarrow> (None, w) | Some f \<Rightarrow> f w)"

definition cleanup_of :: "('l, 'w) pipeline \<Rightarrow> 'w \<Rightarrow> 'w" where
  "cleanup_of p w = (case pl_Cleanup p of None \<Rightarrow> w | Some f \<Rightarrow> f w)"

text \<open>
  C8: A pipeline is its steps in order and nothing else, with the cleanup always last. There are four
  ways it can end, each told exactly: it succeeds when the preflight does and every step
  completes in turn; it fails in the preflight, and no step runs; it finds its context done before a
  step, after all before that one completed, and neither that step nor a later one runs; or a step
  fails, which is reported with its name and position, and no later step runs. In all four the cleanup
  is applied once, to the world the run stopped in; a preflight or cleanup the planner left out does
  nothing.
\<close>

theorem pipeline_stops_at_first_failure:
  "(pipeline_execute ctx p w = (None, v) \<longleftrightarrow>
      (\<exists>w0 w1. preflight_of p w = (None, w0) \<and> completes ctx (length (pl_Steps p)) 0 (pl_Steps p) w0 w1 \<and> v = cleanup_of p w1))
    \<and> (\<forall>e. pipeline_execute ctx p w = (Some (PreflightFailed e), v) \<longleftrightarrow>
      (\<exists>w0. preflight_of p w = (Some e, w0) \<and> v = cleanup_of p w0))
    \<and> (\<forall>e. pipeline_execute ctx p w = (Some (ContextError e), v) \<longleftrightarrow>
      (\<exists>w0 ss1 s ss2 w1. preflight_of p w = (None, w0) \<and> pl_Steps p = ss1 @ s # ss2
         \<and> completes ctx (length (pl_Steps p)) 0 ss1 w0 w1 \<and> ctx w1 = Some e \<and> v = cleanup_of p w1))
    \<and> (\<forall>k name e. pipeline_execute ctx p w = (Some (StepFailed k name e), v) \<longleftrightarrow>
      (\<exists>w0 ss1 s ss2 w1 w2. preflight_of p w = (None, w0) \<and> pl_Steps p = ss1 @ s # ss2
         \<and> completes ctx (length (pl_Steps p)) 0 ss1 w0 w1 \<and> ctx w1 = None
         \<and> st_Executor s (k, length (pl_Steps p)) (st_Source s) (st_Destination s) w1 = (Some e, w2)
         \<and> k = Suc (length ss1) \<and> name = st_Name s \<and> v = cleanup_of p w2))"
proof -
  let ?n = "length (pl_Steps p)"
  obtain r w0 where pre: "preflight_of p w = (r, w0)" by (meson surj_pair)
  obtain err w2 where run: "run_steps ctx 0 ?n (pl_Steps p) w0 = (err, w2)" by (meson surj_pair)
  have exec: "pipeline_execute ctx p w = (case r of Some e \<Rightarrow> (Some (PreflightFailed e), cleanup_of p w0) | None \<Rightarrow> (err, cleanup_of p w2))"
    using pre by (cases "pl_Preflight p"; cases "pl_Cleanup p")
      (auto simp: pipeline_execute_def preflight_of_def cleanup_of_def run split: option.splits)
  have none: "(\<exists>w1. completes ctx ?n 0 (pl_Steps p) w0 w1 \<and> v = cleanup_of p w1) \<longleftrightarrow> err = None \<and> v = cleanup_of p w2"
    using run by (auto simp: run_steps_None [symmetric])
  have ended: "run_steps ctx 0 ?n (pl_Steps p) w0 = (Some x, u) \<longleftrightarrow> err = Some x \<and> u = w2" for x u using run by auto
  have cancelled: "(\<exists>ss1 s ss2 w1. pl_Steps p = ss1 @ s # ss2 \<and> completes ctx ?n 0 ss1 w0 w1 \<and> ctx w1 = Some e \<and> v = cleanup_of p w1)
      \<longleftrightarrow> (\<exists>u. (err = Some (ContextError e) \<and> u = w2) \<and> v = cleanup_of p u)" for e
    unfolding ended [symmetric] run_steps_Some by auto
  have failed: "(\<exists>ss1 s ss2 w1 u. pl_Steps p = ss1 @ s # ss2 \<and> completes ctx ?n 0 ss1 w0 w1 \<and> ctx w1 = None
         \<and> st_Executor s (k, ?n) (st_Source s) (st_Destination s) w1 = (Some e, u)
         \<and> k = Suc (length ss1) \<and> name = st_Name s \<and> v = cleanup_of p u)
      \<longleftrightarrow> (\<exists>u. (err = Some (StepFailed k name e) \<and> u = w2) \<and> v = cleanup_of p u)" for k name e
    unfolding ended [symmetric] run_steps_Some by auto
  have never: "err \<noteq> Some (PreflightFailed e)" for e
    using ended [of "PreflightFailed e" w2] unfolding run_steps_Some by auto
  show ?thesis unfolding exec pre using none cancelled failed never by (cases r; cases err) auto
qed

definition counting_pipeline :: "(unit, nat) pipeline" where
  "counting_pipeline =
     \<lparr>pl_Name = ''p'', pl_Strategy = [],
      pl_Steps = [\<lparr>st_Name = ''a'', st_Source = (), st_Destination = (), st_Executor = (\<lambda>_ _ _ w. (None, w + 1))\<rparr>,
                  \<lparr>st_Name = ''b'', st_Source = (), st_Destination = (), st_Executor = (\<lambda>_ _ _ w. (Some ''full'', w + 10))\<rparr>,
                  \<lparr>st_Name = ''c'', st_Source = (), st_Destination = (), st_Executor = (\<lambda>_ _ _ w. (None, w + 100))\<rparr>],
      pl_Cleanup = Some (\<lambda>w. w + 1000), pl_Preflight = Some (\<lambda>w. (None, w))\<rparr>"

section \<open>Handles\<close>

abbreviation StatusPending :: string where "StatusPending \<equiv> ''pending''"
abbreviation StatusRunning :: string where "StatusRunning \<equiv> ''running''"
abbreviation StatusDone :: string where "StatusDone \<equiv> ''done''"
abbreviation StatusFailed :: string where "StatusFailed \<equiv> ''failed''"
abbreviation StatusCancelled :: string where "StatusCancelled \<equiv> ''cancelled''"

text \<open>The five accessors a progress struct offers (\<open>core.Progress\<close>); times are in seconds.\<close>

record 'p progress_ops =
  po_GetStatus :: "'p \<Rightarrow> string"
  po_SetStatus :: "string \<Rightarrow> 'p \<Rightarrow> 'p"
  po_SetStartedAt :: "int \<Rightarrow> 'p \<Rightarrow> 'p"
  po_SetElapsed :: "int \<Rightarrow> 'p \<Rightarrow> 'p"
  po_SetError :: "string \<Rightarrow> 'p \<Rightarrow> 'p"

record 'p handle =
  h_cancelled :: bool
  h_done :: bool
  h_err :: "string option"
  h_started :: int
  h_progress :: 'p

definition new_handle :: "'p progress_ops \<Rightarrow> 'p \<Rightarrow> int \<Rightarrow> 'p handle" where
  "new_handle ops zero now =
     \<lparr>h_cancelled = False, h_done = False, h_err = None, h_started = now,
      h_progress = po_SetStartedAt ops now (po_SetStatus ops StatusPending zero)\<rparr>"

definition handle_status :: "'p progress_ops \<Rightarrow> 'p handle \<Rightarrow> string" where
  "handle_status ops h = po_GetStatus ops (h_progress h)"

definition handle_progress :: "'p progress_ops \<Rightarrow> int \<Rightarrow> 'p handle \<Rightarrow> 'p" where
  "handle_progress ops now h = po_SetElapsed ops (now - h_started h) (h_progress h)"

text \<open>\<open>Wait\<close> blocks until \<open>Finish\<close>: \<open>None\<close> while it blocks.\<close>

definition handle_wait :: "'p handle \<Rightarrow> string option option" where
  "handle_wait h = (if h_done h then Some (h_err h) else None)"

datatype 'p handle_op =
    OpUpdate "'p \<Rightarrow> 'p"
  | OpSetStatus string
  | OpSetErr string
  | OpFail string
  | OpCancel
  | OpFinish

fun handle_step :: "'p progress_ops \<Rightarrow> 'p handle_op \<Rightarrow> 'p handle \<Rightarrow> 'p handle" where
  "handle_step ops (OpUpdate f) h = h\<lparr>h_progress := f (h_progress h)\<rparr>"
| "handle_step ops (OpSetStatus s) h = h\<lparr>h_progress := po_SetStatus ops s (h_progress h)\<rparr>"
| "handle_step ops (OpSetErr e) h = h\<lparr>h_err := Some e\<rparr>"
| "handle_step ops (OpFail e) h =
     h\<lparr>h_err := Some e, h_progress := po_SetError ops e (po_SetStatus ops StatusFailed (h_progress h))\<rparr>"
| "handle_step ops OpCancel h = h\<lparr>h_cancelled := True\<rparr>"
| "handle_step ops OpFinish h = h\<lparr>h_done := True\<rparr>"

definition handle_run :: "'p progress_ops \<Rightarrow> 'p handle_op list \<Rightarrow> 'p handle \<Rightarrow> 'p handle" where
  "handle_run ops xs h = fold (handle_step ops) xs h"

text \<open>The statuses a run writes, and the error it last recorded.\<close>

fun status_writes :: "'p handle_op list \<Rightarrow> string list" where
  "status_writes [] = []"
| "status_writes (OpSetStatus s # xs) = s # status_writes xs"
| "status_writes (OpFail e # xs) = StatusFailed # status_writes xs"
| "status_writes (x # xs) = status_writes xs"

fun error_writes :: "'p handle_op list \<Rightarrow> string list" where
  "error_writes [] = []"
| "error_writes (OpSetErr e # xs) = e # error_writes xs"
| "error_writes (OpFail e # xs) = e # error_writes xs"
| "error_writes (x # xs) = error_writes xs"

lemma writes_append [simp]:
  "status_writes (xs @ ys) = status_writes xs @ status_writes ys"
  "error_writes (xs @ ys) = error_writes xs @ error_writes ys"
  by (induction xs rule: status_writes.induct) auto

lemma handle_run_simps [simp]:
  "handle_run ops [] h = h"
  "handle_run ops (x # xs) h = handle_run ops xs (handle_step ops x h)"
  "handle_run ops (xs @ ys) h = handle_run ops ys (handle_run ops xs h)"
  by (simp_all add: handle_run_def)

lemma handle_run_err: "h_err (handle_run ops xs h) = (if error_writes xs = [] then h_err h else Some (last (error_writes xs)))"
  by (induction xs arbitrary: h rule: error_writes.induct) auto

lemma handle_run_done: "h_done (handle_run ops xs h) \<longleftrightarrow> h_done h \<or> OpFinish \<in> set xs"
proof (induction xs arbitrary: h)
  case (Cons x xs)
  then show ?case by (cases x) auto
qed simp

text \<open>
  The contract of a progress struct: the status is its own field, which the other setters
  leave alone. Everything a handle promises about its status follows from it.
\<close>

locale progress_contract =
  fixes ops :: "'p progress_ops"
  assumes get_set: "po_GetStatus ops (po_SetStatus ops s p) = s"
    and get_started: "po_GetStatus ops (po_SetStartedAt ops t p) = po_GetStatus ops p"
    and get_elapsed: "po_GetStatus ops (po_SetElapsed ops t p) = po_GetStatus ops p"
    and get_error: "po_GetStatus ops (po_SetError ops m p) = po_GetStatus ops p"
begin

definition keeps_status :: "'p handle_op \<Rightarrow> bool" where
  "keeps_status x = (case x of OpUpdate f \<Rightarrow> (\<forall>p. po_GetStatus ops (f p) = po_GetStatus ops p) | _ \<Rightarrow> True)"

lemma new_handle_status: "handle_status ops (new_handle ops zero now) = StatusPending"
  by (simp add: handle_status_def new_handle_def get_set get_started)

lemma snapshot_status: "po_GetStatus ops (handle_progress ops now h) = handle_status ops h"
  by (simp add: handle_status_def handle_progress_def get_elapsed)

lemma status_last_write:
  "list_all keeps_status xs \<Longrightarrow>
     handle_status ops (handle_run ops xs h) = last (handle_status ops h # status_writes xs)"
proof (induction xs arbitrary: h rule: status_writes.induct)
  case (2 s xs)
  then show ?case by (simp add: handle_status_def get_set)
next
  case (3 e xs)
  then show ?case by (simp add: handle_status_def get_set get_error)
qed (auto simp: handle_status_def keeps_status_def)

end

end
