(* ===== verification/DbmsLocation.thy ===== *)
theory DbmsLocation
  imports DbmsFilter GoRunes ServerVersion TransferCore
begin

text \<open>
  A database endpoint as the transfer library sees it and the rules two endpoints of a
  migration obey: \<open>data-mig/dbmsx/driver/base/types.go\<close>, \<open>tls.go\<close> (\<open>ValidateTLS\<close>),
  \<open>database_ddl.go\<close> (\<open>ValidateDatabaseName\<close>), \<open>data-mig/dbmsx/model.go\<close> (validation),
  \<open>planner.go\<close> (routing and schema renames) and \<open>version.go\<close> (the version gate).
  Loading CA certificates is \<open>crypto/x509\<close> and the file system: the parameter \<open>roots\<close>.
\<close>

section \<open>Locations\<close>

record core_ssh_config =
  cs_Host :: string
  cs_Port :: int
  cs_Username :: string
  cs_Password :: string
  cs_ConnectTimeout :: int
  cs_PrivateKey :: string
  cs_PrivateKeyPath :: string
  cs_UseAgent :: bool

record direct_config =
  dc_Host :: string
  dc_Port :: int
  dc_Username :: string
  dc_Password :: string
  dc_ConnectTimeout :: int
  dc_TLSMode :: string
  dc_TLSCAFile :: string
  dc_TLSCAPEM :: string
  dc_AuthSource :: string

record ssh_tunnel_config =
  stc_SSH :: "core_ssh_config option"
  stc_DBHost :: string
  stc_DBPort :: int
  stc_Username :: string
  stc_Password :: string
  stc_AuthSource :: string

record dbms_location =
  loc_DBMSType :: string
  loc_Database :: string
  loc_PgSchema :: "string list"
  loc_ProviderName :: string
  loc_AccessType :: string
  loc_Direct :: "direct_config option"
  loc_SSHTunnel :: "ssh_tunnel_config option"
  loc_Filter :: "dbms_rules option"

abbreviation AccessTypeDirect :: string where "AccessTypeDirect \<equiv> ''direct''"
abbreviation AccessTypeSSHTunnel :: string where "AccessTypeSSHTunnel \<equiv> ''ssh-tunnel''"
abbreviation TLSModeDisable :: string where "TLSModeDisable \<equiv> ''disable''"
abbreviation TLSModePrefer :: string where "TLSModePrefer \<equiv> ''prefer''"
abbreviation TLSModeRequire :: string where "TLSModeRequire \<equiv> ''require''"
abbreviation TLSModeVerifyCA :: string where "TLSModeVerifyCA \<equiv> ''verify-ca''"
abbreviation TLSModeVerifyFull :: string where "TLSModeVerifyFull \<equiv> ''verify-full''"
abbreviation ScopeSchemaOnly :: string where "ScopeSchemaOnly \<equiv> ''schema-only''"
abbreviation ScopeDataOnly :: string where "ScopeDataOnly \<equiv> ''data-only''"
abbreviation ScopeFull :: string where "ScopeFull \<equiv> ''full''"

definition loc_is_direct :: "dbms_location \<Rightarrow> bool" where
  "loc_is_direct loc \<longleftrightarrow> loc_AccessType loc = AccessTypeDirect"

definition loc_is_ssh_tunnel :: "dbms_location \<Rightarrow> bool" where
  "loc_is_ssh_tunnel loc \<longleftrightarrow> loc_AccessType loc = AccessTypeSSHTunnel"

definition loc_is_onprem :: "dbms_location \<Rightarrow> bool" where
  "loc_is_onprem loc = equal_fold (loc_ProviderName loc) ProviderOnPrem"

record target_grant =
  tg_Username :: string
  tg_Password :: string
  tg_Host :: string

record dbms_migration_model =
  dmm_Source :: dbms_location
  dmm_Destination :: dbms_location
  dmm_Scope :: string
  dmm_RollbackOnFailure :: bool
  dmm_TargetGrant :: "target_grant option"
  dmm_SkipCharsetCheck :: bool
  dmm_SkipVersionCheck :: bool
  dmm_StagingDir :: string
  dmm_Concurrency :: int

section \<open>Validation\<close>

datatype dbms_error =
    DBMSTypeRequired string
  | DBMSTypeUnsupported string string
  | DirectRequired string
  | SSHTunnelRequired string
  | AccessTypeRequired string
  | AccessTypeUnsupported string string
  | HostRequired string
  | TunnelSSHRequired string
  | TunnelHostRequired string
  | TunnelUserRequired string
  | TLSModeUnsupported string string
  | TwoCAs string
  | CAWithoutVerify string string
  | PreferOnMongoDB string
  | TLSRoots string string
  | PgSchemaNotPostgres string string
  | PgSchemaEmpty string nat
  | PgSchemaUnusable string nat string string
  | PgSchemaTwice string string
  | DatabaseRequired string
  | FilterInvalid string dbms_filter_error
  | ScopeInvalid string
  | ConcurrencyRange int
  | EnginesDiffer string string
  | MongoAccessTypes string string
  | RenameOverPipe
  | RenameNeedsSource nat
  | SchemasMerged nat nat
  | SchemasUnmatched nat nat
  | DatabaseNameInvalid string string
  | UnsupportedDriver string
  | VersionDowngrade string string string string
  | ServiceFailed string

type_synonym tls_roots = "direct_config \<Rightarrow> string option"

definition tls_mode_of :: "direct_config \<Rightarrow> string" where
  "tls_mode_of cfg = (if dc_TLSMode cfg = [] then TLSModeDisable else dc_TLSMode cfg)"

definition tls_mode_verifies :: "string \<Rightarrow> bool" where
  "tls_mode_verifies mode \<longleftrightarrow> mode = TLSModeVerifyCA \<or> mode = TLSModeVerifyFull"

definition base_validate_tls :: "tls_roots \<Rightarrow> string \<Rightarrow> string \<Rightarrow> direct_config \<Rightarrow> dbms_error option" where
  "base_validate_tls roots side dbmsType cfg =
     (let mode = tls_mode_of cfg
      in if mode \<notin> {TLSModeDisable, TLSModePrefer, TLSModeRequire, TLSModeVerifyCA, TLSModeVerifyFull}
         then Some (TLSModeUnsupported side (dc_TLSMode cfg))
         else if dc_TLSCAFile cfg \<noteq> [] \<and> dc_TLSCAPEM cfg \<noteq> [] then Some (TwoCAs side)
         else if (dc_TLSCAFile cfg \<noteq> [] \<or> dc_TLSCAPEM cfg \<noteq> []) \<and> \<not> tls_mode_verifies mode
         then Some (CAWithoutVerify side mode)
         else if dbmsType = MongoDB \<and> mode = TLSModePrefer then Some (PreferOnMongoDB side)
         else map_option (TLSRoots side)
                (if dc_TLSCAFile cfg = [] \<and> dc_TLSCAPEM cfg = [] then None else roots cfg))"

definition validate_tls :: "tls_roots \<Rightarrow> string \<Rightarrow> dbms_location \<Rightarrow> dbms_error option" where
  "validate_tls roots side loc =
     (if loc_AccessType loc \<noteq> AccessTypeDirect then None
      else (case loc_Direct loc of None \<Rightarrow> None
            | Some cfg \<Rightarrow> base_validate_tls roots side (loc_DBMSType loc) cfg))"

definition is_system_schema :: "string \<Rightarrow> string \<Rightarrow> bool" where
  "is_system_schema dbmsType name \<longleftrightarrow>
     dbmsType = PostgreSQL \<and> (has_prefix name ''pg_'' \<or> name = ''information_schema'')"

fun pg_schema_names :: "string \<Rightarrow> string \<Rightarrow> string list \<Rightarrow> nat \<Rightarrow> string list \<Rightarrow> dbms_error option" where
  "pg_schema_names side t seen i [] = None"
| "pg_schema_names side t seen i (name # names) =
     (if name = [] then Some (PgSchemaEmpty side i)
      else if \<not> valid_utf8 name then Some (PgSchemaUnusable side i name ''name is not valid UTF-8'')
      else if length name > 63 then Some (PgSchemaUnusable side i name ''name is too long'')
      else if CHR 0x00 \<in> set name \<or> CHR 0x0A \<in> set name \<or> CHR 0x0D \<in> set name
      then Some (PgSchemaUnusable side i name ''name contains a NUL or a line break'')
      else if dquote \<in> set name then Some (PgSchemaUnusable side i name ''name contains a double quote'')
      else if is_system_schema t name then Some (PgSchemaUnusable side i name ''it is a PostgreSQL system schema'')
      else if name \<in> set seen then Some (PgSchemaTwice side name)
      else pg_schema_names side t (name # seen) (Suc i) names)"

definition validate_pg_schema :: "string \<Rightarrow> dbms_location \<Rightarrow> dbms_error option" where
  "validate_pg_schema side loc =
     (if loc_PgSchema loc = [] then None
      else if loc_DBMSType loc \<noteq> PostgreSQL then Some (PgSchemaNotPostgres side (loc_DBMSType loc))
      else pg_schema_names side (loc_DBMSType loc) [] 0 (loc_PgSchema loc))"

definition validate_direct_config :: "string \<Rightarrow> direct_config \<Rightarrow> dbms_error option" where
  "validate_direct_config side cfg = (if dc_Host cfg = [] then Some (HostRequired side) else None)"

definition validate_ssh_tunnel_config :: "string \<Rightarrow> ssh_tunnel_config \<Rightarrow> dbms_error option" where
  "validate_ssh_tunnel_config side cfg =
     (case stc_SSH cfg of
        None \<Rightarrow> Some (TunnelSSHRequired side)
      | Some s \<Rightarrow>
          (if cs_Host s = [] then Some (TunnelHostRequired side)
           else if cs_Username s = [] then Some (TunnelUserRequired side) else None))"

definition validate_access :: "string \<Rightarrow> dbms_location \<Rightarrow> dbms_error option" where
  "validate_access side loc =
     (if loc_AccessType loc = AccessTypeDirect then
        (case loc_Direct loc of None \<Rightarrow> Some (DirectRequired side) | Some c \<Rightarrow> validate_direct_config side c)
      else if loc_AccessType loc = AccessTypeSSHTunnel then
        (case loc_SSHTunnel loc of None \<Rightarrow> Some (SSHTunnelRequired side) | Some c \<Rightarrow> validate_ssh_tunnel_config side c)
      else if loc_AccessType loc = [] then Some (AccessTypeRequired side)
      else Some (AccessTypeUnsupported side (loc_AccessType loc)))"

definition validate_server_location :: "tls_roots \<Rightarrow> string \<Rightarrow> dbms_location \<Rightarrow> dbms_error option" where
  "validate_server_location roots side loc =
     (if loc_DBMSType loc \<notin> {MySQL, MariaDB, PostgreSQL, MongoDB} then
        (if loc_DBMSType loc = [] then Some (DBMSTypeRequired side)
         else Some (DBMSTypeUnsupported side (loc_DBMSType loc)))
      else check_err (validate_access side loc)
        (check_err (validate_tls roots side loc) (validate_pg_schema side loc)))"

definition validate_location :: "tls_roots \<Rightarrow> json_object \<Rightarrow> string \<Rightarrow> dbms_location \<Rightarrow> dbms_error option" where
  "validate_location roots json side loc =
     check_err (validate_server_location roots side loc)
       (if loc_Database loc = [] then Some (DatabaseRequired side)
        else map_option (FilterInvalid side)
          (dbms_filter_validate json (loc_Filter loc) (loc_DBMSType loc) (loc_AccessType loc = AccessTypeDirect)))"

definition validate_same_engine :: "dbms_location \<Rightarrow> dbms_location \<Rightarrow> dbms_error option" where
  "validate_same_engine src dst =
     (if loc_DBMSType src = loc_DBMSType dst then None
      else Some (EnginesDiffer (loc_DBMSType src) (loc_DBMSType dst)))"

definition validate_pg_schema_mapping :: "dbms_location \<Rightarrow> dbms_location \<Rightarrow> dbms_error option" where
  "validate_pg_schema_mapping src dst =
     (let s = length (loc_PgSchema src); d = length (loc_PgSchema dst)
      in if d = 0 then None
         else if loc_is_ssh_tunnel src \<and> loc_is_ssh_tunnel dst then Some RenameOverPipe
         else if s = 0 then (if d = 1 then None else Some (RenameNeedsSource d))
         else if d \<noteq> s then (if d < s then Some (SchemasMerged d s) else Some (SchemasUnmatched d s))
         else None)"

definition validate_cross_location :: "dbms_location \<Rightarrow> dbms_location \<Rightarrow> dbms_error option" where
  "validate_cross_location src dst =
     check_err (validate_same_engine src dst)
       (if (loc_DBMSType src = MongoDB \<or> loc_DBMSType dst = MongoDB) \<and> loc_AccessType src \<noteq> loc_AccessType dst
        then Some (MongoAccessTypes (loc_AccessType src) (loc_AccessType dst))
        else validate_pg_schema_mapping src dst)"

definition dbms_validate :: "tls_roots \<Rightarrow> json_object \<Rightarrow> dbms_migration_model \<Rightarrow> dbms_error option" where
  "dbms_validate roots json m =
     check_err (validate_location roots json ''source'' (dmm_Source m))
     (check_err (validate_location roots json ''destination'' (dmm_Destination m))
     (check_err (if dmm_Scope m \<noteq> [] \<and> dmm_Scope m \<notin> {ScopeSchemaOnly, ScopeDataOnly, ScopeFull}
                 then Some (ScopeInvalid (dmm_Scope m)) else None)
     (check_err (map_option ConcurrencyRange (validate_concurrency (dmm_Concurrency m)))
       (validate_cross_location (dmm_Source m) (dmm_Destination m)))))"

section \<open>Database names\<close>

definition mongo_forbidden :: "char set" where
  "mongo_forbidden = set (''/'' @ [CHR 0x5C] @ ''. '' @ [CHR 0x22] @ ''$*<>:|?'')"

definition max_database_name_len :: "string \<Rightarrow> nat option" where
  "max_database_name_len t =
     (if t = MySQL \<or> t = MariaDB then Some 64
      else if t = PostgreSQL \<or> t = MongoDB then Some 63 else None)"

definition validate_database_name :: "string \<Rightarrow> string \<Rightarrow> dbms_error option" where
  "validate_database_name t name =
     (if name = [] then Some (DatabaseNameInvalid name ''name is empty'')
      else if \<not> valid_utf8 name then Some (DatabaseNameInvalid name ''name is not valid UTF-8'')
      else if (case max_database_name_len t of None \<Rightarrow> False | Some mx \<Rightarrow> length name > mx)
      then Some (DatabaseNameInvalid name ''name is longer than allowed'')
      else if CHR 0x00 \<in> set name \<or> CHR 0x0A \<in> set name \<or> CHR 0x0D \<in> set name
      then Some (DatabaseNameInvalid name ''name contains a NUL or a line break'')
      else if t = MySQL \<or> t = MariaDB then
        (if CHR 0x60 \<in> set name then Some (DatabaseNameInvalid name ''name contains a back quote'') else None)
      else if t = PostgreSQL then
        (if dquote \<in> set name then Some (DatabaseNameInvalid name ''name contains a double quote'') else None)
      else if t = MongoDB then
        (if set name \<inter> mongo_forbidden \<noteq> {} then Some (DatabaseNameInvalid name ''name contains a character MongoDB forbids'') else None)
      else None)"

definition validate_database_location :: "tls_roots \<Rightarrow> string \<Rightarrow> dbms_location \<Rightarrow> dbms_error option" where
  "validate_database_location roots side loc =
     check_err (validate_server_location roots side loc)
       (if loc_Database loc = [] then Some (DatabaseRequired side)
        else validate_database_name (loc_DBMSType loc) (loc_Database loc))"

section \<open>Planning\<close>

text \<open>
  The source-to-destination schema names the dump is written under. A later assignment to
  the Go map replaces an earlier one, so the map is read off the reversed list of pairs.
\<close>

definition rename_pairs :: "string list \<Rightarrow> string list \<Rightarrow> (string \<times> string) list" where
  "rename_pairs src dst = filter (\<lambda>(from, to). to \<noteq> from) (zip src dst)"

definition pg_schema_rename :: "dbms_migration_model \<Rightarrow> (string \<rightharpoonup> string) option" where
  "pg_schema_rename m =
     (let src = dmm_Source m; dst = dmm_Destination m
      in if loc_DBMSType src \<noteq> PostgreSQL \<or> loc_PgSchema dst = [] then None
         else if length (loc_PgSchema src) \<noteq> length (loc_PgSchema dst) then None
         else (let ps = rename_pairs (loc_PgSchema src) (loc_PgSchema dst)
               in if ps = [] then None else Some (map_of (rev ps))))"

text \<open>The name an object of source schema \<open>s\<close> carries in the dump (\<open>DumpOption.PgSchemaRename\<close>).\<close>

definition renamed_schema :: "(string \<rightharpoonup> string) option \<Rightarrow> string \<Rightarrow> string" where
  "renamed_schema r s = (case r of None \<Rightarrow> s | Some f \<Rightarrow> (case f s of None \<Rightarrow> s | Some d \<Rightarrow> d))"

datatype dbms_route = DirectPipe | StagingTransfer

definition dbms_plan_route ::
  "tls_roots \<Rightarrow> json_object \<Rightarrow> dbms_migration_model \<Rightarrow> dbms_error + dbms_route \<times> dbms_migration_model" where
  "dbms_plan_route roots json m =
     check (dbms_validate roots json m)
       (let m' = (if dmm_Scope m = [] then m\<lparr>dmm_Scope := ScopeFull\<rparr> else m)
        in Inr (if loc_is_ssh_tunnel (dmm_Source m') \<and> loc_is_ssh_tunnel (dmm_Destination m')
                then DirectPipe else StagingTransfer, m'))"

section \<open>The version gate\<close>

type_synonym server_version = "dbms_location \<Rightarrow> string + string"

definition new_db_driver :: "string \<Rightarrow> dbms_error option" where
  "new_db_driver t = (if t \<in> {MySQL, MariaDB, PostgreSQL, MongoDB} then None else Some (UnsupportedDriver t))"

definition dbms_check_version ::
  "server_version \<Rightarrow> dbms_location \<Rightarrow> dbms_location \<Rightarrow> dbms_error + version_compatibility" where
  "dbms_check_version sv src dst =
     check (new_db_driver (loc_DBMSType src))
     (check (new_db_driver (loc_DBMSType dst))
     (bind_res (map_err ServiceFailed (sv src)) (\<lambda>s.
      bind_res (map_err ServiceFailed (sv dst)) (\<lambda>d.
        Inr (check_server_versions (loc_DBMSType src) s d)))))"

definition public_check_version ::
  "server_version \<Rightarrow> tls_roots \<Rightarrow> dbms_location \<Rightarrow> dbms_location \<Rightarrow> dbms_error + version_compatibility" where
  "public_check_version sv roots src dst =
     check (validate_server_location roots ''source'' src)
     (check (validate_server_location roots ''destination'' dst)
     (check (validate_same_engine src dst)
       (dbms_check_version sv src dst)))"

definition enforce_version :: "server_version \<Rightarrow> dbms_migration_model \<Rightarrow> dbms_error option" where
  "enforce_version sv m =
     (if dmm_SkipVersionCheck m then None
      else (case dbms_check_version sv (dmm_Source m) (dmm_Destination m) of
              Inl _ \<Rightarrow> None
            | Inr res \<Rightarrow>
                (if \<not> vc_Comparable res then None
                 else if \<not> vc_Downgrade res then None
                 else Some (VersionDowngrade (loc_DBMSType (dmm_Destination m)) (loc_Database (dmm_Destination m))
                              (vc_Source res) (vc_Target res)))))"

definition restricts_non_standard_fks :: "string \<Rightarrow> string \<Rightarrow> bool" where
  "restricts_non_standard_fks dbmsType version =
     (if dbmsType \<noteq> MySQL then False
      else (let v = parse_server_version version
            in 2 \<le> length v \<and> (v ! 0 > 8 \<or> (v ! 0 = 8 \<and> v ! 1 \<ge> 4))))"

section \<open>What a validated migration guarantees\<close>

lemmas dbms_validate_eval =
  dbms_validate_def validate_location_def validate_server_location_def validate_access_def
  validate_direct_config_def validate_ssh_tunnel_config_def validate_tls_def base_validate_tls_def
  tls_mode_of_def validate_pg_schema_def validate_cross_location_def validate_same_engine_def
  validate_pg_schema_mapping_def validate_concurrency_def dbms_filter_validate_def loc_is_ssh_tunnel_def
  is_system_schema_def

lemma pg_schema_names_distinct:
  "pg_schema_names side t seen i names = None \<Longrightarrow> distinct names \<and> set names \<inter> set seen = {}"
  by (induction side t seen i names rule: pg_schema_names.induct) (auto split: if_splits)

lemma validate_pg_schema_distinct: "validate_pg_schema side loc = None \<Longrightarrow> distinct (loc_PgSchema loc)"
  by (auto simp: validate_pg_schema_def dest: pg_schema_names_distinct split: if_splits)

lemma validate_pg_schema_engine:
  "validate_pg_schema side loc = None \<Longrightarrow> loc_PgSchema loc \<noteq> [] \<Longrightarrow> loc_DBMSType loc = PostgreSQL"
  by (auto simp: validate_pg_schema_def split: if_splits)

lemma validate_access_ssh:
  "validate_access side loc = None \<Longrightarrow> loc_is_ssh_tunnel loc
     \<Longrightarrow> \<exists>c s. loc_SSHTunnel loc = Some c \<and> stc_SSH c = Some s \<and> cs_Host s \<noteq> [] \<and> cs_Username s \<noteq> []"
  by (auto simp: validate_access_def loc_is_ssh_tunnel_def validate_ssh_tunnel_config_def split: option.splits if_splits)

lemma validate_location_parts:
  assumes "validate_location roots json side loc = None"
  shows "validate_access side loc = None" "validate_tls roots side loc = None" "validate_pg_schema side loc = None"
    "loc_Database loc \<noteq> []" "loc_DBMSType loc \<in> {MySQL, MariaDB, PostgreSQL, MongoDB}"
  using assms by (auto simp: validate_location_def validate_server_location_def res_inv split: if_splits)

lemma dbms_validate_parts:
  assumes "dbms_validate roots json m = None"
  shows "validate_location roots json ''source'' (dmm_Source m) = None"
    "validate_location roots json ''destination'' (dmm_Destination m) = None"
    "validate_cross_location (dmm_Source m) (dmm_Destination m) = None"
  using assms by (auto simp: dbms_validate_def res_inv)

lemma validate_cross_location_parts:
  assumes "validate_cross_location src dst = None"
  shows "loc_DBMSType src = loc_DBMSType dst" "validate_pg_schema_mapping src dst = None"
  using assms by (auto simp: validate_cross_location_def validate_same_engine_def res_inv split: if_splits)

lemma rename_zip:
  assumes "length ss = length ds" "distinct ss"
  shows "map (renamed_schema (Some (map_of (rev (rename_pairs ss ds))))) ss = ds"
proof (rule nth_equalityI)
  show "length (map (renamed_schema (Some (map_of (rev (rename_pairs ss ds))))) ss) = length ds" using assms by simp
next
  fix i assume "i < length (map (renamed_schema (Some (map_of (rev (rename_pairs ss ds))))) ss)"
  then have i: "i < length ss" by simp
  have dist: "distinct (map fst (zip ss ds))" using assms by simp
  have fst_filter: "distinct (map fst (rename_pairs ss ds))"
    unfolding rename_pairs_def using dist by (simp add: distinct_map_filter)
  have rev_eq: "map_of (rev (rename_pairs ss ds)) = map_of (rename_pairs ss ds)"
    by (intro map_of_eqI) (use fst_filter in \<open>auto simp: rev_map [symmetric]\<close>)
  show "map (renamed_schema (Some (map_of (rev (rename_pairs ss ds))))) ss ! i = ds ! i"
  proof (cases "ds ! i = ss ! i")
    case True
    have "map_of (rename_pairs ss ds) (ss ! i) = None"
    proof (rule ccontr)
      assume "map_of (rename_pairs ss ds) (ss ! i) \<noteq> None"
      then obtain d where d: "map_of (rename_pairs ss ds) (ss ! i) = Some d" by auto
      then have "(ss ! i, d) \<in> set (zip ss ds)" "d \<noteq> ss ! i"
        by (auto simp: rename_pairs_def dest!: map_of_SomeD)
      then show False
        using assms i True by (auto simp: in_set_zip nth_eq_iff_index_eq)
    qed
    then show ?thesis using i True by (simp add: renamed_schema_def rev_eq)
  next
    case False
    have "(ss ! i, ds ! i) \<in> set (rename_pairs ss ds)"
      using assms(1) i False by (auto simp: rename_pairs_def in_set_zip)
    then have "map_of (rename_pairs ss ds) (ss ! i) = Some (ds ! i)"
      using fst_filter by (intro map_of_is_SomeI)
    then show ?thesis using i by (simp add: renamed_schema_def rev_eq)
  qed
qed

lemma rename_none:
  assumes "length ss = length ds" "rename_pairs ss ds = []"
  shows "map (renamed_schema None) ss = ds"
proof -
  have "\<forall>(a, b)\<in>set (zip ss ds). b = a" using assms(2) by (auto simp: rename_pairs_def filter_empty_conv)
  then have "map fst (zip ss ds) = map snd (zip ss ds)" by (intro map_cong) auto
  then show ?thesis using assms(1) by (simp add: renamed_schema_def [abs_def])
qed


definition sample_direct :: "string list \<Rightarrow> dbms_location" where
  "sample_direct schemas =
     \<lparr>loc_DBMSType = PostgreSQL, loc_Database = ''shop'', loc_PgSchema = schemas, loc_ProviderName = [],
      loc_AccessType = AccessTypeDirect,
      loc_Direct = Some \<lparr>dc_Host = ''db'', dc_Port = 5432, dc_Username = ''u'', dc_Password = ''p'', dc_ConnectTimeout = 0,
                          dc_TLSMode = [], dc_TLSCAFile = [], dc_TLSCAPEM = [], dc_AuthSource = []\<rparr>,
      loc_SSHTunnel = None, loc_Filter = None\<rparr>"

definition sample_tunnel :: "dbms_location" where
  "sample_tunnel =
     \<lparr>loc_DBMSType = MySQL, loc_Database = ''shop'', loc_PgSchema = [], loc_ProviderName = [],
      loc_AccessType = AccessTypeSSHTunnel, loc_Direct = None,
      loc_SSHTunnel = Some \<lparr>stc_SSH = Some \<lparr>cs_Host = ''h'', cs_Port = 22, cs_Username = ''u'', cs_Password = [], cs_ConnectTimeout = 0,
                               cs_PrivateKey = [], cs_PrivateKeyPath = [], cs_UseAgent = False\<rparr>,
                             stc_DBHost = ''db'', stc_DBPort = 3306, stc_Username = ''u'', stc_Password = [], stc_AuthSource = []\<rparr>,
      loc_Filter = None\<rparr>"

definition sample_migration :: "dbms_location \<Rightarrow> dbms_location \<Rightarrow> dbms_migration_model" where
  "sample_migration src dst =
     \<lparr>dmm_Source = src, dmm_Destination = dst, dmm_Scope = [], dmm_RollbackOnFailure = False, dmm_TargetGrant = None,
      dmm_SkipCharsetCheck = False, dmm_SkipVersionCheck = False, dmm_StagingDir = [], dmm_Concurrency = 0\<rparr>"


text \<open>
  When planning picks the direct pipe, both ends carry a complete SSH configuration, so the
  pipe executor the plan builds reads no missing one, the engines agree and the stream is
  written under the source's own schema names.
\<close>

lemma direct_pipe_is_renameless:
  assumes "dbms_plan_route roots json m = Inr (DirectPipe, m')"
  shows "pg_schema_rename m' = None
    \<and> loc_DBMSType (dmm_Source m') = loc_DBMSType (dmm_Destination m')
    \<and> (\<forall>loc\<in>{dmm_Source m', dmm_Destination m'}.
         \<exists>c s. loc_SSHTunnel loc = Some c \<and> stc_SSH c = Some s \<and> cs_Host s \<noteq> [] \<and> cs_Username s \<noteq> [])
    \<and> dmm_Scope m' \<in> {ScopeSchemaOnly, ScopeDataOnly, ScopeFull}"
proof -
  have v: "dbms_validate roots json m = None"
    using assms by (auto simp: dbms_plan_route_def res_inv)
  have ends: "dmm_Source m' = dmm_Source m" "dmm_Destination m' = dmm_Destination m"
    and tun: "loc_is_ssh_tunnel (dmm_Source m)" "loc_is_ssh_tunnel (dmm_Destination m)"
    and scope: "dmm_Scope m' = (if dmm_Scope m = [] then ScopeFull else dmm_Scope m)"
    using assms v by (auto simp: dbms_plan_route_def Let_def split: if_splits)
  have "dmm_Scope m' \<in> {ScopeSchemaOnly, ScopeDataOnly, ScopeFull}"
    using v by (auto simp: dbms_validate_def scope res_inv split: if_splits)
  moreover have "loc_PgSchema (dmm_Destination m) = []"
    using validate_cross_location_parts(2) [OF dbms_validate_parts(3) [OF v]] tun
    by (auto simp: validate_pg_schema_mapping_def Let_def split: if_splits)
  ultimately show ?thesis
    using tun validate_access_ssh validate_location_parts(1) [OF dbms_validate_parts(1) [OF v]]
      validate_location_parts(1) [OF dbms_validate_parts(2) [OF v]]
      validate_cross_location_parts(1) [OF dbms_validate_parts(3) [OF v]]
    by (auto simp: pg_schema_rename_def ends)
qed

lemma direct_pipe_is_renameless_witness:
  "dbms_plan_route (\<lambda>_. None) (\<lambda>_. (True, True)) (sample_migration sample_tunnel sample_tunnel)
     = Inr (DirectPipe, (sample_migration sample_tunnel sample_tunnel)\<lparr>dmm_Scope := ScopeFull\<rparr>)
   \<and> pg_schema_rename ((sample_migration sample_tunnel sample_tunnel)\<lparr>dmm_Scope := ScopeFull\<rparr>) = None"
proof -
  have "dbms_plan_route (\<lambda>_. None) (\<lambda>_. (True, True)) (sample_migration sample_tunnel sample_tunnel)
     = Inr (DirectPipe, (sample_migration sample_tunnel sample_tunnel)\<lparr>dmm_Scope := ScopeFull\<rparr>)"
    by (simp add: dbms_plan_route_def dbms_validate_eval sample_migration_def sample_tunnel_def)
  then show ?thesis using direct_pipe_is_renameless by blast
qed

text \<open>
  The version gate stops a validated migration exactly when it was not told to skip the check,
  both servers named their version, and the target's version components that decide the
  engine's feature set are lexicographically smaller than the source's: a server that
  cannot be read, or a version that is not a number, never stops a migration.
\<close>

lemma version_gate_blocks_confirmed_downgrades:
  assumes "dbms_validate roots json m = None"
  shows "enforce_version sv m \<noteq> None \<longleftrightarrow> \<not> dmm_SkipVersionCheck m \<and>
    (\<exists>s d. sv (dmm_Source m) = Inr s \<and> sv (dmm_Destination m) = Inr d \<and>
       (let ps = parse_server_version s; pd = parse_server_version d;
            depth = significant_version_depth (loc_DBMSType (dmm_Source m));
            k = min (min (depth ps) (depth pd)) (min (length ps) (length pd))
        in ps \<noteq> [] \<and> pd \<noteq> [] \<and> (take k pd, take k ps) \<in> lexord {(x, y). x < y}))"
proof -
  have types: "loc_DBMSType (dmm_Source m) \<in> {MySQL, MariaDB, PostgreSQL, MongoDB}"
    "loc_DBMSType (dmm_Destination m) \<in> {MySQL, MariaDB, PostgreSQL, MongoDB}"
    using validate_location_parts(5) [OF dbms_validate_parts(1) [OF assms]]
      validate_location_parts(5) [OF dbms_validate_parts(2) [OF assms]] by auto
  have comp: "vc_Downgrade (check_server_versions t s d) \<Longrightarrow> vc_Comparable (check_server_versions t s d)" for t s d
    by (auto simp: check_server_versions_def Let_def split: option.splits)
  have "enforce_version sv m \<noteq> None \<longleftrightarrow> \<not> dmm_SkipVersionCheck m \<and>
    (\<exists>s d. sv (dmm_Source m) = Inr s \<and> sv (dmm_Destination m) = Inr d
           \<and> vc_Downgrade (check_server_versions (loc_DBMSType (dmm_Source m)) s d))"
    using types comp
    by (cases "sv (dmm_Source m)"; cases "sv (dmm_Destination m)")
       (auto simp: enforce_version_def dbms_check_version_def new_db_driver_def)
  then show ?thesis by (simp add: downgrade_iff Let_def)
qed

lemma version_gate_blocks_confirmed_downgrades_witness:
  "dbms_validate (\<lambda>_. None) (\<lambda>_. (True, True)) (sample_migration sample_tunnel sample_tunnel) = None
   \<and> enforce_version (\<lambda>_. Inl ''unreachable'') (sample_migration sample_tunnel sample_tunnel) = None"
proof -
  have v: "dbms_validate (\<lambda>_. None) (\<lambda>_. (True, True)) (sample_migration sample_tunnel sample_tunnel) = None"
    by (simp add: dbms_validate_eval sample_migration_def sample_tunnel_def)
  then show ?thesis
    using version_gate_blocks_confirmed_downgrades [OF v, of "\<lambda>_. Inl ''unreachable''"] by auto
qed

end
