(* ===== verification/ConnSec.thy ===== *)
theory ConnSec
  imports MigrationModels
begin

text \<open>
  \<open>pkg/connsec\<close> (\<open>connsec.go\<close>, \<open>plan.go\<close>) over the framing of \<open>pkg/cryptoutil/aes.go\<close>:
  the sensitive fields of a connection reference, their encryption, decryption and
  masking, and the one walk over the references of a plan all three share.

  AES-256-GCM under the server's key with base64 around it is the parameter
  \<open>sealer\<close>: \<open>seal_with s n v\<close> is what \<open>Encrypt\<close> puts behind its \<open>enc:\<close> prefix when it draws
  the \<open>n\<close>-th nonce, \<open>open_with s b\<close> what \<open>Decrypt\<close> makes of the text behind the prefix.
  The nonces drawn so far are the number every operation passes on.
\<close>

record sealer =
  seal_with :: "nat \<Rightarrow> string \<Rightarrow> string + string"
  open_with :: "string \<Rightarrow> string + string"

abbreviation encPrefix :: string where "encPrefix \<equiv> ''enc:''"
abbreviation maskedValue :: string where "maskedValue \<equiv> ''***''"

section \<open>Values\<close>

definition crypto_encrypt :: "sealer \<Rightarrow> nat \<Rightarrow> string \<Rightarrow> string + string \<times> nat" where
  "crypto_encrypt s n v = bind_res (seal_with s n v) (\<lambda>b. Inr (encPrefix @ b, Suc n))"

definition crypto_decrypt :: "sealer \<Rightarrow> string \<Rightarrow> string + string" where
  "crypto_decrypt s v =
     (if \<not> has_prefix v encPrefix then Inr v else open_with s (drop (length encPrefix) v))"

type_synonym field_fn = "nat \<Rightarrow> string \<Rightarrow> string + string \<times> nat"

definition enc :: "sealer \<Rightarrow> field_fn" where
  "enc s n v = (if v = [] \<or> has_prefix v encPrefix then Inr (v, n) else crypto_encrypt s n v)"

definition dec :: "sealer \<Rightarrow> field_fn" where
  "dec s n v = (if v = [] then Inr (v, n) else bind_res (crypto_decrypt s v) (\<lambda>w. Inr (w, n)))"

definition mask_field :: field_fn where
  "mask_field n v = (if v = [] then Inr ([], n) else Inr (maskedValue, n))"

section \<open>One reference\<close>

text \<open>
  \<open>transformRef\<close>: each sub-struct that is present is copied and its secret replaced, in
  this order; the first error ends it.
\<close>

definition transform_ssh :: "field_fn \<Rightarrow> nat \<Rightarrow> ssh_conn_config \<Rightarrow> string + ssh_conn_config \<times> nat" where
  "transform_ssh fn n c = bind_res (fn n (ssh_PrivateKey c)) (\<lambda>(k, n'). Inr (c\<lparr>ssh_PrivateKey := k\<rparr>, n'))"

definition transform_minio :: "field_fn \<Rightarrow> nat \<Rightarrow> minio_conn_config \<Rightarrow> string + minio_conn_config \<times> nat" where
  "transform_minio fn n c =
     bind_res (fn n (mc_SecretAccessKey c)) (\<lambda>(k, n'). Inr (c\<lparr>mc_SecretAccessKey := k\<rparr>, n'))"

definition transform_opt ::
  "(nat \<Rightarrow> 'a \<Rightarrow> string + 'a \<times> nat) \<Rightarrow> nat \<Rightarrow> 'a option \<Rightarrow> string + 'a option \<times> nat" where
  "transform_opt f n x =
     (case x of None \<Rightarrow> Inr (None, n) | Some y \<Rightarrow> bind_res (f n y) (\<lambda>(z, n'). Inr (Some z, n')))"

definition transform_db :: "field_fn \<Rightarrow> nat \<Rightarrow> db_conn_config \<Rightarrow> string + db_conn_config \<times> nat" where
  "transform_db fn n c =
     bind_res (fn n (dbc_Password c)) (\<lambda>(p, n1).
     bind_res (transform_opt (transform_ssh fn) n1 (dbc_SSHTunnel c)) (\<lambda>(t, n2).
       Inr (c\<lparr>dbc_Password := p, dbc_SSHTunnel := t\<rparr>, n2)))"

definition transform_beetle_db :: "field_fn \<Rightarrow> nat \<Rightarrow> beetle_db_ref \<Rightarrow> string + beetle_db_ref \<times> nat" where
  "transform_beetle_db fn n c =
     bind_res (fn n (bdb_Password c)) (\<lambda>(k, n'). Inr (c\<lparr>bdb_Password := k\<rparr>, n'))"

definition transform_ref :: "field_fn \<Rightarrow> nat \<Rightarrow> connection_ref \<Rightarrow> string + connection_ref \<times> nat" where
  "transform_ref fn n ref =
     bind_res (transform_opt (transform_ssh fn) n (cr_SSH ref)) (\<lambda>(s, n1).
     bind_res (transform_opt (transform_minio fn) n1 (cr_Minio ref)) (\<lambda>(m, n2).
     bind_res (transform_opt (transform_db fn) n2 (cr_DB ref)) (\<lambda>(d, n3).
     bind_res (transform_opt (transform_beetle_db fn) n3 (cr_BeetleDB ref)) (\<lambda>(b, n4).
       Inr (ref\<lparr>cr_SSH := s, cr_Minio := m, cr_DB := d, cr_BeetleDB := b\<rparr>, n4)))))"

definition encrypt_ref :: "sealer \<Rightarrow> nat \<Rightarrow> connection_ref \<Rightarrow> string + connection_ref \<times> nat" where
  "encrypt_ref s = transform_ref (enc s)"

definition decrypt_ref :: "sealer \<Rightarrow> connection_ref \<Rightarrow> string + connection_ref" where
  "decrypt_ref s ref = bind_res (transform_ref (dec s) 0 ref) (\<lambda>(r, _). Inr r)"

definition mask_ref :: "nat \<Rightarrow> connection_ref \<Rightarrow> string + connection_ref \<times> nat" where
  "mask_ref = transform_ref mask_field"

section \<open>The walk over a plan\<close>

type_synonym ref_visitor = "string \<Rightarrow> nat \<Rightarrow> connection_ref \<Rightarrow> string + connection_ref \<times> nat"

definition ref_label :: "string \<Rightarrow> nat \<Rightarrow> string \<Rightarrow> string" where
  "ref_label part i side = part @ ''['' @ nat_digits i @ '']'' @ ''.'' @ side"

text \<open>
  The three loops of \<open>ForEachRef\<close> differ in the entry type only, so the loop takes the
  readers and writers of the two references.
\<close>

fun visit_entries ::
  "string \<Rightarrow> ('e \<Rightarrow> connection_ref) \<Rightarrow> (connection_ref \<Rightarrow> 'e \<Rightarrow> 'e) \<Rightarrow>
   ('e \<Rightarrow> connection_ref) \<Rightarrow> (connection_ref \<Rightarrow> 'e \<Rightarrow> 'e) \<Rightarrow>
   ref_visitor \<Rightarrow> nat \<Rightarrow> nat \<Rightarrow> 'e list \<Rightarrow> string + 'e list \<times> nat" where
  "visit_entries part gs ps gd pd fn i n [] = Inr ([], n)"
| "visit_entries part gs ps gd pd fn i n (e # es) =
     bind_res (fn (ref_label part i ''srcConnection'') n (gs e)) (\<lambda>(r1, n1).
     bind_res (fn (ref_label part i ''dstConnection'') n1 (gd e)) (\<lambda>(r2, n2).
     bind_res (visit_entries part gs ps gd pd fn (Suc i) n2 es) (\<lambda>(es', n3).
       Inr (pd r2 (ps r1 e) # es', n3))))"

definition for_each_ref ::
  "ref_visitor \<Rightarrow> nat \<Rightarrow> target_data_migration_property \<Rightarrow> string + target_data_migration_property \<times> nat"
where
  "for_each_ref fn n p =
     bind_res (visit_entries ''fileSystems'' mfs_SrcConnection (\<lambda>r. mfs_SrcConnection_update (\<lambda>_. r))
                 mfs_DstConnection (\<lambda>r. mfs_DstConnection_update (\<lambda>_. r)) fn 0 n (tdm_FileSystems p)) (\<lambda>(fs, n1).
     bind_res (visit_entries ''objectStorages'' mos_SrcConnection (\<lambda>r. mos_SrcConnection_update (\<lambda>_. r))
                 mos_DstConnection (\<lambda>r. mos_DstConnection_update (\<lambda>_. r)) fn 0 n1 (tdm_ObjectStorages p)) (\<lambda>(os, n2).
     bind_res (visit_entries ''databases'' mdb_SrcConnection (\<lambda>r. mdb_SrcConnection_update (\<lambda>_. r))
                 mdb_DstConnection (\<lambda>r. mdb_DstConnection_update (\<lambda>_. r)) fn 0 n2 (tdm_Databases p)) (\<lambda>(ds, n3).
       Inr (p\<lparr>tdm_FileSystems := fs, tdm_ObjectStorages := os, tdm_Databases := ds\<rparr>, n3))))"

definition labelled :: "string \<Rightarrow> string + 'a \<Rightarrow> string + 'a" where
  "labelled label r = map_err (\<lambda>e. label @ '': '' @ e) r"

definition encrypt_plan ::
  "sealer \<Rightarrow> nat \<Rightarrow> target_data_migration_property \<Rightarrow> string + target_data_migration_property \<times> nat" where
  "encrypt_plan s = for_each_ref (\<lambda>label n ref. labelled label (encrypt_ref s n ref))"

text \<open>Read-only: the visitor hands every reference back as it was.\<close>

definition verify_plan_decryptable :: "sealer \<Rightarrow> target_data_migration_property \<Rightarrow> string option" where
  "verify_plan_decryptable s p =
     (case for_each_ref (\<lambda>label n ref.
             labelled label (bind_res (decrypt_ref s ref) (\<lambda>_. Inr (ref, n)))) 0 p of
        Inl e \<Rightarrow> Some e | Inr _ \<Rightarrow> None)"

definition mask_plan ::
  "nat \<Rightarrow> target_data_migration_property \<Rightarrow> string + target_data_migration_property \<times> nat" where
  "mask_plan = for_each_ref (\<lambda>label n ref. labelled label (mask_ref n ref))"

section \<open>Secrets and everything else\<close>

definition opt_list :: "('a \<Rightarrow> 'b list) \<Rightarrow> 'a option \<Rightarrow> 'b list" where
  "opt_list f x = (case x of None \<Rightarrow> [] | Some y \<Rightarrow> f y)"

definition db_secrets :: "db_conn_config \<Rightarrow> string list" where
  "db_secrets c = dbc_Password c # opt_list (\<lambda>t. [ssh_PrivateKey t]) (dbc_SSHTunnel c)"

definition ref_secrets :: "connection_ref \<Rightarrow> string list" where
  "ref_secrets ref =
     opt_list (\<lambda>c. [ssh_PrivateKey c]) (cr_SSH ref) @ opt_list (\<lambda>c. [mc_SecretAccessKey c]) (cr_Minio ref)
     @ opt_list db_secrets (cr_DB ref) @ opt_list (\<lambda>c. [bdb_Password c]) (cr_BeetleDB ref)"

text \<open>A reference with its secrets blanked: what has to survive every transformation.\<close>

definition blank_db :: "db_conn_config \<Rightarrow> db_conn_config" where
  "blank_db c = c\<lparr>dbc_Password := [], dbc_SSHTunnel := map_option (ssh_PrivateKey_update (\<lambda>_. [])) (dbc_SSHTunnel c)\<rparr>"

definition blank_ref :: "connection_ref \<Rightarrow> connection_ref" where
  "blank_ref ref =
     ref\<lparr>cr_SSH := map_option (ssh_PrivateKey_update (\<lambda>_. [])) (cr_SSH ref),
         cr_Minio := map_option (mc_SecretAccessKey_update (\<lambda>_. [])) (cr_Minio ref),
         cr_DB := map_option blank_db (cr_DB ref),
         cr_BeetleDB := map_option (bdb_Password_update (\<lambda>_. [])) (cr_BeetleDB ref)\<rparr>"

definition plan_refs :: "target_data_migration_property \<Rightarrow> connection_ref list" where
  "plan_refs p =
     concat (map (\<lambda>e. [mfs_SrcConnection e, mfs_DstConnection e]) (tdm_FileSystems p))
     @ concat (map (\<lambda>e. [mos_SrcConnection e, mos_DstConnection e]) (tdm_ObjectStorages p))
     @ concat (map (\<lambda>e. [mdb_SrcConnection e, mdb_DstConnection e]) (tdm_Databases p))"

definition blank_plan :: "target_data_migration_property \<Rightarrow> target_data_migration_property" where
  "blank_plan p =
     p\<lparr>tdm_FileSystems := map (\<lambda>e. e\<lparr>mfs_SrcConnection := blank_ref (mfs_SrcConnection e),
                                    mfs_DstConnection := blank_ref (mfs_DstConnection e)\<rparr>) (tdm_FileSystems p),
       tdm_ObjectStorages := map (\<lambda>e. e\<lparr>mos_SrcConnection := blank_ref (mos_SrcConnection e),
                                    mos_DstConnection := blank_ref (mos_DstConnection e)\<rparr>) (tdm_ObjectStorages p),
       tdm_Databases := map (\<lambda>e. e\<lparr>mdb_SrcConnection := blank_ref (mdb_SrcConnection e),
                                    mdb_DstConnection := blank_ref (mdb_DstConnection e)\<rparr>) (tdm_Databases p)\<rparr>"

definition plan_secrets :: "target_data_migration_property \<Rightarrow> string list" where
  "plan_secrets p = concat (map ref_secrets (plan_refs p))"

lemma opt_list_simps [simp]:
  "opt_list f None = []"
  "opt_list f (Some x) = f x"
  by (simp_all add: opt_list_def)

lemma opt_eqI:
  assumes "map_option g x = map_option g y" and "opt_list f x = opt_list f y"
    and inj: "\<And>u v. g u = g v \<Longrightarrow> f u = f v \<Longrightarrow> u = v"
  shows "x = y"
proof (cases x)
  case (Some u)
  with assms(1) obtain v where y: "y = Some v" by (cases y) simp_all
  have "u = v" by (rule inj) (use assms(1,2) Some y in simp_all)
  with Some y show ?thesis by simp
qed (use assms(1) in simp)

lemma opt_len:
  assumes "map_option g x = map_option g y"
    and len: "\<And>u v. g u = g v \<Longrightarrow> length (f u) = length (f v)"
  shows "length (opt_list f x) = length (opt_list f y)"
proof (cases x)
  case (Some u)
  with assms(1) obtain v where y: "y = Some v" by (cases y) simp_all
  have "length (f u) = length (f v)" by (rule len) (use assms(1) Some y in simp_all)
  with Some y show ?thesis by simp
qed (use assms(1) in simp)

lemma blank_ssh_eqI:
  "(a :: ssh_conn_config)\<lparr>ssh_PrivateKey := []\<rparr> = b\<lparr>ssh_PrivateKey := []\<rparr> \<Longrightarrow> ssh_PrivateKey a = ssh_PrivateKey b \<Longrightarrow> a = b"
  by (cases a; cases b; simp)

lemma blank_minio_eqI:
  "(c :: minio_conn_config)\<lparr>mc_SecretAccessKey := []\<rparr> = d\<lparr>mc_SecretAccessKey := []\<rparr> \<Longrightarrow>
     mc_SecretAccessKey c = mc_SecretAccessKey d \<Longrightarrow> c = d"
  by (cases c; cases d; simp)

lemma blank_beetle_eqI:
  "(e :: beetle_db_ref)\<lparr>bdb_Password := []\<rparr> = f\<lparr>bdb_Password := []\<rparr> \<Longrightarrow> bdb_Password e = bdb_Password f \<Longrightarrow> e = f"
  by (cases e; cases f; simp)

lemmas blank_eqI = blank_ssh_eqI blank_minio_eqI blank_beetle_eqI

lemma blank_db_eqI:
  assumes "blank_db a = blank_db b" and "db_secrets a = db_secrets b"
  shows "a = b"
proof -
  have t: "map_option (ssh_PrivateKey_update (\<lambda>_. [])) (dbc_SSHTunnel a) =
      map_option (ssh_PrivateKey_update (\<lambda>_. [])) (dbc_SSHTunnel b)"
    using arg_cong [OF assms(1), of dbc_SSHTunnel] by (simp add: blank_db_def)
  have "dbc_SSHTunnel a = dbc_SSHTunnel b"
    by (rule opt_eqI [OF t, of "\<lambda>t. [ssh_PrivateKey t]"])
       (use assms(2) in \<open>auto simp: db_secrets_def intro: blank_eqI\<close>)
  moreover have "dbc_Password a = dbc_Password b" using assms(2) by (simp add: db_secrets_def)
  ultimately show ?thesis using assms(1) by (cases a; cases b) (simp add: blank_db_def)
qed

lemma blank_db_len: "blank_db a = blank_db b \<Longrightarrow> length (db_secrets a) = length (db_secrets b)"
proof -
  assume "blank_db a = blank_db b"
  from arg_cong [OF this, of dbc_SSHTunnel] show ?thesis
    by (cases "dbc_SSHTunnel a"; cases "dbc_SSHTunnel b") (simp_all add: blank_db_def db_secrets_def)
qed

lemma blank_refD:
  assumes "blank_ref a = blank_ref b"
  shows "map_option (ssh_PrivateKey_update (\<lambda>_. [])) (cr_SSH a) = map_option (ssh_PrivateKey_update (\<lambda>_. [])) (cr_SSH b)"
    and "map_option (mc_SecretAccessKey_update (\<lambda>_. [])) (cr_Minio a) = map_option (mc_SecretAccessKey_update (\<lambda>_. [])) (cr_Minio b)"
    and "map_option blank_db (cr_DB a) = map_option blank_db (cr_DB b)"
    and "map_option (bdb_Password_update (\<lambda>_. [])) (cr_BeetleDB a) = map_option (bdb_Password_update (\<lambda>_. [])) (cr_BeetleDB b)"
  using arg_cong [OF assms, of cr_SSH] arg_cong [OF assms, of cr_Minio] arg_cong [OF assms, of cr_DB]
    arg_cong [OF assms, of cr_BeetleDB] by (simp_all add: blank_ref_def)

lemma ref_eqI:
  assumes "blank_ref a = blank_ref b" and "ref_secrets a = ref_secrets b"
  shows "a = b"
proof -
  note bl = blank_refD [OF assms(1)]
  have l: "length (opt_list (\<lambda>c. [ssh_PrivateKey c]) (cr_SSH a)) = length (opt_list (\<lambda>c. [ssh_PrivateKey c]) (cr_SSH b))"
    "length (opt_list (\<lambda>c. [mc_SecretAccessKey c]) (cr_Minio a)) = length (opt_list (\<lambda>c. [mc_SecretAccessKey c]) (cr_Minio b))"
    "length (opt_list db_secrets (cr_DB a)) = length (opt_list db_secrets (cr_DB b))"
    using opt_len [OF bl(1), of "\<lambda>c. [ssh_PrivateKey c]"] opt_len [OF bl(2), of "\<lambda>c. [mc_SecretAccessKey c]"]
      opt_len [OF bl(3), of db_secrets, OF blank_db_len] by simp_all
  have sec: "opt_list (\<lambda>c. [ssh_PrivateKey c]) (cr_SSH a) = opt_list (\<lambda>c. [ssh_PrivateKey c]) (cr_SSH b)"
    "opt_list (\<lambda>c. [mc_SecretAccessKey c]) (cr_Minio a) = opt_list (\<lambda>c. [mc_SecretAccessKey c]) (cr_Minio b)"
    "opt_list db_secrets (cr_DB a) = opt_list db_secrets (cr_DB b)"
    "opt_list (\<lambda>c. [bdb_Password c]) (cr_BeetleDB a) = opt_list (\<lambda>c. [bdb_Password c]) (cr_BeetleDB b)"
    using assms(2) l by (simp_all add: ref_secrets_def)
  have "cr_SSH a = cr_SSH b" by (rule opt_eqI [OF bl(1) sec(1)]) (auto intro: blank_eqI)
  moreover have "cr_Minio a = cr_Minio b" by (rule opt_eqI [OF bl(2) sec(2)]) (auto intro: blank_eqI)
  moreover have "cr_DB a = cr_DB b" by (rule opt_eqI [OF bl(3) sec(3)]) (auto intro: blank_db_eqI)
  moreover have "cr_BeetleDB a = cr_BeetleDB b" by (rule opt_eqI [OF bl(4) sec(4)]) (auto intro: blank_eqI)
  ultimately show ?thesis using assms(1) by (cases a; cases b) (simp add: blank_ref_def)
qed

section \<open>What a field function promises, a plan walk delivers\<close>

text \<open>
  The contract of a field function: a relation between a secret and what replaces it.
  Encryption, decryption and masking each provide one; the client lemmas say that the
  transformation of a reference and the walk over a plan apply it to every secret, in
  order, and touch nothing else.
\<close>

locale field_contract =
  fixes fn :: field_fn and P :: "string \<Rightarrow> string \<Rightarrow> bool"
  assumes field: "fn n v = Inr (w, m) \<Longrightarrow> P v w"
begin

lemma transform_opt_rel:
  assumes "transform_opt f n x = Inr (y, m)"
    and "\<And>n u z m. f n u = Inr (z, m) \<Longrightarrow> list_all2 P (sec u) (sec z) \<and> bl z = bl u"
  shows "list_all2 P (opt_list sec x) (opt_list sec y) \<and> map_option bl y = map_option bl x"
  using assms by (cases x) (auto simp: transform_opt_def bind_res_Inr_iff)

lemma transform_ssh_rel:
  "transform_ssh fn n c = Inr (c', m) \<Longrightarrow>
   list_all2 P [ssh_PrivateKey c] [ssh_PrivateKey c'] \<and> c'\<lparr>ssh_PrivateKey := []\<rparr> = c\<lparr>ssh_PrivateKey := []\<rparr>"
  by (auto simp: transform_ssh_def bind_res_Inr_iff intro: field)

lemma transform_minio_rel:
  "transform_minio fn n c = Inr (c', m) \<Longrightarrow>
   list_all2 P [mc_SecretAccessKey c] [mc_SecretAccessKey c'] \<and> c'\<lparr>mc_SecretAccessKey := []\<rparr> = c\<lparr>mc_SecretAccessKey := []\<rparr>"
  by (auto simp: transform_minio_def bind_res_Inr_iff intro: field)

lemma transform_beetle_db_rel:
  "transform_beetle_db fn n c = Inr (c', m) \<Longrightarrow>
   list_all2 P [bdb_Password c] [bdb_Password c'] \<and> c'\<lparr>bdb_Password := []\<rparr> = c\<lparr>bdb_Password := []\<rparr>"
  by (auto simp: transform_beetle_db_def bind_res_Inr_iff intro: field)

lemma transform_db_rel:
  assumes "transform_db fn n c = Inr (c', m)"
  shows "list_all2 P (db_secrets c) (db_secrets c') \<and> blank_db c' = blank_db c"
proof -
  from assms obtain p n1 t n2 where p: "fn n (dbc_Password c) = Inr (p, n1)"
    and t: "transform_opt (transform_ssh fn) n1 (dbc_SSHTunnel c) = Inr (t, n2)"
    and c': "c' = c\<lparr>dbc_Password := p, dbc_SSHTunnel := t\<rparr>"
    by (auto simp: transform_db_def bind_res_Inr_iff)
  from transform_opt_rel [OF t, of "\<lambda>t. [ssh_PrivateKey t]" "ssh_PrivateKey_update (\<lambda>_. [])"]
  show ?thesis using transform_ssh_rel field [OF p]
    by (auto simp: c' db_secrets_def blank_db_def)
qed

lemma transform_ref_rel:
  assumes "transform_ref fn n ref = Inr (ref', m)"
  shows "list_all2 P (ref_secrets ref) (ref_secrets ref') \<and> blank_ref ref' = blank_ref ref"
proof -
  from assms obtain s n1 mi n2 d n3 b n4
    where s: "transform_opt (transform_ssh fn) n (cr_SSH ref) = Inr (s, n1)"
      and mi: "transform_opt (transform_minio fn) n1 (cr_Minio ref) = Inr (mi, n2)"
      and d: "transform_opt (transform_db fn) n2 (cr_DB ref) = Inr (d, n3)"
      and b: "transform_opt (transform_beetle_db fn) n3 (cr_BeetleDB ref) = Inr (b, n4)"
      and ref': "ref' = ref\<lparr>cr_SSH := s, cr_Minio := mi, cr_DB := d, cr_BeetleDB := b\<rparr>"
    by (auto simp: transform_ref_def bind_res_Inr_iff)
  note r = transform_opt_rel [OF s, of "\<lambda>c. [ssh_PrivateKey c]" "ssh_PrivateKey_update (\<lambda>_. [])", OF transform_ssh_rel]
    transform_opt_rel [OF mi, of "\<lambda>c. [mc_SecretAccessKey c]" "mc_SecretAccessKey_update (\<lambda>_. [])", OF transform_minio_rel]
    transform_opt_rel [OF d, of db_secrets blank_db, OF transform_db_rel]
    transform_opt_rel [OF b, of "\<lambda>c. [bdb_Password c]" "bdb_Password_update (\<lambda>_. [])", OF transform_beetle_db_rel]
  show ?thesis using r by (simp add: ref' ref_secrets_def blank_ref_def list_all2_appendI)
qed

end

text \<open>The same for a visitor of references.\<close>

locale ref_contract =
  fixes visit :: ref_visitor and R :: "connection_ref \<Rightarrow> connection_ref \<Rightarrow> bool"
  assumes ref: "visit l n r = Inr (r', m) \<Longrightarrow> R r r'"
begin

lemma visit_entries_rel:
  assumes "visit_entries part gs ps gd pd visit i n es = Inr (es', m)"
    and gp: "\<And>a b e. gs (pd b (ps a e)) = a \<and> gd (pd b (ps a e)) = b"
    and bl: "\<And>a b e. bl (pd b (ps a e)) = pd (blank_ref b) (ps (blank_ref a) e)"
      "\<And>e. bl e = pd (blank_ref (gd e)) (ps (blank_ref (gs e)) e)"
  shows "list_all2 R (concat (map (\<lambda>e. [gs e, gd e]) es)) (concat (map (\<lambda>e. [gs e, gd e]) es')) \<and>
    ((\<forall>a b. R a b \<longrightarrow> blank_ref b = blank_ref a) \<longrightarrow> map bl es' = map bl es)"
  using assms(1)
proof (induction es arbitrary: i n es' m)
  case (Cons e es)
  then obtain r1 n1 r2 n2 es2 where
    v: "visit (ref_label part i ''srcConnection'') n (gs e) = Inr (r1, n1)"
      "visit (ref_label part i ''dstConnection'') n1 (gd e) = Inr (r2, n2)"
      "visit_entries part gs ps gd pd visit (Suc i) n2 es = Inr (es2, m)" "es' = pd r2 (ps r1 e) # es2"
    by (auto simp: bind_res_Inr_iff)
  have R: "R (gs e) r1" "R (gd e) r2" using ref v(1,2) by blast+
  have IH: "list_all2 R (concat (map (\<lambda>e. [gs e, gd e]) es)) (concat (map (\<lambda>e. [gs e, gd e]) es2))"
    "(\<forall>a b. R a b \<longrightarrow> blank_ref b = blank_ref a) \<longrightarrow> map bl es2 = map bl es"
    using Cons.IH [OF v(3)] by blast+
  have "bl (pd r2 (ps r1 e)) = bl e" if "\<forall>a b. R a b \<longrightarrow> blank_ref b = blank_ref a"
    using R that bl by metis
  with R IH v(4) gp show ?case by simp
qed simp

lemma for_each_ref_rel:
  assumes "for_each_ref visit n p = Inr (p', m)"
  shows "list_all2 R (plan_refs p) (plan_refs p') \<and>
    ((\<forall>a b. R a b \<longrightarrow> blank_ref b = blank_ref a) \<longrightarrow> blank_plan p' = blank_plan p)"
proof -
  from assms obtain fs n1 os n2 ds n3 where
    v: "visit_entries ''fileSystems'' mfs_SrcConnection (\<lambda>r. mfs_SrcConnection_update (\<lambda>_. r))
          mfs_DstConnection (\<lambda>r. mfs_DstConnection_update (\<lambda>_. r)) visit 0 n (tdm_FileSystems p) = Inr (fs, n1)"
       "visit_entries ''objectStorages'' mos_SrcConnection (\<lambda>r. mos_SrcConnection_update (\<lambda>_. r))
          mos_DstConnection (\<lambda>r. mos_DstConnection_update (\<lambda>_. r)) visit 0 n1 (tdm_ObjectStorages p) = Inr (os, n2)"
       "visit_entries ''databases'' mdb_SrcConnection (\<lambda>r. mdb_SrcConnection_update (\<lambda>_. r))
          mdb_DstConnection (\<lambda>r. mdb_DstConnection_update (\<lambda>_. r)) visit 0 n2 (tdm_Databases p) = Inr (ds, n3)"
      and p': "p' = p\<lparr>tdm_FileSystems := fs, tdm_ObjectStorages := os, tdm_Databases := ds\<rparr>"
    by (auto simp: for_each_ref_def bind_res_Inr_iff)
  note r = visit_entries_rel [OF v(1), of "\<lambda>e. e\<lparr>mfs_SrcConnection := blank_ref (mfs_SrcConnection e),
             mfs_DstConnection := blank_ref (mfs_DstConnection e)\<rparr>", simplified]
    visit_entries_rel [OF v(2), of "\<lambda>e. e\<lparr>mos_SrcConnection := blank_ref (mos_SrcConnection e),
             mos_DstConnection := blank_ref (mos_DstConnection e)\<rparr>", simplified]
    visit_entries_rel [OF v(3), of "\<lambda>e. e\<lparr>mdb_SrcConnection := blank_ref (mdb_SrcConnection e),
             mdb_DstConnection := blank_ref (mdb_DstConnection e)\<rparr>", simplified]
  show ?thesis using r by (simp add: p' plan_refs_def blank_plan_def list_all2_appendI)
qed

end

lemma labelled_Inr_iff: "labelled l r = Inr x \<longleftrightarrow> r = Inr x"
  by (simp add: labelled_def map_err_Inr_iff)

sublocale field_contract \<subseteq> walk: ref_contract
  "\<lambda>l n r. labelled l (transform_ref fn n r)"
  "\<lambda>r r'. list_all2 P (ref_secrets r) (ref_secrets r') \<and> blank_ref r' = blank_ref r"
  by unfold_locales (simp add: labelled_Inr_iff transform_ref_rel)

lemma list_all2_concat_map:
  "list_all2 (\<lambda>x y. list_all2 P (f x) (f y) \<and> Q x y) xs ys \<Longrightarrow> list_all2 P (concat (map f xs)) (concat (map f ys))"
  by (induction xs ys rule: list_all2_induct) (auto intro: list_all2_appendI)

context field_contract
begin

lemma plan_rel:
  assumes "for_each_ref (\<lambda>l n r. labelled l (transform_ref fn n r)) n p = Inr (p', m)"
  shows "list_all2 P (plan_secrets p) (plan_secrets p') \<and> blank_plan p' = blank_plan p"
  using walk.for_each_ref_rel [OF assms] list_all2_concat_map [of P ref_secrets _ "plan_refs p" "plan_refs p'"]
  by (auto simp: plan_secrets_def)

end

text \<open>The three field functions of the code meet the contract.\<close>

definition sealed :: "sealer \<Rightarrow> string \<Rightarrow> string \<Rightarrow> bool" where
  "sealed s v w \<longleftrightarrow>
     (if v = [] \<or> has_prefix v encPrefix then w = v
      else \<exists>k b. seal_with s k v = Inr b \<and> w = encPrefix @ b)"

interpretation enc_field: field_contract "enc s" "sealed s" for s
  by unfold_locales (auto simp: enc_def sealed_def crypto_encrypt_def bind_res_Inr_iff split: if_splits)

interpretation dec_field: field_contract "dec s" "\<lambda>v w. crypto_decrypt s v = Inr w" for s
  by unfold_locales (auto simp: dec_def crypto_decrypt_def bind_res_Inr_iff split: if_splits)

interpretation mask: field_contract mask_field "\<lambda>v w. w = (if v = [] then [] else maskedValue)"
  by unfold_locales (auto simp: mask_field_def split: if_splits)

section \<open>When a walk succeeds, and when it changes nothing\<close>

lemma transform_opt_total:
  "(\<And>n u. x = Some u \<Longrightarrow> \<exists>z m. f n u = Inr (z, m)) \<Longrightarrow> \<exists>z m. transform_opt f n x = Inr (z, m)"
  by (cases x) (auto simp: transform_opt_def bind_res_Inr_iff, blast)

lemma transform_ref_total:
  assumes "\<And>v n. v \<in> set (ref_secrets ref) \<Longrightarrow> \<exists>w m. fn n v = Inr (w, m)"
  shows "\<exists>r m. transform_ref fn n ref = Inr (r, m)"
proof -
  have ssh: "\<exists>z m. transform_opt (transform_ssh fn) k (cr_SSH ref) = Inr (z, m)" for k
  proof (rule transform_opt_total)
    fix n u assume "cr_SSH ref = Some u"
    then have "ssh_PrivateKey u \<in> set (ref_secrets ref)" by (simp add: ref_secrets_def)
    from assms [OF this, of n] show "\<exists>z m. transform_ssh fn n u = Inr (z, m)"
      by (auto simp: transform_ssh_def)
  qed
  have mi: "\<exists>z m. transform_opt (transform_minio fn) k (cr_Minio ref) = Inr (z, m)" for k
  proof (rule transform_opt_total)
    fix n u assume "cr_Minio ref = Some u"
    then have "mc_SecretAccessKey u \<in> set (ref_secrets ref)" by (simp add: ref_secrets_def)
    from assms [OF this, of n] show "\<exists>z m. transform_minio fn n u = Inr (z, m)"
      by (auto simp: transform_minio_def)
  qed
  have be: "\<exists>z m. transform_opt (transform_beetle_db fn) k (cr_BeetleDB ref) = Inr (z, m)" for k
  proof (rule transform_opt_total)
    fix n u assume "cr_BeetleDB ref = Some u"
    then have "bdb_Password u \<in> set (ref_secrets ref)" by (simp add: ref_secrets_def)
    from assms [OF this, of n] show "\<exists>z m. transform_beetle_db fn n u = Inr (z, m)"
      by (auto simp: transform_beetle_db_def)
  qed
  have db: "\<exists>z m. transform_opt (transform_db fn) k (cr_DB ref) = Inr (z, m)" for k
  proof (rule transform_opt_total)
    fix n u assume u: "cr_DB ref = Some u"
    then have "dbc_Password u \<in> set (ref_secrets ref)" by (simp add: ref_secrets_def db_secrets_def)
    from assms [OF this, of n] obtain p n1 where p: "fn n (dbc_Password u) = Inr (p, n1)" by blast
    have "\<exists>z m. transform_opt (transform_ssh fn) n1 (dbc_SSHTunnel u) = Inr (z, m)"
    proof (rule transform_opt_total)
      fix n t assume "dbc_SSHTunnel u = Some t"
      with u have "ssh_PrivateKey t \<in> set (ref_secrets ref)" by (simp add: ref_secrets_def db_secrets_def)
      from assms [OF this, of n] show "\<exists>z m. transform_ssh fn n t = Inr (z, m)"
        by (auto simp: transform_ssh_def)
    qed
    with p show "\<exists>z m. transform_db fn n u = Inr (z, m)" by (auto simp: transform_db_def)
  qed
  from ssh [of n] obtain s n1 where 1: "transform_opt (transform_ssh fn) n (cr_SSH ref) = Inr (s, n1)" by blast
  from mi [of n1] obtain k n2 where 2: "transform_opt (transform_minio fn) n1 (cr_Minio ref) = Inr (k, n2)" by blast
  from db [of n2] obtain d n3 where 3: "transform_opt (transform_db fn) n2 (cr_DB ref) = Inr (d, n3)" by blast
  from be [of n3] obtain b n4 where "transform_opt (transform_beetle_db fn) n3 (cr_BeetleDB ref) = Inr (b, n4)" by blast
  with 1 2 3 show ?thesis by (simp add: transform_ref_def)
qed

lemma transform_ref_id:
  assumes "\<And>v n. v \<in> set (ref_secrets ref) \<Longrightarrow> fn n v = Inr (v, n)"
  shows "transform_ref fn n ref = Inr (ref, n)"
proof -
  have "transform_opt (transform_ssh fn) k (cr_SSH ref) = Inr (cr_SSH ref, k)" for k
    using assms by (cases "cr_SSH ref") (simp_all add: transform_opt_def transform_ssh_def ref_secrets_def)
  moreover have "transform_opt (transform_minio fn) k (cr_Minio ref) = Inr (cr_Minio ref, k)" for k
    using assms by (cases "cr_Minio ref") (simp_all add: transform_opt_def transform_minio_def ref_secrets_def)
  moreover have "transform_opt (transform_db fn) k (cr_DB ref) = Inr (cr_DB ref, k)" for k
  proof (cases "cr_DB ref")
    case (Some u)
    then have "fn m (dbc_Password u) = Inr (dbc_Password u, m)" for m
      using assms by (simp add: ref_secrets_def db_secrets_def)
    moreover have "transform_opt (transform_ssh fn) m (dbc_SSHTunnel u) = Inr (dbc_SSHTunnel u, m)" for m
      using assms Some
      by (cases "dbc_SSHTunnel u") (simp_all add: transform_opt_def transform_ssh_def ref_secrets_def db_secrets_def)
    ultimately show ?thesis using Some by (simp add: transform_opt_def transform_db_def)
  qed (simp add: transform_opt_def)
  moreover have "transform_opt (transform_beetle_db fn) k (cr_BeetleDB ref) = Inr (cr_BeetleDB ref, k)" for k
    using assms by (cases "cr_BeetleDB ref") (simp_all add: transform_opt_def transform_beetle_db_def ref_secrets_def)
  ultimately show ?thesis by (simp add: transform_ref_def)
qed

lemma visit_entries_total:
  assumes "\<And>l n r. \<exists>r' m. visit l n r = Inr (r', m)"
  shows "\<exists>es' m. visit_entries part gs ps gd pd visit i n es = Inr (es', m)"
proof (induction es arbitrary: i n)
  case (Cons e es)
  obtain r1 n1 where 1: "visit (ref_label part i ''srcConnection'') n (gs e) = Inr (r1, n1)" using assms by blast
  obtain r2 n2 where 2: "visit (ref_label part i ''dstConnection'') n1 (gd e) = Inr (r2, n2)" using assms by blast
  from Cons.IH [of "Suc i" n2] 1 2 show ?case by auto
qed simp

lemma for_each_ref_total:
  assumes "\<And>l n r. \<exists>r' m. visit l n r = Inr (r', m)"
  shows "\<exists>p' m. for_each_ref visit n p = Inr (p', m)"
proof -
  obtain fs n1 where 1: "visit_entries ''fileSystems'' mfs_SrcConnection (\<lambda>r. mfs_SrcConnection_update (\<lambda>_. r))
      mfs_DstConnection (\<lambda>r. mfs_DstConnection_update (\<lambda>_. r)) visit 0 n (tdm_FileSystems p) = Inr (fs, n1)"
    using visit_entries_total [of visit, OF assms] by meson
  obtain os n2 where 2: "visit_entries ''objectStorages'' mos_SrcConnection (\<lambda>r. mos_SrcConnection_update (\<lambda>_. r))
      mos_DstConnection (\<lambda>r. mos_DstConnection_update (\<lambda>_. r)) visit 0 n1 (tdm_ObjectStorages p) = Inr (os, n2)"
    using visit_entries_total [of visit, OF assms] by meson
  obtain ds n3 where "visit_entries ''databases'' mdb_SrcConnection (\<lambda>r. mdb_SrcConnection_update (\<lambda>_. r))
      mdb_DstConnection (\<lambda>r. mdb_DstConnection_update (\<lambda>_. r)) visit 0 n2 (tdm_Databases p) = Inr (ds, n3)"
    using visit_entries_total [of visit, OF assms] by meson
  with 1 2 show ?thesis by (simp add: for_each_ref_def)
qed

lemma visit_entries_id:
  assumes "\<And>l n r. r \<in> set (concat (map (\<lambda>e. [gs e, gd e]) es)) \<Longrightarrow> visit l n r = Inr (r, n)"
    and "\<And>e. pd (gd e) (ps (gs e) e) = e"
  shows "visit_entries part gs ps gd pd visit i n es = Inr (es, n)"
  using assms(1) by (induction es arbitrary: i) (simp_all add: assms(2))

lemma for_each_ref_id:
  assumes "\<And>l n r. r \<in> set (plan_refs p) \<Longrightarrow> visit l n r = Inr (r, n)"
  shows "for_each_ref visit n p = Inr (p, n)"
proof -
  have "visit_entries part mfs_SrcConnection (\<lambda>r. mfs_SrcConnection_update (\<lambda>_. r))
      mfs_DstConnection (\<lambda>r. mfs_DstConnection_update (\<lambda>_. r)) visit 0 n (tdm_FileSystems p) = Inr (tdm_FileSystems p, n)" for part
    by (rule visit_entries_id) (use assms in \<open>auto simp: plan_refs_def\<close>)
  moreover have "visit_entries part mos_SrcConnection (\<lambda>r. mos_SrcConnection_update (\<lambda>_. r))
      mos_DstConnection (\<lambda>r. mos_DstConnection_update (\<lambda>_. r)) visit 0 n (tdm_ObjectStorages p) = Inr (tdm_ObjectStorages p, n)" for part
    by (rule visit_entries_id) (use assms in \<open>auto simp: plan_refs_def\<close>)
  moreover have "visit_entries part mdb_SrcConnection (\<lambda>r. mdb_SrcConnection_update (\<lambda>_. r))
      mdb_DstConnection (\<lambda>r. mdb_DstConnection_update (\<lambda>_. r)) visit 0 n (tdm_Databases p) = Inr (tdm_Databases p, n)" for part
    by (rule visit_entries_id) (use assms in \<open>auto simp: plan_refs_def\<close>)
  ultimately show ?thesis by (simp add: for_each_ref_def)
qed

section \<open>Properties\<close>

lemma encrypt_plan_rel:
  "encrypt_plan s n p = Inr (p', m) \<Longrightarrow>
   list_all2 (sealed s) (plan_secrets p) (plan_secrets p') \<and> blank_plan p' = blank_plan p"
  using enc_field.plan_rel by (simp add: encrypt_plan_def encrypt_ref_def)

lemma sealed_prefix: "sealed s v w \<Longrightarrow> w = [] \<or> has_prefix w encPrefix"
  by (auto simp: sealed_def split: if_splits)

lemma list_all2_right: "list_all2 P xs ys \<Longrightarrow> (\<And>x y. P x y \<Longrightarrow> Q y) \<Longrightarrow> y \<in> set ys \<Longrightarrow> Q y"
  by (induction xs ys rule: list_all2_induct) auto

lemma encrypt_plan_sealed:
  assumes "encrypt_plan s n p = Inr (p', m)" and "v \<in> set (plan_secrets p')"
  shows "v = [] \<or> has_prefix v encPrefix"
proof (rule list_all2_right [of "sealed s" "plan_secrets p" "plan_secrets p'" "\<lambda>v. v = [] \<or> has_prefix v encPrefix"])
  show "list_all2 (sealed s) (plan_secrets p) (plan_secrets p')" using encrypt_plan_rel [OF assms(1)] by blast
qed (use sealed_prefix assms(2) in blast)+

text \<open>
  C6: a plan that was encrypted carries no plaintext: every sensitive field of every
  reference, tunnels and managed-database passwords included, is empty or starts with
  \<open>enc:\<close>, and nothing but those fields has changed.
\<close>

theorem encrypt_plan_no_plaintext:
  assumes "encrypt_plan s n p = Inr (p', m)"
  shows "list_all (\<lambda>v. v = [] \<or> has_prefix v encPrefix) (plan_secrets p') \<and> blank_plan p' = blank_plan p"
  using encrypt_plan_rel [OF assms] encrypt_plan_sealed [OF assms] by (simp add: list_all_iff)

text \<open>A sealer that frames the text, and a plan to run it on.\<close>

definition toy_sealer :: sealer where
  "toy_sealer = \<lparr>seal_with = (\<lambda>n v. Inr (nat_digits n @ ''.'' @ v)),
     open_with = (\<lambda>b. Inr (drop 1 (dropWhile (\<lambda>c. c \<noteq> CHR ''.'') b)))\<rparr>"

definition toy_db_ref :: connection_ref where
  "toy_db_ref = (empty_ref ConnectionSourceDB)\<lparr>cr_DB := Some
     \<lparr>dbc_ProviderName = ''onprem'', dbc_DBMSType = ''mysql'', dbc_AccessType = ''sshTunnel'', dbc_Host = ''db'',
      dbc_Port = 3306, dbc_Username = ''root'', dbc_Password = ''pw'', dbc_ConnectTimeout = 0, dbc_TLSMode = [],
      dbc_TLSCAPEM = [], dbc_AuthSource = [],
      dbc_SSHTunnel = Some \<lparr>ssh_Host = ''h'', ssh_Port = 22, ssh_Username = ''u'', ssh_PrivateKey = ''key''\<rparr>\<rparr>\<rparr>"

definition toy_plan :: target_data_migration_property where
  "toy_plan = empty_target\<lparr>tdm_Databases :=
     [\<lparr>mdb_PlanEntryID = ''e1'', mdb_SrcConnection = honeybee_conn ''c1'', mdb_DstConnection = toy_db_ref,
       mdb_DBType = ''mysql'', mdb_Databases = [], mdb_Errors = []\<rparr>]\<rparr>"

definition toy_sealed_ref :: connection_ref where
  "toy_sealed_ref = toy_db_ref\<lparr>cr_DB := map_option (\<lambda>c. c\<lparr>dbc_Password := ''enc:0.pw'',
     dbc_SSHTunnel := map_option (ssh_PrivateKey_update (\<lambda>_. ''enc:1.key'')) (dbc_SSHTunnel c)\<rparr>) (cr_DB toy_db_ref)\<rparr>"

definition toy_sealed :: target_data_migration_property where
  "toy_sealed = toy_plan\<lparr>tdm_Databases :=
     map (mdb_DstConnection_update (\<lambda>_. toy_sealed_ref)) (tdm_Databases toy_plan)\<rparr>"

lemma toy_refs:
  "plan_refs toy_plan = [honeybee_conn ''c1'', toy_db_ref]" "plan_secrets toy_plan = [''pw'', ''key'']"
  by (simp_all add: plan_refs_def plan_secrets_def toy_plan_def empty_target_def toy_db_ref_def ref_secrets_def
      db_secrets_def empty_ref_def honeybee_conn_def)

lemma digits_01: "nat_digits 0 = ''0''" "nat_digits (Suc 0) = ''1''"
  by code_simp+

lemma toy_encrypt: "encrypt_plan toy_sealer 0 toy_plan = Inr (toy_sealed, 2)"
  by (simp add: encrypt_plan_def for_each_ref_def toy_plan_def empty_target_def toy_db_ref_def encrypt_ref_def
      transform_ref_def transform_opt_def transform_ssh_def transform_db_def honeybee_conn_def empty_ref_def
      labelled_def enc_def crypto_encrypt_def toy_sealer_def toy_sealed_def toy_sealed_ref_def digits_01)

theorem encrypt_plan_no_plaintext_witness:
  "list_all (\<lambda>v. v = [] \<or> has_prefix v encPrefix) (plan_secrets toy_sealed) \<and> blank_plan toy_sealed = blank_plan toy_plan"
  by (rule encrypt_plan_no_plaintext [OF toy_encrypt])

lemma decrypt_sealed:
  assumes "\<And>k v b. seal_with s k v = Inr b \<Longrightarrow> open_with s b = Inr v"
    and "sealed s v w" and "\<not> has_prefix v encPrefix"
  shows "crypto_decrypt s w = Inr v"
  using assms by (auto simp: sealed_def crypto_decrypt_def split: if_splits)

lemma decrypt_ref_sealed:
  assumes opens: "\<And>k v b. seal_with s k v = Inr b \<Longrightarrow> open_with s b = Inr v"
    and sealed: "list_all2 (sealed s) (ref_secrets r) (ref_secrets r')" and "blank_ref r' = blank_ref r"
    and plain: "\<forall>v\<in>set (ref_secrets r). \<not> has_prefix v encPrefix"
  shows "decrypt_ref s r' = Inr r"
proof -
  have dec: "list_all2 (\<lambda>v w. crypto_decrypt s w = Inr v) (ref_secrets r) (ref_secrets r')"
    by (rule list.rel_mono_strong [OF sealed]) (rule decrypt_sealed [OF opens], use plain in auto)
  have "\<exists>v. crypto_decrypt s w = Inr v" if "w \<in> set (ref_secrets r')" for w
    using list_all2_right [OF dec, of "\<lambda>w. \<exists>v. crypto_decrypt s w = Inr v"] that by blast
  then have "\<exists>v m. dec s k w = Inr (v, m)" if "w \<in> set (ref_secrets r')" for w k
    using that by (fastforce simp: dec_def bind_res_Inr_iff)
  then obtain r2 m where r2: "transform_ref (dec s) 0 r' = Inr (r2, m)"
    using transform_ref_total by blast
  have rel: "list_all2 (\<lambda>v w. crypto_decrypt s v = Inr w) (ref_secrets r') (ref_secrets r2)"
    "blank_ref r2 = blank_ref r'" using dec_field.transform_ref_rel [OF r2] by blast+
  have "ref_secrets r2 = ref_secrets r"
    using rel(1) dec by (auto simp: list_all2_conv_all_nth intro!: nth_equalityI)
  then have "r2 = r" using ref_eqI [of r2 r] rel(2) assms(3) by simp
  with r2 show ?thesis by (simp add: decrypt_ref_def)
qed

text \<open>
  C7: encryption can be undone: with a sealer whose \<open>open\<close> inverts its \<open>seal\<close> (AES-GCM under
  one key), every reference of an encrypted plan decrypts to exactly the reference the
  plan had, and \<open>VerifyPlanDecryptable\<close> accepts it, provided no plaintext secret itself
  begins with \<open>enc:\<close> (such a value is taken for ciphertext and stored as it is).
\<close>

theorem encrypt_plan_roundtrip:
  assumes opens: "\<And>k v b. seal_with s k v = Inr b \<Longrightarrow> open_with s b = Inr v"
    and plain: "\<forall>v\<in>set (plan_secrets p). \<not> has_prefix v encPrefix"
    and enc: "encrypt_plan s n p = Inr (p', m)"
  shows "map (decrypt_ref s) (plan_refs p') = map Inr (plan_refs p) \<and> verify_plan_decryptable s p' = None"
proof -
  have rel: "list_all2 (\<lambda>r r'. list_all2 (sealed s) (ref_secrets r) (ref_secrets r') \<and> blank_ref r' = blank_ref r)
      (plan_refs p) (plan_refs p')"
    using enc_field.walk.for_each_ref_rel [of s n p p' m] enc by (simp add: encrypt_plan_def encrypt_ref_def)
  have dec: "list_all2 (\<lambda>r r'. decrypt_ref s r' = Inr r) (plan_refs p) (plan_refs p')"
    by (rule list.rel_mono_strong [OF rel])
       (use decrypt_ref_sealed [OF opens] plain in \<open>auto simp: plan_secrets_def\<close>)
  then have "map (decrypt_ref s) (plan_refs p') = map Inr (plan_refs p)"
    by (induction rule: list_all2_induct) auto
  moreover have "\<exists>r'. decrypt_ref s r = Inr r'" if "r \<in> set (plan_refs p')" for r
    using list_all2_right [OF dec, of "\<lambda>r. \<exists>r'. decrypt_ref s r = Inr r'"] that by blast
  then have "for_each_ref (\<lambda>label n ref. labelled label (bind_res (decrypt_ref s ref) (\<lambda>_. Inr (ref, n)))) 0 p' = Inr (p', 0)"
    by (intro for_each_ref_id) (fastforce simp: labelled_Inr_iff bind_res_Inr_iff)
  ultimately show ?thesis by (simp add: verify_plan_decryptable_def)
qed

lemma toy_opens: "seal_with toy_sealer k v = Inr b \<Longrightarrow> open_with toy_sealer b = Inr v"
proof -
  have "CHR ''.'' \<notin> set (nat_digits k)" using nat_digits_digit [of "CHR ''.''" k] by auto
  then have "dropWhile (\<lambda>c. c \<noteq> CHR ''.'') (nat_digits k @ CHR ''.'' # v) = CHR ''.'' # v"
    by (subst dropWhile_append2) auto
  then show "seal_with toy_sealer k v = Inr b \<Longrightarrow> open_with toy_sealer b = Inr v"
    by (auto simp: toy_sealer_def)
qed

theorem encrypt_plan_roundtrip_witness:
  "map (decrypt_ref toy_sealer) (plan_refs toy_sealed) = map Inr (plan_refs toy_plan) \<and>
   verify_plan_decryptable toy_sealer toy_sealed = None"
  by (rule encrypt_plan_roundtrip [OF toy_opens _ toy_encrypt]) (simp_all add: toy_refs)

lemma enc_sealed: "v = [] \<or> has_prefix v encPrefix \<Longrightarrow> enc s n v = Inr (v, n)"
  by (auto simp: enc_def)

text \<open>
  \<open>EncryptPlan\<close> is idempotent: run on a plan it produced, under whatever key and at
  whatever nonce, it returns the plan unchanged and draws no nonce, so a stored plan is
  never resealed.
\<close>

lemma encrypt_plan_idempotent:
  assumes "encrypt_plan s n p = Inr (p', m)"
  shows "encrypt_plan s' k p' = Inr (p', k)"
proof -
  have "v = [] \<or> has_prefix v encPrefix" if "r \<in> set (plan_refs p')" "v \<in> set (ref_secrets r)" for r v
    using encrypt_plan_sealed [OF assms, of v] that by (auto simp: plan_secrets_def)
  then have "labelled l (encrypt_ref s' j r) = Inr (r, j)" if "r \<in> set (plan_refs p')" for l j r
    using that transform_ref_id [of r "enc s'" j] enc_sealed by (simp add: encrypt_ref_def labelled_Inr_iff)
  then show ?thesis unfolding encrypt_plan_def by (rule for_each_ref_id)
qed

lemma encrypt_plan_idempotent_witness:
  "encrypt_plan toy_sealer 7 toy_sealed = Inr (toy_sealed, 7)"
  by (rule encrypt_plan_idempotent [OF toy_encrypt])

text \<open>
  \<open>MaskPlan\<close> always succeeds, replaces every non-empty secret by \<open>***\<close>, keeps the empty
  ones empty and changes nothing else.
\<close>

lemma mask_plan_masks:
  "\<exists>p' m. mask_plan n p = Inr (p', m) \<and>
     plan_secrets p' = map (\<lambda>v. if v = [] then [] else maskedValue) (plan_secrets p) \<and>
     blank_plan p' = blank_plan p"
proof -
  have "\<exists>r' m. labelled l (transform_ref mask_field k r) = Inr (r', m)" for l k r
    using transform_ref_total [of r mask_field k] by (auto simp: mask_field_def labelled_Inr_iff)
  then have "\<exists>p' m. for_each_ref (\<lambda>l n r. labelled l (transform_ref mask_field n r)) n p = Inr (p', m)"
    by (intro for_each_ref_total) blast
  then obtain p' m where p': "for_each_ref (\<lambda>l n r. labelled l (transform_ref mask_field n r)) n p = Inr (p', m)"
    by blast
  from mask.plan_rel [OF this] have "plan_secrets p' = map (\<lambda>v. if v = [] then [] else maskedValue) (plan_secrets p)"
    "blank_plan p' = blank_plan p"
    by (auto simp: list_all2_conv_all_nth intro!: nth_equalityI)
  with p' show ?thesis by (auto simp: mask_plan_def mask_ref_def)
qed

end
