(* ===== verification/DbmsResolve.thy ===== *)
theory DbmsResolve
  imports DbmsLocation ConnSec
begin

text \<open>
  From a stored connection reference to a database endpoint:
  \<open>pkg/core/migration/dbms.go\<close> (\<open>ResolveDBMSLocation\<close> and its converters) and
  \<open>managed_tls.go\<close> (the TLS mode of a managed instance). The two REST clients
  (cm-honeybee, cm-beetle) are the functions of \<open>services\<close>: what they return is the
  answer of a remote service.
\<close>

section \<open>The services a resolution asks\<close>

text \<open>\<open>honeybee.HoneybeeConnConfig\<close>, \<open>beetle.DBConfig\<close>, \<open>beetle.SecureTransport\<close>; a time is in seconds.\<close>

record honeybee_ssh_tunnel =
  hst_Host :: string
  hst_Port :: int
  hst_User :: string
  hst_PrivateKey :: string

record honeybee_config =
  hc_ConnType :: string
  hc_Host :: string
  hc_Port :: int
  hc_User :: string
  hc_PrivateKey :: string
  hc_Endpoint :: string
  hc_AccessKey :: string
  hc_SecretKey :: string
  hc_UseSSL :: bool
  hc_OSTunnel :: "honeybee_ssh_tunnel option"
  hc_ProviderName :: string
  hc_Region :: string
  hc_DBType :: string
  hc_DBHost :: string
  hc_DBPort :: int
  hc_DBUsername :: string
  hc_DBPassword :: string
  hc_Database :: string
  hc_DBTLSMode :: string
  hc_DBTLSCAPEM :: string
  hc_DBAuthSource :: string
  hc_SSHTunnelHost :: string
  hc_SSHTunnelPort :: int
  hc_SSHTunnelUser :: string
  hc_SSHTunnelPrivateKey :: string

record beetle_db_config =
  bd_DBType :: string
  bd_Host :: string
  bd_Port :: int
  bd_Username :: string

record secure_transport =
  sct_RecommendedSSLMode :: string
  sct_RequireSecureTransport :: bool
  sct_CAPEM :: string
  sct_CANotAfter :: "int option"
  sct_CAError :: string

record services =
  sv_sealer :: sealer
  sv_honeybee :: "honeybee_ref \<Rightarrow> string + honeybee_config"
  sv_beetle_access :: "beetle_db_ref \<Rightarrow> string + beetle_db_config"
  sv_secure_transport :: "beetle_db_ref \<Rightarrow> string \<Rightarrow> string + secure_transport"
  sv_beetle_databases :: "beetle_db_ref \<Rightarrow> string + string list"
  sv_driver_databases :: "dbms_location \<Rightarrow> string + string list"
  sv_driver_version :: server_version
  sv_driver_inspect :: "dbms_location \<Rightarrow> string + dbms_info"
  sv_bucket_exists :: "connection_ref \<Rightarrow> string \<Rightarrow> string + bool"
  sv_roots :: tls_roots
  sv_json :: json_object
  sv_now :: int

datatype resolve_error =
    DecryptFailed string
  | RefIsNil string
  | HoneybeeFailed string
  | BeetleFailed string
  | NoEngineReported
  | EngineNotManaged string
  | SSLModeContradiction string string
  | SSLModeUnknown string string
  | TunnelMissing
  | UnsupportedSourceType connection_source

section \<open>Converters\<close>

definition dbms_location_direct :: "string \<Rightarrow> string \<Rightarrow> direct_config \<Rightarrow> dbms_location" where
  "dbms_location_direct dbType database cfg =
     \<lparr>loc_DBMSType = dbType, loc_Database = database, loc_PgSchema = [], loc_ProviderName = [],
      loc_AccessType = AccessTypeDirect, loc_Direct = Some cfg, loc_SSHTunnel = None, loc_Filter = None\<rparr>"

definition dbms_location_ssh_tunnel :: "string \<Rightarrow> string \<Rightarrow> ssh_tunnel_config \<Rightarrow> dbms_location" where
  "dbms_location_ssh_tunnel dbType database tunnel =
     \<lparr>loc_DBMSType = dbType, loc_Database = database, loc_PgSchema = [], loc_ProviderName = [],
      loc_AccessType = AccessTypeSSHTunnel, loc_Direct = None, loc_SSHTunnel = Some tunnel, loc_Filter = None\<rparr>"

definition dbms_location_with_filter :: "dbms_location \<Rightarrow> dbms_rules option \<Rightarrow> dbms_location" where
  "dbms_location_with_filter loc f = loc\<lparr>loc_Filter := f\<rparr>"

definition key_ssh_config :: "string \<Rightarrow> int \<Rightarrow> string \<Rightarrow> string \<Rightarrow> core_ssh_config" where
  "key_ssh_config host port user key =
     \<lparr>cs_Host = host, cs_Port = port, cs_Username = user, cs_Password = [], cs_ConnectTimeout = 0,
      cs_PrivateKey = key, cs_PrivateKeyPath = [], cs_UseAgent = False\<rparr>"

definition db_conn_config_to_location :: "db_conn_config \<Rightarrow> string \<Rightarrow> resolve_error + dbms_location" where
  "db_conn_config_to_location cfg database =
     (if dbc_AccessType cfg = ''sshTunnel'' then
        (case dbc_SSHTunnel cfg of
           None \<Rightarrow> Inl TunnelMissing
         | Some t \<Rightarrow>
             Inr ((dbms_location_ssh_tunnel (dbc_DBMSType cfg) database
                \<lparr>stc_SSH = Some (key_ssh_config (ssh_Host t) (ssh_Port t) (ssh_Username t) (ssh_PrivateKey t)),
                 stc_DBHost = dbc_Host cfg, stc_DBPort = dbc_Port cfg, stc_Username = dbc_Username cfg,
                 stc_Password = dbc_Password cfg, stc_AuthSource = dbc_AuthSource cfg\<rparr>)
              \<lparr>loc_ProviderName := dbc_ProviderName cfg\<rparr>))
      else
        Inr ((dbms_location_direct (dbc_DBMSType cfg) database
           \<lparr>dc_Host = dbc_Host cfg, dc_Port = dbc_Port cfg, dc_Username = dbc_Username cfg,
            dc_Password = dbc_Password cfg, dc_ConnectTimeout = dbc_ConnectTimeout cfg,
            dc_TLSMode = dbc_TLSMode cfg, dc_TLSCAFile = [], dc_TLSCAPEM = dbc_TLSCAPEM cfg,
            dc_AuthSource = dbc_AuthSource cfg\<rparr>)
         \<lparr>loc_ProviderName := dbc_ProviderName cfg\<rparr>))"

definition honeybee_to_location :: "honeybee_config \<Rightarrow> string \<Rightarrow> dbms_location" where
  "honeybee_to_location cfg database =
     (if hc_SSHTunnelHost cfg \<noteq> [] then
        dbms_location_ssh_tunnel (hc_DBType cfg) database
          \<lparr>stc_SSH = Some (key_ssh_config (hc_SSHTunnelHost cfg) (hc_SSHTunnelPort cfg) (hc_SSHTunnelUser cfg)
                                            (hc_SSHTunnelPrivateKey cfg)),
           stc_DBHost = hc_DBHost cfg, stc_DBPort = hc_DBPort cfg, stc_Username = hc_DBUsername cfg,
           stc_Password = hc_DBPassword cfg, stc_AuthSource = hc_DBAuthSource cfg\<rparr>
      else
        dbms_location_direct (hc_DBType cfg) database
          \<lparr>dc_Host = hc_DBHost cfg, dc_Port = hc_DBPort cfg, dc_Username = hc_DBUsername cfg,
           dc_Password = hc_DBPassword cfg, dc_ConnectTimeout = 0, dc_TLSMode = hc_DBTLSMode cfg,
           dc_TLSCAFile = [], dc_TLSCAPEM = hc_DBTLSCAPEM cfg, dc_AuthSource = hc_DBAuthSource cfg\<rparr>)"

text \<open>The item's schema pairs as the two positional lists; the loop keeps \<open>renamed\<close> beside them.\<close>

fun split_pairs :: "pg_schema_mapping list \<Rightarrow> bool \<times> string list \<times> string list" where
  "split_pairs [] = (False, [], [])"
| "split_pairs (p # ps) =
     (let dst = (if pg_DstName p = [] then pg_SrcName p else pg_DstName p);
          (renamed, ss, ds) = split_pairs ps
      in (renamed \<or> dst \<noteq> pg_SrcName p, pg_SrcName p # ss, dst # ds))"

definition split_pg_schemas :: "pg_schema_mapping list \<Rightarrow> string list \<times> string list" where
  "split_pg_schemas ps =
     (if ps = [] then ([], [])
      else (let (renamed, ss, ds) = split_pairs ps in if renamed then (ss, ds) else (ss, [])))"

section \<open>Managed instances\<close>

definition pick :: "string \<Rightarrow> string \<Rightarrow> string" where
  "pick primary fallback = (if primary \<noteq> [] then primary else fallback)"

definition validate_managed_engine :: "string \<Rightarrow> resolve_error option" where
  "validate_managed_engine engine =
     (if to_lower engine = MySQL \<or> to_lower engine = MariaDB then None
      else if to_lower engine = [] then Some NoEngineReported
      else Some (EngineNotManaged engine))"

datatype tls_warning =
    LookupFailed string
  | VerifyWithoutCA string string
  | CAExpired int
  | CAExpiresSoon int
  | NoRecommendation string string
  | UserCAIgnored

record tls_decision =
  td_Mode :: string
  td_CAPEM :: string
  td_Reason :: string
  td_Warns :: "tls_warning list"

abbreviation sslModeDisabled :: string where "sslModeDisabled \<equiv> ''DISABLED''"
abbreviation sslModeVerifyCA :: string where "sslModeVerifyCA \<equiv> ''VERIFY_CA''"
abbreviation sslModeVerifyIdentity :: string where "sslModeVerifyIdentity \<equiv> ''VERIFY_IDENTITY''"
abbreviation tlsModeAuto :: string where "tlsModeAuto \<equiv> ''auto''"
abbreviation caExpiryWarning :: int where "caExpiryWarning \<equiv> 30 * 24 * 3600"

definition ca_expiry_warn :: "int option \<Rightarrow> int \<Rightarrow> tls_warning option" where
  "ca_expiry_warn notAfter now =
     (case notAfter of
        None \<Rightarrow> None
      | Some t \<Rightarrow>
          (if \<not> now < t then Some (CAExpired t)
           else if t - now < caExpiryWarning then Some (CAExpiresSoon t) else None))"

definition warn_list :: "tls_warning option \<Rightarrow> tls_warning list" where
  "warn_list w = (case w of None \<Rightarrow> [] | Some x \<Rightarrow> [x])"

text \<open>The error names the instance; \<open>resolveManagedTLS\<close> adds it, the model carries it throughout.\<close>

definition decide_auto_tls ::
  "string \<Rightarrow> string + secure_transport \<Rightarrow> bool \<Rightarrow> int \<Rightarrow> resolve_error + tls_decision" where
  "decide_auto_tls inst look userCAGiven now =
     bind_res
       (case look of
          Inl err \<Rightarrow> Inr \<lparr>td_Mode = TLSModePrefer, td_CAPEM = [], td_Reason = ''cm-beetle secure-transport lookup failed'',
                          td_Warns = [LookupFailed err]\<rparr>
        | Inr st \<Rightarrow>
            (let r = sct_RecommendedSSLMode st; why = ''cm-beetle recommendedSSLMode='' @ r
             in if r = sslModeVerifyIdentity \<or> r = sslModeVerifyCA then
                  (if sct_CAPEM st = [] then
                     Inr \<lparr>td_Mode = TLSModeRequire, td_CAPEM = [], td_Reason = why,
                          td_Warns = [VerifyWithoutCA why TLSModeRequire]\<rparr>
                   else
                     Inr \<lparr>td_Mode = (if r = sslModeVerifyIdentity then TLSModeVerifyFull else TLSModeVerifyCA),
                          td_CAPEM = sct_CAPEM st, td_Reason = why,
                          td_Warns = warn_list (ca_expiry_warn (sct_CANotAfter st) now)\<rparr>)
                else if r = sslModeDisabled then
                  (if sct_RequireSecureTransport st then Inl (SSLModeContradiction inst r)
                   else Inr \<lparr>td_Mode = TLSModeDisable, td_CAPEM = [], td_Reason = why, td_Warns = []\<rparr>)
                else if r = [] then
                  Inr \<lparr>td_Mode = TLSModePrefer, td_CAPEM = [], td_Reason = ''cm-beetle gave no recommendedSSLMode'',
                       td_Warns = [NoRecommendation (sct_CAError st) TLSModePrefer]\<rparr>
                else Inl (SSLModeUnknown inst r)))
       (\<lambda>d. Inr (if userCAGiven then d\<lparr>td_Warns := td_Warns d @ [UserCAIgnored]\<rparr> else d))"

definition resolve_managed_tls :: "services \<Rightarrow> beetle_db_ref \<Rightarrow> beetle_db_config \<Rightarrow> resolve_error + tls_decision" where
  "resolve_managed_tls sv ref acc =
     (if bdb_TLSMode ref \<noteq> [] \<and> bdb_TLSMode ref \<noteq> tlsModeAuto
      then Inr \<lparr>td_Mode = bdb_TLSMode ref, td_CAPEM = bdb_TLSCAPEM ref, td_Reason = [], td_Warns = []\<rparr>
      else decide_auto_tls (bdb_RdbmsID ref)
             (sv_secure_transport sv ref (pick (bdb_Username ref) (bd_Username acc)))
             (bdb_TLSCAPEM ref \<noteq> []) (sv_now sv))"

definition managed_db_conn_config ::
  "string \<Rightarrow> beetle_db_config \<Rightarrow> beetle_db_ref \<Rightarrow> tls_decision \<Rightarrow> db_conn_config" where
  "managed_db_conn_config engine acc ref tls =
     \<lparr>dbc_ProviderName = [], dbc_DBMSType = engine, dbc_AccessType = ''direct'', dbc_Host = bd_Host acc,
      dbc_Port = bd_Port acc, dbc_Username = pick (bdb_Username ref) (bd_Username acc),
      dbc_Password = bdb_Password ref, dbc_ConnectTimeout = 0, dbc_TLSMode = td_Mode tls,
      dbc_TLSCAPEM = td_CAPEM tls, dbc_AuthSource = [], dbc_SSHTunnel = None\<rparr>"

section \<open>Resolution\<close>

definition resolve_dbms_location ::
  "services \<Rightarrow> connection_ref \<Rightarrow> string \<Rightarrow> string \<Rightarrow> resolve_error + dbms_location" where
  "resolve_dbms_location sv ref0 database dbType =
     bind_res (map_err DecryptFailed (decrypt_ref (sv_sealer sv) ref0)) (\<lambda>ref.
       (case cr_Source ref of
          ConnectionSourceHoneybee \<Rightarrow>
            (case cr_Honeybee ref of
               None \<Rightarrow> Inl (RefIsNil ''honeybee ref is nil'')
             | Some h \<Rightarrow>
                 bind_res (map_err HoneybeeFailed (sv_honeybee sv h)) (\<lambda>cfg.
                   Inr (honeybee_to_location cfg (if database = [] then hc_Database cfg else database))))
        | ConnectionSourceBeetleDB \<Rightarrow>
            (case cr_BeetleDB ref of
               None \<Rightarrow> Inl (RefIsNil ''beetleDb ref is nil'')
             | Some b \<Rightarrow>
                 bind_res (map_err BeetleFailed (sv_beetle_access sv b)) (\<lambda>acc.
                   check (validate_managed_engine (pick dbType (bd_DBType acc)))
                     (bind_res (resolve_managed_tls sv b acc) (\<lambda>tls.
                        db_conn_config_to_location
                          (managed_db_conn_config (pick dbType (bd_DBType acc)) acc b tls) database))))
        | ConnectionSourceDB \<Rightarrow>
            (case cr_DB ref of
               None \<Rightarrow> Inl (RefIsNil ''db config is nil'')
             | Some cfg \<Rightarrow> db_conn_config_to_location cfg database)
        | src \<Rightarrow> Inl (UnsupportedSourceType src)))"

section \<open>The TLS decision\<close>

lemma decide_auto_tls_cases:
  assumes "decide_auto_tls inst look ca now = Inr d"
  obtains err where "look = Inl err" "td_Mode d = TLSModePrefer" "td_CAPEM d = []"
  | st where "look = Inr st" "sct_RecommendedSSLMode st \<in> {sslModeVerifyIdentity, sslModeVerifyCA}"
      "sct_CAPEM st = []" "td_Mode d = TLSModeRequire" "td_CAPEM d = []"
  | st where "look = Inr st" "sct_RecommendedSSLMode st = sslModeVerifyIdentity"
      "sct_CAPEM st \<noteq> []" "td_Mode d = TLSModeVerifyFull" "td_CAPEM d = sct_CAPEM st"
  | st where "look = Inr st" "sct_RecommendedSSLMode st = sslModeVerifyCA"
      "sct_CAPEM st \<noteq> []" "td_Mode d = TLSModeVerifyCA" "td_CAPEM d = sct_CAPEM st"
  | st where "look = Inr st" "sct_RecommendedSSLMode st = sslModeDisabled"
      "\<not> sct_RequireSecureTransport st" "td_Mode d = TLSModeDisable" "td_CAPEM d = []"
  | st where "look = Inr st" "sct_RecommendedSSLMode st = []" "td_Mode d = TLSModePrefer" "td_CAPEM d = []"
  using assms by (cases look) (auto simp: decide_auto_tls_def Let_def res_inv split: if_splits)

text \<open>
  A decided TLS mode is never weaker than the report allows and always usable: plaintext is
  chosen only when cm-beetle recommends it and the server does not require encryption, a
  collected CA is used exactly by the verifying modes, the caller's own CA never stands in
  for it, and the transfer library's TLS validation accepts the resulting MySQL or MariaDB
  endpoint as long as the collected CA loads.
\<close>

lemma decided_tls_is_usable:
  assumes "decide_auto_tls inst look ca now = Inr d"
    and "engine = MySQL \<or> engine = MariaDB"
    and "db_conn_config_to_location (managed_db_conn_config engine acc ref d) database = Inr loc"
    and "\<And>cfg. dc_TLSCAPEM cfg \<noteq> [] \<Longrightarrow> look = Inr st \<Longrightarrow> dc_TLSCAPEM cfg = sct_CAPEM st \<Longrightarrow> dc_TLSCAFile cfg = [] \<Longrightarrow> roots cfg = None"
    and "look = Inr st"
  shows "validate_tls roots side loc = None
    \<and> (td_Mode d = TLSModeDisable \<longleftrightarrow> sct_RecommendedSSLMode st = sslModeDisabled \<and> \<not> sct_RequireSecureTransport st)
    \<and> (td_CAPEM d \<noteq> [] \<longleftrightarrow> tls_mode_verifies (td_Mode d))
    \<and> (td_CAPEM d \<noteq> [] \<longrightarrow> td_CAPEM d = sct_CAPEM st)"
proof -
  have loc: "validate_tls roots side loc =
      base_validate_tls roots side engine
        \<lparr>dc_Host = bd_Host acc, dc_Port = bd_Port acc, dc_Username = pick (bdb_Username ref) (bd_Username acc),
         dc_Password = bdb_Password ref, dc_ConnectTimeout = 0, dc_TLSMode = td_Mode d, dc_TLSCAFile = [],
         dc_TLSCAPEM = td_CAPEM d, dc_AuthSource = []\<rparr>"
    using assms(3) by (auto simp: db_conn_config_to_location_def managed_db_conn_config_def dbms_location_direct_def validate_tls_def)
  show ?thesis
    using assms(1)
  proof (cases rule: decide_auto_tls_cases)
  qed (use assms(2,4,5) in \<open>auto simp: loc base_validate_tls_def tls_mode_of_def tls_mode_verifies_def Let_def\<close>)
qed

definition sample_transport :: secure_transport where
  "sample_transport = \<lparr>sct_RecommendedSSLMode = ''VERIFY_CA'', sct_RequireSecureTransport = True, sct_CAPEM = ''pem'',
     sct_CANotAfter = None, sct_CAError = []\<rparr>"

lemma decided_tls_is_usable_witness:
  "\<exists>d loc. decide_auto_tls ''db1'' (Inr sample_transport) True 0 = Inr d \<and> td_Mode d = TLSModeVerifyCA
     \<and> db_conn_config_to_location (managed_db_conn_config MySQL
           \<lparr>bd_DBType = MySQL, bd_Host = ''h'', bd_Port = 3306, bd_Username = ''admin''\<rparr>
           \<lparr>bdb_NsID = ''ns'', bdb_RdbmsID = ''db1'', bdb_Username = [], bdb_Password = ''p'', bdb_TLSMode = ''auto'', bdb_TLSCAPEM = ''own''\<rparr>
           d) ''shop'' = Inr loc
     \<and> validate_tls (\<lambda>_. None) ''target'' loc = None"
proof -
  let ?acc = "\<lparr>bd_DBType = MySQL, bd_Host = ''h'', bd_Port = 3306, bd_Username = ''admin''\<rparr>"
  let ?ref = "\<lparr>bdb_NsID = ''ns'', bdb_RdbmsID = ''db1'', bdb_Username = [], bdb_Password = ''p'', bdb_TLSMode = ''auto'', bdb_TLSCAPEM = ''own''\<rparr>"
  obtain d where d: "decide_auto_tls ''db1'' (Inr sample_transport) True 0 = Inr d" and m: "td_Mode d = TLSModeVerifyCA"
    by (simp add: decide_auto_tls_def sample_transport_def)
  obtain loc where l: "db_conn_config_to_location (managed_db_conn_config MySQL ?acc ?ref d) ''shop'' = Inr loc"
    by (simp add: db_conn_config_to_location_def managed_db_conn_config_def)
  have "validate_tls (\<lambda>_. None) ''target'' loc = None"
    using decided_tls_is_usable [OF d _ l, of sample_transport "\<lambda>_. None" "''target''"] by simp
  then show ?thesis using d m l by blast
qed

section \<open>Schema pairs\<close>

definition pair_target :: "pg_schema_mapping \<Rightarrow> string" where
  "pair_target p = (if pg_DstName p = [] then pg_SrcName p else pg_DstName p)"

lemma split_pairs_eq:
  "split_pairs ps = ((\<exists>p\<in>set ps. pair_target p \<noteq> pg_SrcName p), map pg_SrcName ps, map pair_target ps)"
  by (induction ps) (auto simp: pair_target_def Let_def)

text \<open>
  The two positional lists an item's schema pairs become send every listed schema to the
  name its own pair gives (its own name when the pair gives none) once the planner turns
  them back into a rename, and to nothing else.
\<close>

lemma schema_pairs_survive_splitting:
  assumes "distinct (map pg_SrcName ps)"
    and "split_pg_schemas ps = (loc_PgSchema (dmm_Source m), loc_PgSchema (dmm_Destination m))"
    and "loc_DBMSType (dmm_Source m) = PostgreSQL" and "p \<in> set ps"
  shows "renamed_schema (pg_schema_rename m) (pg_SrcName p) = (if pg_DstName p = [] then pg_SrcName p else pg_DstName p)"
proof -
  have ss: "loc_PgSchema (dmm_Source m) = map pg_SrcName ps"
    and ds: "loc_PgSchema (dmm_Destination m) = (if \<exists>p\<in>set ps. pair_target p \<noteq> pg_SrcName p then map pair_target ps else [])"
    using assms(2,4) by (auto simp: split_pg_schemas_def split_pairs_eq split: if_splits)
  show ?thesis
  proof (cases "\<exists>p\<in>set ps. pair_target p \<noteq> pg_SrcName p")
    case False
    then show ?thesis using assms(4) by (auto simp: ds pg_schema_rename_def renamed_schema_def pair_target_def)
  next
    case True
    have ren: "map (renamed_schema (pg_schema_rename m)) (map pg_SrcName ps) = map pair_target ps"
      using rename_zip [of "map pg_SrcName ps" "map pair_target ps"] rename_none [of "map pg_SrcName ps" "map pair_target ps"]
        assms(1,3) True by (auto simp: pg_schema_rename_def ss ds Let_def)
    then have "renamed_schema (pg_schema_rename m) (pg_SrcName p) = pair_target p" using assms(4) by simp
    then show ?thesis by (simp add: pair_target_def)
  qed
qed

lemma schema_pairs_survive_splitting_witness:
  "renamed_schema (pg_schema_rename (sample_migration (sample_direct [''a'', ''b'']) (sample_direct [''a'', ''c'']))) ''b'' = ''c''"
  using schema_pairs_survive_splitting
    [of "[\<lparr>pg_SrcName = ''a'', pg_DstName = []\<rparr>, \<lparr>pg_SrcName = ''b'', pg_DstName = ''c''\<rparr>]"
        "sample_migration (sample_direct [''a'', ''b'']) (sample_direct [''a'', ''c''])"
        "\<lparr>pg_SrcName = ''b'', pg_DstName = ''c''\<rparr>"]
  by (simp add: sample_migration_def sample_direct_def split_pg_schemas_def)

section \<open>Sealed references resolve alike\<close>

lemma decrypt_ref_plain:
  "(\<And>v. v \<in> set (ref_secrets r) \<Longrightarrow> \<not> has_prefix v encPrefix) \<Longrightarrow> decrypt_ref s r = Inr r"
  using transform_ref_id [of r "dec s" 0] by (simp add: decrypt_ref_def dec_def crypto_decrypt_def)

lemma decrypt_ref_encrypted:
  assumes "\<And>k v b. seal_with s k v = Inr b \<Longrightarrow> open_with s b = Inr v"
    and "\<forall>v\<in>set (ref_secrets r). \<not> has_prefix v encPrefix"
    and "encrypt_ref s n r = Inr (r', k)"
  shows "decrypt_ref s r' = Inr r"
  using enc_field.transform_ref_rel [OF assms(3) [unfolded encrypt_ref_def]] assms(2)
  by (intro decrypt_ref_sealed [OF assms(1)]) auto

text \<open>
  C12: Sealing a stored reference never changes what it resolves to: a reference resolves to the
  same endpoint, or to the same error, before and after \<open>EncryptRef\<close>, given that unsealing
  inverts sealing and no plaintext secret begins with \<open>enc:\<close>.
\<close>

theorem sealed_ref_resolves_alike:
  assumes "\<And>k v b. seal_with (sv_sealer sv) k v = Inr b \<Longrightarrow> open_with (sv_sealer sv) b = Inr v"
    and "\<forall>v\<in>set (ref_secrets r). \<not> has_prefix v encPrefix"
    and "encrypt_ref (sv_sealer sv) n r = Inr (r', k)"
  shows "resolve_dbms_location sv r' database dbType = resolve_dbms_location sv r database dbType"
  using decrypt_ref_encrypted [OF assms] decrypt_ref_plain [of r "sv_sealer sv"] assms(2)
  by (simp add: resolve_dbms_location_def)

definition sample_services :: services where
  "sample_services = \<lparr>sv_sealer = toy_sealer, sv_honeybee = (\<lambda>_. Inl ''down''), sv_beetle_access = (\<lambda>_. Inl ''down''),
     sv_secure_transport = (\<lambda>_ _. Inl ''down''), sv_beetle_databases = (\<lambda>_. Inl ''down''),
     sv_driver_databases = (\<lambda>_. Inr []), sv_driver_version = (\<lambda>_. Inr ''8.0.36''), sv_driver_inspect = (\<lambda>_. Inl ''down''),
     sv_bucket_exists = (\<lambda>_ _. Inr True), sv_roots = (\<lambda>_. None), sv_json = (\<lambda>_. (True, False)), sv_now = 0\<rparr>"

theorem sealed_ref_resolves_alike_witness:
  "resolve_dbms_location sample_services toy_sealed_ref ''shop'' [] = resolve_dbms_location sample_services toy_db_ref ''shop'' []"
proof (rule sealed_ref_resolves_alike)
  show "seal_with (sv_sealer sample_services) k v = Inr b \<Longrightarrow> open_with (sv_sealer sample_services) b = Inr v" for k v b
    by (simp add: sample_services_def toy_opens)
  show "\<forall>v\<in>set (ref_secrets toy_db_ref). \<not> has_prefix v encPrefix"
    using toy_refs(2) by (simp add: plan_secrets_def toy_refs(1) ref_secrets_def honeybee_conn_def empty_ref_def)
  show "encrypt_ref (sv_sealer sample_services) 0 toy_db_ref = Inr (toy_sealed_ref, 2)"
    by (simp add: sample_services_def encrypt_ref_def transform_ref_def transform_opt_def transform_ssh_def transform_db_def
        toy_db_ref_def empty_ref_def enc_def crypto_encrypt_def toy_sealer_def toy_sealed_ref_def digits_01)
qed

end
