(* ===== verification/PlanRules.thy ===== *)
theory PlanRules
  imports PathFilter PlanEntry PgObjectName DbmsResolve
begin

text \<open>
  The checks of \<open>pkg/core/plan/target.go\<close> that look only at the request: the error class,
  the choice of paths, the rule lists of the three domains, the database selection and
  the source index. Messages are values: the constructor names the message and its
  arguments are what the code formats into it.
\<close>

section \<open>Errors\<close>

datatype data_kind = KindSSH | KindObjectStorage | KindDBMS

datatype plan_msg =
    DBTypeMismatch string string
  | TargetOlder string string
  | NotADBMSTarget connection_source
  | TargetDatabaseMissing string
  | TargetBucketMissing string
  | DstNameRequired string string
  | DstNameNotAbsolute string string
  | DstNameLeadingSlash string string
  | SrcNameRequired string
  | PgSchemasDBMSOnly string
  | SizeBelowInclude
  | IncludeNoEffect string nat
  | RsyncSizeAction string
  | RsyncSizeOp string
  | DBSrcNameRequired
  | DBSrcNameUnknown string
  | DBSrcNameDuplicate string
  | DBDstNameDuplicate string
  | PgSchemasPostgresOnly string string
  | PgSrcNameRequired string
  | PgSrcNameDuplicate string string
  | PgDstNameDuplicate string string
  | ObjectIndexUnknown string string string
  | ObjectUnknown string string string
  | SourceKeyTwice string data_kind data_kind
  | NotForDomain string data_kind
  | FSDstKind data_kind
  | OSDstKind data_kind
  | DBDstKind data_kind
  | SrcNameMatchesNothing string string
  | NoDatabaseSelected
  | SrcConnectionUnknown nat string
  | AtPlan nat plan_msg
  | DuplicateDst dup_destination
  | RootOntoRoot root_to_root_msg

text \<open>
  A \<open>*ValidationError\<close> answers 400, any other error 500. A nil dereference is neither: it
  is a panic of the handler, kept apart so that its absence can be proved.
\<close>

datatype external_msg =
    HoneybeeInfo string
  | HoneybeeConnTypeUnknown string
  | ConnectionSourceUnknown connection_source
  | HoneybeeDBConfig string
  | BeetleDBRefNil
  | BeetleAccessFailed string
  | DBConfigNil
  | NotADBMSType connection_source
  | SourceDBIdentity external_msg
  | TargetDBIdentity external_msg
  | SourceDBLocation resolve_error
  | TargetDBLocation resolve_error
  | DstConnectionType nat external_msg
  | ExtAtPlan nat external_msg

datatype plan_error =
    ValidationError plan_msg
  | ExternalError external_msg
  | NilDereference

text \<open>\<open>wrapEntryErr\<close>; a panic passes through, no error value exists to wrap.\<close>

fun wrap_entry_err :: "nat \<Rightarrow> plan_error \<Rightarrow> plan_error" where
  "wrap_entry_err i (ValidationError m) = ValidationError (AtPlan i m)"
| "wrap_entry_err i (ExternalError s) = ExternalError (ExtAtPlan i s)"
| "wrap_entry_err i NilDereference = NilDereference"

section \<open>Paths\<close>

definition select_migration_path ::
  "string \<Rightarrow> string list \<Rightarrow> target_mapping option \<Rightarrow> (string \<times> string) option" where
  "select_migration_path scanRoot folders tm =
     (case tm of
        None \<Rightarrow> Some (scanRoot, scanRoot)
      | Some m \<Rightarrow>
          (if list_ex (\<lambda>c. c = tm_SrcName m) (scanRoot # folders)
           then Some (tm_SrcName m, if tm_DstName m \<noteq> [] then tm_DstName m else tm_SrcName m)
           else None))"

definition resolve_object_storage_dst_path ::
  "connection_ref \<Rightarrow> target_mapping option \<Rightarrow> string \<Rightarrow> string" where
  "resolve_object_storage_dst_path dst tm dstPath =
     (if cr_Source dst \<noteq> ConnectionSourceBeetleObjectStorage then dstPath
      else (case cr_BeetleOS dst of
              None \<Rightarrow> dstPath
            | Some os \<Rightarrow>
                (if (case tm of None \<Rightarrow> False | Some m \<Rightarrow> trim_space (tm_DstName m) \<noteq> [])
                 then dstPath else bos_OsID os)))"

definition validate_cross_storage_dst ::
  "string \<Rightarrow> string \<Rightarrow> target_mapping option \<Rightarrow> plan_error option" where
  "validate_cross_storage_dst domain dstStorageType tm =
     (let dst = (case tm of None \<Rightarrow> [] | Some m \<Rightarrow> trim_space (tm_DstName m))
      in if dstStorageType = StorageTypeFilesystem then
           (if dst = [] then Some (ValidationError (DstNameRequired domain dstStorageType))
            else if \<not> has_prefix dst ''/'' then Some (ValidationError (DstNameNotAbsolute domain dst))
            else None)
         else if dstStorageType = StorageTypeObjectStorage then
           (if dst = [] then Some (ValidationError (DstNameRequired domain dstStorageType))
            else if has_prefix dst ''/'' then Some (ValidationError (DstNameLeadingSlash domain dst))
            else None)
         else None)"

definition validate_storage_mapping :: "string \<Rightarrow> target_mapping option \<Rightarrow> plan_error option" where
  "validate_storage_mapping domain tm =
     (case tm of
        None \<Rightarrow> None
      | Some m \<Rightarrow>
          (if trim_space (tm_SrcName m) = [] then Some (ValidationError (SrcNameRequired domain))
           else if tm_PgSchemas m \<noteq> [] then Some (ValidationError (PgSchemasDBMSOnly domain))
           else None))"

section \<open>Path rules\<close>

fun size_gate_ordering :: "bool \<Rightarrow> path_filter_rule list \<Rightarrow> plan_error option" where
  "size_gate_ordering seenInclude [] = None"
| "size_gate_ordering seenInclude (r # rs) =
     (if pfr_Action r = FilterActionInclude then size_gate_ordering True rs
      else if seenInclude \<and> pfr_Type r = PathRuleSize then Some (ValidationError SizeBelowInclude)
      else size_gate_ordering seenInclude rs)"

definition validate_size_gate_ordering :: "path_filter_rule list \<Rightarrow> plan_error option" where
  "validate_size_gate_ordering rules = size_gate_ordering False rules"

text \<open>The position after the last exclude: the code's \<open>lastExclude + 1\<close>, 0 when there is none.\<close>

fun after_last_exclude :: "nat \<Rightarrow> nat \<Rightarrow> path_filter_rule list \<Rightarrow> nat" where
  "after_last_exclude best i [] = best"
| "after_last_exclude best i (r # rs) =
     after_last_exclude (if pfr_Action r = FilterActionExclude then Suc i else best) (Suc i) rs"

definition validate_include_has_effect :: "string \<Rightarrow> path_filter_rule list \<Rightarrow> plan_error option" where
  "validate_include_has_effect domain rules =
     (let k = after_last_exclude 0 0 rules
      in first_err (\<lambda>(i, r).
           if pfr_Action r = FilterActionInclude \<and> k \<le> i
           then Some (ValidationError (IncludeNoEffect domain (i + 1))) else None) (enum 0 rules))"

definition rsync_compatible_rule :: "path_filter_rule \<Rightarrow> plan_error option" where
  "rsync_compatible_rule r =
     (if pfr_Type r \<noteq> ''size'' then None
      else if pfr_Action r \<noteq> ''exclude'' then Some (ValidationError (RsyncSizeAction (pfr_Action r)))
      else if pfr_Op r = ''>'' \<or> pfr_Op r = ''>='' \<or> pfr_Op r = ''<'' \<or> pfr_Op r = ''<='' then None
      else Some (ValidationError (RsyncSizeOp (pfr_Op r))))"

definition validate_rsync_compatible_rules :: "path_filter_rule list \<Rightarrow> plan_error option" where
  "validate_rsync_compatible_rules rules = first_err rsync_compatible_rule rules"

section \<open>Databases\<close>

fun pg_schema_pairs ::
  "string \<Rightarrow> string list \<Rightarrow> string list \<Rightarrow> pg_schema_mapping list \<Rightarrow> plan_error option" where
  "pg_schema_pairs database seenSrc seenDst [] = None"
| "pg_schema_pairs database seenSrc seenDst (p # ps) =
     (let src = trim_space (pg_SrcName p);
          dst0 = trim_space (pg_DstName p);
          dst = (if dst0 = [] then src else dst0)
      in if src = [] then Some (ValidationError (PgSrcNameRequired database))
         else if src \<in> set seenSrc then Some (ValidationError (PgSrcNameDuplicate src database))
         else if dst \<in> set seenDst then Some (ValidationError (PgDstNameDuplicate dst database))
         else pg_schema_pairs database (src # seenSrc) (dst # seenDst) ps)"

definition validate_pg_schemas :: "string \<Rightarrow> string \<Rightarrow> pg_schema_mapping list \<Rightarrow> plan_error option" where
  "validate_pg_schemas dbType database pairs =
     (if pairs = [] then None
      else if dbType \<noteq> DBMSTypePostgreSQL then Some (ValidationError (PgSchemasPostgresOnly database dbType))
      else pg_schema_pairs database [] [] pairs)"

text \<open>The loop over \<open>filter.Databases\<close>, \<open>order\<close> being \<open>len(out) + 1\<close>.\<close>

fun select_databases ::
  "string list \<Rightarrow> string \<Rightarrow> nat \<Rightarrow> string list \<Rightarrow> string list \<Rightarrow> dbms_filter_entry list \<Rightarrow>
   plan_error + db_migration_info list" where
  "select_databases available dbType order seenSrc seenDst [] = Inr []"
| "select_databases available dbType order seenSrc seenDst (e # es) =
     (let srcName = trim_space (tm_SrcName (dfe_TargetMapping e));
          dst0 = trim_space (tm_DstName (dfe_TargetMapping e));
          dstName = (if dst0 = [] then srcName else dst0)
      in if srcName = [] then Inl (ValidationError DBSrcNameRequired)
         else if srcName \<notin> set available then Inl (ValidationError (DBSrcNameUnknown srcName))
         else if srcName \<in> set seenSrc then Inl (ValidationError (DBSrcNameDuplicate srcName))
         else if dstName \<in> set seenDst then Inl (ValidationError (DBDstNameDuplicate dstName))
         else check (validate_pg_schemas dbType srcName (tm_PgSchemas (dfe_TargetMapping e)))
           (bind_res (select_databases available dbType (Suc order) (srcName # seenSrc) (dstName # seenDst) es)
             (\<lambda>out. Inr (\<lparr>dmi_Order = order, dmi_SrcName = srcName, dmi_DstName = dstName,
                         dmi_PgSchemas = tm_PgSchemas (dfe_TargetMapping e), dmi_Rules = dfe_Rules e\<rparr> # out))))"

definition build_db_migration_infos ::
  "string list \<Rightarrow> string \<Rightarrow> dbms_filter option \<Rightarrow> plan_error + db_migration_info list" where
  "build_db_migration_infos available dbType f =
     (case f of
        Some g \<Rightarrow>
          (if df_Databases g = []
           then Inr (map (\<lambda>(i, n). \<lparr>dmi_Order = i + 1, dmi_SrcName = n, dmi_DstName = n, dmi_PgSchemas = [], dmi_Rules = []\<rparr>)
                       (enum 0 available))
           else select_databases available dbType 1 [] [] (df_Databases g))
      | None \<Rightarrow>
          Inr (map (\<lambda>(i, n). \<lparr>dmi_Order = i + 1, dmi_SrcName = n, dmi_DstName = n, dmi_PgSchemas = [], dmi_Rules = []\<rparr>)
                 (enum 0 available)))"

text \<open>The \<open>lists\<close> map of \<open>validateObjectRules\<close>: outer \<open>None\<close> for a kind it lacks, inner for a nil list.\<close>

definition inventory :: "dbms_info \<Rightarrow> string \<Rightarrow> string list option option" where
  "inventory info kind =
     map_of [(''view'', dbi_Views info), (''function'', dbi_Functions info), (''procedure'', dbi_Procedures info),
             (''trigger'', dbi_Triggers info), (''event'', dbi_Events info), (''foreign_key'', dbi_ForeignKeys info),
             (''materialized_view'', dbi_MaterializedViews info), (''sequence'', dbi_Sequences info),
             (''type'', dbi_Types info), (''extension'', dbi_Extensions info), (''rule'', dbi_Rules info),
             (''validator'', dbi_Validators info)] kind"

text \<open>\<open>sourceHasIndex\<close> as the pair \<open>(found, collected)\<close>.\<close>

fun has_index_in :: "bool \<Rightarrow> db_table_info list \<Rightarrow> string \<Rightarrow> string \<Rightarrow> bool \<times> bool" where
  "has_index_in collected [] table name = (False, collected)"
| "has_index_in collected (t # ts) table name =
     (let collected' = (collected \<or> tab_Indexes t \<noteq> None)
      in if table \<noteq> [] \<and> table \<noteq> tab_Name t \<and> table \<noteq> tab_PgSchema t @ ''.'' @ tab_Name t
         then has_index_in collected' ts table name
         else if list_ex (\<lambda>i. idx_Name i = name) (case tab_Indexes t of None \<Rightarrow> [] | Some is \<Rightarrow> is)
         then (True, True)
         else has_index_in collected' ts table name)"

definition source_has_index :: "dbms_info \<Rightarrow> string \<Rightarrow> string \<Rightarrow> bool \<times> bool" where
  "source_has_index info table name = has_index_in False (dbi_Tables info) table name"

definition object_rule :: "string \<Rightarrow> dbms_info \<Rightarrow> dbms_filter_rule \<Rightarrow> plan_error option" where
  "object_rule dbType info r =
     (if dfr_Type r \<noteq> DBMSRuleObjectExclude \<or> dfr_Name r = [] then None
      else if dfr_Kind r = ''index'' then
        (let (found, collected) = source_has_index info (dfr_Table r) (dfr_Name r)
         in if collected \<and> \<not> found
            then Some (ValidationError (ObjectIndexUnknown (dfr_Name r) (dfr_Table r) (dbi_Database info))) else None)
      else (case inventory info (dfr_Kind r) of
              Some (Some names) \<Rightarrow>
                (if list_ex (\<lambda>n. object_name_matches dbType (dfr_Kind r) (dfr_Name r) n) names then None
                 else Some (ValidationError (ObjectUnknown (dfr_Kind r) (dfr_Name r) (dbi_Database info))))
            | _ \<Rightarrow> None))"

definition validate_object_rules :: "string \<Rightarrow> dbms_info \<Rightarrow> dbms_filter_rule list \<Rightarrow> plan_error option" where
  "validate_object_rules dbType info rules = first_err (object_rule dbType info) rules"

section \<open>The source index\<close>

record source_entry =
  se_kind :: data_kind
  se_fs :: "source_file_system_model option"
  se_os :: "source_object_storage_model option"
  se_db :: "source_db_model option"

fun add_sources ::
  "(string \<rightharpoonup> source_entry) \<Rightarrow> (string \<times> source_entry) list \<Rightarrow> plan_error + (string \<rightharpoonup> source_entry)" where
  "add_sources index [] = Inr index"
| "add_sources index ((key, e) # es) =
     (case index key of
        Some prev \<Rightarrow> Inl (ValidationError (SourceKeyTwice key (se_kind prev) (se_kind e)))
      | None \<Rightarrow> add_sources (index(key \<mapsto> e)) es)"

definition source_entries :: "source_data_migration_property \<Rightarrow> (string \<times> source_entry) list" where
  "source_entries src =
     map (\<lambda>e. (src_conn_key (sfs_Connection e), \<lparr>se_kind = KindSSH, se_fs = Some e, se_os = None, se_db = None\<rparr>))
       (sdm_FileSystems src)
     @ map (\<lambda>e. (src_conn_key (sos_Connection e), \<lparr>se_kind = KindObjectStorage, se_fs = None, se_os = Some e, se_db = None\<rparr>))
       (sdm_ObjectStorages src)
     @ map (\<lambda>e. (src_conn_key (sdb_Connection e), \<lparr>se_kind = KindDBMS, se_fs = None, se_os = None, se_db = Some e\<rparr>))
       (sdm_Databases src)"

definition index_source :: "source_data_migration_property \<Rightarrow> plan_error + (string \<rightharpoonup> source_entry)" where
  "index_source src = add_sources Map.empty (source_entries src)"

definition given_fields :: "plan_entry \<Rightarrow> (string \<times> bool) list" where
  "given_fields e =
     [(''fileSystemFilter'', pe_FileSystemFilter e \<noteq> None), (''objectStorageFilter'', pe_ObjectStorageFilter e \<noteq> None),
      (''dbmsFilter'', pe_DBMSFilter e \<noteq> None), (''fileSystemStrategy'', pe_FileSystemStrategy e \<noteq> []),
      (''objectStorageStrategy'', pe_ObjectStorageStrategy e \<noteq> [])]"

fun allowed_fields :: "data_kind \<Rightarrow> string list" where
  "allowed_fields KindSSH = [''fileSystemFilter'', ''fileSystemStrategy'']"
| "allowed_fields KindObjectStorage = [''objectStorageFilter'', ''objectStorageStrategy'']"
| "allowed_fields KindDBMS = [''dbmsFilter'']"

text \<open>The message, or \<open>None\<close> for the empty string.\<close>

definition validate_entry_domain :: "data_kind \<Rightarrow> plan_entry \<Rightarrow> plan_msg option" where
  "validate_entry_domain kind e =
     first_err (\<lambda>(name, given). if given \<and> name \<notin> set (allowed_fields kind)
                              then Some (NotForDomain name kind) else None) (given_fields e)"

section \<open>Facts about the rule checks\<close>

lemma unmarshal_rules_list_all2:
  "unmarshal_rules rs = Inr frs \<longleftrightarrow> list_all2 (\<lambda>r f. rule_unmarshal r = Inr f) rs frs"
  by (induction rs arbitrary: frs) (auto simp: bind_res_Inr_iff list_all2_Cons1)

lemma rule_unmarshal_shape:
  assumes "rule_unmarshal r = Inr f"
  shows "fr_Action f = pfr_Action r" "pfr_Action r = ActionInclude \<or> pfr_Action r = ActionExclude"
    "is_glob_rule f \<longleftrightarrow> pfr_Type r \<noteq> PathRuleSize"
    "fr_Matcher f = Some (SizeMatcher op v) \<Longrightarrow> v = pfr_Value r"
  using assms
  by (auto simp: rule_unmarshal_def bind_res_Inr_iff new_glob_matcher_def new_size_matcher_def is_glob_rule_def
      split: if_splits)

lemma sizes_first_decoded:
  "list_all2 (\<lambda>r f. rule_unmarshal r = Inr f) rs frs \<Longrightarrow>
   sizes_first seen frs \<longleftrightarrow> size_gate_ordering seen rs = None"
proof (induction rs arbitrary: seen frs)
  case (Cons r rs)
  then obtain f fs where f: "frs = f # fs" "rule_unmarshal r = Inr f" "list_all2 (\<lambda>r f. rule_unmarshal r = Inr f) rs fs"
    by (auto simp: list_all2_Cons1)
  show ?case using Cons.IH [OF f(3)] rule_unmarshal_shape(1,3) [OF f(2)] f(1) by auto
qed auto

lemma gate_safe_decoded:
  assumes "list_all2 (\<lambda>r f. rule_unmarshal r = Inr f) rs frs"
    and "\<forall>r\<in>set rs. - (2 ^ 63) \<le> pfr_Value r \<and> pfr_Value r < max_int64" and "f \<in> set frs"
  shows "gate_safe f"
proof -
  obtain i where "i < length frs" "f = frs ! i" using assms(3) by (auto simp: in_set_conv_nth)
  then have "rs ! i \<in> set rs" "rule_unmarshal (rs ! i) = Inr f"
    using assms(1) by (auto simp: list_all2_conv_all_nth)
  then show ?thesis using assms(2) rule_unmarshal_shape(4) by (auto simp: gate_safe_def)
qed

lemma accepted_rules_gate:
  assumes "validate_size_gate_ordering rules = None"
    and dec: "to_data_mig_filter rules = Inr opt" and args: "rsync_filter_args opt = Inr args"
    and "\<forall>r\<in>set rules. - (2 ^ 63) \<le> pfr_Value r \<and> pfr_Value r < max_int64"
    and isfile: "\<not> it_IsDir it" "it_Path it \<noteq> []"
  shows "option_match rx opt it \<longleftrightarrow>
     match_rules rx (directory_rules opt) it \<and> passes_every_gate args (it_Size it)"
proof (cases opt)
  case None
  then show ?thesis using args
    by (auto simp: option_match_def rsync_filter_args_def directory_rules_def effective_rules_def)
next
  case (Some o1)
  obtain frs where u: "unmarshal_rules rules = Inr frs" using to_data_mig_filter_Inr [OF dec] by blast
  then have l: "list_all2 (\<lambda>r f. rule_unmarshal r = Inr f) rules frs" by (simp add: unmarshal_rules_list_all2)
  have eff: "effective_rules opt = with_dir_pass frs" by (rule effective_decoded [OF dec u])
  have "rules_rsync_args (with_dir_pass frs) = Inr args" using args Some eff by (simp add: rsync_filter_args_def)
  then obtain args' where args': "rules_rsync_args frs = Inr args'"
    "passes_every_gate args' (it_Size it) = passes_every_gate args (it_Size it)" using with_dir_pass_rsync by blast
  have "sizes_first False frs" using sizes_first_decoded [OF l] assms(1) by (simp add: validate_size_gate_ordering_def)
  moreover have "\<forall>f\<in>set frs. gate_safe f" using gate_safe_decoded [OF l assms(4)] by blast
  ultimately have "match_rules rx frs it \<longleftrightarrow> match_rules rx (filter is_glob_rule frs) it \<and> passes_every_gate args' (it_Size it)"
    by (rule in_order_is_gated [OF args'(1)])
  then show ?thesis
    using Some isfile eff args'(2) with_dir_pass_file [OF isfile(1), of rx frs] with_dir_pass_globs_file [OF isfile(1), of rx frs]
    by (simp add: option_match_def directory_rules_def)
qed


definition keep_small_go :: "path_filter_rule list" where
  "keep_small_go =
     [\<lparr>pfr_Action = ''exclude'', pfr_Type = ''size'', pfr_Pattern = [], pfr_Op = ''>='', pfr_Value = 100\<rparr>,
      \<lparr>pfr_Action = ''include'', pfr_Type = ''glob'', pfr_Pattern = ''*.go'', pfr_Op = [], pfr_Value = 0\<rparr>,
      \<lparr>pfr_Action = ''exclude'', pfr_Type = ''glob'', pfr_Pattern = ''*'', pfr_Op = [], pfr_Value = 0\<rparr>]"

definition keep_small_go_opt :: filter_option where
  "keep_small_go_opt = \<lparr>fo_Rules = [\<lparr>fr_Action = ''exclude'', fr_Matcher = Some (SizeMatcher ''>='' 100)\<rparr>,
     glob_rule ActionInclude ''*.go'', glob_rule ActionExclude ''*''], fo_Include = [], fo_Exclude = [], fo_MaxDepth = 0\<rparr>"

lemma keep_small_go_decoded: "to_data_mig_filter keep_small_go = Inr (Some keep_small_go_opt)"
  by (simp add: to_data_mig_filter_def keep_small_go_def keep_small_go_opt_def rule_unmarshal_def new_glob_matcher_def
      new_size_matcher_def glob_rule_def)


text \<open>
  Two bounds of one direction are not combined by rsync: with files above 50 and above 100 bytes
  excluded, a file of 75 bytes is excluded by the matcher and carried by rsync.
\<close>

lemma later_size_flag_wins:
  "size_rsync_args ''>'' 50 ActionExclude = Inr [''--max-size='' @ itoa 50] \<and> size_rsync_args ''>'' 100 ActionExclude = Inr [''--max-size='' @ itoa 100]
   \<and> \<not> passes_every_gate [''--max-size='' @ itoa 50, ''--max-size='' @ itoa 100] 75
   \<and> rsync_keeps_size [''--max-size='' @ itoa 50, ''--max-size='' @ itoa 100] 75"
proof -
  have "rsync_keeps_size [''--max-size='' @ itoa 50, ''--max-size='' @ itoa 100] 75"
    by (auto simp: rsync_keeps_size_def size_flags_def dest!: itoa_inj)
  moreover have "\<not> passes_every_gate [''--max-size='' @ itoa 50, ''--max-size='' @ itoa 100] 75"
    unfolding passes_every_gate_def by (auto intro!: exI [of _ 50])
  ultimately show ?thesis by (simp add: size_rsync_args_def)
qed

lemma after_last_exclude_spec:
  "best \<le> i \<Longrightarrow>
   (\<forall>j<length rs. pfr_Action (rs ! j) = FilterActionExclude \<longrightarrow> i + j < after_last_exclude best i rs) \<and>
   (after_last_exclude best i rs = best \<or>
     (\<exists>j<length rs. pfr_Action (rs ! j) = FilterActionExclude \<and> after_last_exclude best i rs = Suc (i + j))) \<and>
   best \<le> after_last_exclude best i rs"
proof (induction best i rs rule: after_last_exclude.induct)
  case (2 best i r rs)
  let ?b = "if pfr_Action r = FilterActionExclude then Suc i else best"
  have le: "?b \<le> Suc i" using 2(2) by auto
  note IH = 2(1) [OF le]
  have 1: "i + j < after_last_exclude ?b (Suc i) rs"
    if "j < length (r # rs)" "pfr_Action ((r # rs) ! j) = FilterActionExclude" for j
    using IH that by (cases j) auto
  have 2: "after_last_exclude ?b (Suc i) rs = best \<or>
      (\<exists>j<length (r # rs). pfr_Action ((r # rs) ! j) = FilterActionExclude \<and> after_last_exclude ?b (Suc i) rs = Suc (i + j))"
    using IH
  proof (elim conjE disjE exE)
    assume "after_last_exclude ?b (Suc i) rs = ?b"
    then show ?thesis by (cases "pfr_Action r = FilterActionExclude") (auto intro!: exI [of _ 0])
  next
    fix j assume "j < length rs" "pfr_Action (rs ! j) = FilterActionExclude" "after_last_exclude ?b (Suc i) rs = Suc (Suc i + j)"
    then show ?thesis by (intro disjI2 exI [of _ "Suc j"]) auto
  qed
  have "best \<le> after_last_exclude ?b (Suc i) rs" using IH "2.prems" by (auto split: if_splits)
  with 1 2 show ?case by simp
qed simp

lemma below_last_exclude:
  "after_last_exclude 0 0 rs \<le> i \<longleftrightarrow> (\<forall>j<length rs. i \<le> j \<longrightarrow> pfr_Action (rs ! j) \<noteq> FilterActionExclude)"
proof -
  have s: "\<forall>j<length rs. pfr_Action (rs ! j) = FilterActionExclude \<longrightarrow> j < after_last_exclude 0 0 rs"
    "after_last_exclude 0 0 rs = 0 \<or>
     (\<exists>j<length rs. pfr_Action (rs ! j) = FilterActionExclude \<and> after_last_exclude 0 0 rs = Suc j)"
    using after_last_exclude_spec [of 0 0 rs] by simp_all
  show ?thesis
  proof
    assume le: "after_last_exclude 0 0 rs \<le> i"
    show "\<forall>j<length rs. i \<le> j \<longrightarrow> pfr_Action (rs ! j) \<noteq> FilterActionExclude"
    proof (intro allI impI notI)
      fix j assume "j < length rs" "i \<le> j" "pfr_Action (rs ! j) = FilterActionExclude"
      then have "j < after_last_exclude 0 0 rs" using s(1) by blast
      with le \<open>i \<le> j\<close> show False by simp
    qed
  next
    assume a: "\<forall>j<length rs. i \<le> j \<longrightarrow> pfr_Action (rs ! j) \<noteq> FilterActionExclude"
    show "after_last_exclude 0 0 rs \<le> i"
      using s(2)
    proof (elim disjE exE conjE)
      fix j assume j: "j < length rs" "pfr_Action (rs ! j) = FilterActionExclude" "after_last_exclude 0 0 rs = Suc j"
      have "\<not> i \<le> j"
      proof
        assume "i \<le> j"
        with a j(1) have "pfr_Action (rs ! j) \<noteq> FilterActionExclude" by simp
        with j(2) show False by contradiction
      qed
      with j(3) show ?thesis by simp
    qed simp
  qed
qed

lemma include_no_effect_position:
  assumes "validate_include_has_effect d rules = Some e"
  shows "\<exists>i<length rules. e = ValidationError (IncludeNoEffect d (i + 1)) \<and>
     pfr_Action (rules ! i) = FilterActionInclude \<and>
     (\<forall>j<length rules. i \<le> j \<longrightarrow> pfr_Action (rules ! j) \<noteq> FilterActionExclude)"
proof -
  from first_err_Some [OF assms [unfolded validate_include_has_effect_def Let_def]]
  obtain i r where "(i, r) \<in> set (enum 0 rules)" "pfr_Action r = FilterActionInclude"
    "after_last_exclude 0 0 rules \<le> i" "e = ValidationError (IncludeNoEffect d (i + 1))"
    by (auto split: if_splits)
  then show ?thesis using below_last_exclude [of rules i] by (auto simp: mem_enum)
qed

lemma match_rules_includes: "\<forall>r\<in>set bs. fr_Action r = ActionInclude \<Longrightarrow> match_rules rx bs it"
  by (induction bs) auto

text \<open>
  the include rule \<open>validateIncludeHasEffect\<close> rejects really has none: the list with that
  rule deleted gives every file the verdict the whole list gives it.
\<close>

lemma rejected_include_is_removable:
  assumes rej: "validate_include_has_effect d rules = Some (ValidationError (IncludeNoEffect d' pos))"
    and o1: "to_data_mig_filter rules = Inr o1"
    and o2: "to_data_mig_filter (take (pos - 1) rules @ drop pos rules) = Inr o2"
    and isfile: "\<not> it_IsDir it"
  shows "option_match rx o1 it = option_match rx o2 it"
proof -
  obtain i where i: "i < length rules" "pos = i + 1"
    and tail: "\<forall>j<length rules. i \<le> j \<longrightarrow> pfr_Action (rules ! j) \<noteq> FilterActionExclude"
    using include_no_effect_position [OF rej] by auto
  let ?rules' = "take i rules @ drop (Suc i) rules"
  have o2': "to_data_mig_filter ?rules' = Inr o2" using o2 i(2) by simp
  obtain f1 where u1: "unmarshal_rules rules = Inr f1" using to_data_mig_filter_Inr [OF o1] by blast
  then have l1: "list_all2 (\<lambda>r f. rule_unmarshal r = Inr f) rules f1" by (simp add: unmarshal_rules_list_all2)
  then have len: "length f1 = length rules" using list_all2_lengthD by fastforce
  have "list_all2 (\<lambda>r f. rule_unmarshal r = Inr f) ?rules' (take i f1 @ drop (Suc i) f1)"
    using l1 by (intro list_all2_appendI list_all2_takeI list_all2_dropI)
  then have u2: "unmarshal_rules ?rules' = Inr (take i f1 @ drop (Suc i) f1)" by (simp add: unmarshal_rules_list_all2)
  have incl: "fr_Action f = ActionInclude" if "f \<in> set (drop i f1)" for f
  proof -
    from that obtain j where j: "i \<le> j" "j < length f1" "f = f1 ! j"
      by (auto simp: in_set_conv_nth) (metis add.commute le_add2 less_diff_conv)
    then have "rule_unmarshal (rules ! j) = Inr f" using l1 len by (simp add: list_all2_conv_all_nth)
    then show ?thesis using rule_unmarshal_shape(1,2) [of "rules ! j" f] tail j len by auto
  qed
  have rest: "match_rules rx (drop i f1) it" "match_rules rx (drop (Suc i) f1) it"
    using incl set_drop_subset_set_drop [of i "Suc i" f1] by (auto intro!: match_rules_includes)
  have "match_rules rx f1 it = match_rules rx (take i f1 @ drop (Suc i) f1) it"
    using match_rules_append [of rx "take i f1" "drop i f1" it] match_rules_append [of rx "take i f1" "drop (Suc i) f1" it] rest
    by simp
  moreover have "effective_rules o1 = with_dir_pass f1" by (rule effective_decoded [OF o1 u1])
  moreover have "effective_rules o2 = with_dir_pass (take i f1 @ drop (Suc i) f1)" by (rule effective_decoded [OF o2' u2])
  ultimately have eq: "match_rules rx (effective_rules o1) it = match_rules rx (effective_rules o2) it"
    by (simp add: with_dir_pass_file [OF isfile])
  have none: "match_rules rx (effective_rules None) it" by (simp add: effective_rules_def)
  show ?thesis using eq none by (auto simp: option_match_def)
qed

definition late_include :: "path_filter_rule list" where
  "late_include = [\<lparr>pfr_Action = ''exclude'', pfr_Type = ''glob'', pfr_Pattern = ''*.log'', pfr_Op = [], pfr_Value = 0\<rparr>,
     \<lparr>pfr_Action = ''include'', pfr_Type = ''glob'', pfr_Pattern = ''*.go'', pfr_Op = [], pfr_Value = 0\<rparr>]"

definition opt_of :: "filter_rule list \<Rightarrow> filter_option option" where
  "opt_of rs = Some \<lparr>fo_Rules = rs, fo_Include = [], fo_Exclude = [], fo_MaxDepth = 0\<rparr>"

lemma rejected_include_is_removable_witness:
  "option_match (\<lambda>_ _. False) (opt_of [glob_rule ActionExclude ''*.log'', glob_rule ActionInclude ''*.go'']) go_file =
   option_match (\<lambda>_ _. False) (opt_of [glob_rule ActionExclude ''*.log'']) go_file"
  by (rule rejected_include_is_removable [of "''f''" late_include "''f''" 2])
     (simp_all add: late_include_def opt_of_def glob_rule_def validate_include_has_effect_def to_data_mig_filter_def
        rule_unmarshal_def new_glob_matcher_def go_file_def mk_item_def numeral_2_eq_2)

text \<open>
  \<open>validateIncludeHasEffect\<close> accepts a rule list exactly when below each include rule
  there still is an exclude rule.
\<close>

lemma include_has_effect_iff:
  "validate_include_has_effect d rules = None \<longleftrightarrow>
     (\<forall>i<length rules. pfr_Action (rules ! i) = FilterActionInclude \<longrightarrow>
        (\<exists>j<length rules. i < j \<and> pfr_Action (rules ! j) = FilterActionExclude))"
proof -
  have "validate_include_has_effect d rules = None \<longleftrightarrow>
     (\<forall>i<length rules. pfr_Action (rules ! i) = FilterActionInclude \<longrightarrow> \<not> after_last_exclude 0 0 rules \<le> i)"
    by (simp add: validate_include_has_effect_def Let_def ball_enum) blast
  also have "\<dots> \<longleftrightarrow> (\<forall>i<length rules. pfr_Action (rules ! i) = FilterActionInclude \<longrightarrow>
        (\<exists>j<length rules. i \<le> j \<and> pfr_Action (rules ! j) = FilterActionExclude))"
    by (simp add: below_last_exclude)
  also have "\<dots> \<longleftrightarrow> (\<forall>i<length rules. pfr_Action (rules ! i) = FilterActionInclude \<longrightarrow>
        (\<exists>j<length rules. i < j \<and> pfr_Action (rules ! j) = FilterActionExclude))"
  proof -
    have "i \<le> j \<and> pfr_Action (rules ! j) = FilterActionExclude \<longleftrightarrow> i < j \<and> pfr_Action (rules ! j) = FilterActionExclude"
      if "pfr_Action (rules ! i) = FilterActionInclude" for i j using that by (cases "i = j") auto
    then show ?thesis by simp
  qed
  finally show ?thesis .
qed

lemma include_has_effect_iff_witness:
  "validate_include_has_effect ''f'' keep_small_go = None"
  using include_has_effect_iff [of "''f''" keep_small_go]
  by (simp add: keep_small_go_def validate_include_has_effect_def)

section \<open>Facts about the selection and the index\<close>

text \<open>What a database selection that succeeds looks like.\<close>

definition selection_ok :: "string list \<Rightarrow> string list \<Rightarrow> string list \<Rightarrow> nat \<Rightarrow> db_migration_info list \<Rightarrow> bool" where
  "selection_ok available seenSrc seenDst order out \<longleftrightarrow>
     distinct (map dmi_SrcName out) \<and> distinct (map dmi_DstName out) \<and>
     list_all (\<lambda>d. dmi_SrcName d \<in> set available \<and> dmi_SrcName d \<notin> set seenSrc \<and> dmi_SrcName d \<noteq> [] \<and>
                   dmi_DstName d \<notin> set seenDst \<and> dmi_DstName d \<noteq> []) out \<and>
     map dmi_Order out = [order..<order + length out]"

lemma select_databases_ok:
  "select_databases available dbType order seenSrc seenDst es = Inr out \<Longrightarrow>
   selection_ok available seenSrc seenDst order out \<and> length out = length es \<and>
   list_all2 (\<lambda>e d. dmi_SrcName d = trim_space (tm_SrcName (dfe_TargetMapping e)) \<and> dmi_Rules d = dfe_Rules e \<and>
      validate_pg_schemas dbType (dmi_SrcName d) (dmi_PgSchemas d) = None) es out"
proof (induction es arbitrary: order seenSrc seenDst out)
  case (Cons e es)
  let ?src = "trim_space (tm_SrcName (dfe_TargetMapping e))"
  let ?dst = "if trim_space (tm_DstName (dfe_TargetMapping e)) = [] then ?src else trim_space (tm_DstName (dfe_TargetMapping e))"
  from Cons.prems obtain out' where o: "?src \<noteq> []" "?src \<in> set available" "?src \<notin> set seenSrc" "?dst \<notin> set seenDst"
    "validate_pg_schemas dbType ?src (tm_PgSchemas (dfe_TargetMapping e)) = None"
    "select_databases available dbType (Suc order) (?src # seenSrc) (?dst # seenDst) es = Inr out'"
    "out = \<lparr>dmi_Order = order, dmi_SrcName = ?src, dmi_DstName = ?dst,
            dmi_PgSchemas = tm_PgSchemas (dfe_TargetMapping e), dmi_Rules = dfe_Rules e\<rparr> # out'"
    by (simp only: select_databases.simps Let_def) (auto simp: check_Inr_iff bind_res_Inr_iff split: if_splits)
  from Cons.IH [OF o(6)] have IH: "selection_ok available (?src # seenSrc) (?dst # seenDst) (Suc order) out'"
    "length out' = length es" and l: "list_all2 (\<lambda>e d. dmi_SrcName d = trim_space (tm_SrcName (dfe_TargetMapping e)) \<and>
      dmi_Rules d = dfe_Rules e \<and> validate_pg_schemas dbType (dmi_SrcName d) (dmi_PgSchemas d) = None) es out'" by blast+
  have "?dst \<noteq> []" using o(1) by auto
  moreover have "?src \<notin> dmi_SrcName ` set out'" "?dst \<notin> dmi_DstName ` set out'"
    using IH(1) by (auto simp: selection_ok_def list_all_iff)
  moreover have "order # [Suc order..<Suc order + length out'] = [order..<order + Suc (length out')]"
    by (simp add: upt_conv_Cons del: upt_Suc)
  ultimately show ?case
    using IH o(1-5,7) l by (simp add: selection_ok_def list_all_iff del: upt_Suc)
qed (auto simp: selection_ok_def)

text \<open>
  C10: a database filter the plan accepts is a selection without merging: one item per
  filter entry, numbered from 1, each naming a database the source holds, no source
  database twice and no target database twice, and the schema pairs of each item valid
  for the engine.
\<close>

theorem database_selection_never_merges:
  assumes "build_db_migration_infos available dbType (Some f) = Inr out" and "df_Databases f \<noteq> []"
  shows "length out = length (df_Databases f) \<and> map dmi_Order out = [1..<Suc (length out)] \<and>
     distinct (map dmi_SrcName out) \<and> distinct (map dmi_DstName out) \<and>
     list_all (\<lambda>d. dmi_SrcName d \<in> set available \<and> dmi_DstName d \<noteq> [] \<and>
                   validate_pg_schemas dbType (dmi_SrcName d) (dmi_PgSchemas d) = None) out"
proof -
  have "select_databases available dbType 1 [] [] (df_Databases f) = Inr out"
    using assms by (simp add: build_db_migration_infos_def)
  note sel = select_databases_ok [OF this]
  note ok = sel [THEN conjunct1] and len = sel [THEN conjunct2, THEN conjunct1]
    and items = sel [THEN conjunct2, THEN conjunct2]
  have "validate_pg_schemas dbType (dmi_SrcName d) (dmi_PgSchemas d) = None" if d: "d \<in> set out" for d
  proof -
    obtain i where "i < length out" "out ! i = d" using d by (auto simp: in_set_conv_nth)
    then show ?thesis using list_all2_nthD2 [OF items, of i, THEN conjunct2, THEN conjunct2] by simp
  qed
  with ok len show ?thesis by (simp add: selection_ok_def list_all_iff)
qed

definition shop_entry :: dbms_filter_entry where
  "shop_entry = \<lparr>dfe_TargetMapping = \<lparr>tm_SrcName = ''shop'', tm_DstName = ''shop2'', tm_PgSchemas = []\<rparr>, dfe_Rules = []\<rparr>"

definition shop_item :: db_migration_info where
  "shop_item = \<lparr>dmi_Order = 1, dmi_SrcName = ''shop'', dmi_DstName = ''shop2'', dmi_PgSchemas = [], dmi_Rules = []\<rparr>"

theorem database_selection_never_merges_witness: "distinct (map dmi_DstName [shop_item])"
proof -
  have p: "trim_space ''shop'' = ''shop''" "trim_space ''shop2'' = ''shop2''"
    by (rule trim_space_printable; simp add: printable_def)+
  have "build_db_migration_infos [''hr'', ''shop''] ''mysql'' (Some \<lparr>df_Databases = [shop_entry]\<rparr>) = Inr [shop_item]"
    by (simp add: build_db_migration_infos_def shop_entry_def shop_item_def p validate_pg_schemas_def)
  from database_selection_never_merges [OF this] show ?thesis by simp
qed

lemma add_sources_Inr:
  "add_sources index es = Inr idx \<Longrightarrow>
   distinct (map fst es) \<and> (\<forall>k\<in>set (map fst es). index k = None) \<and>
   (\<forall>k. idx k = (case map_of es k of Some e \<Rightarrow> Some e | None \<Rightarrow> index k))"
proof (induction es arbitrary: index)
  case (Cons p es)
  obtain key e where p: "p = (key, e)" by fastforce
  with Cons.prems have n: "index key = None" "add_sources (index(key \<mapsto> e)) es = Inr idx"
    by (auto split: option.splits)
  from Cons.IH [OF n(2)] have IH: "distinct (map fst es)" "\<forall>k\<in>set (map fst es). (index(key \<mapsto> e)) k = None"
    "\<forall>k. idx k = (case map_of es k of Some e \<Rightarrow> Some e | None \<Rightarrow> (index(key \<mapsto> e)) k)" by blast+
  have "key \<notin> set (map fst es)" using IH(2) by (metis fun_upd_same option.distinct(1))
  moreover from this have "map_of es key = None" by (simp add: map_of_eq_None_iff)
  ultimately show ?case using n(1) p IH by (auto split: option.splits if_splits)
qed simp

lemma source_entries_kinds:
  "(k, e) \<in> set (source_entries src) \<Longrightarrow>
   (se_kind e = KindSSH \<and> (\<exists>x. se_fs e = Some x \<and> x \<in> set (sdm_FileSystems src) \<and> k = src_conn_key (sfs_Connection x))) \<or>
   (se_kind e = KindObjectStorage \<and> (\<exists>x. se_os e = Some x \<and> x \<in> set (sdm_ObjectStorages src) \<and> k = src_conn_key (sos_Connection x))) \<or>
   (se_kind e = KindDBMS \<and> (\<exists>x. se_db e = Some x \<and> x \<in> set (sdm_Databases src) \<and> k = src_conn_key (sdb_Connection x)))"
  by (auto simp: source_entries_def)

lemma index_source_sound:
  assumes "index_source src = Inr idx" and "idx k = Some e"
  shows "(k, e) \<in> set (source_entries src)"
  using add_sources_Inr [OF assms(1) [unfolded index_source_def]] assms(2)
  by (auto dest: map_of_SomeD split: option.splits)

text \<open>
  the source index is built exactly when no two entries of the source model, of
  whatever domain, carry the same connection id, and then a lookup returns precisely the
  entry with that id, with the pointer its kind announces.
\<close>

lemma index_source_correct:
  "(is_ok (index_source src) \<longleftrightarrow> distinct (map fst (source_entries src))) \<and>
   (index_source src = Inr idx \<longrightarrow> idx = map_of (source_entries src))"
proof
  have "is_ok (add_sources index es) \<longleftrightarrow> distinct (map fst es) \<and> (\<forall>k\<in>set (map fst es). index k = None)" for index es
  proof (induction es arbitrary: index)
    case (Cons p es)
    obtain key e where p: "p = (key, e)" by fastforce
    show ?case
    proof (cases "index key")
      case None
      have "(\<forall>k\<in>set (map fst es). (index(key \<mapsto> e)) k = None) \<longleftrightarrow>
          key \<notin> set (map fst es) \<and> (\<forall>k\<in>set (map fst es). index k = None)"
        by auto
      with None Cons.IH [of "index(key \<mapsto> e)"] p show ?thesis by (simp del: fun_upd_apply) blast
    qed (use p in simp)
  qed simp
  then show "is_ok (index_source src) \<longleftrightarrow> distinct (map fst (source_entries src))"
    by (simp add: index_source_def)
  show "index_source src = Inr idx \<longrightarrow> idx = map_of (source_entries src)"
    using add_sources_Inr [of Map.empty "source_entries src" idx]
    by (auto simp: index_source_def fun_eq_iff split: option.splits)
qed

definition one_fs_source :: source_data_migration_property where
  "one_fs_source = \<lparr>sdm_FileSystems = [\<lparr>sfs_Connection = honeybee_conn ''c1'', sfs_FSInfo =
      \<lparr>fsi_Path = ''/data'', fsi_IsMount = False, fsi_TotalSize = None, fsi_FileCount = None,
       fsi_ExtensionCounts = [], fsi_Folders = []\<rparr>\<rparr>], sdm_ObjectStorages = [], sdm_Databases = []\<rparr>"

lemma index_source_correct_witness:
  "is_ok (index_source one_fs_source)"
  using index_source_correct [of one_fs_source "\<lambda>_. None"] by (simp add: one_fs_source_def source_entries_def)

end
