(* ===== verification/DbmsDdl.thy ===== *)
theory DbmsDdl
  imports DbmsResolve
begin

text \<open>
  Creating and dropping a database through the transfer library:
  \<open>data-mig/dbmsx/driver/base/database.go\<close> (system databases),
  \<open>database_ddl.go\<close> (the options and their validation) and the public calls
  \<open>ListDatabases\<close>, \<open>CreateDatabase\<close>, \<open>DropDatabase\<close>, \<open>Inspect\<close> of
  \<open>data-mig/dbmsx/dbmsx.go\<close>. What the engine answers to the statement is a parameter.
\<close>

section \<open>System databases\<close>

definition system_databases :: "string \<Rightarrow> string list" where
  "system_databases t =
     (if t = MySQL \<or> t = MariaDB then [''information_schema'', ''mysql'', ''performance_schema'', ''sys'']
      else if t = PostgreSQL then [''postgres'', ''template0'', ''template1'']
      else if t = MongoDB then [''admin'', ''config'', ''local''] else [])"

definition managed_databases :: "string \<Rightarrow> string list" where
  "managed_databases t =
     (if t = MySQL \<or> t = MariaDB then [''innodb'', ''rdsadmin'']
      else if t = PostgreSQL then [''azure_maintenance'', ''azure_sys'', ''cloudsqladmin'', ''rdsadmin''] else [])"

definition is_system_database :: "string \<Rightarrow> string \<Rightarrow> bool" where
  "is_system_database t name \<longleftrightarrow> name \<in> set (system_databases t) \<or> name \<in> set (managed_databases t)"

section \<open>Options\<close>

record mysql_create_option =
  myo_CharacterSet :: string
  myo_Collate :: string

record mariadb_create_option =
  mao_CharacterSet :: string
  mao_Collate :: string

record postgresql_create_option =
  pgo_Owner :: string
  pgo_Encoding :: string
  pgo_LcCollate :: string
  pgo_LcCtype :: string
  pgo_Template :: string
  pgo_Locale :: string
  pgo_LocaleProvider :: string
  pgo_IcuLocale :: string

record mongodb_collation =
  mgc_Locale :: string
  mgc_Strength :: int
  mgc_CaseLevel :: bool
  mgc_NumericOrdering :: bool

record mongodb_create_option =
  mgo_Collection :: string
  mgo_Collation :: "mongodb_collation option"

record create_database_option =
  cdo_IfNotExists :: bool
  cdo_MySQL :: "mysql_create_option option"
  cdo_MariaDB :: "mariadb_create_option option"
  cdo_PostgreSQL :: "postgresql_create_option option"
  cdo_MongoDB :: "mongodb_create_option option"

record postgresql_drop_option =
  pdo_Force :: bool

record drop_database_option =
  ddo_IfExists :: bool
  ddo_RequireEmpty :: bool
  ddo_PostgreSQL :: "postgresql_drop_option option"

definition no_create_option :: create_database_option where
  "no_create_option = \<lparr>cdo_IfNotExists = False, cdo_MySQL = None, cdo_MariaDB = None, cdo_PostgreSQL = None, cdo_MongoDB = None\<rparr>"

datatype option_error =
    BadToken string string
  | BadOwnerOrTemplate
  | LocaleAmbiguous
  | BadLocaleProvider string
  | IcuWithoutProvider
  | TemplateRequired
  | BadCollection string
  | CollationLocaleRequired
  | BadCollationLocale string
  | BadCollationStrength int

definition ident_char :: "char \<Rightarrow> bool" where
  "ident_char c =
     (let b = byte_of c
      in (97 \<le> b \<and> b \<le> 122) \<or> (65 \<le> b \<and> b \<le> 90) \<or> (48 \<le> b \<and> b \<le> 57)
         \<or> c = CHR ''_'' \<or> c = CHR ''-'' \<or> c = CHR ''.'')"

definition ident_token_allowed :: "string \<Rightarrow> bool" where
  "ident_token_allowed s \<longleftrightarrow> list_all ident_char s \<and> s \<noteq> []"

definition option_token :: "string \<Rightarrow> string \<Rightarrow> option_error option" where
  "option_token field v = (if v = [] \<or> ident_token_allowed v then None else Some (BadToken field v))"

text \<open>The getters read a nil option, or a nil part of it, as the zero value.\<close>

definition mysql_create_opt :: "create_database_option option \<Rightarrow> mysql_create_option" where
  "mysql_create_opt opt = (case opt of None \<Rightarrow> \<lparr>myo_CharacterSet = [], myo_Collate = []\<rparr>
     | Some o' \<Rightarrow> (case cdo_MySQL o' of None \<Rightarrow> \<lparr>myo_CharacterSet = [], myo_Collate = []\<rparr> | Some x \<Rightarrow> x))"

definition mariadb_create_opt :: "create_database_option option \<Rightarrow> mariadb_create_option" where
  "mariadb_create_opt opt = (case opt of None \<Rightarrow> \<lparr>mao_CharacterSet = [], mao_Collate = []\<rparr>
     | Some o' \<Rightarrow> (case cdo_MariaDB o' of None \<Rightarrow> \<lparr>mao_CharacterSet = [], mao_Collate = []\<rparr> | Some x \<Rightarrow> x))"

definition no_pg_option :: postgresql_create_option where
  "no_pg_option = \<lparr>pgo_Owner = [], pgo_Encoding = [], pgo_LcCollate = [], pgo_LcCtype = [], pgo_Template = [],
     pgo_Locale = [], pgo_LocaleProvider = [], pgo_IcuLocale = []\<rparr>"

definition postgresql_create_opt :: "create_database_option option \<Rightarrow> postgresql_create_option" where
  "postgresql_create_opt opt = (case opt of None \<Rightarrow> no_pg_option
     | Some o' \<Rightarrow> (case cdo_PostgreSQL o' of None \<Rightarrow> no_pg_option | Some x \<Rightarrow> x))"

definition mongodb_create_opt :: "create_database_option option \<Rightarrow> mongodb_create_option" where
  "mongodb_create_opt opt = (case opt of None \<Rightarrow> \<lparr>mgo_Collection = [], mgo_Collation = None\<rparr>
     | Some o' \<Rightarrow> (case cdo_MongoDB o' of None \<Rightarrow> \<lparr>mgo_Collection = [], mgo_Collation = None\<rparr> | Some x \<Rightarrow> x))"

definition has_line_break_or_quote :: "string \<Rightarrow> bool" where
  "has_line_break_or_quote s \<longleftrightarrow> dquote \<in> set s \<or> CHR 0x00 \<in> set s \<or> CHR 0x0A \<in> set s \<or> CHR 0x0D \<in> set s"

definition validate_pg_option :: "postgresql_create_option \<Rightarrow> option_error option" where
  "validate_pg_option p =
     check_err (option_token ''encoding'' (pgo_Encoding p))
     (check_err (option_token ''lcCollate'' (pgo_LcCollate p))
     (check_err (option_token ''lcCtype'' (pgo_LcCtype p))
     (check_err (option_token ''locale'' (pgo_Locale p))
     (check_err (option_token ''icuLocale'' (pgo_IcuLocale p))
       (if has_line_break_or_quote (pgo_Owner p @ pgo_Template p) then Some BadOwnerOrTemplate
        else if pgo_Locale p \<noteq> [] \<and> (pgo_LcCollate p \<noteq> [] \<or> pgo_LcCtype p \<noteq> []) then Some LocaleAmbiguous
        else if pgo_LocaleProvider p \<noteq> [] \<and> pgo_LocaleProvider p \<noteq> ''libc'' \<and> pgo_LocaleProvider p \<noteq> ''icu''
        then Some (BadLocaleProvider (pgo_LocaleProvider p))
        else if pgo_IcuLocale p \<noteq> [] \<and> pgo_LocaleProvider p \<noteq> ''icu'' then Some IcuWithoutProvider
        else if (pgo_Encoding p \<noteq> [] \<or> pgo_LcCollate p \<noteq> [] \<or> pgo_LcCtype p \<noteq> [] \<or> pgo_Locale p \<noteq> []
                 \<or> pgo_LocaleProvider p \<noteq> [] \<or> pgo_IcuLocale p \<noteq> []) \<and> pgo_Template p = []
        then Some TemplateRequired else None)))))"

definition validate_mongo_option :: "mongodb_create_option \<Rightarrow> option_error option" where
  "validate_mongo_option m =
     (if mgo_Collection m \<noteq> [] \<and>
         (CHR 0x00 \<in> set (mgo_Collection m) \<or> CHR ''$'' \<in> set (mgo_Collection m) \<or> has_prefix (mgo_Collection m) ''system.'')
      then Some (BadCollection (mgo_Collection m))
      else (case mgo_Collation m of
              None \<Rightarrow> None
            | Some c \<Rightarrow>
                (if mgc_Locale c = [] then Some CollationLocaleRequired
                 else if \<not> ident_token_allowed (mgc_Locale c) then Some (BadCollationLocale (mgc_Locale c))
                 else if mgc_Strength c < 0 \<or> mgc_Strength c > 5 then Some (BadCollationStrength (mgc_Strength c))
                 else None)))"

definition validate_create_option :: "string \<Rightarrow> create_database_option option \<Rightarrow> option_error option" where
  "validate_create_option t opt =
     (if t = MySQL then
        check_err (option_token ''characterSet'' (myo_CharacterSet (mysql_create_opt opt)))
          (option_token ''collate'' (myo_Collate (mysql_create_opt opt)))
      else if t = MariaDB then
        check_err (option_token ''characterSet'' (mao_CharacterSet (mariadb_create_opt opt)))
          (option_token ''collate'' (mao_Collate (mariadb_create_opt opt)))
      else if t = PostgreSQL then validate_pg_option (postgresql_create_opt opt)
      else if t = MongoDB then validate_mongo_option (mongodb_create_opt opt)
      else None)"

section \<open>The public calls\<close>

text \<open>
  A call either fails before it reaches the server or sends one statement; the statement and
  its answer are returned beside the result, so that what reached a server can be told from
  what was refused.
\<close>

datatype ddl_call =
    DriverCreate dbms_location create_database_option
  | DriverDrop dbms_location drop_database_option
  | BeetleCreate beetle_db_ref string string string
  | BeetleDrop beetle_db_ref string

datatype ddl_error =
    DdlInvalid dbms_error
  | DdlSystemDatabase string string string
  | DdlOption option_error
  | DdlServer string

type_synonym ddl_answers = "ddl_call \<Rightarrow> string option"
type_synonym ddl_trace = "(ddl_call \<times> string option) list"

definition send_ddl :: "ddl_answers \<Rightarrow> ddl_call \<Rightarrow> ddl_trace \<times> ddl_error option" where
  "send_ddl ans c = ([(c, ans c)], map_option DdlServer (ans c))"

definition datamig_list_databases :: "services \<Rightarrow> dbms_location \<Rightarrow> dbms_error + string list" where
  "datamig_list_databases sv loc =
     check (validate_server_location (sv_roots sv) ''source'' loc)
       (check (new_db_driver (loc_DBMSType loc)) (map_err ServiceFailed (sv_driver_databases sv loc)))"

definition datamig_inspect :: "services \<Rightarrow> dbms_location \<Rightarrow> dbms_error + dbms_info" where
  "datamig_inspect sv loc =
     check (validate_location (sv_roots sv) (sv_json sv) ''source'' loc)
       (check (new_db_driver (loc_DBMSType loc)) (map_err ServiceFailed (sv_driver_inspect sv loc)))"

definition ddl_check ::
  "services \<Rightarrow> string \<Rightarrow> dbms_location \<Rightarrow> ddl_error option" where
  "ddl_check sv operation loc =
     check_err (map_option DdlInvalid (validate_database_location (sv_roots sv) ''target'' loc))
       (if is_system_database (loc_DBMSType loc) (loc_Database loc)
        then Some (DdlSystemDatabase (loc_DBMSType loc) (loc_Database loc) operation) else None)"

definition datamig_create_database ::
  "services \<Rightarrow> ddl_answers \<Rightarrow> dbms_location \<Rightarrow> create_database_option \<Rightarrow> ddl_trace \<times> ddl_error option" where
  "datamig_create_database sv ans loc opt =
     (case check_err (ddl_check sv ''create'' loc)
             (check_err (map_option DdlOption (validate_create_option (loc_DBMSType loc) (Some opt)))
               (map_option DdlInvalid (new_db_driver (loc_DBMSType loc)))) of
        Some e \<Rightarrow> ([], Some e)
      | None \<Rightarrow> send_ddl ans (DriverCreate loc opt))"

definition datamig_drop_database ::
  "services \<Rightarrow> ddl_answers \<Rightarrow> dbms_location \<Rightarrow> drop_database_option \<Rightarrow> ddl_trace \<times> ddl_error option" where
  "datamig_drop_database sv ans loc opt =
     (case check_err (ddl_check sv ''drop'' loc) (map_option DdlInvalid (new_db_driver (loc_DBMSType loc))) of
        Some e \<Rightarrow> ([], Some e)
      | None \<Rightarrow> send_ddl ans (DriverDrop loc opt))"

section \<open>Ownership of the target database\<close>

datatype target_error =
    TargetNilRef string
  | TargetDecrypt string
  | TargetListBeetle string
  | TargetListDriver dbms_error
  | TargetNotOnPrem string string
  | TargetCreate string ddl_error
  | TargetDdl ddl_error
  | TargetSource connection_source

definition target_database_exists :: "services \<Rightarrow> connection_ref \<Rightarrow> dbms_location \<Rightarrow> target_error + bool" where
  "target_database_exists sv dst loc =
     (if cr_Source dst = ConnectionSourceBeetleDB then
        (case cr_BeetleDB dst of
           None \<Rightarrow> Inl (TargetNilRef ''beetleDb ref is nil'')
         | Some _ \<Rightarrow>
             bind_res (map_err TargetDecrypt (decrypt_ref (sv_sealer sv) dst)) (\<lambda>ref.
             bind_res (map_err TargetListBeetle (sv_beetle_databases sv (the (cr_BeetleDB ref)))) (\<lambda>names.
               Inr (loc_Database loc \<in> set names))))
      else
        bind_res (map_err TargetListDriver (datamig_list_databases sv loc)) (\<lambda>names.
          Inr (loc_Database loc \<in> set names)))"

definition create_option_from :: "string \<Rightarrow> dbms_info option \<Rightarrow> create_database_option" where
  "create_option_from t src =
     (case src of
        None \<Rightarrow> no_create_option
      | Some i \<Rightarrow>
          (if t = MySQL then no_create_option\<lparr>cdo_MySQL := Some \<lparr>myo_CharacterSet = dbi_CharacterSet i, myo_Collate = dbi_Collation i\<rparr>\<rparr>
           else if t = MariaDB then no_create_option\<lparr>cdo_MariaDB := Some \<lparr>mao_CharacterSet = dbi_CharacterSet i, mao_Collate = dbi_Collation i\<rparr>\<rparr>
           else if t = PostgreSQL then
             no_create_option\<lparr>cdo_PostgreSQL := Some (no_pg_option\<lparr>pgo_Encoding := dbi_CharacterSet i, pgo_LcCollate := dbi_Collation i,
               pgo_LcCtype := dbi_Ctype i, pgo_Template := ''template0''\<rparr>)\<rparr>
           else no_create_option))"

text \<open>
  The retry with the target's own locale looks for a phrase in the error's text; how an error
  is worded is the parameter \<open>text_of\<close>.
\<close>

definition create_with_retry ::
  "services \<Rightarrow> ddl_answers \<Rightarrow> (ddl_error \<Rightarrow> string) \<Rightarrow> dbms_location \<Rightarrow> create_database_option \<Rightarrow> ddl_trace \<times> ddl_error option" where
  "create_with_retry sv ans text_of loc opt =
     (let (tr, err) = datamig_create_database sv ans loc opt
      in (case (err, cdo_PostgreSQL opt) of
            (Some e, Some pg) \<Rightarrow>
              (if contains (text_of e) ''invalid locale name'' then
                 (let (tr2, err2) = datamig_create_database sv ans loc
                        (opt\<lparr>cdo_PostgreSQL := Some (pg\<lparr>pgo_LcCollate := [], pgo_LcCtype := []\<rparr>)\<rparr>)
                  in (tr @ tr2, err2))
               else (tr, err))
          | _ \<Rightarrow> (tr, err)))"

definition ensure_target_database ::
  "services \<Rightarrow> ddl_answers \<Rightarrow> (ddl_error \<Rightarrow> string) \<Rightarrow> connection_ref \<Rightarrow> dbms_location \<Rightarrow> dbms_info option
     \<Rightarrow> ddl_trace \<times> (target_error + bool)" where
  "ensure_target_database sv ans text_of dst loc srcInfo =
     (case target_database_exists sv dst loc of
        Inl e \<Rightarrow> ([], Inl e)
      | Inr True \<Rightarrow> ([], Inr False)
      | Inr False \<Rightarrow>
          (if loc_DBMSType loc = MongoDB then ([], Inr True)
           else
             (case cr_Source dst of
                ConnectionSourceBeetleDB \<Rightarrow>
                  (case cr_BeetleDB dst of
                     None \<Rightarrow> ([], Inl (TargetNilRef ''beetleDb ref is nil''))
                   | Some _ \<Rightarrow>
                       (case decrypt_ref (sv_sealer sv) dst of
                          Inl e \<Rightarrow> ([], Inl (TargetDecrypt e))
                        | Inr ref \<Rightarrow>
                            (let (tr, err) = send_ddl ans (BeetleCreate (the (cr_BeetleDB ref)) (loc_Database loc)
                                   (case srcInfo of None \<Rightarrow> [] | Some i \<Rightarrow> dbi_CharacterSet i)
                                   (case srcInfo of None \<Rightarrow> [] | Some i \<Rightarrow> dbi_Collation i))
                             in (tr, (case err of Some e \<Rightarrow> Inl (TargetCreate (loc_Database loc) e) | None \<Rightarrow> Inr True)))))
              | ConnectionSourceDB \<Rightarrow>
                  (case cr_DB dst of
                     None \<Rightarrow> ([], Inl (TargetNilRef ''db config is nil''))
                   | Some cfg \<Rightarrow>
                       (if \<not> equal_fold (dbc_ProviderName cfg) ProviderOnPrem
                        then ([], Inl (TargetNotOnPrem (loc_Database loc) (dbc_ProviderName cfg)))
                        else (let (tr, err) = create_with_retry sv ans text_of loc (create_option_from (loc_DBMSType loc) srcInfo)
                              in (tr, (case err of Some e \<Rightarrow> Inl (TargetCreate (loc_Database loc) e) | None \<Rightarrow> Inr True)))))
              | src \<Rightarrow> ([], Inl (TargetSource src)))))"

definition drop_target_database ::
  "services \<Rightarrow> ddl_answers \<Rightarrow> connection_ref \<Rightarrow> dbms_location \<Rightarrow> ddl_trace \<times> target_error option" where
  "drop_target_database sv ans dst loc =
     (case cr_Source dst of
        ConnectionSourceBeetleDB \<Rightarrow>
          (case cr_BeetleDB dst of
             None \<Rightarrow> ([], Some (TargetNilRef ''beetleDb ref is nil''))
           | Some _ \<Rightarrow>
               (case decrypt_ref (sv_sealer sv) dst of
                  Inl e \<Rightarrow> ([], Some (TargetDecrypt e))
                | Inr ref \<Rightarrow>
                    (let (tr, err) = send_ddl ans (BeetleDrop (the (cr_BeetleDB ref)) (loc_Database loc))
                     in (tr, map_option TargetDdl err))))
      | ConnectionSourceDB \<Rightarrow>
          (let (tr, err) = datamig_drop_database sv ans loc \<lparr>ddo_IfExists = True, ddo_RequireEmpty = False, ddo_PostgreSQL = None\<rparr>
           in (tr, map_option TargetDdl err))
      | src \<Rightarrow> ([], Some (TargetSource src)))"

end
