(* ===== verification/ObjectPath.thy ===== *)
theory ObjectPath
  imports GoPath Prelude
begin

text \<open>
  Object keys as paths: \<open>ParseBucketAndKey\<close> (\<open>data-mig/storagex/s3-interface.go\<close>), the
  placement of downloaded objects (\<open>objectpath.go\<close>) and the destination key of a streamed one
  (\<open>streamDstKey\<close> in \<open>executor-s3.go\<close>). Messages are values naming the keys they cite; that
  only ten are shown is left out.
\<close>

section \<open>Keys\<close>

definition parse_bucket_and_key :: "string \<Rightarrow> string \<times> string" where
  "parse_bucket_and_key path =
     (let p = trim_prefix path ''/''
      in case cut_char slash p of None \<Rightarrow> (p, []) | Some (bucket, key) \<Rightarrow> (bucket, key))"

definition key_under_prefix :: "string \<Rightarrow> string \<Rightarrow> bool" where
  "key_under_prefix prefix key =
     (if prefix = [] \<or> has_suffix prefix ''/'' then has_prefix key prefix
      else key = prefix \<or> has_prefix key (prefix @ ''/''))"

record object_path =
  op_Local :: string
  op_Folder :: bool

datatype path_problem =
    KeyLeadsOutside string
  | SameFile string string string
  | FolderIsFile string string string
  | NeedsFolder string string string

text \<open>The part of a key below its prefix; a prefix naming one object leaves the base name.\<close>

definition key_rel :: "string \<Rightarrow> string \<Rightarrow> string" where
  "key_rel prefix key =
     (if key = prefix \<and> \<not> has_suffix prefix ''/'' then path_base key
      else trim_left_char slash (trim_prefix key prefix))"

text \<open>\<open>Inr None\<close> is \<open>ok = false\<close>: the key does not belong to the prefix.\<close>

definition object_local_path :: "string \<Rightarrow> string \<Rightarrow> string \<Rightarrow> path_problem + object_path option" where
  "object_local_path root prefix key =
     (if \<not> key_under_prefix prefix key then Inr None
      else (let rel = key_rel prefix key; clean = path_clean rel
            in if rel = [] then Inr (Some \<lparr>op_Local = root, op_Folder = True\<rparr>)
               else if clean = ''..'' \<or> has_prefix clean ''../'' then Inl (KeyLeadsOutside key)
               else Inr (Some \<lparr>op_Local = path_join2 root clean, op_Folder = has_suffix rel ''/''\<rparr>)))"

section \<open>All keys of a download\<close>

text \<open>
  The first loop: the place of each key (\<open>None\<close> when skipped or refused), the owner of each
  file and the problems met so far.
\<close>

fun place_keys ::
  "string \<Rightarrow> string \<Rightarrow> (string \<rightharpoonup> string) \<Rightarrow> string list \<Rightarrow>
   object_path option list \<times> (string \<rightharpoonup> string) \<times> path_problem list" where
  "place_keys root prefix owner [] = ([], owner, [])"
| "place_keys root prefix owner (key # keys) =
     (case object_local_path root prefix key of
        Inl p \<Rightarrow> (let (ps, own, probs) = place_keys root prefix owner keys in (None # ps, own, p # probs))
      | Inr None \<Rightarrow> (let (ps, own, probs) = place_keys root prefix owner keys in (None # ps, own, probs))
      | Inr (Some p) \<Rightarrow>
          (if op_Folder p then (let (ps, own, probs) = place_keys root prefix owner keys in (Some p # ps, own, probs))
           else (case owner (op_Local p) of
                   Some other \<Rightarrow>
                     (let (ps, own, probs) = place_keys root prefix owner keys
                      in (Some p # ps, own, SameFile other key (op_Local p) # probs))
                 | None \<Rightarrow>
                     (let (ps, own, probs) = place_keys root prefix (owner(op_Local p \<mapsto> key)) keys
                      in (Some p # ps, own, probs)))))"

text \<open>
  The loop \<open>for dir := Dir(p.Local); len(dir) > len(root); dir = Dir(dir)\<close>, stopping at the
  first directory that is a file. It need not end for an empty root, where \<open>.\<close> is its own
  directory; \<open>None\<close> is not returning.
\<close>

partial_function (option) clash_above ::
  "(string \<rightharpoonup> string) \<Rightarrow> string \<Rightarrow> string \<Rightarrow> string \<Rightarrow> path_problem list option" where
  "clash_above owner root key dir =
     (if length dir \<le> length root then Some []
      else (case owner dir of
              Some other \<Rightarrow> Some [NeedsFolder key dir other]
            | None \<Rightarrow> clash_above owner root key (path_dir dir)))"

definition folder_clash :: "(string \<rightharpoonup> string) \<Rightarrow> string \<Rightarrow> string \<Rightarrow> object_path \<Rightarrow> path_problem list" where
  "folder_clash owner root key p =
     (if op_Folder p then
        (case owner (op_Local p) of
           Some other \<Rightarrow> (if op_Local p \<noteq> root then [FolderIsFile key (op_Local p) other] else [])
         | None \<Rightarrow> [])
      else [])"

text \<open>The second loop; \<open>p.Local == ""\<close> skips a place as the skip flag does.\<close>

fun clash_keys ::
  "(string \<rightharpoonup> string) \<Rightarrow> string \<Rightarrow> (string \<times> object_path option) list \<Rightarrow> path_problem list option" where
  "clash_keys owner root [] = Some []"
| "clash_keys owner root ((key, None) # rest) = clash_keys owner root rest"
| "clash_keys owner root ((key, Some p) # rest) =
     (if op_Local p = [] then clash_keys owner root rest
      else (case clash_above owner root key (path_dir (op_Local p)) of
              None \<Rightarrow> None
            | Some c \<Rightarrow> (case clash_keys owner root rest of
                           None \<Rightarrow> None
                         | Some cs \<Rightarrow> Some (folder_clash owner root key p @ c @ cs))))"

definition object_local_paths ::
  "string \<Rightarrow> string \<Rightarrow> string list \<Rightarrow> (path_problem list + object_path option list) option" where
  "object_local_paths root prefix keys =
     (let (ps, owner, probs) = place_keys root prefix Map.empty keys
      in case clash_keys owner root (zip keys ps) of
           None \<Rightarrow> None
         | Some cs \<Rightarrow> Some (if probs @ cs \<noteq> [] then Inl (probs @ cs) else Inr ps))"

section \<open>Streamed objects\<close>

definition stream_dst_key :: "string \<Rightarrow> string \<Rightarrow> string \<Rightarrow> string" where
  "stream_dst_key srcPrefix dstPrefix key =
     (let rel0 = trim_prefix (trim_prefix key srcPrefix) ''/'';
          rel = (if rel0 = [] then path_base key else rel0);
          dst = path_join2 dstPrefix rel
      in if has_suffix rel ''/'' then dst @ ''/'' else dst)"

section \<open>The placement ends\<close>

lemma clash_above_returns_only:
  assumes "clash_above owner root key dir = Some r"
  shows "root \<noteq> [] \<or> dir \<noteq> ''.'' \<or> owner ''.'' \<noteq> None"
proof (rule clash_above.raw_induct [OF _ assms, where P = "\<lambda>owner root key dir r. root \<noteq> [] \<or> dir \<noteq> ''.'' \<or> owner ''.'' \<noteq> None"])
  have dot: "path_dir ''.'' = ''.''" by code_simp
  show "root \<noteq> [] \<or> dir \<noteq> ''.'' \<or> owner ''.'' \<noteq> None"
    if IH: "\<And>owner root key dir r. f owner root key dir = Some r \<Longrightarrow> root \<noteq> [] \<or> dir \<noteq> ''.'' \<or> owner ''.'' \<noteq> None"
      and r: "(if length dir \<le> length root then Some []
           else (case owner dir of Some other \<Rightarrow> Some [NeedsFolder key dir other] | None \<Rightarrow> f owner root key (path_dir dir))) = Some r"
    for f owner root key dir r
  proof (rule ccontr)
    assume "\<not> (root \<noteq> [] \<or> dir \<noteq> ''.'' \<or> owner ''.'' \<noteq> None)"
    then have "root = []" "dir = ''.''" "owner ''.'' = None" by auto
    with r have "f owner [] key ''.'' = Some r" by (simp add: dot)
    with IH \<open>owner ''.'' = None\<close> show False by blast
  qed
qed

lemma clash_above_terminates:
  assumes "root \<noteq> []"
  shows "\<exists>r. clash_above owner root key dir = Some r"
proof (induction "length dir" arbitrary: dir rule: less_induct)
  case less
  show ?case
  proof (cases "length dir \<le> length root")
    case True
    then show ?thesis by (simp add: clash_above.simps)
  next
    case False
    with assms have n: "dir \<noteq> ''.''" "dir \<noteq> ''/''" "dir \<noteq> []" by (cases root; auto)+
    have "\<exists>r. clash_above owner root key (path_dir dir) = Some r"
    proof (cases "path_dir dir = ''.''")
      case True
      with assms show ?thesis by (cases root) (simp_all add: clash_above.simps [of _ _ _ "''.''"])
    next
      case False
      with path_dir_shorter [OF n] less show ?thesis by blast
    qed
    with False show ?thesis by (subst clash_above.simps) (auto split: option.split)
  qed
qed

lemma clash_keys_terminates: "root \<noteq> [] \<Longrightarrow> \<exists>r. clash_keys owner root kps = Some r"
proof (induction owner root kps rule: clash_keys.induct)
  case (3 owner root key p rest)
  show ?case
  proof (cases "op_Local p = []")
    case False
    obtain c where c: "clash_above owner root key (path_dir (op_Local p)) = Some c"
      using clash_above_terminates [OF "3.prems"] by blast
    from "3.IH"(2) [OF False c "3.prems"] show ?thesis using False c by auto
  qed (use 3 in simp)
qed auto

text \<open>
  placing the objects of a download always ends when the destination has a name; only
  the empty one, which validation refuses, lets the walk up from a file turn on the spot
  at \<open>.\<close>.
\<close>

lemma placement_terminates:
  "(root \<noteq> [] \<longrightarrow> (\<exists>r. object_local_paths root prefix keys = Some r)) \<and> object_local_paths [] [] [''a''] = None"
proof
  show "root \<noteq> [] \<longrightarrow> (\<exists>r. object_local_paths root prefix keys = Some r)"
  proof
    assume "root \<noteq> []"
    then obtain c where "clash_keys (fst (snd (place_keys root prefix Map.empty keys))) root
        (zip keys (fst (place_keys root prefix Map.empty keys))) = Some c"
      using clash_keys_terminates by blast
    then show "\<exists>r. object_local_paths root prefix keys = Some r"
      by (auto simp: object_local_paths_def split: prod.splits)
  qed
  have a: "object_local_path [] [] ''a'' = Inr (Some \<lparr>op_Local = ''a'', op_Folder = False\<rparr>)" by code_simp
  have d: "path_dir ''a'' = ''.''" by code_simp
  have "clash_above [''a'' \<mapsto> ''a''] [] ''a'' ''.'' = None"
    using clash_above_returns_only [of "[''a'' \<mapsto> ''a'']" "[]" "''a''" "''.''"] by (cases "clash_above [''a'' \<mapsto> ''a''] [] ''a'' ''.''") auto
  then show "object_local_paths [] [] [''a''] = None"
    by (simp add: object_local_paths_def a d)
qed

lemma placement_terminates_witness:
  "\<exists>r. object_local_paths ''/tmp/relay'' ''data/'' [''data/a'', ''data/a/b''] = Some r"
  using placement_terminates [of "''/tmp/relay''" "''data/''" "[''data/a'', ''data/a/b'']"] by simp

section \<open>Where a key lands\<close>

fun files_of :: "object_path option list \<Rightarrow> string list" where
  "files_of [] = []"
| "files_of (None # ps) = files_of ps"
| "files_of (Some p # ps) = (if op_Folder p then files_of ps else op_Local p # files_of ps)"

lemma files_of_mem: "Some p \<in> set ps \<Longrightarrow> \<not> op_Folder p \<Longrightarrow> op_Local p \<in> set (files_of ps)"
  by (induction ps rule: files_of.induct) auto

lemma place_keys_ok:
  assumes "place_keys root prefix owner keys = (ps, own, [])"
  shows "list_all2 (\<lambda>key p. object_local_path root prefix key = Inr p) keys ps
    \<and> dom own = dom owner \<union> set (files_of ps) \<and> distinct (files_of ps) \<and> dom owner \<inter> set (files_of ps) = {}"
  using assms
proof (induction root prefix owner keys arbitrary: ps own rule: place_keys.induct)
  case (2 root prefix owner key keys)
  show ?case
  proof (cases "object_local_path root prefix key")
    case (Inr r)
    show ?thesis
    proof (cases r)
      case None
      with Inr "2.prems" obtain qs where q: "place_keys root prefix owner keys = (qs, own, [])" "ps = None # qs"
        by (auto split: prod.splits)
      from "2.IH"(2) [OF Inr None q(1)] q(2) Inr None show ?thesis by simp
    next
      case (Some p)
      show ?thesis
      proof (cases "op_Folder p")
        case True
        with Inr Some "2.prems" obtain qs where q: "place_keys root prefix owner keys = (qs, own, [])" "ps = Some p # qs"
          by (auto split: prod.splits)
        from "2.IH"(3) [OF Inr Some True q(1)] q(2) Inr Some True show ?thesis by simp
      next
        case False
        with Inr Some "2.prems" have n: "owner (op_Local p) = None" by (auto split: prod.splits option.splits)
        with False Inr Some "2.prems" obtain qs where
          q: "place_keys root prefix (owner(op_Local p \<mapsto> key)) keys = (qs, own, [])" "ps = Some p # qs"
          by (auto split: prod.splits)
        from "2.IH"(4) [OF Inr Some False n q(1)] q(2) Inr Some False n show ?thesis
          by (auto simp del: fun_upd_apply simp: dom_fun_upd split: if_splits)
      qed
    qed
  qed (use "2.prems" in \<open>auto split: prod.splits\<close>)
qed auto

text \<open>A cleaned path is its root flag and its components; \<open>Dir\<close> takes the last one off.\<close>

lemma path_join2_names:
  assumes "root \<noteq> []" and "path_comps q = ns" and "\<forall>c\<in>set ns. is_name c" and "\<not> rooted q"
  shows "path_comps (path_join2 root (path_clean q)) = path_comps root @ ns"
    and "rooted (path_join2 root (path_clean q)) = rooted root"
proof -
  show "path_comps (path_join2 root (path_clean q)) = path_comps root @ ns"
  proof (cases "ns = []")
    case True
    then have "path_clean q = ''.''" using assms by (simp add: path_clean_def)
    then have "path_comps (root @ slash # path_clean q) = path_comps root"
      using assms(1) by (simp add: path_comps_def split_char_append rooted_append clean_comps_def clean_step_def)
    then show ?thesis using True assms(1) by (simp add: path_join2_def path_comps_clean)
  next
    case False
    then have "path_clean q = join [slash] ns" using assms by (simp add: path_clean_def)
    then show ?thesis using path_comps_join_names [OF assms(1,3) False] assms(1) by (simp add: path_join2_def path_comps_clean)
  qed
  show "rooted (path_join2 root (path_clean q)) = rooted root"
    using assms(1) by (simp add: path_join2_def rooted_clean rooted_append)
qed

lemma inside_names:
  assumes "\<not> rooted q" and "path_clean q \<noteq> ''..''" and "\<not> has_prefix (path_clean q) ''../''"
  shows "\<forall>c\<in>set (path_comps q). is_name c"
proof -
  obtain k ns where s: "path_comps q = replicate k ''..'' @ ns" and ns: "\<forall>c\<in>set ns. is_name c"
    using path_comps_shape by blast
  show ?thesis
  proof (cases k)
    case (Suc j)
    then have "path_clean q = join [slash] (''..'' # replicate j ''..'' @ ns)" using s assms(1) by (simp add: path_clean_def)
    then have "path_clean q = ''..'' \<or> has_prefix (path_clean q) ''../''"
      by (cases "replicate j ''..'' @ ns") auto
    with assms show ?thesis by blast
  qed (use s ns in simp)
qed

lemma trim_left_char_not_rooted: "\<not> rooted (trim_left_char slash s)"
  using trim_left_char_hd [of slash s] by (cases "trim_left_char slash s") auto

lemma key_rel_not_rooted: "\<not> rooted (key_rel prefix key)"
proof (cases "key = prefix \<and> \<not> has_suffix prefix ''/''")
  case True
  have "\<not> rooted (path_base key)"
  proof (cases "key = []")
    case True
    then show ?thesis by (simp add: path_base_def)
  next
    case False
    from True have l: "last key \<noteq> slash"
      using False by (auto simp: has_suffix_iff) (metis append_butlast_last_id)
    have "after_last_slash key \<noteq> []" "slash \<notin> set (after_last_slash key)"
      using l False by (auto simp: after_last_slash_def takeWhile_eq_Nil_iff hd_rev dest: set_takeWhileD)
    then show ?thesis
      using False l by (cases "after_last_slash key") (auto simp: path_base_def)
  qed
  with True show ?thesis by (simp add: key_rel_def)
qed (auto simp: key_rel_def trim_left_char_not_rooted)

lemma object_local_path_inside:
  assumes "object_local_path root prefix key = Inr (Some p)" and "root \<noteq> []"
  obtains ns where "path_comps (op_Local p) = path_comps root @ ns" "rooted (op_Local p) = rooted root"
    "\<forall>c\<in>set ns. is_name c"
proof (cases "key_rel prefix key = []")
  case True
  with assms(1) have "op_Local p = root" by (auto simp: object_local_path_def Let_def split: if_splits)
  then show ?thesis using that [of "[]"] by simp
next
  case False
  with assms(1) have p: "op_Local p = path_join2 root (path_clean (key_rel prefix key))"
    and n: "path_clean (key_rel prefix key) \<noteq> ''..''" "\<not> has_prefix (path_clean (key_rel prefix key)) ''../''"
    by (auto simp: object_local_path_def Let_def split: if_splits)
  have "\<forall>c\<in>set (path_comps (key_rel prefix key)). is_name c"
    by (rule inside_names [OF key_rel_not_rooted n])
  with path_join2_names [OF assms(2) refl this key_rel_not_rooted] that p show ?thesis by metis
qed

section \<open>No file on the way to another place\<close>

definition clean_path :: "string \<Rightarrow> bool" where
  "clean_path p \<longleftrightarrow> path_clean p = p \<and> rooted p"

lemma clean_path_string: "clean_path p \<Longrightarrow> p = slash # join [slash] (path_comps p)"
  by (metis clean_path_def path_clean_def)

lemma clean_path_eqI: "clean_path p \<Longrightarrow> clean_path q \<Longrightarrow> path_comps p = path_comps q \<Longrightarrow> p = q"
  by (metis clean_path_string)

lemma clean_path_clean: "rooted p \<Longrightarrow> clean_path (path_clean p)"
  by (simp add: clean_path_def path_clean_idem rooted_clean)

lemma clean_path_dir:
  assumes "clean_path q" and "path_comps q = cs @ [c]"
  shows "clean_path (path_dir q)" and "path_comps (path_dir q) = cs"
proof -
  have nc: "slash \<notin> set c" using path_comps_no_slash [of c q] assms(2) by simp
  have q: "q = slash # join [slash] (cs @ [c])" using clean_path_string [OF assms(1)] assms(2) by simp
  define a where "a = (if cs = [] then [] else slash # join [slash] cs)"
  have qa: "q = a @ slash # c" using q join_append [of cs "[c]" "[slash]"] by (cases "cs = []") (simp_all add: a_def)
  have d: "path_dir q = path_clean (a @ [slash])" using upto_last_slash_append [OF nc, of a] qa by (simp add: path_dir_def)
  have r: "rooted (a @ [slash])" by (cases a) (auto simp: a_def split: if_splits)
  show "clean_path (path_dir q)" using clean_path_clean [OF r] d by simp
  have names: "\<forall>x\<in>set (cs @ [c]). is_name x"
    using path_comps_shape [of q] assms by (auto simp: clean_path_def)
  show "path_comps (path_dir q) = cs"
  proof (cases "cs = []")
    case True
    then show ?thesis
      by (simp add: d a_def path_comps_clean) (simp add: path_comps_def clean_comps_def clean_step_def)
  next
    case False
    then have "path_comps a = cs"
      using names by (simp add: a_def path_comps_def clean_comps_def clean_step_def split_char_join is_name_def)
         (metis clean_comps_def clean_comps_names is_name_def)
    moreover have "path_clean (a @ [slash]) = path_clean a" by (rule path_clean_trailing) (simp add: a_def False)
    ultimately show ?thesis by (simp add: d path_comps_clean)
  qed
qed

lemma longer_below:
  assumes "clean_path r" "clean_path q" "path_comps q = path_comps r @ ns" "ns \<noteq> []"
  shows "length r < length q"
proof -
  have "\<forall>c\<in>set (path_comps q). is_name c"
    using path_comps_shape [of q] assms(2) by (auto simp: clean_path_def)
  then have n: "join [slash] ns \<noteq> []" using join_names_ends [OF assms(4)] assms(3) by simp
  have r: "r = slash # join [slash] (path_comps r)" by (rule clean_path_string [OF assms(1)])
  have "length (join [slash] (path_comps r)) < length (join [slash] (path_comps r @ ns))"
    using n join_append [of "path_comps r" ns "[slash]"] assms(4) by (cases "path_comps r = []") auto
  then have "length (slash # join [slash] (path_comps r)) < length (slash # join [slash] (path_comps q))"
    using assms(3) by simp
  then show ?thesis using r clean_path_string [OF assms(2)] by metis
qed

text \<open>A walk that meets no file has passed every directory between the root and its start.\<close>

lemma clash_above_Nil:
  assumes "clash_above owner root key d = Some []" and "clean_path root" and "clean_path d"
    and "path_comps d = path_comps root @ ns" and "clean_path e" and "path_comps e = path_comps root @ es"
    and "es \<noteq> []" and "ns = es @ fs"
  shows "owner e = None"
  using assms(1,3,4,8)
proof (induction fs arbitrary: d ns rule: rev_induct)
  case Nil
  then have "d = e" using clean_path_eqI [OF Nil.prems(2) assms(5)] assms(6) by simp
  moreover have "length root < length d" using longer_below [OF assms(2) Nil.prems(2,3)] Nil.prems(4) assms(7) by simp
  ultimately show ?case using Nil.prems(1) by (subst (asm) clash_above.simps) (auto split: if_splits option.splits)
next
  case (snoc f fs)
  have "length root < length d" using longer_below [OF assms(2) snoc.prems(2,3)] snoc.prems(4) by simp
  then have up: "clash_above owner root key (path_dir d) = Some []"
    using snoc.prems(1) by (subst (asm) clash_above.simps) (auto split: if_splits option.splits)
  have "path_comps d = (path_comps root @ es @ fs) @ [f]" using snoc.prems(3,4) by simp
  from clean_path_dir [OF snoc.prems(2) this] show ?case
    by (intro snoc.IH [OF up]) auto
qed

lemma clash_keys_Nil:
  "clash_keys owner root kps = Some [] \<Longrightarrow> (key, Some p) \<in> set kps \<Longrightarrow> op_Local p \<noteq> [] \<Longrightarrow>
     folder_clash owner root key p = [] \<and> clash_above owner root key (path_dir (op_Local p)) = Some []"
  by (induction owner root kps rule: clash_keys.induct) (auto split: option.splits if_splits)

lemma object_local_pathsD:
  assumes "object_local_paths root prefix keys = Some (Inr ps)"
  obtains own where "place_keys root prefix Map.empty keys = (ps, own, [])"
    "clash_keys own root (zip keys ps) = Some []"
  using assms that by (auto simp: object_local_paths_def split: prod.splits option.splits if_splits)

lemma placed_clean:
  assumes "object_local_path root prefix key = Inr (Some p)" and "clean_path root"
  obtains ns where "path_comps (op_Local p) = path_comps root @ ns" "clean_path (op_Local p)" "\<forall>c\<in>set ns. is_name c"
proof -
  have r: "root \<noteq> []" "rooted root" using assms(2) by (auto simp: clean_path_def)
  obtain ns where ns: "path_comps (op_Local p) = path_comps root @ ns" "rooted (op_Local p) = rooted root" "\<forall>c\<in>set ns. is_name c"
    by (rule object_local_path_inside [OF assms(1) r(1)])
  have "op_Local p = root \<or> (\<exists>q. op_Local p = path_clean q)"
    using assms(1) r(1) by (auto simp: object_local_path_def path_join2_def Let_def split: if_splits)
  then have "clean_path (op_Local p)"
    using assms(2) ns(2) r(2) by (auto simp: clean_path_def path_clean_idem)
  with ns that show ?thesis by blast
qed

lemma placed_key:
  assumes "list_all2 (\<lambda>key p. object_local_path root prefix key = Inr p) keys ps" and "Some q \<in> set ps"
  shows "\<exists>key. object_local_path root prefix key = Inr (Some q) \<and> (key, Some q) \<in> set (zip keys ps)"
proof -
  from assms(2) obtain i where i: "i < length ps" "ps ! i = Some q" by (auto simp: in_set_conv_nth)
  with assms(1) have "length keys = length ps" "object_local_path root prefix (keys ! i) = Inr (Some q)"
    by (auto simp: list_all2_conv_all_nth)
  with i show ?thesis by (intro exI [of _ "keys ! i"]) (auto simp: set_zip)
qed

lemma accepted_ancestors:
  assumes own: "place_keys root prefix Map.empty keys = (ps, own, [])" "clash_keys own root (zip keys ps) = Some []"
    and root: "clean_path root" and f: "f \<in> set (files_of ps)" "f \<noteq> root" and p: "Some p \<in> set ps"
  shows "path_comps (op_Local p) \<noteq> path_comps f @ n # ns \<and> (op_Folder p \<longrightarrow> op_Local p \<noteq> f)"
proof -
  note ok = place_keys_ok [OF own(1)]
  have loc: "\<exists>key. object_local_path root prefix key = Inr (Some q) \<and> (key, Some q) \<in> set (zip keys ps)"
    if "Some q \<in> set ps" for q using placed_key [OF conjunct1 [OF ok] that] .
  have "\<exists>q. Some q \<in> set ps \<and> op_Local q = f"
    using f(1) by (induction ps rule: files_of.induct) (auto split: if_splits)
  then obtain q where q: "Some q \<in> set ps" "op_Local q = f" by blast
  from loc [OF q(1)] obtain kq where kq: "object_local_path root prefix kq = Inr (Some q)" by blast
  obtain fs where fs: "path_comps f = path_comps root @ fs" "clean_path f"
    using placed_clean [OF kq root] q(2) by metis
  have "fs \<noteq> []" using fs f(2) clean_path_eqI [OF fs(2) root] by auto
  have owned: "own f \<noteq> None" using ok f(1) by auto
  from loc [OF p] obtain kp where kp: "object_local_path root prefix kp = Inr (Some p)" "(kp, Some p) \<in> set (zip keys ps)" by blast
  obtain xs where xs: "path_comps (op_Local p) = path_comps root @ xs" "clean_path (op_Local p)"
    using placed_clean [OF kp(1) root] by metis
  have "op_Local p \<noteq> []" using xs(2) by (auto simp: clean_path_def)
  note nc = clash_keys_Nil [OF own(2) kp(2) this]
  have "path_comps (op_Local p) \<noteq> path_comps f @ n # ns"
  proof
    assume eq: "path_comps (op_Local p) = path_comps f @ n # ns"
    obtain ms m where ms: "n # ns = ms @ [m]" by (metis list.distinct(1) rev_exhaust)
    have d: "path_comps (op_Local p) = (path_comps root @ fs @ ms) @ [m]" using eq fs(1) ms by simp
    have "own f = None"
      by (rule clash_above_Nil [OF conjunct2 [OF nc] root clean_path_dir(1) [OF xs(2) d] clean_path_dir(2) [OF xs(2) d]
            fs(2,1) \<open>fs \<noteq> []\<close> refl])
    with owned show False ..
  qed
  moreover have "op_Folder p \<longrightarrow> op_Local p \<noteq> f"
    using nc owned f(2) by (auto simp: folder_clash_def split: if_splits option.splits)
  ultimately show ?thesis by blast
qed

text \<open>
  C15: the places of an accepted download are safe to write, for a destination given as a clean
  absolute path: each key is placed or skipped as it belongs to the prefix or not; every place
  lies at or below the destination, reached by plain names only; no two files share a place; and no
  file below the destination directory stands where another place needs a directory. A file at
  the destination directory itself is outside the last claim: the code accepts a key that cleans to
  it beside others (\<open>dot_key_is_a_file_at_the_root\<close>).
\<close>

theorem accepted_places_are_safe:
  assumes ok: "object_local_paths root prefix keys = Some (Inr ps)" and root: "clean_path root"
  shows "list_all2 (\<lambda>key p. p = None \<longleftrightarrow> \<not> key_under_prefix prefix key) keys ps
    \<and> (\<forall>p. Some p \<in> set ps \<longrightarrow>
        (\<exists>ns. op_Local p = slash # join [slash] (path_comps root @ ns) \<and> (\<forall>c\<in>set ns. is_name c)))
    \<and> distinct (files_of ps)
    \<and> (\<forall>f p n ns. f \<in> set (files_of ps) \<and> f \<noteq> root \<and> Some p \<in> set ps \<longrightarrow>
        path_comps (op_Local p) \<noteq> path_comps f @ n # ns \<and> (op_Folder p \<longrightarrow> op_Local p \<noteq> f))"
proof -
  obtain own where own: "place_keys root prefix Map.empty keys = (ps, own, [])" "clash_keys own root (zip keys ps) = Some []"
    by (rule object_local_pathsD [OF ok])
  have pl: "list_all2 (\<lambda>key p. object_local_path root prefix key = Inr p) keys ps" "distinct (files_of ps)"
    using place_keys_ok [OF own(1)] by blast+
  have "list_all2 (\<lambda>key p. p = None \<longleftrightarrow> \<not> key_under_prefix prefix key) keys ps"
    by (rule list.rel_mono_strong [OF pl(1)]) (auto simp: object_local_path_def Let_def split: if_splits)
  moreover have "\<exists>ns. op_Local p = slash # join [slash] (path_comps root @ ns) \<and> (\<forall>c\<in>set ns. is_name c)"
    if mem: "Some p \<in> set ps" for p
  proof -
    obtain key where "object_local_path root prefix key = Inr (Some p)" using placed_key [OF pl(1) mem] by blast
    then show ?thesis using clean_path_string by (elim placed_clean [OF _ root]) metis
  qed
  ultimately show ?thesis using pl(2) accepted_ancestors [OF own root] by blast
qed

lemma sample_places:
  "object_local_paths ''/r'' ''d/'' [''d/a'', ''d/s/b'', ''x''] =
     Some (Inr [Some \<lparr>op_Local = ''/r/a'', op_Folder = False\<rparr>, Some \<lparr>op_Local = ''/r/s/b'', op_Folder = False\<rparr>, None])"
proof -
  have p: "object_local_path ''/r'' ''d/'' ''d/a'' = Inr (Some \<lparr>op_Local = ''/r/a'', op_Folder = False\<rparr>)"
    "object_local_path ''/r'' ''d/'' ''d/s/b'' = Inr (Some \<lparr>op_Local = ''/r/s/b'', op_Folder = False\<rparr>)"
    "object_local_path ''/r'' ''d/'' ''x'' = Inr None"
    by code_simp+
  have d: "path_dir ''/r/a'' = ''/r''" "path_dir ''/r/s/b'' = ''/r/s''" "path_dir ''/r/s'' = ''/r''" by code_simp+
  have r: "clash_above own ''/r'' key ''/r'' = Some []" for own key by (simp add: clash_above.simps)
  have s: "clash_above own ''/r'' key ''/r/s'' = Some []" if "own ''/r/s'' = None" for own key
    using that r by (subst clash_above.simps) (simp add: d)
  show ?thesis by (simp add: object_local_paths_def p d r s folder_clash_def)
qed

theorem accepted_places_are_safe_witness:
  "distinct (files_of [Some \<lparr>op_Local = ''/r/a'', op_Folder = False\<rparr>, Some \<lparr>op_Local = ''/r/s/b'', op_Folder = False\<rparr>, None])"
proof -
  have "path_clean ''/r'' = ''/r''" by code_simp
  then have "clean_path ''/r''" by (simp add: clean_path_def)
  from accepted_places_are_safe [OF sample_places this] show ?thesis by blast
qed

section \<open>Streamed and staged copies\<close>

lemma path_clean_not_Nil: "path_clean p \<noteq> []"
proof (cases "path_comps p")
  case (Cons c cs)
  then have "c \<noteq> []" using path_comps_no_slash [of c p] by simp
  then show ?thesis using Cons by (cases cs) (auto simp: path_clean_def)
qed (simp add: path_clean_def)

lemma has_suffix_slash: "has_suffix s ''/'' \<longleftrightarrow> s \<noteq> [] \<and> last s = slash"
  by (auto simp: has_suffix_iff) (metis append_butlast_last_id)

lemma dots_stay: "\<exists>zs. foldl (clean_step False) (xs @ [''..'']) cs = zs @ [''..'']"
proof (induction cs arbitrary: xs)
  case (Cons c cs)
  have "\<exists>ys. clean_step False (xs @ [''..'']) c = ys @ [''..'']"
    by (cases xs) (auto simp: clean_step_def)
  then show ?case using Cons.IH by auto
qed simp

lemma foldl_clean_lift:
  assumes "''..'' \<notin> set (foldl (clean_step False) ns cs)" and "''..'' \<notin> set ns"
  shows "foldl (clean_step r) (ns @ st) cs = foldl (clean_step False) ns cs @ st"
  using assms
proof (induction cs arbitrary: ns)
  case (Cons c cs)
  show ?case
  proof (cases "c = ''..'' \<and> ns = []")
    case True
    then have "\<exists>zs. foldl (clean_step False) ns (c # cs) = zs @ [''..'']"
      using dots_stay [of "[]" cs] by (simp add: clean_step_def)
    then show ?thesis using Cons.prems(1) by auto
  next
    case False
    then have s: "clean_step r (ns @ st) c = clean_step False ns c @ st" "''..'' \<notin> set (clean_step False ns c)"
      using Cons.prems(2) by (cases ns; auto simp: clean_step_def)+
    then show ?thesis using Cons.IH [of "clean_step False ns c"] Cons.prems(1) by simp
  qed
qed simp

lemma path_comps_below:
  assumes "a \<noteq> []" and "\<not> rooted q" and "\<forall>c\<in>set (path_comps q). is_name c"
  shows "path_comps (a @ slash # q) = path_comps a @ path_comps q"
proof -
  have "''..'' \<notin> set (foldl (clean_step False) [] (split_char slash q))"
    using assms(2,3) by (auto simp: path_comps_def clean_comps_def is_name_def)
  from foldl_clean_lift [OF this, of "rooted a" "foldl (clean_step (rooted a)) [] (split_char slash a)"]
  show ?thesis
    using assms(1,2) by (simp add: path_comps_def split_char_append rooted_append clean_comps_def)
qed

lemma path_comps_slashes:
  assumes "a \<noteq> []"
  shows "path_comps (a @ slash # replicate k slash @ b) = path_comps (a @ slash # b)"
proof -
  have s: "foldl (clean_step r) st (split_char slash (replicate k slash @ b)) = foldl (clean_step r) st (split_char slash b)" for r st
    by (induction k arbitrary: st) (simp_all add: clean_step_def)
  show ?thesis
    using assms by (simp add: path_comps_def split_char_append rooted_append clean_comps_def s)
qed

lemma trim_left_char_split: "\<exists>k. s = replicate k c @ trim_left_char c s"
proof -
  have "takeWhile (\<lambda>x. x = c) s = replicate (length (takeWhile (\<lambda>x. x = c) s)) c"
    by (rule replicate_length_same [symmetric]) (auto dest: set_takeWhileD)
  then show ?thesis by (metis takeWhile_dropWhile_id trim_left_char_def)
qed

lemma stream_rel:
  assumes "key_rel srcPrefix key \<noteq> []"
    and rel: "rel = (if trim_prefix (trim_prefix key srcPrefix) ''/'' = [] then path_base key
                else trim_prefix (trim_prefix key srcPrefix) ''/'')"
  shows "\<exists>k. rel = replicate k slash @ key_rel srcPrefix key"
proof (cases "key = srcPrefix \<and> \<not> has_suffix srcPrefix ''/''")
  case True
  have "trim_prefix key srcPrefix = []" using True trim_prefix_append [of srcPrefix "[]"] by simp
  then have "rel = key_rel srcPrefix key" using rel True by (simp add: key_rel_def trim_prefix_def)
  then show ?thesis by (intro exI [of _ 0]) simp
next
  case False
  let ?t = "trim_prefix key srcPrefix"
  have kr: "key_rel srcPrefix key = trim_left_char slash ?t" using False by (auto simp: key_rel_def)
  obtain k where k: "?t = replicate k slash @ key_rel srcPrefix key" using trim_left_char_split kr by metis
  show ?thesis
  proof (cases k)
    case 0
    obtain c u where c: "key_rel srcPrefix key = c # u" "c \<noteq> slash"
      using assms(1) trim_left_char_hd [of slash ?t] kr by (metis list.collapse)
    have "trim_prefix ?t ''/'' = ?t" using k 0 c by (simp add: trim_prefix_def)
    then have "rel = ?t" using rel assms(1) k 0 by simp
    then show ?thesis using k by blast
  next
    case (Suc j)
    have "trim_prefix ?t ''/'' = replicate j slash @ key_rel srcPrefix key"
      using k Suc trim_prefix_append [of "''/''" "replicate j slash @ key_rel srcPrefix key"] by simp
    then have "rel = replicate j slash @ key_rel srcPrefix key" using rel assms(1) by simp
    then show ?thesis by blast
  qed
qed

lemma clean_no_trailing_slash: "path_comps q \<noteq> [] \<Longrightarrow> \<not> has_suffix (path_clean q) ''/''"
proof -
  assume "path_comps q \<noteq> []"
  then obtain xs x where x: "path_comps q = xs @ [x]" by (metis rev_exhaust)
  then have "x \<noteq> []" "slash \<notin> set x" using path_comps_no_slash [of x q] by auto
  moreover have "x \<noteq> [] \<Longrightarrow> join [slash] (xs @ [x]) \<noteq> [] \<and> last (join [slash] (xs @ [x])) = last x"
  proof (induction xs)
    case (Cons y ys)
    then show ?case by (cases "ys @ [x]") auto
  qed simp
  ultimately have "join [slash] (path_comps q) \<noteq> []" "last (join [slash] (path_comps q)) \<noteq> slash"
    unfolding x by (metis last_in_set)+
  then show ?thesis by (simp add: path_clean_def x has_suffix_slash)
qed

text \<open>
  C16: a streamed object lands where the staged one would: for every key the download accepts,
  other than the marker of the prefix itself, and a destination prefix that names a folder, the
  stream writes the same names below the destination prefix as the download writes below the
  staging directory (one with a name), and its key ends in a slash exactly when the download makes a folder, which
  is exactly when the source key does.
\<close>

theorem stream_agrees_with_download:
  assumes p: "object_local_path root srcPrefix key = Inr (Some p)" and "root \<noteq> []" and folder: "path_comps dst \<noteq> []"
    and rel: "key_rel srcPrefix key \<noteq> []"
  shows "\<exists>ns. path_comps (op_Local p) = path_comps root @ ns \<and> path_comps (stream_dst_key srcPrefix dst key) = path_comps dst @ ns
    \<and> (op_Folder p \<longleftrightarrow> has_suffix (key_rel srcPrefix key) ''/'') \<and> (op_Folder p \<longleftrightarrow> has_suffix (stream_dst_key srcPrefix dst key) ''/'')"
proof -
  let ?r = "key_rel srcPrefix key"
  have dst: "dst \<noteq> []" using folder by (auto simp: path_comps_def clean_comps_def clean_step_def)
  have loc: "op_Local p = path_join2 root (path_clean ?r)" "op_Folder p = has_suffix ?r ''/''"
    and n: "path_clean ?r \<noteq> ''..''" "\<not> has_prefix (path_clean ?r) ''../''"
    using p rel by (auto simp: object_local_path_def Let_def split: if_splits)
  define r where "r = (if trim_prefix (trim_prefix key srcPrefix) ''/'' = [] then path_base key
                else trim_prefix (trim_prefix key srcPrefix) ''/'')"
  obtain k where k: "r = replicate k slash @ ?r" using stream_rel [OF rel r_def] by blast
  have names: "\<forall>c\<in>set (path_comps ?r). is_name c" by (rule inside_names [OF key_rel_not_rooted n])
  note inside = path_join2_names [OF _ refl names key_rel_not_rooted]
  have suf: "has_suffix r ''/'' = has_suffix ?r ''/''" using rel k by (simp add: has_suffix_slash)
  have s: "stream_dst_key srcPrefix dst key = path_join2 dst r @ (if has_suffix ?r ''/'' then ''/'' else [])"
    by (simp add: stream_dst_key_def Let_def r_def [symmetric] suf)
  have join: "path_join2 dst r = path_clean (dst @ slash # r)" using dst by (simp add: path_join2_def)
  have sd: "path_comps (path_join2 dst r) = path_comps dst @ path_comps ?r"
    using path_comps_slashes [OF dst, of k ?r] path_comps_below [OF dst key_rel_not_rooted names] k
    unfolding join path_comps_clean by simp
  have "path_comps (path_join2 dst r @ ''/'') = path_comps (path_join2 dst r)"
  proof -
    have ne: "path_join2 dst r \<noteq> []" by (simp add: join path_clean_not_Nil)
    then show ?thesis using path_clean_trailing [OF ne] path_comps_clean by metis
  qed
  then have "path_comps (stream_dst_key srcPrefix dst key) = path_comps dst @ path_comps ?r"
    using sd by (simp add: s)
  moreover have "\<not> has_suffix (path_join2 dst r) ''/''"
    unfolding join by (rule clean_no_trailing_slash) (use sd folder in \<open>simp add: join path_comps_clean\<close>)
  then have "op_Folder p \<longleftrightarrow> has_suffix (stream_dst_key srcPrefix dst key) ''/''"
    by (simp add: loc(2) s has_suffix_slash)
  ultimately show ?thesis
    using inside(1) [OF assms(2)] by (intro exI [of _ "path_comps ?r"] conjI) (simp_all only: loc)
qed

theorem stream_agrees_with_download_witness:
  "has_suffix (stream_dst_key ''data'' ''backup'' ''data//s/./t/'') ''/''"
proof -
  have "object_local_path ''/r'' ''data'' ''data//s/./t/'' = Inr (Some \<lparr>op_Local = ''/r/s/t'', op_Folder = True\<rparr>)"
    "key_rel ''data'' ''data//s/./t/'' \<noteq> []" by code_simp+
  moreover have "path_comps ''backup'' \<noteq> []" by code_simp
  ultimately show ?thesis using stream_agrees_with_download [of "''/r''" "''data''" "''data//s/./t/''" _ "''backup''"] by fastforce
qed

text \<open>
  The keys the download refuses or that mark the prefix itself are where the stream differs:
  a \<open>..\<close> climbs out of the destination prefix, and the source folder's own marker becomes an
  object beside the copies. A key that cleans to \<open>.\<close> is placed as a file at the destination
  directory itself.
\<close>

lemma stream_key_escapes:
  "stream_dst_key ''src'' ''backup'' ''src/../x'' = ''x''"
  "object_local_path ''/r'' ''src'' ''src/../x'' = Inl (KeyLeadsOutside ''src/../x'')"
  by code_simp+

lemma stream_prefix_marker:
  "stream_dst_key ''data/'' ''backup'' ''data/'' = ''backup/data''"
  "object_local_path ''/r'' ''data/'' ''data/'' = Inr (Some \<lparr>op_Local = ''/r'', op_Folder = True\<rparr>)"
  by code_simp+

lemma dot_key_is_a_file_at_the_root:
  "object_local_path ''/r'' ''data'' ''data/a/..'' = Inr (Some \<lparr>op_Local = ''/r'', op_Folder = False\<rparr>)"
  by code_simp

end
