(* ===== verification/PlanTarget.thy ===== *)
theory PlanTarget
  imports PlanRules DbmsDdl ObjectPath
begin

text \<open>
  The builder of \<open>pkg/core/plan/target.go\<close>: what a connection is, the checks that ask a
  service, the three entry builders and \<open>BuildTargetDataMigrationModel\<close>. The remote answers
  are the \<open>services\<close> of \<open>DbmsResolve\<close>; the entry ids come from the generator \<open>uuid\<close> of
  \<open>PlanEntry\<close>, with the number of ids drawn so far passed along.
\<close>

section \<open>Kinds and identities\<close>

text \<open>\<open>fmt.Errorf\<close> with \<open>%w\<close> around an external error; a validation error stays one.\<close>

fun wrap_external :: "(external_msg \<Rightarrow> external_msg) \<Rightarrow> plan_error \<Rightarrow> plan_error" where
  "wrap_external f (ValidationError m) = ValidationError m"
| "wrap_external f (ExternalError m) = ExternalError (f m)"
| "wrap_external f NilDereference = NilDereference"

text \<open>\<open>*ref.Honeybee\<close> is dereferenced unchecked here.\<close>

definition dst_kind :: "services \<Rightarrow> connection_ref \<Rightarrow> plan_error + data_kind" where
  "dst_kind sv ref =
     (case cr_Source ref of
        ConnectionSourceBeetleSSH \<Rightarrow> Inr KindSSH
      | ConnectionSourceSSH \<Rightarrow> Inr KindSSH
      | ConnectionSourceBeetleObjectStorage \<Rightarrow> Inr KindObjectStorage
      | ConnectionSourceMinio \<Rightarrow> Inr KindObjectStorage
      | ConnectionSourceBeetleDB \<Rightarrow> Inr KindDBMS
      | ConnectionSourceDB \<Rightarrow> Inr KindDBMS
      | ConnectionSourceHoneybee \<Rightarrow>
          (case cr_Honeybee ref of
             None \<Rightarrow> Inl NilDereference
           | Some h \<Rightarrow>
               (case sv_honeybee sv h of
                  Inl e \<Rightarrow> Inl (ExternalError (HoneybeeInfo e))
                | Inr cfg \<Rightarrow>
                    (if hc_ConnType cfg = ''ssh'' then Inr KindSSH
                     else if hc_ConnType cfg = ''objectStorage'' then Inr KindObjectStorage
                     else if hc_ConnType cfg = ''dbms'' then Inr KindDBMS
                     else Inl (ExternalError (HoneybeeConnTypeUnknown (hc_ConnType cfg))))))
      | UnknownSource s \<Rightarrow> Inl (ExternalError (ConnectionSourceUnknown (UnknownSource s))))"

text \<open>The engine name, the one field of \<open>dbmsIdentity\<close>.\<close>

definition dbms_identity_of :: "services \<Rightarrow> connection_ref \<Rightarrow> plan_error + string" where
  "dbms_identity_of sv ref =
     (case cr_Source ref of
        ConnectionSourceHoneybee \<Rightarrow>
          (case cr_Honeybee ref of
             None \<Rightarrow> Inl NilDereference
           | Some h \<Rightarrow>
               (case sv_honeybee sv h of
                  Inl e \<Rightarrow> Inl (ExternalError (HoneybeeDBConfig e))
                | Inr cfg \<Rightarrow> Inr (hc_DBType cfg)))
      | ConnectionSourceBeetleDB \<Rightarrow>
          (case cr_BeetleDB ref of
             None \<Rightarrow> Inl (ExternalError BeetleDBRefNil)
           | Some b \<Rightarrow>
               (case sv_beetle_access sv b of
                  Inl e \<Rightarrow> Inl (ExternalError (BeetleAccessFailed e))
                | Inr acc \<Rightarrow> Inr (bd_DBType acc)))
      | ConnectionSourceDB \<Rightarrow>
          (case cr_DB ref of
             None \<Rightarrow> Inl (ExternalError DBConfigNil)
           | Some c \<Rightarrow> Inr (dbc_DBMSType c))
      | src \<Rightarrow> Inl (ExternalError (NotADBMSType src)))"

section \<open>Checks that ask a service\<close>

definition validate_dbms_engines :: "services \<Rightarrow> connection_ref \<Rightarrow> connection_ref \<Rightarrow> plan_error + string" where
  "validate_dbms_engines sv srcRef dstRef =
     bind_res (map_err (wrap_external SourceDBIdentity) (dbms_identity_of sv srcRef)) (\<lambda>s.
     bind_res (map_err (wrap_external TargetDBIdentity) (dbms_identity_of sv dstRef)) (\<lambda>d.
       if s \<noteq> [] \<and> d \<noteq> [] \<and> s \<noteq> d then Inl (ValidationError (DBTypeMismatch s d)) else Inr s))"

definition validate_dbms_version ::
  "services \<Rightarrow> connection_ref \<Rightarrow> connection_ref \<Rightarrow> string \<Rightarrow> string \<Rightarrow> plan_error option" where
  "validate_dbms_version sv srcRef dstRef database dbType =
     (case resolve_dbms_location sv srcRef database dbType of
        Inl e \<Rightarrow> Some (ExternalError (SourceDBLocation e))
      | Inr srcLoc \<Rightarrow>
          (case resolve_dbms_location sv dstRef database dbType of
             Inl e \<Rightarrow> Some (ExternalError (TargetDBLocation e))
           | Inr dstLoc \<Rightarrow>
               (case public_check_version (sv_driver_version sv) (sv_roots sv) srcLoc dstLoc of
                  Inl _ \<Rightarrow> None
                | Inr vc \<Rightarrow>
                    (if vc_Downgrade vc then Some (ValidationError (TargetOlder (vc_Target vc) (vc_Source vc)))
                     else None))))"

definition validate_dbms_target_reachable ::
  "services \<Rightarrow> connection_ref \<Rightarrow> dbms_location \<Rightarrow> plan_error option" where
  "validate_dbms_target_reachable sv dstRef dstLoc =
     (if cr_Source dstRef \<noteq> ConnectionSourceBeetleDB \<and> cr_Source dstRef \<noteq> ConnectionSourceDB
      then Some (ValidationError (NotADBMSTarget (cr_Source dstRef)))
      else (case target_database_exists sv dstRef dstLoc of
              Inl _ \<Rightarrow> None
            | Inr found \<Rightarrow>
                (if found then None
                 else if loc_DBMSType dstLoc = MongoDB then None
                 else if cr_Source dstRef = ConnectionSourceDB then
                   (if (case cr_DB dstRef of None \<Rightarrow> True | Some c \<Rightarrow> \<not> equal_fold (dbc_ProviderName c) ProviderOnPrem)
                    then Some (ValidationError (TargetDatabaseMissing (loc_Database dstLoc))) else None)
                 else None)))"

definition validate_object_storage_target_reachable ::
  "services \<Rightarrow> connection_ref \<Rightarrow> string \<Rightarrow> plan_error option" where
  "validate_object_storage_target_reachable sv dstRef dstPath =
     (if cr_Source dstRef = ConnectionSourceBeetleObjectStorage then None
      else (case sv_bucket_exists sv dstRef dstPath of
              Inl _ \<Rightarrow> None
            | Inr True \<Rightarrow> None
            | Inr False \<Rightarrow> Some (ValidationError (TargetBucketMissing (fst (parse_bucket_and_key dstPath))))))"

section \<open>The entry builders\<close>

text \<open>
  The path chosen for an entry and, on an object storage destination, the check of its
  bucket: the tail both storage builders share. A mapping is only read when the selection
  failed, which it cannot without one.
\<close>

definition select_paths ::
  "services \<Rightarrow> string \<Rightarrow> string list \<Rightarrow> target_mapping option \<Rightarrow> string \<Rightarrow> connection_ref \<Rightarrow> data_kind \<Rightarrow>
   plan_error + string \<times> string" where
  "select_paths sv scanRoot folders mapping domain dst dstType =
     (case select_migration_path scanRoot folders mapping of
        None \<Rightarrow>
          (case mapping of
             None \<Rightarrow> Inl NilDereference
           | Some m \<Rightarrow> Inl (ValidationError (SrcNameMatchesNothing domain (tm_SrcName m))))
      | Some (srcPath, dst0) \<Rightarrow>
          (let dstPath = resolve_object_storage_dst_path dst mapping dst0
           in if dstType = KindObjectStorage
              then check (validate_object_storage_target_reachable sv dst dstPath) (Inr (srcPath, dstPath))
              else Inr (srcPath, dstPath)))"

definition fs_rule_checks :: "file_system_filter option \<Rightarrow> plan_error option" where
  "fs_rule_checks f =
     (case f of
        None \<Rightarrow> None
      | Some g \<Rightarrow>
          check_err (validate_storage_mapping ''fileSystemFilter'' (Some (fsf_TargetMapping g)))
          (check_err (validate_size_gate_ordering (fsf_Rules g))
            (validate_include_has_effect ''fileSystemFilter'' (fsf_Rules g))))"

definition fs_destination :: "path_filter_rule list \<Rightarrow> target_mapping option \<Rightarrow> data_kind \<Rightarrow> plan_error + string" where
  "fs_destination rules mapping dstType =
     (case dstType of
        KindSSH \<Rightarrow> Inr StorageTypeFilesystem
      | KindObjectStorage \<Rightarrow>
          check (validate_rsync_compatible_rules rules)
          (check (validate_cross_storage_dst ''fileSystemFilter'' StorageTypeObjectStorage mapping)
            (Inr StorageTypeObjectStorage))
      | KindDBMS \<Rightarrow> Inl (ValidationError (FSDstKind dstType)))"

definition build_file_system_entry ::
  "services \<Rightarrow> (nat \<Rightarrow> string) \<Rightarrow> nat \<Rightarrow> plan_entry \<Rightarrow> source_file_system_model \<Rightarrow> data_kind \<Rightarrow>
   plan_error + migration_file_system_model \<times> nat" where
  "build_file_system_entry sv uuid n e srcFS dstType =
     (let strategy = (if pe_FileSystemStrategy e = [] then StrategyDirect else pe_FileSystemStrategy e);
          rules = (case pe_FileSystemFilter e of None \<Rightarrow> [] | Some f \<Rightarrow> fsf_Rules f);
          mapping = map_option fsf_TargetMapping (pe_FileSystemFilter e)
      in check (fs_rule_checks (pe_FileSystemFilter e))
         (bind_res (fs_destination rules mapping dstType) (\<lambda>fsDstType.
          bind_res (select_paths sv (fsi_Path (sfs_FSInfo srcFS)) (map fse_Path (fsi_Folders (sfs_FSInfo srcFS)))
                      mapping ''fileSystemFilter'' (pe_DstConnection e) dstType) (\<lambda>(srcPath, dstPath).
            (let (i, n') = new_plan_entry_id uuid n
             in Inr (\<lparr>mfs_PlanEntryID = i, mfs_SrcConnection = sfs_Connection srcFS,
                      mfs_DstConnection = pe_DstConnection e, mfs_DstType = fsDstType, mfs_Strategy = strategy,
                      mfs_Folders = [\<lparr>fmi_Order = 1, fmi_SrcPath = srcPath, fmi_DstPath = dstPath, fmi_Rules = rules\<rparr>],
                      mfs_Errors = []\<rparr>, n'))))))"

definition os_rule_checks :: "object_storage_filter option \<Rightarrow> plan_error option" where
  "os_rule_checks f =
     (case f of
        None \<Rightarrow> None
      | Some g \<Rightarrow>
          check_err (validate_storage_mapping ''objectStorageFilter'' (Some (osf_TargetMapping g)))
            (validate_include_has_effect ''objectStorageFilter'' (osf_Rules g)))"

definition os_destination :: "target_mapping option \<Rightarrow> data_kind \<Rightarrow> plan_error + string" where
  "os_destination mapping dstType =
     (case dstType of
        KindObjectStorage \<Rightarrow> Inr StorageTypeObjectStorage
      | KindSSH \<Rightarrow>
          check (validate_cross_storage_dst ''objectStorageFilter'' StorageTypeFilesystem mapping)
            (Inr StorageTypeFilesystem)
      | KindDBMS \<Rightarrow> Inl (ValidationError (OSDstKind dstType)))"

definition build_object_storage_entry ::
  "services \<Rightarrow> (nat \<Rightarrow> string) \<Rightarrow> nat \<Rightarrow> plan_entry \<Rightarrow> source_object_storage_model \<Rightarrow> data_kind \<Rightarrow>
   plan_error + migration_object_storage_model \<times> nat" where
  "build_object_storage_entry sv uuid n e srcOS dstType =
     (let strategy = (if pe_ObjectStorageStrategy e = [] then StrategyDirect else pe_ObjectStorageStrategy e);
          rules = (case pe_ObjectStorageFilter e of None \<Rightarrow> [] | Some f \<Rightarrow> osf_Rules f);
          mapping = map_option osf_TargetMapping (pe_ObjectStorageFilter e)
      in check (os_rule_checks (pe_ObjectStorageFilter e))
         (bind_res (os_destination mapping dstType) (\<lambda>osDstType.
          bind_res (select_paths sv (osi_Path (sos_ObjectStorageInfo srcOS))
                      (map oe_Key (osi_Folders (sos_ObjectStorageInfo srcOS)))
                      mapping ''objectStorageFilter'' (pe_DstConnection e) dstType) (\<lambda>(srcPath, dstPath).
            (let (i, n') = new_plan_entry_id uuid n
             in Inr (\<lparr>mos_PlanEntryID = i, mos_SrcConnection = sos_Connection srcOS,
                      mos_DstConnection = pe_DstConnection e, mos_DstType = osDstType,
                      mos_Buckets = [\<lparr>omi_Order = 1, omi_SrcPath = srcPath, omi_DstPath = dstPath, omi_Rules = rules\<rparr>],
                      mos_Errors = [], mos_Strategy = strategy\<rparr>, n'))))))"

text \<open>The map of inventories by name: a name listed twice keeps its last inventory, an absent one reads as zero.\<close>

definition database_info :: "dbms_info list \<Rightarrow> string \<Rightarrow> dbms_info" where
  "database_info dbs name =
     (case map_of (rev (map (\<lambda>i. (dbi_Database i, i)) dbs)) name of None \<Rightarrow> zero_dbms_info | Some i \<Rightarrow> i)"

definition check_db_item ::
  "services \<Rightarrow> plan_entry \<Rightarrow> source_db_model \<Rightarrow> string \<Rightarrow> db_migration_info \<Rightarrow> plan_error option" where
  "check_db_item sv e srcDB dbType it =
     check_err (validate_object_rules dbType (database_info (sdb_Databases srcDB) (dmi_SrcName it)) (dmi_Rules it))
     (check_err (validate_dbms_version sv (sdb_Connection srcDB) (pe_DstConnection e) (dmi_SrcName it) dbType)
       (case resolve_dbms_location sv (pe_DstConnection e) (dmi_DstName it) dbType of
          Inl err \<Rightarrow> Some (ExternalError (TargetDBLocation err))
        | Inr dstLoc \<Rightarrow> validate_dbms_target_reachable sv (pe_DstConnection e) dstLoc))"

definition build_db_entry ::
  "services \<Rightarrow> (nat \<Rightarrow> string) \<Rightarrow> nat \<Rightarrow> plan_entry \<Rightarrow> source_db_model \<Rightarrow> data_kind \<Rightarrow>
   plan_error + migration_db_model \<times> nat" where
  "build_db_entry sv uuid n e srcDB dstType =
     (if dstType \<noteq> KindDBMS then Inl (ValidationError (DBDstKind dstType))
      else bind_res (validate_dbms_engines sv (sdb_Connection srcDB) (pe_DstConnection e)) (\<lambda>dbType.
           bind_res (build_db_migration_infos (map dbi_Database (sdb_Databases srcDB)) dbType (pe_DBMSFilter e)) (\<lambda>items.
             if items = [] then Inl (ValidationError NoDatabaseSelected)
             else check (first_err (check_db_item sv e srcDB dbType) items)
               (let (i, n') = new_plan_entry_id uuid n
                in Inr (\<lparr>mdb_PlanEntryID = i, mdb_SrcConnection = sdb_Connection srcDB,
                         mdb_DstConnection = pe_DstConnection e, mdb_DBType = dbType, mdb_Databases = items,
                         mdb_Errors = []\<rparr>, n')))))"

section \<open>The plan\<close>

text \<open>The \<open>switch src.kind\<close>: the built entry is appended to its domain's list.\<close>

definition build_entry ::
  "services \<Rightarrow> (nat \<Rightarrow> string) \<Rightarrow> nat \<Rightarrow> plan_entry \<Rightarrow> source_entry \<Rightarrow> data_kind \<Rightarrow>
   target_data_migration_property \<Rightarrow> plan_error + target_data_migration_property \<times> nat" where
  "build_entry sv uuid n e src dstType p =
     (case se_kind src of
        KindSSH \<Rightarrow>
          (case se_fs src of
             None \<Rightarrow> Inl NilDereference
           | Some fs \<Rightarrow> bind_res (build_file_system_entry sv uuid n e fs dstType)
               (\<lambda>(b, n'). Inr (p\<lparr>tdm_FileSystems := tdm_FileSystems p @ [b]\<rparr>, n')))
      | KindObjectStorage \<Rightarrow>
          (case se_os src of
             None \<Rightarrow> Inl NilDereference
           | Some os \<Rightarrow> bind_res (build_object_storage_entry sv uuid n e os dstType)
               (\<lambda>(b, n'). Inr (p\<lparr>tdm_ObjectStorages := tdm_ObjectStorages p @ [b]\<rparr>, n')))
      | KindDBMS \<Rightarrow>
          (case se_db src of
             None \<Rightarrow> Inl NilDereference
           | Some db \<Rightarrow> bind_res (build_db_entry sv uuid n e db dstType)
               (\<lambda>(b, n'). Inr (p\<lparr>tdm_Databases := tdm_Databases p @ [b]\<rparr>, n'))))"

definition plan_step ::
  "services \<Rightarrow> (nat \<Rightarrow> string) \<Rightarrow> (string \<rightharpoonup> source_entry) \<Rightarrow> nat \<Rightarrow> plan_entry \<Rightarrow>
   target_data_migration_property \<Rightarrow> nat \<Rightarrow> plan_error + target_data_migration_property \<times> nat" where
  "plan_step sv uuid index i e p n =
     (case index (src_conn_key (pe_SrcConnection e)) of
        None \<Rightarrow> Inl (ValidationError (SrcConnectionUnknown i (src_conn_key (pe_SrcConnection e))))
      | Some src \<Rightarrow>
          check (map_option (\<lambda>m. ValidationError (AtPlan i m)) (validate_entry_domain (se_kind src) e))
          (bind_res (map_err (wrap_external (DstConnectionType i)) (dst_kind sv (pe_DstConnection e))) (\<lambda>dstType.
            map_err (wrap_entry_err i) (build_entry sv uuid n e src dstType p))))"

fun plan_loop ::
  "services \<Rightarrow> (nat \<Rightarrow> string) \<Rightarrow> (string \<rightharpoonup> source_entry) \<Rightarrow> nat \<Rightarrow> plan_entry list \<Rightarrow>
   target_data_migration_property \<Rightarrow> nat \<Rightarrow> plan_error + target_data_migration_property \<times> nat" where
  "plan_loop sv uuid index i [] p n = Inr (p, n)"
| "plan_loop sv uuid index i (e # es) p n =
     bind_res (plan_step sv uuid index i e p n) (\<lambda>(p', n'). plan_loop sv uuid index (Suc i) es p' n')"

definition build_target_data_migration_model ::
  "services \<Rightarrow> (nat \<Rightarrow> string) \<Rightarrow> nat \<Rightarrow> target_plan_req \<Rightarrow> plan_error + target_data_migration_property \<times> nat" where
  "build_target_data_migration_model sv uuid n req =
     bind_res (index_source (tpr_Source req)) (\<lambda>index.
     bind_res (plan_loop sv uuid index 0 (tpr_Plans req) empty_target n) (\<lambda>(out, n').
       check (map_option (\<lambda>m. ValidationError (DuplicateDst m)) (duplicate_destination out))
       (check (map_option (\<lambda>m. ValidationError (RootOntoRoot m)) (root_to_root out))
         (Inr (out, n')))))"

section \<open>What one step of the loop adds\<close>

lemma build_file_system_entryD:
  assumes "build_file_system_entry sv uuid n e fs k = Inr (x, n')"
  obtains src dst where
    "fs_rule_checks (pe_FileSystemFilter e) = None"
    "fs_destination (case pe_FileSystemFilter e of None \<Rightarrow> [] | Some f \<Rightarrow> fsf_Rules f)
        (map_option fsf_TargetMapping (pe_FileSystemFilter e)) k = Inr (mfs_DstType x)"
    "mfs_SrcConnection x = sfs_Connection fs" "mfs_DstConnection x = pe_DstConnection e"
    "mfs_Folders x = [\<lparr>fmi_Order = 1, fmi_SrcPath = src, fmi_DstPath = dst,
       fmi_Rules = (case pe_FileSystemFilter e of None \<Rightarrow> [] | Some f \<Rightarrow> fsf_Rules f)\<rparr>]"
    "select_paths sv (fsi_Path (sfs_FSInfo fs)) (map fse_Path (fsi_Folders (sfs_FSInfo fs)))
        (map_option fsf_TargetMapping (pe_FileSystemFilter e)) ''fileSystemFilter'' (pe_DstConnection e) k = Inr (src, dst)"
  using assms that
  by (auto simp: build_file_system_entry_def Let_def check_Inr_iff bind_res_Inr_iff new_plan_entry_id_def)

lemma build_object_storage_entryD:
  assumes "build_object_storage_entry sv uuid n e os k = Inr (x, n')"
  obtains src dst where
    "os_destination (map_option osf_TargetMapping (pe_ObjectStorageFilter e)) k = Inr (mos_DstType x)"
    "mos_SrcConnection x = sos_Connection os" "mos_DstConnection x = pe_DstConnection e"
    "mos_Buckets x = [\<lparr>omi_Order = 1, omi_SrcPath = src, omi_DstPath = dst,
       omi_Rules = (case pe_ObjectStorageFilter e of None \<Rightarrow> [] | Some f \<Rightarrow> osf_Rules f)\<rparr>]"
    "select_paths sv (osi_Path (sos_ObjectStorageInfo os)) (map oe_Key (osi_Folders (sos_ObjectStorageInfo os)))
        (map_option osf_TargetMapping (pe_ObjectStorageFilter e)) ''objectStorageFilter'' (pe_DstConnection e) k = Inr (src, dst)"
  using assms that
  by (auto simp: build_object_storage_entry_def Let_def check_Inr_iff bind_res_Inr_iff new_plan_entry_id_def)

lemma build_db_entryD:
  assumes "build_db_entry sv uuid n e db k = Inr (x, n')"
  shows "k = KindDBMS" "validate_dbms_engines sv (sdb_Connection db) (pe_DstConnection e) = Inr (mdb_DBType x)"
    "mdb_SrcConnection x = sdb_Connection db" "mdb_DstConnection x = pe_DstConnection e" "mdb_Databases x \<noteq> []"
    "first_err (check_db_item sv e db (mdb_DBType x)) (mdb_Databases x) = None"
    "build_db_migration_infos (map dbi_Database (sdb_Databases db)) (mdb_DBType x) (pe_DBMSFilter e) = Inr (mdb_Databases x)"
  using assms
  by (auto simp: build_db_entry_def Let_def check_Inr_iff bind_res_Inr_iff new_plan_entry_id_def simp del: first_err_None_iff split: if_splits)

lemma plan_stepD:
  assumes "plan_step sv uuid index i e p n = Inr (p', n')"
  obtains src k where "index (src_conn_key (pe_SrcConnection e)) = Some src"
    "dst_kind sv (pe_DstConnection e) = Inr k" "build_entry sv uuid n e src k p = Inr (p', n')"
  using assms that
  by (auto simp: plan_step_def check_Inr_iff bind_res_Inr_iff map_err_Inr_iff split: option.splits)

lemma build_entryD:
  assumes "build_entry sv uuid n e src k p = Inr (p', n')"
  obtains
    fs x where "se_kind src = KindSSH" "se_fs src = Some fs" "build_file_system_entry sv uuid n e fs k = Inr (x, n')"
      "p' = p\<lparr>tdm_FileSystems := tdm_FileSystems p @ [x]\<rparr>"
  | os x where "se_kind src = KindObjectStorage" "se_os src = Some os" "build_object_storage_entry sv uuid n e os k = Inr (x, n')"
      "p' = p\<lparr>tdm_ObjectStorages := tdm_ObjectStorages p @ [x]\<rparr>"
  | db x where "se_kind src = KindDBMS" "se_db src = Some db" "build_db_entry sv uuid n e db k = Inr (x, n')"
      "p' = p\<lparr>tdm_Databases := tdm_Databases p @ [x]\<rparr>"
  using assms that
  by (auto simp: build_entry_def bind_res_Inr_iff split: data_kind.splits option.splits)

text \<open>What a step of the loop keeps, the loop keeps.\<close>

lemma plan_loop_invariant:
  assumes "plan_loop sv uuid index i es p n = Inr (q, m)" and "I p"
    and step: "\<And>j e p n p' n'. e \<in> set es \<Longrightarrow> plan_step sv uuid index j e p n = Inr (p', n') \<Longrightarrow> I p \<Longrightarrow> I p'"
  shows "I q"
  using assms
proof (induction es arbitrary: i p n)
  case (Cons e es)
  from Cons.prems(1) obtain p' n' where s: "plan_step sv uuid index i e p n = Inr (p', n')"
    and l: "plan_loop sv uuid index (Suc i) es p' n' = Inr (q, m)"
    by (auto simp: bind_res_Inr_iff)
  show ?case
  proof (rule Cons.IH [OF l])
    show "I p'" by (rule Cons.prems(3) [OF _ s Cons.prems(2)]) simp
    show "I p2" if "e' \<in> set es" "plan_step sv uuid index j e' p1 n1 = Inr (p2, n2)" "I p1" for e' j p1 n1 p2 n2
      by (rule Cons.prems(3) [OF _ that(2,3)]) (simp add: that(1))
  qed
qed simp

lemma plan_step_count:
  assumes "plan_step sv uuid index i e p n = Inr (p', n')"
  shows "length (plan_entry_ids p') = Suc (length (plan_entry_ids p))"
  using assms by (elim plan_stepD build_entryD) (auto simp: plan_entry_ids_def)

lemma plan_loop_count:
  "plan_loop sv uuid index i es p n = Inr (q, m) \<Longrightarrow> length (plan_entry_ids q) = length (plan_entry_ids p) + length es"
proof (induction es arbitrary: i p n)
  case (Cons e es)
  then obtain p' n' where s: "plan_step sv uuid index i e p n = Inr (p', n')"
    and l: "plan_loop sv uuid index (Suc i) es p' n' = Inr (q, m)"
    by (auto simp: bind_res_Inr_iff)
  from Cons.IH [OF l] plan_step_count [OF s] show ?case by simp
qed simp

lemma built_planD:
  assumes "build_target_data_migration_model sv uuid n req = Inr (p, m)"
  obtains index where "index_source (tpr_Source req) = Inr index"
    "plan_loop sv uuid index 0 (tpr_Plans req) empty_target n = Inr (p, m)"
    "duplicate_destination p = None" "root_to_root p = None"
  using assms that by (auto simp: build_target_data_migration_model_def bind_res_Inr_iff check_Inr_iff)

section \<open>Destinations fit their transfer\<close>

definition fs_entry_typed :: "services \<Rightarrow> migration_file_system_model \<Rightarrow> bool" where
  "fs_entry_typed sv x \<longleftrightarrow>
     (mfs_DstType x = StorageTypeFilesystem \<and> dst_kind sv (mfs_DstConnection x) = Inr KindSSH \<or>
      mfs_DstType x = StorageTypeObjectStorage \<and> dst_kind sv (mfs_DstConnection x) = Inr KindObjectStorage)
     \<and> (\<exists>f. mfs_Folders x = [f] \<and> fmi_Order f = 1 \<and> size_gate_ordering False (fmi_Rules f) = None
         \<and> (mfs_DstType x = StorageTypeObjectStorage \<longrightarrow> validate_rsync_compatible_rules (fmi_Rules f) = None))"

definition os_entry_typed :: "services \<Rightarrow> migration_object_storage_model \<Rightarrow> bool" where
  "os_entry_typed sv x \<longleftrightarrow>
     (mos_DstType x = StorageTypeFilesystem \<and> dst_kind sv (mos_DstConnection x) = Inr KindSSH \<or>
      mos_DstType x = StorageTypeObjectStorage \<and> dst_kind sv (mos_DstConnection x) = Inr KindObjectStorage)
     \<and> (\<exists>b. mos_Buckets x = [b] \<and> omi_Order b = 1)"

definition db_entry_typed :: "services \<Rightarrow> migration_db_model \<Rightarrow> bool" where
  "db_entry_typed sv x \<longleftrightarrow>
     dst_kind sv (mdb_DstConnection x) = Inr KindDBMS \<and> mdb_Databases x \<noteq> []
     \<and> dbms_identity_of sv (mdb_SrcConnection x) = Inr (mdb_DBType x)
     \<and> (\<exists>t. dbms_identity_of sv (mdb_DstConnection x) = Inr t \<and> (mdb_DBType x = t \<or> mdb_DBType x = [] \<or> t = []))"

definition plan_typed :: "services \<Rightarrow> target_data_migration_property \<Rightarrow> bool" where
  "plan_typed sv p \<longleftrightarrow>
     list_all (fs_entry_typed sv) (tdm_FileSystems p) \<and> list_all (os_entry_typed sv) (tdm_ObjectStorages p)
     \<and> list_all (db_entry_typed sv) (tdm_Databases p)"

lemma fs_destination_Inr:
  "fs_destination rules mapping k = Inr t \<Longrightarrow>
     t = StorageTypeFilesystem \<and> k = KindSSH \<or>
     t = StorageTypeObjectStorage \<and> k = KindObjectStorage \<and> validate_rsync_compatible_rules rules = None"
  by (cases k) (auto simp: fs_destination_def check_Inr_iff)

lemma os_destination_Inr:
  "os_destination mapping k = Inr t \<Longrightarrow>
     t = StorageTypeFilesystem \<and> k = KindSSH \<or> t = StorageTypeObjectStorage \<and> k = KindObjectStorage"
  by (cases k) (auto simp: os_destination_def check_Inr_iff)

lemma fs_rule_checks_gate:
  "fs_rule_checks f = None \<Longrightarrow> size_gate_ordering False (case f of None \<Rightarrow> [] | Some g \<Rightarrow> fsf_Rules g) = None"
  by (cases f) (auto simp: fs_rule_checks_def check_err_None_iff validate_size_gate_ordering_def)

lemma built_fs_typed:
  assumes "build_file_system_entry sv uuid n e fs k = Inr (x, n')" and "dst_kind sv (pe_DstConnection e) = Inr k"
  shows "fs_entry_typed sv x"
  using assms(1)
  by (rule build_file_system_entryD)
     (use assms(2) in \<open>auto simp: fs_entry_typed_def dest!: fs_destination_Inr fs_rule_checks_gate\<close>)

lemma built_os_typed:
  assumes "build_object_storage_entry sv uuid n e os k = Inr (x, n')" and "dst_kind sv (pe_DstConnection e) = Inr k"
  shows "os_entry_typed sv x"
  using assms(1)
  by (rule build_object_storage_entryD) (use assms(2) in \<open>auto simp: os_entry_typed_def dest!: os_destination_Inr\<close>)

lemma validate_dbms_engines_Inr:
  "validate_dbms_engines sv s d = Inr t \<Longrightarrow>
     dbms_identity_of sv s = Inr t \<and> (\<exists>u. dbms_identity_of sv d = Inr u \<and> (t = u \<or> t = [] \<or> u = []))"
  by (auto simp: validate_dbms_engines_def bind_res_Inr_iff map_err_Inr_iff split: if_splits)

lemma built_db_typed:
  assumes "build_db_entry sv uuid n e db k = Inr (x, n')" and "dst_kind sv (pe_DstConnection e) = Inr k"
  shows "db_entry_typed sv x"
  using build_db_entryD [OF assms(1)] assms(2) validate_dbms_engines_Inr by (auto simp: db_entry_typed_def)

lemma plan_step_typed:
  assumes "plan_step sv uuid index i e p n = Inr (p', n')" and "plan_typed sv p"
  shows "plan_typed sv p'"
  using assms(1)
proof (rule plan_stepD)
  fix src k
  assume k: "dst_kind sv (pe_DstConnection e) = Inr k" and b: "build_entry sv uuid n e src k p = Inr (p', n')"
  from b show ?thesis
    by (rule build_entryD)
       (use assms(2) in \<open>auto simp: plan_typed_def intro: built_fs_typed [OF _ k] built_os_typed [OF _ k] built_db_typed [OF _ k]\<close>)
qed

text \<open>
  a built plan is well typed: every file system or object storage entry goes to a
  destination connection of exactly the kind its \<open>DstType\<close> names, with one item whose
  rules rsync can be given; every database entry goes to a DBMS connection, selects at
  least one database, and never pairs two known engines that differ.
\<close>

lemma built_plan_well_typed:
  assumes "build_target_data_migration_model sv uuid n req = Inr (p, m)"
  shows "plan_typed sv p"
  using assms
proof (rule built_planD)
  fix index
  assume l: "plan_loop sv uuid index 0 (tpr_Plans req) empty_target n = Inr (p, m)"
  have "plan_typed sv empty_target" by (simp add: plan_typed_def empty_target_def)
  with l show ?thesis by (rule plan_loop_invariant) (rule plan_step_typed)
qed

section \<open>A request to build\<close>

definition ssh_destination :: connection_ref where
  "ssh_destination = (empty_ref ConnectionSourceSSH)\<lparr>cr_SSH :=
     Some \<lparr>ssh_Host = ''h'', ssh_Port = 22, ssh_Username = ''u'', ssh_PrivateKey = ''key''\<rparr>\<rparr>"

definition one_fs_request :: target_plan_req where
  "one_fs_request = \<lparr>tpr_Source = one_fs_source, tpr_Plans = [\<lparr>pe_SrcConnection = honeybee_conn ''c1'',
     pe_DstConnection = ssh_destination, pe_FileSystemStrategy = [], pe_FileSystemFilter = None,
     pe_ObjectStorageFilter = None, pe_DBMSFilter = None, pe_ObjectStorageStrategy = []\<rparr>]\<rparr>"

definition one_fs_plan :: "connection_ref \<Rightarrow> target_data_migration_property" where
  "one_fs_plan dst = empty_target\<lparr>tdm_FileSystems := [\<lparr>mfs_PlanEntryID = ''01234567'',
     mfs_SrcConnection = honeybee_conn ''c1'', mfs_DstConnection = dst, mfs_DstType = StorageTypeFilesystem,
     mfs_Strategy = StrategyDirect,
     mfs_Folders = [\<lparr>fmi_Order = 1, fmi_SrcPath = ''/data'', fmi_DstPath = ''/data'', fmi_Rules = []\<rparr>], mfs_Errors = []\<rparr>]\<rparr>"

lemma one_fs_built:
  "build_target_data_migration_model sample_services (\<lambda>_. ''0123456789'') 0 one_fs_request = Inr (one_fs_plan ssh_destination, 1)"
proof -
  have "trim_space ''/data'' = ''/data''" by (rule trim_space_printable) (simp add: printable_def)
  then have "is_root ''/data'' = False" by (simp add: is_root_iff path_comps_def clean_comps_def clean_step_def)
  then show ?thesis
    by (simp add: build_target_data_migration_model_def one_fs_request_def one_fs_source_def index_source_def source_entries_def
        src_conn_key_def honeybee_conn_def empty_ref_def plan_step_def validate_entry_domain_def given_fields_def dst_kind_def
        ssh_destination_def build_entry_def build_file_system_entry_def fs_rule_checks_def fs_destination_def select_paths_def
        select_migration_path_def resolve_object_storage_dst_path_def new_plan_entry_id_def one_fs_plan_def empty_target_def
        duplicate_destination_def plan_claims_def fs_claims_def root_to_root_def)
qed

lemma built_plan_well_typed_witness:
  "plan_typed sample_services (one_fs_plan ssh_destination)"
  by (rule built_plan_well_typed [OF one_fs_built])

section \<open>The target check at plan time and at run time\<close>

text \<open>
  the plan-time check of a target database foresees the execution: when the target can be
  listed at all, the check passes exactly when \<open>EnsureTargetDatabase\<close> will not refuse the
  target, any remaining error being the engine's own answer to the create statement.
\<close>

lemma target_check_foresees_execution:
  assumes "cr_Source dst = ConnectionSourceBeetleDB \<or> cr_Source dst = ConnectionSourceDB"
    and "target_database_exists sv dst loc = Inr found"
    and "cr_Source dst = ConnectionSourceDB \<Longrightarrow> cr_DB dst \<noteq> None"
  shows "validate_dbms_target_reachable sv dst loc = None \<longleftrightarrow>
     (\<forall>e. snd (ensure_target_database sv ans text_of dst loc info) = Inl e \<longrightarrow> (\<exists>why. e = TargetCreate (loc_Database loc) why))"
proof (cases "cr_Source dst = ConnectionSourceDB")
  case True
  with assms(3) obtain c where c: "cr_DB dst = Some c" by blast
  obtain tr err where r: "create_with_retry sv ans text_of loc (create_option_from (loc_DBMSType loc) info) = (tr, err)"
    by (meson surj_pair)
  show ?thesis
    using True assms(2) c r
    by (cases found; cases err) (auto simp: validate_dbms_target_reachable_def ensure_target_database_def)
next
  case False
  with assms(1) have b: "cr_Source dst = ConnectionSourceBeetleDB" by blast
  with assms(2) obtain b' ref where ref: "cr_BeetleDB dst = Some b'" "decrypt_ref (sv_sealer sv) dst = Inr ref"
    by (auto simp: target_database_exists_def bind_res_Inr_iff map_err_Inr_iff split: option.splits)
  show ?thesis
    using b assms(2) ref
    by (cases found) (auto simp: validate_dbms_target_reachable_def ensure_target_database_def Let_def split: prod.split option.split)
qed

definition aws_db_ref :: connection_ref where
  "aws_db_ref = toy_db_ref\<lparr>cr_DB := map_option (dbc_ProviderName_update (\<lambda>_. ''aws'')) (cr_DB toy_db_ref)\<rparr>"

lemma target_check_foresees_execution_witness:
  "\<exists>e. snd (ensure_target_database sample_services (\<lambda>_. None) (\<lambda>_. []) aws_db_ref (sample_direct []) None) = Inl e
     \<and> (\<forall>why. e \<noteq> TargetCreate ''shop'' why)"
proof -
  have src: "cr_Source aws_db_ref = ConnectionSourceDB" "cr_DB aws_db_ref \<noteq> None"
    "dbc_ProviderName (the (cr_DB aws_db_ref)) = ''aws''"
    by (simp_all add: aws_db_ref_def toy_db_ref_def empty_ref_def)
  have loc: "loc_Database (sample_direct []) = ''shop''" "loc_DBMSType (sample_direct []) = PostgreSQL"
    by (simp_all add: sample_direct_def)
  have ex: "target_database_exists sample_services aws_db_ref (sample_direct []) = Inr False"
    by (simp add: target_database_exists_def src datamig_list_databases_def)
       (simp add: sample_services_def sample_direct_def dbms_validate_eval new_db_driver_def)
  have "validate_dbms_target_reachable sample_services aws_db_ref (sample_direct []) \<noteq> None"
    using src loc by (auto simp: validate_dbms_target_reachable_def ex equal_fold_def to_lower_def lower_char_def split: option.splits)
  with target_check_foresees_execution [OF _ ex, of "\<lambda>_. None" "\<lambda>_. []" None] src
  show ?thesis by (auto simp: loc)
qed

end
