(* ===== verification/PlanController.thy ===== *)
theory PlanController
  imports PlanTarget
begin

text \<open>
  The plan handler of \<open>pkg/api/rest/controller/plan.go\<close>: the structural checks of every
  reference of the request, the builder, and the encryption of what it answers. The bound
  request body is an argument; a body that does not bind is its \<open>Inl\<close>.
\<close>

section \<open>Structural checks\<close>

text \<open>A message, \<open>None\<close> standing for the empty string; only two messages carry an argument.\<close>

datatype ref_msg =
    RefMsg string
  | UnknownRefSource connection_source
  | SourceNotHoneybee connection_source

fun require :: "(bool \<times> ref_msg) list \<Rightarrow> ref_msg option" where
  "require [] = None"
| "require ((missing, msg) # rest) = (if missing then Some msg else require rest)"

abbreviation single_quoted :: "string \<Rightarrow> string" where "single_quoted s \<equiv> CHR 0x27 # s @ [CHR 0x27]"

definition access_type_msg :: "db_conn_config \<Rightarrow> ref_msg option" where
  "access_type_msg c =
     (if dbc_AccessType c = ''direct'' then
        (if dbc_Host c = [] then Some (RefMsg ''db.host is required for accessType=direct'') else None)
      else if dbc_AccessType c = ''sshTunnel'' then
        (if (case dbc_SSHTunnel c of None \<Rightarrow> True
             | Some t \<Rightarrow> ssh_Host t = [] \<or> ssh_Username t = [] \<or> ssh_PrivateKey t = [])
         then Some (RefMsg ''db.sshTunnel.host, username, privateKey are required for accessType=sshTunnel'') else None)
      else Some (RefMsg (''db.accessType must be '' @ single_quoted ''direct'' @ '' or '' @ single_quoted ''sshTunnel'')))"

definition validate_connection_ref :: "connection_ref \<Rightarrow> ref_msg option" where
  "validate_connection_ref ref =
     (case cr_Source ref of
        ConnectionSourceHoneybee \<Rightarrow>
          (if (case cr_Honeybee ref of None \<Rightarrow> True | Some h \<Rightarrow> hb_ConnectionID h = [])
           then Some (RefMsg ''honeybee.connectionId is required'') else None)
      | ConnectionSourceBeetleSSH \<Rightarrow>
          (case cr_BeetleSSH ref of
             None \<Rightarrow> Some (RefMsg ''beetleSsh is required'')
           | Some b \<Rightarrow> require [(bssh_NsID b = [] \<or> bssh_InfraID b = [] \<or> bssh_NodeID b = [],
                                RefMsg ''beetleSsh.nsId, infraId, nodeId are required'')])
      | ConnectionSourceBeetleObjectStorage \<Rightarrow>
          (case cr_BeetleOS ref of
             None \<Rightarrow> Some (RefMsg ''beetleObjectStorage is required'')
           | Some b \<Rightarrow> require [(bos_NsID b = [] \<or> bos_OsID b = [],
                                RefMsg ''beetleObjectStorage.nsId, osId are required'')])
      | ConnectionSourceBeetleDB \<Rightarrow>
          (case cr_BeetleDB ref of
             None \<Rightarrow> Some (RefMsg ''beetleDb is required'')
           | Some b \<Rightarrow> require
               [(bdb_NsID b = [] \<or> bdb_RdbmsID b = [], RefMsg ''beetleDb.nsId, rdbmsId are required''),
                (bdb_Username b = [], RefMsg ''beetleDb.username is required (cm-beetle does not report the admin user name)''),
                (bdb_Password b = [], RefMsg ''beetleDb.password is required (managed RDB APIs do not return it)'')])
      | ConnectionSourceSSH \<Rightarrow>
          (case cr_SSH ref of
             None \<Rightarrow> Some (RefMsg ''ssh is required'')
           | Some c \<Rightarrow> require [(ssh_Host c = [] \<or> ssh_Username c = [] \<or> ssh_PrivateKey c = [],
                                RefMsg ''ssh.host, username, privateKey are required'')])
      | ConnectionSourceMinio \<Rightarrow>
          (case cr_Minio ref of
             None \<Rightarrow> Some (RefMsg ''minio is required'')
           | Some c \<Rightarrow> require
               [(mc_ProviderName c = [] \<or> mc_AccessKeyId c = [] \<or> mc_SecretAccessKey c = [],
                 RefMsg ''minio.providerName, accessKeyId, secretAccessKey are required''),
                ((mc_ProviderName c = ProviderOpenStack \<or> mc_ProviderName c = ProviderOnPrem) \<and> mc_Endpoint c = [],
                 RefMsg ''minio.endpoint is required for providerName openstack or onprem'')])
      | ConnectionSourceDB \<Rightarrow>
          (case cr_DB ref of
             None \<Rightarrow> Some (RefMsg ''db is required'')
           | Some c \<Rightarrow>
               check_err (require [(dbc_ProviderName c = [] \<or> dbc_DBMSType c = [] \<or> dbc_AccessType c = [],
                                    RefMsg ''db.providerName, dbmsType, accessType are required'')])
                 (access_type_msg c))
      | UnknownSource s \<Rightarrow> Some (UnknownRefSource (UnknownSource s)))"

definition validate_source_connection_ref :: "connection_ref \<Rightarrow> ref_msg option" where
  "validate_source_connection_ref ref =
     (if cr_Source ref \<noteq> ConnectionSourceHoneybee then Some (SourceNotHoneybee (cr_Source ref))
      else if (case cr_Honeybee ref of None \<Rightarrow> True | Some h \<Rightarrow> hb_ConnectionID h = [])
      then Some (RefMsg ''honeybee.connectionId is required'')
      else if cr_BeetleSSH ref \<noteq> None \<or> cr_BeetleOS ref \<noteq> None \<or> cr_BeetleDB ref \<noteq> None \<or>
              cr_SSH ref \<noteq> None \<or> cr_Minio ref \<noteq> None \<or> cr_DB ref \<noteq> None
      then Some (RefMsg ''source connection carries a sub-field belonging to another source'')
      else None)"

section \<open>The handler\<close>

datatype bad_request =
    InvalidBody string
  | PlansRequired
  | SourceRef string ref_msg
  | PlanRef nat string ref_msg
  | PlanInvalid plan_msg

text \<open>200, 400 and 500, and the panic a nil dereference would be.\<close>

datatype plan_response =
    PlanOK target_data_migration_property
  | PlanBadRequest bad_request
  | PlanBuildFailed external_msg
  | PlanEncryptFailed string
  | PlanPanic

definition source_refs_check :: "source_data_migration_property \<Rightarrow> bad_request option" where
  "source_refs_check src =
     check_err (first_err (\<lambda>e. map_option (SourceRef ''fileSystem source connection'')
                  (validate_source_connection_ref (sfs_Connection e))) (sdm_FileSystems src))
     (check_err (first_err (\<lambda>e. map_option (SourceRef ''objectStorage source connection'')
                  (validate_source_connection_ref (sos_Connection e))) (sdm_ObjectStorages src))
       (first_err (\<lambda>e. map_option (SourceRef ''db source connection'')
                  (validate_source_connection_ref (sdb_Connection e))) (sdm_Databases src)))"

definition plan_refs_check :: "plan_entry list \<Rightarrow> bad_request option" where
  "plan_refs_check plans =
     first_err (\<lambda>(i, e).
       check_err (map_option (PlanRef i ''srcConnection'') (validate_source_connection_ref (pe_SrcConnection e)))
         (map_option (PlanRef i ''dstConnection'') (validate_connection_ref (pe_DstConnection e)))) (enum 0 plans)"

definition answer_plan :: "sealer \<Rightarrow> nat \<Rightarrow> plan_error + target_data_migration_property \<times> nat \<Rightarrow> plan_response" where
  "answer_plan s nonce built =
     (case built of
        Inl (ValidationError m) \<Rightarrow> PlanBadRequest (PlanInvalid m)
      | Inl (ExternalError e) \<Rightarrow> PlanBuildFailed e
      | Inl NilDereference \<Rightarrow> PlanPanic
      | Inr (p, _) \<Rightarrow>
          (case encrypt_plan s nonce p of
             Inl e \<Rightarrow> PlanEncryptFailed e
           | Inr (q, _) \<Rightarrow> PlanOK q))"

definition get_target_plan ::
  "services \<Rightarrow> (nat \<Rightarrow> string) \<Rightarrow> nat \<Rightarrow> nat \<Rightarrow> string + target_plan_req \<Rightarrow> plan_response" where
  "get_target_plan sv uuid n nonce body =
     (case body of
        Inl e \<Rightarrow> PlanBadRequest (InvalidBody e)
      | Inr req \<Rightarrow>
          (if tpr_Plans req = [] then PlanBadRequest PlansRequired
           else (case check_err (source_refs_check (tpr_Source req)) (plan_refs_check (tpr_Plans req)) of
                   Some b \<Rightarrow> PlanBadRequest b
                 | None \<Rightarrow> answer_plan (sv_sealer sv) nonce (build_target_data_migration_model sv uuid n req))))"

section \<open>No nil dereference\<close>

text \<open>
  \<open>nil_free r\<close>: the computation does not end in a nil dereference. One rule per combinator
  carries this through the builders.
\<close>

definition nil_free :: "plan_error + 'a \<Rightarrow> bool" where
  "nil_free r \<longleftrightarrow> r \<noteq> Inl NilDereference"

named_theorems no_nil

lemma nil_free_simps [simp]:
  "nil_free (Inr x)" "nil_free (Inl e) \<longleftrightarrow> e \<noteq> NilDereference"
  by (simp_all add: nil_free_def)

lemma no_nil_bind [no_nil]:
  "nil_free r \<Longrightarrow> (\<And>x. r = Inr x \<Longrightarrow> nil_free (f x)) \<Longrightarrow> nil_free (bind_res r f)"
  by (cases r) (auto simp: nil_free_def)

lemma no_nil_check [no_nil]: "c \<noteq> Some NilDereference \<Longrightarrow> nil_free k \<Longrightarrow> nil_free (check c k)"
  by (cases c) (auto simp: nil_free_def)

lemma wrap_nil [simp]:
  "wrap_external f e = NilDereference \<longleftrightarrow> e = NilDereference"
  "wrap_entry_err i e = NilDereference \<longleftrightarrow> e = NilDereference"
  by (cases e; simp)+

lemma nil_free_map_err [simp]:
  "nil_free (map_err (wrap_external f) r) \<longleftrightarrow> nil_free r" "nil_free (map_err (wrap_entry_err i) r) \<longleftrightarrow> nil_free r"
  by (cases r; simp)+

lemma first_err_no_nil: "(\<And>x. x \<in> set xs \<Longrightarrow> f x \<noteq> Some NilDereference) \<Longrightarrow> first_err f xs \<noteq> Some NilDereference"
  by (auto dest: first_err_Some)

definition honeybee_ok :: "connection_ref \<Rightarrow> bool" where
  "honeybee_ok ref \<longleftrightarrow> (cr_Source ref = ConnectionSourceHoneybee \<longrightarrow> cr_Honeybee ref \<noteq> None)"

lemma dst_kind_no_nil: "honeybee_ok ref \<Longrightarrow> nil_free (dst_kind sv ref)"
  by (auto simp: dst_kind_def honeybee_ok_def split: connection_source.splits option.splits sum.splits)

lemma dbms_identity_no_nil: "honeybee_ok ref \<Longrightarrow> nil_free (dbms_identity_of sv ref)"
  by (auto simp: dbms_identity_of_def honeybee_ok_def split: connection_source.splits option.splits sum.splits)

lemma select_paths_no_nil: "nil_free (select_paths sv root folders mapping domain dst k)"
  by (auto simp: select_paths_def select_migration_path_def Let_def validate_object_storage_target_reachable_def
      split: option.splits sum.splits bool.splits intro!: no_nil)

lemma size_gate_no_nil: "size_gate_ordering b rs \<noteq> Some NilDereference"
  by (induction b rs rule: size_gate_ordering.induct) auto

lemma rsync_rules_no_nil: "validate_rsync_compatible_rules rs \<noteq> Some NilDereference"
  unfolding validate_rsync_compatible_rules_def by (rule first_err_no_nil) (simp add: rsync_compatible_rule_def)

lemma cross_storage_no_nil: "validate_cross_storage_dst dm t m \<noteq> Some NilDereference"
  by (simp add: validate_cross_storage_dst_def Let_def)

lemma storage_mapping_no_nil: "validate_storage_mapping dm m \<noteq> Some NilDereference"
  by (simp add: validate_storage_mapping_def split: option.split)

lemma include_no_nil: "validate_include_has_effect dm rs \<noteq> Some NilDereference"
  unfolding validate_include_has_effect_def Let_def by (rule first_err_no_nil) (simp split: prod.split)

lemmas rule_checks_no_nil = size_gate_no_nil rsync_rules_no_nil cross_storage_no_nil storage_mapping_no_nil include_no_nil

lemma fs_entry_no_nil: "nil_free (build_file_system_entry sv uuid n e fs k)"
proof -
  have "fs_rule_checks f \<noteq> Some NilDereference" for f
    by (simp add: fs_rule_checks_def check_err_Some_iff validate_size_gate_ordering_def rule_checks_no_nil split: option.split)
  moreover have "nil_free (fs_destination rules m k)" for rules m
    by (cases k) (simp_all add: fs_destination_def no_nil_check rule_checks_no_nil)
  ultimately show ?thesis
    by (auto simp: build_file_system_entry_def Let_def new_plan_entry_id_def intro!: no_nil select_paths_no_nil)
qed

lemma os_entry_no_nil: "nil_free (build_object_storage_entry sv uuid n e os k)"
proof -
  have "os_rule_checks f \<noteq> Some NilDereference" for f
    by (simp add: os_rule_checks_def check_err_Some_iff rule_checks_no_nil split: option.split)
  moreover have "nil_free (os_destination m k)" for m
    by (cases k) (simp_all add: os_destination_def no_nil_check rule_checks_no_nil)
  ultimately show ?thesis
    by (auto simp: build_object_storage_entry_def Let_def new_plan_entry_id_def intro!: no_nil select_paths_no_nil)
qed

lemma check_db_item_no_nil: "check_db_item sv e db t it \<noteq> Some NilDereference"
proof -
  have "validate_object_rules t i rs \<noteq> Some NilDereference" for i rs
    unfolding validate_object_rules_def
    by (rule first_err_no_nil) (auto simp: object_rule_def Let_def split: prod.splits option.splits if_splits)
  moreover have "validate_dbms_version sv a b c t \<noteq> Some NilDereference" for a b c
    by (auto simp: validate_dbms_version_def split: sum.splits if_splits)
  moreover have "validate_dbms_target_reachable sv d l \<noteq> Some NilDereference" for d l
    by (auto simp: validate_dbms_target_reachable_def split: sum.splits if_splits)
  ultimately show ?thesis by (auto simp: check_db_item_def check_err_Some_iff split: sum.splits)
qed

lemma validate_pg_schemas_no_nil: "validate_pg_schemas t d ps \<noteq> Some NilDereference"
proof -
  have "pg_schema_pairs d a b ps \<noteq> Some NilDereference" for a b
    by (induction d a b ps rule: pg_schema_pairs.induct) (simp_all add: Let_def)
  then show ?thesis by (simp add: validate_pg_schemas_def)
qed

lemma select_databases_no_nil: "nil_free (select_databases av t o' ss ds es)"
  by (induction av t o' ss ds es rule: select_databases.induct)
     (auto simp: Let_def intro!: no_nil validate_pg_schemas_no_nil)

lemma db_entry_no_nil:
  assumes "honeybee_ok (sdb_Connection db)" and "honeybee_ok (pe_DstConnection e)"
  shows "nil_free (build_db_entry sv uuid n e db k)"
proof -
  have "nil_free (validate_dbms_engines sv (sdb_Connection db) (pe_DstConnection e))"
    unfolding validate_dbms_engines_def
    by (intro no_nil) (simp_all add: dbms_identity_no_nil assms)
  moreover have "nil_free (build_db_migration_infos av t f)" for av t f
    by (auto simp: build_db_migration_infos_def select_databases_no_nil split: option.split)
  moreover have "first_err (check_db_item sv e db t) its \<noteq> Some NilDereference" for t its
    by (rule first_err_no_nil) (rule check_db_item_no_nil)
  ultimately show ?thesis
    by (auto simp: build_db_entry_def Let_def new_plan_entry_id_def intro!: no_nil)
qed

text \<open>What the handler's structural checks give the builder.\<close>

definition index_ok :: "(string \<rightharpoonup> source_entry) \<Rightarrow> bool" where
  "index_ok index \<longleftrightarrow>
     (\<forall>k src. index k = Some src \<longrightarrow>
        (case se_kind src of
           KindSSH \<Rightarrow> se_fs src \<noteq> None
         | KindObjectStorage \<Rightarrow> se_os src \<noteq> None
         | KindDBMS \<Rightarrow> (\<exists>db. se_db src = Some db \<and> honeybee_ok (sdb_Connection db))))"

lemma plan_step_no_nil:
  assumes "index_ok index" and "honeybee_ok (pe_DstConnection e)"
  shows "nil_free (plan_step sv uuid index i e p n)"
proof (cases "index (src_conn_key (pe_SrcConnection e))")
  case (Some src)
  from assms(1) Some have src: "case se_kind src of KindSSH \<Rightarrow> se_fs src \<noteq> None | KindObjectStorage \<Rightarrow> se_os src \<noteq> None
      | KindDBMS \<Rightarrow> (\<exists>db. se_db src = Some db \<and> honeybee_ok (sdb_Connection db))"
    by (simp add: index_ok_def)
  have "nil_free (build_entry sv uuid n e src k p)" for k
    using src by (auto simp: build_entry_def split: data_kind.splits
        intro!: no_nil fs_entry_no_nil os_entry_no_nil db_entry_no_nil assms(2))
  with Some show ?thesis
    by (auto simp: plan_step_def intro!: no_nil dst_kind_no_nil assms(2))
qed (simp add: plan_step_def)

lemma plan_loop_no_nil:
  assumes "index_ok index" and "\<forall>e\<in>set es. honeybee_ok (pe_DstConnection e)"
  shows "nil_free (plan_loop sv uuid index i es p n)"
  using assms(2) by (induction es arbitrary: i p n) (auto intro!: no_nil plan_step_no_nil assms(1))

lemma source_ref_checked: "validate_source_connection_ref ref = None \<Longrightarrow> honeybee_ok ref"
  by (auto simp: validate_source_connection_ref_def honeybee_ok_def split: if_splits option.splits)

lemma dst_ref_checked: "validate_connection_ref ref = None \<Longrightarrow> honeybee_ok ref"
  by (auto simp: validate_connection_ref_def honeybee_ok_def split: if_splits option.splits)

lemma index_source_ok:
  assumes "index_source src = Inr index" and "\<forall>e\<in>set (sdm_Databases src). honeybee_ok (sdb_Connection e)"
  shows "index_ok index"
  unfolding index_ok_def
proof (intro allI impI)
  fix k e assume "index k = Some e"
  from source_entries_kinds [OF index_source_sound [OF assms(1) this]] assms(2)
  show "case se_kind e of KindSSH \<Rightarrow> se_fs e \<noteq> None | KindObjectStorage \<Rightarrow> se_os e \<noteq> None
      | KindDBMS \<Rightarrow> (\<exists>db. se_db e = Some db \<and> honeybee_ok (sdb_Connection db))"
    by auto
qed

lemma add_sources_no_nil: "nil_free (add_sources index es)"
  by (induction index es rule: add_sources.induct) (auto simp del: fun_upd_apply split: option.split)

lemma build_no_nil:
  assumes "source_refs_check (tpr_Source req) = None" and "plan_refs_check (tpr_Plans req) = None"
  shows "nil_free (build_target_data_migration_model sv uuid n req)"
proof -
  have "\<forall>e\<in>set (sdm_Databases (tpr_Source req)). honeybee_ok (sdb_Connection e)"
    using assms(1) by (auto simp: source_refs_check_def check_err_None_iff intro: source_ref_checked)
  moreover have "\<forall>e\<in>set (tpr_Plans req). honeybee_ok (pe_DstConnection e)"
  proof
    fix e assume "e \<in> set (tpr_Plans req)"
    then obtain i where "i < length (tpr_Plans req)" "e = tpr_Plans req ! i" by (auto simp: in_set_conv_nth)
    with assms(2) show "honeybee_ok (pe_DstConnection e)"
      by (intro dst_ref_checked) (auto simp: plan_refs_check_def ball_enum check_err_None_iff)
  qed
  ultimately show ?thesis
    unfolding build_target_data_migration_model_def
    by (intro no_nil) (auto simp: index_source_def add_sources_no_nil split: prod.split
        intro!: no_nil plan_loop_no_nil index_source_ok [unfolded index_source_def])
qed

text \<open>
  C14: the plan handler never dereferences a nil sub-struct: whatever a caller posts and
  whatever the services answer, the structural checks that run first leave the builder
  no reference, source entry or mapping it would read through a nil pointer.
\<close>

theorem plan_handler_never_panics:
  "get_target_plan sv uuid n nonce body \<noteq> PlanPanic"
proof (cases body)
  case (Inr req)
  have "answer_plan s k r \<noteq> PlanPanic" if "nil_free r" for s k r
    using that by (auto simp: answer_plan_def split: sum.splits plan_error.splits)
  then show ?thesis
    using Inr build_no_nil by (auto simp: get_target_plan_def check_err_None_iff split: option.split)
qed (simp add: get_target_plan_def)

section \<open>What a 200 carries\<close>

lemma dst_key_blank [simp]: "dst_key (blank_ref r) = dst_key r"
  by (auto simp: dst_key_def blank_ref_def blank_db_def unresolved_key_def split: connection_source.split option.split)

lemma plan_claims_blank: "plan_claims (blank_plan p) = plan_claims p"
  by (simp add: plan_claims_def blank_plan_def fs_claims_def [abs_def] os_claims_def [abs_def] db_claims_def [abs_def] comp_def)

lemma root_to_root_blank: "root_to_root (blank_plan p) = root_to_root p"
proof -
  have "root_to_root_entries (map (\<lambda>e. e\<lparr>mfs_SrcConnection := f e, mfs_DstConnection := g e\<rparr>) es) = root_to_root_entries es"
    for f g and es :: "migration_file_system_model list"
    by (induction es) (simp_all split: option.split)
  then show ?thesis by (simp add: root_to_root_def blank_plan_def)
qed

lemma entry_ids_empty: "plan_entry_ids empty_target = []"
  by (simp add: plan_entry_ids_def empty_target_def)

lemma entry_ids_blank: "plan_entry_ids (blank_plan p) = plan_entry_ids p"
  by (simp add: plan_entry_ids_def blank_plan_def comp_def)


lemma one_fs_answered:
  "get_target_plan sample_services (\<lambda>_. ''0123456789'') 0 0 (Inr one_fs_request) =
     PlanOK (one_fs_plan (ssh_destination\<lparr>cr_SSH := Some \<lparr>ssh_Host = ''h'', ssh_Port = 22, ssh_Username = ''u'', ssh_PrivateKey = ''enc:0.key''\<rparr>\<rparr>))"
proof -
  have "source_refs_check (tpr_Source one_fs_request) = None" "plan_refs_check (tpr_Plans one_fs_request) = None"
    "tpr_Plans one_fs_request \<noteq> []"
    by (simp_all add: source_refs_check_def plan_refs_check_def one_fs_request_def one_fs_source_def ssh_destination_def
        honeybee_conn_def empty_ref_def validate_source_connection_ref_def validate_connection_ref_def)
  then show ?thesis
    by (simp add: get_target_plan_def one_fs_built answer_plan_def)
       (simp add: one_fs_plan_def empty_target_def encrypt_plan_def for_each_ref_def ssh_destination_def encrypt_ref_def
          transform_ref_def transform_opt_def transform_ssh_def honeybee_conn_def empty_ref_def labelled_def enc_def
          crypto_encrypt_def sample_services_def toy_sealer_def digits_01)
qed


end
