(* ===== verification/S3Progress.thy ===== *)
theory S3Progress
  imports TransferCore
begin

text \<open>
  The byte accounting of a transfer of many objects, \<open>s3Progress\<close> of \<open>executor-s3.go\<close>: every
  worker calls it under one lock, so a run is a list of calls in lock order. An object in
  flight is credited up to the position read; a retry reads from the start and counts nothing
  until it passes where the attempt before it got. Sums of sizes stay below \<open>2 ^ 63\<close> (8 EiB),
  so the counters are unbounded integers here.
\<close>

section \<open>The counter\<close>

record s3_progress =
  pg_bytes :: int
  pg_files :: int
  pg_reported :: int
  pg_out :: "update list"

abbreviation s3ReportEvery :: int where "s3ReportEvery \<equiv> 2 ^ 20"

definition new_progress :: s3_progress where
  "new_progress = \<lparr>pg_bytes = 0, pg_files = 0, pg_reported = 0, pg_out = []\<rparr>"

definition progress_update :: "int \<Rightarrow> int \<Rightarrow> string \<Rightarrow> update" where
  "progress_update bytes files item =
     \<lparr>u_Step = 0, u_Steps = 0, u_Bytes = bytes, u_Files = files, u_Item = item, u_Rows = 0, u_Units = 0, u_UnitsTotal = 0,
      u_Phase = [], u_Concurrency = 0, u_ConcurrencyNote = []\<rparr>"

definition progress_report :: "string \<Rightarrow> s3_progress \<Rightarrow> s3_progress" where
  "progress_report item p =
     p\<lparr>pg_reported := pg_bytes p, pg_out := pg_out p @ [progress_update (pg_bytes p) (pg_files p) item]\<rparr>"

definition progress_done :: "int \<Rightarrow> string \<Rightarrow> s3_progress \<Rightarrow> s3_progress" where
  "progress_done sz item p = progress_report item (p\<lparr>pg_bytes := pg_bytes p + sz, pg_files := pg_files p + 1\<rparr>)"

text \<open>\<open>credited\<close> is the object's own count, shared by its attempts.\<close>

definition progress_credit :: "int \<Rightarrow> int \<Rightarrow> string \<Rightarrow> s3_progress \<Rightarrow> int \<times> s3_progress" where
  "progress_credit credited pos item p =
     (if pos \<le> credited then (credited, p)
      else (let p1 = p\<lparr>pg_bytes := pg_bytes p + (pos - credited)\<rparr>
            in (pos, if pg_bytes p1 - pg_reported p1 \<ge> s3ReportEvery then progress_report item p1 else p1)))"

definition progress_finish :: "int \<Rightarrow> int \<Rightarrow> string \<Rightarrow> s3_progress \<Rightarrow> int \<times> s3_progress" where
  "progress_finish credited sz item p =
     (let (c, p1) = (if sz > credited then (sz, p\<lparr>pg_bytes := pg_bytes p + (sz - credited)\<rparr>) else (credited, p))
      in (c, progress_report item (p1\<lparr>pg_files := pg_files p1 + 1\<rparr>)))"

section \<open>Calls from many workers\<close>

datatype progress_call = Done nat | Credit nat int | Finish nat

fun progress_step :: "(nat \<Rightarrow> int) \<Rightarrow> (nat \<Rightarrow> string) \<Rightarrow> progress_call \<Rightarrow> (nat \<Rightarrow> int) \<times> s3_progress \<Rightarrow> (nat \<Rightarrow> int) \<times> s3_progress" where
  "progress_step sz name (Done i) (cr, p) = (cr, progress_done (sz i) (name i) p)"
| "progress_step sz name (Credit i pos) (cr, p) =
     (let (c, p') = progress_credit (cr i) pos (name i) p in (cr(i := c), p'))"
| "progress_step sz name (Finish i) (cr, p) =
     (let (c, p') = progress_finish (cr i) (sz i) (name i) p in (cr(i := c), p'))"

definition progress_run :: "(nat \<Rightarrow> int) \<Rightarrow> (nat \<Rightarrow> string) \<Rightarrow> progress_call list \<Rightarrow> (nat \<Rightarrow> int) \<times> s3_progress \<Rightarrow> (nat \<Rightarrow> int) \<times> s3_progress" where
  "progress_run sz name calls st = fold (progress_step sz name) calls st"

text \<open>
  The calls a transfer of the objects below \<open>n\<close> makes: an object is finished once, whether it
  was counted on the way (\<open>Credit\<close>, then \<open>Finish\<close>) or only at its end (\<open>Done\<close>), and nothing of it
  is read after it finished. A read may go past the size the object was listed with: a stream
  copies what the server sends, whose length is its own.
\<close>

fun orderly :: "nat \<Rightarrow> nat list \<Rightarrow> nat list \<Rightarrow> progress_call list \<Rightarrow> bool" where
  "orderly n started ended [] = True"
| "orderly n started ended (Done i # cs) =
     (i < n \<and> i \<notin> set started \<and> i \<notin> set ended \<and> orderly n started (i # ended) cs)"
| "orderly n started ended (Credit i pos # cs) =
     (i < n \<and> i \<notin> set ended \<and> orderly n (i # started) ended cs)"
| "orderly n started ended (Finish i # cs) =
     (i < n \<and> i \<notin> set ended \<and> orderly n (i # started) (i # ended) cs)"

fun ends_of :: "progress_call list \<Rightarrow> nat list" where
  "ends_of [] = []"
| "ends_of (Done i # cs) = i # ends_of cs"
| "ends_of (Finish i # cs) = i # ends_of cs"
| "ends_of (Credit i pos # cs) = ends_of cs"

text \<open>How far each object has got: the furthest position read of it, and at least its size once it ended.\<close>

fun reach_step :: "(nat \<Rightarrow> int) \<Rightarrow> progress_call \<Rightarrow> (nat \<Rightarrow> int) \<Rightarrow> nat \<Rightarrow> int" where
  "reach_step sz (Done i) g = g(i := sz i)"
| "reach_step sz (Credit i pos) g = g(i := max (g i) pos)"
| "reach_step sz (Finish i) g = g(i := max (sz i) (g i))"

definition reached :: "(nat \<Rightarrow> int) \<Rightarrow> progress_call list \<Rightarrow> nat \<Rightarrow> int" where
  "reached sz calls = fold (reach_step sz) calls (\<lambda>_. 0)"

definition within_sizes :: "(nat \<Rightarrow> int) \<Rightarrow> progress_call list \<Rightarrow> bool" where
  "within_sizes sz calls \<longleftrightarrow> list_all (\<lambda>c. case c of Credit i pos \<Rightarrow> pos \<le> sz i | _ \<Rightarrow> True) calls"

text \<open>The bytes of the last report sent.\<close>

definition told :: "s3_progress \<Rightarrow> int" where
  "told p = (if pg_out p = [] then 0 else u_Bytes (last (pg_out p)))"

section \<open>The invariant\<close>

text \<open>What was reported never decreases and never runs ahead of the counters.\<close>

definition reports_ok :: "s3_progress \<Rightarrow> bool" where
  "reports_ok p \<longleftrightarrow> pg_reported p \<le> pg_bytes p \<and> pg_bytes p - pg_reported p < s3ReportEvery
     \<and> sorted (map u_Bytes (pg_out p)) \<and> sorted (map u_Files (pg_out p))
     \<and> (\<forall>u\<in>set (pg_out p). 0 \<le> u_Bytes u \<and> u_Bytes u \<le> pg_reported p \<and> u_Files u \<le> pg_files p) \<and> pg_reported p = told p"

lemma progress_report_fields [simp]:
  "pg_bytes (progress_report item p) = pg_bytes p" "pg_files (progress_report item p) = pg_files p"
  "pg_reported (progress_report item p) = pg_bytes p"
  "pg_out (progress_report item p) = pg_out p @ [progress_update (pg_bytes p) (pg_files p) item]"
  "u_Bytes (progress_update b f item) = b" "u_Files (progress_update b f item) = f"
  by (simp_all add: progress_report_def progress_update_def)

lemma reports_ok_report:
  "reports_ok p \<Longrightarrow> 0 \<le> d \<Longrightarrow> 0 \<le> k \<Longrightarrow> 0 \<le> pg_bytes p \<Longrightarrow>
     reports_ok (progress_report item (p\<lparr>pg_bytes := pg_bytes p + d, pg_files := pg_files p + k\<rparr>))"
  unfolding reports_ok_def told_def by (auto simp: sorted_append)

lemma progress_done_alt:
  "progress_done sz item p = progress_report item (p\<lparr>pg_bytes := pg_bytes p + sz, pg_files := pg_files p + 1\<rparr>)"
  "snd (progress_finish c sz item p) = progress_report item (p\<lparr>pg_bytes := pg_bytes p + (max sz c - c), pg_files := pg_files p + 1\<rparr>)"
  "fst (progress_finish c sz item p) = max sz c"
  by (simp_all add: progress_done_def progress_finish_def max_def)

lemma progress_credit_fields:
  "fst (progress_credit c pos item p) = max c pos"
  "pg_bytes (snd (progress_credit c pos item p)) = pg_bytes p + (max c pos - c)"
  "pg_files (snd (progress_credit c pos item p)) = pg_files p"
  by (auto simp: progress_credit_def Let_def max_def)

lemma reports_ok_credit:
  assumes "reports_ok p" and "0 \<le> pg_bytes p"
  shows "reports_ok (snd (progress_credit c pos item p))"
proof -
  have "reports_ok (progress_report item (p\<lparr>pg_bytes := pg_bytes p + (pos - c)\<rparr>))" if "c < pos"
    using reports_ok_report [OF assms(1), of "pos - c" 0 item] that assms(2) by simp
  moreover have "reports_ok (p\<lparr>pg_bytes := pg_bytes p + (pos - c)\<rparr>)"
    if "c < pos" "pg_bytes p + (pos - c) - pg_reported p < s3ReportEvery"
  proof -
    have "told (p\<lparr>pg_bytes := pg_bytes p + (pos - c)\<rparr>) = told p" by (simp add: told_def)
    then show ?thesis using assms(1) that unfolding reports_ok_def by auto
  qed
  ultimately show ?thesis using assms(1) by (auto simp: progress_credit_def Let_def)
qed

text \<open>\<open>g\<close> is what each object has contributed to the count.\<close>

definition counted :: "nat \<Rightarrow> nat list \<Rightarrow> nat list \<Rightarrow> (nat \<Rightarrow> int) \<Rightarrow> (nat \<Rightarrow> int) \<Rightarrow> s3_progress \<Rightarrow> bool" where
  "counted n started ended g cr p \<longleftrightarrow>
     pg_bytes p = (\<Sum>i<n. g i) \<and> (\<forall>i<n. 0 \<le> g i)
   \<and> (\<forall>i<n. i \<notin> set ended \<longrightarrow> g i = cr i) \<and> (\<forall>i<n. i \<notin> set started \<longrightarrow> cr i = 0)
   \<and> pg_files p = int (length ended) \<and> distinct ended \<and> set ended \<subseteq> {..<n}"

lemma sum_upd: "(i :: nat) < n \<Longrightarrow> (\<Sum>j<n. (g(i := v)) j) = (\<Sum>j<n. g j) - g i + (v :: int)"
proof -
  assume i: "(i :: nat) < n"
  have "(\<Sum>j<n. (g(i := v)) j) = v + (\<Sum>j\<in>{..<n} - {i}. (g(i := v)) j)"
    using sum.remove [of "{..<n}" i "g(i := v)"] i by simp
  also have "(\<Sum>j\<in>{..<n} - {i}. (g(i := v)) j) = (\<Sum>j\<in>{..<n} - {i}. g j)" by (rule sum.cong) auto
  also have "\<dots> = (\<Sum>j<n. g j) - g i" using i by (simp add: sum_diff1)
  finally show ?thesis by simp
qed

lemma counted_done:
  assumes "counted n started ended g cr p" and "i < n" "i \<notin> set started" "i \<notin> set ended" and "0 \<le> sz"
  shows "counted n started (i # ended) (g(i := sz)) cr (progress_done sz item p)"
proof -
  have g: "g i = 0" using assms by (simp add: counted_def)
  have "pg_bytes (progress_done sz item p) = (\<Sum>j<n. (g(i := sz)) j)"
    using assms(1) sum_upd [OF assms(2), of g sz] g by (simp add: progress_done_alt counted_def)
  then show ?thesis using assms by (auto simp: counted_def progress_done_alt simp del: sum.lessThan_Suc)
qed

lemma counted_credit:
  assumes "counted n started ended g cr p" and "i < n" "i \<notin> set ended"
  shows "counted n (i # started) ended (g(i := max (g i) pos)) (cr(i := max (cr i) pos)) (snd (progress_credit (cr i) pos item p))"
proof -
  have g: "g i = cr i" using assms by (simp add: counted_def)
  have "pg_bytes p + (max (cr i) pos - cr i) = (\<Sum>j<n. (g(i := max (g i) pos)) j)"
    using assms(1) sum_upd [OF assms(2), of g "max (cr i) pos"] g by (simp add: counted_def)
  moreover have "\<forall>j\<in>set ended. j \<noteq> i" using assms(3) by auto
  ultimately show ?thesis using assms g by (auto simp: counted_def progress_credit_fields)
qed

lemma counted_finish:
  assumes "counted n started ended g cr p" and "i < n" "i \<notin> set ended"
  shows "counted n (i # started) (i # ended) (g(i := max sz (g i))) (cr(i := max sz (cr i))) (snd (progress_finish (cr i) sz item p))"
proof -
  have g: "g i = cr i" "0 \<le> cr i" using assms by (auto simp: counted_def)
  have "pg_bytes p + (max sz (cr i) - cr i) = (\<Sum>j<n. (g(i := max sz (g i))) j)"
    using assms(1) sum_upd [OF assms(2), of g "max sz (cr i)"] g by (simp add: counted_def)
  then show ?thesis using assms g by (auto simp: counted_def progress_done_alt)
qed

lemma step_alt:
  "progress_step sz name (Credit i pos) (cr, p) = (cr(i := max (cr i) pos), snd (progress_credit (cr i) pos (name i) p))"
  "progress_step sz name (Finish i) (cr, p) = (cr(i := max (sz i) (cr i)), snd (progress_finish (cr i) (sz i) (name i) p))"
  using progress_credit_fields(1) [of "cr i" pos "name i" p] progress_done_alt(3) [of "cr i" "sz i" "name i" p]
  by (simp_all add: case_prod_unfold Let_def)

declare progress_step.simps(2,3) [simp del]

lemma progress_step_ok:
  assumes "orderly n started ended (c # cs)" and "counted n started ended g cr p" and "reports_ok p"
    and "\<And>i. i < n \<Longrightarrow> 0 \<le> sz i"
  obtains started' ended' cr' p' where "progress_step sz name c (cr, p) = (cr', p')" "orderly n started' ended' cs"
    "counted n started' ended' (reach_step sz c g) cr' p'" "reports_ok p'" "ended' = rev (ends_of [c]) @ ended"
proof -
  have b: "0 \<le> pg_bytes p" using assms(2) by (auto simp: counted_def intro: sum_nonneg)
  show thesis
  proof (cases c)
    case (Done i)
    then show thesis using assms counted_done [OF assms(2), of i "sz i" "name i"] reports_ok_report [OF assms(3) _ _ b, of "sz i" 1]
      by (intro that [of cr "progress_done (sz i) (name i) p" started "i # ended"]) (auto simp: progress_done_alt)
  next
    case (Credit i pos)
    then show thesis using assms counted_credit [OF assms(2), of i pos "name i"] reports_ok_credit [OF assms(3) b]
      by (intro that [of "cr(i := max (cr i) pos)" "snd (progress_credit (cr i) pos (name i) p)" "i # started" ended])
         (auto simp: step_alt)
  next
    case (Finish i)
    then show thesis using assms counted_finish [OF assms(2), of i "sz i" "name i"]
        reports_ok_report [OF assms(3) _ _ b, of "max (sz i) (cr i) - cr i" 1]
      by (intro that [of "cr(i := max (sz i) (cr i))" "snd (progress_finish (cr i) (sz i) (name i) p)" "i # started" "i # ended"])
         (auto simp: step_alt progress_done_alt(2))
  qed
qed

lemma ends_of_append [simp]: "ends_of (xs @ ys) = ends_of xs @ ends_of ys"
  by (induction xs rule: ends_of.induct) auto

lemma progress_run_ok:
  assumes "orderly n started ended cs" and "counted n started ended g cr p" and "reports_ok p"
    and "\<And>i. i < n \<Longrightarrow> 0 \<le> sz i"
  obtains started' cr' p' where "progress_run sz name cs (cr, p) = (cr', p')"
    "counted n started' (rev (ends_of cs) @ ended) (fold (reach_step sz) cs g) cr' p'" "reports_ok p'"
  using assms
proof (induction cs arbitrary: started ended g cr p thesis)
  case Nil
  then show ?case by (simp add: progress_run_def)
next
  case (Cons c cs)
  obtain st en cr' p' where step: "progress_step sz name c (cr, p) = (cr', p')" "orderly n st en cs"
      "counted n st en (reach_step sz c g) cr' p'" "reports_ok p'" "en = rev (ends_of [c]) @ ended"
    by (rule progress_step_ok [OF Cons.prems(2-5)])
  have ends: "rev (ends_of (c # cs)) @ ended = rev (ends_of cs) @ en"
    using ends_of_append [of "[c]" cs] by (simp add: step(5))
  obtain st2 cr2 p2 where "progress_run sz name cs (cr', p') = (cr2, p2)"
      "counted n st2 (rev (ends_of cs) @ en) (fold (reach_step sz) cs (reach_step sz c g)) cr2 p2" "reports_ok p2"
    by (rule Cons.IH [OF _ step(2-4) Cons.prems(5)])
  then show ?case using Cons.prems(1) step(1) ends by (simp add: progress_run_def)
qed

text \<open>With every read within the sizes, an object that ended counts its size.\<close>

lemma reached_within:
  assumes "list_all (\<lambda>c. case c of Credit i pos \<Rightarrow> pos \<le> sz i | _ \<Rightarrow> True) calls" and "g i \<le> sz i"
  shows "fold (reach_step sz) calls g i \<le> sz i \<and> (i \<in> set (ends_of calls) \<or> g i = sz i \<longrightarrow> fold (reach_step sz) calls g i = sz i)"
  using assms
proof (induction calls arbitrary: g)
  case (Cons c calls)
  have "reach_step sz c g i \<le> sz i" using Cons.prems by (cases c) auto
  moreover have "g i = sz i \<or> i \<in> set (ends_of [c]) \<longrightarrow> reach_step sz c g i = sz i"
    using Cons.prems by (cases c) auto
  ultimately show ?case using Cons.IH [of "reach_step sz c g"] Cons.prems(1) ends_of_append [of "[c]" calls] by auto
qed simp

lemma last_end_reported:
  assumes "calls = cs @ [c]" and "c = Done i \<or> c = Finish i" and "progress_run sz name calls st = (cr, p)"
  shows "pg_out p \<noteq> [] \<and> last (pg_out p) = progress_update (pg_bytes p) (pg_files p) (name i)"
proof -
  obtain cr0 p0 where st: "progress_run sz name cs st = (cr0, p0)" by (meson surj_pair)
  have "progress_step sz name c (cr0, p0) = (cr, p)" using assms(1, 3) st by (simp add: progress_run_def)
  then show ?thesis using assms(2) by (auto simp: step_alt progress_done_alt)
qed

text \<open>
  C19: Whatever order the workers' reads, retries and completions come in (each object ends at most
  once and is not read afterwards, and sizes are not negative), the byte count of a transfer is
  the sum of how far each object has got, the furthest position read of it or, once it ended, at
  least its size, so a retried object is not counted twice; the file count is the number of
  objects that ended. Reported totals never decrease and the last report lags the true byte count
  by less than a mebibyte; the end of an object is always reported, with the counts as they are
  then. When every object has ended and no read went past a listed size, the counts are the sum of
  the sizes and the number of objects.
\<close>

theorem progress_totals_are_exact:
  assumes "orderly n [] [] calls" and "\<And>i. i < n \<Longrightarrow> 0 \<le> sz i"
  shows "\<exists>cr p. progress_run sz name calls (\<lambda>_. 0, new_progress) = (cr, p)
     \<and> pg_bytes p = (\<Sum>i<n. reached sz calls i) \<and> pg_files p = int (length (ends_of calls))
     \<and> sorted (map u_Bytes (pg_out p)) \<and> sorted (map u_Files (pg_out p))
     \<and> 0 \<le> pg_bytes p - told p \<and> pg_bytes p - told p < s3ReportEvery
     \<and> (\<forall>cs i. calls = cs @ [Done i] \<or> calls = cs @ [Finish i] \<longrightarrow>
          pg_out p \<noteq> [] \<and> last (pg_out p) = progress_update (pg_bytes p) (pg_files p) (name i))
     \<and> (set (ends_of calls) = {..<n} \<and> within_sizes sz calls \<longrightarrow> pg_bytes p = (\<Sum>i<n. sz i) \<and> pg_files p = int n)"
proof -
  have "counted n [] [] (\<lambda>_. 0) (\<lambda>_. 0) new_progress" "reports_ok new_progress"
    using assms(2) by (simp_all add: counted_def reports_ok_def told_def new_progress_def)
  note fresh = this
  obtain st cr p where run: "progress_run sz name calls (\<lambda>_. 0, new_progress) = (cr, p)"
      and c: "counted n st (rev (ends_of calls) @ []) (reached sz calls) cr p" and r: "reports_ok p"
    unfolding reached_def by (rule progress_run_ok [OF assms(1) fresh assms(2)])
  have "pg_bytes p = (\<Sum>i<n. sz i) \<and> pg_files p = int n" if "set (ends_of calls) = {..<n}" "within_sizes sz calls"
  proof -
    have "length (ends_of calls) = n" using c that distinct_card [of "ends_of calls"] by (simp add: counted_def)
    moreover have "reached sz calls i = sz i" if "i < n" for i
      using reached_within [of sz calls "\<lambda>_. 0" i] assms(2) [OF that] that \<open>within_sizes sz calls\<close> \<open>set (ends_of calls) = {..<n}\<close>
      by (simp add: within_sizes_def reached_def)
    ultimately show ?thesis using c by (simp add: counted_def)
  qed
  moreover have "pg_out p \<noteq> [] \<and> last (pg_out p) = progress_update (pg_bytes p) (pg_files p) (name i)"
    if "calls = cs @ [Done i] \<or> calls = cs @ [Finish i]" for cs i
    using last_end_reported [OF _ _ run, of cs _ i] that by blast
  moreover have "pg_bytes p = (\<Sum>i<n. reached sz calls i)" "pg_files p = int (length (ends_of calls))"
    using c by (simp_all add: counted_def)
  ultimately show ?thesis using run r unfolding reports_ok_def by (intro exI [of _ cr] exI [of _ p]) auto
qed

theorem progress_totals_are_exact_witness:
  "\<exists>cr p. progress_run (\<lambda>i. 10) (\<lambda>_. ''o'') [Credit 0 7, Done 1, Credit 0 3, Credit 0 9, Finish 0] (\<lambda>_. 0, new_progress) = (cr, p)
     \<and> pg_bytes p = 20 \<and> pg_files p = 2 \<and> last (pg_out p) = progress_update 20 2 ''o''"
proof -
  let ?calls = "[Credit 0 7, Done 1, Credit 0 3, Credit 0 9, Finish 0]"
  have o: "orderly 2 [] [] ?calls" by simp
  have e: "set (ends_of ?calls) = {..<2}" by auto
  have w: "within_sizes (\<lambda>i. 10) ?calls" by (simp add: within_sizes_def)
  from progress_totals_are_exact [OF o, of "\<lambda>i. 10" "\<lambda>_. ''o''"] obtain cr p where
    p: "progress_run (\<lambda>i. 10) (\<lambda>_. ''o'') ?calls (\<lambda>_. 0, new_progress) = (cr, p)"
      "set (ends_of ?calls) = {..<2} \<and> within_sizes (\<lambda>i. 10) ?calls \<longrightarrow> pg_bytes p = (\<Sum>i<(2::nat). 10) \<and> pg_files p = int 2"
      "\<forall>cs i. ?calls = cs @ [Done i] \<or> ?calls = cs @ [Finish i] \<longrightarrow>
          pg_out p \<noteq> [] \<and> last (pg_out p) = progress_update (pg_bytes p) (pg_files p) ''o''"
    by auto
  have b: "pg_bytes p = 20" "pg_files p = 2" using p(2) e w by simp_all
  moreover have "last (pg_out p) = progress_update (pg_bytes p) (pg_files p) ''o''"
    using p(3) [rule_format, of "[Credit 0 7, Done 1, Credit 0 3, Credit 0 9]" 0] by simp
  ultimately show ?thesis using p(1) by auto
qed

end
