(* ===== verification/StorageModel.thy ===== *)
theory StorageModel
  imports DbmsLocation PathFilter ObjectPath
begin

text \<open>
  The storage domain's model and its validation (\<open>data-mig/storagex/model.go\<close>), the staging
  paths (\<open>data-mig/core/staging.go\<close>), the recognition of Azure endpoints (\<open>s3-azure.go\<close>) and
  the choice of an object storage provider (\<open>NewS3Provider\<close> in \<open>planner.go\<close> with the checks
  of the four constructors). \<open>MetricOption\<close> is read by inspection only and left out. An SDK
  that refuses a configuration is the parameter \<open>sdk\<close>.
\<close>

section \<open>Locations\<close>

abbreviation AccessTypeLocal :: string where "AccessTypeLocal \<equiv> ''local''"
abbreviation AccessTypeSSH :: string where "AccessTypeSSH \<equiv> ''ssh''"
abbreviation AccessTypeMinio :: string where "AccessTypeMinio \<equiv> ''minio''"
abbreviation AccessTypeSpider :: string where "AccessTypeSpider \<equiv> ''spider''"
abbreviation AccessTypeTumblebug :: string where "AccessTypeTumblebug \<equiv> ''tumblebug''"

record rsync_option =
  ro_Archive :: bool
  ro_Compress :: bool
  ro_Delete :: bool
  ro_Verbose :: bool
  ro_DryRun :: bool

record filesystem_access =
  fa_AccessType :: string
  fa_SSH :: "core_ssh_config option"
  fa_Rsync :: "rsync_option option"

record s3_minio_config =
  s3_Endpoint :: string
  s3_AccessKeyId :: string
  s3_SecretAccessKey :: string
  s3_Region :: string
  s3_UseSSL :: bool
  s3_BucketLookup :: string
  s3_SSHTunnel :: "core_ssh_config option"

record auth_config =
  au_AuthType :: string
  au_Basic :: "(string \<times> string) option"
  au_JWT :: "string option"

record spider_config =
  sp_Endpoint :: string
  sp_ConnectionName :: string
  sp_Expires :: int
  sp_Auth :: "auth_config option"

record tumblebug_config =
  tb_Endpoint :: string
  tb_NsId :: string
  tb_OsId :: string
  tb_Expires :: int
  tb_Auth :: "auth_config option"

record object_storage_access =
  oa_AccessType :: string
  oa_Minio :: "s3_minio_config option"
  oa_Spider :: "spider_config option"
  oa_Tumblebug :: "tumblebug_config option"

record data_location =
  dl_StorageType :: string
  dl_Path :: string
  dl_Filesystem :: "filesystem_access option"
  dl_ObjectStorage :: "object_storage_access option"
  dl_Filter :: "filter_option option"
  dl_PreCmd :: string
  dl_PostCmd :: string

record storage_migration_model =
  smm_Source :: data_location
  smm_Destination :: data_location
  smm_Strategy :: string
  smm_StagingDir :: string
  smm_Concurrency :: int
  smm_EncryptionKeyID :: string

definition is_filesystem :: "data_location \<Rightarrow> bool" where
  "is_filesystem loc \<longleftrightarrow> dl_StorageType loc = StorageTypeFilesystem"

definition is_object_storage :: "data_location \<Rightarrow> bool" where
  "is_object_storage loc \<longleftrightarrow> dl_StorageType loc = StorageTypeObjectStorage"

definition is_local :: "data_location \<Rightarrow> bool" where
  "is_local loc \<longleftrightarrow> is_filesystem loc \<and> (case dl_Filesystem loc of None \<Rightarrow> False | Some f \<Rightarrow> fa_AccessType f = AccessTypeLocal)"

definition is_remote :: "data_location \<Rightarrow> bool" where
  "is_remote loc \<longleftrightarrow> is_object_storage loc
     \<or> is_filesystem loc \<and> (case dl_Filesystem loc of None \<Rightarrow> False | Some f \<Rightarrow> fa_AccessType f = AccessTypeSSH)"

text \<open>\<open>src.Filesystem != nil && src.Filesystem.SSH != nil\<close>, the planner's and rsync's own reading of remote.\<close>

definition has_ssh :: "data_location \<Rightarrow> bool" where
  "has_ssh loc \<longleftrightarrow> (case dl_Filesystem loc of None \<Rightarrow> False | Some f \<Rightarrow> fa_SSH f \<noteq> None)"

section \<open>Azure endpoints\<close>

definition azureBlobHosts :: "string list" where
  "azureBlobHosts = [''blob.core.windows.net'', ''blob.core.chinacloudapi.cn'', ''blob.core.usgovcloudapi.net'']"

text \<open>What follows the first \<open>://\<close>, the whole string without one.\<close>

fun after_scheme :: "string \<Rightarrow> string option" where
  "after_scheme [] = None"
| "after_scheme (c # s) = (if has_prefix (c # s) ''://'' then Some (drop 3 (c # s)) else after_scheme s)"

definition azure_endpoint_host :: "string \<Rightarrow> string" where
  "azure_endpoint_host endpoint =
     (let trimmed = trim_space endpoint;
          host = (case after_scheme trimmed of None \<Rightarrow> trimmed | Some h \<Rightarrow> h);
          cut = takeWhile (\<lambda>c. c \<noteq> slash \<and> c \<noteq> CHR ''?'') host
      in to_lower (trim_suffix cut ''.''))"

definition is_azure_blob_endpoint :: "string \<Rightarrow> bool" where
  "is_azure_blob_endpoint endpoint =
     (let host = azure_endpoint_host endpoint
      in list_ex (\<lambda>s. has_suffix host (''.'' @ s) \<or> host = s) azureBlobHosts)"

fun first_suffix :: "string \<Rightarrow> string list \<Rightarrow> string" where
  "first_suffix host [] = []"
| "first_suffix host (s # ss) =
     (if has_suffix host (''.'' @ s) then trim_suffix host (''.'' @ s) else first_suffix host ss)"

definition azure_account_from_endpoint :: "string \<Rightarrow> string" where
  "azure_account_from_endpoint endpoint = first_suffix (azure_endpoint_host endpoint) azureBlobHosts"

section \<open>Validation\<close>

datatype storage_error =
    LocPathRequired string
  | LocCommandsOnBucket string
  | LocStorageType string string
  | FsAccessRequired string
  | FsSSHRequired string
  | FsSSHHost string
  | FsSSHUser string
  | FsSSHPort string
  | FsAccessType string string
  | OsAccessRequired string
  | OsConfigRequired string string
  | OsFieldRequired string string
  | OsTunnelPort string
  | OsTunnelAzure string
  | OsAccessType string string
  | ConcurrencyRange int

definition blank :: "string \<Rightarrow> bool" where
  "blank s \<longleftrightarrow> trim_space s = []"

definition validate_filesystem_access :: "filesystem_access option \<Rightarrow> string \<Rightarrow> storage_error option" where
  "validate_filesystem_access fs ctx =
     (case fs of
        None \<Rightarrow> Some (FsAccessRequired ctx)
      | Some f \<Rightarrow>
          (if fa_AccessType f = AccessTypeLocal then None
           else if fa_AccessType f = AccessTypeSSH then
             (case fa_SSH f of
                None \<Rightarrow> Some (FsSSHRequired ctx)
              | Some s \<Rightarrow>
                  (if blank (cs_Host s) then Some (FsSSHHost ctx)
                   else if blank (cs_Username s) then Some (FsSSHUser ctx)
                   else if cs_Port s < 0 \<or> cs_Port s > 65535 then Some (FsSSHPort ctx)
                   else None))
           else Some (FsAccessType ctx (fa_AccessType f))))"

definition validate_s3_tunnel :: "string \<Rightarrow> core_ssh_config option \<Rightarrow> string \<Rightarrow> storage_error option" where
  "validate_s3_tunnel endpoint t ctx =
     (case t of
        None \<Rightarrow> None
      | Some s \<Rightarrow>
          (if blank (cs_Host s) then Some (OsFieldRequired ctx ''S3 SSH tunnel host'')
           else if blank (cs_Username s) then Some (OsFieldRequired ctx ''S3 SSH tunnel username'')
           else if cs_Port s < 0 \<or> cs_Port s > 65535 then Some (OsTunnelPort ctx)
           else if is_azure_blob_endpoint endpoint then Some (OsTunnelAzure ctx)
           else None))"

definition validate_object_storage_access :: "object_storage_access option \<Rightarrow> string \<Rightarrow> storage_error option" where
  "validate_object_storage_access os ctx =
     (case os of
        None \<Rightarrow> Some (OsAccessRequired ctx)
      | Some a \<Rightarrow>
          (if oa_AccessType a = AccessTypeMinio then
             (case oa_Minio a of
                None \<Rightarrow> Some (OsConfigRequired ctx ''minio S3'')
              | Some m \<Rightarrow>
                  (if blank (s3_Endpoint m) then Some (OsFieldRequired ctx ''S3 endpoint'')
                   else if blank (s3_AccessKeyId m) \<or> blank (s3_SecretAccessKey m)
                   then Some (OsFieldRequired ctx ''S3 credentials'')
                   else validate_s3_tunnel (s3_Endpoint m) (s3_SSHTunnel m) ctx))
           else if oa_AccessType a = AccessTypeSpider then
             (case oa_Spider a of
                None \<Rightarrow> Some (OsConfigRequired ctx ''Spider'')
              | Some s \<Rightarrow>
                  (if blank (sp_Endpoint s) then Some (OsFieldRequired ctx ''Spider endpoint'')
                   else if blank (sp_ConnectionName s) then Some (OsFieldRequired ctx ''Spider connection name'')
                   else None))
           else if oa_AccessType a = AccessTypeTumblebug then
             (case oa_Tumblebug a of
                None \<Rightarrow> Some (OsConfigRequired ctx ''Tumblebug'')
              | Some t \<Rightarrow>
                  (if blank (tb_Endpoint t) then Some (OsFieldRequired ctx ''Tumblebug endpoint'')
                   else if blank (tb_NsId t) then Some (OsFieldRequired ctx ''Tumblebug namespace ID'')
                   else if blank (tb_OsId t) then Some (OsFieldRequired ctx ''Tumblebug object storage ID'')
                   else None))
           else Some (OsAccessType ctx (oa_AccessType a))))"

definition validate_data_location :: "data_location \<Rightarrow> string \<Rightarrow> storage_error option" where
  "validate_data_location loc ctx =
     (if blank (dl_Path loc) then Some (LocPathRequired ctx)
      else if dl_StorageType loc = StorageTypeFilesystem then validate_filesystem_access (dl_Filesystem loc) ctx
      else if dl_StorageType loc = StorageTypeObjectStorage then
        (if \<not> blank (dl_PreCmd loc) \<or> \<not> blank (dl_PostCmd loc) then Some (LocCommandsOnBucket ctx)
         else validate_object_storage_access (dl_ObjectStorage loc) ctx)
      else Some (LocStorageType ctx (dl_StorageType loc)))"

definition storage_validate :: "storage_migration_model \<Rightarrow> storage_error option" where
  "storage_validate m =
     check_err (validate_data_location (smm_Source m) ''source'')
     (check_err (validate_data_location (smm_Destination m) ''destination'')
       (map_option ConcurrencyRange (validate_concurrency (smm_Concurrency m))))"

section \<open>Staging paths\<close>

text \<open>\<open>os.TempDir()\<close> is an argument.\<close>

definition staging_root :: "string \<Rightarrow> string \<Rightarrow> string" where
  "staging_root tmp dir = (if dir \<noteq> [] then path_clean dir else path_join2 tmp ''datamig-staging'')"

definition storage_staging_path :: "string \<Rightarrow> string \<Rightarrow> string" where
  "storage_staging_path tmp dir = path_join2 (staging_root tmp dir) ''storage''"

definition dbms_staging_path :: "string \<Rightarrow> string \<Rightarrow> string" where
  "dbms_staging_path tmp dir = path_join2 (staging_root tmp dir) ''dbms''"

section \<open>Object storage providers\<close>

datatype s3_provider =
    MinioProvider s3_minio_config string
  | AzureProvider string string string string
  | SpiderProvider spider_config string
  | TumblebugProvider tumblebug_config

datatype provider_error =
    NotObjectStorage
  | BucketRequired
  | ProviderConfig string
  | ProviderField string
  | AzureNoAccount string
  | SDKRefused string
  | ProviderAccessType string

fun is_tunnelled :: "s3_provider \<Rightarrow> bool" where
  "is_tunnelled (MinioProvider m b) = (s3_SSHTunnel m \<noteq> None)"
| "is_tunnelled p = False"

text \<open>The SDK's verdict on a configuration, \<open>None\<close> when it takes it.\<close>

type_synonym sdk = "s3_provider \<Rightarrow> string option"

definition sdk_open :: "sdk \<Rightarrow> s3_provider \<Rightarrow> provider_error + s3_provider" where
  "sdk_open sdk p = (case sdk p of Some e \<Rightarrow> Inl (SDKRefused e) | None \<Rightarrow> Inr p)"

definition new_azure_provider :: "sdk \<Rightarrow> string \<Rightarrow> string \<Rightarrow> string \<Rightarrow> string \<Rightarrow> provider_error + s3_provider" where
  "new_azure_provider sdk endpoint accountName accountKey container =
     (let host = azure_endpoint_host endpoint;
          fromHost = azure_account_from_endpoint endpoint;
          account = (if fromHost = [] then trim_space accountName else fromHost)
      in if host = [] then Inl (ProviderField ''azure endpoint'')
         else if blank accountKey then Inl (ProviderField ''azure account key'')
         else if blank container then Inl (ProviderField ''azure container name'')
         else if account = [] then Inl (AzureNoAccount endpoint)
         else sdk_open sdk (AzureProvider host account accountKey container))"

definition new_spider_provider :: "spider_config \<Rightarrow> string \<Rightarrow> provider_error + s3_provider" where
  "new_spider_provider c bucket =
     (if blank (sp_Endpoint c) then Inl (ProviderField ''spider endpoint'')
      else if blank (sp_ConnectionName c) then Inl (ProviderField ''spider connectionName'')
      else Inr (SpiderProvider (c\<lparr>sp_Endpoint := trim_suffix (sp_Endpoint c) ''/'',
                                  sp_Expires := (if sp_Expires c \<le> 0 then 3600 else sp_Expires c)\<rparr>) bucket))"

definition new_tumblebug_provider :: "tumblebug_config \<Rightarrow> provider_error + s3_provider" where
  "new_tumblebug_provider c =
     (if blank (tb_Endpoint c) then Inl (ProviderField ''tumblebug endpoint'')
      else if blank (tb_NsId c) then Inl (ProviderField ''tumblebug nsId'')
      else if blank (tb_OsId c) then Inl (ProviderField ''tumblebug osId'')
      else Inr (TumblebugProvider (c\<lparr>tb_Endpoint := trim_suffix (tb_Endpoint c) ''/'',
                                     tb_Expires := (if tb_Expires c \<le> 0 then 3600 else tb_Expires c)\<rparr>)))"

definition new_s3_provider :: "sdk \<Rightarrow> data_location \<Rightarrow> provider_error + s3_provider" where
  "new_s3_provider sdk loc =
     (case dl_ObjectStorage loc of
        None \<Rightarrow> Inl NotObjectStorage
      | Some a \<Rightarrow>
          (let bucket = fst (parse_bucket_and_key (dl_Path loc))
           in if \<not> is_object_storage loc then Inl NotObjectStorage
              else if bucket = [] then Inl BucketRequired
              else if oa_AccessType a = AccessTypeMinio then
                (case oa_Minio a of
                   None \<Rightarrow> Inl (ProviderConfig ''minio S3'')
                 | Some m \<Rightarrow>
                     (if is_azure_blob_endpoint (s3_Endpoint m)
                      then new_azure_provider sdk (s3_Endpoint m) (s3_AccessKeyId m) (s3_SecretAccessKey m) bucket
                      else sdk_open sdk (MinioProvider m bucket)))
              else if oa_AccessType a = AccessTypeSpider then
                (case oa_Spider a of
                   None \<Rightarrow> Inl (ProviderConfig ''Spider'')
                 | Some c \<Rightarrow> new_spider_provider c bucket)
              else if oa_AccessType a = AccessTypeTumblebug then
                (case oa_Tumblebug a of
                   None \<Rightarrow> Inl (ProviderConfig ''Tumblebug'')
                 | Some c \<Rightarrow> new_tumblebug_provider c)
              else Inl (ProviderAccessType (oa_AccessType a))))"

end
