(* ===== verification/Lanes.thy ===== *)
theory Lanes
  imports Prelude "HOL-Library.Multiset"
begin

text \<open>
  How the object storage executors run many transfers at once: \<open>forEachConcurrently\<close> and
  \<open>forEachInLanes\<close> of \<open>executor-s3.go\<close> and the loop over parts of \<open>runMultipart\<close>
  (\<open>s3-multipart.go\<close>), all over \<open>errgroup\<close>. A lane is one loop that hands tasks to
  goroutines; every scheduling decision is an event, so a run is a list of events and the
  theorems below hold for every interleaving.

  \<open>errgroup\<close> keeps the first error its goroutines return and cancels its context with it.
  A lane's tasks run under the lane's own context, which the context of the surrounding
  group cancels too, and that one the caller's.
\<close>

section \<open>State\<close>

datatype task_error = TaskFailed nat string | CtxCancelled

text \<open>
  \<open>ln_Checks\<close>: the goroutine looks at the context before it starts its task.
  \<open>ln_EndsCtx\<close>: a lane that ran everything still returns the context's error.
  \<open>ln_Waiting\<close>: the task the loop has taken and not yet found a slot for.
\<close>

record lane =
  ln_Limit :: nat
  ln_Checks :: bool
  ln_EndsCtx :: bool
  ln_Pending :: "nat list"
  ln_Waiting :: "nat option"
  ln_Running :: "nat list"
  ln_Done :: "nat list"
  ln_Failed :: "nat list"
  ln_Err :: "task_error option"
  ln_Returned :: bool

record lanes =
  ls_Lanes :: "lane list"
  ls_Outer :: bool
  ls_Err :: "task_error option"

definition new_lane :: "nat \<Rightarrow> bool \<Rightarrow> bool \<Rightarrow> nat list \<Rightarrow> lane" where
  "new_lane n checks ends tasks =
     \<lparr>ln_Limit = n, ln_Checks = checks, ln_EndsCtx = ends, ln_Pending = tasks, ln_Waiting = None, ln_Running = [],
      ln_Done = [], ln_Failed = [], ln_Err = None, ln_Returned = False\<rparr>"

definition for_each_concurrently :: "nat \<Rightarrow> nat list \<Rightarrow> lanes" where
  "for_each_concurrently objects order =
     \<lparr>ls_Lanes = [new_lane objects True True order], ls_Outer = False, ls_Err = None\<rparr>"

definition for_each_in_lanes :: "nat \<Rightarrow> nat list \<Rightarrow> (nat \<Rightarrow> bool) \<Rightarrow> lanes" where
  "for_each_in_lanes objects order inParts =
     \<lparr>ls_Lanes = [new_lane 1 False False (filter inParts order),
                  new_lane objects True True (filter (\<lambda>i. \<not> inParts i) order)],
      ls_Outer = False, ls_Err = None\<rparr>"

definition part_group :: "nat \<Rightarrow> nat \<Rightarrow> lanes" where
  "part_group limit parts =
     \<lparr>ls_Lanes = [new_lane limit False True [0..<parts]], ls_Outer = False, ls_Err = None\<rparr>"

section \<open>Events\<close>

text \<open>The group's context is done when the caller's is or a lane has returned an error; a lane's own also once a task of it failed.\<close>

definition group_cancelled :: "lanes \<Rightarrow> bool" where
  "group_cancelled s \<longleftrightarrow> ls_Outer s \<or> ls_Err s \<noteq> None"

definition lane_cancelled :: "lanes \<Rightarrow> lane \<Rightarrow> bool" where
  "lane_cancelled s l \<longleftrightarrow> group_cancelled s \<or> ln_Err l \<noteq> None"

definition first_error :: "'e option \<Rightarrow> 'e \<Rightarrow> 'e option" where
  "first_error old e = (case old of None \<Rightarrow> Some e | Some _ \<Rightarrow> old)"

definition lane_result :: "lanes \<Rightarrow> lane \<Rightarrow> task_error option" where
  "lane_result s l =
     (if ln_Err l \<noteq> None then ln_Err l
      else if group_cancelled s \<and> (ln_Pending l \<noteq> [] \<or> ln_EndsCtx l) then Some CtxCancelled
      else None)"

datatype lane_event =
    Take nat
  | Start nat
  | Skip nat
  | Succeed nat nat
  | Fail nat nat string
  | Return nat
  | CancelOuter

text \<open>What one event does to the lane it concerns; \<open>None\<close> where the code cannot do it.\<close>

fun lane_exec :: "lanes \<Rightarrow> lane_event \<Rightarrow> lane \<Rightarrow> lane option" where
  "lane_exec s (Take i) l =
     (if ln_Waiting l = None \<and> ln_Pending l \<noteq> [] \<and> \<not> lane_cancelled s l
      then Some (l\<lparr>ln_Pending := tl (ln_Pending l), ln_Waiting := Some (hd (ln_Pending l))\<rparr>) else None)"
| "lane_exec s (Start i) l =
     (case ln_Waiting l of
        None \<Rightarrow> None
      | Some x \<Rightarrow>
          (if length (ln_Running l) < ln_Limit l \<and> \<not> (ln_Checks l \<and> lane_cancelled s l)
           then Some (l\<lparr>ln_Waiting := None, ln_Running := x # ln_Running l\<rparr>) else None))"
| "lane_exec s (Skip i) l =
     (case ln_Waiting l of
        None \<Rightarrow> None
      | Some x \<Rightarrow>
          (if length (ln_Running l) < ln_Limit l \<and> ln_Checks l \<and> lane_cancelled s l
           then Some (l\<lparr>ln_Waiting := None, ln_Failed := x # ln_Failed l, ln_Err := first_error (ln_Err l) CtxCancelled\<rparr>)
           else None))"
| "lane_exec s (Succeed i x) l =
     (if x \<in> set (ln_Running l)
      then Some (l\<lparr>ln_Running := remove1 x (ln_Running l), ln_Done := x # ln_Done l\<rparr>) else None)"
| "lane_exec s (Fail i x e) l =
     (if x \<in> set (ln_Running l)
      then Some (l\<lparr>ln_Running := remove1 x (ln_Running l), ln_Failed := x # ln_Failed l,
                   ln_Err := first_error (ln_Err l) (if lane_cancelled s l then CtxCancelled else TaskFailed x e)\<rparr>)
      else None)"
| "lane_exec s (Return i) l =
     (if ln_Running l = [] \<and> ln_Waiting l = None \<and> (ln_Pending l = [] \<or> lane_cancelled s l)
      then Some (l\<lparr>ln_Returned := True\<rparr>) else None)"
| "lane_exec s CancelOuter l = None"

fun event_lane :: "lane_event \<Rightarrow> nat option" where
  "event_lane (Take i) = Some i"
| "event_lane (Start i) = Some i"
| "event_lane (Skip i) = Some i"
| "event_lane (Succeed i x) = Some i"
| "event_lane (Fail i x e) = Some i"
| "event_lane (Return i) = Some i"
| "event_lane CancelOuter = None"

definition is_return :: "lane_event \<Rightarrow> bool" where
  "is_return ev = (case ev of Return _ \<Rightarrow> True | _ \<Rightarrow> False)"

definition lanes_exec :: "lane_event \<Rightarrow> lanes \<Rightarrow> lanes option" where
  "lanes_exec ev s =
     (case event_lane ev of
        None \<Rightarrow> (if ls_Outer s then None else Some (s\<lparr>ls_Outer := True\<rparr>))
      | Some i \<Rightarrow>
          (if i < length (ls_Lanes s) \<and> \<not> ln_Returned (ls_Lanes s ! i) then
             (let l = ls_Lanes s ! i
              in case lane_exec s ev l of
                   None \<Rightarrow> None
                 | Some l' \<Rightarrow>
                     Some (s\<lparr>ls_Lanes := (ls_Lanes s)[i := l'],
                             ls_Err := (if is_return ev
                                        then (case lane_result s l of None \<Rightarrow> ls_Err s | Some e \<Rightarrow> first_error (ls_Err s) e)
                                        else ls_Err s)\<rparr>))
           else None))"

fun lanes_run :: "lane_event list \<Rightarrow> lanes \<Rightarrow> lanes option" where
  "lanes_run [] s = Some s"
| "lanes_run (ev # evs) s = (case lanes_exec ev s of None \<Rightarrow> None | Some s' \<Rightarrow> lanes_run evs s')"

definition all_returned :: "lanes \<Rightarrow> bool" where
  "all_returned s \<longleftrightarrow> list_all ln_Returned (ls_Lanes s)"

definition lanes_result :: "lanes \<Rightarrow> task_error option" where
  "lanes_result s = (if ls_Err s \<noteq> None then ls_Err s else if ls_Outer s then Some CtxCancelled else None)"

section \<open>What every event keeps\<close>

definition waiting_list :: "lane \<Rightarrow> nat list" where
  "waiting_list l = (case ln_Waiting l of None \<Rightarrow> [] | Some x \<Rightarrow> [x])"

definition lane_tasks :: "lane \<Rightarrow> nat multiset" where
  "lane_tasks l = mset (ln_Pending l @ waiting_list l @ ln_Running l @ ln_Done l @ ln_Failed l)"

definition lane_measure :: "lane \<Rightarrow> nat" where
  "lane_measure l = 3 * length (ln_Pending l) + 2 * length (waiting_list l) + length (ln_Running l)
     + (if ln_Returned l then 0 else 1)"

definition same_lane :: "lane \<Rightarrow> lane \<Rightarrow> bool" where
  "same_lane l l' \<longleftrightarrow> ln_Limit l' = ln_Limit l \<and> ln_Checks l' = ln_Checks l \<and> ln_EndsCtx l' = ln_EndsCtx l
     \<and> lane_tasks l' = lane_tasks l"

definition lane_ok :: "lane \<Rightarrow> bool" where
  "lane_ok l \<longleftrightarrow> length (ln_Running l) \<le> ln_Limit l
     \<and> (ln_Err l = None \<longleftrightarrow> ln_Failed l = [])
     \<and> (\<forall>x e. ln_Err l = Some (TaskFailed x e) \<longrightarrow> x \<in> set (ln_Failed l))
     \<and> (ln_Returned l \<longrightarrow> ln_Running l = [] \<and> ln_Waiting l = None)"

lemmas lane_defs = same_lane_def lane_tasks_def waiting_list_def lane_ok_def lane_measure_def first_error_def

lemma lane_exec_keeps:
  assumes "lane_exec s ev l = Some l'" and "lane_ok l" and "\<not> ln_Returned l"
  shows "same_lane l l' \<and> lane_ok l' \<and> lane_measure l' < lane_measure l"
proof (cases ev)
  case (Take i)
  then show ?thesis using assms by (cases "ln_Pending l") (auto simp: lane_defs split: if_splits option.splits)
next
  case (Succeed i x)
  then show ?thesis using assms
    by (auto simp: lane_defs length_remove1 split: if_splits option.splits intro!: diff_Suc_less length_pos_if_in_set)
next
  case (Fail i x e)
  then show ?thesis using assms
    by (auto simp: lane_defs length_remove1 split: if_splits option.splits intro!: diff_Suc_less length_pos_if_in_set)
qed (use assms in \<open>auto simp: lane_defs split: if_splits option.splits\<close>)

text \<open>Where the errors come from: a lane is cancelled by the caller, by the group, or by a task of its own that failed.\<close>

definition err_ok :: "lanes \<Rightarrow> lane \<Rightarrow> bool" where
  "err_ok s l \<longleftrightarrow> (ln_Err l = Some CtxCancelled \<longrightarrow> group_cancelled s)
     \<and> (ln_Returned l \<longrightarrow> (ln_Err l \<noteq> None \<longrightarrow> ls_Err s \<noteq> None) \<and> (ln_Pending l \<noteq> [] \<longrightarrow> group_cancelled s))"

definition lanes_ok :: "lane list \<Rightarrow> lanes \<Rightarrow> bool" where
  "lanes_ok ls0 s \<longleftrightarrow> length (ls_Lanes s) = length ls0
     \<and> (\<forall>i<length ls0. same_lane (ls0 ! i) (ls_Lanes s ! i) \<and> lane_ok (ls_Lanes s ! i) \<and> err_ok s (ls_Lanes s ! i))
     \<and> (ls_Err s = Some CtxCancelled \<longrightarrow> ls_Outer s)
     \<and> (\<forall>x e. ls_Err s = Some (TaskFailed x e) \<longrightarrow> (\<exists>l\<in>set (ls_Lanes s). x \<in> set (ln_Failed l)))"

lemma lane_exec_failed: "lane_exec s ev l = Some l' \<Longrightarrow> set (ln_Failed l) \<subseteq> set (ln_Failed l')"
  by (cases ev) (auto split: if_splits option.splits)

lemma lane_exec_err:
  assumes "lane_exec s ev l = Some l'" and "ln_Err l = Some CtxCancelled \<Longrightarrow> group_cancelled s"
  shows "ln_Err l' = Some CtxCancelled \<Longrightarrow> group_cancelled s"
  using assms by (cases ev) (auto simp: first_error_def lane_cancelled_def split: if_splits option.splits)

lemma lane_exec_return: "lane_exec s ev l = Some l' \<Longrightarrow> \<not> is_return ev \<Longrightarrow> ln_Returned l' = ln_Returned l"
  by (cases ev) (auto simp: is_return_def split: if_splits option.splits)

lemma return_shape:
  assumes "is_return ev" and "lane_exec s ev l = Some l'"
  shows "l' = l\<lparr>ln_Returned := True\<rparr>" and "ln_Pending l = [] \<or> lane_cancelled s l"
  using assms by (cases ev; simp add: is_return_def split: if_splits)+

text \<open>The two ways a step changes the group: one lane moves, or the caller cancels.\<close>

lemma lanes_exec_cases:
  assumes "lanes_exec ev s = Some s'"
  obtains (outer) "s' = s\<lparr>ls_Outer := True\<rparr>" "\<not> ls_Outer s"
  | (lane) i l l' where "i < length (ls_Lanes s)" "l = ls_Lanes s ! i" "\<not> ln_Returned l" "lane_exec s ev l = Some l'"
      "ls_Lanes s' = (ls_Lanes s)[i := l']" "ls_Outer s' = ls_Outer s"
      "ls_Err s' = (if is_return ev then (case lane_result s l of None \<Rightarrow> ls_Err s | Some e \<Rightarrow> first_error (ls_Err s) e) else ls_Err s)"
  using assms
  by (cases "event_lane ev") (auto simp: lanes_exec_def Let_def split: if_splits option.splits)

lemma group_cancelled_grows: "lanes_exec ev s = Some s' \<Longrightarrow> group_cancelled s \<Longrightarrow> group_cancelled s'"
  by (erule lanes_exec_cases) (auto simp: group_cancelled_def first_error_def split: option.splits if_splits)

lemma err_grows: "lanes_exec ev s = Some s' \<Longrightarrow> ls_Err s = Some e \<Longrightarrow> ls_Err s' = Some e"
  by (erule lanes_exec_cases) (auto simp: first_error_def split: option.splits if_splits)

lemma lanes_exec_ok:
  assumes step: "lanes_exec ev s = Some s'" and ok: "lanes_ok ls0 s"
  shows "lanes_ok ls0 s'"
  using step
proof (cases rule: lanes_exec_cases)
  case outer
  then show ?thesis using ok by (auto simp: lanes_ok_def err_ok_def group_cancelled_def)
next
  case (lane i l l')
  from ok lane(1,2) have i: "i < length ls0" and l: "same_lane (ls0 ! i) l" "lane_ok l" "err_ok s l"
    by (auto simp: lanes_ok_def)
  have kept: "same_lane l l'" "lane_ok l'" using lane_exec_keeps [OF lane(4) l(2) lane(3)] by auto
  have grows: "group_cancelled s \<Longrightarrow> group_cancelled s'" using group_cancelled_grows [OF step] .
  have errs: "ls_Err s \<noteq> None \<Longrightarrow> ls_Err s' \<noteq> None" using err_grows [OF step] by auto
  have others: "same_lane (ls0 ! j) (ls_Lanes s' ! j) \<and> lane_ok (ls_Lanes s' ! j) \<and> err_ok s' (ls_Lanes s' ! j)"
    if j: "j < length ls0" for j
  proof (cases "j = i")
    case True
    have same: "same_lane (ls0 ! i) l'" using l(1) kept(1) by (simp add: same_lane_def)
    have ctx: "ln_Err l' = Some CtxCancelled \<longrightarrow> group_cancelled s'"
      using lane_exec_err [OF lane(4)] l(3) grows by (auto simp: err_ok_def)
    have ret: "(ln_Err l' \<noteq> None \<longrightarrow> ls_Err s' \<noteq> None) \<and> (ln_Pending l' \<noteq> [] \<longrightarrow> group_cancelled s')" if r: "ln_Returned l'"
    proof (cases "is_return ev")
      case True
      from return_shape [OF True lane(4)] have shape: "l' = l\<lparr>ln_Returned := True\<rparr>" "ln_Pending l = [] \<or> lane_cancelled s l" by auto
      then show ?thesis using lane(7) True grows
        by (auto simp: lane_result_def lane_cancelled_def group_cancelled_def first_error_def split: option.splits if_splits)
    next
      case False
      then show ?thesis using lane_exec_return [OF lane(4) False] lane(3) r by simp
    qed
    show ?thesis using True i lane(1,5) kept(2) same ctx ret by (simp add: err_ok_def)
  next
    case False
    with ok j lane(5) grows errs show ?thesis by (simp add: lanes_ok_def err_ok_def)
  qed
  have fin: "(ls_Err s' = Some CtxCancelled \<longrightarrow> ls_Outer s')
     \<and> (\<forall>x e. ls_Err s' = Some (TaskFailed x e) \<longrightarrow> (\<exists>l\<in>set (ls_Lanes s'). x \<in> set (ln_Failed l)))"
  proof (cases "ls_Err s' = ls_Err s")
    case True
    have "\<exists>m\<in>set (ls_Lanes s'). x \<in> set (ln_Failed m)" if m0: "m0 \<in> set (ls_Lanes s)" "x \<in> set (ln_Failed m0)" for m0 x
    proof -
      obtain j where "j < length (ls_Lanes s)" "m0 = ls_Lanes s ! j" using m0(1) unfolding in_set_conv_nth by blast
      then have "j < length (ls_Lanes s') \<and> x \<in> set (ln_Failed (ls_Lanes s' ! j))"
        using lane(1,2,5) m0(2) lane_exec_failed [OF lane(4)] by (cases "j = i") auto
      then show ?thesis by (meson nth_mem)
    qed
    with ok True lane(6) show ?thesis by (auto simp: lanes_ok_def)
  next
    case False
    then obtain e where r: "is_return ev" "ls_Err s = None" "lane_result s l = Some e" "ls_Err s' = Some e"
      using lane(7) by (auto simp: first_error_def split: if_splits option.splits)
    from return_shape [OF r(1) lane(4)] have shape: "l' = l\<lparr>ln_Returned := True\<rparr>" by simp
    have mem: "l' \<in> set (ls_Lanes s')" using lane(1,5) by (simp add: set_update_memI)
    have "ls_Outer s" if "ln_Err l = Some CtxCancelled" using l(3) that r(2) by (auto simp: err_ok_def group_cancelled_def)
    moreover have "x \<in> set (ln_Failed l')" if "ln_Err l = Some (TaskFailed x t)" for x t
      using l(2) that by (auto simp: lane_ok_def shape)
    ultimately show ?thesis using r lane(6) mem
      by (auto simp: lane_result_def group_cancelled_def split: if_splits)
  qed
  show ?thesis using ok lane(5) others fin by (simp add: lanes_ok_def)
qed

lemma lanes_run_ok: "lanes_run evs s = Some s' \<Longrightarrow> lanes_ok ls0 s \<Longrightarrow> lanes_ok ls0 s'"
  by (induction evs arbitrary: s) (auto split: option.splits dest: lanes_exec_ok)

lemma new_lane_ok: "same_lane (new_lane n c e ts) (new_lane n c e ts)" "lane_ok (new_lane n c e ts)" "err_ok s (new_lane n c e ts)"
  by (simp_all add: lane_defs err_ok_def new_lane_def)

definition fresh_lane :: "lane \<Rightarrow> bool" where
  "fresh_lane l \<longleftrightarrow> l = new_lane (ln_Limit l) (ln_Checks l) (ln_EndsCtx l) (ln_Pending l)"

definition fresh :: "lanes \<Rightarrow> bool" where
  "fresh s \<longleftrightarrow> list_all fresh_lane (ls_Lanes s) \<and> \<not> ls_Outer s \<and> ls_Err s = None"

lemma fresh_ok: "fresh s \<Longrightarrow> lanes_ok (ls_Lanes s) s"
  unfolding fresh_def lanes_ok_def list_all_length fresh_lane_def
  by (metis new_lane_ok option.distinct(1))

lemma fresh_starts:
  "fresh (for_each_concurrently c order)" "fresh (for_each_in_lanes c order p)" "fresh (part_group k n)"
  by (simp_all add: fresh_def for_each_concurrently_def for_each_in_lanes_def part_group_def fresh_lane_def new_lane_def)

section \<open>Every run ends\<close>

definition lanes_measure :: "lanes \<Rightarrow> nat" where
  "lanes_measure s = sum_list (map lane_measure (ls_Lanes s)) + (if ls_Outer s then 0 else 1)"

lemma sum_list_update_less:
  "i < length xs \<Longrightarrow> (y :: nat) < xs ! i \<Longrightarrow> sum_list (xs[i := y]) < sum_list xs"
proof (induction xs arbitrary: i)
  case (Cons x xs)
  then show ?case by (cases i) auto
qed simp

lemma lanes_exec_measure:
  assumes "lanes_exec ev s = Some s'" and "lanes_ok ls0 s"
  shows "lanes_measure s' < lanes_measure s"
  using assms(1)
proof (cases rule: lanes_exec_cases)
  case (lane i l l')
  have "lane_ok l" using assms(2) lane(1,2) by (auto simp: lanes_ok_def)
  then have "lane_measure l' < lane_measure l" using lane_exec_keeps lane(3,4) by blast
  then have "sum_list ((map lane_measure (ls_Lanes s))[i := lane_measure l']) < sum_list (map lane_measure (ls_Lanes s))"
    using lane(1,2) by (intro sum_list_update_less) simp_all
  then show ?thesis using lane(5,6) by (simp add: lanes_measure_def map_update)
qed (simp add: lanes_measure_def)

lemma lanes_run_measure:
  "lanes_run evs s = Some s' \<Longrightarrow> lanes_ok ls0 s \<Longrightarrow> length evs + lanes_measure s' \<le> lanes_measure s"
proof (induction evs arbitrary: s)
  case (Cons ev evs)
  then obtain s1 where s1: "lanes_exec ev s = Some s1" "lanes_run evs s1 = Some s'" by (auto split: option.splits)
  with Cons.IH [OF s1(2) lanes_exec_ok [OF s1(1) Cons.prems(2)]] lanes_exec_measure [OF s1(1) Cons.prems(2)]
  show ?case by simp
qed simp

lemma lane_can_move:
  assumes "lane_ok l" and "0 < ln_Limit l"
  shows "\<exists>ev l'. lane_exec s ev l = Some l' \<and> event_lane ev = Some i"
proof (cases "ln_Running l")
  case (Cons x xs)
  then show ?thesis by (intro exI [of _ "Succeed i x"] exI) simp
next
  case Nil
  show ?thesis
  proof (cases "ln_Waiting l")
    case (Some x)
    then show ?thesis using Nil assms(2)
      by (cases "ln_Checks l \<and> lane_cancelled s l") (force intro: exI [of _ "Skip i"] exI [of _ "Start i"])+
  next
    case None
    show ?thesis
    proof (cases "ln_Pending l = [] \<or> lane_cancelled s l")
      case True
      then show ?thesis using Nil None by (intro exI [of _ "Return i"]) auto
    next
      case False
      then show ?thesis using Nil None by (intro exI [of _ "Take i"]) auto
    qed
  qed
qed

lemma lanes_can_move:
  assumes ok: "lanes_ok ls0 s" and limits: "list_all (\<lambda>l. 0 < ln_Limit l) ls0" and busy: "\<not> all_returned s"
  shows "\<exists>ev s'. lanes_exec ev s = Some s' \<and> ev \<noteq> CancelOuter"
proof -
  obtain i where i: "i < length (ls_Lanes s)" "\<not> ln_Returned (ls_Lanes s ! i)"
    using busy by (auto simp: all_returned_def list_all_length)
  have "lane_ok (ls_Lanes s ! i) \<and> 0 < ln_Limit (ls_Lanes s ! i)"
    using ok limits i(1) by (auto simp: lanes_ok_def list_all_length same_lane_def)
  then obtain ev l' where "lane_exec s ev (ls_Lanes s ! i) = Some l'" "event_lane ev = Some i"
    using lane_can_move by blast
  then show ?thesis using i by (intro exI [of _ ev]) (auto simp: lanes_exec_def Let_def)
qed

text \<open>
  C18: Whatever order the goroutines run in, a transfer in two lanes ends: a run has at most
  three events for each object and three more, and it can always go on (without anyone
  cancelling it) until both lanes have returned.
\<close>

theorem lanes_terminate:
  assumes "0 < objects" and "lanes_run evs (for_each_in_lanes objects order inParts) = Some s"
  shows "length evs \<le> 3 * length order + 3
    \<and> (all_returned s \<or> (\<exists>ev s'. lanes_exec ev s = Some s' \<and> ev \<noteq> CancelOuter))"
proof -
  let ?s0 = "for_each_in_lanes objects order inParts"
  have ok0: "lanes_ok (ls_Lanes ?s0) ?s0" by (rule fresh_ok [OF fresh_starts(2)])
  have "lanes_measure ?s0 = 3 * length order + 3"
    using sum_length_filter_compl [of inParts order]
    by (simp add: lanes_measure_def lane_measure_def for_each_in_lanes_def new_lane_def waiting_list_def)
  then have "length evs \<le> 3 * length order + 3" using lanes_run_measure [OF assms(2) ok0] by simp
  moreover have "\<exists>ev s'. lanes_exec ev s = Some s' \<and> ev \<noteq> CancelOuter" if "\<not> all_returned s"
    using lanes_can_move [OF lanes_run_ok [OF assms(2) ok0] _ that] assms(1)
    by (simp add: for_each_in_lanes_def new_lane_def)
  ultimately show ?thesis by blast
qed

theorem lanes_terminate_witness:
  "(\<exists>s. lanes_run [Take 1, Start 1] (for_each_in_lanes 2 [3, 5] (\<lambda>i. i = 3)) = Some s \<and> \<not> all_returned s
      \<and> (\<exists>ev s'. lanes_exec ev s = Some s' \<and> ev \<noteq> CancelOuter))
   \<and> length [Take 1, Start 1] \<le> 3 * length [3, 5 :: nat] + 3"
proof -
  obtain s where s: "lanes_run [Take 1, Start 1] (for_each_in_lanes 2 [3, 5] (\<lambda>i. i = 3)) = Some s" "\<not> all_returned s"
    by (simp add: for_each_in_lanes_def new_lane_def lanes_exec_def lane_cancelled_def group_cancelled_def is_return_def all_returned_def)
  from lanes_terminate [OF _ s(1)] s(2) have "length [Take 1, Start 1] \<le> 3 * length [3, 5 :: nat] + 3"
    "\<exists>ev s'. lanes_exec ev s = Some s' \<and> ev \<noteq> CancelOuter" by simp_all
  with s show ?thesis by blast
qed

text \<open>What a lane that has returned did with its tasks, and what the group reports.\<close>

lemma returned_lane_tasks:
  "lane_ok l \<Longrightarrow> ln_Returned l \<Longrightarrow> lane_tasks l = mset (ln_Pending l) + mset (ln_Done l) + mset (ln_Failed l)"
  by (simp add: lane_ok_def lane_tasks_def waiting_list_def)

lemma multiset_parts:
  fixes p x f :: "'a multiset"
  shows "x \<subseteq># p + x + f" and "x = p + x + f \<Longrightarrow> f = {#}"
proof -
  have eq: "p + x + f = x + (p + f)" by (simp add: ac_simps)
  show "x \<subseteq># p + x + f" unfolding eq by simp
  assume "x = p + x + f"
  then have "x = x + (p + f)" unfolding eq .
  then have "p + f = {#}" by (metis add_cancel_right_right)
  then show "f = {#}" by simp
qed

lemma settled_group:
  assumes ok: "lanes_ok ls0 s" and ret: "all_returned s"
  shows "lanes_result s = None \<longleftrightarrow>
      (\<forall>i<length ls0. mset (ln_Done (ls_Lanes s ! i)) = lane_tasks (ls0 ! i)) \<and> \<not> ls_Outer s"
proof -
  have lane: "lane_tasks (ls0 ! i) = mset (ln_Pending l) + mset (ln_Done l) + mset (ln_Failed l)
      \<and> (ln_Pending l \<noteq> [] \<longrightarrow> group_cancelled s) \<and> (ln_Failed l \<noteq> [] \<longrightarrow> ls_Err s \<noteq> None)"
    if "i < length ls0" "l = ls_Lanes s ! i" for i l
  proof -
    have "lane_ok l" "err_ok s l" "same_lane (ls0 ! i) l" "ln_Returned l"
      using ok ret that by (auto simp: lanes_ok_def all_returned_def list_all_length)
    with returned_lane_tasks [of l] show ?thesis by (auto simp: same_lane_def err_ok_def lane_ok_def)
  qed
  have alive: "lanes_result s = None \<longleftrightarrow> \<not> group_cancelled s"
    by (auto simp: lanes_result_def group_cancelled_def)
  have "mset (ln_Done (ls_Lanes s ! i)) = lane_tasks (ls0 ! i)" if "\<not> group_cancelled s" "i < length ls0" for i
    using lane [OF that(2) refl] that(1) by (auto simp: group_cancelled_def)
  moreover have "ls_Err s = None" if all: "\<forall>i<length ls0. mset (ln_Done (ls_Lanes s ! i)) = lane_tasks (ls0 ! i)" and outer: "\<not> ls_Outer s"
  proof (rule ccontr)
    assume "ls_Err s \<noteq> None"
    then obtain x e where "ls_Err s = Some (TaskFailed x e)"
      using ok outer by (cases "ls_Err s"; cases "the (ls_Err s)") (auto simp: lanes_ok_def)
    then obtain l where "l \<in> set (ls_Lanes s)" "x \<in> set (ln_Failed l)" using ok by (auto simp: lanes_ok_def)
    moreover have "length (ls_Lanes s) = length ls0" using ok by (simp add: lanes_ok_def)
    ultimately obtain i where i: "i < length ls0" "x \<in> set (ln_Failed (ls_Lanes s ! i))"
      by (metis in_set_conv_nth)
    from all [rule_format, OF i(1)] lane [OF i(1) refl, THEN conjunct1]
    have "mset (ln_Failed (ls_Lanes s ! i)) = {#}" by (intro multiset_parts(2)) (rule trans)
    with i(2) show False by simp
  qed
  ultimately show ?thesis unfolding alive by (auto simp: group_cancelled_def)
qed

lemma result_of_errors:
  assumes "lanes_ok ls0 s"
  shows "lanes_result s = Some (TaskFailed x e) \<Longrightarrow> \<exists>l\<in>set (ls_Lanes s). x \<in> set (ln_Failed l)"
    and "lanes_result s = Some CtxCancelled \<Longrightarrow> ls_Outer s"
  using assms by (auto simp: lanes_ok_def lanes_result_def split: if_splits)

lemma both_full:
  assumes "a \<subseteq># A" and "b \<subseteq># B"
  shows "a = A \<and> b = B \<longleftrightarrow> a + b = A + B"
proof -
  obtain c d where "A = a + c" "B = b + d" using assms by (auto simp: subset_mset.le_iff_add)
  then show ?thesis by (auto simp: ac_simps)
qed

text \<open>
  C17: In every interleaving, a transfer in two lanes writes at most one object in parts and
  at most the agreed number of the others at a time, and starts no object twice; and once
  both lanes have returned, the result is a success exactly when every object was
  transferred and nobody cancelled, a failure names an object that did fail, and a
  cancellation is reported only when the caller cancelled.
\<close>

theorem lanes_settle:
  assumes "lanes_run evs (for_each_in_lanes objects order inParts) = Some s"
  shows "\<exists>parted whole. ls_Lanes s = [parted, whole]
     \<and> length (ln_Running parted) \<le> 1 \<and> length (ln_Running whole) \<le> objects
     \<and> mset (ln_Done parted @ ln_Failed parted @ ln_Running parted @ ln_Done whole @ ln_Failed whole @ ln_Running whole) \<subseteq># mset order
     \<and> (all_returned s \<longrightarrow>
          (lanes_result s = None \<longleftrightarrow> mset (ln_Done parted @ ln_Done whole) = mset order \<and> \<not> ls_Outer s)
        \<and> (\<forall>x e. lanes_result s = Some (TaskFailed x e) \<longrightarrow> x \<in> set (ln_Failed parted @ ln_Failed whole))
        \<and> (lanes_result s = Some CtxCancelled \<longrightarrow> ls_Outer s))"
proof -
  let ?s0 = "for_each_in_lanes objects order inParts"
  have ok: "lanes_ok (ls_Lanes ?s0) s" by (rule lanes_run_ok [OF assms fresh_ok [OF fresh_starts(2)]])
  then obtain p w where pw: "ls_Lanes s = [p, w]"
    by (auto simp: lanes_ok_def for_each_in_lanes_def length_Suc_conv)
  have lane: "same_lane (new_lane 1 False False (filter inParts order)) p" "lane_ok p"
      "same_lane (new_lane objects True True (filter (\<lambda>i. \<not> inParts i) order)) w" "lane_ok w"
    using ok pw by (auto simp: lanes_ok_def for_each_in_lanes_def less_Suc_eq)
  have tasks: "lane_tasks p = mset (filter inParts order)" "lane_tasks w = mset (filter (\<lambda>i. \<not> inParts i) order)"
    using lane(1,3) by (simp_all add: same_lane_def lane_tasks_def waiting_list_def new_lane_def)
  have split: "lane_tasks p + lane_tasks w = mset order" by (simp add: tasks)
  have sub: "mset (ln_Done p @ ln_Failed p @ ln_Running p @ ln_Done w @ ln_Failed w @ ln_Running w) \<subseteq># mset order"
    unfolding split [symmetric] lane_tasks_def by (simp add: subset_mset.add_mono)
  have fin: "lanes_result s = None \<longleftrightarrow> mset (ln_Done p @ ln_Done w) = mset order \<and> \<not> ls_Outer s" if ret: "all_returned s"
  proof -
    have "ln_Returned p" "ln_Returned w" using ret pw by (simp_all add: all_returned_def)
    then have part: "mset (ln_Done p) \<subseteq># lane_tasks p" "mset (ln_Done w) \<subseteq># lane_tasks w"
      using lane(2,4) by (simp_all only: returned_lane_tasks multiset_parts(1))
    have "mset (ln_Done p) = lane_tasks p \<and> mset (ln_Done w) = lane_tasks w \<longleftrightarrow> mset (ln_Done p @ ln_Done w) = mset order"
      using both_full [OF part] by (simp add: split)
    moreover have "lanes_result s = None \<longleftrightarrow> (mset (ln_Done p) = lane_tasks p \<and> mset (ln_Done w) = lane_tasks w) \<and> \<not> ls_Outer s"
      using settled_group [OF ok ret] pw lane(1,3)
      by (simp add: for_each_in_lanes_def less_Suc_eq all_conj_distrib same_lane_def)
    ultimately show ?thesis by simp
  qed
  have limits: "length (ln_Running p) \<le> 1" "length (ln_Running w) \<le> objects"
    using lane by (simp_all add: same_lane_def lane_ok_def new_lane_def)
  have named: "x \<in> set (ln_Failed p @ ln_Failed w)" if "lanes_result s = Some (TaskFailed x e)" for x e
    using result_of_errors(1) [OF ok that] pw by auto
  show ?thesis
    apply (rule exI [of _ p], rule exI [of _ w])
    apply (intro conjI impI allI)
    apply (rule pw)
    apply (rule limits)
    apply (rule limits)
    apply (rule sub)
    apply (erule fin)
    apply (erule named)
    by (rule result_of_errors(2) [OF ok])
qed

text \<open>
  The doc comment of \<open>forEachInLanes\<close> says the first failure in either lane cancels both and is
  the error returned. The lane of whole objects tells the group of its failure only when its
  last goroutine has ended, so an object written in parts that fails meanwhile is the one reported.
\<close>

abbreviation two_failures :: "lane_event list" where
  "two_failures \<equiv> [Take 0, Start 0, Take 1, Start 1, Take 1, Start 1, Fail 1 1 ''reset'', Fail 0 0 ''disk'',
     Return 0, Succeed 1 2, Return 1]"

lemmas lanes_eval = for_each_in_lanes_def new_lane_def lanes_exec_def lane_cancelled_def group_cancelled_def
  is_return_def all_returned_def lane_result_def first_error_def lanes_result_def

lemma later_failure_reported:
  obtains s where "lanes_run two_failures (for_each_in_lanes 2 [0, 1, 2] (\<lambda>i. i = 0)) = Some s"
    "all_returned s" "lanes_result s = Some (TaskFailed 0 ''disk'')" "ln_Failed (ls_Lanes s ! 0) = [0]"
  by (simp add: lanes_eval)

theorem lanes_settle_witness:
  "\<exists>s parted whole. lanes_run two_failures (for_each_in_lanes 2 [0, 1, 2] (\<lambda>i. i = 0)) = Some s
     \<and> all_returned s \<and> ls_Lanes s = [parted, whole] \<and> 0 \<in> set (ln_Failed parted @ ln_Failed whole)"
proof -
  obtain s where s: "lanes_run two_failures (for_each_in_lanes 2 [0, 1, 2] (\<lambda>i. i = 0)) = Some s"
      "all_returned s" "lanes_result s = Some (TaskFailed 0 ''disk'')"
    by (rule later_failure_reported)
  from lanes_settle [OF s(1)] s(2,3) obtain parted whole
    where "ls_Lanes s = [parted, whole]" "0 \<in> set (ln_Failed parted @ ln_Failed whole)" by blast
  with s(1,2) show ?thesis by blast
qed

end
