(* ===== verification/S3Transfer.thy ===== *)
theory S3Transfer
  imports StorageModel TransferCore Lanes
begin

text \<open>
  Object storage transfers: the size check made before anything is sent
  (\<open>s3-sizelimit.go\<close>), how many objects and parts move at once and in which order
  (\<open>s3-concurrency.go\<close>), the upload of one object in parts (\<open>s3-multipart.go\<close>), retries
  and byte accounting, and the selection, placement and copying of objects by the two
  executors (\<open>executor-s3.go\<close>). HTTP replies, listings and the cloud behind a broker are
  arguments; \<open>Lanes\<close> models the goroutines.
\<close>

section \<open>Concurrency and order\<close>

abbreviation s3MaxConnections :: int where "s3MaxConnections \<equiv> 256"

definition s3_objects :: "int option \<Rightarrow> int" where
  "s3_objects ctx = concurrency_from ctx"

definition s3_parts :: "int option \<Rightarrow> int" where
  "s3_parts ctx = (let c = concurrency_from ctx in max 1 (min c (s3MaxConnections - c)))"

definition report_s3_concurrency :: "int option \<Rightarrow> update" where
  "report_s3_concurrency ctx =
     (let objects = s3_objects ctx; parts = s3_parts ctx
      in concurrency_update objects
           (if parts < objects then itoa parts @ '' parts per object: '' @ itoa s3MaxConnections @ '' connections at most'' else []))"

definition largest_first :: "int list \<Rightarrow> nat list" where
  "largest_first sizes = sort_key (\<lambda>i. - (sizes ! i)) [0..<length sizes]"

lemma largest_first_perm: "mset (largest_first sizes) = mset [0..<length sizes]"
  by (simp add: largest_first_def)

lemma largest_first_sorted:
  "i < j \<Longrightarrow> j < length sizes \<Longrightarrow> sizes ! (largest_first sizes ! j) \<le> sizes ! (largest_first sizes ! i)"
  using sorted_nth_mono [OF sorted_sort_key, of i j "\<lambda>i. - (sizes ! i)" "[0..<length sizes]"]
  by (simp add: largest_first_def)

lemma largest_first_stable:
  "filter (\<lambda>i. sizes ! i = n) (largest_first sizes) = filter (\<lambda>i. sizes ! i = n) [0..<length sizes]"
proof -
  have "(\<lambda>i. sizes ! i = n) = (\<lambda>i. - (sizes ! i) = - n)" by (rule ext) simp
  then show ?thesis
    unfolding largest_first_def by (simp only: sort_key_stable)
qed

section \<open>What one PUT carries\<close>

abbreviation presignedPutLimit :: int where "presignedPutLimit \<equiv> 5 * 2 ^ 30"
abbreviation multipartThreshold :: int where "multipartThreshold \<equiv> 128 * 2 ^ 20"

definition put_limit_for :: "string \<Rightarrow> int" where
  "put_limit_for csp =
     (let name = to_lower (trim_space csp)
      in if name = ''azure'' then 5000 * 2 ^ 20
         else if name = ''gcp'' then 5 * 2 ^ 40
         else if name = ''ncp'' then 10000000000000
         else presignedPutLimit)"

fun is_multipart_uploader :: "s3_provider \<Rightarrow> bool" where
  "is_multipart_uploader (MinioProvider m b) = True"
| "is_multipart_uploader (AzureProvider h a k c) = True"
| "is_multipart_uploader p = False"

text \<open>\<open>csp\<close> answers \<open>cloudProvider\<close>: the cloud behind a broker, \<open>None\<close> when it cannot be read.\<close>

definition single_put_limit :: "(s3_provider \<Rightarrow> string option) \<Rightarrow> s3_provider \<Rightarrow> int" where
  "single_put_limit csp p =
     (if is_multipart_uploader p then multipartThreshold
      else (case csp p of None \<Rightarrow> presignedPutLimit | Some c \<Rightarrow> put_limit_for c))"

definition limit_source_of :: "string \<Rightarrow> string \<Rightarrow> string" where
  "limit_source_of kind csp =
     (if csp = [] then kind @ '' (cloud provider unknown)'' else to_lower csp @ '' behind '' @ kind)"

fun provider_kind :: "s3_provider \<Rightarrow> string" where
  "provider_kind (SpiderProvider c b) = ''spider''"
| "provider_kind (TumblebugProvider c) = ''tumblebug''"
| "provider_kind (MinioProvider m b) = ''minio''"
| "provider_kind (AzureProvider h a k c) = ''azure''"

definition limit_source :: "(s3_provider \<Rightarrow> string option) \<Rightarrow> s3_provider \<Rightarrow> string" where
  "limit_source csp p = limit_source_of (provider_kind p) (case csp p of None \<Rightarrow> [] | Some c \<Rightarrow> c)"

record sized_item =
  si_Name :: string
  si_Size :: int

datatype preflight_error =
    ListForSizeCheck string
  | ExceedsSinglePut nat string int string "sized_item list"

text \<open>The message names the first ten of the items that are too large.\<close>

definition check_single_put_limit :: "sized_item list \<Rightarrow> string \<Rightarrow> int \<Rightarrow> string \<Rightarrow> preflight_error option" where
  "check_single_put_limit items noun limit source =
     (let over = filter (\<lambda>it. si_Size it > limit) items
      in if over = [] then None else Some (ExceedsSinglePut (length over) noun limit source (take 10 over)))"

definition single_put_preflight ::
  "(s3_provider \<Rightarrow> string option) \<Rightarrow> s3_provider \<Rightarrow> string \<Rightarrow> string + sized_item list \<Rightarrow> (unit \<Rightarrow> preflight_error option) option" where
  "single_put_preflight csp dst noun listing =
     (if is_multipart_uploader dst then None
      else Some (\<lambda>_. (case listing of
                        Inl e \<Rightarrow> Some (ListForSizeCheck e)
                      | Inr items \<Rightarrow> check_single_put_limit items noun (single_put_limit csp dst) (limit_source csp dst))))"

record file_info =
  fi_Path :: string
  fi_Size :: int
  fi_ModTime :: int

record object_info =
  oi_Key :: string
  oi_Size :: int
  oi_LastModified :: string
  oi_ETag :: string

definition fs_sizes :: "regexp_engine \<Rightarrow> data_location \<Rightarrow> file_info list \<Rightarrow> sized_item list" where
  "fs_sizes rx src files =
     concat (map (\<lambda>f. if fi_Path f = ''.'' \<or> fi_Path f = [] then [\<lparr>si_Name = path_base (dl_Path src), si_Size = fi_Size f\<rparr>]
                      else if match_path rx (dl_Filter src) (fi_Path f) (fi_Size f) False
                      then [\<lparr>si_Name = fi_Path f, si_Size = fi_Size f\<rparr>] else []) files)"

text \<open>The objects of a listing that belong to the source location and pass its filter.\<close>

definition key_prefix :: "data_location \<Rightarrow> string" where
  "key_prefix loc = snd (parse_bucket_and_key (dl_Path loc))"

definition keeps_object :: "regexp_engine \<Rightarrow> data_location \<Rightarrow> object_info \<Rightarrow> bool" where
  "keeps_object rx src obj =
     match_path rx (dl_Filter src) (filter_rel (key_prefix src) (oi_Key obj)) (oi_Size obj) False"

definition object_sizes :: "regexp_engine \<Rightarrow> data_location \<Rightarrow> object_info list \<Rightarrow> sized_item list" where
  "object_sizes rx src objects =
     map (\<lambda>obj. \<lparr>si_Name = oi_Key obj, si_Size = oi_Size obj\<rparr>)
       (filter (\<lambda>obj. key_under_prefix (key_prefix src) (oi_Key obj) \<and> keeps_object rx src obj) objects)"

section \<open>Failures and retries\<close>

text \<open>
  What a request may fail with: a failure that passes (\<open>Transient\<close>), S3's \<open>RequestTimeout\<close>,
  or one trying again cannot fix; \<open>Exhausted\<close> is what \<open>withRetry\<close> makes of the last attempt's.
\<close>

datatype s3_failure =
    Transient string
  | TimedOut string
  | Permanent string
  | Exhausted s3_failure nat
  | LowerConcurrency s3_failure nat int

fun is_permanent :: "s3_failure \<Rightarrow> bool" where
  "is_permanent (Permanent m) = True"
| "is_permanent (Exhausted f n) = is_permanent f"
| "is_permanent (LowerConcurrency f n c) = is_permanent f"
| "is_permanent _ = False"

fun is_timeout :: "s3_failure \<Rightarrow> bool" where
  "is_timeout (TimedOut m) = True"
| "is_timeout (Exhausted f n) = is_timeout f"
| "is_timeout (LowerConcurrency f n c) = is_timeout f"
| "is_timeout _ = False"

definition status_error :: "string \<Rightarrow> int \<Rightarrow> string \<Rightarrow> s3_failure" where
  "status_error op status body =
     (let msg = op @ '' failed with status '' @ itoa status @ '': '' @ body
      in if status = 400 \<and> contains ''<Code>RequestTimeout</Code>'' body then TimedOut msg
         else if status \<ge> 500 \<or> status = 408 \<or> status = 429 then Transient msg
         else Permanent msg)"

definition sdk_error :: "string option \<Rightarrow> int \<Rightarrow> s3_failure option" where
  "sdk_error err status =
     (case err of
        None \<Rightarrow> None
      | Some e \<Rightarrow> Some (if status = 0 \<or> status \<ge> 500 \<or> status = 408 \<or> status = 429 then Transient e else Permanent e))"

abbreviation s3Attempts :: nat where "s3Attempts \<equiv> 3"

text \<open>
  The attempts from number \<open>attempt\<close> on; \<open>todo\<close> is how many are left after it. \<open>cancelled\<close>
  reads the context, \<open>pause\<close> is the wait before the next attempt.
\<close>

fun retry_from ::
  "int \<Rightarrow> ('w \<Rightarrow> bool) \<Rightarrow> (nat \<Rightarrow> 'w \<Rightarrow> 'w) \<Rightarrow> ('w \<Rightarrow> s3_failure option \<times> 'w) \<Rightarrow> nat \<Rightarrow> nat \<Rightarrow> 'w \<Rightarrow> s3_failure option \<times> 'w" where
  "retry_from conc cancelled pause fn attempt todo w =
     (case fn w of
        (None, w1) \<Rightarrow> (None, w1)
      | (Some e, w1) \<Rightarrow>
          (if is_permanent e \<or> cancelled w1 then (Some e, w1)
           else (case todo of
                   0 \<Rightarrow> (Some (if is_timeout e then LowerConcurrency e attempt conc else Exhausted e attempt), w1)
                 | Suc n \<Rightarrow>
                     (let w2 = pause (2 ^ (attempt - 1)) w1
                      in if cancelled w2 then (Some e, w2)
                         else retry_from conc cancelled pause fn (Suc attempt) n w2))))"

definition with_retry ::
  "int \<Rightarrow> ('w \<Rightarrow> bool) \<Rightarrow> (nat \<Rightarrow> 'w \<Rightarrow> 'w) \<Rightarrow> ('w \<Rightarrow> s3_failure option \<times> 'w) \<Rightarrow> 'w \<Rightarrow> s3_failure option \<times> 'w" where
  "with_retry conc cancelled pause fn w = retry_from conc cancelled pause fn 1 (s3Attempts - 1) w"

declare retry_from.simps [simp del]

text \<open>
  \<open>tries\<close> counts the calls of \<open>fn\<close> in the world. \<open>ended fn e w\<close>: the last attempt left \<open>w\<close> with the outcome \<open>e\<close>.
\<close>

definition ended :: "('w \<Rightarrow> s3_failure option \<times> 'w) \<Rightarrow> s3_failure option \<Rightarrow> 'w \<Rightarrow> bool" where
  "ended fn r w \<longleftrightarrow> (\<exists>w0. fn w0 = (r, w))"

lemma retry_from_bounds:
  fixes tries :: "'w \<Rightarrow> nat"
  assumes fn: "\<And>w. tries (snd (fn w)) = Suc (tries w)" and pause: "\<And>k w. tries (pause k w) = tries w"
    and run: "retry_from conc cancelled pause fn attempt todo w = (r, w')"
  shows "tries w < tries w' \<and> tries w' \<le> tries w + Suc todo
    \<and> (r = None \<longrightarrow> ended fn None w')
    \<and> (\<forall>e. r = Some e \<longrightarrow>
         (ended fn (Some e) w' \<and> (is_permanent e \<or> cancelled w'))
       \<or> (\<exists>k w1. ended fn (Some e) w1 \<and> w' = pause k w1 \<and> cancelled w')
       \<or> (\<exists>e0. ended fn (Some e0) w' \<and> tries w' = tries w + Suc todo \<and> \<not> is_permanent e0
            \<and> e = (if is_timeout e0 then LowerConcurrency e0 (attempt + todo) conc else Exhausted e0 (attempt + todo))))"
  using run
proof (induction todo arbitrary: attempt w)
  case 0
  obtain q w1 where q: "fn w = (q, w1)" by (meson surj_pair)
  then have "tries w1 = Suc (tries w)" using fn [of w] by simp
  then show ?case using 0 q by (cases q) (auto simp: retry_from.simps ended_def split: if_splits)
next
  case (Suc n)
  obtain q w1 where q: "fn w = (q, w1)" by (meson surj_pair)
  then have t: "tries w1 = Suc (tries w)" using fn [of w] by simp
  show ?case
  proof (cases "\<exists>e. q = Some e \<and> \<not> is_permanent e \<and> \<not> cancelled w1 \<and> \<not> cancelled (pause (2 ^ (attempt - 1)) w1)")
    case True
    then have "retry_from conc cancelled pause fn (Suc attempt) n (pause (2 ^ (attempt - 1)) w1) = (r, w')"
      using Suc.prems q by (auto simp: retry_from.simps [of _ _ _ _ _ "Suc n"] Let_def)
    note ih = Suc.IH [OF this]
    have same: "Suc attempt + n = attempt + Suc n" "tries (pause (2 ^ (attempt - 1)) w1) + Suc n = tries w + Suc (Suc n)"
      by (simp_all add: pause t)
    note ih = ih [unfolded same]
    have "tries w < tries w'" using ih [THEN conjunct1] by (simp add: pause t)
    then show ?thesis using ih [THEN conjunct2] by (rule conjI)
  next
    case False
    then show ?thesis using Suc.prems q t pause
      by (cases q) (auto simp: retry_from.simps [of _ _ _ _ _ "Suc n"] ended_def Let_def split: if_splits)
  qed
qed

text \<open>
  One request is sent at most three times and at least once: a success is the last
  attempt's own, and a failure is reported as it came only when trying again cannot fix it
  or the transfer was cancelled, and otherwise after all three attempts, with their number
  and, for a server that timed out, the advice to lower the concurrency.
\<close>

lemma retries_are_bounded:
  fixes tries :: "'w \<Rightarrow> nat"
  assumes "\<And>w. tries (snd (fn w)) = Suc (tries w)" and "\<And>k w. tries (pause k w) = tries w"
    and "with_retry conc cancelled pause fn w = (r, w')"
  shows "tries w < tries w' \<and> tries w' \<le> tries w + 3
    \<and> (r = None \<longrightarrow> ended fn None w')
    \<and> (\<forall>e. r = Some e \<longrightarrow>
         (ended fn (Some e) w' \<and> (is_permanent e \<or> cancelled w'))
       \<or> (\<exists>k w1. ended fn (Some e) w1 \<and> w' = pause k w1 \<and> cancelled w')
       \<or> (\<exists>e0. ended fn (Some e0) w' \<and> tries w' = tries w + 3 \<and> \<not> is_permanent e0
            \<and> e = (if is_timeout e0 then LowerConcurrency e0 3 conc else Exhausted e0 3)))"
proof -
  have attempts_left: "s3Attempts - 1 = 2" "1 + 2 = (3 :: nat)" "Suc 2 = (3 :: nat)" by simp_all
  show ?thesis
    using retry_from_bounds [OF assms(1,2) assms(3) [unfolded with_retry_def]] unfolding attempts_left by simp
qed

lemma retries_are_bounded_witness:
  "\<exists>e0. with_retry 4 (\<lambda>_. False) (\<lambda>_ n. n) (\<lambda>n. (Some (TimedOut ''idle''), Suc n)) 0 = (Some (LowerConcurrency (TimedOut ''idle'') 3 4), 3)
     \<and> ended (\<lambda>n. (Some (TimedOut ''idle''), Suc n)) (Some e0) 3"
proof -
  have run: "with_retry 4 (\<lambda>_. False) (\<lambda>_ n. n) (\<lambda>n. (Some (TimedOut ''idle''), Suc n)) 0 = (Some (LowerConcurrency (TimedOut ''idle'') 3 4), 3)"
    by (simp add: with_retry_def retry_from.simps numeral_eq_Suc)
  from retries_are_bounded [of id, OF _ _ run] have "\<exists>e0. ended (\<lambda>n. (Some (TimedOut ''idle''), Suc n)) (Some e0) 3"
    by auto
  with run show ?thesis by blast
qed

end
