(* ===== verification/S3Multipart.thy ===== *)
theory S3Multipart
  imports S3Transfer
begin

text \<open>
  An object written in parts: \<open>runMultipart\<close> of \<open>s3-multipart.go\<close> with the block size Azure's
  \<open>startMultipart\<close> chooses (\<open>s3-azure.go\<close>), over the lane of parts of \<open>Lanes\<close>. The provider's
  answers and the schedule of the parts are arguments; the result lists the calls made on
  the upload.
\<close>

section \<open>The parts of an object\<close>

text \<open>Part number, offset, length.\<close>

definition part_count :: "int \<Rightarrow> int \<Rightarrow> nat" where
  "part_count sz partSize = nat ((sz + partSize - 1) div partSize)"

definition part_at :: "int \<Rightarrow> int \<Rightarrow> nat \<Rightarrow> nat \<times> int \<times> int" where
  "part_at sz partSize i = (i + 1, int i * partSize, min partSize (sz - int i * partSize))"

definition parts_of :: "int \<Rightarrow> int \<Rightarrow> (nat \<times> int \<times> int) list" where
  "parts_of sz partSize = map (part_at sz partSize) [0..<part_count sz partSize]"

definition section_of :: "'a list \<Rightarrow> nat \<times> int \<times> int \<Rightarrow> 'a list" where
  "section_of data p = (case p of (n, off, len) \<Rightarrow> take (nat len) (drop (nat off) data))"

abbreviation azureMinBlockSize :: int where "azureMinBlockSize \<equiv> 64 * 2 ^ 20"

text \<open>\<open>blockblob.MaxBlocks\<close> and \<open>blockblob.MaxStageBlockBytes\<close>, the service's documented limits.\<close>

abbreviation MaxBlocks :: int where "MaxBlocks \<equiv> 50000"
abbreviation MaxStageBlockBytes :: int where "MaxStageBlockBytes \<equiv> 4000 * 2 ^ 20"

text \<open>\<open>(b + 1<<20 - 1) &^ (1<<20 - 1)\<close> clears the low twenty bits.\<close>

definition azure_block_size :: "int \<Rightarrow> s3_failure + int" where
  "azure_block_size sz =
     (let block0 = max azureMinBlockSize ((sz + MaxBlocks - 1) div MaxBlocks);
          block = (block0 + 2 ^ 20 - 1) div 2 ^ 20 * 2 ^ 20
      in if block > MaxStageBlockBytes then Inl (Permanent ''object exceeds the blocks of an upload'') else Inr block)"

lemma ceil_div:
  assumes "(0 :: int) < p"
  shows "n \<le> (n + p - 1) div p * p" and "(n + p - 1) div p * p \<le> n + p - 1"
proof -
  have "(n + p - 1) div p * p = n + p - 1 - (n + p - 1) mod p" by (simp add: minus_mod_eq_div_mult)
  with pos_mod_bound [OF assms, of "n + p - 1"] pos_mod_sign [OF assms, of "n + p - 1"]
  show "n \<le> (n + p - 1) div p * p" "(n + p - 1) div p * p \<le> n + p - 1" by linarith+
qed

lemma azure_block_size_bounds:
  assumes "azure_block_size sz = Inr b" and "0 \<le> sz"
  shows "azureMinBlockSize \<le> b \<and> b \<le> MaxStageBlockBytes \<and> 2 ^ 20 dvd b \<and> int (part_count sz b) \<le> MaxBlocks"
proof -
  define b0 where "b0 = max azureMinBlockSize ((sz + MaxBlocks - 1) div MaxBlocks)"
  have b: "b = (b0 + 2 ^ 20 - 1) div 2 ^ 20 * 2 ^ 20" "b \<le> MaxStageBlockBytes"
    using assms(1) by (auto simp: azure_block_size_def Let_def b0_def split: if_splits)
  have ge: "b0 \<le> b" unfolding b(1) by (rule ceil_div) simp
  have min: "azureMinBlockSize \<le> b0" by (simp add: b0_def)
  have "sz \<le> (sz + MaxBlocks - 1) div MaxBlocks * MaxBlocks" by (rule ceil_div) simp
  also have "\<dots> \<le> MaxBlocks * b0" unfolding b0_def by linarith
  also have "\<dots> \<le> MaxBlocks * b" using ge by simp
  finally have "sz \<le> MaxBlocks * b" .
  then have "sz + b - 1 < (MaxBlocks + 1) * b" using min ge by (simp add: algebra_simps)
  moreover have "(sz + b - 1) div b * b \<le> sz + b - 1" by (rule ceil_div) (use min ge in simp)
  ultimately have "(sz + b - 1) div b * b < (MaxBlocks + 1) * b" by linarith
  then have "(sz + b - 1) div b < MaxBlocks + 1" using min ge by (simp only: mult_less_cancel_right) auto
  then have "int (part_count sz b) \<le> MaxBlocks" using assms(2) min ge by (simp add: part_count_def)
  moreover have "2 ^ 20 dvd b" unfolding b(1) by simp
  ultimately show ?thesis using b(2) ge min by linarith
qed

section \<open>The upload\<close>

datatype upload_call = WritePart nat int int | CompleteUpload | AbortUpload

datatype multipart_error =
    StartFailed s3_failure
  | BadPartSize int
  | PartsFailed task_error
  | CompleteFailed s3_failure

definition write_call :: "int \<Rightarrow> int \<Rightarrow> nat \<Rightarrow> upload_call" where
  "write_call sz partSize i = (case part_at sz partSize i of (n, off, len) \<Rightarrow> WritePart n off len)"

text \<open>
  \<open>start\<close> and \<open>complete\<close> are what the retried calls end with, \<open>evs\<close> a schedule of the parts.
  \<open>None\<close> when \<open>evs\<close> is not a schedule that runs to its end. Written are the parts whose task
  succeeded, the latest first.
\<close>

definition run_multipart ::
  "s3_failure + int \<Rightarrow> nat \<Rightarrow> lane_event list \<Rightarrow> s3_failure option \<Rightarrow> int \<Rightarrow> (multipart_error option \<times> upload_call list) option" where
  "run_multipart start limit evs complete sz =
     (case start of
        Inl e \<Rightarrow> Some (Some (StartFailed e), [])
      | Inr partSize \<Rightarrow>
          (if partSize \<le> 0 then Some (Some (BadPartSize partSize), [AbortUpload])
           else
             (case lanes_run evs (part_group limit (part_count sz partSize)) of
                None \<Rightarrow> None
              | Some s \<Rightarrow>
                  (if \<not> all_returned s then None
                   else
                     (let writes = map (write_call sz partSize) (concat (map ln_Done (ls_Lanes s)))
                      in Some (case lanes_result s of
                                 Some e \<Rightarrow> (Some (PartsFailed e), writes @ [AbortUpload])
                               | None \<Rightarrow>
                                   (case complete of
                                      Some e \<Rightarrow> (Some (CompleteFailed e), writes @ [CompleteUpload, AbortUpload])
                                    | None \<Rightarrow> (None, writes @ [CompleteUpload]))))))))"

section \<open>The parts are the object\<close>

lemma parts_tile:
  assumes ps: "0 < ps" and k: "k \<le> part_count (int (length data)) ps"
  shows "concat (map (section_of data) (map (part_at (int (length data)) ps) [0..<k])) = take (nat (int k * ps)) data"
  using k
proof (induction k)
  case (Suc k)
  let ?n = "int (length data)"
  have "int k < (?n + ps - 1) div ps" using Suc.prems ps by (simp add: part_count_def)
  then have "(int k + 1) * ps \<le> (?n + ps - 1) div ps * ps" using ps by simp
  also have "\<dots> \<le> ?n + ps - 1" by (rule ceil_div(2) [OF ps])
  finally have below: "int k * ps < ?n" by (simp add: algebra_simps)
  have sec: "section_of data (part_at ?n ps k) = take (nat ps) (drop (nat (int k * ps)) data)"
    using below by (auto simp: section_of_def part_at_def min_def)
  have "nat (int (Suc k) * ps) = nat (int k * ps) + nat ps" using ps by (simp add: algebra_simps nat_add_distrib)
  then show ?case using Suc by (simp add: sec take_add)
qed simp

lemma parts_whole:
  assumes "0 < ps"
  shows "concat (map (section_of data) (parts_of (int (length data)) ps)) = data"
proof -
  let ?n = "int (length data)"
  have "?n \<le> (?n + ps - 1) div ps * ps"
    by (rule ceil_div(1) [OF assms])
  then have "length data \<le> nat (int (part_count ?n ps) * ps)"
    using assms by (simp add: part_count_def pos_imp_zdiv_nonneg_iff)
  then show ?thesis unfolding parts_of_def parts_tile [OF assms order_refl] by simp
qed

lemma part_group_result:
  assumes "lanes_run evs (part_group limit k) = Some s" and "all_returned s" and "lanes_result s = None"
  shows "mset (concat (map ln_Done (ls_Lanes s))) = mset [0..<k]"
proof -
  let ?s0 = "part_group limit k"
  have ok: "lanes_ok (ls_Lanes ?s0) s" by (rule lanes_run_ok [OF assms(1) fresh_ok [OF fresh_starts(3)]])
  then obtain l where l: "ls_Lanes s = [l]" by (auto simp: lanes_ok_def part_group_def length_Suc_conv)
  have "mset (ln_Done l) = lane_tasks (new_lane limit False True [0..<k])"
    using settled_group [OF ok assms(2)] assms(3) l by (simp add: part_group_def)
  then show ?thesis by (simp add: l lane_tasks_def waiting_list_def new_lane_def)
qed

text \<open>
  C20: An object written in parts arrives whole or is discarded: for every schedule of the
  parts, the upload ends well only after each part was written exactly once, the parts
  tile the object without gap or overlap, and completing is the last call; and whenever it
  ends badly the last call discards what was written.
\<close>

theorem multipart_whole_or_discarded:
  assumes run: "run_multipart (Inr ps) limit evs complete (int (length data)) = Some (r, calls)"
  shows "(r = None \<longrightarrow> (\<exists>writes. calls = writes @ [CompleteUpload]
            \<and> mset writes = mset (map (\<lambda>(n, off, len). WritePart n off len) (parts_of (int (length data)) ps))
            \<and> concat (map (section_of data) (parts_of (int (length data)) ps)) = data))
    \<and> (r \<noteq> None \<longrightarrow> last calls = AbortUpload \<and> (CompleteUpload \<in> set calls \<longrightarrow> (\<exists>e. complete = Some e \<and> r = Some (CompleteFailed e))))"
proof (cases "ps \<le> 0")
  case True
  then show ?thesis using run by (auto simp: run_multipart_def)
next
  case False
  let ?n = "int (length data)"
  define wr where "wr s = map (write_call ?n ps) (concat (map ln_Done (ls_Lanes s)))" for s :: lanes
  obtain s where s: "lanes_run evs (part_group limit (part_count ?n ps)) = Some s" "all_returned s"
    and res: "(r, calls) = (case lanes_result s of Some e \<Rightarrow> (Some (PartsFailed e), wr s @ [AbortUpload])
        | None \<Rightarrow> (case complete of Some e \<Rightarrow> (Some (CompleteFailed e), wr s @ [CompleteUpload, AbortUpload])
                   | None \<Rightarrow> (None, wr s @ [CompleteUpload])))"
    using run False by (auto simp: run_multipart_def wr_def Let_def split: option.splits if_splits)
  have writes: "CompleteUpload \<notin> set (wr s)" by (auto simp: wr_def write_call_def split: prod.splits)
  have "mset (wr s) = mset (map (\<lambda>(n, off, len). WritePart n off len) (parts_of ?n ps))" if "lanes_result s = None"
  proof -
    have "mset (wr s) = image_mset (write_call ?n ps) (mset [0..<part_count ?n ps])"
      unfolding wr_def by (simp only: mset_map part_group_result [OF s that])
    also have "write_call ?n ps = (\<lambda>(n, off, len). WritePart n off len) \<circ> part_at ?n ps"
      by (rule ext) (simp add: write_call_def)
    finally show ?thesis by (simp only: parts_of_def mset_map image_mset.compositionality)
  qed
  then show ?thesis using res writes parts_whole [of ps data] False
    by (cases "lanes_result s"; cases complete) auto
qed

abbreviation two_parts :: "lane_event list" where
  "two_parts \<equiv> [Take 0, Start 0, Take 0, Start 0, Succeed 0 1, Succeed 0 0, Return 0]"

lemma two_parts_run:
  "run_multipart (Inr 2) 2 two_parts None (int (length [7, 8, 9 :: nat])) =
     Some (None, [WritePart 1 0 2, WritePart 2 2 1, CompleteUpload])"
  by (simp add: run_multipart_def part_count_def part_at_def write_call_def part_group_def new_lane_def lanes_exec_def
      lane_cancelled_def group_cancelled_def is_return_def all_returned_def lane_result_def lanes_result_def upt_conv_Cons)

theorem multipart_whole_or_discarded_witness:
  "concat (map (section_of [7, 8, 9 :: nat]) (parts_of (int (length [7, 8, 9 :: nat])) 2)) = [7, 8, 9]"
  using multipart_whole_or_discarded [OF two_parts_run] by blast

end
