(* ===== verification/DbmsHandle.thy ===== *)
theory DbmsHandle
  imports DbmsDdl
begin

text \<open>
  One run of the database transfer library, \<open>data-mig/dbmsx/handle.go\<close> (the asynchronous
  migration, its rollback script and its target check), \<open>model.go\<close> (the progress struct)
  and \<open>driver/base/concurrency.go\<close>. A run is the list of operations it performs on its
  handle; what the engines answer is the record \<open>dbms_engine\<close>.
\<close>

section \<open>Progress\<close>

record migration_progress =
  mp_Status :: string
  mp_StartedAt :: int
  mp_ElapsedSec :: int
  mp_BytesTotal :: int
  mp_BytesTransferred :: int
  mp_TablesTotal :: int
  mp_TablesDone :: int
  mp_CurrentTable :: string
  mp_ErrMessage :: string
  mp_Step :: int
  mp_Steps :: int
  mp_TablesFinished :: int
  mp_RowsDone :: int
  mp_Phase :: string
  mp_Concurrency :: int
  mp_ConcurrencyNote :: string

definition zero_progress :: migration_progress where
  "zero_progress = \<lparr>mp_Status = [], mp_StartedAt = 0, mp_ElapsedSec = 0, mp_BytesTotal = 0, mp_BytesTransferred = 0,
     mp_TablesTotal = 0, mp_TablesDone = 0, mp_CurrentTable = [], mp_ErrMessage = [], mp_Step = 0, mp_Steps = 0,
     mp_TablesFinished = 0, mp_RowsDone = 0, mp_Phase = [], mp_Concurrency = 0, mp_ConcurrencyNote = []\<rparr>"

definition dbms_progress :: "migration_progress progress_ops" where
  "dbms_progress = \<lparr>po_GetStatus = mp_Status, po_SetStatus = (\<lambda>s p. p\<lparr>mp_Status := s\<rparr>),
     po_SetStartedAt = (\<lambda>t p. p\<lparr>mp_StartedAt := t\<rparr>), po_SetElapsed = (\<lambda>s p. p\<lparr>mp_ElapsedSec := s\<rparr>),
     po_SetError = (\<lambda>m p. p\<lparr>mp_ErrMessage := m\<rparr>)\<rparr>"

interpretation dbms: progress_contract dbms_progress
  by unfold_locales (simp_all add: dbms_progress_def)

abbreviation StatusChecking :: string where "StatusChecking \<equiv> ''checking''"
abbreviation StatusDumping :: string where "StatusDumping \<equiv> ''dumping''"
abbreviation StatusRestoring :: string where "StatusRestoring \<equiv> ''restoring''"
abbreviation StatusRollingBack :: string where "StatusRollingBack \<equiv> ''rolling-back''"
abbreviation StatusRolledBack :: string where "StatusRolledBack \<equiv> ''rolled-back''"

text \<open>What the reporters of the steps write into the progress struct.\<close>

definition count_bytes :: "int \<Rightarrow> migration_progress \<Rightarrow> migration_progress" where
  "count_bytes delta p = p\<lparr>mp_BytesTransferred := mp_BytesTransferred p + delta\<rparr>"

definition table_notify :: "string \<Rightarrow> migration_progress \<Rightarrow> migration_progress" where
  "table_notify table p = p\<lparr>mp_TablesDone := mp_TablesDone p + 1, mp_CurrentTable := table\<rparr>"

definition pipe_update :: "update \<Rightarrow> migration_progress \<Rightarrow> migration_progress" where
  "pipe_update u p =
     (if u_Concurrency u > 0 then p\<lparr>mp_Concurrency := u_Concurrency u, mp_ConcurrencyNote := u_ConcurrencyNote u\<rparr>
      else if u_Bytes u < 0 then p else p\<lparr>mp_BytesTransferred := u_Bytes u\<rparr>)"

definition dump_update :: "update \<Rightarrow> migration_progress \<Rightarrow> migration_progress" where
  "dump_update u p =
     (let p1 = (if u_UnitsTotal u > 0 then p\<lparr>mp_TablesFinished := u_Units u, mp_TablesTotal := u_UnitsTotal u\<rparr> else p)
      in if u_Item u \<noteq> [] then p1\<lparr>mp_CurrentTable := u_Item u\<rparr> else p1)"

definition restore_update :: "update \<Rightarrow> migration_progress \<Rightarrow> migration_progress" where
  "restore_update u p =
     (let p1 = (if u_Bytes u > 0 then p\<lparr>mp_BytesTransferred := u_Bytes u\<rparr> else p);
          p2 = (if u_Rows u > 0 then p1\<lparr>mp_RowsDone := u_Rows u\<rparr> else p1);
          p3 = (if u_UnitsTotal u > 0 then p2\<lparr>mp_TablesFinished := u_Units u, mp_TablesTotal := u_UnitsTotal u\<rparr> else p2)
      in if u_Concurrency u > 0 then p3\<lparr>mp_Concurrency := u_Concurrency u, mp_ConcurrencyNote := u_ConcurrencyNote u\<rparr>
         else (if u_Item u \<noteq> [] then p3\<lparr>mp_CurrentTable := u_Item u\<rparr> else p3)\<lparr>mp_Phase := u_Phase u\<rparr>)"

section \<open>How many connections a restore opens\<close>

abbreviation MaxRestoreConnections :: int where "MaxRestoreConnections \<equiv> 16"

datatype cap_note = NotCapped | CappedAtMax int | CappedByFree int int

definition restore_connections :: "int option \<Rightarrow> int \<Rightarrow> int \<times> cap_note" where
  "restore_connections ctx free =
     (let want = concurrency_from ctx;
          (n, note) = (if want > MaxRestoreConnections then (MaxRestoreConnections, CappedAtMax want) else (want, NotCapped))
      in if free \<ge> 0 then (let half = max 1 (free div 2) in if n > half then (half, CappedByFree want free) else (n, note))
         else (n, note))"

definition free_connections :: "int \<Rightarrow> int \<Rightarrow> int" where
  "free_connections maxConns opened = max 0 (maxConns - opened)"

section \<open>The target check of a pipe\<close>

definition replace_char :: "char \<Rightarrow> string \<Rightarrow> string \<Rightarrow> string" where
  "replace_char c new s = concat (map (\<lambda>x. if x = c then new else [x]) s)"

abbreviation squote :: char where "squote \<equiv> CHR 0x27"
abbreviation backslash :: char where "backslash \<equiv> CHR 0x5C"

definition shell_quote_single :: "string \<Rightarrow> string" where
  "shell_quote_single s = [squote] @ replace_char squote [squote, backslash, squote, squote] s @ [squote]"

definition pg_quote_ident :: "string \<Rightarrow> string" where
  "pg_quote_ident name = [dquote] @ replace_char dquote [dquote, dquote] name @ [dquote]"

definition mysql_check_command :: "dbms_location \<Rightarrow> ssh_tunnel_config \<Rightarrow> string \<Rightarrow> int \<Rightarrow> string" where
  "mysql_check_command dst t host port =
     (let bin = (if loc_DBMSType dst = MySQL then ''mysql'' else ''mariadb'');
          lit = replace_char squote [backslash, squote] (replace_char backslash [backslash, backslash] (loc_Database dst))
      in bin @ '' --batch --silent -h '' @ host @ '' -P '' @ itoa port
         @ (if stc_Username t \<noteq> [] then '' -u '' @ stc_Username t else [])
         @ (if stc_Password t \<noteq> [] then '' -p'' @ stc_Password t else [])
         @ '' -e '' @ shell_quote_single (''SHOW DATABASES LIKE '' @ [squote] @ lit @ [squote]))"

definition pg_check_command :: "dbms_location \<Rightarrow> ssh_tunnel_config \<Rightarrow> string \<Rightarrow> int \<Rightarrow> string" where
  "pg_check_command dst t host port =
     (let lit = replace_char squote [squote, squote] (loc_Database dst);
          cmd = ''psql -h '' @ host @ '' -p '' @ itoa port
                @ (if stc_Username t \<noteq> [] then '' -U '' @ stc_Username t else [])
                @ '' -d postgres --no-password -tAc ''
                @ shell_quote_single (''SELECT 1 FROM pg_database WHERE datname='' @ [squote] @ lit @ [squote])
      in if stc_Password t \<noteq> [] then ''PGPASSWORD='' @ shell_quote_single (stc_Password t) @ '' '' @ cmd else cmd)"

datatype run_error =
    RunInvalid dbms_error
  | RunPrepare string
  | RunNotEmpty string
  | RunCharset string
  | RunCheckTarget string
  | RunTargetMissing string string
  | RunSSHMissing
  | RunPipe string
  | RunStaging string
  | RunDump string
  | RunRestore string

type_synonym ssh_exec = "core_ssh_config option \<Rightarrow> string \<Rightarrow> string + string"

definition require_target_database :: "ssh_exec \<Rightarrow> dbms_location \<Rightarrow> run_error option" where
  "require_target_database ssh dst =
     (if loc_Database dst = [] \<or> \<not> loc_is_ssh_tunnel dst then None
      else (case loc_SSHTunnel dst of
              None \<Rightarrow> Some RunSSHMissing
            | Some t \<Rightarrow>
                (let host = (if stc_DBHost t = [] then ''127.0.0.1'' else stc_DBHost t);
                     port = (if stc_DBPort t = 0 then 3306 else stc_DBPort t)
                 in if loc_DBMSType dst = MariaDB \<or> loc_DBMSType dst = MySQL then
                      (case ssh (stc_SSH t) (mysql_check_command dst t host port) of
                         Inl e \<Rightarrow> Some (RunCheckTarget e)
                       | Inr out \<Rightarrow>
                           (if trim_space out = [] then Some (RunTargetMissing (loc_DBMSType dst) (loc_Database dst)) else None))
                    else if loc_DBMSType dst = PostgreSQL then
                      (case ssh (stc_SSH t) (pg_check_command dst t host (if stc_DBPort t = 0 then 5432 else port)) of
                         Inl e \<Rightarrow> Some (RunCheckTarget e)
                       | Inr out \<Rightarrow>
                           (if trim_space out \<noteq> ''1'' then Some (RunTargetMissing (loc_DBMSType dst) (loc_Database dst)) else None))
                    else None)))"

section \<open>The rollback script\<close>

definition names_of :: "string list option \<Rightarrow> string list" where
  "names_of x = (case x of None \<Rightarrow> [] | Some ns \<Rightarrow> ns)"

definition line_feed :: string where
  "line_feed = [CHR 0x0A]"

definition drop_line :: "string \<Rightarrow> string \<Rightarrow> string \<Rightarrow> string" where
  "drop_line kind name suffix = ''DROP '' @ kind @ '' IF EXISTS '' @ name @ suffix @ '';'' @ line_feed"

definition drop_lines :: "string \<Rightarrow> string list \<Rightarrow> string \<Rightarrow> string list" where
  "drop_lines kind names suffix = map (\<lambda>n. drop_line kind n suffix) names"

definition teardown_quote :: "string \<Rightarrow> string \<Rightarrow> string" where
  "teardown_quote t name = (if t = PostgreSQL then [dquote] @ name @ [dquote] else [CHR 0x60] @ name @ [CHR 0x60])"

definition table_names :: "dbms_info \<Rightarrow> string list" where
  "table_names info = map tab_Name (dbi_Tables info)"

definition qualified_table_names :: "dbms_info \<Rightarrow> string list" where
  "qualified_table_names info =
     map (\<lambda>t. if tab_PgSchema t = [] then pg_quote_ident (tab_Name t)
              else pg_quote_ident (tab_PgSchema t) @ ''.'' @ pg_quote_ident (tab_Name t)) (dbi_Tables info)"

definition teardown_lines :: "string \<Rightarrow> dbms_info \<Rightarrow> string list" where
  "teardown_lines t info =
     (let q = map (teardown_quote t)
      in if t = MySQL \<or> t = MariaDB then
           [''SET FOREIGN_KEY_CHECKS=0;'' @ line_feed]
           @ drop_lines ''TRIGGER'' (q (names_of (dbi_Triggers info))) []
           @ drop_lines ''VIEW'' (q (names_of (dbi_Views info))) []
           @ drop_lines ''TABLE'' (q (table_names info)) []
           @ drop_lines ''PROCEDURE'' (q (names_of (dbi_Procedures info))) []
           @ drop_lines ''FUNCTION'' (q (names_of (dbi_Functions info))) []
           @ drop_lines ''EVENT'' (q (names_of (dbi_Events info))) []
           @ [''SET FOREIGN_KEY_CHECKS=1;'' @ line_feed]
         else if t = PostgreSQL then
           drop_lines ''TABLE'' (qualified_table_names info) '' CASCADE''
           @ drop_lines ''MATERIALIZED VIEW'' (names_of (dbi_MaterializedViews info)) '' CASCADE''
           @ drop_lines ''VIEW'' (names_of (dbi_Views info)) '' CASCADE''
           @ drop_lines ''SEQUENCE'' (names_of (dbi_Sequences info)) '' CASCADE''
           @ drop_lines ''TYPE'' (names_of (dbi_Types info)) '' CASCADE''
           @ drop_lines ''EXTENSION'' (names_of (dbi_Extensions info)) '' CASCADE''
           @ drop_lines ''FUNCTION'' (names_of (dbi_Functions info)) '' CASCADE''
           @ drop_lines ''PROCEDURE'' (names_of (dbi_Procedures info)) '' CASCADE''
           @ drop_lines ''SCHEMA'' (map (\<lambda>s. pg_quote_ident (pgs_Name s)) (filter (\<lambda>s. pgs_Name s \<noteq> ''public'') (dbi_PgSchema info)))
               '' CASCADE''
         else drop_lines ''TABLE'' (q (table_names info)) [])"

definition build_teardown_script :: "string \<Rightarrow> dbms_info \<Rightarrow> string" where
  "build_teardown_script t info =
     (let script = concat (teardown_lines t info); s = trim_space script
      in if s = [] \<or> s = ''SET FOREIGN_KEY_CHECKS=0;'' @ line_feed @ ''SET FOREIGN_KEY_CHECKS=1;'' then [] else script)"

section \<open>A run\<close>

text \<open>
  What the outside answers during one run. The rollback is the last thing to reach it; it
  runs under the handle's own context, and \<open>en_cancelled\<close> says whether that context was
  cancelled by then. Each step's observations come in the order they are reported.
\<close>

record dbms_engine =
  en_roots :: tls_roots
  en_json :: json_object
  en_text :: "run_error \<Rightarrow> string"
  en_prepare :: "dbms_location \<Rightarrow> target_grant \<Rightarrow> string option"
  en_check_empty :: "dbms_location \<Rightarrow> string option"
  en_version :: server_version
  en_charset :: "dbms_migration_model \<Rightarrow> string option"
  en_ssh :: ssh_exec
  en_pipe :: "dbms_migration_model \<Rightarrow> update list \<times> string option"
  en_staging_file :: "string option"
  en_dump :: "dbms_migration_model \<Rightarrow> (int + update) list \<times> string option"
  en_dump_size :: int
  en_restore :: "dbms_migration_model \<Rightarrow> (string + update) list \<times> string option"
  en_cancelled :: bool
  en_inspect :: "bool \<Rightarrow> dbms_location \<Rightarrow> string + dbms_info"

type_synonym run_ops = "migration_progress handle_op list"

definition dump_op :: "int + update \<Rightarrow> migration_progress handle_op" where
  "dump_op x = (case x of Inl n \<Rightarrow> OpUpdate (count_bytes n) | Inr u \<Rightarrow> OpUpdate (dump_update u))"

definition restore_op :: "string + update \<Rightarrow> migration_progress handle_op" where
  "restore_op x = (case x of Inl t \<Rightarrow> OpUpdate (table_notify t) | Inr u \<Rightarrow> OpUpdate (restore_update u))"

definition migrate_via_pipe :: "dbms_engine \<Rightarrow> dbms_migration_model \<Rightarrow> run_ops \<times> run_error option" where
  "migrate_via_pipe en m =
     (case require_target_database (en_ssh en) (dmm_Destination m) of
        Some e \<Rightarrow> ([], Some e)
      | None \<Rightarrow>
          (case new_db_driver (loc_DBMSType (dmm_Source m)) of
             Some e \<Rightarrow> ([], Some (RunInvalid e))
           | None \<Rightarrow>
               (let (us, err) = en_pipe en m
                in (OpSetStatus StatusDumping # map (OpUpdate \<circ> pipe_update) us, map_option RunPipe err))))"

definition start_restore :: "int \<Rightarrow> migration_progress \<Rightarrow> migration_progress" where
  "start_restore dumped p = p\<lparr>mp_Step := 2, mp_BytesTransferred := 0, mp_BytesTotal := dumped, mp_TablesFinished := 0,
     mp_TablesTotal := 0, mp_RowsDone := 0, mp_CurrentTable := [], mp_Phase := []\<rparr>"

definition migrate_via_staging :: "dbms_engine \<Rightarrow> dbms_migration_model \<Rightarrow> run_ops \<times> run_error option" where
  "migrate_via_staging en m =
     (let start = [OpSetStatus StatusDumping, OpUpdate (\<lambda>p. p\<lparr>mp_Step := 1, mp_Steps := 2\<rparr>)]
      in case new_db_driver (loc_DBMSType (dmm_Source m)) of
           Some e \<Rightarrow> (start, Some (RunInvalid e))
         | None \<Rightarrow>
         (case en_staging_file en of
           Some e \<Rightarrow> (start, Some (RunStaging e))
         | None \<Rightarrow>
             (let (ds, derr) = en_dump en m
              in case derr of
                   Some e \<Rightarrow> (start @ map dump_op ds, Some (RunDump e))
                 | None \<Rightarrow>
                     (let (rs, rerr) = en_restore en m;
                          ops = start @ map dump_op ds
                                @ [OpSetStatus StatusRestoring, OpUpdate (start_restore (en_dump_size en))] @ map restore_op rs
                      in case rerr of
                           Some e \<Rightarrow> (ops, Some (RunRestore e))
                         | None \<Rightarrow> (ops @ [OpUpdate (\<lambda>p. p\<lparr>mp_BytesTransferred := mp_BytesTotal p\<rparr>)], None)))))"

definition migrate_data :: "dbms_engine \<Rightarrow> dbms_migration_model \<Rightarrow> run_ops \<times> run_error option" where
  "migrate_data en m =
     (if loc_is_ssh_tunnel (dmm_Source m) \<and> loc_is_ssh_tunnel (dmm_Destination m)
      then migrate_via_pipe en m else migrate_via_staging en m)"

text \<open>
  \<open>rollbackDrop\<close>: what is sent to the target to empty it, \<open>None\<close> for MongoDB's own drop of
  every collection, and nothing when the target cannot be inspected or holds nothing.
\<close>

definition rollback_drop :: "dbms_engine \<Rightarrow> dbms_location \<Rightarrow> string option list" where
  "rollback_drop en loc =
     (if loc_DBMSType loc = MongoDB then [None]
      else (case en_inspect en (en_cancelled en) loc of
              Inl _ \<Rightarrow> []
            | Inr info \<Rightarrow>
                (let script = build_teardown_script (loc_DBMSType loc) info
                 in if script = [] then [] else [Some script])))"

definition run_checks :: "dbms_engine \<Rightarrow> dbms_migration_model \<Rightarrow> run_error option" where
  "run_checks en m =
     check_err (map_option RunInvalid (new_db_driver (loc_DBMSType (dmm_Destination m))))
     (check_err (case dmm_TargetGrant m of None \<Rightarrow> None | Some g \<Rightarrow> map_option RunPrepare (en_prepare en (dmm_Destination m) g))
     (check_err (map_option RunNotEmpty (en_check_empty en (dmm_Destination m)))
     (check_err (map_option RunInvalid (enforce_version (en_version en) m))
       (map_option RunCharset (en_charset en m)))))"

text \<open>The run from its checks on, and from the start; an absent scope means the whole database.\<close>

definition run_checked ::
  "dbms_engine \<Rightarrow> dbms_migration_model \<Rightarrow> run_ops \<times> string option list \<times> run_error option" where
  "run_checked en m =
     (case run_checks en m of
        Some e \<Rightarrow> ([OpSetStatus StatusChecking, OpFail (en_text en e)], [], Some e)
      | None \<Rightarrow>
          (let (ops, err) = migrate_data en m
           in case err of
                None \<Rightarrow> (OpSetStatus StatusChecking # ops @ [OpSetStatus StatusDone], [], None)
              | Some e \<Rightarrow>
                  (if dmm_RollbackOnFailure m then
                     (OpSetStatus StatusChecking # ops @
                        [OpSetStatus StatusRollingBack, OpSetStatus StatusRolledBack,
                         OpUpdate (\<lambda>p. p\<lparr>mp_ErrMessage := en_text en e\<rparr>), OpSetErr (en_text en e)],
                      rollback_drop en (dmm_Destination m), Some e)
                   else (OpSetStatus StatusChecking # ops @ [OpFail (en_text en e)], [], Some e))))"

definition handle_migration ::
  "dbms_engine \<Rightarrow> dbms_migration_model \<Rightarrow> run_ops \<times> string option list \<times> run_error option" where
  "handle_migration en m =
     (case dbms_validate (en_roots en) (en_json en) m of
        Some e \<Rightarrow> ([OpFail (en_text en (RunInvalid e))], [], Some (RunInvalid e))
      | None \<Rightarrow> run_checked en (if dmm_Scope m = [] then m\<lparr>dmm_Scope := ScopeFull\<rparr> else m))"

definition migrate_async :: "dbms_engine \<Rightarrow> int \<Rightarrow> dbms_migration_model \<Rightarrow> migration_progress handle" where
  "migrate_async en now m =
     handle_run dbms_progress (fst (handle_migration en m) @ [OpFinish]) (new_handle dbms_progress zero_progress now)"

section \<open>The state machine of a run\<close>

text \<open>
  The transitions the comment on \<open>run\<close> lists, for the two ways a migration can go: \<open>piped\<close> when both
  ends are reached over ssh. A piped migration dumps and restores in one step and goes from
  \<open>dumping\<close> to \<open>done\<close>; only a staged one passes \<open>restoring\<close>.
\<close>

inductive dbms_next :: "bool \<Rightarrow> string \<Rightarrow> string \<Rightarrow> bool" for piped where
  pending_checking: "dbms_next piped StatusPending StatusChecking"
| pending_failed: "dbms_next piped StatusPending StatusFailed"
| checking_dumping: "dbms_next piped StatusChecking StatusDumping"
| dumping_restoring: "\<not> piped \<Longrightarrow> dbms_next piped StatusDumping StatusRestoring"
| restoring_done: "dbms_next piped StatusRestoring StatusDone"
| dumping_done: "piped \<Longrightarrow> dbms_next piped StatusDumping StatusDone"
| working_failed: "s \<in> {StatusChecking, StatusDumping, StatusRestoring} \<Longrightarrow> dbms_next piped s StatusFailed"
| working_rolling: "s \<in> {StatusChecking, StatusDumping, StatusRestoring} \<Longrightarrow> dbms_next piped s StatusRollingBack"
| rolling_rolled: "dbms_next piped StatusRollingBack StatusRolledBack"

inductive_cases dbms_next_done: "dbms_next piped StatusDone s"
inductive_cases dbms_next_failed: "dbms_next piped StatusFailed s"
inductive_cases dbms_next_rolled: "dbms_next piped StatusRolledBack s"

lemma terminal_statuses:
  "\<not> dbms_next piped StatusDone s" "\<not> dbms_next piped StatusFailed s" "\<not> dbms_next piped StatusRolledBack s"
  by (auto elim: dbms_next_done dbms_next_failed dbms_next_rolled)

definition run_is_piped :: "dbms_migration_model \<Rightarrow> bool" where
  "run_is_piped m \<longleftrightarrow> loc_is_ssh_tunnel (dmm_Source m) \<and> loc_is_ssh_tunnel (dmm_Destination m)"

text \<open>The model a run works on (an absent scope is the whole database), and whether it got as far as the transfer.\<close>

definition scoped :: "dbms_migration_model \<Rightarrow> dbms_migration_model" where
  "scoped m = (if dmm_Scope m = [] then m\<lparr>dmm_Scope := ScopeFull\<rparr> else m)"

definition transfer_began :: "dbms_engine \<Rightarrow> dbms_migration_model \<Rightarrow> bool" where
  "transfer_began en m \<longleftrightarrow> dbms_validate (en_roots en) (en_json en) m = None \<and> run_checks en (scoped m) = None"

lemma scoped_simps [simp]:
  "dmm_RollbackOnFailure (scoped m) = dmm_RollbackOnFailure m" "dmm_Destination (scoped m) = dmm_Destination m"
  "dmm_Source (scoped m) = dmm_Source m" "run_is_piped (scoped m) = run_is_piped m"
  by (simp_all add: scoped_def run_is_piped_def)

lemma step_writes [simp]:
  "status_writes (map dump_op ds) = []" "error_writes (map dump_op ds) = []"
  "status_writes (map restore_op rs) = []" "error_writes (map restore_op rs) = []"
  "status_writes (map (OpUpdate \<circ> pipe_update) us) = []" "error_writes (map (OpUpdate \<circ> pipe_update) us) = []"
proof -
  show "status_writes (map dump_op ds) = []" "error_writes (map dump_op ds) = []"
    by (induction ds) (auto simp: dump_op_def split: sum.split)
  show "status_writes (map restore_op rs) = []" "error_writes (map restore_op rs) = []"
    by (induction rs) (auto simp: restore_op_def split: sum.split)
  show "status_writes (map (OpUpdate \<circ> pipe_update) us) = []" "error_writes (map (OpUpdate \<circ> pipe_update) us) = []"
    by (induction us) auto
qed

text \<open>The statuses a transfer writes, and the one a successful transfer leaves.\<close>

lemma migrate_data_writes:
  assumes "migrate_data en m = (ops, err)"
  shows "status_writes ops \<in> (if run_is_piped m then {[], [StatusDumping]} else {[StatusDumping], [StatusDumping, StatusRestoring]})"
    and "err = None \<Longrightarrow> status_writes ops = (if run_is_piped m then [StatusDumping] else [StatusDumping, StatusRestoring])"
    and "error_writes ops = []"
  using assms
  by (auto simp: run_is_piped_def migrate_data_def migrate_via_pipe_def migrate_via_staging_def Let_def split: if_splits option.splits prod.splits)

lemma updates_keep_status [simp]:
  "mp_Status (count_bytes n p) = mp_Status p" "mp_Status (table_notify t p) = mp_Status p"
  "mp_Status (pipe_update u p) = mp_Status p" "mp_Status (dump_update u p) = mp_Status p"
  "mp_Status (restore_update u p) = mp_Status p" "mp_Status (start_restore n p) = mp_Status p"
  by (simp_all add: count_bytes_def table_notify_def pipe_update_def dump_update_def restore_update_def start_restore_def Let_def)

lemma keeps_status_simps [simp]:
  "dbms.keeps_status (OpSetStatus s)" "dbms.keeps_status (OpFail e)" "dbms.keeps_status (OpSetErr e)"
  "dbms.keeps_status OpFinish"
  "dbms.keeps_status (OpUpdate f) \<longleftrightarrow> (\<forall>p. mp_Status (f p) = mp_Status p)"
  unfolding dbms.keeps_status_def by (simp_all add: dbms_progress_def)

lemma step_ops_keep [simp]:
  "list_all dbms.keeps_status (map dump_op ds)" "list_all dbms.keeps_status (map restore_op rs)"
  "list_all dbms.keeps_status (map (OpUpdate \<circ> pipe_update) us)"
  by (auto simp: list_all_iff dump_op_def restore_op_def split: sum.split)

lemma migrate_data_keeps: "migrate_data en m = (ops, err) \<Longrightarrow> list_all dbms.keeps_status ops"
  by (auto simp: migrate_data_def migrate_via_pipe_def migrate_via_staging_def Let_def split: if_splits option.splits prod.splits)

lemma handle_migration_keeps: "list_all dbms.keeps_status (fst (handle_migration en m))"
proof -
  have "list_all dbms.keeps_status (fst (run_checked en m'))" for m'
    by (auto simp: run_checked_def Let_def dest: migrate_data_keeps split: option.splits prod.splits)
  then show ?thesis by (simp add: handle_migration_def split: option.split)
qed

definition good_run :: "dbms_engine \<Rightarrow> dbms_migration_model \<Rightarrow> bool \<Rightarrow> run_ops \<times> string option list \<times> run_error option \<Rightarrow> bool" where
  "good_run en m began r \<longleftrightarrow>
     (case r of (ops, sent, err) \<Rightarrow>
        successively (dbms_next (run_is_piped m)) (StatusPending # status_writes ops)
        \<and> error_writes ops = (case err of None \<Rightarrow> [] | Some e \<Rightarrow> [en_text en e])
        \<and> (let s = last (StatusPending # status_writes ops)
           in s = (if err = None then StatusDone else if began \<and> dmm_RollbackOnFailure m then StatusRolledBack else StatusFailed)
              \<and> sent = (if s = StatusRolledBack then rollback_drop en (dmm_Destination m) else [])))"

text \<open>The three ways a run goes past validation and its checks.\<close>

lemma run_checked_good: "good_run en m (run_checks en m = None) (run_checked en m)"
proof -
  obtain ops err where d: "migrate_data en m = (ops, err)" by (meson surj_pair)
  note w = migrate_data_writes [OF d]
  show ?thesis
    using w(1,2)
    by (cases "run_checks en m"; cases err)
       (auto simp: run_checked_def good_run_def d w(3) dbms_next.intros split: if_splits)
qed

lemma handle_migration_good: "good_run en m (transfer_began en m) (handle_migration en m)"
proof (cases "dbms_validate (en_roots en) (en_json en) m")
  case None
  obtain ops sent err where r: "run_checked en (scoped m) = (ops, sent, err)" by (metis prod_cases3)
  have "handle_migration en m = (ops, sent, err)" using None r by (simp add: handle_migration_def scoped_def)
  then show ?thesis
    using run_checked_good [of en "scoped m"] None by (auto simp: transfer_began_def good_run_def r Let_def)
next
  case (Some e)
  then show ?thesis by (simp add: handle_migration_def transfer_began_def good_run_def dbms_next.intros)
qed

text \<open>
  C4: Every run of the database transfer is a path of the state machine, from \<open>pending\<close> to a state
  nothing leaves. Between two servers reached over ssh the data is piped and the run goes from \<open>dumping\<close> to
  \<open>done\<close>, otherwise it passes \<open>restoring\<close>. \<open>Wait\<close> returns once the run finished, with the run's own
  error. The last status is \<open>done\<close> exactly when there is none, \<open>rolled-back\<close> exactly when the
  transfer itself failed in a migration that asks for a rollback, and \<open>failed\<close> otherwise; what empties
  the target is sent exactly when the run is rolled back.
\<close>

theorem run_follows_state_machine:
  assumes "handle_migration en m = (ops, sent, err)"
  shows "successively (dbms_next (run_is_piped m)) (StatusPending # status_writes ops)
    \<and> handle_wait (migrate_async en now m) = Some (map_option (en_text en) err)
    \<and> (let s = handle_status dbms_progress (migrate_async en now m)
       in s = (if err = None then StatusDone
               else if transfer_began en m \<and> dmm_RollbackOnFailure m then StatusRolledBack else StatusFailed)
          \<and> (\<forall>t. \<not> dbms_next (run_is_piped m) s t)
          \<and> sent = (if s = StatusRolledBack then rollback_drop en (dmm_Destination m) else []))"
proof -
  note path = handle_migration_good [of en m, unfolded assms good_run_def prod.case]
  have fin: "handle_wait (migrate_async en now m) = Some (map_option (en_text en) err)"
    using path assms by (cases err) (auto simp: handle_wait_def migrate_async_def handle_run_err handle_run_done new_handle_def)
  have "handle_status dbms_progress (migrate_async en now m) = last (StatusPending # status_writes ops)"
    using handle_migration_keeps [of en m] assms
    by (simp add: migrate_async_def dbms.status_last_write dbms.new_handle_status del: handle_run_simps)
  then show ?thesis using path fin terminal_statuses by (auto simp: Let_def)
qed

definition sample_engine :: "string option \<Rightarrow> bool \<Rightarrow> dbms_engine" where
  "sample_engine restore_err cancelled =
     \<lparr>en_roots = (\<lambda>_. None), en_json = (\<lambda>_. (True, True)), en_text = (\<lambda>_. ''failed''), en_prepare = (\<lambda>_ _. None),
      en_check_empty = (\<lambda>_. None), en_version = (\<lambda>_. Inl ''unreachable''), en_charset = (\<lambda>_. None), en_ssh = (\<lambda>_ _. Inr ''1''),
      en_pipe = (\<lambda>_. ([], restore_err)), en_staging_file = None, en_dump = (\<lambda>_. ([Inl 10], None)), en_dump_size = 10,
      en_restore = (\<lambda>_. ([], restore_err)), en_cancelled = cancelled,
      en_inspect = (\<lambda>cancelled loc. if cancelled then Inl ''context canceled'' else Inr zero_dbms_info)\<rparr>"

definition sample_run :: dbms_migration_model where
  "sample_run = (sample_migration sample_tunnel sample_tunnel)\<lparr>dmm_RollbackOnFailure := True\<rparr>"

lemma sample_run_valid: "dbms_validate roots json sample_run = None"
  by (simp add: dbms_validate_eval validate_concurrency_def sample_run_def sample_migration_def sample_tunnel_def)

lemma sample_run_result:
  "handle_migration (sample_engine (Some ''broken pipe'') cancelled) sample_run =
   ([OpSetStatus StatusChecking, OpSetStatus StatusDumping, OpSetStatus StatusRollingBack, OpSetStatus StatusRolledBack,
     OpUpdate (\<lambda>p. p\<lparr>mp_ErrMessage := ''failed''\<rparr>), OpSetErr ''failed''],
    rollback_drop (sample_engine (Some ''broken pipe'') cancelled) sample_tunnel, Some (RunPipe ''broken pipe''))"
proof -
  have "trim_space ''1'' = ''1''" using trim_space_nat_digits [of 1] by (simp add: digits_01)
  moreover have "dmm_Scope sample_run = []" by (simp add: sample_run_def sample_migration_def)
  then have "handle_migration (sample_engine (Some ''broken pipe'') cancelled) sample_run =
      run_checked (sample_engine (Some ''broken pipe'') cancelled) (sample_run\<lparr>dmm_Scope := ScopeFull\<rparr>)"
    by (simp add: handle_migration_def sample_run_valid)
  ultimately show ?thesis
    by (simp add: run_checked_def run_checks_def sample_engine_def sample_run_def
        sample_migration_def sample_tunnel_def new_db_driver_def enforce_version_def dbms_check_version_def migrate_data_def
        loc_is_ssh_tunnel_def migrate_via_pipe_def require_target_database_def)
qed

theorem run_follows_state_machine_witness:
  "successively (dbms_next True) [StatusPending, StatusChecking, StatusDumping, StatusRollingBack, StatusRolledBack]
   \<and> handle_wait (migrate_async (sample_engine (Some ''broken pipe'') False) 0 sample_run) = Some (Some ''failed'')"
proof -
  have "run_is_piped sample_run"
    by (simp add: run_is_piped_def sample_run_def sample_migration_def sample_tunnel_def loc_is_ssh_tunnel_def)
  then show ?thesis
    using run_follows_state_machine [OF sample_run_result [of False], of 0]
    by (simp add: sample_engine_def)
qed

text \<open>
  A rollback under a cancelled context sends nothing: when the context is cancelled by the
  time the rollback runs and an inspection under a cancelled context fails, a failed run of
  a relational engine leaves the target as the transfer left it, while its status still
  reads \<open>rolled-back\<close>.
\<close>

lemma cancelled_rollback_sends_nothing:
  assumes "handle_migration en m = (ops, sent, Some e)" and "dmm_RollbackOnFailure m"
    and "en_cancelled en" and "\<And>loc. \<exists>err. en_inspect en True loc = Inl err"
    and "loc_DBMSType (dmm_Destination m) \<noteq> MongoDB"
    and "OpSetStatus StatusRollingBack \<in> set ops"
  shows "sent = [] \<and> handle_status dbms_progress (migrate_async en now m) = StatusRolledBack"
proof -
  have none: "rollback_drop en loc = []" if "loc_DBMSType loc \<noteq> MongoDB" for loc
    using assms(3) that assms(4) [of loc] by (auto simp: rollback_drop_def)
  have "StatusRollingBack \<in> set (status_writes ops)"
    using assms(6) by (induction ops rule: status_writes.induct) auto
  then obtain m' where run: "run_checked en m' = (ops, sent, Some e)" and dst: "dmm_Destination m' = dmm_Destination m"
    using assms(1) by (auto simp: handle_migration_def split: option.splits if_splits)
  obtain ops' err where d: "migrate_data en m' = (ops', err)" by (meson surj_pair)
  have "sent = [] \<and> last (status_writes ops) = StatusRolledBack"
    using run none [of "dmm_Destination m'"] assms(5) dst migrate_data_writes(1) [OF d] \<open>StatusRollingBack \<in> set (status_writes ops)\<close>
    by (auto simp: run_checked_def d split: option.splits if_splits)
  moreover have "status_writes ops \<noteq> []" using \<open>StatusRollingBack \<in> set (status_writes ops)\<close> by auto
  moreover have "handle_status dbms_progress (migrate_async en now m) = last (StatusPending # status_writes ops)"
    using handle_migration_keeps [of en m] assms(1)
    by (simp add: migrate_async_def dbms.status_last_write dbms.new_handle_status del: handle_run_simps)
  ultimately show ?thesis by simp
qed

lemma cancelled_rollback_sends_nothing_witness:
  "rollback_drop (sample_engine (Some ''broken pipe'') True) sample_tunnel = []
   \<and> handle_status dbms_progress (migrate_async (sample_engine (Some ''broken pipe'') True) 0 sample_run) = StatusRolledBack"
  using cancelled_rollback_sends_nothing [OF sample_run_result [of True], of 0]
  by (simp add: sample_run_def sample_migration_def sample_tunnel_def sample_engine_def)

section \<open>Bounds of a restore\<close>

text \<open>
  C14: A restore of a validated migration always runs on at least one connection and never on
  more than the migration asked for, sixteen, or half of what the target has free (one when
  it has none), and the note is empty exactly when it runs at what was asked.
\<close>

theorem restore_connections_bounds:
  assumes "validate_concurrency n = None"
    and "restore_connections (with_concurrency None n) free = (k, note)"
  shows "1 \<le> k \<and> k \<le> (if n = 0 then DefaultConcurrency else n) \<and> k \<le> MaxRestoreConnections
    \<and> (free \<ge> 0 \<longrightarrow> k \<le> max 1 (free div 2))
    \<and> (note = NotCapped \<longleftrightarrow> k = (if n = 0 then DefaultConcurrency else n))"
  using assms
  by (auto simp: validate_concurrency_def restore_connections_def with_concurrency_def concurrency_from_def Let_def
      split: if_splits)

theorem restore_connections_bounds_witness: "restore_connections (with_concurrency None 20) 6 = (3, CappedByFree 20 6) \<and> (3 :: int) \<le> 16"
proof -
  have "restore_connections (with_concurrency None 20) 6 = (3, CappedByFree 20 6)"
    by (simp add: restore_connections_def with_concurrency_def concurrency_from_def Let_def)
  then show ?thesis
    using restore_connections_bounds [of 20 6 3 "CappedByFree 20 6"] by (auto simp: validate_concurrency_def)
qed

end
