(* ===== verification/DbmsMigrate.thy ===== *)
theory DbmsMigrate
  imports DbmsHandle
begin

text \<open>
  The migration of the databases of one plan entry: \<open>MigrateDBMS\<close>, \<open>migrateOneDatabase\<close> and
  \<open>dropIfOwned\<close> of \<open>pkg/core/migration/dbms.go\<close>, over the event record of \<open>progress.go\<close>.

  An item's run is the list of what it does to the outside: the statements that reach the
  target, the transfer it starts and the events it reports. The transfer itself is the
  library's asynchronous handle: what a run of it returns (the snapshots the ticker reads
  and how it ends) is the parameter \<open>transfer\<close>. Durations are wall-clock readings and left out.
\<close>

section \<open>Events\<close>

datatype event_kind = EventDone | EventTick

datatype item_error =
    ItemResolveSrc resolve_error
  | ItemResolveDst resolve_error
  | ItemInspect dbms_error
  | ItemTarget target_error
  | ItemFilter dbms_filter_error
  | ItemInvalid dbms_error
  | ItemTransfer string
  | ItemCancelled

record 'e progress_event =
  pe_Kind :: event_kind
  pe_ItemPath :: string
  pe_Current :: string
  pe_Step :: int
  pe_Steps :: int
  pe_StepName :: string
  pe_StepDetail :: string
  pe_Rows :: int
  pe_Units :: int
  pe_UnitsTotal :: int
  pe_BytesTotal :: int
  pe_Status :: string
  pe_SizeBytes :: int
  pe_TargetCreated :: bool
  pe_Concurrency :: int
  pe_ConcurrencyNote :: string
  pe_Err :: "'e option"

definition item_event :: "string \<Rightarrow> 'e progress_event" where
  "item_event path =
     \<lparr>pe_Kind = EventDone, pe_ItemPath = path, pe_Current = [], pe_Step = 0, pe_Steps = 0, pe_StepName = [],
      pe_StepDetail = [], pe_Rows = 0, pe_Units = 0, pe_UnitsTotal = 0, pe_BytesTotal = 0, pe_Status = [],
      pe_SizeBytes = 0, pe_TargetCreated = False, pe_Concurrency = 0, pe_ConcurrencyNote = [], pe_Err = None\<rparr>"

text \<open>What watching one run of the library's handle yields: the snapshots read, how it ended, the last one.\<close>

datatype transfer_end = TransferCancelled | TransferDone "string option"

record transfer_run =
  tr_Ticks :: "migration_progress list"
  tr_End :: transfer_end
  tr_Final :: migration_progress

record run_env =
  re_services :: services
  re_answers :: ddl_answers
  re_text :: "ddl_error \<Rightarrow> string"
  re_onFailure :: string
  re_stagingDir :: string
  re_concurrency :: int

datatype item_step =
    Statement ddl_call "string option"
  | Transfer dbms_migration_model
  | Report "item_error progress_event"

section \<open>One database\<close>

abbreviation DBMSOnFailureKeep :: string where "DBMSOnFailureKeep \<equiv> ''keep''"

definition tick_event :: "string \<Rightarrow> migration_progress \<Rightarrow> item_error progress_event" where
  "tick_event path p =
     (item_event path)\<lparr>pe_Kind := EventTick, pe_Current := mp_CurrentTable p, pe_SizeBytes := mp_BytesTransferred p,
       pe_Step := mp_Step p, pe_Steps := mp_Steps p, pe_Rows := mp_RowsDone p, pe_Units := mp_TablesFinished p,
       pe_UnitsTotal := mp_TablesTotal p, pe_BytesTotal := mp_BytesTotal p,
       pe_StepName := (if mp_Steps p > 0 then mp_Status p else []),
       pe_StepDetail := (if mp_Steps p > 0 then mp_Phase p else [])\<rparr>"

definition statements :: "ddl_trace \<Rightarrow> item_step list" where
  "statements tr = map (\<lambda>(c, a). Statement c a) tr"

definition fail_item :: "string \<Rightarrow> item_error \<Rightarrow> item_step list \<times> item_error option" where
  "fail_item path e =
     ([Report ((item_event path)\<lparr>pe_Status := ''failed'', pe_Err := Some e\<rparr>)], Some e)"

definition after_steps :: "item_step list \<Rightarrow> item_step list \<times> 'a \<Rightarrow> item_step list \<times> 'a" where
  "after_steps xs r = (case r of (ys, x) \<Rightarrow> (xs @ ys, x))"

definition drop_if_owned :: "run_env \<Rightarrow> connection_ref \<Rightarrow> dbms_location \<Rightarrow> bool \<Rightarrow> item_step list" where
  "drop_if_owned env dst loc created =
     (if created then statements (fst (drop_target_database (re_services env) (re_answers env) dst loc)) else [])"

definition item_path :: "string \<Rightarrow> string \<Rightarrow> string" where
  "item_path dbType name = dbType @ ''/'' @ name"

text \<open>The loop that watches a running transfer, from its start to the item's outcome.\<close>

definition watch_transfer ::
  "run_env \<Rightarrow> connection_ref \<Rightarrow> string \<Rightarrow> dbms_migration_model \<Rightarrow> bool \<Rightarrow> bool \<Rightarrow> transfer_run
     \<Rightarrow> item_step list \<times> item_error option" where
  "watch_transfer env dst path dmm created keep run =
     after_steps (Transfer dmm # map (Report \<circ> tick_event path) (tr_Ticks run))
       (case tr_End run of
          TransferCancelled \<Rightarrow>
            (drop_if_owned env dst (dmm_Destination dmm) created @
             [Report ((item_event path)\<lparr>pe_Status := ''failed'', pe_TargetCreated := created, pe_Err := Some ItemCancelled\<rparr>)],
             Some ItemCancelled)
        | TransferDone err \<Rightarrow>
            ((if err \<noteq> None \<and> \<not> keep then drop_if_owned env dst (dmm_Destination dmm) created else []) @
             [Report ((item_event path)\<lparr>pe_Status := (if err = None then ''success'' else ''failed''),
                pe_TargetCreated := created, pe_Err := map_option ItemTransfer err,
                pe_SizeBytes := mp_BytesTransferred (tr_Final run), pe_Concurrency := mp_Concurrency (tr_Final run),
                pe_ConcurrencyNote := mp_ConcurrencyNote (tr_Final run)\<rparr>)],
             map_option ItemTransfer err))"

definition item_model ::
  "run_env \<Rightarrow> db_migration_info \<Rightarrow> dbms_rules option \<Rightarrow> dbms_location \<Rightarrow> dbms_location \<Rightarrow> bool \<Rightarrow> dbms_migration_model" where
  "item_model env d flt srcLoc dstLoc created =
     (let (ss, ds) = split_pg_schemas (dmi_PgSchemas d);
          src = srcLoc\<lparr>loc_PgSchema := ss\<rparr>
      in \<lparr>dmm_Source = (if flt \<noteq> None then dbms_location_with_filter src flt else src),
          dmm_Destination = dstLoc\<lparr>loc_PgSchema := ds\<rparr>, dmm_Scope = ScopeFull,
          dmm_RollbackOnFailure = (\<not> created \<and> re_onFailure env \<noteq> DBMSOnFailureKeep), dmm_TargetGrant = None,
          dmm_SkipCharsetCheck = False, dmm_SkipVersionCheck = False, dmm_StagingDir = re_stagingDir env,
          dmm_Concurrency = re_concurrency env\<rparr>)"

text \<open>The rest of an item once its target database is there, and the whole item.\<close>

definition transfer_item ::
  "run_env \<Rightarrow> (dbms_migration_model \<Rightarrow> transfer_run) \<Rightarrow> connection_ref \<Rightarrow> string \<Rightarrow> db_migration_info
     \<Rightarrow> dbms_location \<Rightarrow> dbms_location \<Rightarrow> bool \<Rightarrow> item_step list \<times> item_error option" where
  "transfer_item env transfer dst path d srcLoc dstLoc created =
     (case to_dbms_filter (dmi_Rules d) of
        Inl e \<Rightarrow> fail_item path (ItemFilter e)
      | Inr flt \<Rightarrow>
          (let dmm = item_model env d flt srcLoc dstLoc created; keep = (re_onFailure env = DBMSOnFailureKeep)
           in case dbms_validate (sv_roots (re_services env)) (sv_json (re_services env)) dmm of
                Some e \<Rightarrow>
                  after_steps (if keep then [] else drop_if_owned env dst (dmm_Destination dmm) created)
                    (fail_item path (ItemInvalid e))
              | None \<Rightarrow> watch_transfer env dst path dmm created keep (transfer dmm)))"

definition migrate_one_database ::
  "run_env \<Rightarrow> (dbms_migration_model \<Rightarrow> transfer_run) \<Rightarrow> migration_db_model \<Rightarrow> db_migration_info
     \<Rightarrow> item_step list \<times> item_error option" where
  "migrate_one_database env transfer m d =
     (let sv = re_services env; path = item_path (mdb_DBType m) (dmi_SrcName d); dst = mdb_DstConnection m
      in case resolve_dbms_location sv (mdb_SrcConnection m) (dmi_SrcName d) (mdb_DBType m) of
           Inl e \<Rightarrow> fail_item path (ItemResolveSrc e)
         | Inr srcLoc \<Rightarrow>
         (case resolve_dbms_location sv dst (if dmi_DstName d = [] then dmi_SrcName d else dmi_DstName d) (mdb_DBType m) of
           Inl e \<Rightarrow> fail_item path (ItemResolveDst e)
         | Inr dstLoc \<Rightarrow>
         (case datamig_inspect sv srcLoc of
           Inl e \<Rightarrow> fail_item path (ItemInspect e)
         | Inr info \<Rightarrow>
         (case ensure_target_database sv (re_answers env) (re_text env) dst dstLoc (Some info) of
           (tr, Inl e) \<Rightarrow> after_steps (statements tr) (fail_item path (ItemTarget e))
         | (tr, Inr created) \<Rightarrow>
             after_steps (statements tr) (transfer_item env transfer dst path d srcLoc dstLoc created)))))"

section \<open>All databases of an entry\<close>

text \<open>
  Whether the context is done is read before each item and after each failed one; what it
  answers at the \<open>i\<close>-th item is \<open>ie_before\<close> and \<open>ie_after\<close>. \<open>sort.Slice\<close> promises only an
  order by key, so the sort is a parameter.
\<close>

record item_env =
  ie_before :: bool
  ie_transfer :: "dbms_migration_model \<Rightarrow> transfer_run"
  ie_after :: bool

fun migrate_items ::
  "run_env \<Rightarrow> (nat \<Rightarrow> item_env) \<Rightarrow> migration_db_model \<Rightarrow> nat \<Rightarrow> db_migration_info list \<Rightarrow> item_step list \<times> item_error option" where
  "migrate_items env ctx m i [] = ([], None)"
| "migrate_items env ctx m i (d # ds) =
     (if ie_before (ctx i) then
        ([Report ((item_event (item_path (mdb_DBType m) (dmi_SrcName d)))\<lparr>pe_Status := ''cancelled'', pe_Err := Some ItemCancelled\<rparr>)],
         Some ItemCancelled)
      else
        (case migrate_one_database env (ie_transfer (ctx i)) m d of
           (steps, err) \<Rightarrow>
             (if err \<noteq> None \<and> (err = Some ItemCancelled \<or> ie_after (ctx i)) then (steps, Some ItemCancelled)
              else after_steps steps (migrate_items env ctx m (Suc i) ds))))"

definition migrate_dbms ::
  "(db_migration_info list \<Rightarrow> db_migration_info list) \<Rightarrow> run_env \<Rightarrow> (nat \<Rightarrow> item_env) \<Rightarrow> migration_db_model
     \<Rightarrow> item_step list \<times> item_error option" where
  "migrate_dbms srt env ctx m = migrate_items env ctx m 0 (srt (mdb_Databases m))"

section \<open>What an item reports\<close>

text \<open>The outcome events of a run, and the item's own outcome: exactly one, carrying its error.\<close>

fun outcomes :: "item_step list \<Rightarrow> item_error progress_event list" where
  "outcomes [] = []"
| "outcomes (Report ev # xs) = (if pe_Kind ev = EventDone then ev # outcomes xs else outcomes xs)"
| "outcomes (x # xs) = outcomes xs"

lemma outcomes_append [simp]: "outcomes (xs @ ys) = outcomes xs @ outcomes ys"
  by (induction xs rule: outcomes.induct) auto

lemma outcomes_statements [simp]: "outcomes (statements tr) = []"
  by (induction tr) (auto simp: statements_def)

lemma outcomes_ticks [simp]: "outcomes (map (Report \<circ> tick_event path) ps) = []"
  by (induction ps) (auto simp: tick_event_def)

lemma outcomes_drop_if_owned [simp]: "outcomes (drop_if_owned env dst loc c) = []"
  by (simp add: drop_if_owned_def)

lemma item_event_simps [simp]:
  "pe_Kind (item_event p) = EventDone" "pe_ItemPath (item_event p) = p" "pe_Err (item_event p) = None"
  by (simp_all add: item_event_def)

definition reports_once :: "string \<Rightarrow> item_step list \<times> item_error option \<Rightarrow> bool" where
  "reports_once path r \<longleftrightarrow>
     (\<exists>ev. outcomes (fst r) = [ev] \<and> pe_ItemPath ev = path \<and> pe_Err ev = snd r
           \<and> (pe_Status ev = ''success'' \<longleftrightarrow> snd r = None))"

lemma reports_once_fail [simp]: "reports_once path (fail_item path e)"
  by (simp add: reports_once_def fail_item_def)

lemma reports_once_after [simp]: "outcomes xs = [] \<Longrightarrow> reports_once path (after_steps xs r) = reports_once path r"
  by (cases r) (simp add: reports_once_def after_steps_def)

lemma reports_once_watch [simp]: "reports_once path (watch_transfer env dst path dmm created keep run)"
  by (cases "tr_End run") (auto simp: watch_transfer_def reports_once_def after_steps_def)

lemma transfer_item_reports_once [simp]: "reports_once path (transfer_item env transfer dst path d srcLoc dstLoc created)"
  by (simp add: transfer_item_def Let_def split: sum.split option.split)

lemma migrate_one_reports_once:
  "reports_once (item_path (mdb_DBType m) (dmi_SrcName d)) (migrate_one_database env transfer m d)"
  by (cases "resolve_dbms_location (re_services env) (mdb_SrcConnection m) (dmi_SrcName d) (mdb_DBType m)";
      cases "resolve_dbms_location (re_services env) (mdb_DstConnection m)
               (if dmi_DstName d = [] then dmi_SrcName d else dmi_DstName d) (mdb_DBType m)")
     (auto simp: migrate_one_database_def Let_def simp del: if_split split: sum.splits prod.splits)

lemma migrate_items_outcomes:
  assumes "migrate_items env ctx m i ds = (steps, err)"
  shows "\<exists>k \<le> length ds.
      map pe_ItemPath (outcomes steps) = map (\<lambda>d. item_path (mdb_DBType m) (dmi_SrcName d)) (take k ds)
    \<and> (err = None \<longrightarrow> k = length ds) \<and> (err \<noteq> None \<longrightarrow> err = Some ItemCancelled \<and> 0 < k)"
  using assms
proof (induction ds arbitrary: i steps err)
  case Nil
  then show ?case by simp
next
  case (Cons d ds)
  obtain one e where one: "migrate_one_database env (ie_transfer (ctx i)) m d = (one, e)" by (meson surj_pair)
  then have o1: "map pe_ItemPath (outcomes one) = [item_path (mdb_DBType m) (dmi_SrcName d)]"
    using migrate_one_reports_once [of m d env "ie_transfer (ctx i)"] by (auto simp: reports_once_def)
  consider "ie_before (ctx i)" | "\<not> ie_before (ctx i)" "e \<noteq> None \<and> (e = Some ItemCancelled \<or> ie_after (ctx i))"
    | "\<not> ie_before (ctx i)" "\<not> (e \<noteq> None \<and> (e = Some ItemCancelled \<or> ie_after (ctx i)))" by blast
  then show ?case
  proof cases
    case 1
    then have "map pe_ItemPath (outcomes steps) = [item_path (mdb_DBType m) (dmi_SrcName d)]" "err = Some ItemCancelled"
      using Cons.prems by auto
    then show ?thesis by (intro exI [of _ 1]) simp
  next
    case 2
    then have "steps = one" "err = Some ItemCancelled" using Cons.prems one by auto
    then show ?thesis using o1 by (intro exI [of _ 1]) simp
  next
    case 3
    obtain rest e2 where rest: "migrate_items env ctx m (Suc i) ds = (rest, e2)" by (meson surj_pair)
    from Cons.IH [OF rest] obtain k where k: "k \<le> length ds"
      "map pe_ItemPath (outcomes rest) = map (\<lambda>d. item_path (mdb_DBType m) (dmi_SrcName d)) (take k ds)"
      "e2 = None \<longrightarrow> k = length ds" "e2 \<noteq> None \<longrightarrow> e2 = Some ItemCancelled \<and> 0 < k" by blast
    have "migrate_items env ctx m i (d # ds) = (one @ rest, e2)"
      using 3 one rest by (auto simp: after_steps_def)
    then have "steps = one @ rest" "err = e2" using Cons.prems by simp_all
    then show ?thesis using o1 k by (intro exI [of _ "Suc k"]) simp
  qed
qed

text \<open>
  C11: Migrating the databases of an entry accounts for every one of them: unless the run is
  cancelled it reports exactly one outcome per database, in the order of the sort, a
  failed database never stopping the rest; a cancelled run has reported an initial part
  of them and returns the cancellation.
\<close>

theorem every_database_reported_once:
  assumes "migrate_dbms srt env ctx m = (steps, err)"
  shows "\<exists>k \<le> length (srt (mdb_Databases m)).
      map pe_ItemPath (outcomes steps) = map (\<lambda>d. item_path (mdb_DBType m) (dmi_SrcName d)) (take k (srt (mdb_Databases m)))
    \<and> (err = None \<longrightarrow> k = length (srt (mdb_Databases m)))
    \<and> (err \<noteq> None \<longrightarrow> err = Some ItemCancelled \<and> 0 < k)"
  by (rule migrate_items_outcomes [OF assms [unfolded migrate_dbms_def]])

section \<open>Who cleans up\<close>

fun is_drop :: "ddl_call \<Rightarrow> bool" where
  "is_drop (DriverDrop _ _) = True"
| "is_drop (BeetleDrop _ _) = True"
| "is_drop _ = False"

definition drops :: "item_step list \<Rightarrow> bool" where
  "drops steps \<longleftrightarrow> (\<exists>c a. Statement c a \<in> set steps \<and> is_drop c)"

lemma drops_simps [simp]:
  "\<not> drops []"
  "drops (Statement c a # xs) \<longleftrightarrow> is_drop c \<or> drops xs"
  "drops (Transfer dmm # xs) \<longleftrightarrow> drops xs"
  "drops (Report ev # xs) \<longleftrightarrow> drops xs"
  "drops (xs @ ys) \<longleftrightarrow> drops xs \<or> drops ys"
  by (auto simp: drops_def)

lemma drops_ticks [simp]: "\<not> drops (map (Report \<circ> tick_event path) ps)"
  by (induction ps) auto

lemma drops_statements: "drops (statements tr) \<longleftrightarrow> (\<exists>(c, a)\<in>set tr. is_drop c)"
  by (auto simp: drops_def statements_def)

lemma transfer_in_statements [simp]: "Transfer dmm \<notin> set (statements tr)"
  by (auto simp: statements_def)

lemma transfer_in_drop [simp]: "Transfer dmm \<notin> set (drop_if_owned env dst loc c)"
  by (simp add: drop_if_owned_def)

lemma drop_if_owned_owned [simp]: "drop_if_owned env dst loc False = []"
  by (simp add: drop_if_owned_def)

lemma create_database_calls:
  "(c, a) \<in> set (fst (datamig_create_database sv ans loc opt)) \<Longrightarrow> \<not> is_drop c"
  by (auto simp: datamig_create_database_def send_ddl_def split: option.splits)

lemma create_with_retry_calls:
  "create_with_retry sv ans txt loc opt = (tr, err) \<Longrightarrow> (c, a) \<in> set tr \<Longrightarrow> \<not> is_drop c"
  by (auto simp: create_with_retry_def Let_def dest: create_database_calls split: prod.splits option.splits if_splits)
     (metis create_database_calls fst_conv)+

lemma ensure_calls:
  assumes "(c, a) \<in> set (fst (ensure_target_database sv ans txt dst loc info))"
  shows "\<not> is_drop c"
  using assms
  by (auto simp: ensure_target_database_def send_ddl_def Let_def dest: create_with_retry_calls
      split: sum.splits bool.splits if_splits connection_source.splits option.splits prod.splits)

lemma ensure_flag:
  assumes "ensure_target_database sv ans txt dst loc info = (tr, Inr created)"
  shows "target_database_exists sv dst loc = Inr (\<not> created)"
  using assms
  by (auto simp: ensure_target_database_def Let_def
      split: sum.splits bool.splits if_splits connection_source.splits option.splits prod.splits)

lemma ensure_no_drops: "ensure_target_database sv ans txt dst loc info = (tr, r) \<Longrightarrow> \<not> drops (statements tr)"
  by (auto simp: drops_statements) (metis ensure_calls fst_conv)

lemma item_model_rollback [simp]:
  "dmm_RollbackOnFailure (item_model env d flt s t created) \<longleftrightarrow> \<not> created \<and> re_onFailure env \<noteq> DBMSOnFailureKeep"
  by (simp add: item_model_def Let_def split: prod.split)

lemma transfer_item_cleanup:
  assumes "transfer_item env transfer dst path d srcLoc dstLoc created = (steps, err)"
  shows "drops steps \<Longrightarrow> created"
    and "drops steps \<Longrightarrow> err \<noteq> None"
    and "drops steps \<Longrightarrow> re_onFailure env = DBMSOnFailureKeep \<Longrightarrow> err = Some ItemCancelled"
    and "Transfer dmm \<in> set steps \<Longrightarrow> dmm_RollbackOnFailure dmm \<longleftrightarrow> \<not> created \<and> re_onFailure env \<noteq> DBMSOnFailureKeep"
  using assms
  by (cases created; auto simp: transfer_item_def watch_transfer_def fail_item_def after_steps_def Let_def
      split: sum.splits option.splits transfer_end.splits if_splits)+

text \<open>An item that got past resolution, inspection and preparation, and what it went on to do.\<close>

lemma migrate_one_cases:
  assumes "migrate_one_database env transfer m d = (steps, err)"
  obtains e where "steps = [Report ((item_event (item_path (mdb_DBType m) (dmi_SrcName d)))\<lparr>pe_Status := ''failed'', pe_Err := Some e\<rparr>)]"
      "err = Some e" "\<And>f. e \<noteq> ItemFilter f" "\<And>f. e \<noteq> ItemInvalid f" "e \<noteq> ItemCancelled"
  | dstLoc info tr e where
      "resolve_dbms_location (re_services env) (mdb_DstConnection m) (if dmi_DstName d = [] then dmi_SrcName d else dmi_DstName d) (mdb_DBType m) = Inr dstLoc"
      "ensure_target_database (re_services env) (re_answers env) (re_text env) (mdb_DstConnection m) dstLoc (Some info) = (tr, Inl e)"
      "steps = statements tr @ [Report ((item_event (item_path (mdb_DBType m) (dmi_SrcName d)))\<lparr>pe_Status := ''failed'', pe_Err := Some (ItemTarget e)\<rparr>)]"
      "err = Some (ItemTarget e)"
  | srcLoc dstLoc info tr created rest where
      "resolve_dbms_location (re_services env) (mdb_DstConnection m) (if dmi_DstName d = [] then dmi_SrcName d else dmi_DstName d) (mdb_DBType m) = Inr dstLoc"
      "ensure_target_database (re_services env) (re_answers env) (re_text env) (mdb_DstConnection m) dstLoc (Some info) = (tr, Inr created)"
      "transfer_item env transfer (mdb_DstConnection m) (item_path (mdb_DBType m) (dmi_SrcName d)) d srcLoc dstLoc created = (rest, err)"
      "steps = statements tr @ rest"
  using assms
  by (auto simp: migrate_one_database_def Let_def after_steps_def fail_item_def simp del: if_split
      split: sum.splits prod.splits)

text \<open>
  C3: The two ways of cleaning up exclude each other and respect ownership: an item drops a
  database only after it failed, only one it found missing beforehand, and under \<open>keep\<close>
  only when it was cancelled; the library's rollback is asked for only for a database that
  was already there, never under \<open>keep\<close>, and an item asking for it drops nothing.
\<close>

theorem cleanup_paths_exclusive:
  assumes run: "migrate_one_database env transfer m d = (steps, err)"
    and found: "resolve_dbms_location (re_services env) (mdb_DstConnection m)
          (if dmi_DstName d = [] then dmi_SrcName d else dmi_DstName d) (mdb_DBType m) = Inr dstLoc"
      "target_database_exists (re_services env) (mdb_DstConnection m) dstLoc = Inr existed"
  shows "(drops steps \<longrightarrow> \<not> existed \<and> err \<noteq> None \<and> (re_onFailure env = DBMSOnFailureKeep \<longrightarrow> err = Some ItemCancelled))
    \<and> (\<forall>dmm. Transfer dmm \<in> set steps \<and> dmm_RollbackOnFailure dmm
         \<longrightarrow> existed \<and> re_onFailure env \<noteq> DBMSOnFailureKeep \<and> \<not> drops steps)"
  using run
proof (cases rule: migrate_one_cases)
  case (3 srcLoc dstLoc' info tr created rest)
  then have "\<not> drops (statements tr)" "existed = (\<not> created)"
    using ensure_no_drops ensure_flag found by fastforce+
  then show ?thesis using transfer_item_cleanup [OF 3(3)] 3(4) by auto
qed (use ensure_no_drops in \<open>auto simp: found\<close>)

section \<open>What is left on the target\<close>

text \<open>
  The databases of the target after a run, from those before it: a statement the server
  accepted creates or removes the database it names, one it refused changes nothing, and a
  transfer writes into a database that is there.
\<close>

fun apply_statement :: "ddl_call \<Rightarrow> string option \<Rightarrow> string set \<Rightarrow> string set" where
  "apply_statement c (Some e) S = S"
| "apply_statement (DriverCreate loc opt) None S = insert (loc_Database loc) S"
| "apply_statement (BeetleCreate r n cs co) None S = insert n S"
| "apply_statement (DriverDrop loc opt) None S = S - {loc_Database loc}"
| "apply_statement (BeetleDrop r n) None S = S - {n}"

fun replay :: "item_step list \<Rightarrow> string set \<Rightarrow> string set" where
  "replay [] S = S"
| "replay (Statement c a # xs) S = replay xs (apply_statement c a S)"
| "replay (x # xs) S = replay xs S"

lemma replay_append [simp]: "replay (xs @ ys) S = replay ys (replay xs S)"
  by (induction xs S rule: replay.induct) auto

lemma replay_ticks [simp]: "replay (map (Report \<circ> tick_event path) ps) S = S"
  by (induction ps) auto

lemma statements_simps [simp]:
  "statements [] = []" "statements ((c, a) # tr) = Statement c a # statements tr"
  "statements (xs @ ys) = statements xs @ statements ys"
  by (simp_all add: statements_def)

lemma create_database_trace:
  assumes "datamig_create_database sv ans loc opt = (tr, err)"
  shows "tr = [] \<and> err \<noteq> None
    \<or> tr = [(DriverCreate loc opt, ans (DriverCreate loc opt))] \<and> err = map_option DdlServer (ans (DriverCreate loc opt))"
proof (cases "check_err (ddl_check sv ''create'' loc)
             (check_err (map_option DdlOption (validate_create_option (loc_DBMSType loc) (Some opt)))
               (map_option DdlInvalid (new_db_driver (loc_DBMSType loc))))")
  case None
  with assms show ?thesis by (simp add: datamig_create_database_def send_ddl_def)
next
  case (Some e)
  with assms have "tr = [] \<and> err = Some e" by (simp add: datamig_create_database_def)
  then show ?thesis by simp
qed

lemma replay_create:
  assumes "datamig_create_database sv ans loc opt = (tr, err)"
  shows "replay (statements tr) S = (if err = None then insert (loc_Database loc) S else S)"
  using create_database_trace [OF assms] by (cases "ans (DriverCreate loc opt)") auto

lemma replay_create_with_retry:
  assumes "create_with_retry sv ans text_of loc opt = (tr, err)"
  shows "replay (statements tr) S = (if err = None then insert (loc_Database loc) S else S)"
proof -
  obtain tr1 e1 where 1: "datamig_create_database sv ans loc opt = (tr1, e1)" by (meson surj_pair)
  show ?thesis
  proof (cases "\<exists>e pg. e1 = Some e \<and> cdo_PostgreSQL opt = Some pg \<and> contains (text_of e) ''invalid locale name''")
    case False
    then have "tr = tr1 \<and> err = e1"
      using assms 1 by (auto simp: create_with_retry_def split: option.splits if_splits)
    then show ?thesis using replay_create [OF 1] by simp
  next
    case True
    then obtain e pg where e: "e1 = Some e" "cdo_PostgreSQL opt = Some pg" "contains (text_of e) ''invalid locale name''" by blast
    obtain tr2 e2 where 2: "datamig_create_database sv ans loc
        (opt\<lparr>cdo_PostgreSQL := Some (pg\<lparr>pgo_LcCollate := [], pgo_LcCtype := []\<rparr>)\<rparr>) = (tr2, e2)" by (meson surj_pair)
    have "tr = tr1 @ tr2 \<and> err = e2" using assms 1 2 e by (simp add: create_with_retry_def)
    then show ?thesis using replay_create [OF 1, of S] replay_create [OF 2, of S] e(1) by simp
  qed
qed

text \<open>How preparation ends: nothing sent and no database made, or one of the two creations.\<close>

lemma ensure_trace:
  assumes "ensure_target_database sv ans text_of dst loc info = (tr, r)" and "loc_DBMSType loc \<noteq> MongoDB"
  obtains "tr = []" "r \<noteq> Inr True"
  | ref cs co where "cr_Source dst = ConnectionSourceBeetleDB" "cr_BeetleDB dst \<noteq> None" "decrypt_ref (sv_sealer sv) dst = Inr ref"
      "tr = [(BeetleCreate (the (cr_BeetleDB ref)) (loc_Database loc) cs co, ans (BeetleCreate (the (cr_BeetleDB ref)) (loc_Database loc) cs co))]"
      "r = Inr True \<longleftrightarrow> ans (BeetleCreate (the (cr_BeetleDB ref)) (loc_Database loc) cs co) = None"
  | opt err where "cr_Source dst = ConnectionSourceDB" "create_with_retry sv ans text_of loc opt = (tr, err)"
      "r = Inr True \<longleftrightarrow> err = None"
  using assms
  by (simp add: ensure_target_database_def send_ddl_def Let_def
      split: sum.splits bool.splits if_splits connection_source.splits option.splits prod.splits)
     (auto dest: sym)

lemma replay_ensure:
  assumes "ensure_target_database sv ans text_of dst loc info = (tr, r)" and "loc_DBMSType loc \<noteq> MongoDB"
  shows "replay (statements tr) S = (if r = Inr True then insert (loc_Database loc) S else S)"
  using assms
proof (cases rule: ensure_trace)
  case (2 ref cs co)
  then show ?thesis by (cases "ans (BeetleCreate (the (cr_BeetleDB ref)) (loc_Database loc) cs co)") auto
next
  case (3 opt err)
  then show ?thesis using replay_create_with_retry [OF 3(2), of S] by simp
qed simp

text \<open>A database was created through one of the two ways, and the checks of that way passed.\<close>

lemma created_by:
  assumes "ensure_target_database sv ans text_of dst loc info = (tr, Inr True)" and "loc_DBMSType loc \<noteq> MongoDB"
  obtains ref where "cr_Source dst = ConnectionSourceBeetleDB" "cr_BeetleDB dst \<noteq> None" "decrypt_ref (sv_sealer sv) dst = Inr ref"
  | "cr_Source dst = ConnectionSourceDB" "ddl_check sv ''create'' loc = None" "new_db_driver (loc_DBMSType loc) = None"
  using assms
proof (cases rule: ensure_trace)
  case (3 opt err)
  have create: "ddl_check sv ''create'' loc = None \<and> new_db_driver (loc_DBMSType loc) = None"
    if "datamig_create_database sv ans loc opt = (tr', None)" for opt tr'
    using that by (auto simp: datamig_create_database_def res_inv split: option.splits)
  have "ddl_check sv ''create'' loc = None \<and> new_db_driver (loc_DBMSType loc) = None"
    using 3(2,3) create by (auto simp: create_with_retry_def Let_def split: prod.splits option.splits if_splits)
  then show thesis using that(2) 3(1) by blast
qed (use that in auto)

lemma validate_pg_schema_side:
  "validate_pg_schema side loc = None \<longleftrightarrow> validate_pg_schema side' loc = None"
proof -
  have "pg_schema_names side t seen i names = None \<longleftrightarrow> pg_schema_names side' t seen i names = None" for t seen i names
    by (induction side t seen i names rule: pg_schema_names.induct) auto
  then show ?thesis by (auto simp: validate_pg_schema_def)
qed

lemma validate_frames [simp]:
  "validate_access side (loc\<lparr>loc_PgSchema := ds\<rparr>) = validate_access side loc"
  "validate_tls roots side (loc\<lparr>loc_PgSchema := ds\<rparr>) = validate_tls roots side loc"
  by (simp_all add: validate_access_def validate_tls_def split: option.split)

lemma ddl_check_drop:
  assumes "ddl_check sv ''create'' loc = None" and "validate_pg_schema ''target'' (loc\<lparr>loc_PgSchema := ds\<rparr>) = None"
  shows "ddl_check sv ''drop'' (loc\<lparr>loc_PgSchema := ds\<rparr>) = None"
proof -
  have v: "validate_database_location (sv_roots sv) ''target'' loc = None"
    and s: "\<not> is_system_database (loc_DBMSType loc) (loc_Database loc)"
    using assms(1) by (auto simp: ddl_check_def res_inv split: if_splits)
  have "validate_database_location (sv_roots sv) ''target'' (loc\<lparr>loc_PgSchema := ds\<rparr>) = None"
    using v assms(2) by (auto simp: validate_database_location_def validate_server_location_def res_inv split: if_splits)
  then show ?thesis using s by (simp add: ddl_check_def)
qed

lemma replay_drop:
  assumes created: "ensure_target_database sv ans text_of dst loc info = (tr, Inr True)" and "loc_DBMSType loc \<noteq> MongoDB"
    and ok: "\<And>c. is_drop c \<Longrightarrow> ans c = None"
    and pg: "validate_pg_schema ''target'' (loc\<lparr>loc_PgSchema := ds\<rparr>) = None"
  shows "replay (statements (fst (drop_target_database sv ans dst (loc\<lparr>loc_PgSchema := ds\<rparr>)))) S = S - {loc_Database loc}"
  using created assms(2)
proof (cases rule: created_by)
  case (1 ref)
  then show ?thesis using ok [of "BeetleDrop _ _"] by (auto simp: drop_target_database_def send_ddl_def)
next
  case 2
  then show ?thesis
    using ok [of "DriverDrop _ _"] ddl_check_drop [OF 2(2) pg]
    by (auto simp: drop_target_database_def datamig_drop_database_def send_ddl_def Let_def split: option.splits prod.splits)
qed

lemma item_model_destination [simp]:
  "dmm_Destination (item_model env d flt s t created) = t\<lparr>loc_PgSchema := snd (split_pg_schemas (dmi_PgSchemas d))\<rparr>"
  by (simp add: item_model_def Let_def split: prod.split)

text \<open>The transfer part of a failed item undoes the creation, when it was validated and cleanup is on.\<close>

lemma replay_transfer_item:
  assumes run: "transfer_item env transfer dst path d srcLoc loc created = (rest, Some e)"
    and e: "\<And>f. e \<noteq> ItemFilter f" "\<And>f. e \<noteq> ItemInvalid f"
    and cleanup: "re_onFailure env \<noteq> DBMSOnFailureKeep \<or> e = ItemCancelled"
    and prep: "ensure_target_database (re_services env) (re_answers env) (re_text env) dst loc info = (tr, Inr created)"
      "loc_DBMSType loc \<noteq> MongoDB"
    and ok: "\<And>c. is_drop c \<Longrightarrow> re_answers env c = None"
  shows "replay rest S = (if created then S - {loc_Database loc} else S)"
proof -
  obtain flt where flt: "to_dbms_filter (dmi_Rules d) = Inr flt"
    using run e(1) by (auto simp: transfer_item_def fail_item_def split: sum.splits)
  let ?dmm = "item_model env d flt srcLoc loc created"
  have valid: "dbms_validate (sv_roots (re_services env)) (sv_json (re_services env)) ?dmm = None"
    using run e(2) flt by (auto simp: transfer_item_def fail_item_def after_steps_def Let_def split: option.splits)
  then have watch: "watch_transfer env dst path ?dmm created (re_onFailure env = DBMSOnFailureKeep) (transfer ?dmm) = (rest, Some e)"
    using run flt by (simp add: transfer_item_def Let_def)
  have drop: "replay rest S = replay (drop_if_owned env dst (dmm_Destination ?dmm) created) S"
    using watch cleanup by (auto simp: watch_transfer_def after_steps_def split: transfer_end.splits)
  show ?thesis
  proof (cases created)
    case False
    then show ?thesis by (simp add: drop)
  next
    case True
    have "validate_pg_schema ''target'' (loc\<lparr>loc_PgSchema := snd (split_pg_schemas (dmi_PgSchemas d))\<rparr>) = None"
      using validate_location_parts(3) [OF dbms_validate_parts(2) [OF valid]]
        validate_pg_schema_side [of "''destination''" _ "''target''"] by simp
    note pg = this
    have made: "ensure_target_database (re_services env) (re_answers env) (re_text env) dst loc info = (tr, Inr True)"
      using prep(1) True by simp
    have "replay (statements (fst (drop_target_database (re_services env) (re_answers env) dst
        (loc\<lparr>loc_PgSchema := snd (split_pg_schemas (dmi_PgSchemas d))\<rparr>)))) S = S - {loc_Database loc}"
      by (rule replay_drop [OF made prep(2) _ pg]) (rule ok)
    then show ?thesis
      by (simp add: drop drop_if_owned_def True del: validate_frames)
  qed
qed

text \<open>
  C2: A failed item leaves the databases of the target as it found them: for every engine that
  creates databases by statement, if the existence check told the truth and the server
  carries out the drop it is asked for, a failed or cancelled item with cleanup on makes
  no database appear or disappear, unless it failed on its filter rules or on the
  validation of the assembled migration.
\<close>

theorem failed_item_restores_target:
  assumes run: "migrate_one_database env transfer m d = (steps, Some e)"
    and e: "\<And>f. e \<noteq> ItemFilter f" "\<And>f. e \<noteq> ItemInvalid f"
    and cleanup: "re_onFailure env \<noteq> DBMSOnFailureKeep \<or> e = ItemCancelled"
    and truth: "\<And>loc b. target_database_exists (re_services env) (mdb_DstConnection m) loc = Inr b \<Longrightarrow> b = (loc_Database loc \<in> S)"
    and engine: "\<And>loc. resolve_dbms_location (re_services env) (mdb_DstConnection m)
          (if dmi_DstName d = [] then dmi_SrcName d else dmi_DstName d) (mdb_DBType m) = Inr loc \<Longrightarrow> loc_DBMSType loc \<noteq> MongoDB"
    and ok: "\<And>c. is_drop c \<Longrightarrow> re_answers env c = None"
  shows "replay steps S = S"
  using run
proof (cases rule: migrate_one_cases)
  case (2 loc info tr e')
  then show ?thesis using replay_ensure [OF 2(2) engine [OF 2(1)]] by simp
next
  case (3 srcLoc loc info tr created rest)
  note mongo = engine [OF 3(1)]
  have "replay rest S' = (if created then S' - {loc_Database loc} else S')" for S'
    by (rule replay_transfer_item [OF 3(3) e cleanup 3(2) mongo ok])
  moreover have "created \<longrightarrow> loc_Database loc \<notin> S" using ensure_flag [OF 3(2)] truth by blast
  ultimately show ?thesis using replay_ensure [OF 3(2) mongo] 3(4) by auto
qed simp

text \<open>
  Filter rules that do not compile leave a database behind: when such an item created its
  target first, it ends failed, drops nothing, and the new database stays on the server,
  whatever \<open>dbmsOnFailure\<close> says.
\<close>

lemma rule_error_leaves_created_database:
  assumes run: "migrate_one_database env transfer m d = (steps, Some (ItemFilter f))"
    and found: "resolve_dbms_location (re_services env) (mdb_DstConnection m)
          (if dmi_DstName d = [] then dmi_SrcName d else dmi_DstName d) (mdb_DBType m) = Inr loc"
      "target_database_exists (re_services env) (mdb_DstConnection m) loc = Inr False" "loc_DBMSType loc \<noteq> MongoDB"
  shows "replay steps S = insert (loc_Database loc) S \<and> \<not> drops steps"
  using run
proof (cases rule: migrate_one_cases)
  case (1 e)
  then show ?thesis by blast
next
  case (3 srcLoc loc' info tr created rest)
  have "loc' = loc" using 3(1) found(1) by simp
  then have "created" using ensure_flag [OF 3(2)] found(2) by simp
  moreover have "rest = [Report ((item_event (item_path (mdb_DBType m) (dmi_SrcName d)))\<lparr>pe_Status := ''failed'', pe_Err := Some (ItemFilter f)\<rparr>)]"
    using 3(3) by (auto simp: transfer_item_def watch_transfer_def fail_item_def after_steps_def Let_def
        split: sum.splits option.splits transfer_end.splits if_splits)
  ultimately show ?thesis
    using replay_ensure [OF 3(2)] found(3) ensure_no_drops [OF 3(2)] 3(4) \<open>loc' = loc\<close> by simp
qed simp_all

section \<open>A concrete entry\<close>

definition sample_info :: dbms_info where
  "sample_info = zero_dbms_info\<lparr>dbi_CharacterSet := ''utf8mb4''\<rparr>"

definition sample_env :: run_env where
  "sample_env = \<lparr>re_services = sample_services\<lparr>sv_driver_inspect := \<lambda>_. Inr sample_info\<rparr>, re_answers = \<lambda>_. None,
     re_text = \<lambda>_. [], re_onFailure = ''cleanup'', re_stagingDir = [], re_concurrency = 0\<rparr>"

definition sample_shop :: "dbms_filter_rule list \<Rightarrow> db_migration_info" where
  "sample_shop rules = \<lparr>dmi_Order = 1, dmi_SrcName = ''shop'', dmi_DstName = ''copy'', dmi_PgSchemas = [], dmi_Rules = rules\<rparr>"

definition sample_entry :: "dbms_filter_rule list \<Rightarrow> migration_db_model" where
  "sample_entry rules = \<lparr>mdb_PlanEntryID = ''e1'', mdb_SrcConnection = toy_db_ref, mdb_DstConnection = toy_db_ref,
     mdb_DBType = ''mysql'', mdb_Databases = [sample_shop rules], mdb_Errors = []\<rparr>"

definition sample_progress :: migration_progress where
  "sample_progress = zero_progress\<lparr>mp_Status := ''dumping'', mp_BytesTransferred := 10, mp_Step := 1, mp_Steps := 2\<rparr>"

definition broken_transfer :: "dbms_migration_model \<Rightarrow> transfer_run" where
  "broken_transfer dmm = \<lparr>tr_Ticks = [sample_progress], tr_End = TransferDone (Some ''broken pipe''), tr_Final = sample_progress\<rparr>"

definition sample_loc :: "string \<Rightarrow> dbms_location" where
  "sample_loc n =
     \<lparr>loc_DBMSType = ''mysql'', loc_Database = n, loc_PgSchema = [], loc_ProviderName = ''onprem'', loc_AccessType = AccessTypeSSHTunnel,
      loc_Direct = None,
      loc_SSHTunnel = Some \<lparr>stc_SSH = Some (key_ssh_config ''h'' 22 ''u'' ''key''), stc_DBHost = ''db'', stc_DBPort = 3306,
        stc_Username = ''root'', stc_Password = ''pw'', stc_AuthSource = []\<rparr>,
      loc_Filter = None\<rparr>"

lemma sample_shop_rules [simp]: "dmi_Rules (sample_shop rules) = rules"
  by (simp add: sample_shop_def)

lemma sample_loc_fields [simp]:
  "loc_DBMSType (sample_loc n) = MySQL" "loc_Database (sample_loc n) = n"
  by (simp_all add: sample_loc_def)

lemma toy_db_ref_fields:
  "cr_Source toy_db_ref = ConnectionSourceDB" "\<exists>cfg. cr_DB toy_db_ref = Some cfg \<and> dbc_ProviderName cfg = ProviderOnPrem"
  by (simp_all add: toy_db_ref_def empty_ref_def)

lemma toy_secrets_plain: "v \<in> set (ref_secrets toy_db_ref) \<Longrightarrow> \<not> has_prefix v encPrefix"
  by (auto simp: toy_db_ref_def empty_ref_def ref_secrets_def db_secrets_def)

lemma sample_resolve: "resolve_dbms_location (re_services sample_env) toy_db_ref n t = Inr (sample_loc n)"
  by (simp add: resolve_dbms_location_def decrypt_ref_plain toy_secrets_plain)
     (simp add: toy_db_ref_def empty_ref_def db_conn_config_to_location_def dbms_location_ssh_tunnel_def sample_loc_def)

lemma sample_valid:
  "n \<noteq> [] \<Longrightarrow> validate_location roots json side (sample_loc n) = None"
  "validate_server_location roots side (sample_loc n) = None"
  by (simp_all add: dbms_validate_eval sample_loc_def key_ssh_config_def)

lemma sample_env_simps [simp]:
  "re_services sample_env = sample_services\<lparr>sv_driver_inspect := \<lambda>_. Inr sample_info\<rparr>"
  "re_answers sample_env c = None" "re_onFailure sample_env = ''cleanup''" "re_text sample_env e = []"
  by (simp_all add: sample_env_def)

lemma sample_exists: "target_database_exists (re_services sample_env) toy_db_ref loc = Inr b \<Longrightarrow> \<not> b"
  by (auto simp: target_database_exists_def toy_db_ref_def empty_ref_def datamig_list_databases_def sample_services_def res_inv)

lemma sample_exists_copy: "target_database_exists (re_services sample_env) toy_db_ref (sample_loc n) = Inr False"
  by (simp add: target_database_exists_def toy_db_ref_def empty_ref_def datamig_list_databases_def sample_services_def sample_valid new_db_driver_def)

lemma sample_create:
  "datamig_create_database (re_services sample_env) (re_answers sample_env) (sample_loc ''copy'')
     (create_option_from ''mysql'' (Some sample_info)) =
   ([(DriverCreate (sample_loc ''copy'') (create_option_from ''mysql'' (Some sample_info)), None)], None)"
  by (simp add: datamig_create_database_def ddl_check_def validate_database_location_def sample_valid send_ddl_def)
     (simp add: sample_loc_def validate_database_name_def max_database_name_len_def valid_utf8_ascii byte_of_def
        is_system_database_def system_databases_def managed_databases_def validate_create_option_def mysql_create_opt_def
        create_option_from_def option_token_def ident_token_allowed_def ident_char_def sample_info_def zero_dbms_info_def
        no_create_option_def new_db_driver_def send_ddl_def)

lemma sample_ensure:
  "ensure_target_database (re_services sample_env) (re_answers sample_env) (re_text sample_env) toy_db_ref (sample_loc ''copy'') (Some sample_info) =
   ([(DriverCreate (sample_loc ''copy'') (create_option_from ''mysql'' (Some sample_info)), None)], Inr True)"
proof -
  obtain cfg where cfg: "cr_DB toy_db_ref = Some cfg" "dbc_ProviderName cfg = ProviderOnPrem"
    using toy_db_ref_fields(2) by blast
  show ?thesis
    using sample_create cfg
    by (simp add: ensure_target_database_def sample_exists_copy create_with_retry_def toy_db_ref_fields equal_fold_def
        del: sample_env_simps split: option.split)
qed

lemma sample_inspect: "datamig_inspect (re_services sample_env) (sample_loc ''shop'') = Inr sample_info"
  by (simp add: datamig_inspect_def sample_valid) (simp add: sample_loc_def new_db_driver_def)

lemma snd_after_steps [simp]: "snd (after_steps xs r) = snd r"
  by (cases r) (simp add: after_steps_def)

lemma sample_item_run:
  "snd (migrate_one_database sample_env broken_transfer (sample_entry rules) (sample_shop rules)) =
   snd (transfer_item sample_env broken_transfer toy_db_ref (item_path ''mysql'' ''shop'') (sample_shop rules)
          (sample_loc ''shop'') (sample_loc ''copy'') True)"
  by (simp add: migrate_one_database_def sample_entry_def sample_shop_def sample_resolve sample_inspect sample_ensure
      del: sample_env_simps)

lemma sample_broken:
  "snd (migrate_one_database sample_env broken_transfer (sample_entry []) (sample_shop [])) = Some (ItemTransfer ''broken pipe'')"
proof -
  have "dbms_validate (sv_roots (re_services sample_env)) (sv_json (re_services sample_env))
      (item_model sample_env (sample_shop []) None (sample_loc ''shop'') (sample_loc ''copy'') True) = None"
    by (simp add: dbms_validate_eval item_model_def sample_shop_def split_pg_schemas_def sample_loc_def key_ssh_config_def)
       (simp add: sample_env_def)
  then show ?thesis
    by (simp add: sample_item_run transfer_item_def to_dbms_filter_def watch_transfer_def broken_transfer_def Let_def
        del: sample_env_simps)
qed

theorem failed_item_restores_target_witness:
  "\<exists>steps. migrate_one_database sample_env broken_transfer (sample_entry []) (sample_shop []) = (steps, Some (ItemTransfer ''broken pipe''))
     \<and> replay steps {} = {}"
proof -
  obtain steps where run: "migrate_one_database sample_env broken_transfer (sample_entry []) (sample_shop []) = (steps, Some (ItemTransfer ''broken pipe''))"
    using sample_broken by (metis prod.collapse)
  have "replay steps {} = {}"
    by (rule failed_item_restores_target [OF run])
       (use sample_exists sample_resolve in \<open>auto simp: sample_entry_def sample_loc_def simp del: sample_env_simps(1)\<close>)
  then show ?thesis using run by blast
qed

theorem cleanup_paths_exclusive_witness:
  "\<exists>steps. migrate_one_database sample_env broken_transfer (sample_entry []) (sample_shop []) = (steps, Some (ItemTransfer ''broken pipe''))
     \<and> (\<forall>dmm. Transfer dmm \<in> set steps \<longrightarrow> \<not> dmm_RollbackOnFailure dmm)"
proof -
  obtain steps where run: "migrate_one_database sample_env broken_transfer (sample_entry []) (sample_shop []) = (steps, Some (ItemTransfer ''broken pipe''))"
    using sample_broken by (metis prod.collapse)
  have found: "resolve_dbms_location (re_services sample_env) (mdb_DstConnection (sample_entry []))
      (if dmi_DstName (sample_shop []) = [] then dmi_SrcName (sample_shop []) else dmi_DstName (sample_shop []))
      (mdb_DBType (sample_entry [])) = Inr (sample_loc ''copy'')"
    "target_database_exists (re_services sample_env) (mdb_DstConnection (sample_entry [])) (sample_loc ''copy'') = Inr False"
    by (simp_all add: sample_entry_def sample_shop_def sample_resolve sample_exists_copy del: sample_env_simps)
  show ?thesis using cleanup_paths_exclusive [OF run found] run by blast
qed

definition nameless_rule :: dbms_filter_rule where
  "nameless_rule = \<lparr>dfr_Type = DBMSRuleTableColumn, dfr_Table = [], dfr_Columns = [], dfr_Match = [], dfr_Kind = [], dfr_Name = []\<rparr>"

lemma rule_error_leaves_created_database_witness:
  "\<exists>steps f. migrate_one_database sample_env broken_transfer (sample_entry [nameless_rule]) (sample_shop [nameless_rule]) = (steps, Some (ItemFilter f))
     \<and> replay steps {} = {''copy''}"
proof -
  obtain f where "to_dbms_filter [nameless_rule] = Inl f"
    by (simp add: to_dbms_filter_def dbms_rule_unmarshal_def new_table_column_def nameless_rule_def)
  then have "snd (migrate_one_database sample_env broken_transfer (sample_entry [nameless_rule]) (sample_shop [nameless_rule])) = Some (ItemFilter f)"
    by (simp add: sample_item_run transfer_item_def fail_item_def del: sample_env_simps)
  then obtain steps where run: "migrate_one_database sample_env broken_transfer (sample_entry [nameless_rule]) (sample_shop [nameless_rule]) = (steps, Some (ItemFilter f))"
    by (metis prod.collapse)
  have found: "resolve_dbms_location (re_services sample_env) (mdb_DstConnection (sample_entry [nameless_rule]))
      (if dmi_DstName (sample_shop [nameless_rule]) = [] then dmi_SrcName (sample_shop [nameless_rule]) else dmi_DstName (sample_shop [nameless_rule]))
      (mdb_DBType (sample_entry [nameless_rule])) = Inr (sample_loc ''copy'')"
    "target_database_exists (re_services sample_env) (mdb_DstConnection (sample_entry [nameless_rule])) (sample_loc ''copy'') = Inr False"
    "loc_DBMSType (sample_loc ''copy'') \<noteq> MongoDB"
    by (simp_all add: sample_entry_def sample_shop_def sample_resolve sample_exists_copy del: sample_env_simps)
  show ?thesis using rule_error_leaves_created_database [OF run found] run by auto
qed

text \<open>The ticks of a run are observations: they never count as outcomes.\<close>

theorem every_database_reported_once_witness:
  "map pe_ItemPath (outcomes (fst (migrate_dbms id sample_env
      (\<lambda>_. \<lparr>ie_before = True, ie_transfer = broken_transfer, ie_after = False\<rparr>) (sample_entry [])))) = [''mysql/shop'']"
proof -
  obtain steps err where r: "migrate_dbms id sample_env
      (\<lambda>_. \<lparr>ie_before = True, ie_transfer = broken_transfer, ie_after = False\<rparr>) (sample_entry []) = (steps, err)"
    by (meson surj_pair)
  then have "err \<noteq> None" by (auto simp: migrate_dbms_def sample_entry_def)
  then show ?thesis
    using every_database_reported_once [OF r] r
    by (auto simp: sample_entry_def sample_shop_def item_path_def take_Cons' split: if_splits)
qed

end
