(* ===== verification/S3Execute.thy ===== *)
theory S3Execute
  imports S3Transfer
begin

text \<open>
  The two object storage executors of \<open>executor-s3.go\<close>: what an upload, a download and a
  stream select, in which order and lane, where each object goes, and the requests that move
  one object. The listing, the local file system and the HTTP replies are arguments; what
  the executor does to the destination directory is a trace.
\<close>

section \<open>Requests for one object\<close>

datatype http_reply = NoReply string | Reply int string int

text \<open>The length of a body, \<open>-1\<close> when the response streams without one.\<close>

fun reply_status :: "http_reply \<Rightarrow> int" where
  "reply_status (NoReply e) = 0"
| "reply_status (Reply st body len) = st"

text \<open>\<open>url\<close> is what \<open>GeneratePresignedURL\<close> answers, \<open>request\<close> whether a request for it can be made.\<close>

definition failed_reply :: "string \<Rightarrow> http_reply \<Rightarrow> s3_failure option" where
  "failed_reply op reply =
     (case reply of
        NoReply e \<Rightarrow> Some (Transient (op @ '' request failed: '' @ e))
      | Reply st body len \<Rightarrow> (if st < 200 \<or> st \<ge> 300 then Some (status_error op st body) else None))"

definition upload_file ::
  "s3_failure + string \<Rightarrow> string + int \<Rightarrow> (string \<Rightarrow> bool) \<Rightarrow> http_reply \<Rightarrow> s3_failure option \<times> (string \<times> int) option" where
  "upload_file url opened request reply =
     (case url of
        Inl e \<Rightarrow> (Some e, None)
      | Inr u \<Rightarrow>
          (case opened of
             Inl e \<Rightarrow> (Some (Permanent (''failed to open file: '' @ e)), None)
           | Inr sz \<Rightarrow>
               (if \<not> request u then (Some (Permanent ''failed to create request''), None)
                else (failed_reply ''upload'' reply, Some (u, sz)))))"

definition download_file ::
  "s3_failure + string \<Rightarrow> (string \<Rightarrow> bool) \<Rightarrow> http_reply \<Rightarrow> string option \<Rightarrow> string option \<Rightarrow> s3_failure option" where
  "download_file url request reply create copy =
     (case url of
        Inl e \<Rightarrow> Some e
      | Inr u \<Rightarrow>
          (if \<not> request u then Some (Permanent ''failed to create request'')
           else (case failed_reply ''download'' reply of
                   Some e \<Rightarrow> Some e
                 | None \<Rightarrow>
                     (case create of
                        Some e \<Rightarrow> Some (Permanent (''failed to create file: '' @ e))
                      | None \<Rightarrow> map_option (\<lambda>e. Transient (''failed to write file: '' @ e)) copy))))"

text \<open>The PUT carries the response's length, the listing's when the response has none.\<close>

definition copy_length :: "http_reply \<Rightarrow> object_info \<Rightarrow> int" where
  "copy_length reply obj =
     (case reply of NoReply e \<Rightarrow> oi_Size obj | Reply st body len \<Rightarrow> (if len < 0 then oi_Size obj else len))"

definition copy_object ::
  "s3_failure + string \<Rightarrow> s3_failure + string \<Rightarrow> (string \<Rightarrow> bool) \<Rightarrow> http_reply \<Rightarrow> http_reply \<Rightarrow> object_info \<Rightarrow>
   s3_failure option \<times> (string \<times> int) option" where
  "copy_object get put request getReply putReply obj =
     (case get of
        Inl e \<Rightarrow> (Some e, None)
      | Inr g \<Rightarrow>
          (case put of
             Inl e \<Rightarrow> (Some e, None)
           | Inr p \<Rightarrow>
               (if \<not> request g then (Some (Permanent ''failed to create download request''), None)
                else (case failed_reply ''download'' getReply of
                        Some e \<Rightarrow> (Some e, None)
                      | None \<Rightarrow>
                          (if \<not> request p then (Some (Permanent ''failed to create upload request''), None)
                           else (failed_reply ''upload'' putReply, Some (p, copy_length getReply obj)))))))"

text \<open>One ranged read of a copy in parts: \<open>None\<close> when the body may be read.\<close>

definition open_range :: "s3_failure + string \<Rightarrow> (string \<Rightarrow> bool) \<Rightarrow> http_reply \<Rightarrow> int \<Rightarrow> int \<Rightarrow> s3_failure option" where
  "open_range get request reply off n =
     (case get of
        Inl e \<Rightarrow> Some e
      | Inr u \<Rightarrow>
          (if \<not> request u then Some (Permanent ''failed to create download request'')
           else (case reply of
                   NoReply e \<Rightarrow> Some (Transient (''download request failed: '' @ e))
                 | Reply st body len \<Rightarrow>
                     (if st \<noteq> 206 then
                        (if st \<ge> 200 \<and> st < 300
                         then Some (Permanent (''source answered a range request with status '' @ itoa st))
                         else Some (status_error ''download'' st body))
                      else if len \<ge> 0 \<and> len \<noteq> n
                      then Some (Transient (''range of '' @ itoa n @ '' bytes at '' @ itoa off @ '' came back with '' @ itoa len))
                      else None))))"

section \<open>Streams\<close>

datatype transfer_error =
    NotBothObjectStorage
  | S3ToS3
  | BothFilesystem
  | ListingFailed string string
  | CannotPlace "path_problem list"
  | ClearFailed string
  | CreateFailed string

text \<open>A task of a transfer: the index of its object, its source and destination names, its size.\<close>

record transfer_task =
  tt_Source :: string
  tt_Dest :: string
  tt_Size :: int

definition stream_selects :: "regexp_engine \<Rightarrow> data_location \<Rightarrow> object_info \<Rightarrow> bool" where
  "stream_selects rx src obj \<longleftrightarrow> key_under_prefix (key_prefix src) (oi_Key obj) \<and> keeps_object rx src obj"

definition stream_tasks :: "regexp_engine \<Rightarrow> data_location \<Rightarrow> data_location \<Rightarrow> object_info list \<Rightarrow> transfer_task list" where
  "stream_tasks rx src dst objects =
     map (\<lambda>obj. \<lparr>tt_Source = oi_Key obj, tt_Dest = stream_dst_key (key_prefix src) (key_prefix dst) (oi_Key obj), tt_Size = oi_Size obj\<rparr>)
       (filter (stream_selects rx src) objects)"

text \<open>Which of the tasks are written in parts.\<close>

definition in_parts :: "(s3_provider \<Rightarrow> string option) \<Rightarrow> s3_provider \<Rightarrow> transfer_task list \<Rightarrow> nat \<Rightarrow> bool" where
  "in_parts csp p ts i \<longleftrightarrow> is_multipart_uploader p \<and> tt_Size (ts ! i) > single_put_limit csp p"

definition start_lanes :: "int option \<Rightarrow> (s3_provider \<Rightarrow> string option) \<Rightarrow> s3_provider \<Rightarrow> transfer_task list \<Rightarrow> lanes" where
  "start_lanes ctx csp p ts =
     for_each_in_lanes (nat (s3_objects ctx)) (largest_first (map tt_Size ts)) (in_parts csp p ts)"

definition stream_execute ::
  "regexp_engine \<Rightarrow> int option \<Rightarrow> (s3_provider \<Rightarrow> string option) \<Rightarrow> s3_provider \<Rightarrow> data_location \<Rightarrow> data_location \<Rightarrow>
   string + object_info list \<Rightarrow> transfer_error + transfer_task list \<times> lanes" where
  "stream_execute rx ctx csp dstP src dst listing =
     (if \<not> is_object_storage src \<or> \<not> is_object_storage dst then Inl NotBothObjectStorage
      else (case listing of
              Inl e \<Rightarrow> Inl (ListingFailed (key_prefix src) e)
            | Inr objects \<Rightarrow>
                (let ts = stream_tasks rx src dst objects in Inr (ts, start_lanes ctx csp dstP ts))))"

section \<open>Uploads\<close>

text \<open>
  A walked file: its path, size and its path below the walk's base (\<open>filepath.Rel\<close>). \<open>stat\<close> is
  what \<open>os.Stat\<close> said of the root: an error, or whether it is a directory.
\<close>

record local_file =
  lf_Path :: string
  lf_Rel :: string
  lf_Size :: int

definition list_local_files ::
  "regexp_engine \<Rightarrow> string \<Rightarrow> filter_option option \<Rightarrow> string + bool \<Rightarrow> string + local_file list \<Rightarrow> string + local_file list" where
  "list_local_files rx path flt stat walked =
     bind_res stat (\<lambda>isDir.
       if \<not> isDir then Inr [\<lparr>lf_Path = path, lf_Rel = path_base path, lf_Size = 0\<rparr>]
       else bind_res walked (\<lambda>fs. Inr (filter (\<lambda>f. match_path rx flt (filter_rel path (lf_Path f)) (lf_Size f) False) fs)))"

definition upload_key :: "string \<Rightarrow> string \<Rightarrow> string" where
  "upload_key keyPrefix rel = map (\<lambda>c. if c = CHR 0x5C then slash else c) (path_join2 keyPrefix rel)"

text \<open>\<open>size_of\<close> is the second \<open>os.Stat\<close>, 0 where it fails.\<close>

definition upload_tasks :: "data_location \<Rightarrow> (string \<Rightarrow> int) \<Rightarrow> local_file list \<Rightarrow> transfer_task list" where
  "upload_tasks dst size_of files =
     map (\<lambda>f. \<lparr>tt_Source = lf_Path f, tt_Dest = upload_key (key_prefix dst) (lf_Rel f), tt_Size = size_of (lf_Path f)\<rparr>) files"

definition upload_execute ::
  "regexp_engine \<Rightarrow> int option \<Rightarrow> (s3_provider \<Rightarrow> string option) \<Rightarrow> s3_provider \<Rightarrow> data_location \<Rightarrow> data_location \<Rightarrow>
   string + bool \<Rightarrow> string + local_file list \<Rightarrow> (string \<Rightarrow> int) \<Rightarrow> transfer_error + transfer_task list \<times> lanes" where
  "upload_execute rx ctx csp p src dst stat walked size_of =
     (case list_local_files rx (dl_Path src) (dl_Filter src) stat walked of
        Inl e \<Rightarrow> Inl (ListingFailed (dl_Path src) e)
      | Inr files \<Rightarrow> (let ts = upload_tasks dst size_of files in Inr (ts, start_lanes ctx csp p ts)))"

section \<open>Downloads\<close>

datatype local_call = RemoveAll string | MkdirAll string

definition download_matched :: "regexp_engine \<Rightarrow> data_location \<Rightarrow> object_info list \<Rightarrow> object_info list" where
  "download_matched rx src objects = filter (keeps_object rx src) objects"

text \<open>What one placed object asks of the local file system before its body is fetched; \<open>None\<close> is a skipped key.\<close>

definition download_item :: "object_path option \<Rightarrow> local_call list" where
  "download_item place =
     (case place of
        None \<Rightarrow> []
      | Some p \<Rightarrow> (if op_Folder p then [MkdirAll (op_Local p)] else [MkdirAll (path_dir (op_Local p))]))"

text \<open>
  The result and the calls made before the first object; \<open>clear\<close> and \<open>create\<close> are the errors
  of the two calls. \<open>None\<close> where placing the keys does not return.
\<close>

definition download_prepare ::
  "regexp_engine \<Rightarrow> data_location \<Rightarrow> string \<Rightarrow> string + object_info list \<Rightarrow> string option \<Rightarrow> string option \<Rightarrow>
   ((transfer_error + object_info list \<times> object_path option list) \<times> local_call list) option" where
  "download_prepare rx src localPath listing clear create =
     (case listing of
        Inl e \<Rightarrow> Some (Inl (ListingFailed (key_prefix src) e), [])
      | Inr objects \<Rightarrow>
          (let matched = download_matched rx src objects
           in case object_local_paths localPath (key_prefix src) (map oi_Key matched) of
                None \<Rightarrow> None
              | Some (Inl ps) \<Rightarrow> Some (Inl (CannotPlace ps), [])
              | Some (Inr places) \<Rightarrow>
                  Some (case clear of
                          Some e \<Rightarrow> (Inl (ClearFailed e), [RemoveAll localPath])
                        | None \<Rightarrow>
                            (case create of
                               Some e \<Rightarrow> (Inl (CreateFailed e), [RemoveAll localPath, MkdirAll localPath])
                             | None \<Rightarrow> (Inr (matched, places), [RemoveAll localPath, MkdirAll localPath])))))"

definition download_lanes :: "int option \<Rightarrow> object_info list \<Rightarrow> lanes" where
  "download_lanes ctx matched = for_each_concurrently (nat (s3_objects ctx)) (largest_first (map oi_Size matched))"

section \<open>Which way an executor goes\<close>

datatype s3_route = Upload | Download

definition s3_direction :: "data_location \<Rightarrow> data_location \<Rightarrow> transfer_error + s3_route" where
  "s3_direction src dst =
     (if \<not> is_object_storage src \<and> is_object_storage dst then Inr Upload
      else if is_object_storage src \<and> \<not> is_object_storage dst then Inr Download
      else if is_object_storage src \<and> is_object_storage dst then Inl S3ToS3
      else Inl BothFilesystem)"

section \<open>Nothing is started that cannot be finished\<close>

text \<open>
  The size check refuses a stream before its first byte exactly where it would fail
  later: when the check passes (or the destination needs none), every object the stream
  selects is either written in parts or fits in one PUT of the destination's cloud, and the
  check looked at the very objects the stream moves.
\<close>

lemma preflight_covers_stream:
  assumes "stream_execute rx ctx csp dstP src dst (Inr objects) = Inr (ts, lanes)"
    and "list_all (\<lambda>check. check () = None) (case single_put_preflight csp dstP ''object'' (Inr (object_sizes rx src objects)) of None \<Rightarrow> [] | Some f \<Rightarrow> [f])"
  shows "map (\<lambda>t. (tt_Source t, tt_Size t)) ts = map (\<lambda>it. (si_Name it, si_Size it)) (object_sizes rx src objects)
    \<and> (\<forall>i<length ts. in_parts csp dstP ts i \<or> tt_Size (ts ! i) \<le> single_put_limit csp dstP)"
proof -
  have ts: "ts = stream_tasks rx src dst objects"
    using assms(1) by (auto simp: stream_execute_def Let_def split: if_splits)
  have same: "map (\<lambda>t. (tt_Source t, tt_Size t)) ts = map (\<lambda>it. (si_Name it, si_Size it)) (object_sizes rx src objects)"
    by (simp add: ts stream_tasks_def object_sizes_def stream_selects_def [abs_def] comp_def)
  have "tt_Size t \<le> single_put_limit csp dstP" if "\<not> is_multipart_uploader dstP" "t \<in> set ts" for t
  proof -
    have "(tt_Source t, tt_Size t) \<in> set (map (\<lambda>it. (si_Name it, si_Size it)) (object_sizes rx src objects))"
      using that(2) by (metis (mono_tags, lifting) same image_eqI list.set_map)
    then show ?thesis using assms(2) that(1)
      by (auto simp: single_put_preflight_def check_single_put_limit_def Let_def filter_empty_conv split: if_splits)
  qed
  then show ?thesis using same by (auto simp: in_parts_def) (metis not_le nth_mem)
qed

definition one_bucket :: "string \<Rightarrow> data_location" where
  "one_bucket p = \<lparr>dl_StorageType = StorageTypeObjectStorage, dl_Path = p, dl_Filesystem = None, dl_ObjectStorage = None,
     dl_Filter = None, dl_PreCmd = [], dl_PostCmd = []\<rparr>"

definition sample_tumblebug :: s3_provider where
  "sample_tumblebug = TumblebugProvider \<lparr>tb_Endpoint = ''http://tb'', tb_NsId = ''ns'', tb_OsId = ''os'', tb_Expires = 3600, tb_Auth = None\<rparr>"

definition sample_objects :: "object_info list" where
  "sample_objects = [\<lparr>oi_Key = ''a/x'', oi_Size = 7, oi_LastModified = [], oi_ETag = []\<rparr>,
     \<lparr>oi_Key = ''ab'', oi_Size = 9, oi_LastModified = [], oi_ETag = []\<rparr>]"

text \<open>
  A download never empties its destination for nothing: the directory is removed only
  after every selected key was found a place of its own (or is not part of the location),
  and the objects that then have a place are exactly those a stream of the same source
  would move, in the same order.
\<close>

lemma download_clears_only_when_placeable:
  assumes "download_prepare rx src root listing clear create = Some (res, calls)" and "calls \<noteq> []"
  shows "hd calls = RemoveAll root
    \<and> (\<exists>objects places. listing = Inr objects
        \<and> object_local_paths root (key_prefix src) (map oi_Key (download_matched rx src objects)) = Some (Inr places)
        \<and> (clear = None \<and> create = None \<longrightarrow> res = Inr (download_matched rx src objects, places))
        \<and> map tt_Source (stream_tasks rx src dst objects)
            = map fst (filter (\<lambda>(key, place). place \<noteq> None) (zip (map oi_Key (download_matched rx src objects)) places)))"
proof -
  obtain objects where l: "listing = Inr objects" using assms by (auto simp: download_prepare_def split: sum.splits)
  let ?m = "download_matched rx src objects"
  obtain places where p: "object_local_paths root (key_prefix src) (map oi_Key ?m) = Some (Inr places)"
    using assms by (auto simp: download_prepare_def l Let_def split: option.splits sum.splits)
  have hd: "hd calls = RemoveAll root" and res: "clear = None \<and> create = None \<longrightarrow> res = Inr (?m, places)"
    using assms p by (auto simp: download_prepare_def l split: option.splits)
  obtain own where own: "place_keys root (key_prefix src) Map.empty (map oi_Key ?m) = (places, own, [])"
    using object_local_pathsD [OF p] by metis
  have "list_all2 (\<lambda>key p. object_local_path root (key_prefix src) key = Inr p) (map oi_Key ?m) places"
    using place_keys_ok [OF own] by blast
  then have rel: "list_all2 (\<lambda>key p. p = None \<longleftrightarrow> \<not> key_under_prefix (key_prefix src) key) (map oi_Key ?m) places"
    by (rule list.rel_mono_strong) (auto simp: object_local_path_def Let_def split: if_splits)
  have placed: "map fst (filter (\<lambda>(key, place). place \<noteq> None) (zip ks ps)) = filter (key_under_prefix k) ks"
    if "list_all2 (\<lambda>key p. p = None \<longleftrightarrow> \<not> key_under_prefix k key) ks ps" for ks and ps :: "object_path option list" and k
    using that by (induction rule: list_all2_induct) auto
  have "map tt_Source (stream_tasks rx src dst objects) = filter (key_under_prefix (key_prefix src)) (map oi_Key ?m)"
    by (simp add: stream_tasks_def download_matched_def stream_selects_def [abs_def] filter_map comp_def conj_commute)
  with placed [OF rel] show ?thesis using l p hd res by auto
qed

lemma download_clears_only_when_placeable_witness:
  "\<exists>places. object_local_paths ''/r'' ''a'' [''a/x'', ''ab''] = Some (Inr places)"
proof -
  have k: "key_prefix (one_bucket ''b/a'') = ''a''" by code_simp
  have m: "download_matched (\<lambda>_ _. True) (one_bucket ''b/a'') sample_objects = sample_objects"
    by (simp add: download_matched_def keeps_object_def one_bucket_def match_path_def sample_objects_def)
  have place: "object_local_path ''/r'' ''a'' ''a/x'' = Inr (Some \<lparr>op_Local = ''/r/x'', op_Folder = False\<rparr>)"
    "object_local_path ''/r'' ''a'' ''ab'' = Inr None" "path_dir ''/r/x'' = ''/r''" by code_simp+
  have keys: "map oi_Key sample_objects = [''a/x'', ''ab'']" by (simp add: sample_objects_def)
  have "object_local_paths ''/r'' ''a'' [''a/x'', ''ab''] = Some (Inr [Some \<lparr>op_Local = ''/r/x'', op_Folder = False\<rparr>, None])"
    by (simp add: object_local_paths_def place clash_above.simps folder_clash_def)
  then have "download_prepare (\<lambda>_ _. True) (one_bucket ''b/a'') ''/r'' (Inr sample_objects) (Some ''busy'') None =
      Some (Inl (ClearFailed ''busy''), [RemoveAll ''/r''])"
    by (simp add: download_prepare_def k m keys)
  from download_clears_only_when_placeable [OF this] show ?thesis by (auto simp: k m keys)
qed

end
