(* ===== verification/StoragePlan.thy ===== *)
theory StoragePlan
  imports S3Execute
begin

text \<open>
  The planner of a storage transfer (\<open>planner.go\<close>) with the construction of an rsync executor
  (\<open>executor-rsync.go\<close>): which steps a transfer takes, what it stages and what it holds open,
  and who gives that back. A pipeline is \<open>TransferCore\<close>'s over data locations; what an executor
  does when it runs is the environment's \<open>en_exec\<close>.

  The world records the staging directories and the tunnelled providers that are open. It is
  extensible, so an executor may change anything else.
\<close>

section \<open>The world a plan allocates in\<close>

record plan_world =
  pw_dirs :: "string list"
  pw_open :: "nat list"
  pw_next :: nat

text \<open>A provider with the number it was opened under.\<close>

type_synonym held = "nat \<times> s3_provider"

datatype transfer_mode = ModePull | ModePush | ModeAgentForward

record rsync_executor =
  re_Mode :: transfer_mode
  re_DeleteExtraneous :: bool
  re_DryRun :: bool
  re_Verbose :: bool
  re_AdditionalArgs :: "string list"

datatype storage_exec =
    RsyncExec rsync_executor
  | S3Exec held
  | S3StreamExec held held

datatype plan_failure =
    PlanInvalid storage_error
  | SourceProvider provider_error
  | DestinationProvider provider_error
  | StagingRoot string
  | StagingDirectory string
  | LocalToLocal

record 'w plan_env =
  en_tmp :: string
  en_mkdirs :: "string \<Rightarrow> string option"
  en_temp :: "string \<Rightarrow> string list \<Rightarrow> string + string"
  en_sdk :: sdk
  en_csp :: "s3_provider \<Rightarrow> string option"
  en_rx :: regexp_engine
  en_exec :: "storage_exec \<Rightarrow> nat \<times> nat \<Rightarrow> data_location \<Rightarrow> data_location \<Rightarrow> 'w \<Rightarrow> string option \<times> 'w"
  en_list_objects :: "held \<Rightarrow> string \<Rightarrow> 'w \<Rightarrow> string + object_info list"
  en_list_files :: "data_location \<Rightarrow> 'w \<Rightarrow> string + file_info list"
  en_text :: "preflight_error \<Rightarrow> string"

type_synonym 'w transfer = "(data_location, 'w) pipeline"

text \<open>Opening and closing: only a tunnelled provider holds a connection.\<close>

definition open_provider ::
  "'a plan_world_scheme plan_env \<Rightarrow> data_location \<Rightarrow> 'a plan_world_scheme \<Rightarrow> (provider_error + held) \<times> 'a plan_world_scheme" where
  "open_provider env loc w =
     (case new_s3_provider (en_sdk env) loc of
        Inl e \<Rightarrow> (Inl e, w)
      | Inr p \<Rightarrow> (Inr (pw_next w, p),
                  w\<lparr>pw_next := Suc (pw_next w), pw_open := (if is_tunnelled p then pw_next w # pw_open w else pw_open w)\<rparr>))"

definition close_provider :: "held \<Rightarrow> 'a plan_world_scheme \<Rightarrow> 'a plan_world_scheme" where
  "close_provider h w = (if is_tunnelled (snd h) then w\<lparr>pw_open := removeAll (fst h) (pw_open w)\<rparr> else w)"

text \<open>\<open>os.RemoveAll\<close> is taken to work: the code ignores the error it may return.\<close>

definition remove_dir :: "string \<Rightarrow> 'a plan_world_scheme \<Rightarrow> 'a plan_world_scheme" where
  "remove_dir d w = w\<lparr>pw_dirs := removeAll d (pw_dirs w)\<rparr>"

definition staging_location :: "string \<Rightarrow> data_location" where
  "staging_location dir =
     \<lparr>dl_StorageType = StorageTypeFilesystem, dl_Path = dir,
      dl_Filesystem = Some \<lparr>fa_AccessType = AccessTypeLocal, fa_SSH = None, fa_Rsync = None\<rparr>,
      dl_ObjectStorage = None, dl_Filter = None, dl_PreCmd = [], dl_PostCmd = []\<rparr>"

definition new_staging_location ::
  "'a plan_world_scheme plan_env \<Rightarrow> string \<Rightarrow> 'a plan_world_scheme \<Rightarrow>
   (plan_failure + data_location \<times> ('a plan_world_scheme \<Rightarrow> 'a plan_world_scheme)) \<times> 'a plan_world_scheme" where
  "new_staging_location env stagingDir w =
     (let root = storage_staging_path (en_tmp env) stagingDir
      in case en_mkdirs env root of
           Some e \<Rightarrow> (Inl (StagingRoot e), w)
         | None \<Rightarrow>
             (case en_temp env root (pw_dirs w) of
                Inl e \<Rightarrow> (Inl (StagingDirectory e), w)
              | Inr dir \<Rightarrow> (Inr (staging_location dir, remove_dir dir), w\<lparr>pw_dirs := dir # pw_dirs w\<rparr>)))"

definition with_providers ::
  "('a plan_world_scheme \<Rightarrow> 'a plan_world_scheme) option \<Rightarrow> held list \<Rightarrow> ('a plan_world_scheme \<Rightarrow> 'a plan_world_scheme) option" where
  "with_providers cleanup providers =
     (let tunnels = filter (\<lambda>h. is_tunnelled (snd h)) providers
      in if tunnels = [] then cleanup
         else Some (\<lambda>w. (case cleanup of None \<Rightarrow> id | Some f \<Rightarrow> f) (fold close_provider tunnels w)))"

section \<open>Rsync executors\<close>

definition determine_transfer_mode :: "data_location \<Rightarrow> data_location \<Rightarrow> plan_failure + transfer_mode" where
  "determine_transfer_mode src dst =
     (if has_ssh src \<and> has_ssh dst then Inr ModeAgentForward
      else if has_ssh src \<and> \<not> has_ssh dst then Inr ModePull
      else if \<not> has_ssh src \<and> has_ssh dst then Inr ModePush
      else Inl LocalToLocal)"

definition rsync_options :: "data_location \<Rightarrow> rsync_option list" where
  "rsync_options loc =
     (case dl_Filesystem loc of None \<Rightarrow> [] | Some f \<Rightarrow> (case fa_Rsync f of None \<Rightarrow> [] | Some opt \<Rightarrow> [opt]))"

definition merge_rsync_option :: "rsync_option \<Rightarrow> rsync_executor \<Rightarrow> rsync_executor" where
  "merge_rsync_option opt e =
     e\<lparr>re_DeleteExtraneous := re_DeleteExtraneous e \<or> ro_Delete opt,
       re_Verbose := re_Verbose e \<or> ro_Verbose opt, re_DryRun := re_DryRun e \<or> ro_DryRun opt\<rparr>"

definition new_rsync_executor :: "data_location \<Rightarrow> data_location \<Rightarrow> plan_failure + rsync_executor" where
  "new_rsync_executor src dst =
     bind_res (determine_transfer_mode src dst) (\<lambda>mode.
       Inr (fold merge_rsync_option
              (rsync_options src @ rsync_options dst)
              \<lparr>re_Mode = mode, re_DeleteExtraneous = False, re_DryRun = False, re_Verbose = False, re_AdditionalArgs = []\<rparr>))"

section \<open>The routes\<close>

abbreviation PipelineFilesystemTransfer :: string where "PipelineFilesystemTransfer \<equiv> ''filesystem-transfer''"
abbreviation PipelineObjectStorageTransfer :: string where "PipelineObjectStorageTransfer \<equiv> ''objectstorage-transfer''"
abbreviation PipelineCrossStorageTransfer :: string where "PipelineCrossStorageTransfer \<equiv> ''cross-storage-transfer''"

definition plan_step ::
  "'w plan_env \<Rightarrow> string \<Rightarrow> data_location \<Rightarrow> data_location \<Rightarrow> storage_exec \<Rightarrow> (data_location, 'w) step" where
  "plan_step env name src dst ex =
     \<lparr>st_Name = name, st_Source = src, st_Destination = dst, st_Executor = en_exec env ex\<rparr>"

text \<open>The size check of a pipeline: the closure reads the listing when the pipeline runs.\<close>

definition preflight_of ::
  "'w plan_env \<Rightarrow> held \<Rightarrow> string \<Rightarrow> ('w \<Rightarrow> string + sized_item list) \<Rightarrow> ('w \<Rightarrow> string option \<times> 'w) option" where
  "preflight_of env dst noun listing =
     (if is_multipart_uploader (snd dst) then None
      else Some (\<lambda>w. (case single_put_preflight (en_csp env) (snd dst) noun (listing w) of
                        None \<Rightarrow> (None, w)
                      | Some f \<Rightarrow> (map_option (en_text env) (f ()), w))))"

definition object_listing :: "'w plan_env \<Rightarrow> data_location \<Rightarrow> held \<Rightarrow> 'w \<Rightarrow> string + sized_item list" where
  "object_listing env src h w = bind_res (en_list_objects env h (key_prefix src) w) (\<lambda>os. Inr (object_sizes (en_rx env) src os))"

definition file_listing :: "'w plan_env \<Rightarrow> data_location \<Rightarrow> 'w \<Rightarrow> string + sized_item list" where
  "file_listing env src w = bind_res (en_list_files env src w) (\<lambda>fs. Inr (fs_sizes (en_rx env) src fs))"

type_synonym 'a planned = "(plan_failure + 'a plan_world_scheme transfer) \<times> 'a plan_world_scheme"

definition plan_relay_filesystem ::
  "'a plan_world_scheme plan_env \<Rightarrow> storage_migration_model \<Rightarrow> 'a plan_world_scheme \<Rightarrow> 'a planned" where
  "plan_relay_filesystem env m w =
     (case new_staging_location env (smm_StagingDir m) w of
        (Inl e, w1) \<Rightarrow> (Inl e, w1)
      | (Inr (staging, cleanup), w1) \<Rightarrow>
          (case new_rsync_executor (smm_Source m) staging of
             Inl e \<Rightarrow> (Inl e, cleanup w1)
           | Inr pull \<Rightarrow>
               (case new_rsync_executor staging (smm_Destination m) of
                  Inl e \<Rightarrow> (Inl e, cleanup w1)
                | Inr push \<Rightarrow>
                    (Inr \<lparr>pl_Name = PipelineFilesystemTransfer, pl_Strategy = smm_Strategy m,
                          pl_Steps = [plan_step env ''pull-to-staging'' (smm_Source m) staging (RsyncExec pull),
                                      plan_step env ''push-from-staging'' staging (smm_Destination m) (RsyncExec push)],
                          pl_Cleanup = Some cleanup, pl_Preflight = None\<rparr>, w1))))"

definition plan_filesystem ::
  "'a plan_world_scheme plan_env \<Rightarrow> storage_migration_model \<Rightarrow> 'a plan_world_scheme \<Rightarrow> 'a planned" where
  "plan_filesystem env m w =
     (if has_ssh (smm_Source m) \<and> has_ssh (smm_Destination m) \<and> smm_Strategy m = StrategyRelay
      then plan_relay_filesystem env m w
      else (case new_rsync_executor (smm_Source m) (smm_Destination m) of
              Inl e \<Rightarrow> (Inl e, w)
            | Inr ex \<Rightarrow>
                (Inr \<lparr>pl_Name = PipelineFilesystemTransfer, pl_Strategy = smm_Strategy m,
                      pl_Steps = [plan_step env ''rsync-transfer'' (smm_Source m) (smm_Destination m) (RsyncExec ex)],
                      pl_Cleanup = None, pl_Preflight = None\<rparr>, w)))"

definition plan_relay_object_storage ::
  "'a plan_world_scheme plan_env \<Rightarrow> storage_migration_model \<Rightarrow> 'a plan_world_scheme \<Rightarrow> 'a planned" where
  "plan_relay_object_storage env m w =
     (case new_staging_location env (smm_StagingDir m) w of
        (Inl e, w1) \<Rightarrow> (Inl e, w1)
      | (Inr (staging, cleanup), w1) \<Rightarrow>
          (case open_provider env (smm_Source m) w1 of
             (Inl e, w2) \<Rightarrow> (Inl (SourceProvider e), cleanup w2)
           | (Inr src, w2) \<Rightarrow>
               (case open_provider env (smm_Destination m) w2 of
                  (Inl e, w3) \<Rightarrow> (Inl (DestinationProvider e), cleanup (close_provider src w3))
                | (Inr dst, w3) \<Rightarrow>
                    (Inr \<lparr>pl_Name = PipelineObjectStorageTransfer, pl_Strategy = smm_Strategy m,
                          pl_Steps = [plan_step env ''download-from-s3'' (smm_Source m) staging (S3Exec src),
                                      plan_step env ''upload-to-s3'' staging (smm_Destination m) (S3Exec dst)],
                          pl_Cleanup = with_providers (Some cleanup) [src, dst],
                          pl_Preflight = preflight_of env dst ''object'' (object_listing env (smm_Source m) src)\<rparr>, w3))))"

definition plan_object_storage ::
  "'a plan_world_scheme plan_env \<Rightarrow> storage_migration_model \<Rightarrow> 'a plan_world_scheme \<Rightarrow> 'a planned" where
  "plan_object_storage env m w =
     (if smm_Strategy m = StrategyRelay then plan_relay_object_storage env m w
      else (case open_provider env (smm_Source m) w of
              (Inl e, w1) \<Rightarrow> (Inl (SourceProvider e), w1)
            | (Inr src, w1) \<Rightarrow>
                (case open_provider env (smm_Destination m) w1 of
                   (Inl e, w2) \<Rightarrow> (Inl (DestinationProvider e), close_provider src w2)
                 | (Inr dst, w2) \<Rightarrow>
                     (Inr \<lparr>pl_Name = PipelineObjectStorageTransfer, pl_Strategy = StrategyDirect,
                           pl_Steps = [plan_step env ''stream-s3-to-s3'' (smm_Source m) (smm_Destination m) (S3StreamExec src dst)],
                           pl_Cleanup = with_providers None [src, dst],
                           pl_Preflight = preflight_of env dst ''object'' (object_listing env (smm_Source m) src)\<rparr>, w2))))"

definition plan_filesystem_to_object_storage ::
  "'a plan_world_scheme plan_env \<Rightarrow> storage_migration_model \<Rightarrow> 'a plan_world_scheme \<Rightarrow> 'a planned" where
  "plan_filesystem_to_object_storage env m w =
     (case open_provider env (smm_Destination m) w of
        (Inl e, w1) \<Rightarrow> (Inl (DestinationProvider e), w1)
      | (Inr dst, w1) \<Rightarrow>
          (let preflight = preflight_of env dst ''file'' (file_listing env (smm_Source m))
           in if is_local (smm_Source m) then
                (Inr \<lparr>pl_Name = PipelineCrossStorageTransfer, pl_Strategy = smm_Strategy m,
                      pl_Steps = [plan_step env ''upload-to-s3'' (smm_Source m) (smm_Destination m) (S3Exec dst)],
                      pl_Cleanup = with_providers None [dst], pl_Preflight = preflight\<rparr>, w1)
              else
                (case new_staging_location env (smm_StagingDir m) w1 of
                   (Inl e, w2) \<Rightarrow> (Inl e, close_provider dst w2)
                 | (Inr (staging, cleanup), w2) \<Rightarrow>
                     (case new_rsync_executor (smm_Source m) staging of
                        Inl e \<Rightarrow> (Inl e, cleanup (close_provider dst w2))
                      | Inr ex \<Rightarrow>
                          (Inr \<lparr>pl_Name = PipelineCrossStorageTransfer, pl_Strategy = smm_Strategy m,
                                pl_Steps = [plan_step env ''rsync-from-server'' (smm_Source m) staging (RsyncExec ex),
                                            plan_step env ''upload-to-s3'' staging (smm_Destination m) (S3Exec dst)],
                                pl_Cleanup = with_providers (Some cleanup) [dst], pl_Preflight = preflight\<rparr>, w2)))))"

definition plan_object_storage_to_filesystem ::
  "'a plan_world_scheme plan_env \<Rightarrow> storage_migration_model \<Rightarrow> 'a plan_world_scheme \<Rightarrow> 'a planned" where
  "plan_object_storage_to_filesystem env m w =
     (case open_provider env (smm_Source m) w of
        (Inl e, w1) \<Rightarrow> (Inl (SourceProvider e), w1)
      | (Inr src, w1) \<Rightarrow>
          (if is_local (smm_Destination m) then
             (Inr \<lparr>pl_Name = PipelineCrossStorageTransfer, pl_Strategy = smm_Strategy m,
                   pl_Steps = [plan_step env ''download-from-s3'' (smm_Source m) (smm_Destination m) (S3Exec src)],
                   pl_Cleanup = with_providers None [src], pl_Preflight = None\<rparr>, w1)
           else
             (case new_staging_location env (smm_StagingDir m) w1 of
                (Inl e, w2) \<Rightarrow> (Inl e, close_provider src w2)
              | (Inr (staging, cleanup), w2) \<Rightarrow>
                  (case new_rsync_executor staging (smm_Destination m) of
                     Inl e \<Rightarrow> (Inl e, cleanup (close_provider src w2))
                   | Inr ex \<Rightarrow>
                       (Inr \<lparr>pl_Name = PipelineCrossStorageTransfer, pl_Strategy = smm_Strategy m,
                             pl_Steps = [plan_step env ''download-from-s3'' (smm_Source m) staging (S3Exec src),
                                         plan_step env ''rsync-to-server'' staging (smm_Destination m) (RsyncExec ex)],
                             pl_Cleanup = with_providers (Some cleanup) [src], pl_Preflight = None\<rparr>, w2)))))"

definition plan_cross_storage ::
  "'a plan_world_scheme plan_env \<Rightarrow> storage_migration_model \<Rightarrow> 'a plan_world_scheme \<Rightarrow> 'a planned" where
  "plan_cross_storage env m w =
     (if is_filesystem (smm_Source m) then plan_filesystem_to_object_storage env m w
      else plan_object_storage_to_filesystem env m w)"

definition storage_plan ::
  "'a plan_world_scheme plan_env \<Rightarrow> storage_migration_model \<Rightarrow> 'a plan_world_scheme \<Rightarrow> 'a planned" where
  "storage_plan env m w =
     (case storage_validate m of
        Some e \<Rightarrow> (Inl (PlanInvalid e), w)
      | None \<Rightarrow>
          (if is_filesystem (smm_Source m) \<and> is_filesystem (smm_Destination m) then plan_filesystem env m w
           else if is_object_storage (smm_Source m) \<and> is_object_storage (smm_Destination m) then plan_object_storage env m w
           else plan_cross_storage env m w))"

section \<open>Whatever is allocated is given back\<close>

definition same_held :: "'a plan_world_scheme \<Rightarrow> 'a plan_world_scheme \<Rightarrow> bool" where
  "same_held w w' \<longleftrightarrow> pw_dirs w' = pw_dirs w \<and> pw_open w' = pw_open w"

definition cleaned :: "'w transfer \<Rightarrow> 'w \<Rightarrow> 'w" where
  "cleaned p = (case pl_Cleanup p of None \<Rightarrow> id | Some f \<Rightarrow> f)"

text \<open>\<open>MkdirTemp\<close> creates a directory that was not there; numbers of open providers are below the next one.\<close>

definition env_ok :: "'w plan_env \<Rightarrow> bool" where
  "env_ok env \<longleftrightarrow> (\<forall>root ds d. en_temp env root ds = Inr d \<longrightarrow> d \<notin> set ds)"

definition world_ok :: "'a plan_world_scheme \<Rightarrow> bool" where
  "world_ok w \<longleftrightarrow> (\<forall>i\<in>set (pw_open w). i < pw_next w)"

definition balanced :: "'a plan_world_scheme \<Rightarrow> 'a planned \<Rightarrow> bool" where
  "balanced w r \<longleftrightarrow>
     (case fst r of
        Inl e \<Rightarrow> same_held w (snd r)
      | Inr p \<Rightarrow> (\<forall>v. same_held (snd r) v \<longrightarrow> same_held w (cleaned p v)))"

lemma close_fields [simp]:
  "pw_dirs (close_provider h w) = pw_dirs w"
  "pw_open (close_provider h w) = (if is_tunnelled (snd h) then removeAll (fst h) (pw_open w) else pw_open w)"
  by (simp_all add: close_provider_def)

lemma remove_dir_fields [simp]:
  "pw_dirs (remove_dir d w) = removeAll d (pw_dirs w)" "pw_open (remove_dir d w) = pw_open w"
  by (simp_all add: remove_dir_def)

lemma open_provider_error: "open_provider env loc w = (Inl e, w1) \<Longrightarrow> w1 = w"
  by (auto simp: open_provider_def split: sum.splits)

lemma open_provider_ok:
  assumes "open_provider env loc w = (Inr h, w1)" and "world_ok w"
  shows "fst h \<notin> set (pw_open w) \<and> pw_dirs w1 = pw_dirs w \<and> world_ok w1
    \<and> pw_open w1 = (if is_tunnelled (snd h) then fst h # pw_open w else pw_open w)
    \<and> new_s3_provider (en_sdk env) loc = Inr (snd h) \<and> pw_next w1 = Suc (fst h)"
  using assms by (auto simp: open_provider_def world_ok_def less_Suc_eq split: sum.splits)

lemma staging_error: "new_staging_location env d w = (Inl e, w1) \<Longrightarrow> w1 = w"
  by (auto simp: new_staging_location_def Let_def split: option.splits sum.splits)

lemma staging_ok:
  assumes "new_staging_location env d w = (Inr (loc, cleanup), w1)" and "env_ok env"
  obtains dir where "loc = staging_location dir" "cleanup = remove_dir dir" "dir \<notin> set (pw_dirs w)"
    "pw_dirs w1 = dir # pw_dirs w" "pw_open w1 = pw_open w" "pw_next w1 = pw_next w"
proof -
  obtain dir where dir: "en_temp env (storage_staging_path (en_tmp env) d) (pw_dirs w) = Inr dir"
      "loc = staging_location dir" "cleanup = remove_dir dir" "w1 = w\<lparr>pw_dirs := dir # pw_dirs w\<rparr>"
    using assms(1) by (auto simp: new_staging_location_def Let_def split: option.splits sum.splits)
  then show ?thesis using assms(2) by (intro that [of dir]) (auto simp: env_ok_def)
qed

lemma world_ok_same: "pw_open w1 = pw_open w \<Longrightarrow> pw_next w1 = pw_next w \<Longrightarrow> world_ok w1 = world_ok w"
  by (simp add: world_ok_def)

lemma balanced_results:
  "balanced w (Inl e, w') \<longleftrightarrow> same_held w w'"
  "balanced w (Inr p, w') \<longleftrightarrow> (\<forall>v. same_held w' v \<longrightarrow> same_held w (cleaned p v))"
  by (simp_all add: balanced_def)

lemmas balance_simps = balanced_results same_held_def cleaned_def with_providers_def

lemma plan_relay_filesystem_balanced:
  assumes "env_ok env"
  shows "balanced w (plan_relay_filesystem env m w)"
proof -
  obtain r w1 where st: "new_staging_location env (smm_StagingDir m) w = (r, w1)" by (meson surj_pair)
  show ?thesis
  proof (cases r)
    case (Inl e)
    then show ?thesis using st staging_error by (fastforce simp: plan_relay_filesystem_def balance_simps)
  next
    case (Inr lc)
    then obtain staging cleanup where lc: "lc = (staging, cleanup)" by (meson surj_pair)
    from st [unfolded Inr lc] show ?thesis
      by (rule staging_ok [OF _ assms])
         (simp add: plan_relay_filesystem_def st Inr lc balance_simps split: sum.split)
  qed
qed

lemma plan_filesystem_balanced:
  assumes "env_ok env"
  shows "balanced w (plan_filesystem env m w)"
  unfolding plan_filesystem_def
  by (cases "new_rsync_executor (smm_Source m) (smm_Destination m)")
     (simp_all add: plan_relay_filesystem_balanced [OF assms] balance_simps)

text \<open>A provider opened in a good world, closed in a world that holds what the plan left.\<close>

lemma open_cases:
  assumes "world_ok w"
  obtains (failed) e where "open_provider env loc w = (Inl e, w)"
  | (opened) h w1 where "open_provider env loc w = (Inr h, w1)" "fst h \<notin> set (pw_open w)" "pw_dirs w1 = pw_dirs w"
      "world_ok w1" "pw_open w1 = (if is_tunnelled (snd h) then fst h # pw_open w else pw_open w)" "pw_next w1 = Suc (fst h)"
proof -
  obtain r w1 where "open_provider env loc w = (r, w1)" by (meson surj_pair)
  then show ?thesis
    by (cases r) (auto dest: open_provider_error open_provider_ok [OF _ assms] intro: failed opened)
qed

lemma staging_cases:
  assumes "env_ok env"
  obtains (failed) e where "new_staging_location env d w = (Inl e, w)"
  | (made) dir w1 where "new_staging_location env d w = (Inr (staging_location dir, remove_dir dir), w1)" "dir \<notin> set (pw_dirs w)"
      "pw_dirs w1 = dir # pw_dirs w" "pw_open w1 = pw_open w" "pw_next w1 = pw_next w"
proof -
  obtain r w1 where r: "new_staging_location env d w = (r, w1)" by (meson surj_pair)
  show ?thesis
  proof (cases r)
    case (Inl e)
    then show ?thesis using r staging_error failed by metis
  next
    case (Inr lc)
    obtain l c where "lc = (l, c)" by (meson surj_pair)
    with r Inr show ?thesis by (metis staging_ok [OF _ assms] made)
  qed
qed

lemma plan_direct_object_storage_balanced:
  assumes "world_ok w" and "smm_Strategy m \<noteq> StrategyRelay"
  shows "balanced w (plan_object_storage env m w)"
proof (rule open_cases [OF assms(1), of env "smm_Source m"])
  fix h w1
  assume src: "open_provider env (smm_Source m) w = (Inr h, w1)" "fst h \<notin> set (pw_open w)" "pw_dirs w1 = pw_dirs w"
      "world_ok w1" "pw_open w1 = (if is_tunnelled (snd h) then fst h # pw_open w else pw_open w)" "pw_next w1 = Suc (fst h)"
  show ?thesis
    by (rule open_cases [OF src(4), of env "smm_Destination m"])
       (use assms(2) src in \<open>auto simp: plan_object_storage_def balance_simps split: if_splits\<close>)
qed (use assms(2) in \<open>simp add: plan_object_storage_def balance_simps\<close>)

lemma plan_relay_object_storage_balanced:
  assumes "env_ok env" and "world_ok w"
  shows "balanced w (plan_relay_object_storage env m w)"
proof (rule staging_cases [OF assms(1), of "smm_StagingDir m" w])
  fix dir w1
  assume st: "new_staging_location env (smm_StagingDir m) w = (Inr (staging_location dir, remove_dir dir), w1)" "dir \<notin> set (pw_dirs w)"
      "pw_dirs w1 = dir # pw_dirs w" "pw_open w1 = pw_open w" "pw_next w1 = pw_next w"
  have ok: "world_ok w1" using assms(2) st(4,5) by (simp add: world_ok_def)
  show ?thesis
  proof (rule open_cases [OF ok, of env "smm_Source m"])
    fix h w2
    assume src: "open_provider env (smm_Source m) w1 = (Inr h, w2)" "fst h \<notin> set (pw_open w1)" "pw_dirs w2 = pw_dirs w1"
        "world_ok w2" "pw_open w2 = (if is_tunnelled (snd h) then fst h # pw_open w1 else pw_open w1)" "pw_next w2 = Suc (fst h)"
    show ?thesis
      by (rule open_cases [OF src(4), of env "smm_Destination m"])
         (use st src in \<open>auto simp: plan_relay_object_storage_def balance_simps split: if_splits\<close>)
  qed (use st in \<open>simp add: plan_relay_object_storage_def balance_simps\<close>)
qed (simp add: plan_relay_object_storage_def balance_simps)

lemma plan_cross_storage_balanced:
  assumes "env_ok env" and "world_ok w"
  shows "balanced w (plan_filesystem_to_object_storage env m w)" and "balanced w (plan_object_storage_to_filesystem env m w)"
proof -
  show "balanced w (plan_filesystem_to_object_storage env m w)"
  proof (rule open_cases [OF assms(2), of env "smm_Destination m"])
    fix h w1
    assume dst: "open_provider env (smm_Destination m) w = (Inr h, w1)" "fst h \<notin> set (pw_open w)" "pw_dirs w1 = pw_dirs w"
        "world_ok w1" "pw_open w1 = (if is_tunnelled (snd h) then fst h # pw_open w else pw_open w)" "pw_next w1 = Suc (fst h)"
    show ?thesis
      by (rule staging_cases [OF assms(1), of "smm_StagingDir m" w1])
         (use dst in \<open>auto simp: plan_filesystem_to_object_storage_def balance_simps Let_def split: if_splits sum.splits\<close>)
  qed (simp add: plan_filesystem_to_object_storage_def balance_simps)
  show "balanced w (plan_object_storage_to_filesystem env m w)"
  proof (rule open_cases [OF assms(2), of env "smm_Source m"])
    fix h w1
    assume src: "open_provider env (smm_Source m) w = (Inr h, w1)" "fst h \<notin> set (pw_open w)" "pw_dirs w1 = pw_dirs w"
        "world_ok w1" "pw_open w1 = (if is_tunnelled (snd h) then fst h # pw_open w else pw_open w)" "pw_next w1 = Suc (fst h)"
    show ?thesis
      by (rule staging_cases [OF assms(1), of "smm_StagingDir m" w1])
         (use src in \<open>auto simp: plan_object_storage_to_filesystem_def balance_simps split: if_splits sum.splits\<close>)
  qed (simp add: plan_object_storage_to_filesystem_def balance_simps)
qed

lemma storage_plan_balanced:
  assumes "env_ok env" and "world_ok w"
  shows "balanced w (storage_plan env m w)"
proof (cases "storage_validate m")
  case None
  have "balanced w (plan_object_storage env m w)"
  proof (cases "smm_Strategy m = StrategyRelay")
    case True
    then show ?thesis using plan_relay_object_storage_balanced [OF assms] by (simp add: plan_object_storage_def)
  qed (rule plan_direct_object_storage_balanced [OF assms(2)])
  then show ?thesis
    using None plan_filesystem_balanced [OF assms(1)] plan_cross_storage_balanced [OF assms]
    by (simp add: storage_plan_def plan_cross_storage_def)
qed (simp add: storage_plan_def balance_simps)

section \<open>A planned transfer, run to its end\<close>

definition quiet :: "'a plan_world_scheme transfer \<Rightarrow> bool" where
  "quiet p \<longleftrightarrow> (\<forall>s\<in>set (pl_Steps p). \<forall>c a b v. same_held v (snd (st_Executor s c a b v)))
     \<and> (\<forall>f v. pl_Preflight p = Some f \<longrightarrow> same_held v (snd (f v)))"

definition keeps_held :: "'a plan_world_scheme plan_env \<Rightarrow> bool" where
  "keeps_held env \<longleftrightarrow> (\<forall>ex c a b v. same_held v (snd (en_exec env ex c a b v)))"

lemma same_held_trans: "same_held u v \<Longrightarrow> same_held v w \<Longrightarrow> same_held u w"
  by (simp add: same_held_def)

lemma same_held_refl [simp]: "same_held w w"
  by (simp add: same_held_def)

lemma run_steps_quiet:
  "(\<forall>s\<in>set ss. \<forall>c a b v. same_held v (snd (st_Executor s c a b v))) \<Longrightarrow> same_held w (snd (run_steps ctx i n ss w))"
proof (induction ss arbitrary: i w)
  case (Cons s ss)
  obtain r w1 where ex: "st_Executor s (Suc i, n) (st_Source s) (st_Destination s) w = (r, w1)" by (meson surj_pair)
  have "same_held w w1" using Cons.prems ex by (metis list.set_intros(1) snd_conv)
  moreover have "same_held w1 (snd (run_steps ctx (Suc i) n ss w1))" using Cons by simp
  ultimately show ?case using same_held_trans by (cases "ctx w"; cases r) (auto simp: ex)
qed simp

lemma pipeline_quiet:
  assumes "quiet p"
  obtains v where "snd (pipeline_execute ctx p w) = cleaned p v" "same_held w v"
proof (cases "pl_Preflight p")
  case None
  then have "snd (pipeline_execute ctx p w) = cleaned p (snd (run_steps ctx 0 (length (pl_Steps p)) (pl_Steps p) w))"
    by (simp add: pipeline_execute_def cleaned_def case_prod_unfold Let_def)
  then show thesis using that run_steps_quiet assms unfolding quiet_def by blast
next
  case (Some f)
  have f: "same_held w (snd (f w))" using assms Some by (simp add: quiet_def)
  let ?v = "snd (run_steps ctx 0 (length (pl_Steps p)) (pl_Steps p) (snd (f w)))"
  have "same_held w ?v" using f same_held_trans run_steps_quiet assms unfolding quiet_def by blast
  moreover have "snd (pipeline_execute ctx p w) = (if fst (f w) = None then cleaned p ?v else cleaned p (snd (f w)))"
    using Some by (simp add: pipeline_execute_def cleaned_def case_prod_unfold Let_def split: option.split)
  ultimately show thesis using that f by (cases "fst (f w) = None") auto
qed

lemma plan_step_quiet: "keeps_held env \<Longrightarrow> same_held v (snd (st_Executor (plan_step env name a b ex) c x y v))"
  by (cases c) (simp add: keeps_held_def plan_step_def)

lemma preflight_quiet: "preflight_of env h noun listing = Some f \<Longrightarrow> same_held v (snd (f v))"
  by (auto simp: preflight_of_def split: if_splits option.splits)

lemmas route_defs = plan_filesystem_def plan_relay_filesystem_def plan_object_storage_def plan_relay_object_storage_def
  plan_cross_storage_def plan_filesystem_to_object_storage_def plan_object_storage_to_filesystem_def Let_def

lemma storage_plan_quiet:
  assumes "keeps_held env" and "storage_plan env m w = (Inr p, w1)"
  shows "quiet p"
proof -
  note facts = plan_step_quiet [OF assms(1)] preflight_quiet
  have "fst (plan_filesystem env m w) = Inr p \<Longrightarrow> quiet p" "fst (plan_object_storage env m w) = Inr p \<Longrightarrow> quiet p"
    "fst (plan_cross_storage env m w) = Inr p \<Longrightarrow> quiet p"
    by (auto simp: route_defs quiet_def split: sum.splits prod.splits if_splits intro: facts)
  then show ?thesis using assms(2) by (auto simp: storage_plan_def split: option.splits if_splits)
qed

text \<open>
  C21: A storage transfer leaves nothing behind: whether it cannot be planned, fails its size
  check, stops at a step, is cancelled or completes, the staging directories and the open
  tunnels afterwards are those there were before, provided no step touches them itself and a
  directory that is removed is gone: the code does not look at what \<open>os.RemoveAll\<close> answers.
\<close>

theorem transfer_leaves_nothing_behind:
  assumes "env_ok env" and "world_ok w" and "keeps_held env"
  shows "same_held w (case storage_plan env m w of (Inl e, w1) \<Rightarrow> w1 | (Inr p, w1) \<Rightarrow> snd (pipeline_execute ctx p w1))"
proof -
  obtain r w1 where plan: "storage_plan env m w = (r, w1)" by (meson surj_pair)
  have bal: "balanced w (r, w1)" using storage_plan_balanced [OF assms(1,2), of m] by (simp add: plan)
  show ?thesis
  proof (cases r)
    case (Inl e)
    then show ?thesis using bal by (simp add: plan balanced_results)
  next
    case (Inr p)
    have "quiet p" using storage_plan_quiet [OF assms(3)] plan Inr by blast
    then obtain v where "snd (pipeline_execute ctx p w1) = cleaned p v" "same_held w1 v" by (rule pipeline_quiet)
    then show ?thesis using bal Inr by (simp add: plan balanced_results)
  qed
qed

section \<open>The steps of a plan\<close>

fun linked :: "data_location \<Rightarrow> (data_location, 'w) step list \<Rightarrow> data_location \<Rightarrow> bool" where
  "linked a [] b = (a = b)"
| "linked a (s # ss) b = (st_Source s = a \<and> linked (st_Destination s) ss b)"

text \<open>What an executor needs of the two ends of its step.\<close>

fun accepts :: "sdk \<Rightarrow> storage_exec \<Rightarrow> data_location \<Rightarrow> data_location \<Rightarrow> bool" where
  "accepts sdk (RsyncExec r) src dst = (determine_transfer_mode src dst = Inr (re_Mode r))"
| "accepts sdk (S3Exec h) src dst =
     (case s3_direction src dst of
        Inl e \<Rightarrow> False
      | Inr Upload \<Rightarrow> new_s3_provider sdk dst = Inr (snd h)
      | Inr Download \<Rightarrow> new_s3_provider sdk src = Inr (snd h))"
| "accepts sdk (S3StreamExec h k) src dst =
     (is_object_storage src \<and> is_object_storage dst
      \<and> new_s3_provider sdk src = Inr (snd h) \<and> new_s3_provider sdk dst = Inr (snd k))"

lemma validated_storage_type:
  "validate_data_location loc c = None \<Longrightarrow> is_filesystem loc \<longleftrightarrow> \<not> is_object_storage loc"
  by (auto simp: validate_data_location_def is_filesystem_def is_object_storage_def split: if_splits)

lemma new_rsync_mode: "new_rsync_executor a b = Inr ex \<Longrightarrow> determine_transfer_mode a b = Inr (re_Mode ex)"
proof -
  have "re_Mode (fold merge_rsync_option os r) = re_Mode r" for os r
    by (induction os arbitrary: r) (auto simp: merge_rsync_option_def)
  moreover assume "new_rsync_executor a b = Inr ex"
  ultimately show ?thesis by (auto simp: new_rsync_executor_def res_inv)
qed

lemma opened_provider: "open_provider env loc w = (Inr h, w1) \<Longrightarrow> new_s3_provider (en_sdk env) loc = Inr (snd h)"
  by (auto simp: open_provider_def split: sum.splits)

lemma staged: "new_staging_location env d w = (Inr (loc, c), w1) \<Longrightarrow> \<exists>dir. loc = staging_location dir"
  by (auto simp: new_staging_location_def Let_def split: option.splits sum.splits)

lemma staging_kind [simp]: "\<not> is_object_storage (staging_location dir)" "is_filesystem (staging_location dir)"
  by (simp_all add: staging_location_def is_object_storage_def is_filesystem_def)

text \<open>A pipeline whose steps lead from one location to another through staging, each with an executor that takes it.\<close>

definition routed :: "'w plan_env \<Rightarrow> data_location \<Rightarrow> data_location \<Rightarrow> 'w transfer \<Rightarrow> bool" where
  "routed env a b p \<longleftrightarrow>
     linked a (pl_Steps p) b
   \<and> list_all (\<lambda>s. \<exists>dir. st_Destination s = staging_location dir) (butlast (pl_Steps p))
   \<and> (\<exists>exs. map st_Executor (pl_Steps p) = map (en_exec env) exs
        \<and> list_all2 (\<lambda>s ex. accepts (en_sdk env) ex (st_Source s) (st_Destination s)) (pl_Steps p) exs)"

lemma routed_one: "pl_Steps p = [plan_step env n a b ex] \<Longrightarrow> accepts (en_sdk env) ex a b \<Longrightarrow> routed env a b p"
  unfolding routed_def by (auto simp: plan_step_def intro: exI [of _ "[ex]"])

lemma routed_two:
  "pl_Steps p = [plan_step env n a (staging_location d) ex, plan_step env n' (staging_location d) b ex'] \<Longrightarrow>
     accepts (en_sdk env) ex a (staging_location d) \<Longrightarrow> accepts (en_sdk env) ex' (staging_location d) b \<Longrightarrow> routed env a b p"
  unfolding routed_def by (auto simp: plan_step_def intro: exI [of _ "[ex, ex']"])

lemma plan_filesystem_route:
  assumes "plan_filesystem env m w = (Inr p, w1)"
  shows "routed env (smm_Source m) (smm_Destination m) p"
  using assms
  by (auto simp: plan_filesystem_def plan_relay_filesystem_def split: sum.splits prod.splits if_splits
      dest!: staged new_rsync_mode intro: routed_one routed_two)

lemma plan_object_storage_route:
  assumes "plan_object_storage env m w = (Inr p, w1)" and "is_object_storage (smm_Source m)" "is_object_storage (smm_Destination m)"
  shows "routed env (smm_Source m) (smm_Destination m) p"
proof (cases "smm_Strategy m = StrategyRelay")
  case True
  then show ?thesis using assms
    by (auto simp: plan_object_storage_def plan_relay_object_storage_def s3_direction_def split: sum.splits prod.splits if_splits
        dest!: staged opened_provider intro!: routed_two)
next
  case False
  then show ?thesis using assms
    by (auto simp: plan_object_storage_def split: sum.splits prod.splits dest!: opened_provider intro!: routed_one)
qed

lemma plan_cross_storage_route:
  assumes "plan_cross_storage env m w = (Inr p, w1)"
    and "is_filesystem (smm_Source m) \<longleftrightarrow> \<not> is_object_storage (smm_Source m)"
    and "is_filesystem (smm_Destination m) \<longleftrightarrow> \<not> is_object_storage (smm_Destination m)"
    and "is_object_storage (smm_Source m) \<longleftrightarrow> \<not> is_object_storage (smm_Destination m)"
  shows "routed env (smm_Source m) (smm_Destination m) p"
proof (cases "is_filesystem (smm_Source m)")
  case True
  then show ?thesis using assms
    by (auto simp: plan_cross_storage_def plan_filesystem_to_object_storage_def s3_direction_def Let_def
        split: sum.splits prod.splits if_splits dest!: staged opened_provider new_rsync_mode intro: routed_one routed_two)
next
  case False
  then show ?thesis using assms
    by (auto simp: plan_cross_storage_def plan_object_storage_to_filesystem_def s3_direction_def
        split: sum.splits prod.splits if_splits dest!: staged opened_provider new_rsync_mode intro: routed_one routed_two)
qed

text \<open>
  C22: Every planned storage transfer is a route: its first step reads the source, each later
  step reads the staging directory the step before it wrote, and the last writes the
  destination; and every step has an executor made for its two ends, so none of them fails
  by being asked for a direction it does not know or with a provider for another location.
\<close>

theorem planned_steps_form_a_route:
  assumes "storage_plan env m w = (Inr p, w1)"
  shows "routed env (smm_Source m) (smm_Destination m) p"
proof -
  have v: "storage_validate m = None" using assms by (auto simp: storage_plan_def split: option.splits)
  then have kinds: "is_filesystem (smm_Source m) \<longleftrightarrow> \<not> is_object_storage (smm_Source m)"
      "is_filesystem (smm_Destination m) \<longleftrightarrow> \<not> is_object_storage (smm_Destination m)"
    by (auto simp: storage_validate_def check_err_None_iff dest!: validated_storage_type)
  consider (fs) "is_filesystem (smm_Source m)" "is_filesystem (smm_Destination m)"
    | (os) "is_object_storage (smm_Source m)" "is_object_storage (smm_Destination m)"
    | (cross) "is_object_storage (smm_Source m) \<longleftrightarrow> \<not> is_object_storage (smm_Destination m)"
    using kinds by blast
  then show ?thesis
  proof cases
    case fs
    then have "plan_filesystem env m w = (Inr p, w1)" using assms by (simp add: storage_plan_def v)
    then show ?thesis by (rule plan_filesystem_route)
  next
    case os
    then have "plan_object_storage env m w = (Inr p, w1)" using assms kinds by (simp add: storage_plan_def v)
    then show ?thesis using os by (rule plan_object_storage_route)
  next
    case cross
    then have "plan_cross_storage env m w = (Inr p, w1)"
      using assms kinds by (cases "is_object_storage (smm_Source m)") (simp_all add: storage_plan_def v)
    then show ?thesis using kinds cross by (rule plan_cross_storage_route)
  qed
qed

definition sample_env :: "plan_world plan_env" where
  "sample_env = \<lparr>en_tmp = ''/tmp'', en_mkdirs = (\<lambda>_. None), en_temp = (\<lambda>root ds. if ds = [] then Inr ''/stage/relay-1'' else Inl ''full''),
     en_sdk = (\<lambda>_. None), en_csp = (\<lambda>_. None), en_rx = (\<lambda>_ _. True), en_exec = (\<lambda>_ _ _ _ w. (Some ''refused'', w)),
     en_list_objects = (\<lambda>_ _ _. Inr []), en_list_files = (\<lambda>_ _. Inr []), en_text = (\<lambda>_. ''too large'')\<rparr>"

definition empty_world :: plan_world where
  "empty_world = \<lparr>pw_dirs = [], pw_open = [], pw_next = 0\<rparr>"

definition ssh_location :: "string \<Rightarrow> data_location" where
  "ssh_location p = \<lparr>dl_StorageType = StorageTypeFilesystem, dl_Path = p,
     dl_Filesystem = Some \<lparr>fa_AccessType = AccessTypeSSH,
       fa_SSH = Some \<lparr>cs_Host = ''h'', cs_Port = 22, cs_Username = ''u'', cs_Password = [], cs_ConnectTimeout = 0, cs_PrivateKey = ''k'',
                      cs_PrivateKeyPath = [], cs_UseAgent = False\<rparr>, fa_Rsync = None\<rparr>,
     dl_ObjectStorage = None, dl_Filter = None, dl_PreCmd = [], dl_PostCmd = []\<rparr>"

definition relay_model :: storage_migration_model where
  "relay_model = \<lparr>smm_Source = ssh_location ''/a'', smm_Destination = ssh_location ''/b'', smm_Strategy = StrategyRelay,
     smm_StagingDir = ''/stage'', smm_Concurrency = 2, smm_EncryptionKeyID = []\<rparr>"

lemma sample_env_good: "env_ok sample_env" "world_ok empty_world" "keeps_held sample_env"
  by (auto simp: env_ok_def world_ok_def keeps_held_def sample_env_def empty_world_def)

lemma relay_valid: "storage_validate relay_model = None"
  by (simp add: storage_validate_def relay_model_def validate_data_location_def ssh_location_def
      validate_filesystem_access_def blank_def trim_space_printable printable_def validate_concurrency_def)

lemma relay_planned:
  obtains p where "storage_plan sample_env relay_model empty_world = (Inr p, empty_world\<lparr>pw_dirs := [''/stage/relay-1'']\<rparr>)"
    "map st_Name (pl_Steps p) = [''pull-to-staging'', ''push-from-staging'']"
proof -
  have kinds: "is_filesystem (ssh_location x)" "has_ssh (ssh_location x)" "\<not> has_ssh (staging_location y)" for x y
    by (simp_all add: ssh_location_def staging_location_def is_filesystem_def has_ssh_def)
  have ends: "smm_Source relay_model = ssh_location ''/a''" "smm_Destination relay_model = ssh_location ''/b''"
    "smm_Strategy relay_model = StrategyRelay" by (simp_all add: relay_model_def)
  have staging: "new_staging_location sample_env (smm_StagingDir relay_model) empty_world =
      (Inr (staging_location ''/stage/relay-1'', remove_dir ''/stage/relay-1''), empty_world\<lparr>pw_dirs := [''/stage/relay-1'']\<rparr>)"
    by (simp add: new_staging_location_def sample_env_def empty_world_def)
  obtain x y where "new_rsync_executor (ssh_location ''/a'') (staging_location ''/stage/relay-1'') = Inr x"
      "new_rsync_executor (staging_location ''/stage/relay-1'') (ssh_location ''/b'') = Inr y"
    by (simp add: new_rsync_executor_def determine_transfer_mode_def kinds)
  then show thesis
    by (intro that) (simp_all add: storage_plan_def relay_valid ends kinds plan_filesystem_def plan_relay_filesystem_def staging,
        simp add: plan_step_def)
qed

theorem planned_steps_form_a_route_witness:
  "\<exists>p w1. storage_plan sample_env relay_model empty_world = (Inr p, w1) \<and> linked (ssh_location ''/a'') (pl_Steps p) (ssh_location ''/b'')"
proof -
  obtain p w1 where p: "storage_plan sample_env relay_model empty_world = (Inr p, w1)" by (rule relay_planned)
  from planned_steps_form_a_route [OF this] have "linked (ssh_location ''/a'') (pl_Steps p) (ssh_location ''/b'')"
    by (simp add: routed_def relay_model_def)
  with p show ?thesis by blast
qed

theorem transfer_leaves_nothing_behind_witness:
  "\<exists>p w1. storage_plan sample_env relay_model empty_world = (Inr p, w1) \<and> pw_dirs w1 = [''/stage/relay-1'']
     \<and> pw_dirs (snd (pipeline_execute (\<lambda>_. None) p w1)) = []"
proof -
  obtain p where p: "storage_plan sample_env relay_model empty_world = (Inr p, empty_world\<lparr>pw_dirs := [''/stage/relay-1'']\<rparr>)"
    by (rule relay_planned)
  have "same_held empty_world (snd (pipeline_execute (\<lambda>_. None) p (empty_world\<lparr>pw_dirs := [''/stage/relay-1'']\<rparr>)))"
    using transfer_leaves_nothing_behind [OF sample_env_good, of "\<lambda>_. None" relay_model] by (simp add: p)
  then show ?thesis using p by (intro exI [of _ p] exI conjI) (auto simp: same_held_def empty_world_def)
qed

end
