(* ===== verification/StorageHandle.thy ===== *)
theory StorageHandle
  imports StoragePlan
begin

text \<open>
  One run of the storage transfer library: the progress a caller polls and the stages of the
  run (\<open>data-mig/storagex/handle.go\<close>), the commands around the transfer and the paths its
  errors name (\<open>storagex.go\<close>). A run is the list of operations it performs on its handle; the
  world is the planner's, with whether the run was cancelled and what its steps reported.
\<close>

section \<open>Progress\<close>

record storage_progress =
  tp_Status :: string
  tp_StartedAt :: int
  tp_ElapsedSec :: int
  tp_BytesTransferred :: int
  tp_FilesTransferred :: int
  tp_CurrentFile :: string
  tp_Step :: int
  tp_Steps :: int
  tp_ErrMessage :: string
  tp_Concurrency :: int
  tp_ConcurrencyNote :: string

definition zero_storage_progress :: storage_progress where
  "zero_storage_progress = \<lparr>tp_Status = [], tp_StartedAt = 0, tp_ElapsedSec = 0, tp_BytesTransferred = 0, tp_FilesTransferred = 0,
     tp_CurrentFile = [], tp_Step = 0, tp_Steps = 0, tp_ErrMessage = [], tp_Concurrency = 0, tp_ConcurrencyNote = []\<rparr>"

definition storage_progress_ops :: "storage_progress progress_ops" where
  "storage_progress_ops = \<lparr>po_GetStatus = tp_Status, po_SetStatus = (\<lambda>s p. p\<lparr>tp_Status := s\<rparr>),
     po_SetStartedAt = (\<lambda>t p. p\<lparr>tp_StartedAt := t\<rparr>), po_SetElapsed = (\<lambda>s p. p\<lparr>tp_ElapsedSec := s\<rparr>),
     po_SetError = (\<lambda>m p. p\<lparr>tp_ErrMessage := m\<rparr>)\<rparr>"

interpretation storage: progress_contract storage_progress_ops
  by unfold_locales (simp_all add: storage_progress_ops_def)

definition observe :: "update \<Rightarrow> storage_progress \<Rightarrow> storage_progress" where
  "observe u p =
     (let p1 = (if u_Step u \<noteq> tp_Step p then p\<lparr>tp_Step := u_Step u, tp_BytesTransferred := 0, tp_FilesTransferred := 0\<rparr> else p);
          p2 = p1\<lparr>tp_Steps := u_Steps u\<rparr>;
          p3 = (if u_Item u \<noteq> [] then p2\<lparr>tp_CurrentFile := u_Item u\<rparr> else p2);
          p4 = (if u_Bytes u > tp_BytesTransferred p3 then p3\<lparr>tp_BytesTransferred := u_Bytes u\<rparr> else p3);
          p5 = (if u_Files u > tp_FilesTransferred p4 then p4\<lparr>tp_FilesTransferred := u_Files u\<rparr> else p4)
      in if u_Concurrency u > 0 then p5\<lparr>tp_Concurrency := u_Concurrency u, tp_ConcurrencyNote := u_ConcurrencyNote u\<rparr> else p5)"

section \<open>Commands around the transfer\<close>

definition build_object_storage_path :: "data_location \<Rightarrow> string" where
  "build_object_storage_path loc =
     (case dl_ObjectStorage loc of
        None \<Rightarrow> dl_Path loc
      | Some a \<Rightarrow>
          (if oa_AccessType a = AccessTypeMinio then
             (case oa_Minio a of
                Some c \<Rightarrow> ''minio: '' @ s3_Endpoint c @ ''/'' @ dl_Path loc
              | None \<Rightarrow> ''minio: '' @ dl_Path loc)
           else if oa_AccessType a = AccessTypeSpider then
             (case oa_Spider a of
                Some c \<Rightarrow> ''spider: ['' @ sp_ConnectionName c @ ''] '' @ sp_Endpoint c @ ''/'' @ dl_Path loc
              | None \<Rightarrow> ''spider: '' @ dl_Path loc)
           else if oa_AccessType a = AccessTypeTumblebug then
             (case oa_Tumblebug a of
                Some c \<Rightarrow> ''tumblebug: '' @ tb_Endpoint c @ ''/ns/'' @ tb_NsId c @ ''/os/'' @ tb_OsId c @ ''/'' @ dl_Path loc
              | None \<Rightarrow> ''tumblebug: '' @ dl_Path loc)
           else dl_Path loc))"

definition build_location_path :: "data_location \<Rightarrow> string" where
  "build_location_path loc =
     (if dl_StorageType loc = StorageTypeFilesystem then
        (case dl_Filesystem loc of
           None \<Rightarrow> dl_Path loc
         | Some f \<Rightarrow>
             (case fa_SSH f of
                None \<Rightarrow> dl_Path loc
              | Some ssh \<Rightarrow>
                  (if fa_AccessType f \<noteq> AccessTypeSSH then dl_Path loc
                   else if cs_Username ssh \<noteq> [] then cs_Username ssh @ ''@'' @ cs_Host ssh @ '':'' @ dl_Path loc
                   else cs_Host ssh @ '':'' @ dl_Path loc)))
      else if dl_StorageType loc = StorageTypeObjectStorage then build_object_storage_path loc
      else dl_Path loc)"

datatype command_error =
    NoCommandOnBucket
  | NoFilesystemAccess
  | NoSSHConfig
  | CommandAccessType string
  | CommandExit string

text \<open>An operation's error: which operation, where, the command, its output and the cause.\<close>

record operation_error =
  oe_Operation :: string
  oe_Source :: string
  oe_Destination :: string
  oe_Command :: string
  oe_Output :: string
  oe_Err :: command_error

datatype stage_cause =
    ValidationFailed storage_error
  | CommandUndefined string
  | OperationFailed operation_error
  | PlanningFailed plan_failure
  | PipelineFailed pipeline_error

datatype storage_run_error = StageFailed string stage_cause | RunCancelled string

abbreviation StageBackup :: string where "StageBackup \<equiv> ''backup''"
abbreviation StageTransfer :: string where "StageTransfer \<equiv> ''transfer''"
abbreviation StageRestore :: string where "StageRestore \<equiv> ''restore''"

section \<open>The world of a run\<close>

record run_world = plan_world +
  rw_cancelled :: "string option"
  rw_reports :: "update list"

text \<open>
  What the outside does: the shell here and over ssh (output, then the exit error), and every
  executor, which yields its observations in the order it reports them and its error.
\<close>

type_synonym 'w shell = "string \<Rightarrow> 'w \<Rightarrow> (string \<times> string option) \<times> 'w"

record 'w run_env =
  rn_plan :: "'w plan_env"
  rn_local :: "'w shell"
  rn_ssh :: "core_ssh_config \<Rightarrow> 'w shell"
  rn_exec :: "storage_exec \<Rightarrow> data_location \<Rightarrow> data_location \<Rightarrow> 'w \<Rightarrow> (update list \<times> string option) \<times> 'w"
  rn_text :: "storage_run_error \<Rightarrow> string"

text \<open>\<open>withStepReporter\<close>: whatever a step reports is stamped with its place in the pipeline.\<close>

definition stamped ::
  "(data_location \<Rightarrow> data_location \<Rightarrow> 'a run_world_scheme \<Rightarrow> (update list \<times> string option) \<times> 'a run_world_scheme) \<Rightarrow>
   nat \<times> nat \<Rightarrow> data_location \<Rightarrow> data_location \<Rightarrow> 'a run_world_scheme \<Rightarrow> string option \<times> 'a run_world_scheme" where
  "stamped ex place src dst w =
     (let ((us, err), w') = ex src dst w
      in (err, w'\<lparr>rw_reports := rw_reports w @ map (step_update (fst place) (snd place)) us\<rparr>))"

definition reporting :: "'a run_world_scheme run_env \<Rightarrow> 'a run_world_scheme plan_env" where
  "reporting env = (rn_plan env)\<lparr>en_exec := (\<lambda>ex. stamped (rn_exec env ex))\<rparr>"

definition execute_command ::
  "'w run_env \<Rightarrow> string \<Rightarrow> data_location \<Rightarrow> 'w \<Rightarrow> (string \<times> command_error option) \<times> 'w" where
  "execute_command env command loc w =
     (if is_object_storage loc then (([], Some NoCommandOnBucket), w)
      else (case dl_Filesystem loc of
              None \<Rightarrow> (([], Some NoFilesystemAccess), w)
            | Some f \<Rightarrow>
                (if fa_AccessType f = AccessTypeLocal then
                   (let ((out, err), w') = rn_local env command w in ((out, map_option CommandExit err), w'))
                 else if fa_AccessType f = AccessTypeSSH then
                   (case fa_SSH f of
                      None \<Rightarrow> (([], Some NoSSHConfig), w)
                    | Some ssh \<Rightarrow> (let ((out, err), w') = rn_ssh env ssh command w in ((out, map_option CommandExit err), w')))
                 else (([], Some (CommandAccessType (fa_AccessType f))), w))))"

definition execute_pre_command :: "'w run_env \<Rightarrow> data_location \<Rightarrow> 'w \<Rightarrow> stage_cause option \<times> 'w" where
  "execute_pre_command env src w =
     (if blank (dl_PreCmd src) then (Some (CommandUndefined ''pre''), w)
      else (let ((out, err), w') = execute_command env (dl_PreCmd src) src w
            in (map_option (\<lambda>e. OperationFailed
                 \<lparr>oe_Operation = ''pre-command'', oe_Source = build_location_path src, oe_Destination = [],
                  oe_Command = dl_PreCmd src, oe_Output = out, oe_Err = e\<rparr>) err, w')))"

definition execute_post_command :: "'w run_env \<Rightarrow> data_location \<Rightarrow> 'w \<Rightarrow> stage_cause option \<times> 'w" where
  "execute_post_command env dst w =
     (if blank (dl_PostCmd dst) then (Some (CommandUndefined ''post''), w)
      else (let ((out, err), w') = execute_command env (dl_PostCmd dst) dst w
            in (map_option (\<lambda>e. OperationFailed
                 \<lparr>oe_Operation = ''post-command'', oe_Source = [], oe_Destination = build_location_path dst,
                  oe_Command = dl_PostCmd dst, oe_Output = out, oe_Err = e\<rparr>) err, w')))"

section \<open>A run\<close>

type_synonym storage_ops = "storage_progress handle_op list"

text \<open>\<open>h.fail\<close> and \<open>h.cancelled\<close>: what each records, and the error it returns.\<close>

definition fail_run ::
  "'w run_env \<Rightarrow> string \<Rightarrow> stage_cause \<Rightarrow> storage_ops \<times> storage_run_error option" where
  "fail_run env stage c = ([OpFail (rn_text env (StageFailed stage c))], Some (StageFailed stage c))"

definition check_cancelled ::
  "'a run_world_scheme run_env \<Rightarrow> 'a run_world_scheme \<Rightarrow> (storage_ops \<times> storage_run_error option) option" where
  "check_cancelled env w =
     map_option (\<lambda>e. ([OpSetStatus StatusCancelled, OpSetErr (rn_text env (RunCancelled e))], Some (RunCancelled e))) (rw_cancelled w)"

type_synonym 'a run_result = "(storage_ops \<times> storage_run_error option) \<times> 'a run_world_scheme"

definition after_ops :: "storage_ops \<Rightarrow> 'a run_result \<Rightarrow> 'a run_result" where
  "after_ops ops r = ((ops @ fst (fst r), snd (fst r)), snd r)"

definition run_post :: "'a run_world_scheme run_env \<Rightarrow> data_location \<Rightarrow> 'a run_world_scheme \<Rightarrow> 'a run_result" where
  "run_post env dst w =
     (let (err, w') = (if blank (dl_PostCmd dst) then (None, w) else execute_post_command env dst w)
      in case err of
           Some c \<Rightarrow> (fail_run env StageRestore c, w')
         | None \<Rightarrow> (([OpSetStatus StatusDone], None), w'))"

text \<open>The transfer: plan, pipeline, and the observations its steps made.\<close>

definition run_transfer ::
  "'a run_world_scheme run_env \<Rightarrow> storage_migration_model \<Rightarrow> 'a run_world_scheme \<Rightarrow> 'a run_result" where
  "run_transfer env m w =
     (case storage_plan (reporting env) m w of
        (Inl e, w1) \<Rightarrow> (fail_run env StageTransfer (PlanningFailed e), w1)
      | (Inr p, w1) \<Rightarrow>
          (let (err, w2) = pipeline_execute rw_cancelled p w1;
               seen = map (OpUpdate \<circ> observe) (drop (length (rw_reports w1)) (rw_reports w2))
           in after_ops seen
                (case check_cancelled env w2 of
                   Some r \<Rightarrow> (r, w2)
                 | None \<Rightarrow>
                     (case err of
                        Some e \<Rightarrow> (fail_run env StageTransfer (PipelineFailed e), w2)
                      | None \<Rightarrow> run_post env (smm_Destination m) w2))))"

definition storage_run ::
  "'a run_world_scheme run_env \<Rightarrow> storage_migration_model \<Rightarrow> 'a run_world_scheme \<Rightarrow> 'a run_result" where
  "storage_run env m w =
     after_ops [OpSetStatus StatusRunning]
       (case storage_validate m of
          Some e \<Rightarrow> (fail_run env StageTransfer (ValidationFailed e), w)
        | None \<Rightarrow>
            (let (err, w1) = (if blank (dl_PreCmd (smm_Source m)) then (None, w) else execute_pre_command env (smm_Source m) w)
             in case err of
                  Some c \<Rightarrow> (fail_run env StageBackup c, w1)
                | None \<Rightarrow> (case check_cancelled env w1 of Some r \<Rightarrow> (r, w1) | None \<Rightarrow> run_transfer env m w1)))"

text \<open>\<open>MigrateDataAsync\<close>, once its goroutine has finished; \<open>MigrateData\<close> is its \<open>Wait\<close>.\<close>

definition migrate_data_async ::
  "'a run_world_scheme run_env \<Rightarrow> int \<Rightarrow> storage_migration_model \<Rightarrow> 'a run_world_scheme \<Rightarrow>
   storage_progress handle \<times> 'a run_world_scheme" where
  "migrate_data_async env now m w =
     (let ((ops, err), w') = storage_run env m w
      in (handle_run storage_progress_ops (ops @ [OpFinish]) (new_handle storage_progress_ops zero_storage_progress now), w'))"

definition storage_migrate_data ::
  "'a run_world_scheme run_env \<Rightarrow> int \<Rightarrow> storage_migration_model \<Rightarrow> 'a run_world_scheme \<Rightarrow> string option option" where
  "storage_migrate_data env now m w = handle_wait (fst (migrate_data_async env now m w))"

section \<open>The lifecycle of a run\<close>

lemma observe_status [simp]: "tp_Status (observe u p) = tp_Status p"
  by (simp add: observe_def Let_def)

lemma storage_keeps [simp]:
  "storage.keeps_status (OpSetStatus s)" "storage.keeps_status (OpFail e)" "storage.keeps_status (OpSetErr e)"
  "storage.keeps_status OpFinish" "list_all storage.keeps_status (map (OpUpdate \<circ> observe) us)"
  unfolding storage.keeps_status_def by (simp_all add: storage_progress_ops_def list_all_iff)

lemma observed_writes [simp]:
  "status_writes (map (OpUpdate \<circ> observe) us) = []" "error_writes (map (OpUpdate \<circ> observe) us) = []"
  by (induction us) simp_all

text \<open>How a run may end: the statuses it writes from here and the error it returns.\<close>

definition ends_well :: "'a run_world_scheme run_env \<Rightarrow> 'a run_result \<Rightarrow> bool" where
  "ends_well env r \<longleftrightarrow>
     (let ops = fst (fst r); err = snd (fst r)
      in list_all storage.keeps_status ops
         \<and> status_writes ops = [(case err of None \<Rightarrow> StatusDone | Some (StageFailed s c) \<Rightarrow> StatusFailed | Some (RunCancelled e) \<Rightarrow> StatusCancelled)]
         \<and> error_writes ops = (case err of None \<Rightarrow> [] | Some e \<Rightarrow> [rn_text env e])
         \<and> (\<forall>e. err = Some (RunCancelled e) \<longrightarrow> rw_cancelled (snd r) = Some e))"

lemma fail_ends_well [simp]: "ends_well env (fail_run env s c, w)"
  by (simp add: ends_well_def fail_run_def)

lemma cancelled_ends_well: "check_cancelled env w = Some r \<Longrightarrow> ends_well env (r, w)"
  by (auto simp: ends_well_def check_cancelled_def)

lemma observed_ends_well: "ends_well env r \<Longrightarrow> ends_well env (after_ops (map (OpUpdate \<circ> observe) us) r)"
  by (simp add: ends_well_def after_ops_def Let_def)

lemma post_ends_well: "ends_well env (run_post env dst w)"
  by (simp add: run_post_def case_prod_unfold Let_def split: option.split) (simp add: ends_well_def)

lemma transfer_ends_well: "ends_well env (run_transfer env m w)"
  by (auto simp: run_transfer_def Let_def post_ends_well split: sum.split prod.split option.split
      intro!: observed_ends_well intro: cancelled_ends_well)

lemma storage_run_ends:
  obtains r where "storage_run env m w = after_ops [OpSetStatus StatusRunning] r" "ends_well env r"
  by (rule that, unfold storage_run_def, rule refl)
    (auto simp: Let_def transfer_ends_well split: prod.split option.split intro: cancelled_ends_well)

text \<open>
  C23: A storage run settles: its handle ends in one final status, done, failed or cancelled, which
  is the one the error it returns stands for; waiting yields that error and nothing else; and it
  is reported as cancelled only when its context was cancelled.
\<close>

theorem storage_run_settles:
  "let r = storage_run env m w; err = snd (fst r); h = fst (migrate_data_async env now m w)
   in handle_status storage_progress_ops h =
        (case err of None \<Rightarrow> StatusDone | Some (StageFailed s c) \<Rightarrow> StatusFailed | Some (RunCancelled e) \<Rightarrow> StatusCancelled)
      \<and> storage_migrate_data env now m w = Some (map_option (rn_text env) err)
      \<and> (case err of Some (RunCancelled e) \<Rightarrow> rw_cancelled (snd r) = Some e | _ \<Rightarrow> True)"
proof -
  obtain r where r: "storage_run env m w = after_ops [OpSetStatus StatusRunning] r" and ends: "ends_well env r"
    by (rule storage_run_ends)
  define ops where "ops = OpSetStatus StatusRunning # fst (fst r) @ [OpFinish]"
  have h: "fst (migrate_data_async env now m w)
      = handle_run storage_progress_ops ops (new_handle storage_progress_ops zero_storage_progress now)"
    by (simp add: migrate_data_async_def r ops_def case_prod_unfold after_ops_def)
  have keeps: "list_all storage.keeps_status ops" using ends by (simp add: ops_def ends_well_def Let_def)
  have last: "handle_status storage_progress_ops (fst (migrate_data_async env now m w)) = last (status_writes (fst (fst r)))"
    using ends by (simp only: h storage.status_last_write [OF keeps]) (simp add: ops_def ends_well_def Let_def)
  have wait: "storage_migrate_data env now m w = Some (if error_writes (fst (fst r)) = [] then None else Some (last (error_writes (fst (fst r)))))"
    by (simp add: storage_migrate_data_def handle_wait_def h handle_run_done handle_run_err ops_def new_handle_def
        del: handle_run_simps)
  show ?thesis
    using ends by (auto simp: Let_def last wait r after_ops_def ends_well_def split: option.splits storage_run_error.splits)
qed

section \<open>What the observations add up to\<close>

abbreviation high_water :: "(update \<Rightarrow> int) \<Rightarrow> update list \<Rightarrow> int" where
  "high_water f us \<equiv> Max (insert 0 (f ` set us))"

definition of_step :: "int \<Rightarrow> update list \<Rightarrow> update list" where
  "of_step k us = filter (\<lambda>u. u_Step u = k) us"

definition figures_of :: "update list \<Rightarrow> storage_progress \<Rightarrow> bool" where
  "figures_of us p \<longleftrightarrow>
     tp_Step p = (if us = [] then 0 else u_Step (last us))
     \<and> tp_BytesTransferred p = high_water u_Bytes (of_step (tp_Step p) us)
     \<and> tp_FilesTransferred p = high_water u_Files (of_step (tp_Step p) us)"

lemma observe_figures:
  "tp_Step (observe u p) = u_Step u"
  "tp_BytesTransferred (observe u p) = max (u_Bytes u) (if u_Step u = tp_Step p then tp_BytesTransferred p else 0)"
  "tp_FilesTransferred (observe u p) = max (u_Files u) (if u_Step u = tp_Step p then tp_FilesTransferred p else 0)"
  by (simp_all add: observe_def Let_def max_def)

lemma high_water_snoc: "high_water f (us @ [u]) = max (f u) (high_water f us)"
  by (simp add: insert_commute [of 0] Max_insert)

lemma figures_snoc:
  assumes "figures_of us p" and "sorted (map u_Step (us @ [u]))" and "0 < u_Step u"
  shows "figures_of (us @ [u]) (observe u p)"
proof (cases "u_Step u = tp_Step p")
  case True
  then show ?thesis using assms(1) by (auto simp: figures_of_def observe_figures of_step_def high_water_snoc simp del: set_append set_filter)
next
  case False
  have "us \<noteq> [] \<Longrightarrow> u_Step v \<le> u_Step (last us)" if "v \<in> set us" for v
    using that assms(2) by (cases us rule: rev_cases) (auto simp: sorted_append)
  moreover have "us \<noteq> [] \<Longrightarrow> u_Step (last us) < u_Step u"
    using False assms(1,2) by (cases us rule: rev_cases) (auto simp: sorted_append figures_of_def)
  ultimately have "filter (\<lambda>v. u_Step v = u_Step u) us = []"
    by (fastforce simp: filter_empty_conv)
  then show ?thesis using False by (simp add: figures_of_def observe_figures of_step_def max.commute)
qed

lemma figures_fold:
  assumes "figures_of [] p" and "sorted (map u_Step us)" and "\<forall>u\<in>set us. 0 < u_Step u"
  shows "figures_of us (fold observe us p)"
  using assms(2,3)
proof (induction us rule: rev_induct)
  case Nil
  then show ?case using assms(1) by simp
next
  case (snoc u us)
  then have "figures_of us (fold observe us p)" by (simp add: sorted_append)
  then show ?case using figures_snoc snoc.prems by simp
qed

section \<open>Where the observations come from\<close>

definition stamps :: "'a run_world_scheme transfer \<Rightarrow> bool" where
  "stamps p \<longleftrightarrow> (\<forall>s\<in>set (pl_Steps p). \<exists>ex. st_Executor s = stamped ex)
     \<and> (\<forall>f v. pl_Preflight p = Some f \<longrightarrow> rw_reports (snd (f v)) = rw_reports v)
     \<and> (\<forall>v. rw_reports (cleaned p v) = rw_reports v)"

lemma stamped_reports:
  "stamped ex (k, n) a b w = (r, w') \<Longrightarrow> \<exists>us. rw_reports w' = rw_reports w @ us \<and> (\<forall>u\<in>set us. u_Step u = int k)"
  by (auto simp: stamped_def Let_def step_update_def split: prod.splits intro!: exI)

definition legs_from :: "nat \<Rightarrow> update list \<Rightarrow> bool" where
  "legs_from i us \<longleftrightarrow> sorted (map u_Step us) \<and> (\<forall>u\<in>set us. int i < u_Step u)"

lemma legs_append:
  assumes "\<forall>u\<in>set us. u_Step u = int (Suc i)" and "legs_from (Suc i) vs"
  shows "legs_from i (us @ vs)"
proof -
  have "sorted (map u_Step us)" using assms(1) by (induction us) auto
  then show ?thesis using assms by (fastforce simp: legs_from_def sorted_append)
qed

lemma legs_one: "\<forall>u\<in>set us. u_Step u = int (Suc i) \<Longrightarrow> legs_from i us"
  using legs_append [of us i "[]"] by (simp add: legs_from_def)

lemma run_steps_legs:
  "\<forall>s\<in>set ss. \<exists>ex. st_Executor s = stamped ex \<Longrightarrow>
     \<exists>us. rw_reports (snd (run_steps ctx i n ss w)) = rw_reports w @ us \<and> legs_from i us"
proof (induction ss arbitrary: i w)
  case Nil
  then show ?case by (simp add: legs_from_def)
next
  case (Cons s ss)
  obtain r w1 where ex: "st_Executor s (Suc i, n) (st_Source s) (st_Destination s) w = (r, w1)" by (meson surj_pair)
  obtain us where us: "rw_reports w1 = rw_reports w @ us" "\<forall>u\<in>set us. u_Step u = int (Suc i)"
    using stamped_reports ex Cons.prems by (metis list.set_intros(1))
  obtain vs where vs: "rw_reports (snd (run_steps ctx (Suc i) n ss w1)) = rw_reports w1 @ vs" "legs_from (Suc i) vs"
    using Cons.IH Cons.prems by (meson list.set_intros(2))
  show ?case
  proof (cases "ctx w")
    case None
    then show ?thesis using us vs legs_append legs_one [OF us(2)] by (cases r) (auto simp: ex)
  qed (simp add: legs_from_def)
qed

lemma pipeline_legs:
  assumes "stamps p"
  shows "\<exists>us. rw_reports (snd (pipeline_execute ctx p w)) = rw_reports w @ us \<and> legs_from 0 us"
proof -
  define w1 where "w1 = (case pl_Preflight p of None \<Rightarrow> w | Some f \<Rightarrow> snd (f w))"
  have w1: "rw_reports w1 = rw_reports w" using assms by (simp add: w1_def stamps_def split: option.split)
  have "snd (pipeline_execute ctx p w) \<in> {cleaned p w1, cleaned p (snd (run_steps ctx 0 (length (pl_Steps p)) (pl_Steps p) w1))}"
    by (auto simp: pipeline_execute_def cleaned_def w1_def case_prod_unfold Let_def split: option.split)
  moreover have "rw_reports (cleaned p v) = rw_reports v" for v using assms by (simp add: stamps_def)
  moreover have "legs_from 0 []" by (simp add: legs_from_def)
  moreover have "\<exists>us. rw_reports (snd (run_steps ctx 0 (length (pl_Steps p)) (pl_Steps p) w1)) = rw_reports w @ us \<and> legs_from 0 us"
    using run_steps_legs assms w1 unfolding stamps_def by metis
  ultimately show ?thesis using w1 by auto
qed

lemma close_reports [simp]: "rw_reports (close_provider h w) = rw_reports w"
  by (simp add: close_provider_def)

lemma fold_close_reports [simp]: "rw_reports (fold close_provider hs w) = rw_reports w"
  by (induction hs arbitrary: w) simp_all

lemma open_reports [dest]: "open_provider env loc w = (r, w1) \<Longrightarrow> rw_reports w1 = rw_reports w"
  by (auto simp: open_provider_def split: sum.splits)

lemma staging_reports: "new_staging_location env d w = (r, w1) \<Longrightarrow> rw_reports w1 = rw_reports w"
  "new_staging_location env d w = (Inr (loc, c), w1) \<Longrightarrow> rw_reports (c v) = rw_reports v"
  by (auto simp: new_staging_location_def remove_dir_def Let_def split: sum.splits option.splits)

lemma plan_step_stamped: "\<exists>ex'. st_Executor (plan_step (reporting env) name a b ex) = stamped ex'"
  by (auto simp: plan_step_def reporting_def)

lemma preflight_silent: "preflight_of env h noun listing = Some f \<Longrightarrow> rw_reports (snd (f v)) = rw_reports v"
  by (auto simp: preflight_of_def split: if_splits option.splits)

lemma with_providers_reports:
  "rw_reports ((case with_providers None hs of None \<Rightarrow> id | Some f \<Rightarrow> f) v) = rw_reports v"
  "new_staging_location env d w = (Inr (loc, c), w1) \<Longrightarrow>
     rw_reports ((case with_providers (Some c) hs of None \<Rightarrow> id | Some f \<Rightarrow> f) v) = rw_reports v"
  using staging_reports(2) [of env d w loc c w1] by (auto simp: with_providers_def Let_def split: option.splits)

lemmas stamp_facts = plan_step_stamped preflight_silent with_providers_reports staging_reports

lemma relay_stamps: "fst (plan_relay_object_storage (reporting env) m w) = Inr p \<Longrightarrow> stamps p"
  by (auto simp: plan_relay_object_storage_def stamps_def cleaned_def split: sum.splits prod.splits intro: stamp_facts)

lemma cross_stamps:
  "fst (plan_filesystem_to_object_storage (reporting env) m w) = Inr p \<Longrightarrow> stamps p"
  "fst (plan_object_storage_to_filesystem (reporting env) m w) = Inr p \<Longrightarrow> stamps p"
  by (auto simp: plan_filesystem_to_object_storage_def plan_object_storage_to_filesystem_def Let_def stamps_def cleaned_def
      split: sum.splits prod.splits if_splits intro: stamp_facts)

lemma storage_plan_stamps:
  assumes "storage_plan (reporting env) m w = (Inr p, w1)"
  shows "stamps p"
proof -
  have "fst (plan_filesystem (reporting env) m w) = Inr p \<Longrightarrow> stamps p"
    by (auto simp: plan_filesystem_def plan_relay_filesystem_def stamps_def cleaned_def
        split: sum.splits prod.splits if_splits intro: stamp_facts)
  moreover have "fst (plan_object_storage (reporting env) m w) = Inr p \<Longrightarrow> stamps p"
  proof (cases "smm_Strategy m = StrategyRelay")
    case False
    then show "fst (plan_object_storage (reporting env) m w) = Inr p \<Longrightarrow> stamps p"
      by (auto simp: plan_object_storage_def stamps_def cleaned_def split: sum.splits prod.splits intro: stamp_facts)
  qed (simp add: plan_object_storage_def relay_stamps)
  moreover have "fst (plan_cross_storage (reporting env) m w) = Inr p \<Longrightarrow> stamps p"
    by (simp add: plan_cross_storage_def cross_stamps split: if_splits)
  ultimately show ?thesis using assms by (auto simp: storage_plan_def split: option.splits if_splits)
qed

lemma storage_plan_reports: "rw_reports (snd (storage_plan env m w)) = rw_reports w"
proof -
  have "rw_reports (snd (plan_filesystem env m w)) = rw_reports w"
    "rw_reports (snd (plan_object_storage env m w)) = rw_reports w"
    "rw_reports (snd (plan_cross_storage env m w)) = rw_reports w"
    by (auto simp: route_defs staging_reports split: sum.split prod.split dest!: open_reports staging_reports(1))
  then show ?thesis by (simp add: storage_plan_def split: option.split)
qed

text \<open>The shells report nothing: only the steps of the pipeline do.\<close>

definition shells_silent :: "'a run_world_scheme run_env \<Rightarrow> bool" where
  "shells_silent env \<longleftrightarrow> (\<forall>c w. rw_reports (snd (rn_local env c w)) = rw_reports w)
     \<and> (\<forall>h c w. rw_reports (snd (rn_ssh env h c w)) = rw_reports w)"

lemma command_silent:
  assumes "shells_silent env"
  shows "rw_reports (snd (execute_command env c loc w)) = rw_reports w"
    and "rw_reports (snd (execute_pre_command env loc w)) = rw_reports w"
    and "rw_reports (snd (execute_post_command env loc w)) = rw_reports w"
proof -
  show cmd: "rw_reports (snd (execute_command env c loc w)) = rw_reports w" for c loc w
    using assms by (simp add: execute_command_def shells_silent_def case_prod_unfold Let_def split: option.split)
  show "rw_reports (snd (execute_pre_command env loc w)) = rw_reports w"
    "rw_reports (snd (execute_post_command env loc w)) = rw_reports w"
    by (simp_all add: execute_pre_command_def execute_post_command_def case_prod_unfold Let_def cmd)
qed

fun is_update :: "'p handle_op \<Rightarrow> bool" where
  "is_update (OpUpdate f) = True"
| "is_update x = False"

lemma storage_ops_figures:
  "list_all (\<lambda>x. \<not> is_update x) ops \<Longrightarrow>
     figures_of us (h_progress (handle_run storage_progress_ops ops h)) = figures_of us (h_progress h)"
proof (induction ops arbitrary: h)
  case (Cons x ops)
  then show ?case by (cases x) (simp_all add: storage_progress_ops_def figures_of_def)
qed simp

lemma observed_progress:
  "h_progress (handle_run ops' (map (OpUpdate \<circ> observe) us) h) = fold observe us (h_progress h)"
  by (induction us arbitrary: h) simp_all

text \<open>A result that reported \<open>us\<close> from \<open>w\<close> on, and writes nothing else into the figures.\<close>

definition reported :: "'a run_world_scheme \<Rightarrow> 'a run_result \<Rightarrow> bool" where
  "reported w r \<longleftrightarrow> (\<exists>pre us post. fst (fst r) = pre @ map (OpUpdate \<circ> observe) us @ post
     \<and> list_all (\<lambda>x. \<not> is_update x) pre \<and> list_all (\<lambda>x. \<not> is_update x) post
     \<and> rw_reports (snd r) = rw_reports w @ us \<and> legs_from 0 us)"

lemma reported_none:
  "list_all (\<lambda>x. \<not> is_update x) (fst (fst r)) \<Longrightarrow> rw_reports (snd r) = rw_reports w \<Longrightarrow> reported w r"
  unfolding reported_def by (rule exI [of _ "fst (fst r)"], rule exI [of _ "[]"], rule exI [of _ "[]"]) (simp add: legs_from_def)

lemma reported_after:
  "reported w r \<Longrightarrow> list_all (\<lambda>x. \<not> is_update x) ops \<Longrightarrow> reported w (after_ops ops r)"
  unfolding reported_def after_ops_def by (elim exE, rename_tac pre us post, rule_tac x = "ops @ pre" in exI) auto

lemma reported_from: "reported w1 r \<Longrightarrow> rw_reports w1 = rw_reports w \<Longrightarrow> reported w r"
  by (simp add: reported_def)

lemma plain_results [simp]:
  "list_all (\<lambda>x. \<not> is_update x) (fst (fail_run env s c))"
  "check_cancelled env w = Some r \<Longrightarrow> list_all (\<lambda>x. \<not> is_update x) (fst r)"
  "list_all (\<lambda>x. \<not> is_update x) (fst (fst (run_post env dst w)))"
  by (auto simp: fail_run_def check_cancelled_def run_post_def case_prod_unfold Let_def split: option.split)

lemma run_post_silent: "shells_silent env \<Longrightarrow> rw_reports (snd (run_post env dst w)) = rw_reports w"
  by (simp add: run_post_def case_prod_unfold Let_def command_silent split: option.split)

lemma run_transfer_reported:
  assumes "shells_silent env"
  shows "reported w (run_transfer env m w)"
proof (cases "storage_plan (reporting env) m w")
  case (Pair r w1)
  have w1: "rw_reports w1 = rw_reports w" using storage_plan_reports [of "reporting env" m w] by (simp add: Pair)
  show ?thesis
  proof (cases r)
    case (Inl e)
    then show ?thesis using w1 by (simp add: run_transfer_def Pair reported_none)
  next
    case (Inr p)
    obtain err w2 where run: "pipeline_execute rw_cancelled p w1 = (err, w2)" by (meson surj_pair)
    obtain us where us: "rw_reports w2 = rw_reports w @ us" "legs_from 0 us"
      using pipeline_legs storage_plan_stamps Pair Inr run w1 by (metis snd_conv)
    define q where "q = (case check_cancelled env w2 of Some r \<Rightarrow> (r, w2) | None \<Rightarrow>
        (case err of Some e \<Rightarrow> (fail_run env StageTransfer (PipelineFailed e), w2) | None \<Rightarrow> run_post env (smm_Destination m) w2))"
    have q: "list_all (\<lambda>x. \<not> is_update x) (fst (fst q))" "rw_reports (snd q) = rw_reports w2"
      using assms by (auto simp: q_def run_post_silent split: option.split)
    have "run_transfer env m w = after_ops (map (OpUpdate \<circ> observe) us) q"
      using us by (simp add: run_transfer_def Pair Inr run w1 q_def)
    then show ?thesis using q us unfolding reported_def
      by - (rule exI [of _ "[]"], rule exI [of _ us], rule exI [of _ "fst (fst q)"], simp add: after_ops_def)
  qed
qed

lemma storage_run_reported:
  assumes "shells_silent env"
  shows "reported w (storage_run env m w)"
proof -
  define q where "q = (if blank (dl_PreCmd (smm_Source m)) then (None, w) else execute_pre_command env (smm_Source m) w)"
  obtain err w1 where pre: "q = (err, w1)" by (meson surj_pair)
  have w1: "rw_reports w1 = rw_reports w" using command_silent(2) [OF assms] pre unfolding q_def by (metis snd_conv)
  have "reported w (case storage_validate m of
          Some e \<Rightarrow> (fail_run env StageTransfer (ValidationFailed e), w)
        | None \<Rightarrow> (case err of Some c \<Rightarrow> (fail_run env StageBackup c, w1)
            | None \<Rightarrow> (case check_cancelled env w1 of Some r \<Rightarrow> (r, w1) | None \<Rightarrow> run_transfer env m w1)))"
    using w1 reported_from [OF run_transfer_reported [OF assms]] by (simp add: reported_none split: option.split)
  then show ?thesis
    by (simp only: storage_run_def q_def [symmetric] pre Let_def prod.case) (rule reported_after, assumption, simp)
qed

text \<open>
  The figures a finished run leaves tell one leg, the last that reported: the step is that of
  the last observation, and bytes and files are the highest that step reported, never the
  staging leg's added to the sending leg's. Observations come in the order of the steps.
\<close>

lemma progress_tells_the_last_leg:
  assumes "shells_silent env" and "migrate_data_async env now m w = (h, w')"
  shows "\<exists>us. rw_reports w' = rw_reports w @ us \<and> sorted (map u_Step us) \<and> figures_of us (h_progress h)"
proof -
  obtain pre us post where run: "fst (fst (storage_run env m w)) = pre @ map (OpUpdate \<circ> observe) us @ post"
      "list_all (\<lambda>x. \<not> is_update x) pre" "list_all (\<lambda>x. \<not> is_update x) post"
      "rw_reports (snd (storage_run env m w)) = rw_reports w @ us" "legs_from 0 us"
    using storage_run_reported [OF assms(1)] unfolding reported_def by blast
  let ?h0 = "handle_run storage_progress_ops pre (new_handle storage_progress_ops zero_storage_progress now)"
  have "figures_of [] (h_progress ?h0)"
    by (simp add: storage_ops_figures [OF run(2)])
      (simp add: figures_of_def new_handle_def storage_progress_ops_def zero_storage_progress_def of_step_def)
  then have "figures_of us (fold observe us (h_progress ?h0))"
    using run(5) by (intro figures_fold) (auto simp: legs_from_def)
  then have "figures_of us (h_progress (handle_run storage_progress_ops (fst (fst (storage_run env m w)) @ [OpFinish])
      (new_handle storage_progress_ops zero_storage_progress now)))"
    using run(3) by (simp add: run(1) storage_ops_figures observed_progress)
  then show ?thesis using assms(2) run(4,5)
    by (auto simp: migrate_data_async_def case_prod_unfold Let_def legs_from_def)
qed

text \<open>A relay whose staging leg moves ten bytes and whose sending leg moves seven of them.\<close>

definition byte_update :: "int \<Rightarrow> update" where
  "byte_update n = \<lparr>u_Step = 0, u_Steps = 0, u_Bytes = n, u_Files = -1, u_Item = ''f'', u_Rows = 0, u_Units = 0, u_UnitsTotal = 0,
     u_Phase = [], u_Concurrency = 0, u_ConcurrencyNote = []\<rparr>"

definition relay_env :: "run_world run_env" where
  "relay_env = \<lparr>rn_plan = \<lparr>en_tmp = ''/tmp'', en_mkdirs = (\<lambda>_. None), en_temp = (\<lambda>_ _. Inr ''/stage/relay-1''),
       en_sdk = (\<lambda>_. None), en_csp = (\<lambda>_. None), en_rx = (\<lambda>_ _. True), en_exec = (\<lambda>_ _ _ _ w. (None, w)),
       en_list_objects = (\<lambda>_ _ _. Inr []), en_list_files = (\<lambda>_ _. Inr []), en_text = (\<lambda>_. ''too large'')\<rparr>,
     rn_local = (\<lambda>_ w. (([], None), w)), rn_ssh = (\<lambda>_ _ w. (([], None), w)),
     rn_exec = (\<lambda>_ src _ w. if dl_Path src = ''/a'' then (([byte_update 10], None), w)
                            else (([byte_update 3, byte_update 7], Some ''broken''), w)),
     rn_text = (\<lambda>_. ''failed'')\<rparr>"

definition relay_world :: run_world where
  "relay_world = \<lparr>pw_dirs = [], pw_open = [], pw_next = 0, rw_cancelled = None, rw_reports = []\<rparr>"

lemma relay_run:
  "rw_reports (snd (storage_run relay_env relay_model relay_world))
     = [step_update 1 2 (byte_update 10), step_update 2 2 (byte_update 3), step_update 2 2 (byte_update 7)]"
  "\<exists>c. snd (fst (storage_run relay_env relay_model relay_world)) = Some (StageFailed StageTransfer c)"
proof -
  have kinds: "is_filesystem (ssh_location x)" "has_ssh (ssh_location x)" "\<not> has_ssh (staging_location y)" for x y
    by (simp_all add: ssh_location_def staging_location_def is_filesystem_def has_ssh_def)
  have ends: "smm_Source relay_model = ssh_location ''/a''" "smm_Destination relay_model = ssh_location ''/b''"
    "smm_Strategy relay_model = StrategyRelay" by (simp_all add: relay_model_def)
  have paths: "dl_Path (ssh_location x) = x" "dl_Path (staging_location y) = y" "blank (dl_PreCmd (ssh_location x))" for x y
    by (simp_all add: ssh_location_def staging_location_def blank_def)
  have staging: "new_staging_location (reporting relay_env) (smm_StagingDir relay_model) relay_world =
      (Inr (staging_location ''/stage/relay-1'', remove_dir ''/stage/relay-1''), relay_world\<lparr>pw_dirs := [''/stage/relay-1'']\<rparr>)"
    by (simp add: new_staging_location_def reporting_def relay_env_def relay_world_def)
  obtain x y where "new_rsync_executor (ssh_location ''/a'') (staging_location ''/stage/relay-1'') = Inr x"
      "new_rsync_executor (staging_location ''/stage/relay-1'') (ssh_location ''/b'') = Inr y"
    by (simp add: new_rsync_executor_def determine_transfer_mode_def kinds)
  note executors = this
  obtain p where p: "storage_plan (reporting relay_env) relay_model relay_world = (Inr p, relay_world\<lparr>pw_dirs := [''/stage/relay-1'']\<rparr>)"
    "pl_Steps p = [plan_step (reporting relay_env) ''pull-to-staging'' (ssh_location ''/a'') (staging_location ''/stage/relay-1'') (RsyncExec x),
      plan_step (reporting relay_env) ''push-from-staging'' (staging_location ''/stage/relay-1'') (ssh_location ''/b'') (RsyncExec y)]"
    "pl_Cleanup p = Some (remove_dir ''/stage/relay-1'')" "pl_Preflight p = None"
    by (rule that, simp add: storage_plan_def relay_valid ends kinds plan_filesystem_def plan_relay_filesystem_def staging executors)
      simp_all
  have execs: "stamped (rn_exec relay_env ex) (k, n) (ssh_location ''/a'') b w
        = (None, w\<lparr>rw_reports := rw_reports w @ [step_update k n (byte_update 10)]\<rparr>)"
    "stamped (rn_exec relay_env ex) (k, n) (staging_location ''/stage/relay-1'') b w
        = (Some ''broken'', w\<lparr>rw_reports := rw_reports w @ [step_update k n (byte_update 3), step_update k n (byte_update 7)]\<rparr>)"
    for ex k n b w by (simp_all add: stamped_def relay_env_def paths)
  have pipe: "\<exists>e w2. pipeline_execute rw_cancelled p (relay_world\<lparr>pw_dirs := [''/stage/relay-1'']\<rparr>) = (Some e, w2) \<and> rw_cancelled w2 = None
      \<and> rw_reports w2 = [step_update 1 2 (byte_update 10), step_update 2 2 (byte_update 3), step_update 2 2 (byte_update 7)]"
    by (simp add: pipeline_execute_def p plan_step_def reporting_def execs relay_world_def remove_dir_def numeral_2_eq_2)
  then obtain e w2 where "pipeline_execute rw_cancelled p (relay_world\<lparr>pw_dirs := [''/stage/relay-1'']\<rparr>) = (Some e, w2)"
    "rw_cancelled w2 = None"
    "rw_reports w2 = [step_update 1 2 (byte_update 10), step_update 2 2 (byte_update 3), step_update 2 2 (byte_update 7)]" by blast
  note run = this
  have "rw_cancelled relay_world = None" by (simp add: relay_world_def)
  then show "rw_reports (snd (storage_run relay_env relay_model relay_world))
     = [step_update 1 2 (byte_update 10), step_update 2 2 (byte_update 3), step_update 2 2 (byte_update 7)]"
    "\<exists>c. snd (fst (storage_run relay_env relay_model relay_world)) = Some (StageFailed StageTransfer c)"
    by (simp_all add: storage_run_def run_transfer_def relay_valid ends paths p run check_cancelled_def after_ops_def fail_run_def)
qed

lemma progress_tells_the_last_leg_witness:
  "tp_Step (h_progress (fst (migrate_data_async relay_env 0 relay_model relay_world))) = 2
   \<and> tp_BytesTransferred (h_progress (fst (migrate_data_async relay_env 0 relay_model relay_world))) = 7"
proof -
  obtain h w' where run: "migrate_data_async relay_env 0 relay_model relay_world = (h, w')" by (meson surj_pair)
  have silent: "shells_silent relay_env" by (simp add: shells_silent_def relay_env_def)
  have w': "w' = snd (storage_run relay_env relay_model relay_world)"
    using run by (simp add: migrate_data_async_def case_prod_unfold Let_def prod_eq_iff)
  from progress_tells_the_last_leg [OF silent run] obtain us
    where us: "rw_reports w' = us" "figures_of us (h_progress h)" by (auto simp: relay_world_def)
  then have "us = [step_update 1 2 (byte_update 10), step_update 2 2 (byte_update 3), step_update 2 2 (byte_update 7)]"
    by (simp add: w' relay_run)
  then show ?thesis using us(2) by (simp add: run figures_of_def of_step_def step_update_def byte_update_def)
qed

end
