(* ===== verification/StorageResolve.thy ===== *)
theory StorageResolve
  imports DbmsResolve StorageModel
begin

text \<open>
  From a stored connection to a storage location of the transfer library:
  \<open>pkg/core/migration/filesystem.go\<close> (ssh keys) and \<open>objectstorage.go\<close> (endpoints, signing
  regions, TLS and addressing per provider). The services are \<open>DbmsResolve\<close>'s, with the
  access cm-beetle gives to a node, \<open>url.Parse\<close> and the configured Tumblebug account.
\<close>

section \<open>What the outside answers\<close>

text \<open>The parts of a \<open>url.URL\<close> the code reads.\<close>

record parsed_url =
  ur_Scheme :: string
  ur_Host :: string
  ur_Path :: string
  ur_RawQuery :: string

type_synonym url_parser = "string \<Rightarrow> string + parsed_url"

record store_services =
  ss_services :: services
  ss_beetle_ssh :: "beetle_ssh_ref \<Rightarrow> string + ssh_conn_config"
  ss_url :: url_parser
  ss_tumblebug :: "string \<times> string \<times> string"

datatype store_error =
    StoreDecrypt string
  | StoreRefIsNil string
  | StoreHoneybee string
  | StoreBeetle string
  | StoreSource connection_source
  | EndpointPath string
  | EndpointURL string
  | EndpointScheme string
  | EndpointNoHost string
  | RegionRequired string
  | AccountRequired string
  | EndpointRequired string
  | UnsupportedProvider string
  | UnknownStorageType string

section \<open>File systems\<close>

definition normalize_pem_key :: "string \<Rightarrow> string" where
  "normalize_pem_key key = (if trim_space key = [] then [] else trim_space key @ [CHR 0x0A])"

definition to_data_mig_ssh_config :: "ssh_conn_config \<Rightarrow> core_ssh_config" where
  "to_data_mig_ssh_config c =
     key_ssh_config (ssh_Host c) (ssh_Port c) (ssh_Username c) (normalize_pem_key (ssh_PrivateKey c))"

definition filesystem_loc :: "core_ssh_config \<Rightarrow> string \<Rightarrow> filter_option option \<Rightarrow> data_location" where
  "filesystem_loc ssh path flt =
     \<lparr>dl_StorageType = StorageTypeFilesystem, dl_Path = path,
      dl_Filesystem = Some \<lparr>fa_AccessType = AccessTypeSSH, fa_SSH = Some ssh, fa_Rsync = None\<rparr>,
      dl_ObjectStorage = None, dl_Filter = flt, dl_PreCmd = [], dl_PostCmd = []\<rparr>"

definition resolve_ssh_config :: "store_services \<Rightarrow> connection_ref \<Rightarrow> store_error + core_ssh_config" where
  "resolve_ssh_config ss ref0 =
     bind_res (map_err StoreDecrypt (decrypt_ref (sv_sealer (ss_services ss)) ref0)) (\<lambda>ref.
       (case cr_Source ref of
          ConnectionSourceHoneybee \<Rightarrow>
            (case cr_Honeybee ref of
               None \<Rightarrow> Inl (StoreRefIsNil ''honeybee ref'')
             | Some h \<Rightarrow>
                 bind_res (map_err StoreHoneybee (sv_honeybee (ss_services ss) h)) (\<lambda>cfg.
                   Inr (key_ssh_config (hc_Host cfg) (hc_Port cfg) (hc_User cfg) (normalize_pem_key (hc_PrivateKey cfg)))))
        | ConnectionSourceBeetleSSH \<Rightarrow>
            (case cr_BeetleSSH ref of
               None \<Rightarrow> Inl (StoreRefIsNil ''beetleSsh ref'')
             | Some b \<Rightarrow> bind_res (map_err StoreBeetle (ss_beetle_ssh ss b)) (\<lambda>cfg. Inr (to_data_mig_ssh_config cfg)))
        | ConnectionSourceSSH \<Rightarrow>
            (case cr_SSH ref of
               None \<Rightarrow> Inl (StoreRefIsNil ''ssh config'')
             | Some c \<Rightarrow>
                 Inr (key_ssh_config (ssh_Host c) (ssh_Port c) (ssh_Username c) (normalize_pem_key (ssh_PrivateKey c))))
        | src \<Rightarrow> Inl (StoreSource src)))"

section \<open>Endpoints\<close>

abbreviation ProviderAWS :: string where "ProviderAWS \<equiv> ''aws''"
abbreviation ProviderAlibaba :: string where "ProviderAlibaba \<equiv> ''alibaba''"
abbreviation ProviderTencent :: string where "ProviderTencent \<equiv> ''tencent''"
abbreviation ProviderNCP :: string where "ProviderNCP \<equiv> ''ncp''"
abbreviation ProviderNHN :: string where "ProviderNHN \<equiv> ''nhn''"
abbreviation ProviderIBM :: string where "ProviderIBM \<equiv> ''ibm''"
abbreviation ProviderGCP :: string where "ProviderGCP \<equiv> ''gcp''"
abbreviation ProviderKT :: string where "ProviderKT \<equiv> ''kt''"
abbreviation ProviderAzure :: string where "ProviderAzure \<equiv> ''azure''"

definition region_in_host :: "string \<Rightarrow> bool" where
  "region_in_host p \<longleftrightarrow>
     p \<in> {ProviderAWS, ProviderAlibaba, ProviderTencent, ProviderNCP, ProviderNHN, ProviderIBM} \<or> p = ProviderGCP"

text \<open>Host, whether the scheme asks for TLS, and whether there was a scheme.\<close>

definition normalize_s3_endpoint :: "url_parser \<Rightarrow> string \<Rightarrow> store_error + string \<times> bool \<times> bool" where
  "normalize_s3_endpoint parse raw =
     (let trimmed = trim_space raw
      in if after_scheme trimmed = None then
           (let host = trim_suffix trimmed ''/''
            in if slash \<in> set host then Inl (EndpointPath raw) else Inr (host, False, False))
         else
           (case parse trimmed of
              Inl e \<Rightarrow> Inl (EndpointURL e)
            | Inr u \<Rightarrow>
                (let scheme = to_lower (ur_Scheme u)
                 in if scheme \<noteq> ''http'' \<and> scheme \<noteq> ''https'' then Inl (EndpointScheme raw)
                    else if ur_Host u = [] then Inl (EndpointNoHost raw)
                    else if trim_char slash (ur_Path u) \<noteq> [] \<or> ur_RawQuery u \<noteq> [] then Inl (EndpointPath raw)
                    else Inr (ur_Host u, scheme = ''https'', True))))"

text \<open>What each provider's branch sets: endpoint, signing region, TLS and addressing.\<close>

definition provider_endpoint ::
  "minio_conn_config \<Rightarrow> string \<Rightarrow> string \<Rightarrow> string \<Rightarrow> store_error + string \<times> string \<times> bool \<times> string" where
  "provider_endpoint cfg provider hostRegion given =
     (if provider = ProviderAWS then Inr (''s3.'' @ hostRegion @ ''.amazonaws.com'', hostRegion, True, [])
      else if provider = ProviderAlibaba then Inr (''oss-'' @ hostRegion @ ''.aliyuncs.com'', [], True, [])
      else if provider = ProviderTencent then Inr (''cos.'' @ hostRegion @ ''.myqcloud.com'', hostRegion, True, ''dns'')
      else if provider = ProviderNCP then Inr (hostRegion @ ''.object.ncloudstorage.com'', [], True, [])
      else if provider = ProviderNHN then Inr (hostRegion @ ''-api-object-storage.nhncloudservice.com'', hostRegion, True, [])
      else if provider = ProviderIBM then Inr (''s3.'' @ hostRegion @ ''.cloud-object-storage.appdomain.cloud'', [], True, [])
      else if provider = ProviderGCP then Inr (''storage.googleapis.com'', hostRegion, True, [])
      else if provider = ProviderKT then Inr (''obj-e-1.ktcloud.com'', [], True, [])
      else if provider = ProviderOpenStack \<or> provider = ProviderOnPrem then
        (if given = [] then Inl (EndpointRequired provider) else Inr ([], [], mc_UseSSL cfg, []))
      else Inl (UnsupportedProvider provider))"

definition resolve_s3_endpoint ::
  "url_parser \<Rightarrow> minio_conn_config \<Rightarrow> store_error + string \<times> string \<times> bool \<times> string" where
  "resolve_s3_endpoint parse cfg =
     (let provider = to_lower (trim_space (mc_ProviderName cfg));
          hostRegion = trim_space (mc_Region cfg)
      in bind_res (if trim_space (mc_Endpoint cfg) \<noteq> [] then normalize_s3_endpoint parse (mc_Endpoint cfg) else Inr ([], False, False))
           (\<lambda>(given, schemeSSL, schemeGiven).
              if region_in_host provider \<and> hostRegion = [] then Inl (RegionRequired provider)
              else if provider = ProviderAzure then
                (if trim_space (mc_AccessKeyId cfg) = [] then Inl (AccountRequired provider)
                 else Inr (trim_space (mc_AccessKeyId cfg) @ ''.blob.core.windows.net'', [], True, []))
              else bind_res (provider_endpoint cfg provider hostRegion given)
                (\<lambda>(endpoint, region, useSSL, bucketLookup).
                   Inr (if given \<noteq> [] then given else endpoint, region,
                        if given \<noteq> [] \<and> schemeGiven then schemeSSL else useSSL,
                        if mc_BucketLookup cfg \<noteq> [] then mc_BucketLookup cfg else bucketLookup))))"

definition to_inline_minio_config :: "url_parser \<Rightarrow> minio_conn_config \<Rightarrow> store_error + s3_minio_config" where
  "to_inline_minio_config parse cfg =
     bind_res (resolve_s3_endpoint parse cfg) (\<lambda>(endpoint, region, useSSL, bucketLookup).
       Inr \<lparr>s3_Endpoint = endpoint, s3_AccessKeyId = mc_AccessKeyId cfg, s3_SecretAccessKey = mc_SecretAccessKey cfg,
            s3_Region = region, s3_UseSSL = useSSL, s3_BucketLookup = bucketLookup, s3_SSHTunnel = None\<rparr>)"

definition to_minio_s3_config :: "url_parser \<Rightarrow> honeybee_config \<Rightarrow> store_error + s3_minio_config" where
  "to_minio_s3_config parse cfg =
     bind_res
       (if trim_space (hc_ProviderName cfg) = [] then
          bind_res (normalize_s3_endpoint parse (hc_Endpoint cfg)) (\<lambda>(endpoint, schemeSSL, schemeGiven).
            Inr \<lparr>s3_Endpoint = endpoint, s3_AccessKeyId = hc_AccessKey cfg, s3_SecretAccessKey = hc_SecretKey cfg,
                 s3_Region = hc_Region cfg, s3_UseSSL = (if schemeGiven then schemeSSL else hc_UseSSL cfg),
                 s3_BucketLookup = [], s3_SSHTunnel = None\<rparr>)
        else to_inline_minio_config parse
          \<lparr>mc_ProviderName = hc_ProviderName cfg, mc_Endpoint = hc_Endpoint cfg, mc_AccessKeyId = hc_AccessKey cfg,
           mc_SecretAccessKey = hc_SecretKey cfg, mc_Region = hc_Region cfg, mc_UseSSL = hc_UseSSL cfg, mc_BucketLookup = []\<rparr>)
       (\<lambda>s3. Inr (case hc_OSTunnel cfg of
          None \<Rightarrow> s3
        | Some t \<Rightarrow> s3\<lparr>s3_SSHTunnel :=
            Some (key_ssh_config (hst_Host t) (hst_Port t) (hst_User t) (normalize_pem_key (hst_PrivateKey t)))\<rparr>))"

section \<open>Object storage\<close>

abbreviation tumblebugPathPrefix :: string where "tumblebugPathPrefix \<equiv> ''/tumblebug''"

definition tumblebug_api_base :: "string \<Rightarrow> string" where
  "tumblebug_api_base endpoint =
     (let base = trim_right_char slash (trim_space endpoint)
      in if base = [] \<or> has_suffix base tumblebugPathPrefix then base else base @ tumblebugPathPrefix)"

definition to_tumblebug_os_config :: "string \<times> string \<times> string \<Rightarrow> beetle_os_ref \<Rightarrow> tumblebug_config" where
  "to_tumblebug_os_config conf ref =
     (case conf of (endpoint, user, password) \<Rightarrow>
        \<lparr>tb_Endpoint = tumblebug_api_base endpoint, tb_NsId = bos_NsID ref, tb_OsId = bos_OsID ref, tb_Expires = 0,
         tb_Auth = Some \<lparr>au_AuthType = ''basic'', au_Basic = Some (user, password), au_JWT = None\<rparr>\<rparr>)"

definition minio_object_storage_loc :: "s3_minio_config \<Rightarrow> string \<Rightarrow> filter_option option \<Rightarrow> data_location" where
  "minio_object_storage_loc s3 bucketPath flt =
     \<lparr>dl_StorageType = StorageTypeObjectStorage, dl_Path = bucketPath, dl_Filesystem = None,
      dl_ObjectStorage = Some \<lparr>oa_AccessType = AccessTypeMinio, oa_Minio = Some s3, oa_Spider = None, oa_Tumblebug = None\<rparr>,
      dl_Filter = flt, dl_PreCmd = [], dl_PostCmd = []\<rparr>"

definition tumblebug_object_storage_loc :: "tumblebug_config \<Rightarrow> string \<Rightarrow> filter_option option \<Rightarrow> data_location" where
  "tumblebug_object_storage_loc tb bucketPath flt =
     \<lparr>dl_StorageType = StorageTypeObjectStorage, dl_Path = bucketPath, dl_Filesystem = None,
      dl_ObjectStorage = Some \<lparr>oa_AccessType = AccessTypeTumblebug, oa_Minio = None, oa_Spider = None, oa_Tumblebug = Some tb\<rparr>,
      dl_Filter = flt, dl_PreCmd = [], dl_PostCmd = []\<rparr>"

definition resolve_object_storage_loc ::
  "store_services \<Rightarrow> connection_ref \<Rightarrow> string \<Rightarrow> filter_option option \<Rightarrow> store_error + data_location" where
  "resolve_object_storage_loc ss ref0 bucketPath flt =
     bind_res (map_err StoreDecrypt (decrypt_ref (sv_sealer (ss_services ss)) ref0)) (\<lambda>ref.
       (case cr_Source ref of
          ConnectionSourceHoneybee \<Rightarrow>
            (case cr_Honeybee ref of
               None \<Rightarrow> Inl (StoreRefIsNil ''honeybee ref'')
             | Some h \<Rightarrow>
                 bind_res (map_err StoreHoneybee (sv_honeybee (ss_services ss) h)) (\<lambda>cfg.
                 bind_res (to_minio_s3_config (ss_url ss) cfg) (\<lambda>s3. Inr (minio_object_storage_loc s3 bucketPath flt))))
        | ConnectionSourceBeetleObjectStorage \<Rightarrow>
            (case cr_BeetleOS ref of
               None \<Rightarrow> Inl (StoreRefIsNil ''beetleObjectStorage ref'')
             | Some b \<Rightarrow> Inr (tumblebug_object_storage_loc (to_tumblebug_os_config (ss_tumblebug ss) b) bucketPath flt))
        | ConnectionSourceMinio \<Rightarrow>
            (case cr_Minio ref of
               None \<Rightarrow> Inl (StoreRefIsNil ''minio config'')
             | Some c \<Rightarrow>
                 bind_res (to_inline_minio_config (ss_url ss) c) (\<lambda>s3. Inr (minio_object_storage_loc s3 bucketPath flt)))
        | src \<Rightarrow> Inl (StoreSource src)))"

definition resolve_data_mig_loc ::
  "store_services \<Rightarrow> connection_ref \<Rightarrow> string \<Rightarrow> string \<Rightarrow> filter_option option \<Rightarrow> store_error + data_location" where
  "resolve_data_mig_loc ss ref storageType path flt =
     (if storageType = StorageTypeObjectStorage then resolve_object_storage_loc ss ref path flt
      else if storageType = StorageTypeFilesystem \<or> storageType = [] then
        bind_res (resolve_ssh_config ss ref) (\<lambda>ssh. Inr (filesystem_loc ssh path flt))
      else Inl (UnknownStorageType storageType))"

section \<open>Azure, by the provider and by the host\<close>

text \<open>The characters of a host name; a region and an account name are made of them without the dot.\<close>

definition label_char :: "char \<Rightarrow> bool" where
  "label_char c \<longleftrightarrow> printable c \<and> c \<notin> {slash, CHR ''?'', CHR '':'', CHR ''.''}"

definition host_char :: "char \<Rightarrow> bool" where
  "host_char c \<longleftrightarrow> label_char c \<or> c = CHR ''.''"

lemma host_charD: "host_char c \<Longrightarrow> printable c \<and> c \<noteq> slash \<and> c \<noteq> CHR ''?'' \<and> c \<noteq> CHR '':''"
  by (auto simp: host_char_def label_char_def printable_def)

lemma after_scheme_none: "CHR '':'' \<notin> set s \<Longrightarrow> after_scheme s = None"
  by (induction s) auto

lemma azure_host_plain:
  assumes "list_all host_char e" and "e \<noteq> []" and "last e \<noteq> CHR ''.''"
  shows "azure_endpoint_host e = to_lower e"
proof -
  have c: "\<forall>c\<in>set e. printable c \<and> c \<noteq> slash \<and> c \<noteq> CHR ''?'' \<and> c \<noteq> CHR '':''"
    using assms(1) host_charD by (auto simp: list_all_iff)
  have trim: "trim_space e = e" using c assms(2) by (intro trim_space_printable) simp
  have scheme: "after_scheme e = None" using c by (intro after_scheme_none) auto
  have cut: "takeWhile (\<lambda>c. c \<noteq> slash \<and> c \<noteq> CHR ''?'') e = e" using c by (simp add: takeWhile_eq_all_conv)
  have "\<not> has_suffix e ''.''" using assms(3) by (auto simp: has_suffix_iff)
  then have "trim_suffix e ''.'' = e" by (simp add: trim_suffix_def)
  then show ?thesis by (simp add: azure_endpoint_host_def trim scheme cut)
qed

lemma has_suffix_last: "has_suffix s t \<Longrightarrow> t \<noteq> [] \<Longrightarrow> last s = last t"
  by (auto simp: has_suffix_iff)

lemma not_azure_last:
  assumes "last h \<notin> {CHR ''t'', CHR ''n''}"
  shows "\<not> list_ex (\<lambda>s. has_suffix h (''.'' @ s) \<or> h = s) azureBlobHosts"
  using assms by (auto simp: azureBlobHosts_def dest!: has_suffix_last)

lemma provider_endpoint_shape:
  assumes "provider_endpoint cfg p hostRegion [] = Inr (e, r, tls, lk)" and "list_all label_char hostRegion"
  shows "list_all host_char e \<and> e \<noteq> [] \<and> last e \<in> {CHR ''m'', CHR ''d''} \<and> tls"
proof -
  have "list_all host_char hostRegion" using assms(2) by (auto simp: list_all_iff host_char_def)
  then show ?thesis using assms(1)
    by (auto simp: provider_endpoint_def host_char_def label_char_def printable_def split: if_splits)
qed

definition lower_label :: "string \<Rightarrow> bool" where
  "lower_label s \<longleftrightarrow> list_all label_char s \<and> to_lower s = s"

text \<open>
  The two places that know Azure agree. With no endpoint typed in, the endpoint a connection's
  provider resolves to is one the transfer library takes for Azure Blob exactly when the
  provider is Azure, for any region; and the storage account the library reads back from it is
  the account the connection names.
\<close>

lemma azure_is_recognised:
  assumes "resolve_s3_endpoint parse cfg = Inr (e, r, tls, lk)"
    and "trim_space (mc_Endpoint cfg) = []" and "list_all label_char (trim_space (mc_Region cfg))"
    and "lower_label (trim_space (mc_AccessKeyId cfg))"
  shows "tls \<and> (is_azure_blob_endpoint e \<longleftrightarrow> to_lower (trim_space (mc_ProviderName cfg)) = ProviderAzure)
    \<and> (is_azure_blob_endpoint e \<longrightarrow> azure_account_from_endpoint e = trim_space (mc_AccessKeyId cfg))"
proof (cases "to_lower (trim_space (mc_ProviderName cfg)) = ProviderAzure")
  case True
  let ?a = "trim_space (mc_AccessKeyId cfg)"
  have e: "e = ?a @ ''.blob.core.windows.net''" "tls"
    using assms(1) True by (auto simp: resolve_s3_endpoint_def assms(2) region_in_host_def split: if_splits)
  have "list_all host_char e"
    using assms(4) by (auto simp: e lower_label_def list_all_iff host_char_def) (auto simp: label_char_def printable_def)
  then have host: "azure_endpoint_host e = ?a @ ''.blob.core.windows.net''"
    using assms(4) by (subst azure_host_plain) (auto simp: e lower_label_def to_lower_def lower_char_def)
  have suffix: "has_suffix (?a @ ''.blob.core.windows.net'') (''.'' @ ''blob.core.windows.net'')"
    unfolding has_suffix_iff by simp
  then have "is_azure_blob_endpoint e"
    by (simp add: is_azure_blob_endpoint_def host azureBlobHosts_def)
  moreover have "azure_account_from_endpoint e = ?a"
    using suffix trim_suffix_append [of ?a "''.blob.core.windows.net''"]
    by (simp add: azure_account_from_endpoint_def host azureBlobHosts_def)
  ultimately show ?thesis using True e(2) by simp
next
  case False
  obtain reg l where p: "provider_endpoint cfg (to_lower (trim_space (mc_ProviderName cfg))) (trim_space (mc_Region cfg)) []
      = Inr (e, reg, tls, l)"
    using assms(1) False by (auto simp: resolve_s3_endpoint_def Let_def assms(2) res_inv split: if_splits)
  have shape: "list_all host_char e" "e \<noteq> []" "last e \<in> {CHR ''m'', CHR ''d''}" "tls"
    using provider_endpoint_shape [OF p assms(3)] by simp_all
  have "azure_endpoint_host e = to_lower e" using shape by (intro azure_host_plain) auto
  moreover have "last (to_lower e) \<notin> {CHR ''t'', CHR ''n''}"
    using shape(2,3) by (auto simp: to_lower_def last_map lower_char_def)
  ultimately have "\<not> is_azure_blob_endpoint e"
    using not_azure_last [of "to_lower e"] by (simp add: is_azure_blob_endpoint_def)
  then show ?thesis using False shape(4) by simp
qed

definition minio_conn :: "string \<Rightarrow> string \<Rightarrow> minio_conn_config" where
  "minio_conn provider region = \<lparr>mc_ProviderName = provider, mc_Endpoint = [], mc_AccessKeyId = ''acme'', mc_SecretAccessKey = ''k'',
     mc_Region = region, mc_UseSSL = False, mc_BucketLookup = []\<rparr>"

lemma acme_names: "to_lower ''Azure'' = ''azure''"
  "trim_space ''acme'' = ''acme''" "lower_label ''acme''" "trim_space ''Azure'' = ''Azure''" "trim_space ''aws'' = ''aws''"
  by (code_simp, simp_all add: trim_space_printable printable_def lower_label_def label_char_def to_lower_def lower_char_def)

lemma azure_is_recognised_witness:
  "is_azure_blob_endpoint ''acme.blob.core.windows.net'' \<and> azure_account_from_endpoint ''acme.blob.core.windows.net'' = ''acme''"
proof -
  have "resolve_s3_endpoint (\<lambda>_. Inl []) (minio_conn ''Azure'' []) = Inr (''acme.blob.core.windows.net'', [], True, [])"
    by (simp add: resolve_s3_endpoint_def Let_def minio_conn_def acme_names region_in_host_def)
  from azure_is_recognised [OF this] show ?thesis
    by (simp add: minio_conn_def acme_names)
qed

text \<open>A scheme typed into the endpoint decides TLS, except for Azure, which takes no endpoint.\<close>

lemma scheme_decides_tls:
  assumes "resolve_s3_endpoint parse cfg = Inr (e, r, tls, lk)"
    and "normalize_s3_endpoint parse (mc_Endpoint cfg) = Inr (host, https, True)" and "host \<noteq> []"
    and "trim_space (mc_Endpoint cfg) \<noteq> []" and "to_lower (trim_space (mc_ProviderName cfg)) \<noteq> ProviderAzure"
  shows "e = host \<and> tls = https"
  using assms by (auto simp: resolve_s3_endpoint_def res_inv Let_def split: if_splits)

text \<open>Sealing a stored reference changes neither the ssh access nor the bucket it resolves to.\<close>

lemma sealed_ref_same_location:
  assumes "\<And>k v b. seal_with (sv_sealer (ss_services ss)) k v = Inr b \<Longrightarrow> open_with (sv_sealer (ss_services ss)) b = Inr v"
    and "\<forall>v\<in>set (ref_secrets r). \<not> has_prefix v encPrefix"
    and "encrypt_ref (sv_sealer (ss_services ss)) n r = Inr (r', k)"
  shows "resolve_data_mig_loc ss r' t path flt = resolve_data_mig_loc ss r t path flt"
  using decrypt_ref_encrypted [OF assms] decrypt_ref_plain [of r "sv_sealer (ss_services ss)"] assms(2)
  by (simp add: resolve_data_mig_loc_def resolve_object_storage_loc_def resolve_ssh_config_def)

end
