(* ===== verification/StorageMigrate.thy ===== *)
theory StorageMigrate
  imports DbmsMigrate StorageHandle StorageResolve
begin

text \<open>
  The migration of the folders or buckets of one plan entry: \<open>MigrateFileSystem\<close>
  (\<open>pkg/core/migration/filesystem.go\<close>), \<open>MigrateObjectStorage\<close> (\<open>objectstorage.go\<close>) and the loop
  that watches one transfer (\<open>runStorageTransfer\<close>, \<open>transfer.go\<close>). What they do to the outside is
  the list of events they send. What a run of the library's handle yields is a parameter;
  \<open>sort.Slice\<close> promises only an order by key, so the sort is one, too. Durations are left out.
\<close>

section \<open>One transfer\<close>

datatype storage_item_error =
    StorageItemFilter filter_error
  | StorageItemSrc store_error
  | StorageItemDst store_error
  | StorageItemTransfer string
  | StorageItemCancelled

type_synonym storage_event = "storage_item_error progress_event"

record storage_transfer_run =
  sr_Ticks :: "storage_progress list"
  sr_End :: transfer_end
  sr_Final :: storage_progress

type_synonym storage_transfers = "storage_migration_model \<Rightarrow> storage_transfer_run"

definition storage_tick :: "string \<Rightarrow> storage_progress \<Rightarrow> storage_event" where
  "storage_tick path p =
     (item_event path)\<lparr>pe_Kind := EventTick, pe_Current := tp_CurrentFile p, pe_Step := tp_Step p,
       pe_Steps := tp_Steps p, pe_SizeBytes := tp_BytesTransferred p\<rparr>"

text \<open>The events while it runs, the bytes and concurrency it ended with, and its error.\<close>

definition run_storage_transfer ::
  "storage_transfers \<Rightarrow> storage_migration_model \<Rightarrow> string \<Rightarrow> storage_event list \<times> (int \<times> int \<times> string) \<times> storage_item_error option" where
  "run_storage_transfer transfer m path =
     (let run = transfer m; p = sr_Final run
      in (map (storage_tick path) (sr_Ticks run),
          (tp_BytesTransferred p, tp_Concurrency p, tp_ConcurrencyNote p),
          (case sr_End run of TransferCancelled \<Rightarrow> Some StorageItemCancelled | TransferDone err \<Rightarrow> map_option StorageItemTransfer err)))"

definition failed_event :: "string \<Rightarrow> storage_item_error \<Rightarrow> storage_event" where
  "failed_event path e = (item_event path)\<lparr>pe_Status := ''failed'', pe_Err := Some e\<rparr>"

definition cancelled_event :: "string \<Rightarrow> storage_event" where
  "cancelled_event path = (item_event path)\<lparr>pe_Status := ''cancelled'', pe_Err := Some StorageItemCancelled\<rparr>"

definition transfer_event :: "string \<Rightarrow> int \<times> int \<times> string \<Rightarrow> storage_item_error option \<Rightarrow> storage_event" where
  "transfer_event path moved err =
     (item_event path)\<lparr>pe_Status := (if err = None then ''success'' else ''failed''), pe_SizeBytes := fst moved,
       pe_Concurrency := fst (snd moved), pe_ConcurrencyNote := snd (snd moved), pe_Err := err\<rparr>"

definition transfer_model ::
  "data_location \<Rightarrow> data_location \<Rightarrow> string \<Rightarrow> string \<Rightarrow> int \<Rightarrow> storage_migration_model" where
  "transfer_model src dst strategy stagingDir concurrency =
     \<lparr>smm_Source = src, smm_Destination = dst, smm_Strategy = strategy, smm_StagingDir = stagingDir,
      smm_Concurrency = concurrency, smm_EncryptionKeyID = []\<rparr>"

definition or_direct :: "string \<Rightarrow> string" where
  "or_direct strategy = (if strategy = [] then StrategyDirect else strategy)"

section \<open>Folders\<close>

text \<open>The answers one item meets: whether the context is done when its turn comes, and its transfer.\<close>

record storage_item_env =
  si_cancelled :: bool
  si_transfer :: storage_transfers

definition migrate_folder ::
  "store_services \<Rightarrow> storage_transfers \<Rightarrow> core_ssh_config \<Rightarrow> migration_file_system_model \<Rightarrow> string \<Rightarrow> int \<Rightarrow>
   fs_migration_info \<Rightarrow> storage_event list" where
  "migrate_folder ss transfer srcSSH m stagingDir concurrency f =
     (let path = fmi_SrcPath f; dstType = (if mfs_DstType m = [] then StorageTypeFilesystem else mfs_DstType m)
      in case to_data_mig_filter (fmi_Rules f) of
           Inl e \<Rightarrow> [failed_event path (StorageItemFilter e)]
         | Inr flt \<Rightarrow>
             (case resolve_data_mig_loc ss (mfs_DstConnection m) dstType (fmi_DstPath f) None of
                Inl e \<Rightarrow> [failed_event path (StorageItemDst e)]
              | Inr dst \<Rightarrow>
                  (let (ticks, moved, err) = run_storage_transfer transfer
                         (transfer_model (filesystem_loc srcSSH path flt) dst (or_direct (mfs_Strategy m)) stagingDir concurrency) path
                   in ticks @ [transfer_event path moved err])))"

fun migrate_folders ::
  "store_services \<Rightarrow> (nat \<Rightarrow> storage_item_env) \<Rightarrow> core_ssh_config \<Rightarrow> migration_file_system_model \<Rightarrow> string \<Rightarrow> int \<Rightarrow>
   nat \<Rightarrow> fs_migration_info list \<Rightarrow> storage_event list \<times> bool" where
  "migrate_folders ss ctx ssh m st n i [] = ([], False)"
| "migrate_folders ss ctx ssh m st n i (f # fs) =
     (if si_cancelled (ctx i) then ([cancelled_event (fmi_SrcPath f)], True)
      else (let (evs, c) = migrate_folders ss ctx ssh m st n (Suc i) fs
            in (migrate_folder ss (si_transfer (ctx i)) ssh m st n f @ evs, c)))"

datatype entry_error = EntrySource store_error | EntryCancelled

definition migrate_file_system ::
  "(fs_migration_info list \<Rightarrow> fs_migration_info list) \<Rightarrow> store_services \<Rightarrow> (nat \<Rightarrow> storage_item_env) \<Rightarrow>
   migration_file_system_model \<Rightarrow> string \<Rightarrow> int \<Rightarrow> storage_event list \<times> entry_error option" where
  "migrate_file_system srt ss ctx m stagingDir concurrency =
     (case resolve_ssh_config ss (mfs_SrcConnection m) of
        Inl e \<Rightarrow> ([], Some (EntrySource e))
      | Inr ssh \<Rightarrow>
          (let (evs, cancelled) = migrate_folders ss ctx ssh m stagingDir concurrency 0 (srt (mfs_Folders m))
           in (evs, if cancelled then Some EntryCancelled else None)))"

section \<open>Buckets\<close>

text \<open>What the goroutine of one bucket sends: its ticks and, into the result channel, its outcome.\<close>

definition migrate_bucket ::
  "store_services \<Rightarrow> storage_transfers \<Rightarrow> migration_object_storage_model \<Rightarrow> string \<Rightarrow> int \<Rightarrow> object_migration_info \<Rightarrow>
   storage_event list" where
  "migrate_bucket ss transfer m stagingDir concurrency b =
     (let path = omi_SrcPath b; dstType = (if mos_DstType m = [] then StorageTypeObjectStorage else mos_DstType m)
      in case to_data_mig_filter (omi_Rules b) of
           Inl e \<Rightarrow> [failed_event path (StorageItemFilter e)]
         | Inr flt \<Rightarrow>
             (case resolve_object_storage_loc ss (mos_SrcConnection m) path flt of
                Inl e \<Rightarrow> [failed_event path (StorageItemSrc e)]
              | Inr src \<Rightarrow>
                  (case resolve_data_mig_loc ss (mos_DstConnection m) dstType (omi_DstPath b) None of
                     Inl e \<Rightarrow> [failed_event path (StorageItemDst e)]
                   | Inr dst \<Rightarrow>
                       (let (ticks, moved, err) = run_storage_transfer transfer
                              (transfer_model src dst (or_direct (mos_Strategy m)) stagingDir concurrency) path
                        in ticks @ [transfer_event path moved err]))))"

text \<open>
  The semaphore of size one lets the goroutines run one after the other, in an order of its own;
  the main goroutine forwards each outcome some time after it lands in the result channel.
  \<open>forward\<close> merges the two: \<open>True\<close> lets the main goroutine send its next outcome.
\<close>

function forward :: "bool list \<Rightarrow> storage_event list \<Rightarrow> storage_event list \<Rightarrow> storage_event list" where
  "forward sched pending [] = pending"
| "forward sched pending (ev # evs) =
     (if sched \<noteq> [] \<and> hd sched \<and> pending \<noteq> [] then hd pending # forward (tl sched) (tl pending) (ev # evs)
      else if pe_Kind ev = EventDone then forward (tl sched) (pending @ [ev]) evs
      else ev # forward (tl sched) pending evs)"
  by pat_completeness auto

termination
  by (relation "measure (\<lambda>(sched, pending, evs). 2 * length evs + length pending)") (auto simp: neq_Nil_conv)

text \<open>The buckets launched before the context is found done, and the one it is found at.\<close>

fun launched :: "(nat \<Rightarrow> bool) \<Rightarrow> nat \<Rightarrow> object_migration_info list \<Rightarrow> object_migration_info list \<times> object_migration_info option" where
  "launched done i [] = ([], None)"
| "launched done i (b # bs) =
     (if done i then ([], Some b) else (let (xs, c) = launched done (Suc i) bs in (b # xs, c)))"

record bucket_env =
  be_cancelled :: "nat \<Rightarrow> bool"
  be_order :: "object_migration_info list \<Rightarrow> object_migration_info list"
  be_transfer :: storage_transfers
  be_schedule :: "bool list"

definition migrate_object_storage ::
  "(object_migration_info list \<Rightarrow> object_migration_info list) \<Rightarrow> store_services \<Rightarrow> bucket_env \<Rightarrow>
   migration_object_storage_model \<Rightarrow> string \<Rightarrow> int \<Rightarrow> storage_event list \<times> entry_error option" where
  "migrate_object_storage srt ss env m stagingDir concurrency =
     (let (bs, stop) = launched (be_cancelled env) 0 (srt (mos_Buckets m));
          stream = concat (map (migrate_bucket ss (be_transfer env) m stagingDir concurrency) (be_order env bs))
      in case stop of
           Some b \<Rightarrow> (filter (\<lambda>ev. pe_Kind ev = EventTick) stream @ [cancelled_event (omi_SrcPath b)], Some EntryCancelled)
         | None \<Rightarrow> (forward (be_schedule env) [] stream, None))"

section \<open>What is reported\<close>

definition done_events :: "'e progress_event list \<Rightarrow> 'e progress_event list" where
  "done_events evs = filter (\<lambda>ev. pe_Kind ev = EventDone) evs"

lemma done_events_simps [simp]:
  "done_events [] = []" "done_events (xs @ ys) = done_events xs @ done_events ys"
  "done_events (ev # evs) = (if pe_Kind ev = EventDone then ev # done_events evs else done_events evs)"
  by (simp_all add: done_events_def)

lemma event_fields [simp]:
  "pe_Kind (failed_event p e) = EventDone" "pe_ItemPath (failed_event p e) = p"
  "pe_Kind (cancelled_event p) = EventDone" "pe_ItemPath (cancelled_event p) = p"
  "pe_Kind (transfer_event p moved err) = EventDone" "pe_ItemPath (transfer_event p moved err) = p"
  "pe_Kind (storage_tick p s) = EventTick"
  by (simp_all add: failed_event_def cancelled_event_def transfer_event_def storage_tick_def)

lemma done_ticks [simp]: "done_events (map (storage_tick p) ss) = []"
  by (induction ss) simp_all

text \<open>An item's events end in its one outcome, whose status tells whether it carries an error.\<close>

definition one_outcome :: "string \<Rightarrow> storage_event list \<Rightarrow> bool" where
  "one_outcome path evs \<longleftrightarrow> (\<exists>ev. done_events evs = [ev] \<and> pe_ItemPath ev = path
     \<and> (pe_Status ev = ''success'' \<longleftrightarrow> pe_Err ev = None) \<and> pe_Status ev \<in> {''success'', ''failed''})"

lemma failed_outcome [simp]: "one_outcome p [failed_event p e]"
  by (simp add: one_outcome_def failed_event_def item_event_def)

lemma transfer_outcome [simp]: "one_outcome p (map (storage_tick p) ss @ [transfer_event p moved err])"
  by (simp add: one_outcome_def transfer_event_def)

lemma folder_outcome: "one_outcome (fmi_SrcPath f) (migrate_folder ss transfer ssh m st n f)"
  by (simp add: migrate_folder_def run_storage_transfer_def Let_def split: sum.split)

lemma bucket_outcome: "one_outcome (omi_SrcPath b) (migrate_bucket ss transfer m st n b)"
  by (simp add: migrate_bucket_def run_storage_transfer_def Let_def split: sum.split)

lemma one_outcome_path: "one_outcome p evs \<Longrightarrow> map pe_ItemPath (done_events evs) = [p]"
  by (auto simp: one_outcome_def)

lemma migrate_folders_outcomes:
  assumes "migrate_folders ss ctx ssh m st n i fs = (evs, c)"
  shows "\<exists>k \<le> length fs. map pe_ItemPath (done_events evs) = map fmi_SrcPath (take k fs)
    \<and> (\<not> c \<longrightarrow> k = length fs) \<and> (c \<longrightarrow> 0 < k \<and> last evs = cancelled_event (fmi_SrcPath (fs ! (k - 1))))"
  using assms
proof (induction fs arbitrary: i evs c)
  case (Cons f fs)
  show ?case
  proof (cases "si_cancelled (ctx i)")
    case True
    then have "evs = [cancelled_event (fmi_SrcPath f)]" "c" using Cons.prems by auto
    then show ?thesis by (intro exI [of _ 1]) simp
  next
    case False
    obtain rest c' where rest: "migrate_folders ss ctx ssh m st n (Suc i) fs = (rest, c')" by (meson surj_pair)
    have evs: "evs = migrate_folder ss (si_transfer (ctx i)) ssh m st n f @ rest" "c = c'"
      using Cons.prems False rest by auto
    obtain k where k: "k \<le> length fs" "map pe_ItemPath (done_events rest) = map fmi_SrcPath (take k fs)"
      "\<not> c \<longrightarrow> k = length fs" "c \<longrightarrow> 0 < k \<and> last rest = cancelled_event (fmi_SrcPath (fs ! (k - 1)))"
      using Cons.IH [OF rest] evs(2) by blast
    have "c \<Longrightarrow> rest \<noteq> []" using k by (cases rest) (auto simp: take_eq_Nil)
    then show ?thesis using k one_outcome_path [OF folder_outcome]
      by (intro exI [of _ "Suc k"]) (auto simp: evs nth_Cons')
  qed
qed simp

lemma forward_outcomes: "done_events pending = pending \<Longrightarrow> done_events (forward sched pending evs) = pending @ done_events evs"
proof (induction sched pending evs rule: forward.induct)
  case (2 sched pending ev evs)
  show ?case
  proof (cases "sched \<noteq> [] \<and> hd sched \<and> pending \<noteq> []")
    case True
    then obtain p ps where p: "pending = p # ps" by (cases pending) auto
    then have "pe_Kind p = EventDone \<and> done_events ps = ps"
      using 2(4) [unfolded done_events_def filter_id_conv] p by (simp add: done_events_def filter_id_conv)
    then show ?thesis using 2(1) True p by simp
  next
    case False
    then have eq: "forward sched pending (ev # evs) =
        (if pe_Kind ev = EventDone then forward (tl sched) (pending @ [ev]) evs else ev # forward (tl sched) pending evs)"
      by (subst forward.simps(2)) (simp only: if_not_P if_False)
    show ?thesis
    proof (cases "pe_Kind ev = EventDone")
      case True
      then show ?thesis using 2(2) [OF False True] 2(4) by (simp only: eq if_True) simp
    next
      case ev: False
      then show ?thesis using 2(3) [OF False ev] 2(4) by (simp only: eq if_False) simp
    qed
  qed
qed simp

lemma bucket_stream_outcomes:
  "map pe_ItemPath (done_events (concat (map (migrate_bucket ss transfer m st n) bs))) = map omi_SrcPath bs"
  by (induction bs) (simp_all add: one_outcome_path [OF bucket_outcome])

lemma launched_split: "launched done i bs = (xs, c) \<Longrightarrow> bs = xs @ (case c of None \<Rightarrow> [] | Some b \<Rightarrow> b # drop (Suc (length xs)) bs)"
proof (induction bs arbitrary: i xs c)
  case (Cons b bs)
  obtain xs' c' where rest: "launched done (Suc i) bs = (xs', c')" by (meson surj_pair)
  show ?case using Cons.prems rest Cons.IH [OF rest] by (cases c') (auto split: if_splits)
qed simp

text \<open>
  Migrating the buckets of an entry accounts for every bucket when it is not cancelled: whatever
  order the goroutines run in and however their outcomes interleave with the progress of
  later buckets, exactly one outcome is sent for each. When it is cancelled, only the bucket the
  loop had reached is reported, as cancelled: the outcomes of those already transferred stay
  in the result channel and are never sent.
\<close>

lemma buckets_reported_unless_cancelled:
  assumes "migrate_object_storage srt ss env m st n = (evs, err)"
    and "\<And>xs. mset (be_order env xs) = mset xs" and "\<And>xs. mset (srt xs) = mset xs"
  shows "(err = None \<longrightarrow> image_mset pe_ItemPath (mset (done_events evs)) = image_mset omi_SrcPath (mset (mos_Buckets m)))
    \<and> (err \<noteq> None \<longrightarrow> (\<exists>b\<in>set (mos_Buckets m). done_events evs = [cancelled_event (omi_SrcPath b)]))"
proof -
  obtain bs stop where l: "launched (be_cancelled env) 0 (srt (mos_Buckets m)) = (bs, stop)" by (meson surj_pair)
  let ?stream = "concat (map (migrate_bucket ss (be_transfer env) m st n) (be_order env bs))"
  have paths: "map pe_ItemPath (done_events ?stream) = map omi_SrcPath (be_order env bs)" by (rule bucket_stream_outcomes)
  note split = launched_split [OF l]
  show ?thesis
  proof (cases stop)
    case None
    then have evs: "evs = forward (be_schedule env) [] ?stream" "err = None" and bs: "srt (mos_Buckets m) = bs"
      using assms(1) split by (auto simp: migrate_object_storage_def l)
    have "image_mset pe_ItemPath (mset (done_events evs)) = mset (map pe_ItemPath (done_events ?stream))"
      using forward_outcomes [of "[]" "be_schedule env" ?stream] by (simp add: evs)
    also have "\<dots> = image_mset omi_SrcPath (mset (mos_Buckets m))"
      using assms(2) [of bs] assms(3) [of "mos_Buckets m"] bs by (simp only: paths mset_map)
    finally show ?thesis using evs by simp
  next
    case (Some b)
    then have "evs = filter (\<lambda>ev. pe_Kind ev = EventTick) ?stream @ [cancelled_event (omi_SrcPath b)]" "err = Some EntryCancelled"
      using assms(1) by (auto simp: migrate_object_storage_def l)
    moreover have "done_events (filter (\<lambda>ev. pe_Kind ev = EventTick) ?stream) = []"
      by (simp add: done_events_def filter_empty_conv)
    moreover have "b \<in> set (srt (mos_Buckets m))" using split Some by (simp, metis in_set_conv_decomp)
    then have "b \<in> set (mos_Buckets m)" using assms(3) by (metis set_mset_mset)
    ultimately show ?thesis by auto
  qed
qed

text \<open>
  Migrating the folders of an entry accounts for every folder, in order, a failed one never
  stopping the rest, unless it is cancelled, which is reported at the folder whose turn it was
  and ends the entry; but when the source connection cannot be resolved the entry ends with no
  event at all, so nothing it was asked to move is reported.
\<close>

lemma folders_reported_unless_unresolved:
  assumes "migrate_file_system srt ss ctx m st n = (evs, err)"
  shows "(\<exists>k \<le> length (srt (mfs_Folders m)).
        map pe_ItemPath (done_events evs) = map fmi_SrcPath (take k (srt (mfs_Folders m)))
      \<and> (err = None \<longrightarrow> k = length (srt (mfs_Folders m)))
      \<and> (err = Some EntryCancelled \<longrightarrow> 0 < k \<and> last evs = cancelled_event (fmi_SrcPath (srt (mfs_Folders m) ! (k - 1)))))
    \<and> (\<forall>e. err = Some (EntrySource e) \<longleftrightarrow> resolve_ssh_config ss (mfs_SrcConnection m) = Inl e)
    \<and> (\<forall>e. err = Some (EntrySource e) \<longrightarrow> evs = [])"
proof (cases "resolve_ssh_config ss (mfs_SrcConnection m)")
  case (Inl e)
  then show ?thesis using assms by (auto simp: migrate_file_system_def)
next
  case (Inr ssh)
  obtain evs' c where run: "migrate_folders ss ctx ssh m st n 0 (srt (mfs_Folders m)) = (evs', c)" by (meson surj_pair)
  then have "evs = evs'" "err = (if c then Some EntryCancelled else None)"
    using assms by (auto simp: migrate_file_system_def Inr)
  then show ?thesis using migrate_folders_outcomes [OF run] Inr by auto
qed

section \<open>Witnesses\<close>

definition store_sample :: store_services where
  "store_sample = \<lparr>ss_services = sample_services, ss_beetle_ssh = (\<lambda>_. Inl ''down''), ss_url = (\<lambda>_. Inl ''no url''),
     ss_tumblebug = (''tb:1323'', ''u'', ''p'')\<rparr>"

definition broken_storage :: "string option \<Rightarrow> storage_transfers" where
  "broken_storage err m = \<lparr>sr_Ticks = [zero_storage_progress], sr_End = TransferDone err, sr_Final = zero_storage_progress\<rparr>"

definition two_folders :: "connection_ref \<Rightarrow> migration_file_system_model" where
  "two_folders src = \<lparr>mfs_PlanEntryID = ''e1'', mfs_SrcConnection = src, mfs_DstConnection = empty_ref ConnectionSourceDB,
     mfs_DstType = [], mfs_Strategy = [],
     mfs_Folders = [\<lparr>fmi_Order = 0, fmi_SrcPath = ''/a'', fmi_DstPath = ''/x'', fmi_Rules = []\<rparr>,
                    \<lparr>fmi_Order = 1, fmi_SrcPath = ''/b'', fmi_DstPath = ''/y'', fmi_Rules = []\<rparr>], mfs_Errors = []\<rparr>"

definition two_buckets :: migration_object_storage_model where
  "two_buckets = \<lparr>mos_PlanEntryID = ''e2'', mos_SrcConnection = empty_ref ConnectionSourceDB,
     mos_DstConnection = empty_ref ConnectionSourceDB, mos_DstType = [],
     mos_Buckets = [\<lparr>omi_Order = 0, omi_SrcPath = ''a'', omi_DstPath = ''x'', omi_Rules = []\<rparr>,
                    \<lparr>omi_Order = 1, omi_SrcPath = ''b'', omi_DstPath = ''y'', omi_Rules = []\<rparr>], mos_Errors = [], mos_Strategy = []\<rparr>"

lemma decrypt_empty: "decrypt_ref s (empty_ref k) = Inr (empty_ref k)"
  by (rule decrypt_ref_plain) (simp add: ref_secrets_def empty_ref_def)

lemma unresolvable: "resolve_ssh_config store_sample (empty_ref ConnectionSourceDB) = Inl (StoreSource ConnectionSourceDB)"
  by (simp add: resolve_ssh_config_def decrypt_empty) (simp add: empty_ref_def)

lemma folders_reported_example:
  "migrate_file_system (\<lambda>fs. fs) store_sample ctx (two_folders (empty_ref ConnectionSourceDB)) [] 0 = ([], Some (EntrySource (StoreSource ConnectionSourceDB)))"
proof -
  obtain evs err where run: "migrate_file_system (\<lambda>fs. fs) store_sample ctx (two_folders (empty_ref ConnectionSourceDB)) [] 0 = (evs, err)"
    by (meson surj_pair)
  from folders_reported_unless_unresolved [OF this] show ?thesis
    using unresolvable by (simp add: run) (simp add: two_folders_def)
qed

lemma buckets_reported_unless_cancelled_witness:
  "\<exists>b\<in>set (mos_Buckets two_buckets).
     done_events (fst (migrate_object_storage (\<lambda>bs. bs) store_sample
       \<lparr>be_cancelled = (\<lambda>i. i = 1), be_order = rev, be_transfer = broken_storage None, be_schedule = []\<rparr> two_buckets [] 0))
     = [cancelled_event (omi_SrcPath b)]"
proof -
  let ?env = "\<lparr>be_cancelled = (\<lambda>i. i = 1), be_order = rev, be_transfer = broken_storage None, be_schedule = []\<rparr>"
  obtain evs err where run: "migrate_object_storage (\<lambda>bs. bs) store_sample ?env two_buckets [] 0 = (evs, err)" by (meson surj_pair)
  have "launched (be_cancelled ?env) 0 (mos_Buckets two_buckets) = ([mos_Buckets two_buckets ! 0], Some (mos_Buckets two_buckets ! 1))"
    by (simp add: two_buckets_def)
  then have "err \<noteq> None" using run by (auto simp: migrate_object_storage_def Let_def)
  with buckets_reported_unless_cancelled [OF run] show ?thesis by (simp only: run fst_conv) simp
qed

end
