(* ===== verification/MigrationExecutor.thy ===== *)
theory MigrationExecutor
  imports StorageMigrate "HOL-Library.AList"
begin

text \<open>
  The executor of a migration run, \<open>pkg/core/migration/executor.go\<close>: the loop over the plan's
  entries, the accounting of their events in the migration record, the log rows, and the
  retry of a failed migration. What a run writes to the database is a list of writes; a write
  that fails is only logged, except the first one, whose verdict is a parameter. Validation
  columns of the record are left out, the id of a row is the database's.
\<close>

section \<open>The record and its rows\<close>

record migration =
  mg_ID :: string
  mg_Name :: string
  mg_Description :: string
  mg_Plan :: target_data_migration_property
  mg_DBMSOnFailure :: string
  mg_StagingDir :: string
  mg_Concurrency :: int
  mg_Status :: string
  mg_StatusMessage :: string
  mg_TotalItems :: int
  mg_ProcessedItems :: int
  mg_FailedItems :: int
  mg_TransferredBytes :: int
  mg_CurrentObject :: string
  mg_CurrentStep :: int
  mg_CurrentSteps :: int
  mg_CurrentStepName :: string
  mg_CurrentStepDetail :: string
  mg_CurrentUnits :: int
  mg_CurrentUnitsTotal :: int
  mg_CurrentRows :: int
  mg_CurrentBytesTotal :: int
  mg_StartedAt :: "int option"
  mg_CompletedAt :: "int option"

record migration_log =
  ml_MigrationID :: string
  ml_PlanEntryID :: string
  ml_ItemPath :: string
  ml_Status :: string
  ml_ErrorMsg :: string
  ml_FailedObjectKind :: string
  ml_FailedObjectName :: string
  ml_SizeBytes :: int
  ml_AppliedConcurrency :: int
  ml_ConcurrencyNote :: string
  ml_TargetCreated :: bool
  ml_RollbackStatus :: string
  ml_RollbackErrorMsg :: string

datatype dao_write = SaveMigration migration | CreateLog migration_log

datatype migration_error = FromStorage storage_item_error | FromDbms item_error

definition lift_event :: "('e \<Rightarrow> 'f) \<Rightarrow> 'e progress_event \<Rightarrow> 'f progress_event" where
  "lift_event f ev =
     \<lparr>pe_Kind = pe_Kind ev, pe_ItemPath = pe_ItemPath ev, pe_Current = pe_Current ev, pe_Step = pe_Step ev,
      pe_Steps = pe_Steps ev, pe_StepName = pe_StepName ev, pe_StepDetail = pe_StepDetail ev, pe_Rows = pe_Rows ev,
      pe_Units = pe_Units ev, pe_UnitsTotal = pe_UnitsTotal ev, pe_BytesTotal = pe_BytesTotal ev, pe_Status = pe_Status ev,
      pe_SizeBytes = pe_SizeBytes ev, pe_TargetCreated = pe_TargetCreated ev, pe_Concurrency = pe_Concurrency ev,
      pe_ConcurrencyNote = pe_ConcurrencyNote ev, pe_Err = map_option f (pe_Err ev)\<rparr>"

section \<open>Accounting\<close>

text \<open>\<open>inflight\<close> is a Go map from item paths to running totals: an association list without duplicates.\<close>

record progress_tracker =
  pt_doneBytes :: int
  pt_inflight :: "(string \<times> int) list"
  pt_lastTick :: "int option"

definition new_progress_tracker :: "migration \<Rightarrow> progress_tracker" where
  "new_progress_tracker m = \<lparr>pt_doneBytes = mg_TransferredBytes m, pt_inflight = [], pt_lastTick = None\<rparr>"

definition tracker_total :: "progress_tracker \<Rightarrow> int" where
  "tracker_total t = pt_doneBytes t + sum_list (map snd (pt_inflight t))"

abbreviation tickInterval :: int where "tickInterval \<equiv> 1000000000"

text \<open>A tick read at \<open>now\<close>: the record, the tracker, and whether it is written.\<close>

definition tracker_tick ::
  "int \<Rightarrow> 'e progress_event \<Rightarrow> migration \<Rightarrow> progress_tracker \<Rightarrow> migration \<times> progress_tracker \<times> bool" where
  "tracker_tick now ev m t =
     (if pe_SizeBytes ev < 0 then (m, t, False)
      else (let t1 = t\<lparr>pt_inflight := AList.update (pe_ItemPath ev) (pe_SizeBytes ev) (pt_inflight t)\<rparr>;
                m1 = m\<lparr>mg_TransferredBytes := tracker_total t1,
                       mg_CurrentObject := (if pe_Current ev \<noteq> [] then pe_Current ev else mg_CurrentObject m),
                       mg_CurrentStep := pe_Step ev, mg_CurrentSteps := pe_Steps ev, mg_CurrentStepName := pe_StepName ev,
                       mg_CurrentStepDetail := pe_StepDetail ev, mg_CurrentUnits := pe_Units ev,
                       mg_CurrentUnitsTotal := pe_UnitsTotal ev, mg_CurrentRows := pe_Rows ev,
                       mg_CurrentBytesTotal := pe_BytesTotal ev\<rparr>
            in case pt_lastTick t of
                 Some prev \<Rightarrow> (if now - prev < tickInterval then (m1, t1, False) else (m1, t1\<lparr>pt_lastTick := Some now\<rparr>, True))
               | None \<Rightarrow> (m1, t1\<lparr>pt_lastTick := Some now\<rparr>, True)))"

definition tracker_done :: "'e progress_event \<Rightarrow> migration \<Rightarrow> progress_tracker \<Rightarrow> migration \<times> progress_tracker \<times> bool" where
  "tracker_done ev m t =
     (let t1 = t\<lparr>pt_inflight := AList.delete (pe_ItemPath ev) (pt_inflight t),
                 pt_doneBytes := pt_doneBytes t + (if pe_SizeBytes ev > 0 then pe_SizeBytes ev else 0)\<rparr>;
          failed = (pe_Status ev = ''failed'')
      in (m\<lparr>mg_ProcessedItems := mg_ProcessedItems m + 1, mg_CurrentObject := [], mg_CurrentStep := 0, mg_CurrentSteps := 0,
            mg_CurrentStepName := [], mg_CurrentStepDetail := [], mg_CurrentUnits := 0, mg_CurrentUnitsTotal := 0,
            mg_CurrentRows := 0, mg_CurrentBytesTotal := 0, mg_TransferredBytes := tracker_total t1,
            mg_FailedItems := mg_FailedItems m + (if failed then 1 else 0)\<rparr>, t1, failed))"

definition count_plan_items :: "target_data_migration_property \<Rightarrow> int" where
  "count_plan_items p =
     int (sum_list (map (\<lambda>fs. length (mfs_Folders fs)) (tdm_FileSystems p))
          + sum_list (map (\<lambda>oss. length (mos_Buckets oss)) (tdm_ObjectStorages p))
          + sum_list (map (\<lambda>db. length (mdb_Databases db)) (tdm_Databases p)))"

text \<open>What \<open>errors.As\<close> finds of an \<open>ObjectError\<close> in an item's error: its kind, owner and name.\<close>

record error_views =
  ev_text :: "migration_error \<Rightarrow> string"
  ev_object :: "migration_error \<Rightarrow> (string \<times> string \<times> string) option"

definition failed_object :: "error_views \<Rightarrow> migration_error option \<Rightarrow> string \<times> string" where
  "failed_object views err =
     (case err of
        None \<Rightarrow> ([], [])
      | Some e \<Rightarrow>
          (case ev_object views e of
             None \<Rightarrow> ([], [])
           | Some (kind, owner, name) \<Rightarrow> (kind, if name \<noteq> [] \<and> owner \<noteq> [] then owner @ ''.'' @ name else name)))"

definition error_text :: "error_views \<Rightarrow> migration_error option \<Rightarrow> string" where
  "error_text views err = (case err of None \<Rightarrow> [] | Some e \<Rightarrow> ev_text views e)"

text \<open>The row of a finished item, without and with the outcome of a cleanup before a retry.\<close>

definition item_log :: "error_views \<Rightarrow> string \<Rightarrow> string \<Rightarrow> migration_error progress_event \<Rightarrow> migration_log" where
  "item_log views migrationID planEntryID ev =
     \<lparr>ml_MigrationID = migrationID, ml_PlanEntryID = planEntryID, ml_ItemPath = pe_ItemPath ev, ml_Status = pe_Status ev,
      ml_ErrorMsg = error_text views (pe_Err ev), ml_FailedObjectKind = fst (failed_object views (pe_Err ev)),
      ml_FailedObjectName = snd (failed_object views (pe_Err ev)), ml_SizeBytes = pe_SizeBytes ev,
      ml_AppliedConcurrency = pe_Concurrency ev, ml_ConcurrencyNote = pe_ConcurrencyNote ev,
      ml_TargetCreated = False, ml_RollbackStatus = [], ml_RollbackErrorMsg = []\<rparr>"

type_synonym rollback_outcome = "string \<times> string"

fun is_cancelled_error :: "migration_error \<Rightarrow> bool" where
  "is_cancelled_error (FromStorage StorageItemCancelled) = True"
| "is_cancelled_error (FromDbms ItemCancelled) = True"
| "is_cancelled_error e = False"

definition rollback_status_for :: "migration_error progress_event \<Rightarrow> bool \<Rightarrow> string" where
  "rollback_status_for ev keep =
     (if pe_Status ev = ''success'' then []
      else if keep \<and> pe_Status ev = ''failed'' \<and> \<not> (\<exists>e. pe_Err ev = Some e \<and> is_cancelled_error e) then ''skipped''
      else ''success'')"

definition item_log_with_rollback ::
  "error_views \<Rightarrow> (string \<Rightarrow> rollback_outcome option) \<Rightarrow> bool \<Rightarrow> string \<Rightarrow> string \<Rightarrow> migration_error progress_event \<Rightarrow> migration_log" where
  "item_log_with_rollback views rollbackOf keep migrationID planEntryID ev =
     (let rb = (if pe_TargetCreated ev then (rollback_status_for ev keep, [])
                else (case rollbackOf (pe_ItemPath ev) of None \<Rightarrow> ([], []) | Some r \<Rightarrow> r))
      in (item_log views migrationID planEntryID ev)
           \<lparr>ml_TargetCreated := pe_TargetCreated ev, ml_RollbackStatus := fst rb, ml_RollbackErrorMsg := snd rb\<rparr>)"

text \<open>
  \<open>drainProgress\<close> and \<open>drainProgressWithRollback\<close> differ in the row they write. Each event comes
  with the time it is read at.
\<close>

record drain_state =
  ds_m :: migration
  ds_t :: progress_tracker
  ds_writes :: "dao_write list"
  ds_failed :: bool

definition drain_event ::
  "('e progress_event \<Rightarrow> migration_log) \<Rightarrow> int \<times> 'e progress_event \<Rightarrow> drain_state \<Rightarrow> drain_state" where
  "drain_event row x s =
     (if pe_Kind (snd x) = EventTick then
        (let (m, t, save) = tracker_tick (fst x) (snd x) (ds_m s) (ds_t s)
         in s\<lparr>ds_m := m, ds_t := t, ds_writes := ds_writes s @ (if save then [SaveMigration m] else [])\<rparr>)
      else
        (let (m, t, failed) = tracker_done (snd x) (ds_m s) (ds_t s)
         in s\<lparr>ds_m := m, ds_t := t, ds_failed := ds_failed s \<or> failed,
              ds_writes := ds_writes s @ [CreateLog (row (snd x)), SaveMigration m]\<rparr>))"

definition drain_progress ::
  "('e progress_event \<Rightarrow> migration_log) \<Rightarrow> (int \<times> 'e progress_event) list \<Rightarrow> migration \<Rightarrow> drain_state" where
  "drain_progress row evs m =
     fold (drain_event row) evs \<lparr>ds_m = m, ds_t = new_progress_tracker m, ds_writes = [], ds_failed = False\<rparr>"

section \<open>A run\<close>

text \<open>
  What a run meets. The context is done from the \<open>k\<close>-th reading on when \<open>rx_cancel\<close> is
  \<open>Some k\<close>; readings are made before each entry, numbered through the three kinds, and at the end.
\<close>

record exec_env =
  rx_store :: store_services
  rx_answers :: ddl_answers
  rx_ddl_text :: "ddl_error \<Rightarrow> string"
  rx_views :: error_views
  rx_sort_fs :: "fs_migration_info list \<Rightarrow> fs_migration_info list"
  rx_sort_os :: "object_migration_info list \<Rightarrow> object_migration_info list"
  rx_sort_db :: "db_migration_info list \<Rightarrow> db_migration_info list"
  rx_fs :: "nat \<Rightarrow> nat \<Rightarrow> storage_item_env"
  rx_os :: "nat \<Rightarrow> bucket_env"
  rx_db :: "nat \<Rightarrow> nat \<Rightarrow> item_env"
  rx_cancel :: "nat option"
  rx_clock :: "nat \<Rightarrow> nat \<Rightarrow> int"
  rx_saved :: bool
  rx_started :: int
  rx_completed :: int
  rx_config_staging :: string
  rx_config_concurrency :: int
  rx_rollback :: "dbms_location \<Rightarrow> string option"
  rx_resolve_text :: "resolve_error \<Rightarrow> string"
  rx_target_text :: "target_error \<Rightarrow> string"

definition resolve_staging_dir :: "exec_env \<Rightarrow> string \<Rightarrow> string" where
  "resolve_staging_dir env requested = (if requested \<noteq> [] then requested else rx_config_staging env)"

definition resolve_concurrency :: "exec_env \<Rightarrow> int \<Rightarrow> int" where
  "resolve_concurrency env requested = (if requested > 0 then requested else rx_config_concurrency env)"

definition ctx_done :: "exec_env \<Rightarrow> nat \<Rightarrow> bool" where
  "ctx_done env i = (case rx_cancel env of None \<Rightarrow> False | Some k \<Rightarrow> k \<le> i)"

definition timed :: "exec_env \<Rightarrow> nat \<Rightarrow> 'e progress_event list \<Rightarrow> (int \<times> 'e progress_event) list" where
  "timed env i evs = map (\<lambda>(j, ev). (rx_clock env i j, ev)) (enumerate 0 evs)"

definition reports_of :: "item_step list \<Rightarrow> item_error progress_event list" where
  "reports_of steps = concat (map (\<lambda>s. case s of Report ev \<Rightarrow> [ev] | _ \<Rightarrow> []) steps)"

definition dbms_run_env :: "exec_env \<Rightarrow> migration \<Rightarrow> DbmsMigrate.run_env" where
  "dbms_run_env env m =
     \<lparr>re_services = ss_services (rx_store env), re_answers = rx_answers env, re_text = rx_ddl_text env,
      re_onFailure = mg_DBMSOnFailure m, re_stagingDir = resolve_staging_dir env (mg_StagingDir m),
      re_concurrency = resolve_concurrency env (mg_Concurrency m)\<rparr>"

definition fs_events :: "exec_env \<Rightarrow> migration \<Rightarrow> nat \<Rightarrow> migration_file_system_model \<Rightarrow> migration_error progress_event list" where
  "fs_events env m i fs =
     map (lift_event FromStorage) (fst (migrate_file_system (rx_sort_fs env) (rx_store env) (rx_fs env i) fs
       (resolve_staging_dir env (mg_StagingDir m)) (resolve_concurrency env (mg_Concurrency m))))"

definition os_events :: "exec_env \<Rightarrow> migration \<Rightarrow> nat \<Rightarrow> migration_object_storage_model \<Rightarrow> migration_error progress_event list" where
  "os_events env m i oss =
     map (lift_event FromStorage) (fst (migrate_object_storage (rx_sort_os env) (rx_store env) (rx_os env i) oss
       (resolve_staging_dir env (mg_StagingDir m)) (resolve_concurrency env (mg_Concurrency m))))"

definition db_events :: "exec_env \<Rightarrow> migration \<Rightarrow> nat \<Rightarrow> migration_db_model \<Rightarrow> migration_error progress_event list" where
  "db_events env m i db =
     map (lift_event FromDbms) (reports_of (fst (migrate_dbms (rx_sort_db env) (dbms_run_env env m) (rx_db env i) db)))"

text \<open>
  The state of a run: the record in memory, what it wrote, whether anything failed, and the target
  databases a retry sent a drop of everything to, each with the plan entry and the item it was for.
\<close>

record run_state =
  rs_m :: migration
  rs_writes :: "dao_write list"
  rs_failed :: bool
  rs_emptied :: "(string \<times> string \<times> dbms_location) list"

definition absorb :: "drain_state \<Rightarrow> run_state \<Rightarrow> run_state" where
  "absorb d s = s\<lparr>rs_m := ds_m d, rs_writes := rs_writes s @ ds_writes d, rs_failed := rs_failed s \<or> ds_failed d\<rparr>"

text \<open>One loop over entries: it ends at the first entry the context is done before.\<close>

fun run_entries :: "(nat \<Rightarrow> bool) \<Rightarrow> (nat \<Rightarrow> 'm \<Rightarrow> 's \<Rightarrow> 's) \<Rightarrow> nat \<Rightarrow> 'm list \<Rightarrow> 's \<Rightarrow> 's" where
  "run_entries done step i [] s = s"
| "run_entries done step i (x # xs) s = (if done i then s else run_entries done step (Suc i) xs (step i x s))"

definition run_entry ::
  "exec_env \<Rightarrow> (nat \<Rightarrow> 'm \<Rightarrow> migration_error progress_event list) \<Rightarrow> ('m \<Rightarrow> string) \<Rightarrow> nat \<Rightarrow> 'm \<Rightarrow> run_state \<Rightarrow> run_state" where
  "run_entry env events entryID i x s =
     absorb (drain_progress (item_log (rx_views env) (mg_ID (rs_m s)) (entryID x)) (timed env i (events i x)) (rs_m s)) s"

definition start_run :: "exec_env \<Rightarrow> migration \<Rightarrow> migration" where
  "start_run env m =
     m\<lparr>mg_Status := ''running'', mg_StartedAt := Some (rx_started env), mg_TotalItems := count_plan_items (mg_Plan m)\<rparr>"

definition run_plan :: "exec_env \<Rightarrow> target_data_migration_property \<Rightarrow> run_state \<Rightarrow> run_state" where
  "run_plan env p s0 =
     (let nf = length (tdm_FileSystems p); no = length (tdm_ObjectStorages p); m = rs_m s0;
          s1 = run_entries (ctx_done env) (run_entry env (fs_events env m) mfs_PlanEntryID) 0 (tdm_FileSystems p) s0;
          s2 = run_entries (ctx_done env) (run_entry env (os_events env m) mos_PlanEntryID) nf (tdm_ObjectStorages p) s1
      in run_entries (ctx_done env) (run_entry env (db_events env m) mdb_PlanEntryID) (nf + no) (tdm_Databases p) s2)"

abbreviation identical_message :: string where
  "identical_message \<equiv> ''No files transferred: source and destination are already identical.''"

definition readings :: "target_data_migration_property \<Rightarrow> nat" where
  "readings p = length (tdm_FileSystems p) + length (tdm_ObjectStorages p) + length (tdm_Databases p)"

definition finish_run :: "exec_env \<Rightarrow> target_data_migration_property \<Rightarrow> run_state \<Rightarrow> run_state" where
  "finish_run env p s =
     (let m = (rs_m s)\<lparr>mg_CompletedAt := Some (rx_completed env)\<rparr>;
          m1 = (if ctx_done env (readings p) then m\<lparr>mg_Status := ''cancelled''\<rparr>
                else if rs_failed s then m\<lparr>mg_Status := ''failed''\<rparr>
                else (let c = m\<lparr>mg_Status := ''completed''\<rparr>
                      in if tdm_FileSystems p \<noteq> [] \<and> tdm_ObjectStorages p = [] \<and> tdm_Databases p = []
                            \<and> mg_TransferredBytes c = 0
                         then c\<lparr>mg_StatusMessage := identical_message\<rparr> else c))
      in s\<lparr>rs_m := m1, rs_writes := rs_writes s @ [SaveMigration m1]\<rparr>)"

definition execute_migration :: "exec_env \<Rightarrow> migration \<Rightarrow> run_state" where
  "execute_migration env m =
     (let m0 = start_run env m; s0 = \<lparr>rs_m = m0, rs_writes = [SaveMigration m0], rs_failed = False, rs_emptied = []\<rparr>
      in if rx_saved env then finish_run env (mg_Plan m) (run_plan env (mg_Plan m) s0) else s0)"

section \<open>What the accounting adds up to\<close>

fun logs_of :: "dao_write list \<Rightarrow> migration_log list" where
  "logs_of [] = []"
| "logs_of (CreateLog l # ws) = l # logs_of ws"
| "logs_of (SaveMigration m # ws) = logs_of ws"

lemma logs_of_append [simp]: "logs_of (xs @ ys) = logs_of xs @ logs_of ys"
  by (induction xs rule: logs_of.induct) simp_all

definition failed_events :: "'e progress_event list \<Rightarrow> 'e progress_event list" where
  "failed_events evs = filter (\<lambda>ev. pe_Status ev = ''failed'') (done_events evs)"

text \<open>The items still running after some events and where each has got to.\<close>

definition note_event :: "'e progress_event \<Rightarrow> (string \<rightharpoonup> int) \<Rightarrow> (string \<rightharpoonup> int)" where
  "note_event ev r =
     (if pe_Kind ev = EventDone then r(pe_ItemPath ev := None)
      else if pe_SizeBytes ev < 0 then r else r(pe_ItemPath ev \<mapsto> pe_SizeBytes ev))"

definition running :: "'e progress_event list \<Rightarrow> (string \<rightharpoonup> int)" where
  "running evs = fold note_event evs Map.empty"

abbreviation positive :: "int \<Rightarrow> int" where "positive n \<equiv> if n > 0 then n else 0"

definition moved_bytes :: "'e progress_event list \<Rightarrow> int" where
  "moved_bytes evs = sum_list (map (\<lambda>ev. positive (pe_SizeBytes ev)) (done_events evs))
     + sum (\<lambda>p. the (running evs p)) (dom (running evs))"

lemma event_kind_cases: "pe_Kind ev \<noteq> EventTick \<longleftrightarrow> pe_Kind ev = EventDone"
  by (cases "pe_Kind ev") simp_all

lemma tick_counters:
  "tracker_tick now ev m t = (m', t', save) \<Longrightarrow>
     mg_ProcessedItems m' = mg_ProcessedItems m \<and> mg_FailedItems m' = mg_FailedItems m \<and> mg_TotalItems m' = mg_TotalItems m
     \<and> mg_ID m' = mg_ID m \<and> mg_Status m' = mg_Status m \<and> mg_StatusMessage m' = mg_StatusMessage m"
  by (auto simp: tracker_tick_def Let_def split: if_splits option.splits)

lemma tick_tracker:
  "tracker_tick now ev m t = (m', t', save) \<Longrightarrow> pt_doneBytes t' = pt_doneBytes t \<and>
     pt_inflight t' = (if pe_SizeBytes ev < 0 then pt_inflight t
                       else AList.update (pe_ItemPath ev) (pe_SizeBytes ev) (pt_inflight t)) \<and>
     mg_TransferredBytes m' = (if pe_SizeBytes ev < 0 then mg_TransferredBytes m else tracker_total t')"
  by (auto simp: tracker_tick_def tracker_total_def Let_def split: if_splits option.splits)

text \<open>What holds of the drain after each event, seen from the record it started with.\<close>

definition accounted :: "('e progress_event \<Rightarrow> migration_log) \<Rightarrow> migration \<Rightarrow> 'e progress_event list \<Rightarrow> drain_state \<Rightarrow> bool" where
  "accounted row m evs s \<longleftrightarrow>
     mg_ProcessedItems (ds_m s) = mg_ProcessedItems m + int (length (done_events evs))
   \<and> mg_FailedItems (ds_m s) = mg_FailedItems m + int (length (failed_events evs))
   \<and> mg_TotalItems (ds_m s) = mg_TotalItems m \<and> mg_ID (ds_m s) = mg_ID m
   \<and> mg_Status (ds_m s) = mg_Status m \<and> mg_StatusMessage (ds_m s) = mg_StatusMessage m
   \<and> logs_of (ds_writes s) = map row (done_events evs)
   \<and> (ds_failed s \<longleftrightarrow> failed_events evs \<noteq> [])"

definition tracked :: "migration \<Rightarrow> 'e progress_event list \<Rightarrow> drain_state \<Rightarrow> bool" where
  "tracked m evs s \<longleftrightarrow>
     distinct (map fst (pt_inflight (ds_t s))) \<and> map_of (pt_inflight (ds_t s)) = running evs
   \<and> pt_doneBytes (ds_t s) = mg_TransferredBytes m + sum_list (map (\<lambda>ev. positive (pe_SizeBytes ev)) (done_events evs))
   \<and> mg_TransferredBytes (ds_m s) = tracker_total (ds_t s)"

lemma accounted_step:
  assumes "accounted row m evs s"
  shows "accounted row m (evs @ [ev]) (drain_event row (now, ev) s)"
proof (cases "pe_Kind ev = EventTick")
  case True
  obtain m' t' save where t: "tracker_tick now ev (ds_m s) (ds_t s) = (m', t', save)" by (cases "tracker_tick now ev (ds_m s) (ds_t s)")
  show ?thesis using assms tick_counters [OF t] True
    by (simp add: accounted_def drain_event_def t failed_events_def)
next
  case False
  then show ?thesis using assms
    by (simp add: accounted_def drain_event_def tracker_done_def Let_def failed_events_def event_kind_cases)
qed

lemma running_snoc: "running (evs @ [ev]) = note_event ev (running evs)"
  by (simp add: running_def)

lemma tracked_step:
  assumes "tracked m evs s"
  shows "tracked m (evs @ [ev]) (drain_event row (now, ev) s)"
proof (cases "pe_Kind ev = EventTick")
  case True
  obtain m' t' save where t: "tracker_tick now ev (ds_m s) (ds_t s) = (m', t', save)" by (cases "tracker_tick now ev (ds_m s) (ds_t s)")
  show ?thesis using assms tick_tracker [OF t] True
    by (simp add: tracked_def drain_event_def t running_snoc note_event_def distinct_update update_conv' tracker_total_def)
next
  case False
  then show ?thesis using assms
    by (simp add: tracked_def drain_event_def tracker_done_def Let_def running_snoc note_event_def event_kind_cases
        distinct_delete delete_conv' tracker_total_def)
qed

lemma drain_invariants:
  "accounted row m (map snd evs) (drain_progress row evs m) \<and> tracked m (map snd evs) (drain_progress row evs m)"
proof (induction evs rule: rev_induct)
  case Nil
  then show ?case
    by (simp add: accounted_def tracked_def drain_progress_def new_progress_tracker_def running_def failed_events_def tracker_total_def)
next
  case (snoc x evs)
  then show ?case
    using accounted_step [of row m "map snd evs" "drain_progress row evs m" "snd x" "fst x"]
      tracked_step [of m "map snd evs" "drain_progress row evs m" "snd x" row "fst x"]
    by (simp add: drain_progress_def)
qed

lemma sum_of_alist: "distinct (map fst al) \<Longrightarrow> sum_list (map snd al) = (\<Sum>k\<in>dom (map_of al). the (map_of al k))"
proof (induction al)
  case (Cons x al)
  then have "fst x \<notin> dom (map_of al)" by (simp add: dom_map_of_conv_image_fst)
  moreover have "(\<Sum>k\<in>dom (map_of al). the (((map_of al)(fst x \<mapsto> snd x)) k)) = (\<Sum>k\<in>dom (map_of al). the (map_of al k))"
    using calculation by (intro sum.cong) auto
  ultimately show ?case using Cons by (cases x) (simp add: finite_dom_map_of fun_upd_same del: fun_upd_apply)
qed simp

text \<open>
  C24: The record adds up whatever order events come in: the items processed, the items failed and
  the log rows are those of the finished items, one each; and the bytes are what the finished
  items moved plus where each unfinished one has got to, so a progress report never counts the
  same bytes twice and an unknown count never takes any away.
\<close>

theorem record_adds_up:
  "let s = drain_progress row evs m; seen = map snd evs
   in mg_ProcessedItems (ds_m s) = mg_ProcessedItems m + int (length (done_events seen))
    \<and> mg_FailedItems (ds_m s) = mg_FailedItems m + int (length (failed_events seen))
    \<and> mg_TransferredBytes (ds_m s) = mg_TransferredBytes m + moved_bytes seen
    \<and> logs_of (ds_writes s) = map row (done_events seen)
    \<and> (ds_failed s \<longleftrightarrow> failed_events seen \<noteq> [])"
  using drain_invariants [of row m evs] sum_of_alist [of "pt_inflight (ds_t (drain_progress row evs m))"]
  by (simp add: Let_def accounted_def tracked_def moved_bytes_def tracker_total_def)

section \<open>A whole run\<close>

text \<open>A run's state after all events so far, seen from the state it started in.\<close>

definition counts :: "run_state \<Rightarrow> migration_error progress_event list \<Rightarrow> run_state \<Rightarrow> bool" where
  "counts s0 evs s \<longleftrightarrow>
     mg_ProcessedItems (rs_m s) = mg_ProcessedItems (rs_m s0) + int (length (done_events evs))
   \<and> mg_FailedItems (rs_m s) = mg_FailedItems (rs_m s0) + int (length (failed_events evs))
   \<and> mg_TotalItems (rs_m s) = mg_TotalItems (rs_m s0)
   \<and> length (logs_of (rs_writes s)) = length (logs_of (rs_writes s0)) + length (done_events evs)
   \<and> (rs_failed s \<longleftrightarrow> rs_failed s0 \<or> failed_events evs \<noteq> [])"

lemma counts_start: "counts s [] s"
  by (simp add: counts_def failed_events_def)

lemma map_snd_timed [simp]: "map snd (timed env i evs) = evs"
  by (simp add: timed_def case_prod_unfold) (simp add: comp_def flip: map_map)

lemma run_entry_counts: "counts s0 evs s \<Longrightarrow> counts s0 (evs @ events i x) (run_entry env events entryID i x s)"
  using drain_invariants [of "item_log (rx_views env) (mg_ID (rs_m s)) (entryID x)" "rs_m s" "timed env i (events i x)"]
  by (auto simp: counts_def run_entry_def absorb_def accounted_def failed_events_def)

lemma run_entries_counts:
  assumes "\<And>i. \<not> done i" and "counts s0 evs s"
  shows "counts s0 (evs @ concat (map (\<lambda>(j, x). events j x) (enumerate i xs))) (run_entries done (run_entry env events entryID) i xs s)"
  using assms(2)
proof (induction xs arbitrary: i s evs)
  case (Cons x xs)
  from Cons.IH [OF run_entry_counts [OF Cons.prems, of events i x env entryID], of "Suc i"]
  show ?case using assms(1) by simp
qed simp

definition plan_events :: "exec_env \<Rightarrow> migration \<Rightarrow> target_data_migration_property \<Rightarrow> migration_error progress_event list" where
  "plan_events env m p =
     (let nf = length (tdm_FileSystems p); no = length (tdm_ObjectStorages p)
      in concat (map (\<lambda>(i, fs). fs_events env m i fs) (enumerate 0 (tdm_FileSystems p)))
         @ concat (map (\<lambda>(i, oss). os_events env m i oss) (enumerate nf (tdm_ObjectStorages p)))
         @ concat (map (\<lambda>(i, db). db_events env m i db) (enumerate (nf + no) (tdm_Databases p))))"

text \<open>The rows of a run, by plan entry and item, and what the plan holds.\<close>

definition row_key :: "migration_log \<Rightarrow> string \<times> string" where
  "row_key l = (ml_PlanEntryID l, ml_ItemPath l)"

definition plan_items :: "target_data_migration_property \<Rightarrow> (string \<times> string) list" where
  "plan_items p =
     concat (map (\<lambda>fs. map (\<lambda>d. (mfs_PlanEntryID fs, fmi_SrcPath d)) (mfs_Folders fs)) (tdm_FileSystems p))
     @ concat (map (\<lambda>oss. map (\<lambda>b. (mos_PlanEntryID oss, omi_SrcPath b)) (mos_Buckets oss)) (tdm_ObjectStorages p))
     @ concat (map (\<lambda>db. map (\<lambda>d. (mdb_PlanEntryID db, item_path (mdb_DBType db) (dmi_SrcName d))) (mdb_Databases db)) (tdm_Databases p))"

text \<open>The rows the finished items of some entries leave, and those of a whole plan, in the order written.\<close>

definition entry_rows ::
  "exec_env \<Rightarrow> string \<Rightarrow> (nat \<Rightarrow> 'm \<Rightarrow> migration_error progress_event list) \<Rightarrow> ('m \<Rightarrow> string) \<Rightarrow> nat \<Rightarrow> 'm list \<Rightarrow> migration_log list" where
  "entry_rows env mid events entryID i xs =
     concat (map (\<lambda>(j, x). map (item_log (rx_views env) mid (entryID x)) (done_events (events j x))) (enumerate i xs))"

definition plan_rows :: "exec_env \<Rightarrow> migration \<Rightarrow> target_data_migration_property \<Rightarrow> migration_log list" where
  "plan_rows env m p =
     (let nf = length (tdm_FileSystems p); no = length (tdm_ObjectStorages p)
      in entry_rows env (mg_ID m) (fs_events env m) mfs_PlanEntryID 0 (tdm_FileSystems p)
         @ entry_rows env (mg_ID m) (os_events env m) mos_PlanEntryID nf (tdm_ObjectStorages p)
         @ entry_rows env (mg_ID m) (db_events env m) mdb_PlanEntryID (nf + no) (tdm_Databases p))"

lemma run_entry_rows_written:
  "logs_of (rs_writes (run_entry env events entryID i x s))
     = logs_of (rs_writes s) @ map (item_log (rx_views env) (mg_ID (rs_m s)) (entryID x)) (done_events (events i x))
   \<and> mg_ID (rs_m (run_entry env events entryID i x s)) = mg_ID (rs_m s)"
  using drain_invariants [of "item_log (rx_views env) (mg_ID (rs_m s)) (entryID x)" "rs_m s" "timed env i (events i x)"]
  by (simp add: run_entry_def absorb_def accounted_def)

lemma run_entries_rows_written:
  assumes "\<And>i. \<not> done i"
  shows "logs_of (rs_writes (run_entries done (run_entry env events entryID) i xs s))
      = logs_of (rs_writes s) @ entry_rows env (mg_ID (rs_m s)) events entryID i xs
    \<and> mg_ID (rs_m (run_entries done (run_entry env events entryID) i xs s)) = mg_ID (rs_m s)"
proof (induction xs arbitrary: i s)
  case (Cons x xs)
  then show ?case using run_entry_rows_written [of env events entryID i x s] assms by (simp add: entry_rows_def)
qed (simp add: entry_rows_def)

lemma run_plan_rows_written:
  assumes "rx_cancel env = None"
  shows "logs_of (rs_writes (run_plan env p s0)) = logs_of (rs_writes s0) @ plan_rows env (rs_m s0) p"
proof -
  have alive: "\<not> ctx_done env i" for i by (simp add: ctx_done_def assms)
  show ?thesis by (simp add: run_plan_def plan_rows_def Let_def run_entries_rows_written [OF alive])
qed

lemma entry_rows_keys:
  assumes "\<And>j x. x \<in> set xs \<Longrightarrow> mset (map pe_ItemPath (done_events (events j x))) = mset (items x)"
  shows "mset (map row_key (entry_rows env mid events entryID i xs)) = mset (concat (map (\<lambda>x. map (Pair (entryID x)) (items x)) xs))"
  using assms
proof (induction xs arbitrary: i)
  case (Cons x xs)
  have keys: "map row_key (map (item_log (rx_views env) mid e) evs) = map (Pair e) (map pe_ItemPath evs)" for e evs
    by (simp add: row_key_def item_log_def)
  have here: "mset (map row_key (map (item_log (rx_views env) mid (entryID x)) (done_events (events i x)))) = mset (map (Pair (entryID x)) (items x))"
    unfolding keys mset_map using Cons.prems [of x i] by simp
  have "mset (map row_key (entry_rows env mid events entryID (Suc i) xs)) = mset (concat (map (\<lambda>x. map (Pair (entryID x)) (items x)) xs))"
    by (rule Cons.IH, rule Cons.prems, simp)
  with here show ?case by (simp add: entry_rows_def)
qed (simp add: entry_rows_def)

lemma entry_rows_own: "list_all (\<lambda>l. ml_MigrationID l = mid) (entry_rows env mid events entryID i xs)"
  by (auto simp: entry_rows_def list_all_iff item_log_def)

lemma entry_rows_failed:
  "length (filter (\<lambda>l. ml_Status l = ''failed'') (entry_rows env mid events entryID i xs))
     = length (failed_events (concat (map (\<lambda>(j, x). events j x) (enumerate i xs))))"
proof (induction xs arbitrary: i)
  case (Cons x xs)
  have "filter (\<lambda>l. ml_Status l = ''failed'') (map (item_log v mid e) (done_events evs)) = map (item_log v mid e) (failed_events evs)" for v e evs
    by (simp add: failed_events_def filter_map comp_def item_log_def)
  then show ?case using Cons [of "Suc i"] by (simp add: entry_rows_def failed_events_def)
qed (simp add: entry_rows_def failed_events_def)

lemma failed_events_append: "failed_events (xs @ ys) = failed_events xs @ failed_events ys"
  by (simp add: failed_events_def)

lemma plan_rows_all:
  "list_all (\<lambda>l. ml_MigrationID l = mg_ID m) (plan_rows env m p)"
  "length (filter (\<lambda>l. ml_Status l = ''failed'') (plan_rows env m p)) = length (failed_events (plan_events env m p))"
  by (simp_all add: plan_rows_def plan_events_def Let_def entry_rows_own entry_rows_failed failed_events_append)

lemma run_plan_counts:
  assumes "rx_cancel env = None"
  shows "counts s0 (plan_events env (rs_m s0) p) (run_plan env p s0)"
proof -
  have alive: "\<not> ctx_done env i" for i by (simp add: ctx_done_def assms)
  note step = run_entries_counts [OF alive]
  show ?thesis unfolding run_plan_def plan_events_def Let_def
    using step [OF step [OF step [OF counts_start]]] by simp
qed

text \<open>Nothing is cancelled and every source resolves: each entry's migration returns no error.\<close>

definition entries_return :: "exec_env \<Rightarrow> migration \<Rightarrow> target_data_migration_property \<Rightarrow> bool" where
  "entries_return env m p \<longleftrightarrow>
     (\<forall>fs\<in>set (tdm_FileSystems p). \<forall>i st n. snd (migrate_file_system (rx_sort_fs env) (rx_store env) (rx_fs env i) fs st n) = None)
   \<and> (\<forall>oss\<in>set (tdm_ObjectStorages p). \<forall>i st n. snd (migrate_object_storage (rx_sort_os env) (rx_store env) (rx_os env i) oss st n) = None)
   \<and> (\<forall>db\<in>set (tdm_Databases p). \<forall>i. snd (migrate_dbms (rx_sort_db env) (dbms_run_env env m) (rx_db env i) db) = None)"

text \<open>Sorting and scheduling rearrange and nothing else.\<close>

definition rearranges :: "exec_env \<Rightarrow> bool" where
  "rearranges env \<longleftrightarrow> (\<forall>xs. mset (rx_sort_fs env xs) = mset xs) \<and> (\<forall>xs. mset (rx_sort_os env xs) = mset xs)
     \<and> (\<forall>xs. mset (rx_sort_db env xs) = mset xs) \<and> (\<forall>i xs. mset (be_order (rx_os env i) xs) = mset xs)"

lemma done_lift [simp]: "done_events (map (lift_event f) evs) = map (lift_event f) (done_events evs)"
  by (induction evs) (simp_all add: lift_event_def)

lemma done_reports: "done_events (reports_of steps) = outcomes steps"
  by (induction steps rule: outcomes.induct) (simp_all add: reports_of_def)

lemma mset_length: "mset xs = mset ys \<Longrightarrow> length xs = length ys"
  by (rule mset_eq_length)

text \<open>The items an entry finishes are its items, each one once.\<close>

lemma lifted_path [simp]: "pe_ItemPath (lift_event f ev) = pe_ItemPath ev"
  by (simp add: lift_event_def)

lemma fs_outcome_paths:
  assumes "snd (migrate_file_system srt ss ctx m st n) = None" and "mset (srt (mfs_Folders m)) = mset (mfs_Folders m)"
  shows "mset (map pe_ItemPath (done_events (fst (migrate_file_system srt ss ctx m st n)))) = mset (map fmi_SrcPath (mfs_Folders m))"
proof (cases "resolve_ssh_config ss (mfs_SrcConnection m)")
  case (Inl e)
  then show ?thesis using assms(1) by (simp add: migrate_file_system_def)
next
  case (Inr ssh)
  obtain evs c where run: "migrate_folders ss ctx ssh m st n 0 (srt (mfs_Folders m)) = (evs, c)" by (meson surj_pair)
  then have "\<not> c" using assms(1) by (auto simp: migrate_file_system_def Inr split: if_splits)
  then have "map pe_ItemPath (done_events evs) = map fmi_SrcPath (srt (mfs_Folders m))"
    using migrate_folders_outcomes [OF run] by auto
  then have "mset (map pe_ItemPath (done_events evs)) = mset (map fmi_SrcPath (mfs_Folders m))"
    using assms(2) by (simp only: mset_map)
  then show ?thesis by (simp add: migrate_file_system_def Inr run)
qed

lemma os_outcome_paths:
  assumes "snd (migrate_object_storage srt ss env m st n) = None"
    and "mset (srt (mos_Buckets m)) = mset (mos_Buckets m)" and "\<And>xs. mset (be_order env xs) = mset xs"
  shows "mset (map pe_ItemPath (done_events (fst (migrate_object_storage srt ss env m st n)))) = mset (map omi_SrcPath (mos_Buckets m))"
proof -
  obtain bs stop where l: "launched (be_cancelled env) 0 (srt (mos_Buckets m)) = (bs, stop)" by (meson surj_pair)
  have stop: "stop = None" using assms(1) by (cases stop) (simp_all add: migrate_object_storage_def l)
  let ?stream = "concat (map (migrate_bucket ss (be_transfer env) m st n) (be_order env bs))"
  have "fst (migrate_object_storage srt ss env m st n) = forward (be_schedule env) [] ?stream"
    by (simp add: migrate_object_storage_def l stop)
  moreover have "map pe_ItemPath (done_events (forward (be_schedule env) [] ?stream)) = map omi_SrcPath (be_order env bs)"
    using bucket_stream_outcomes by (simp add: forward_outcomes)
  moreover have "mset (be_order env bs) = mset (mos_Buckets m)" using launched_split [OF l] stop assms(2, 3) by simp
  ultimately show ?thesis by (metis mset_map)
qed

lemma db_outcome_paths:
  assumes "snd (migrate_dbms srt env ctx m) = None" and "mset (srt (mdb_Databases m)) = mset (mdb_Databases m)"
  shows "mset (map pe_ItemPath (done_events (reports_of (fst (migrate_dbms srt env ctx m)))))
    = mset (map (\<lambda>d. item_path (mdb_DBType m) (dmi_SrcName d)) (mdb_Databases m))"
proof -
  obtain steps where run: "migrate_items env ctx m 0 (srt (mdb_Databases m)) = (steps, None)"
    using assms(1) by (metis migrate_dbms_def prod.collapse)
  have "map pe_ItemPath (outcomes steps) = map (\<lambda>d. item_path (mdb_DBType m) (dmi_SrcName d)) (srt (mdb_Databases m))"
    using migrate_items_outcomes [OF run] by auto
  then have "mset (map pe_ItemPath (outcomes steps)) = mset (map (\<lambda>d. item_path (mdb_DBType m) (dmi_SrcName d)) (mdb_Databases m))"
    using assms(2) by (simp only: mset_map)
  then show ?thesis by (simp add: migrate_dbms_def run done_reports)
qed

lemma event_paths_of_plan:
  assumes "entries_return env m p" and "rearranges env"
  shows "\<And>i fs. fs \<in> set (tdm_FileSystems p) \<Longrightarrow> mset (map pe_ItemPath (done_events (fs_events env m i fs))) = mset (map fmi_SrcPath (mfs_Folders fs))"
    and "\<And>i oss. oss \<in> set (tdm_ObjectStorages p) \<Longrightarrow> mset (map pe_ItemPath (done_events (os_events env m i oss))) = mset (map omi_SrcPath (mos_Buckets oss))"
    and "\<And>i db. db \<in> set (tdm_Databases p) \<Longrightarrow> mset (map pe_ItemPath (done_events (db_events env m i db)))
      = mset (map (\<lambda>d. item_path (mdb_DBType db) (dmi_SrcName d)) (mdb_Databases db))"
  using assms
  by (simp_all only: fs_events_def os_events_def db_events_def entries_return_def rearranges_def done_lift map_map comp_def lifted_path
      fs_outcome_paths os_outcome_paths db_outcome_paths)

lemma plan_rows_keys:
  assumes "entries_return env m p" and "rearranges env"
  shows "mset (map row_key (plan_rows env m p)) = mset (plan_items p)"
proof -
  note keys = event_paths_of_plan [OF assms]
  have "mset (map row_key (entry_rows env (mg_ID m) (fs_events env m) mfs_PlanEntryID i (tdm_FileSystems p)))
      = mset (concat (map (\<lambda>fs. map (Pair (mfs_PlanEntryID fs)) (map fmi_SrcPath (mfs_Folders fs))) (tdm_FileSystems p)))" for i
    by (rule entry_rows_keys, rule keys(1))
  moreover have "mset (map row_key (entry_rows env (mg_ID m) (os_events env m) mos_PlanEntryID i (tdm_ObjectStorages p)))
      = mset (concat (map (\<lambda>oss. map (Pair (mos_PlanEntryID oss)) (map omi_SrcPath (mos_Buckets oss))) (tdm_ObjectStorages p)))" for i
    by (rule entry_rows_keys, rule keys(2))
  moreover have "mset (map row_key (entry_rows env (mg_ID m) (db_events env m) mdb_PlanEntryID i (tdm_Databases p)))
      = mset (concat (map (\<lambda>db. map (Pair (mdb_PlanEntryID db))
          (map (\<lambda>d. item_path (mdb_DBType db) (dmi_SrcName d)) (mdb_Databases db))) (tdm_Databases p)))" for i
    by (rule entry_rows_keys, rule keys(3))
  ultimately show ?thesis by (simp only: plan_rows_def plan_items_def Let_def map_append mset_append map_map comp_def)
qed

lemma plan_items_count: "int (length (plan_items p)) = count_plan_items p"
  by (simp add: plan_items_def count_plan_items_def length_concat comp_def)

lemma entry_rows_length:
  "length (entry_rows env mid events entryID i xs) = length (done_events (concat (map (\<lambda>(j, x). events j x) (enumerate i xs))))"
  by (induction xs arbitrary: i) (simp_all add: entry_rows_def)

lemma plan_rows_length: "length (plan_rows env m p) = length (done_events (plan_events env m p))"
  by (simp add: plan_rows_def plan_events_def Let_def entry_rows_length)

text \<open>
  C25: A run that is not cancelled and whose entries all get under way accounts for its whole plan
  item by item: the log rows are, taken as a collection, the items of the plan, each under its own
  plan entry and path and none twice over or missing; every row is of this migration, and as many
  read failed as the record counts; the items processed end at the total the run announced; and
  the run ends completed exactly when no item failed, failed otherwise. Sorting and scheduling
  are assumed to rearrange the items and nothing else, and the record to start from zero.
\<close>

theorem every_item_accounted:
  assumes "rx_saved env" and "rx_cancel env = None" and "rearranges env"
    and "entries_return env (start_run env m) (mg_Plan m)"
    and "mg_ProcessedItems m = 0" and "mg_FailedItems m = 0"
  shows "let r = execute_migration env m; rows = logs_of (rs_writes r)
    in mset (map row_key rows) = mset (plan_items (mg_Plan m))
     \<and> list_all (\<lambda>l. ml_MigrationID l = mg_ID m) rows
     \<and> mg_FailedItems (rs_m r) = int (length (filter (\<lambda>l. ml_Status l = ''failed'') rows))
     \<and> mg_ProcessedItems (rs_m r) = mg_TotalItems (rs_m r) \<and> mg_TotalItems (rs_m r) = count_plan_items (mg_Plan m)
     \<and> int (length rows) = mg_TotalItems (rs_m r)
     \<and> mg_Status (rs_m r) = (if mg_FailedItems (rs_m r) = 0 then ''completed'' else ''failed'')"
proof -
  let ?m = "start_run env m" and ?p = "mg_Plan m"
  define s0 where "s0 = \<lparr>rs_m = ?m, rs_writes = [SaveMigration ?m], rs_failed = False, rs_emptied = []\<rparr>"
  have c: "counts s0 (plan_events env ?m ?p) (run_plan env ?p s0)"
    using run_plan_counts [OF assms(2), of s0] by (simp add: s0_def)
  have rows: "logs_of (rs_writes (run_plan env ?p s0)) = plan_rows env ?m ?p"
    using run_plan_rows_written [OF assms(2), of ?p s0] by (simp add: s0_def)
  note keys = plan_rows_keys [OF assms(4,3)]
  have len: "int (length (done_events (plan_events env ?m ?p))) = count_plan_items ?p"
    using mset_eq_length [OF keys] plan_items_count [of ?p] by (simp add: plan_rows_length)
  have alive: "\<not> ctx_done env i" for i by (simp add: ctx_done_def assms(2))
  have run: "execute_migration env m = finish_run env ?p (run_plan env ?p s0)"
    by (simp add: execute_migration_def assms(1) s0_def Let_def)
  define s where "s = run_plan env ?p s0"
  define evs where "evs = plan_events env ?m ?p"
  have written: "logs_of (rs_writes (finish_run env ?p s)) = plan_rows env ?m ?p"
    using rows by (simp add: finish_run_def Let_def s_def)
  have ends: "mg_ProcessedItems (rs_m (finish_run env ?p s)) = mg_ProcessedItems (rs_m s)
      \<and> mg_FailedItems (rs_m (finish_run env ?p s)) = mg_FailedItems (rs_m s) \<and> mg_TotalItems (rs_m (finish_run env ?p s)) = mg_TotalItems (rs_m s)
      \<and> mg_Status (rs_m (finish_run env ?p s)) = (if rs_failed s then ''failed'' else ''completed'')"
    by (simp add: finish_run_def Let_def alive)
  have sums: "mg_ProcessedItems (rs_m s) = count_plan_items ?p" "mg_FailedItems (rs_m s) = int (length (failed_events evs))"
      "mg_TotalItems (rs_m s) = count_plan_items ?p" "rs_failed s \<longleftrightarrow> failed_events evs \<noteq> []"
    using c len assms(5,6) by (simp_all add: counts_def s_def evs_def s0_def start_run_def)
  have all: "list_all (\<lambda>l. ml_MigrationID l = mg_ID m) (plan_rows env ?m ?p)"
      "length (filter (\<lambda>l. ml_Status l = ''failed'') (plan_rows env ?m ?p)) = length (failed_events evs)"
    using plan_rows_all [where m = ?m and env = env and p = ?p] by (simp_all add: evs_def) (simp_all add: start_run_def)
  show ?thesis unfolding run Let_def s_def [symmetric] written using keys ends sums all mset_eq_length [OF keys] plan_items_count [of ?p]
    by simp
qed

text \<open>
  C26: A folder whose source connection cannot be resolved is lost without a trace: when no entry of
  a file system plan resolves, the run ends as completed, with no item processed, no log row,
  and the message that source and destination are already identical.
\<close>

theorem unresolved_source_reads_as_identical:
  assumes "rx_saved env" and "rx_cancel env = None" and "mg_TransferredBytes m = 0"
    and "tdm_FileSystems (mg_Plan m) \<noteq> []" and "tdm_ObjectStorages (mg_Plan m) = []" and "tdm_Databases (mg_Plan m) = []"
    and "\<And>fs. fs \<in> set (tdm_FileSystems (mg_Plan m)) \<Longrightarrow> \<exists>e. resolve_ssh_config (rx_store env) (mfs_SrcConnection fs) = Inl e"
  shows "let r = execute_migration env m
    in mg_Status (rs_m r) = ''completed'' \<and> mg_StatusMessage (rs_m r) = identical_message
     \<and> mg_ProcessedItems (rs_m r) = mg_ProcessedItems m \<and> logs_of (rs_writes r) = []"
proof -
  have alive: "\<not> ctx_done env i" for i by (simp add: ctx_done_def assms(2))
  have idle: "run_entries (ctx_done env) (run_entry env (fs_events env m') mfs_PlanEntryID) i fss s = s"
    if "set fss \<subseteq> set (tdm_FileSystems (mg_Plan m))" for fss i s m'
    using that
  proof (induction fss arbitrary: i)
    case (Cons fs fss)
    then obtain e where "resolve_ssh_config (rx_store env) (mfs_SrcConnection fs) = Inl e"
      using assms(7) [of fs] Cons.prems by auto
    then have "fs_events env m' i fs = []" by (simp add: fs_events_def migrate_file_system_def)
    then have "run_entry env (fs_events env m') mfs_PlanEntryID i fs s = s"
      by (simp add: run_entry_def timed_def drain_progress_def absorb_def)
    then show ?case using Cons by (simp add: alive)
  qed simp
  have "run_plan env (mg_Plan m) s = s" for s
    by (simp add: run_plan_def assms(5,6) idle)
  then show ?thesis
    by (simp add: execute_migration_def assms Let_def finish_run_def alive start_run_def)
qed

section \<open>Retrying\<close>

record failed_set =
  fset_byEntry :: "(string \<times> string) list"
  fset_byPath :: "string list"
  fset_legacy :: bool

definition new_failed_set :: "migration_log list \<Rightarrow> failed_set" where
  "new_failed_set logs =
     \<lparr>fset_byEntry = map (\<lambda>l. (ml_PlanEntryID l, ml_ItemPath l)) logs, fset_byPath = map ml_ItemPath logs,
      fset_legacy = list_ex (\<lambda>l. ml_PlanEntryID l = []) logs\<rparr>"

definition failed_has :: "failed_set \<Rightarrow> string \<Rightarrow> string \<Rightarrow> bool" where
  "failed_has s planEntryID itemPath =
     (if fset_legacy s then itemPath \<in> set (fset_byPath s) else (planEntryID, itemPath) \<in> set (fset_byEntry s))"

datatype retry_error =
    InvalidRetryMode string
  | RetryLoad string
  | RetryStatus string string
  | RetryLogs string
  | RetryCreate string

text \<open>
  \<open>Retry\<close>: what the database answers is a parameter, and so is the new identifier. The goroutine
  starts from the record created here, with the mode and the items that failed.
\<close>

definition retry_record :: "string \<Rightarrow> migration \<Rightarrow> migration" where
  "retry_record newID orig =
     orig\<lparr>mg_ID := newID, mg_Name := mg_Name orig @ '' (retry-'' @ take 8 newID @ '')'', mg_Status := ''pending'',
          mg_StatusMessage := [], mg_TotalItems := 0, mg_ProcessedItems := 0, mg_FailedItems := 0, mg_TransferredBytes := 0,
          mg_CurrentObject := [], mg_CurrentStep := 0, mg_CurrentSteps := 0, mg_CurrentStepName := [],
          mg_CurrentStepDetail := [], mg_CurrentUnits := 0, mg_CurrentUnitsTotal := 0, mg_CurrentRows := 0,
          mg_CurrentBytesTotal := 0, mg_StartedAt := None, mg_CompletedAt := None\<rparr>"

definition retry_migration ::
  "(string \<Rightarrow> string + migration) \<Rightarrow> (string \<Rightarrow> string + migration_log list) \<Rightarrow> (migration \<Rightarrow> string option) \<Rightarrow> string \<Rightarrow>
   string \<Rightarrow> string \<Rightarrow> retry_error + migration \<times> string \<times> failed_set option" where
  "retry_migration get failedLogs create newID migrationID mode0 =
     (let mode = (if mode0 = [] then ''partial'' else mode0)
      in if mode \<noteq> ''partial'' \<and> mode \<noteq> ''full'' then Inl (InvalidRetryMode mode)
         else bind_res (map_err RetryLoad (get migrationID)) (\<lambda>orig.
           if mg_Status orig \<noteq> ''failed'' \<and> mg_Status orig \<noteq> ''cancelled'' then Inl (RetryStatus migrationID (mg_Status orig))
           else bind_res (if mode = ''partial''
                          then map_err RetryLogs (bind_res (failedLogs migrationID) (\<lambda>logs. Inr (Some (new_failed_set logs))))
                          else Inr None) (\<lambda>failed.
             check (map_option RetryCreate (create (retry_record newID orig)))
               (Inr (retry_record newID orig, mode, failed)))))"

section \<open>The run of a retry\<close>

text \<open>The mode is partial exactly when there is a set of failed items to go by.\<close>

definition add_total :: "nat \<Rightarrow> run_state \<Rightarrow> run_state" where
  "add_total n s = s\<lparr>rs_m := (rs_m s)\<lparr>mg_TotalItems := mg_TotalItems (rs_m s) + int n\<rparr>\<rparr>"

definition retry_fs ::
  "exec_env \<Rightarrow> migration \<Rightarrow> failed_set option \<Rightarrow> nat \<Rightarrow> migration_file_system_model \<Rightarrow> run_state \<Rightarrow> run_state" where
  "retry_fs env m failed i fs s =
     (case failed of
        None \<Rightarrow> run_entry env (fs_events env m) mfs_PlanEntryID i fs s
      | Some f \<Rightarrow>
          (let sel = filter (\<lambda>d. failed_has f (mfs_PlanEntryID fs) (fmi_SrcPath d)) (mfs_Folders fs)
           in if sel = [] then s
              else run_entry env (fs_events env m) mfs_PlanEntryID i (fs\<lparr>mfs_Folders := sel\<rparr>) (add_total (length sel) s)))"

definition retry_os ::
  "exec_env \<Rightarrow> migration \<Rightarrow> failed_set option \<Rightarrow> nat \<Rightarrow> migration_object_storage_model \<Rightarrow> run_state \<Rightarrow> run_state" where
  "retry_os env m failed i oss s =
     (case failed of
        None \<Rightarrow> run_entry env (os_events env m) mos_PlanEntryID i oss s
      | Some f \<Rightarrow>
          (let sel = filter (\<lambda>b. failed_has f (mos_PlanEntryID oss) (omi_SrcPath b)) (mos_Buckets oss)
           in if sel = [] then s
              else run_entry env (os_events env m) mos_PlanEntryID i (oss\<lparr>mos_Buckets := sel\<rparr>) (add_total (length sel) s)))"

text \<open>\<open>failItem\<close>: an item that failed before it could be migrated.\<close>

definition retry_fail_item :: "string \<Rightarrow> string \<Rightarrow> string \<Rightarrow> rollback_outcome \<Rightarrow> run_state \<Rightarrow> run_state" where
  "retry_fail_item planEntryID itemPath errMsg rb s =
     (let m = (rs_m s)\<lparr>mg_ProcessedItems := mg_ProcessedItems (rs_m s) + 1, mg_FailedItems := mg_FailedItems (rs_m s) + 1\<rparr>
      in s\<lparr>rs_m := m,
          rs_writes := rs_writes s @
            [CreateLog \<lparr>ml_MigrationID = mg_ID m, ml_PlanEntryID = planEntryID, ml_ItemPath = itemPath, ml_Status = ''failed'',
               ml_ErrorMsg = errMsg, ml_FailedObjectKind = [], ml_FailedObjectName = [], ml_SizeBytes = 0,
               ml_AppliedConcurrency = 0, ml_ConcurrencyNote = [], ml_TargetCreated = False,
               ml_RollbackStatus = fst rb, ml_RollbackErrorMsg = snd rb\<rparr>,
             SaveMigration m], rs_failed := True\<rparr>)"

text \<open>
  What emptying a left-over target database comes to, and the databases the drop was sent to: the
  target when it exists, whether the drop works or not.
\<close>

definition pre_retry_cleanup :: "exec_env \<Rightarrow> connection_ref \<Rightarrow> dbms_location \<Rightarrow> rollback_outcome \<times> dbms_location list" where
  "pre_retry_cleanup env dst dstLoc =
     (case target_database_exists (ss_services (rx_store env)) dst dstLoc of
        Inl e \<Rightarrow> ((''failed'', rx_target_text env e), [])
      | Inr True \<Rightarrow> ((case rx_rollback env dstLoc of Some e \<Rightarrow> (''failed'', e) | None \<Rightarrow> (''success'', [])), [dstLoc])
      | Inr False \<Rightarrow> ((''skipped'', []), []))"

definition note_emptied :: "string \<Rightarrow> string \<Rightarrow> dbms_location list \<Rightarrow> run_state \<Rightarrow> run_state" where
  "note_emptied planEntryID itemPath locs s = s\<lparr>rs_emptied := rs_emptied s @ map (\<lambda>loc. (planEntryID, itemPath, loc)) locs\<rparr>"

record retry_prep =
  rp_s :: run_state
  rp_rollbackOf :: "string \<rightharpoonup> rollback_outcome"
  rp_selected :: "db_migration_info list"

definition retry_prepare ::
  "exec_env \<Rightarrow> failed_set option \<Rightarrow> migration_db_model \<Rightarrow> db_migration_info \<Rightarrow> retry_prep \<Rightarrow> retry_prep" where
  "retry_prepare env failed db d q =
     (let path = item_path (mdb_DBType db) (dmi_SrcName d); dst = mdb_DstConnection db; id = mdb_PlanEntryID db;
          wanted = (case failed of None \<Rightarrow> True | Some f \<Rightarrow> failed_has f id path)
      in if \<not> wanted then q
         else (let s = (if failed = None then rp_s q else add_total 1 (rp_s q))
               in case resolve_dbms_location (ss_services (rx_store env)) dst
                         (if dmi_DstName d = [] then dmi_SrcName d else dmi_DstName d) (mdb_DBType db) of
                    Inl e \<Rightarrow> q\<lparr>rp_s := retry_fail_item id path (''resolve target: '' @ rx_resolve_text env e) ([], []) s\<rparr>
                  | Inr loc \<Rightarrow>
                      (let (srcSchemas, dstSchemas) = split_pg_schemas (dmi_PgSchemas d);
                           (out, sent) = pre_retry_cleanup env dst (loc\<lparr>loc_PgSchema := (if dstSchemas = [] then srcSchemas else dstSchemas)\<rparr>);
                           s = note_emptied id path sent s
                       in if fst out = ''failed''
                          then q\<lparr>rp_s := retry_fail_item id path (''pre-retry cleanup failed: '' @ snd out) (''failed'', snd out) s\<rparr>
                          else q\<lparr>rp_s := s, rp_rollbackOf := (rp_rollbackOf q)(path \<mapsto> out), rp_selected := rp_selected q @ [d]\<rparr>)))"

definition retry_db ::
  "exec_env \<Rightarrow> migration \<Rightarrow> failed_set option \<Rightarrow> nat \<Rightarrow> migration_db_model \<Rightarrow> run_state \<Rightarrow> run_state" where
  "retry_db env m failed i db s =
     (let q = fold (retry_prepare env failed db) (mdb_Databases db) \<lparr>rp_s = s, rp_rollbackOf = Map.empty, rp_selected = []\<rparr>;
          s1 = rp_s q
      in if rp_selected q = [] then s1
         else absorb (drain_progress
                (item_log_with_rollback (rx_views env) (rp_rollbackOf q) (mg_DBMSOnFailure m = DBMSOnFailureKeep)
                   (mg_ID (rs_m s1)) (mdb_PlanEntryID db))
                (timed env i (db_events env m i (db\<lparr>mdb_Databases := rp_selected q\<rparr>))) (rs_m s1)) s1)"

definition retry_run :: "exec_env \<Rightarrow> failed_set option \<Rightarrow> migration \<Rightarrow> run_state" where
  "retry_run env failed m =
     (let m0 = m\<lparr>mg_Status := ''running'', mg_StartedAt := Some (rx_started env), mg_CompletedAt := None,
                 mg_TotalItems := (if failed = None then count_plan_items (mg_Plan m) else mg_TotalItems m)\<rparr>;
          s0 = \<lparr>rs_m = m0, rs_writes = [SaveMigration m0], rs_failed = False, rs_emptied = []\<rparr>; p = mg_Plan m;
          nf = length (tdm_FileSystems p); no = length (tdm_ObjectStorages p)
      in if \<not> rx_saved env then s0
         else (let s1 = run_entries (ctx_done env) (retry_fs env m0 failed) 0 (tdm_FileSystems p) s0;
                   s2 = run_entries (ctx_done env) (retry_os env m0 failed) nf (tdm_ObjectStorages p) s1;
                   s3 = run_entries (ctx_done env) (retry_db env m0 failed) (nf + no) (tdm_Databases p) s2;
                   fin = (rs_m s3)\<lparr>mg_CompletedAt := Some (rx_completed env),
                           mg_Status := (if ctx_done env (readings p) then ''cancelled''
                                         else if rs_failed s3 then ''failed'' else ''completed'')\<rparr>
               in s3\<lparr>rs_m := fin, rs_writes := rs_writes s3 @ [SaveMigration fin]\<rparr>))"

section \<open>What a partial retry touches\<close>

lemma run_entries_invariant:
  assumes "\<And>i x s. x \<in> set xs \<Longrightarrow> P s \<Longrightarrow> P (step i x s)" and "P s"
  shows "P (run_entries done step i xs s)"
  using assms by (induction xs arbitrary: i s) simp_all

lemma drain_logs: "logs_of (ds_writes (drain_progress row evs m)) = map row (done_events (map snd evs))"
  using drain_invariants [of row m evs] by (simp add: accounted_def)

lemma done_paths_subset:
  "map pe_ItemPath (done_events evs) = map f (take k ys) \<Longrightarrow> mset ys = mset xs \<Longrightarrow> ev \<in> set (done_events evs) \<Longrightarrow>
     pe_ItemPath ev \<in> f ` set xs"
  by (metis image_set imageI in_set_takeD mset_eq_setD image_mono subsetD subsetI)

lemma fs_event_paths:
  assumes "rearranges env" and "ev \<in> set (done_events (fs_events env m i fs))"
  shows "pe_ItemPath ev \<in> fmi_SrcPath ` set (mfs_Folders fs)"
proof (cases "resolve_ssh_config (rx_store env) (mfs_SrcConnection fs)")
  case (Inl e)
  then show ?thesis using assms(2) by (simp add: fs_events_def migrate_file_system_def)
next
  case (Inr ssh)
  obtain evs c where run: "migrate_folders (rx_store env) (rx_fs env i) ssh fs (resolve_staging_dir env (mg_StagingDir m))
      (resolve_concurrency env (mg_Concurrency m)) 0 (rx_sort_fs env (mfs_Folders fs)) = (evs, c)" by (meson surj_pair)
  have sorted: "mset (rx_sort_fs env (mfs_Folders fs)) = mset (mfs_Folders fs)" using assms(1) by (simp add: rearranges_def)
  obtain e where "e \<in> set (done_events evs)" "pe_ItemPath ev = pe_ItemPath e"
    using assms(2) run by (auto simp: fs_events_def migrate_file_system_def Inr)
  then show ?thesis using migrate_folders_outcomes [OF run] done_paths_subset [OF _ sorted] by metis
qed

lemma db_event_paths:
  assumes "rearranges env" and "ev \<in> set (done_events (db_events env m i db))"
  shows "pe_ItemPath ev \<in> (\<lambda>d. item_path (mdb_DBType db) (dmi_SrcName d)) ` set (mdb_Databases db)"
proof -
  have sorted: "mset (rx_sort_db env (mdb_Databases db)) = mset (mdb_Databases db)" using assms(1) by (simp add: rearranges_def)
  obtain steps err where run: "migrate_items (dbms_run_env env m) (rx_db env i) db 0 (rx_sort_db env (mdb_Databases db)) = (steps, err)"
    by (meson surj_pair)
  obtain e where e: "e \<in> set (done_events (reports_of steps))" "pe_ItemPath ev = pe_ItemPath e"
    using assms(2) by (auto simp: db_events_def migrate_dbms_def run)
  obtain k where "map pe_ItemPath (done_events (reports_of steps))
      = map (\<lambda>d. item_path (mdb_DBType db) (dmi_SrcName d)) (take k (rx_sort_db env (mdb_Databases db)))"
    using migrate_items_outcomes [OF run] by (auto simp: done_reports)
  from done_paths_subset [OF this sorted e(1)] show ?thesis by (simp add: e(2))
qed

lemma os_event_paths:
  assumes "rearranges env" and "ev \<in> set (done_events (os_events env m i oss))"
  shows "pe_ItemPath ev \<in> omi_SrcPath ` set (mos_Buckets oss)"
proof -
  let ?st = "resolve_staging_dir env (mg_StagingDir m)" and ?n = "resolve_concurrency env (mg_Concurrency m)"
  have sorted: "set (rx_sort_os env (mos_Buckets oss)) = set (mos_Buckets oss)"
    using assms(1) by (metis rearranges_def mset_eq_setD)
  obtain bs stop where l: "launched (be_cancelled (rx_os env i)) 0 (rx_sort_os env (mos_Buckets oss)) = (bs, stop)" by (meson surj_pair)
  let ?stream = "concat (map (migrate_bucket (rx_store env) (be_transfer (rx_os env i)) oss ?st ?n) (be_order (rx_os env i) bs))"
  have order: "set (be_order (rx_os env i) bs) = set bs" using assms(1) by (metis rearranges_def mset_eq_setD)
  have stream: "pe_ItemPath ` set (done_events ?stream) = omi_SrcPath ` set bs"
    using arg_cong [OF bucket_stream_outcomes, of set] by (simp add: order)
  obtain e where e: "e \<in> set (done_events (fst (migrate_object_storage (rx_sort_os env) (rx_store env) (rx_os env i) oss ?st ?n)))"
      "pe_ItemPath ev = pe_ItemPath e" using assms(2) by (auto simp: os_events_def)
  have "pe_ItemPath e \<in> omi_SrcPath ` (set bs \<union> set_option stop)"
  proof (cases stop)
    case None
    then have "e \<in> set (done_events ?stream)" using e(1) by (simp add: migrate_object_storage_def l forward_outcomes)
    then show ?thesis using stream by blast
  next
    case (Some b)
    then have "e = cancelled_event (omi_SrcPath b)"
      using e(1) by (auto simp: migrate_object_storage_def l done_events_def)
    then show ?thesis using Some by simp
  qed
  moreover have "set bs \<union> set_option stop \<subseteq> set (mos_Buckets oss)"
    using arg_cong [OF launched_split [OF l], of set] sorted by (cases stop) auto
  ultimately have "pe_ItemPath e \<in> omi_SrcPath ` set (mos_Buckets oss)" by (meson image_mono subsetD)
  then show ?thesis by (simp only: e(2))
qed

text \<open>Every row written so far is about an item that failed before, and so is every database emptied.\<close>

definition rows_failed :: "failed_set \<Rightarrow> run_state \<Rightarrow> bool" where
  "rows_failed f s \<longleftrightarrow> (\<forall>l\<in>set (logs_of (rs_writes s)). failed_has f (ml_PlanEntryID l) (ml_ItemPath l))
     \<and> (\<forall>(e, p, loc)\<in>set (rs_emptied s). failed_has f e p)"

lemma rows_failed_emptied: "rows_failed f s \<Longrightarrow> failed_has f e p \<Longrightarrow> rows_failed f (note_emptied e p locs s)"
  by (auto simp: rows_failed_def note_emptied_def)

lemma rows_failed_total [simp]: "rows_failed f (add_total n s) = rows_failed f s"
  by (simp add: rows_failed_def add_total_def)

lemma item_log_keys [simp]:
  "ml_PlanEntryID (item_log v i e ev) = e" "ml_ItemPath (item_log v i e ev) = pe_ItemPath ev"
  "ml_PlanEntryID (item_log_with_rollback v r k i e ev) = e" "ml_ItemPath (item_log_with_rollback v r k i e ev) = pe_ItemPath ev"
  by (simp_all add: item_log_def item_log_with_rollback_def Let_def)

lemma run_entry_rows:
  assumes "rows_failed f s" and "\<And>ev. ev \<in> set (done_events (events i x)) \<Longrightarrow> failed_has f (entryID x) (pe_ItemPath ev)"
  shows "rows_failed f (run_entry env events entryID i x s)"
  using assms by (auto simp: rows_failed_def run_entry_def absorb_def drain_logs)

lemma retry_fs_rows:
  assumes "rearranges env" and "rows_failed f s"
  shows "rows_failed f (retry_fs env m (Some f) i fs s)"
proof -
  let ?x = "fs\<lparr>mfs_Folders := filter (\<lambda>d. failed_has f (mfs_PlanEntryID fs) (fmi_SrcPath d)) (mfs_Folders fs)\<rparr>"
  have "failed_has f (mfs_PlanEntryID ?x) (pe_ItemPath ev)" if "ev \<in> set (done_events (fs_events env m i ?x))" for ev
    using fs_event_paths [OF assms(1) that] by auto
  then show ?thesis using assms(2)
    by (simp add: retry_fs_def Let_def run_entry_rows)
qed

lemma retry_os_rows:
  assumes "rearranges env" and "rows_failed f s"
  shows "rows_failed f (retry_os env m (Some f) i oss s)"
proof -
  let ?x = "oss\<lparr>mos_Buckets := filter (\<lambda>b. failed_has f (mos_PlanEntryID oss) (omi_SrcPath b)) (mos_Buckets oss)\<rparr>"
  have "failed_has f (mos_PlanEntryID ?x) (pe_ItemPath ev)" if "ev \<in> set (done_events (os_events env m i ?x))" for ev
    using os_event_paths [OF assms(1) that] by auto
  then show ?thesis using assms(2)
    by (simp add: retry_os_def Let_def run_entry_rows)
qed

definition prep_failed :: "failed_set \<Rightarrow> migration_db_model \<Rightarrow> retry_prep \<Rightarrow> bool" where
  "prep_failed f db q \<longleftrightarrow> rows_failed f (rp_s q)
     \<and> (\<forall>d\<in>set (rp_selected q). failed_has f (mdb_PlanEntryID db) (item_path (mdb_DBType db) (dmi_SrcName d)))"

lemma rows_failed_item: "rows_failed f s \<Longrightarrow> failed_has f e p \<Longrightarrow> rows_failed f (retry_fail_item e p msg rb s)"
  by (simp add: rows_failed_def retry_fail_item_def Let_def)

lemma retry_prepare_rows: "prep_failed f db q \<Longrightarrow> prep_failed f db (retry_prepare env (Some f) db d q)"
  by (auto simp: prep_failed_def retry_prepare_def Let_def rows_failed_item rows_failed_emptied split: sum.split prod.split)

lemma retry_prepares_rows: "prep_failed f db q \<Longrightarrow> prep_failed f db (fold (retry_prepare env (Some f) db) ds q)"
  by (induction ds arbitrary: q) (simp_all add: retry_prepare_rows)

lemma retry_db_rows:
  assumes "rearranges env" and "rows_failed f s"
  shows "rows_failed f (retry_db env m (Some f) i db s)"
proof -
  define q where "q = fold (retry_prepare env (Some f) db) (mdb_Databases db) \<lparr>rp_s = s, rp_rollbackOf = Map.empty, rp_selected = []\<rparr>"
  have q: "prep_failed f db q" unfolding q_def using assms(2) by (intro retry_prepares_rows) (simp add: prep_failed_def)
  have "failed_has f (mdb_PlanEntryID db) (pe_ItemPath ev)"
    if "ev \<in> set (done_events (db_events env m i (db\<lparr>mdb_Databases := rp_selected q\<rparr>)))" for ev
    using db_event_paths [OF assms(1) that] q by (auto simp: prep_failed_def)
  then show ?thesis using q
    by (auto simp: retry_db_def q_def [symmetric] Let_def prep_failed_def rows_failed_def absorb_def drain_logs)
qed

text \<open>
  C27: A partial retry touches only what failed: every item it logs, whether it ran again or failed
  while being prepared, and every item whose target database it empties beforehand, is one for
  which the original run left a failed row under the same plan entry. An item is known by its plan
  entry and its path, or its database type and name, so two items of one entry that share them are
  not told apart; and rows from before entries were recorded, which name no entry, are excluded
  here. Sorting and scheduling are assumed to rearrange the items and nothing else.
\<close>

theorem partial_retry_touches_only_failures:
  assumes "rearranges env" and "\<forall>l\<in>set logs. ml_PlanEntryID l \<noteq> []"
  shows "let r = retry_run env (Some (new_failed_set logs)) m; failed = (\<lambda>e p. \<exists>l\<in>set logs. e = ml_PlanEntryID l \<and> p = ml_ItemPath l)
    in (\<forall>row\<in>set (logs_of (rs_writes r)). failed (ml_PlanEntryID row) (ml_ItemPath row))
     \<and> (\<forall>(e, p, loc)\<in>set (rs_emptied r). failed e p)"
proof -
  let ?f = "new_failed_set logs"
  define m0 where "m0 = m\<lparr>mg_Status := ''running'', mg_StartedAt := Some (rx_started env), mg_CompletedAt := None\<rparr>"
  define s0 where "s0 = \<lparr>rs_m = m0, rs_writes = [SaveMigration m0], rs_failed = False, rs_emptied = []\<rparr>"
  let ?p = "mg_Plan m"
  let ?s = "run_entries (ctx_done env) (retry_db env m0 (Some ?f)) (length (tdm_FileSystems ?p) + length (tdm_ObjectStorages ?p)) (tdm_Databases ?p)
      (run_entries (ctx_done env) (retry_os env m0 (Some ?f)) (length (tdm_FileSystems ?p)) (tdm_ObjectStorages ?p)
        (run_entries (ctx_done env) (retry_fs env m0 (Some ?f)) 0 (tdm_FileSystems ?p) s0))"
  have s: "rows_failed ?f ?s"
    by (rule run_entries_invariant, erule retry_db_rows [OF assms(1)], rule run_entries_invariant, erule retry_os_rows [OF assms(1)],
        rule run_entries_invariant, erule retry_fs_rows [OF assms(1)], simp add: rows_failed_def s0_def)
  have "logs_of (rs_writes (retry_run env (Some ?f) m)) \<in> {[], logs_of (rs_writes ?s)}"
      "rs_emptied (retry_run env (Some ?f) m) \<in> {[], rs_emptied ?s}"
    by (simp_all add: retry_run_def Let_def m0_def s0_def)
  then have "rows_failed ?f (retry_run env (Some ?f) m)" using s by (auto simp: rows_failed_def)
  moreover have "failed_has ?f e p \<longleftrightarrow> (\<exists>l\<in>set logs. e = ml_PlanEntryID l \<and> p = ml_ItemPath l)" for e p
    using assms(2) by (auto simp: new_failed_set_def list_ex_iff failed_has_def)
  ultimately show ?thesis by (simp add: rows_failed_def)
qed

text \<open>
  A partial retry of a run that was cancelled before anything failed does nothing and calls it
  completed: items the run never reached, and those reported as cancelled, have no failed row, so
  nothing is selected; the retry ends completed with no item processed and no row.
\<close>

lemma partial_retry_of_cancelled_run_is_empty:
  assumes "rx_saved env" and "rx_cancel env = None"
  shows "let r = retry_run env (Some (new_failed_set [])) m
    in mg_Status (rs_m r) = ''completed'' \<and> mg_ProcessedItems (rs_m r) = mg_ProcessedItems m
     \<and> mg_TotalItems (rs_m r) = mg_TotalItems m \<and> logs_of (rs_writes r) = []"
proof -
  have none: "\<not> failed_has (new_failed_set []) e p" for e p by (simp add: failed_has_def new_failed_set_def)
  have skip: "run_entries ctx step i xs s = s" if "\<And>i x. step i x s = s" for ctx and step :: "nat \<Rightarrow> 'x \<Rightarrow> run_state \<Rightarrow> run_state" and i xs s
    using that by (induction xs arbitrary: i) simp_all
  have prep: "fold (retry_prepare env (Some (new_failed_set [])) db) ds q = q" for db ds q
    by (induction ds) (simp_all add: retry_prepare_def none)
  have fs: "run_entries ctx (retry_fs env m' (Some (new_failed_set []))) i xs s = s" for ctx m' i xs s
    by (rule skip) (simp add: retry_fs_def none)
  have os: "run_entries ctx (retry_os env m' (Some (new_failed_set []))) i xs s = s" for ctx m' i xs s
    by (rule skip) (simp add: retry_os_def none)
  have db: "run_entries ctx (retry_db env m' (Some (new_failed_set []))) i xs s = s" for ctx m' i xs s
    by (rule skip) (simp add: retry_db_def prep)
  show ?thesis using assms by (simp add: retry_run_def Let_def fs os db ctx_done_def)
qed

section \<open>Witnesses\<close>

definition plain_env :: exec_env where
  "plain_env = \<lparr>rx_store = store_sample, rx_answers = re_answers DbmsMigrate.sample_env, rx_ddl_text = (\<lambda>_. ''ddl''),
     rx_views = \<lparr>ev_text = (\<lambda>_. ''error''), ev_object = (\<lambda>_. None)\<rparr>,
     rx_sort_fs = (\<lambda>xs. xs), rx_sort_os = (\<lambda>xs. xs), rx_sort_db = (\<lambda>xs. xs),
     rx_fs = (\<lambda>_ _. \<lparr>si_cancelled = False, si_transfer = broken_storage None\<rparr>),
     rx_os = (\<lambda>_. \<lparr>be_cancelled = (\<lambda>_. False), be_order = (\<lambda>xs. xs), be_transfer = broken_storage None, be_schedule = []\<rparr>),
     rx_db = (\<lambda>_ _. \<lparr>ie_before = False, ie_transfer = broken_transfer, ie_after = False\<rparr>),
     rx_cancel = None, rx_clock = (\<lambda>i j. int j), rx_saved = True, rx_started = 0, rx_completed = 1,
     rx_config_staging = [], rx_config_concurrency = 0, rx_rollback = (\<lambda>_. None),
     rx_resolve_text = (\<lambda>_. ''resolve''), rx_target_text = (\<lambda>_. ''target'')\<rparr>"

definition folder_run :: "connection_ref \<Rightarrow> migration" where
  "folder_run src = \<lparr>mg_ID = ''m1'', mg_Name = ''n'', mg_Description = [],
     mg_Plan = \<lparr>tdm_FileSystems = [two_folders src], tdm_ObjectStorages = [], tdm_Databases = []\<rparr>,
     mg_DBMSOnFailure = [], mg_StagingDir = [], mg_Concurrency = 0, mg_Status = ''pending'', mg_StatusMessage = [],
     mg_TotalItems = 0, mg_ProcessedItems = 0, mg_FailedItems = 0, mg_TransferredBytes = 0, mg_CurrentObject = [],
     mg_CurrentStep = 0, mg_CurrentSteps = 0, mg_CurrentStepName = [], mg_CurrentStepDetail = [], mg_CurrentUnits = 0,
     mg_CurrentUnitsTotal = 0, mg_CurrentRows = 0, mg_CurrentBytesTotal = 0, mg_StartedAt = None, mg_CompletedAt = None\<rparr>"

definition key_ref :: connection_ref where
  "key_ref = (empty_ref ConnectionSourceSSH)\<lparr>cr_SSH := Some \<lparr>ssh_Host = ''h'', ssh_Port = 22, ssh_Username = ''u'', ssh_PrivateKey = ''k''\<rparr>\<rparr>"

lemma key_ref_resolves: "\<exists>c. resolve_ssh_config store_sample key_ref = Inr c"
proof -
  have "decrypt_ref s key_ref = Inr key_ref" for s
    by (rule decrypt_ref_plain) (auto simp: ref_secrets_def key_ref_def empty_ref_def)
  then show ?thesis by (simp add: resolve_ssh_config_def) (simp add: key_ref_def empty_ref_def)
qed

lemma uncancelled_folders: "(\<And>i. \<not> si_cancelled (ctx i)) \<Longrightarrow> \<not> snd (migrate_folders ss ctx ssh m st n i fs)"
  by (induction fs arbitrary: i) (simp_all add: case_prod_unfold Let_def)

lemma plain_rearranges: "rearranges plain_env"
  by (simp add: rearranges_def plain_env_def)

lemma plain_returns: "entries_return plain_env m (mg_Plan (folder_run key_ref))"
proof -
  obtain c where "resolve_ssh_config store_sample key_ref = Inr c" using key_ref_resolves by blast
  then show ?thesis
    using uncancelled_folders [of "\<lambda>_. \<lparr>si_cancelled = False, si_transfer = broken_storage None\<rparr>"]
    by (simp add: entries_return_def folder_run_def plain_env_def two_folders_def migrate_file_system_def case_prod_unfold Let_def)
qed

theorem every_item_accounted_witness:
  "mg_ProcessedItems (rs_m (execute_migration plain_env (folder_run key_ref))) = 2
   \<and> length (logs_of (rs_writes (execute_migration plain_env (folder_run key_ref)))) = 2"
proof -
  have "count_plan_items (mg_Plan (folder_run key_ref)) = 2" by (simp add: count_plan_items_def folder_run_def two_folders_def)
  then show ?thesis
    using every_item_accounted [of plain_env "folder_run key_ref"] plain_rearranges plain_returns [of "start_run plain_env (folder_run key_ref)"]
    by (simp add: Let_def plain_env_def [THEN arg_cong, of rx_saved] plain_env_def [THEN arg_cong, of rx_cancel])
      (simp add: folder_run_def)
qed

theorem unresolved_source_reads_as_identical_witness:
  "mg_Status (rs_m (execute_migration plain_env (folder_run (empty_ref ConnectionSourceDB)))) = ''completed''
   \<and> mg_StatusMessage (rs_m (execute_migration plain_env (folder_run (empty_ref ConnectionSourceDB)))) = identical_message"
  using unresolved_source_reads_as_identical [of plain_env "folder_run (empty_ref ConnectionSourceDB)"] unresolvable
  by (simp add: Let_def plain_env_def folder_run_def two_folders_def)

lemma partial_retry_of_cancelled_run_is_empty_witness:
  "mg_Status (rs_m (retry_run plain_env (Some (new_failed_set [])) (folder_run key_ref))) = ''completed''"
  using partial_retry_of_cancelled_run_is_empty [of plain_env "folder_run key_ref"] by (simp add: Let_def plain_env_def)

definition failed_row :: "string \<Rightarrow> migration_log" where
  "failed_row path = \<lparr>ml_MigrationID = ''m0'', ml_PlanEntryID = ''e1'', ml_ItemPath = path, ml_Status = ''failed'', ml_ErrorMsg = ''e'',
     ml_FailedObjectKind = [], ml_FailedObjectName = [], ml_SizeBytes = 0, ml_AppliedConcurrency = 0, ml_ConcurrencyNote = [],
     ml_TargetCreated = False, ml_RollbackStatus = [], ml_RollbackErrorMsg = []\<rparr>"

lemma retried_one_folder:
  "\<exists>row. logs_of (rs_writes (retry_run plain_env (Some (new_failed_set [failed_row ''/a''])) (folder_run key_ref))) = [row]"
proof -
  obtain c where src: "resolve_ssh_config store_sample key_ref = Inr c" using key_ref_resolves by blast
  have dst: "resolve_data_mig_loc store_sample (empty_ref ConnectionSourceDB) StorageTypeFilesystem p None
      = Inl (StoreSource ConnectionSourceDB)" for p
    by (simp add: resolve_data_mig_loc_def unresolvable)
  let ?x = "(two_folders key_ref)\<lparr>mfs_Folders := [\<lparr>fmi_Order = 0, fmi_SrcPath = ''/a'', fmi_DstPath = ''/x'', fmi_Rules = []\<rparr>]\<rparr>"
  have "done_events (fs_events plain_env m 0 ?x) = fs_events plain_env m 0 ?x \<and> length (fs_events plain_env m 0 ?x) = 1" for m
    by (simp add: fs_events_def migrate_file_system_def plain_env_def two_folders_def src migrate_folder_def to_data_mig_filter_def dst)
      (simp add: lift_event_def)
  then have one: "length (logs_of (rs_writes (run_entry plain_env (fs_events plain_env m) mfs_PlanEntryID 0 ?x s)))
      = length (logs_of (rs_writes s)) + 1" for m s
    by (simp add: run_entry_def absorb_def drain_logs)
  have sel: "retry_fs plain_env m (Some (new_failed_set [failed_row ''/a''])) 0 (two_folders key_ref) s
      = run_entry plain_env (fs_events plain_env m) mfs_PlanEntryID 0 ?x (add_total 1 s)" for m s
    by (simp add: retry_fs_def two_folders_def failed_has_def new_failed_set_def failed_row_def)
  have "length (logs_of (rs_writes (retry_run plain_env (Some (new_failed_set [failed_row ''/a''])) (folder_run key_ref)))) = 1"
    by (simp add: retry_run_def Let_def folder_run_def plain_env_def [THEN arg_cong, of rx_saved]
        ctx_done_def plain_env_def [THEN arg_cong, of rx_cancel] sel one [unfolded One_nat_def] add_total_def)
  then show ?thesis by (simp add: length_Suc_conv)
qed

theorem partial_retry_touches_only_failures_witness:
  "\<exists>row. logs_of (rs_writes (retry_run plain_env (Some (new_failed_set [failed_row ''/a''])) (folder_run key_ref))) = [row]
     \<and> ml_ItemPath row = ''/a''"
proof -
  obtain row where row: "logs_of (rs_writes (retry_run plain_env (Some (new_failed_set [failed_row ''/a''])) (folder_run key_ref))) = [row]"
    using retried_one_folder by blast
  then have "ml_ItemPath row = ''/a''"
    using partial_retry_touches_only_failures [OF plain_rearranges, of "[failed_row ''/a'']" "folder_run key_ref"]
    by (simp add: failed_row_def Let_def)
  with row show ?thesis by blast
qed

end
