(* ===== verification/RsyncShard.thy ===== *)
theory RsyncShard
  imports S3Transfer
begin

text \<open>
  The parallel phase of an rsync transfer, \<open>executor-rsync-shard.go\<close>: how many processes a
  transfer runs ahead of its final one, which files each is given, the lists they are fed and
  the figures they report as one. Listing the source and running the processes are I/O: the
  files and the interleaving of the processes' reports are arguments.
\<close>

section \<open>How many processes\<close>

abbreviation rsyncMaxShards :: int where "rsyncMaxShards \<equiv> 8"
abbreviation rsyncMinFilesPerShard :: int where "rsyncMinFilesPerShard \<equiv> 50"
abbreviation rsyncMinBytesPerShard :: int where "rsyncMinBytesPerShard \<equiv> 134217728"

datatype shard_note =
    NoNote
  | SingleDryRun
  | SingleFilter
  | CappedShards int
  | SingleListing string
  | SingleSmall nat int
  | FewerShards int int nat int

definition shard_plan :: "int option \<Rightarrow> bool \<Rightarrow> filter_option option \<Rightarrow> int \<times> shard_note" where
  "shard_plan ctx dryRun flt =
     (let want = concurrency_from ctx
      in if want \<le> 1 then (1, NoNote)
         else if dryRun then (1, SingleDryRun)
         else if \<not> is_ok (rsync_filter_args flt) then (1, SingleFilter)
         else if want > rsyncMaxShards then (rsyncMaxShards, CappedShards want)
         else (want, NoNote))"

text \<open>Go's integer division truncates; the operands here are sizes and counts, never negative.\<close>

definition shards_for :: "int \<Rightarrow> nat \<Rightarrow> int \<Rightarrow> int" where
  "shards_for n files sz =
     min n (min (int files) (max (int files div rsyncMinFilesPerShard) (sz div rsyncMinBytesPerShard)))"

definition total_size :: "file_info list \<Rightarrow> int" where
  "total_size fs = sum_list (map fi_Size fs)"

text \<open>\<open>runShards\<close> up to the processes: the shares, with the number reported and its note.\<close>

definition kept_files :: "regexp_engine \<Rightarrow> filter_option option \<Rightarrow> file_info list \<Rightarrow> file_info list" where
  "kept_files rx flt files = filter (\<lambda>f. match_path rx flt (fi_Path f) (fi_Size f) False) files"

section \<open>Dealing the files\<close>

text \<open>\<open>slices.Index(totals, slices.Min(totals))\<close>: the first of the lightest lists.\<close>

fun index_of_min :: "int list \<Rightarrow> nat" where
  "index_of_min [] = 0"
| "index_of_min [x] = 0"
| "index_of_min (x # y # xs) = (if x \<le> Min (set (y # xs)) then 0 else Suc (index_of_min (y # xs)))"

definition deal_one :: "file_info \<Rightarrow> file_info list list \<times> int list \<Rightarrow> file_info list list \<times> int list" where
  "deal_one f st =
     (case st of (shards, totals) \<Rightarrow>
        (let i = index_of_min totals
         in (shards[i := shards ! i @ [f]], totals[i := totals ! i + fi_Size f])))"

definition heaviest_first :: "file_info list \<Rightarrow> file_info list" where
  "heaviest_first fs = sort_key (\<lambda>f. - fi_Size f) fs"

definition split_by_size :: "file_info list \<Rightarrow> nat \<Rightarrow> file_info list list" where
  "split_by_size files n = fst (fold deal_one (heaviest_first files) (replicate n [], replicate n 0))"

definition nul_list :: "file_info list \<Rightarrow> string" where
  "nul_list files = concat (map (\<lambda>f. fi_Path f @ [CHR 0x00]) files)"

definition shard_lists ::
  "regexp_engine \<Rightarrow> filter_option option \<Rightarrow> int \<times> shard_note \<Rightarrow> int \<Rightarrow> string + file_info list \<Rightarrow> file_info list list \<times> int \<times> shard_note" where
  "shard_lists rx flt plan asked listing =
     (case listing of
        Inl e \<Rightarrow> ([], 1, SingleListing e)
      | Inr files \<Rightarrow>
          (let keep = kept_files rx flt files; sz = total_size keep; m = shards_for (fst plan) (length keep) sz
           in if m < fst plan then
                (if m < 2 then ([], 1, SingleSmall (length keep) sz)
                 else (split_by_size keep (nat m), m, FewerShards m asked (length keep) sz))
              else (split_by_size keep (nat (fst plan)), fst plan, snd plan)))"

section \<open>One figure for all processes\<close>

record shard_sum =
  sh_bytes :: "int list"
  sh_files :: "int list"

definition new_shard_sum :: "nat \<Rightarrow> shard_sum" where
  "new_shard_sum n = \<lparr>sh_bytes = replicate n 0, sh_files = replicate n 0\<rparr>"

text \<open>What shard \<open>i\<close> reports goes out with the totals of all shards.\<close>

definition shard_report :: "nat \<Rightarrow> update \<Rightarrow> shard_sum \<Rightarrow> update \<times> shard_sum" where
  "shard_report i u s =
     (let s1 = (if u_Bytes u \<ge> 0 then s\<lparr>sh_bytes := (sh_bytes s)[i := u_Bytes u]\<rparr> else s);
          s2 = (if u_Files u \<ge> 0 then s1\<lparr>sh_files := (sh_files s1)[i := u_Files u]\<rparr> else s1)
      in (u\<lparr>u_Bytes := sum_list (sh_bytes s2), u_Files := sum_list (sh_files s2)\<rparr>, s2))"

definition offset_report :: "shard_sum \<Rightarrow> update \<Rightarrow> update" where
  "offset_report s u =
     u\<lparr>u_Bytes := (if u_Bytes u \<ge> 0 then u_Bytes u + sum_list (sh_bytes s) else u_Bytes u),
       u_Files := (if u_Files u \<ge> 0 then u_Files u + sum_list (sh_files s) else u_Files u)\<rparr>"

fun shard_reports :: "(nat \<times> update) list \<Rightarrow> shard_sum \<Rightarrow> update list \<times> shard_sum" where
  "shard_reports [] s = ([], s)"
| "shard_reports ((i, u) # xs) s =
     (let (v, s1) = shard_report i u s; (vs, s2) = shard_reports xs s1 in (v # vs, s2))"

section \<open>Every file once, and no process with much more than its share\<close>

lemma index_of_min:
  "totals \<noteq> [] \<Longrightarrow> index_of_min totals < length totals \<and> totals ! index_of_min totals = Min (set totals)"
proof (induction totals rule: index_of_min.induct)
  case (3 x y xs)
  then show ?case by (auto simp: min_def)
qed simp_all

text \<open>The totals are those of the lists, and no list is more than \<open>b\<close> heavier than another.\<close>

definition dealt :: "nat \<Rightarrow> int \<Rightarrow> file_info list \<Rightarrow> file_info list list \<times> int list \<Rightarrow> bool" where
  "dealt n b fs st \<longleftrightarrow>
     length (fst st) = n \<and> snd st = map total_size (fst st) \<and> mset (concat (fst st)) = mset fs
     \<and> (\<forall>i<n. \<forall>j<n. snd st ! i \<le> snd st ! j + b)"

lemma total_size_simps [simp]:
  "total_size [] = 0" "total_size (fs @ gs) = total_size fs + total_size gs" "total_size (f # fs) = fi_Size f + total_size fs"
  by (simp_all add: total_size_def)

lemma concat_update:
  "i < length xs \<Longrightarrow> mset (concat (xs[i := xs ! i @ [f]])) = add_mset f (mset (concat xs))"
  by (induction xs arbitrary: i) (auto split: nat.split)

lemma deal_one_dealt:
  assumes "dealt n b fs st" and "0 < n" and "0 \<le> fi_Size f" and "fi_Size f \<le> b"
  shows "dealt n b (fs @ [f]) (deal_one f st)"
proof -
  obtain shards totals where st: "st = (shards, totals)" by (cases st)
  have d: "length shards = n" "totals = map total_size shards" "mset (concat shards) = mset fs"
    "\<And>i j. i < n \<Longrightarrow> j < n \<Longrightarrow> totals ! i \<le> totals ! j + b" using assms(1) by (auto simp: dealt_def st)
  let ?k = "index_of_min totals"
  have k: "?k < n" "totals ! ?k = Min (set totals)" using index_of_min [of totals] d(1,2) assms(2) by auto
  have light: "totals ! ?k \<le> totals ! j" if "j < n" for j
    using k(2) that d(1,2) by (metis List.finite_set Min_le length_map nth_mem)
  have len: "length totals = n" using d(1,2) by simp
  have "totals[?k := totals ! ?k + fi_Size f] = map total_size (shards[?k := shards ! ?k @ [f]])"
    using k(1) d(1) by (simp add: d(2) map_update)
  moreover have "totals[?k := totals ! ?k + fi_Size f] ! i \<le> totals[?k := totals ! ?k + fi_Size f] ! j + b"
    if "i < n" "j < n" for i j
    using d(4) [OF that] light [OF that(1)] light [OF that(2)] d(4) [OF that(1) k(1)] assms(3,4) that len k(1)
    by (auto simp: nth_list_update)
  ultimately show ?thesis
    using d(1,3) k(1) by (simp add: dealt_def st deal_one_def Let_def concat_update)
qed

lemma deal_all_dealt:
  assumes "0 < n" and "\<forall>f\<in>set gs. 0 \<le> fi_Size f \<and> fi_Size f \<le> b"
  shows "dealt n b fs st \<Longrightarrow> dealt n b (fs @ gs) (fold deal_one gs st)"
  using assms(2)
proof (induction gs arbitrary: fs st)
  case (Cons g gs)
  then show ?case using Cons.IH [OF deal_one_dealt [OF Cons.prems(1) assms(1)]] by simp
qed simp

text \<open>
  The shares of a parallel rsync partition the files, each file going to exactly one process,
  and are even: no process gets more bytes than another by more than the largest file.
\<close>

lemma shares_partition_evenly:
  assumes "0 < n" and "\<forall>f\<in>set files. 0 \<le> fi_Size f \<and> fi_Size f \<le> b" and "0 \<le> b"
  shows "length (split_by_size files n) = n \<and> mset (concat (split_by_size files n)) = mset files
    \<and> (\<forall>s\<in>set (split_by_size files n). \<forall>t\<in>set (split_by_size files n). total_size s \<le> total_size t + b)"
proof -
  have "dealt n b [] (replicate n [], replicate n 0)" using assms(3) by (simp add: dealt_def)
  from deal_all_dealt [OF assms(1) _ this, of "heaviest_first files"]
  have "dealt n b (heaviest_first files) (fold deal_one (heaviest_first files) (replicate n [], replicate n 0))"
    using assms(2) by (simp add: heaviest_first_def)
  then show ?thesis unfolding split_by_size_def dealt_def
    by (auto simp: heaviest_first_def in_set_conv_nth)
qed

definition sized_file :: "string \<Rightarrow> int \<Rightarrow> file_info" where
  "sized_file p n = \<lparr>fi_Path = p, fi_Size = n, fi_ModTime = 0\<rparr>"

lemma shares_partition_evenly_witness:
  "\<exists>s t. split_by_size [sized_file ''a'' 5, sized_file ''b'' 9, sized_file ''c'' 4] 2 = [s, t]
     \<and> total_size s \<le> total_size t + 9 \<and> total_size t \<le> total_size s + 9"
proof -
  let ?fs = "[sized_file ''a'' 5, sized_file ''b'' 9, sized_file ''c'' 4]"
  have "length (split_by_size ?fs 2) = 2 \<and> mset (concat (split_by_size ?fs 2)) = mset ?fs
    \<and> (\<forall>s\<in>set (split_by_size ?fs 2). \<forall>t\<in>set (split_by_size ?fs 2). total_size s \<le> total_size t + 9)"
    by (rule shares_partition_evenly) (simp_all add: sized_file_def)
  then show ?thesis by (auto simp: length_Suc_conv numeral_2_eq_2)
qed

text \<open>A share is never empty of purpose: there are never more processes than files.\<close>

lemma shards_for_bounds: "shards_for n files sz \<le> n" "shards_for n files sz \<le> int files"
  by (simp_all add: shards_for_def)

text \<open>What rsync reads back from the list it is fed, for paths without a NUL byte.\<close>

lemma nul_list_reads_back:
  "(\<And>f. f \<in> set fs \<Longrightarrow> CHR 0x00 \<notin> set (fi_Path f)) \<Longrightarrow> split_char (CHR 0x00) (nul_list fs) = map fi_Path fs @ [[]]"
proof (induction fs)
  case (Cons f fs)
  have "nul_list (f # fs) = fi_Path f @ CHR 0x00 # nul_list fs" by (simp add: nul_list_def)
  then show ?case using Cons split_char_append [of "CHR 0x00" "fi_Path f" "nul_list fs"]
    by (simp add: split_char_single)
qed (simp add: nul_list_def)

section \<open>The figure of all processes\<close>

text \<open>The reports of one process among those of all, and the last count each has made.\<close>

definition of_shard :: "nat \<Rightarrow> (nat \<times> update) list \<Rightarrow> update list" where
  "of_shard i xs = map snd (filter (\<lambda>x. fst x = i) xs)"

definition counted :: "update list \<Rightarrow> int list" where
  "counted us = filter (\<lambda>b. b \<ge> 0) (map u_Bytes us)"

definition latest :: "int \<Rightarrow> int list \<Rightarrow> int" where
  "latest b bs = (if bs = [] then b else last bs)"

lemma shard_report_bytes:
  assumes "shard_report i u s = (v, s')"
  shows "u_Bytes v = sum_list (sh_bytes s')"
    and "sh_bytes s' = (if u_Bytes u \<ge> 0 then (sh_bytes s)[i := u_Bytes u] else sh_bytes s)"
  using assms by (auto simp: shard_report_def Let_def split: if_splits)

lemma sum_list_mono_update:
  "i < length xs \<Longrightarrow> xs ! i \<le> (y :: int) \<Longrightarrow> sum_list xs \<le> sum_list (xs[i := y])"
  by (induction xs arbitrary: i) (auto split: nat.split)

definition steady :: "int list \<Rightarrow> (nat \<times> update) list \<Rightarrow> bool" where
  "steady bs xs \<longleftrightarrow> (\<forall>x\<in>set xs. fst x < length bs) \<and> (\<forall>i<length bs. sorted (bs ! i # counted (of_shard i xs)))"

lemma steady_Cons:
  assumes "steady bs ((i, u) # xs)" and "bs' = (if u_Bytes u \<ge> 0 then bs[i := u_Bytes u] else bs)"
  shows "steady bs' xs \<and> sum_list bs \<le> sum_list bs'"
proof -
  have i: "i < length bs" using assms(1) by (simp add: steady_def)
  have srt: "sorted (bs ! j # counted (of_shard j ((i, u) # xs)))" if "j < length bs" for j
    using assms(1) that by (simp add: steady_def)
  have "sorted (bs' ! j # counted (of_shard j xs))" if "j < length bs" for j
    using srt [OF that] i that by (auto simp: assms(2) of_shard_def counted_def nth_list_update split: if_splits)
  moreover have "sum_list bs \<le> sum_list bs'"
    using srt [OF i] i by (auto simp: assms(2) of_shard_def counted_def intro!: sum_list_mono_update)
  ultimately show ?thesis using assms by (auto simp: steady_def)
qed

text \<open>
  The figure of a parallel phase is exact and never goes back: whatever order the processes
  report in, each figure sent on is the sum of what every process last counted, the figures
  only grow when each process's own do, and the final process's figures count from there.
\<close>

lemma shard_figures_are_exact:
  assumes "shard_reports xs (new_shard_sum n) = (vs, s)" and "steady (replicate n 0) xs"
  shows "sorted (map u_Bytes vs) \<and> sum_list (sh_bytes s) = (\<Sum>i<n. latest 0 (counted (of_shard i xs)))
    \<and> (vs \<noteq> [] \<longrightarrow> u_Bytes (last vs) = sum_list (sh_bytes s))
    \<and> (\<forall>u. u_Bytes u \<ge> 0 \<longrightarrow> u_Bytes (offset_report s u) = u_Bytes u + sum_list (sh_bytes s))"
proof -
  have main: "shard_reports xs s0 = (vs, s) \<Longrightarrow> steady (sh_bytes s0) xs \<Longrightarrow>
      sorted (sum_list (sh_bytes s0) # map u_Bytes vs)
      \<and> sh_bytes s = map (\<lambda>i. latest (sh_bytes s0 ! i) (counted (of_shard i xs))) [0..<length (sh_bytes s0)]
      \<and> (vs \<noteq> [] \<longrightarrow> u_Bytes (last vs) = sum_list (sh_bytes s))" for xs s0 vs s
  proof (induction xs arbitrary: s0 vs)
    case Nil
    then show ?case by (simp add: of_shard_def counted_def latest_def map_nth)
  next
    case (Cons x xs)
    obtain i u v s1 ws where x: "x = (i, u)" "shard_report i u s0 = (v, s1)" "shard_reports xs s1 = (ws, s)" "vs = v # ws"
      using Cons.prems(1) by (cases x) (auto split: prod.splits simp: Let_def)
    note b = shard_report_bytes [OF x(2)]
    have st: "steady (sh_bytes s1) xs" "sum_list (sh_bytes s0) \<le> sum_list (sh_bytes s1)"
      using steady_Cons [OF Cons.prems(2) [unfolded x(1)] b(2)] by simp_all
    have i: "i < length (sh_bytes s0)" using Cons.prems(2) by (simp add: steady_def x(1))
    have len: "length (sh_bytes s1) = length (sh_bytes s0)" by (simp add: b(2))
    have "latest (sh_bytes s1 ! j) (counted (of_shard j xs)) = latest (sh_bytes s0 ! j) (counted (of_shard j (x # xs)))"
      if "j < length (sh_bytes s0)" for j
      using that i by (auto simp: b(2) x(1) of_shard_def counted_def latest_def nth_list_update)
    then have maps: "map (\<lambda>j. latest (sh_bytes s1 ! j) (counted (of_shard j xs))) [0..<length (sh_bytes s1)]
        = map (\<lambda>j. latest (sh_bytes s0 ! j) (counted (of_shard j (x # xs)))) [0..<length (sh_bytes s0)]"
      unfolding len by (intro map_cong) simp_all
    have empty: "s = s1" if "ws = []" using x(3) that by (cases xs) (auto split: prod.splits simp: Let_def)
    note ih = Cons.IH [OF x(3) st(1), unfolded maps]
    show ?case
    proof (intro conjI)
      show "sorted (sum_list (sh_bytes s0) # map u_Bytes vs)" using ih st(2) b(1) by (auto simp: x(4))
      show "sh_bytes s = map (\<lambda>j. latest (sh_bytes s0 ! j) (counted (of_shard j (x # xs)))) [0..<length (sh_bytes s0)]"
        using ih by blast
      show "vs \<noteq> [] \<longrightarrow> u_Bytes (last vs) = sum_list (sh_bytes s)" using ih empty b(1) by (cases "ws = []") (simp_all add: x(4))
    qed
  qed
  show ?thesis using main [OF assms(1)] assms(2)
    by (auto simp: new_shard_sum_def offset_report_def interv_sum_list_conv_sum_set_nat atLeast0LessThan)
qed

definition count_update :: "int \<Rightarrow> int \<Rightarrow> update" where
  "count_update n k = \<lparr>u_Step = 0, u_Steps = 0, u_Bytes = n, u_Files = k, u_Item = [], u_Rows = 0, u_Units = 0, u_UnitsTotal = 0,
     u_Phase = [], u_Concurrency = 0, u_ConcurrencyNote = []\<rparr>"

lemma shard_figures_are_exact_witness:
  "\<exists>vs s. shard_reports [(0, count_update 5 1), (1, count_update 7 1), (0, count_update 9 2)] (new_shard_sum 2) = (vs, s)
     \<and> sorted (map u_Bytes vs) \<and> sum_list (sh_bytes s) = 16"
proof -
  let ?xs = "[(0, count_update 5 1), (1, count_update 7 1), (0, count_update 9 2)]"
  obtain vs s where run: "shard_reports ?xs (new_shard_sum 2) = (vs, s)" by (cases "shard_reports ?xs (new_shard_sum 2)")
  have "steady (replicate 2 0) ?xs"
    by (auto simp: steady_def of_shard_def counted_def count_update_def less_2_cases_iff)
  from shard_figures_are_exact [OF run this] run show ?thesis
    by (auto simp: of_shard_def counted_def latest_def count_update_def numeral_2_eq_2)
qed

end
