(* ===== verification/RsyncOutput.thy ===== *)
theory RsyncOutput
  imports RsyncShard PgObjectName DbmsHandle
begin

text \<open>
  Reading what rsync prints while it runs, \<open>rsync-progress.go\<close> and the statistics part of
  \<open>executor-rsync.go\<close>: the progress lines are counted and reported, every other line is kept
  for the error message, and the figure of the closing statistics settles the count. The
  output itself is an argument.
\<close>

section \<open>Lines\<close>

abbreviation newline :: char where "newline \<equiv> CHR 0x0A"

abbreviation scan_limit :: nat where "scan_limit \<equiv> 1048576"

definition drop_cr :: "string \<Rightarrow> string" where
  "drop_cr s = trim_suffix s [CHR 0x0D]"

text \<open>
  \<open>bufio.Scanner\<close> over the whole output: a last line without its newline is still a line, an
  empty rest is none, and the scan ends at a line that does not fit the buffer.
\<close>

definition scan_lines :: "string \<Rightarrow> string list" where
  "scan_lines out =
     (let ls = split_char newline out; ls' = (if last ls = [] then butlast ls else ls)
      in map drop_cr (takeWhile (\<lambda>l. length l < scan_limit) ls'))"

section \<open>Progress lines and the rest\<close>

definition progressPrefix :: string where "progressPrefix = ''@@TX ''"

definition rsyncOutFormat :: string where "rsyncOutFormat = ''--out-format='' @ progressPrefix @ ''%b %l %n''"

abbreviation rsyncTailBytes :: nat where "rsyncTailBytes \<equiv> 16384"

text \<open>\<open>tailBuffer.Write\<close>: the front goes once the buffer is over its capacity.\<close>

definition tail_write :: "nat \<Rightarrow> string \<Rightarrow> string \<Rightarrow> string" where
  "tail_write cap p buf = (let b = buf @ p in if length b > cap then drop (length b - cap) b else b)"

definition parse_progress_line :: "string \<Rightarrow> (int \<times> int \<times> string) option" where
  "parse_progress_line line =
     (if \<not> has_prefix line progressPrefix then None
      else (case cut_char (CHR '' '') (trim_prefix line progressPrefix) of
              None \<Rightarrow> None
            | Some (first, r) \<Rightarrow>
                (case cut_char (CHR '' '') r of
                   None \<Rightarrow> None
                 | Some (second, name) \<Rightarrow>
                     (case atoi first of
                        None \<Rightarrow> None
                      | Some sent \<Rightarrow>
                          (case atoi second of None \<Rightarrow> None | Some len \<Rightarrow> Some (sent, len, name))))))"

definition moved_update :: "int \<Rightarrow> string \<Rightarrow> update" where
  "moved_update n item =
     \<lparr>u_Step = 0, u_Steps = 0, u_Bytes = n, u_Files = -1, u_Item = item, u_Rows = 0, u_Units = 0, u_UnitsTotal = 0,
      u_Phase = [], u_Concurrency = 0, u_ConcurrencyNote = []\<rparr>"

record rsync_stream =
  rs_moved :: int
  rs_tail :: string
  rs_reports :: "update list"

definition stream_line :: "nat \<Rightarrow> string \<Rightarrow> rsync_stream \<Rightarrow> rsync_stream" where
  "stream_line cap line st =
     (case parse_progress_line line of
        None \<Rightarrow> st\<lparr>rs_tail := tail_write cap (line @ [newline]) (rs_tail st)\<rparr>
      | Some (sent, len, name) \<Rightarrow>
          (if sent \<le> 0 then st
           else (let moved = wrap64 (rs_moved st + len)
                 in st\<lparr>rs_moved := moved, rs_reports := rs_reports st @ [moved_update moved name]\<rparr>)))"

definition stream_rsync :: "nat \<Rightarrow> string \<Rightarrow> string \<Rightarrow> rsync_stream" where
  "stream_rsync cap out tl0 =
     fold (stream_line cap) (scan_lines out) \<lparr>rs_moved = 0, rs_tail = tl0, rs_reports = []\<rparr>"

section \<open>The closing statistics\<close>

definition rsyncStatsLine :: string where "rsyncStatsLine = ''Total transferred file size:''"

text \<open>\<open>fmt.Sscanf(s, "%d", &n)\<close> into a 64-bit integer: the digits at the front, the rest unread.\<close>

definition leading_int :: "string \<Rightarrow> int option" where
  "leading_int s =
     (case s of
        [] \<Rightarrow> None
      | c # r \<Rightarrow>
          (if c = CHR ''-'' \<or> c = CHR ''+'' then atoi (c # takeWhile is_digit r) else atoi (takeWhile is_digit s)))"

definition sscan_int :: "string \<Rightarrow> int option" where
  "sscan_int s = leading_int (dropWhile (\<lambda>c. c = CHR '' '') s)"

fun stats_of_lines :: "string list \<Rightarrow> int" where
  "stats_of_lines [] = -1"
| "stats_of_lines (line # rest) =
     (if \<not> has_prefix (trim_space line) rsyncStatsLine then stats_of_lines rest
      else (case go_fields (trim_prefix (trim_space line) rsyncStatsLine) of
              [] \<Rightarrow> -1
            | f # _ \<Rightarrow> (case sscan_int (replace_char (CHR '','') [] f) of None \<Rightarrow> -1 | Some n \<Rightarrow> n)))"

definition parse_rsync_stats :: "string \<Rightarrow> int" where
  "parse_rsync_stats output = stats_of_lines (split_char newline output)"

definition report_final :: "int \<Rightarrow> string \<Rightarrow> update" where
  "report_final moved tl0 = (let stats = parse_rsync_stats tl0 in moved_update (if stats \<ge> 0 then stats else moved) [])"

section \<open>Reading back the lines rsync was asked for\<close>

text \<open>The format \<open>rsyncOutFormat\<close> asks for: bytes sent, file length, path.\<close>

definition out_line :: "int \<times> int \<times> string \<Rightarrow> string" where
  "out_line e = (case e of (sent, len, name) \<Rightarrow> progressPrefix @ itoa sent @ '' '' @ itoa len @ '' '' @ name)"

lemma nat_digits_atoi: "atoi_digits (nat_digits n) = Some n"
  using nat_digits_digit by (auto simp: atoi_digits_def list_all_iff is_digit_def Let_def digits_value_nat_digits)

lemma nat_digits_sign_free: "nat_digits n = c # r \<Longrightarrow> c \<noteq> CHR ''-'' \<and> c \<noteq> CHR ''+''"
  using nat_digits_digit [of c n] by auto

lemma atoi_itoa: "in_int64 n \<Longrightarrow> atoi (itoa n) = Some n"
proof (cases "n < 0")
  case False
  assume "in_int64 n"
  obtain c r where c: "nat_digits (nat n) = c # r" by (cases "nat_digits (nat n)") auto
  show ?thesis using False \<open>in_int64 n\<close> nat_digits_sign_free [OF c] nat_digits_atoi [of "nat n"]
    by (simp add: atoi_def itoa_def c)
qed (simp add: atoi_def itoa_def nat_digits_atoi)

lemma nat_digits_no: "(of_char c :: nat) < 48 \<Longrightarrow> c \<notin> set (nat_digits n)"
  using nat_digits_digit [of c n] by force

lemma itoa_no_blank: "CHR '' '' \<notin> set (itoa n)"
  using nat_digits_no [of "CHR '' ''"] by (auto simp: itoa_def)

lemma progress_line_roundtrip:
  "in_int64 sent \<Longrightarrow> in_int64 len \<Longrightarrow> parse_progress_line (out_line (sent, len, name)) = Some (sent, len, name)"
  using cut_char_first [OF itoa_no_blank, of sent "itoa len @ '' '' @ name"] cut_char_first [OF itoa_no_blank, of len name]
  by (simp add: parse_progress_line_def out_line_def atoi_itoa)

section \<open>The count of a run\<close>

definition sent_entries :: "string list \<Rightarrow> (int \<times> string) list" where
  "sent_entries ls = map snd (filter (\<lambda>e. fst e > 0) (List.map_filter parse_progress_line ls))"

definition other_lines :: "string list \<Rightarrow> string" where
  "other_lines ls = concat (map (\<lambda>l. l @ [newline]) (filter (\<lambda>l. parse_progress_line l = None) ls))"

definition last_bytes :: "nat \<Rightarrow> string \<Rightarrow> string" where
  "last_bytes n s = drop (length s - n) s"

lemma tail_write_last: "tail_write cap p (last_bytes cap s) = last_bytes cap (s @ p)"
  by (cases "length s \<le> cap") (auto simp: tail_write_def last_bytes_def Let_def add.commute)

text \<open>The running sums a list of figures passes through.\<close>

fun running :: "int \<Rightarrow> int list \<Rightarrow> int list" where
  "running a [] = []"
| "running a (n # ns) = (a + n) # running (a + n) ns"

lemma sent_entries_simps [simp]:
  "sent_entries [] = []"
  "sent_entries (l # ls) =
     (case parse_progress_line l of
        None \<Rightarrow> sent_entries ls
      | Some e \<Rightarrow> if fst e > 0 then snd e # sent_entries ls else sent_entries ls)"
  by (simp_all add: sent_entries_def map_filter_simps split: option.split)

lemma other_lines_simps [simp]:
  "other_lines [] = []"
  "other_lines (l # ls) = (if parse_progress_line l = None then l @ [newline] else []) @ other_lines ls"
  by (simp_all add: other_lines_def)

lemma wrap64_in_range: "- (2 ^ 63) \<le> n \<Longrightarrow> n < 2 ^ 63 \<Longrightarrow> wrap64 n = n"
  by (simp add: wrap64_def)

lemma sum_list_nonneg_ints: "\<forall>n\<in>set ns. 0 \<le> (n :: int) \<Longrightarrow> 0 \<le> sum_list ns"
  by (simp add: sum_list_nonneg)

lemma stream_line_other:
  "parse_progress_line l = None \<Longrightarrow> stream_line cap l st = st\<lparr>rs_tail := tail_write cap (l @ [newline]) (rs_tail st)\<rparr>"
  by (simp add: stream_line_def)

lemma stream_line_unsent: "parse_progress_line l = Some (sent, n, name) \<Longrightarrow> sent \<le> 0 \<Longrightarrow> stream_line cap l st = st"
  by (simp add: stream_line_def)

lemma stream_line_sent:
  "parse_progress_line l = Some (sent, n, name) \<Longrightarrow> 0 < sent \<Longrightarrow> wrap64 (rs_moved st + n) = rs_moved st + n \<Longrightarrow>
   stream_line cap l st = st\<lparr>rs_moved := rs_moved st + n, rs_reports := rs_reports st @ [moved_update (rs_moved st + n) name]\<rparr>"
  by (simp add: stream_line_def Let_def)

lemma stream_lines:
  assumes "0 \<le> rs_moved st" and "\<forall>e\<in>set (sent_entries ls). 0 \<le> fst e"
    and "rs_moved st + sum_list (map fst (sent_entries ls)) < 2 ^ 63" and "rs_tail st = last_bytes cap kept"
  shows "fold (stream_line cap) ls st =
    \<lparr>rs_moved = rs_moved st + sum_list (map fst (sent_entries ls)), rs_tail = last_bytes cap (kept @ other_lines ls),
     rs_reports = rs_reports st @ map2 moved_update (running (rs_moved st) (map fst (sent_entries ls))) (map snd (sent_entries ls))\<rparr>"
  using assms
proof (induction ls arbitrary: st kept)
  case (Cons l ls)
  show ?case
  proof (cases "parse_progress_line l")
    case None
    then show ?thesis using Cons.prems by (simp add: Cons.IH [where kept = "kept @ l @ [newline]"] stream_line_other tail_write_last)
  next
    case (Some e)
    obtain sent n name where e: "e = (sent, n, name)" by (cases e)
    show ?thesis
    proof (cases "sent > 0")
      case True
      have "0 \<le> sum_list (map fst (sent_entries ls))" using Cons.prems(2) Some e True by (intro sum_list_nonneg_ints) auto
      then have "wrap64 (rs_moved st + n) = rs_moved st + n" using Cons.prems Some e True by (intro wrap64_in_range) auto
      then show ?thesis using Cons.prems Some e True
        by (simp add: Cons.IH [where kept = kept] stream_line_sent add.assoc)
    qed (use Cons.prems Some e in \<open>simp add: Cons.IH [where kept = kept] stream_line_unsent\<close>)
  qed
qed simp

text \<open>
  Reading rsync's output counts and keeps: the bytes of a run are the lengths of the files
  rsync says it sent, no more and no less, every file is reported by name with the sum up to it,
  and the lines that are not progress - the errors among them - are kept, the last \<open>cap\<close> bytes.
\<close>

lemma rsync_output_is_split:
  assumes "\<forall>e\<in>set (sent_entries (scan_lines out)). 0 \<le> fst e"
    and "sum_list (map fst (sent_entries (scan_lines out))) < 2 ^ 63"
  shows "stream_rsync cap out [] =
    \<lparr>rs_moved = sum_list (map fst (sent_entries (scan_lines out))), rs_tail = last_bytes cap (other_lines (scan_lines out)),
     rs_reports = map2 moved_update (running 0 (map fst (sent_entries (scan_lines out)))) (map snd (sent_entries (scan_lines out)))\<rparr>"
  unfolding stream_rsync_def using assms
  by (subst stream_lines [where kept = "[]"]) (simp_all add: last_bytes_def)

definition sample_lines :: "string list" where
  "sample_lines = [''sending'', out_line (52, 50, ''a b''), out_line (0, 4096, ''d/''), out_line (12, 9, ''c'')]"

lemma sample_literal: "sample_lines = [''sending'', ''@@TX 52 50 a b'', ''@@TX 0 4096 d/'', ''@@TX 12 9 c'']"
  by (simp add: sample_lines_def out_line_def progressPrefix_def itoa_def nat_digits.simps char_of_def bit_numeral_rec bit_0)

lemma sample_other: "parse_progress_line ''sending'' = None"
  by (simp add: parse_progress_line_def progressPrefix_def)

lemma sample_parsed:
  "List.map_filter parse_progress_line sample_lines = [(52, 50, ''a b''), (0, 4096, ''d/''), (12, 9, ''c'')]"
  by (simp add: sample_lines_def map_filter_simps sample_other progress_line_roundtrip in_int64_def)

text \<open>Scanning the lines a program printed, each with its newline, gives the lines.\<close>

lemma scan_printed:
  assumes "\<forall>l\<in>set ls. newline \<notin> set l \<and> length l < scan_limit \<and> \<not> has_suffix l [CHR 0x0D]"
  shows "scan_lines (concat (map (\<lambda>l. l @ [newline]) ls)) = ls"
proof -
  have "split_char newline (concat (map (\<lambda>l. l @ [newline]) ls)) = ls @ [[]]" using assms
  proof (induction ls)
    case (Cons l ls)
    then show ?case using split_char_append [of newline l "concat (map (\<lambda>l. l @ [newline]) ls)"]
      by (simp add: split_char_single)
  qed simp
  moreover have "takeWhile (\<lambda>l. length l < scan_limit) ls = ls" using assms by (intro takeWhile_eq_all_conv [THEN iffD2]) blast
  moreover have "map drop_cr ls = ls" using assms by (intro map_idI) (auto simp: drop_cr_def trim_suffix_def)
  ultimately show ?thesis unfolding scan_lines_def Let_def by (simp only: last_snoc butlast_snoc simp_thms if_True)
qed

definition printed :: "string list \<Rightarrow> string" where
  "printed ls = concat (map (\<lambda>l. l @ [newline]) ls)"

lemma rsync_output_is_split_witness:
  "rs_moved (stream_rsync 100 (printed sample_lines) []) = 59 \<and> rs_tail (stream_rsync 100 (printed sample_lines) []) = ''sending'' @ [newline]
    \<and> map u_Bytes (rs_reports (stream_rsync 100 (printed sample_lines) [])) = [50, 59]"
proof -
  have lines: "scan_lines (printed sample_lines) = sample_lines" unfolding printed_def
    by (rule scan_printed) (simp add: sample_literal has_suffix_def)
  have sent: "sent_entries sample_lines = [(50, ''a b''), (9, ''c'')]" by (simp add: sent_entries_def sample_parsed)
  have others: "other_lines sample_lines = ''sending'' @ [newline]"
    by (simp add: sample_lines_def sample_other progress_line_roundtrip in_int64_def)
  show ?thesis
    by (subst (1 2 3) rsync_output_is_split)
       (simp_all add: lines sent others last_bytes_def moved_update_def)
qed

section \<open>The closing figure\<close>

definition plain_word :: "string \<Rightarrow> bool" where
  "plain_word w \<longleftrightarrow> w \<noteq> [] \<and> list_all printable w"

lemma strip_one_printable: "printable c \<Longrightarrow> strip_one space_encodings (c # s) = None"
  using space_encodings_first by (intro strip_one_None) auto

lemma strip_one_alone:
  "[c] \<in> set es \<Longrightarrow> \<forall>e\<in>set es. e = [] \<or> hd e = c \<longrightarrow> e = [] \<or> e = [c] \<Longrightarrow> strip_one es (c # s) = Some s"
  by (induction es) (auto simp: neq_Nil_conv)

lemma blank_encoding:
  "[CHR '' ''] \<in> set space_encodings" "list_all (\<lambda>e. e = [] \<or> hd e = CHR '' '' \<longrightarrow> e = [] \<or> e = [CHR '' '']) space_encodings"
  by (simp_all add: space_encodings_def char_of_def bit_numeral_rec bit_0)

lemma strip_one_blank: "strip_one space_encodings (CHR '' '' # s) = Some s"
  using blank_encoding by (intro strip_one_alone) (auto simp: list_all_iff)

lemma fields_from_word:
  "list_all printable v \<Longrightarrow> fields_from w (v @ s) = fields_from (rev v @ w) s"
proof (induction v arbitrary: w)
  case (Cons c v)
  have "fields_from w (c # v @ s) = fields_from (c # w) (v @ s)"
    using Cons.prems by (subst fields_from.simps) (simp add: strip_one_printable)
  then show ?case using Cons by simp
qed simp

lemma go_fields_blank_words:
  assumes "plain_word v" and "plain_word u"
  shows "go_fields (CHR '' '' # v @ CHR '' '' # u) = [v, u]"
proof -
  have eq: "fields_from w (CHR '' '' # s) = flush_word w (fields_from [] s)" for w s
    by (subst fields_from.simps) (simp add: strip_one_blank)
  have fin: "fields_from w [] = flush_word w []" for w by (subst fields_from.simps) (simp add: space_encodings_def)
  have "list_all printable v" "list_all printable u" "v \<noteq> []" "u \<noteq> []" using assms by (auto simp: plain_word_def)
  then show ?thesis using fields_from_word [of u "[]" "[]"]
    by (simp add: go_fields_def eq fields_from_word fin flush_word_def)
qed

lemma sscan_digits: "int n < 2 ^ 63 \<Longrightarrow> sscan_int (nat_digits n) = Some (int n)"
proof -
  assume n: "int n < 2 ^ 63"
  obtain c r where c: "nat_digits n = c # r" by (cases "nat_digits n") auto
  have "\<forall>d\<in>set (nat_digits n). is_digit d" using nat_digits_digit by (auto simp: is_digit_def Let_def)
  then have w: "takeWhile is_digit (nat_digits n) = nat_digits n" by (simp add: takeWhile_eq_all_conv)
  have b: "c \<noteq> CHR '' ''" using nat_digits_digit [of c n] c by auto
  have "atoi (nat_digits n) = Some (int n)" using atoi_itoa [of "int n"] n by (simp add: itoa_def in_int64_def)
  then show ?thesis using nat_digits_sign_free [OF c] w b by (simp add: sscan_int_def leading_int_def c)
qed

text \<open>The line as rsync prints it, the digits grouped by commas or not.\<close>

definition stats_line :: "string \<Rightarrow> string" where
  "stats_line fig = rsyncStatsLine @ '' '' @ fig @ '' bytes''"

text \<open>
  The closing figure is the one rsync states: whatever was kept before and after it, the
  digits on the statistics line, commas or not, are the count that is reported, and without
  such a line it is the sum that was streamed.
\<close>

lemma stats_settle_the_count:
  assumes "\<forall>l\<in>set pre. newline \<notin> set l \<and> \<not> has_prefix (trim_space l) rsyncStatsLine"
    and "replace_char (CHR '','') [] fig = nat_digits n" and "plain_word fig" and "int n < 2 ^ 63"
  shows "u_Bytes (report_final moved (printed pre @ stats_line fig @ newline # post)) = int n
    \<and> u_Bytes (report_final moved (printed pre)) = moved"
proof -
  have split: "split_char newline (printed pre @ s) = pre @ split_char newline s" for s using assms(1)
  proof (induction pre)
    case (Cons l ls)
    then show ?case using split_char_append [of newline l "printed ls @ s"]
      by (simp add: printed_def split_char_single)
  qed (simp add: printed_def)
  have skip: "stats_of_lines (pre @ ls) = stats_of_lines ls" for ls using assms(1) by (induction pre) auto
  have nl: "newline \<notin> set (stats_line fig)" using assms(3)
    by (auto simp: stats_line_def rsyncStatsLine_def plain_word_def list_all_iff printable_def)
  have trim: "trim_space (stats_line fig) = stats_line fig"
    by (rule trim_space_printable) (simp add: stats_line_def rsyncStatsLine_def printable_def)
  have "go_fields (trim_prefix (stats_line fig) rsyncStatsLine) = [fig, ''bytes'']"
    using go_fields_blank_words [OF assms(3), of "''bytes''"]
    by (simp add: stats_line_def plain_word_def printable_def)
  moreover have "has_prefix (stats_line fig) rsyncStatsLine" by (simp add: stats_line_def)
  ultimately have "stats_of_lines (stats_line fig # ls) = int n" for ls
    using assms(2,4) by (simp add: trim sscan_digits)
  moreover have "split_char newline (stats_line fig @ newline # post) = stats_line fig # split_char newline post"
    using split_char_append [of newline "stats_line fig" post] nl by (simp add: split_char_single)
  ultimately have "parse_rsync_stats (printed pre @ stats_line fig @ newline # post) = int n"
    by (simp add: parse_rsync_stats_def split skip)
  moreover have "parse_rsync_stats (printed pre) = -1"
    using split [of "[]"] skip [of "[[]]"] by (simp add: parse_rsync_stats_def rsyncStatsLine_def)
  ultimately show ?thesis by (simp add: report_final_def moved_update_def)
qed

lemma stats_settle_the_count_witness:
  "u_Bytes (report_final 7 (printed [''sending''] @ stats_line ''50,059'' @ newline # [])) = 50059"
proof -
  have fig: "nat_digits 50059 = ''50059''" by (simp add: nat_digits.simps) code_simp
  have "u_Bytes (report_final 7 (printed [''sending''] @ stats_line ''50,059'' @ newline # [])) = int 50059
      \<and> u_Bytes (report_final 7 (printed [''sending''])) = 7"
  proof (rule stats_settle_the_count)
    show "\<forall>l\<in>set [''sending'']. newline \<notin> set l \<and> \<not> has_prefix (trim_space l) rsyncStatsLine"
      by (simp add: trim_space_printable printable_def rsyncStatsLine_def)
    show "replace_char (CHR '','') [] ''50,059'' = nat_digits 50059" unfolding fig by (simp add: replace_char_def)
  qed (simp_all add: plain_word_def printable_def)
  then show ?thesis by simp
qed

end
