(* ===== verification/FileCheck.thy ===== *)
theory FileCheck
  imports RsyncOutput "HOL-Library.List_Lexorder" "HOL-Library.Char_ord" "HOL-Library.Sublist"
begin

text \<open>
  Checking a transfer file by file, \<open>filecheck.go\<close>: the listing of a remote tree and the
  hashes of its files are the output of \<open>find\<close> and \<open>sha256sum\<close>, read record by record over a
  watched SSH connection. The commands and their output are arguments; walking and hashing the
  local tree are I/O.
\<close>

section \<open>Which host\<close>

datatype file_check_error =
    NotFilesystem string
  | NoFilesystemConfig
  | NoSSHConfig
  | BadAccessType string
  | CheckIO string

definition file_check_ssh :: "data_location \<Rightarrow> file_check_error + core_ssh_config option" where
  "file_check_ssh loc =
     (if dl_StorageType loc \<noteq> [] \<and> dl_StorageType loc \<noteq> StorageTypeFilesystem then Inl (NotFilesystem (dl_StorageType loc))
      else (case dl_Filesystem loc of
              None \<Rightarrow> Inl NoFilesystemConfig
            | Some f \<Rightarrow>
                (if fa_AccessType f = AccessTypeLocal then Inr None
                 else if fa_AccessType f = AccessTypeSSH then
                   (case fa_SSH f of None \<Rightarrow> Inl NoSSHConfig | Some cfg \<Rightarrow> Inr (Some cfg))
                 else Inl (BadAccessType (fa_AccessType f)))))"

section \<open>Records of a stream\<close>

abbreviation tab :: char where "tab \<equiv> CHR 0x09"
abbreviation carriage :: char where "carriage \<equiv> CHR 0x0D"

text \<open>The loop of \<open>runSSHStream\<close>: what is read up to each delimiter, empty records left out.\<close>

definition stream_records :: "char \<Rightarrow> string \<Rightarrow> string list" where
  "stream_records delim out = filter (\<lambda>r. r \<noteq> []) (split_char delim out)"

section \<open>The listing\<close>

definition parse_file_record :: "string \<Rightarrow> file_info option" where
  "parse_file_record r =
     (case cut_char tab r of
        None \<Rightarrow> None
      | Some (sz, rest) \<Rightarrow>
          (case cut_char tab rest of
             None \<Rightarrow> None
           | Some (mtime, relPath) \<Rightarrow>
               (if relPath = [] then None
                else (case atoi sz of
                        None \<Rightarrow> None
                      | Some n \<Rightarrow>
                          (let sec = (case cut_char (CHR ''.'') mtime of None \<Rightarrow> mtime | Some (a, _) \<Rightarrow> a)
                           in case atoi sec of
                                None \<Rightarrow> None
                              | Some t \<Rightarrow> Some \<lparr>fi_Path = relPath, fi_Size = n, fi_ModTime = t\<rparr>)))))"

definition find_command :: "string \<Rightarrow> string" where
  "find_command root =
     ''find '' @ shell_quote_single root @ '' -type f -printf '' @ [squote] @ ''%s'' @ [backslash] @ ''t%T@'' @ [backslash]
       @ ''t%P'' @ [backslash, CHR ''0'', squote]"

definition list_remote_tree :: "string \<Rightarrow> file_info list" where
  "list_remote_tree out = List.map_filter parse_file_record (stream_records (CHR 0x00) out)"

text \<open>\<open>sort.Slice\<close> by path; the paths of a listing are distinct, so the order is the only one.\<close>

definition list_files :: "data_location \<Rightarrow> (string \<Rightarrow> string + file_info list) \<Rightarrow>
    (core_ssh_config \<Rightarrow> string \<Rightarrow> string + string) \<Rightarrow> file_check_error + file_info list" where
  "list_files loc walk ssh =
     bind_res (file_check_ssh loc) (\<lambda>cfg.
       bind_res
         (case cfg of
            None \<Rightarrow> map_err CheckIO (walk (dl_Path loc))
          | Some c \<Rightarrow> bind_res (map_err CheckIO (ssh c (find_command (dl_Path loc)))) (\<lambda>out. Inr (list_remote_tree out)))
         (\<lambda>fs. Inr (sort_key fi_Path fs)))"

section \<open>The hashes\<close>

fun unescape_sha256_name :: "string \<Rightarrow> string" where
  "unescape_sha256_name [] = []"
| "unescape_sha256_name [c] = [c]"
| "unescape_sha256_name (c # d # s) =
     (if c \<noteq> backslash then c # unescape_sha256_name (d # s)
      else (if d = CHR ''n'' then newline else if d = CHR ''r'' then carriage else d) # unescape_sha256_name s)"

text \<open>\<open>strings.Cut\<close> at the first pair of spaces.\<close>

fun cut_blanks :: "string \<Rightarrow> (string \<times> string) option" where
  "cut_blanks [] = None"
| "cut_blanks (c # s) =
     (if has_prefix (c # s) ''  '' then Some ([], tl s)
      else (case cut_blanks s of None \<Rightarrow> None | Some (a, b) \<Rightarrow> Some (c # a, b)))"

definition parse_sha256_line :: "string \<Rightarrow> (string \<times> string) option" where
  "parse_sha256_line line0 =
     (let escaped = has_prefix line0 [backslash]; line = (if escaped then tl line0 else line0)
      in case cut_blanks line of
           None \<Rightarrow> None
         | Some (hash, path) \<Rightarrow>
             (if hash = [] \<or> path = [] then None
              else Some (hash, if escaped then unescape_sha256_name path else path)))"

definition hash_input :: "string list \<Rightarrow> string" where
  "hash_input paths = concat (map (\<lambda>p. p @ [CHR 0x00]) paths)"

definition hash_command :: "string \<Rightarrow> string" where
  "hash_command root =
     ''cd '' @ shell_quote_single root @ '' && xargs -0 -r -P '' @ [CHR 0x22] @ ''$(nproc 2>/dev/null || echo 4)'' @ [CHR 0x22]
       @ '' -n 64 sha256sum --''"

definition hash_remote_tree :: "string \<Rightarrow> (string \<times> string) list" where
  "hash_remote_tree out = List.map_filter parse_sha256_line (stream_records newline out)"

definition hash_files :: "data_location \<Rightarrow> string list \<Rightarrow> (string \<Rightarrow> string list \<Rightarrow> string + (string \<times> string) list) \<Rightarrow>
    (core_ssh_config \<Rightarrow> string \<Rightarrow> string \<Rightarrow> string + string) \<Rightarrow> file_check_error + (string \<rightharpoonup> string)" where
  "hash_files loc paths local ssh =
     bind_res (file_check_ssh loc) (\<lambda>cfg.
       if paths = [] then Inr Map.empty
       else bind_res
         (case cfg of
            None \<Rightarrow> map_err CheckIO (local (dl_Path loc) paths)
          | Some c \<Rightarrow>
              bind_res (map_err CheckIO (ssh c (hash_command (dl_Path loc)) (hash_input paths))) (\<lambda>out. Inr (hash_remote_tree out)))
         (\<lambda>hs. Inr (fold (\<lambda>(h, p) m. m(p \<mapsto> h)) hs Map.empty)))"

section \<open>The watched connection\<close>

abbreviation sshKeepaliveMaxMissed :: nat where "sshKeepaliveMaxMissed \<equiv> 3"
abbreviation sshStderrLimit :: nat where "sshStderrLimit \<equiv> 4096"

datatype watch_event = Stopped | CtxEnded | Answered | Unanswered

datatype watch_end = Watching nat | WatchStopped | ClosedByContext | ClosedAsLost

text \<open>
  \<open>watchSSH\<close>, one event per round: the stop channel or the context wins the wait, or the
  keepalive is answered, or it fails or times out.
\<close>

fun watch_ssh :: "nat \<Rightarrow> watch_event list \<Rightarrow> watch_end" where
  "watch_ssh missed [] = Watching missed"
| "watch_ssh missed (Stopped # es) = WatchStopped"
| "watch_ssh missed (CtxEnded # es) = ClosedByContext"
| "watch_ssh missed (Answered # es) = watch_ssh 0 es"
| "watch_ssh missed (Unanswered # es) =
     (if Suc missed \<ge> sshKeepaliveMaxMissed then ClosedAsLost else watch_ssh (Suc missed) es)"

datatype stream_error = StreamContext string | StreamLost | StreamFailed string string | StreamFailedBare string

definition stream_outcome :: "string option \<Rightarrow> bool \<Rightarrow> string option \<Rightarrow> string \<Rightarrow> stream_error option" where
  "stream_outcome ctx lost werr stderr =
     (case ctx of
        Some e \<Rightarrow> Some (StreamContext e)
      | None \<Rightarrow>
          (if lost then Some StreamLost
           else (case werr of
                   None \<Rightarrow> None
                 | Some e \<Rightarrow> (let msg = trim_space stderr
                             in if msg \<noteq> [] then Some (StreamFailed e msg) else Some (StreamFailedBare e)))))"

section \<open>The listing reads back\<close>

text \<open>What \<open>find -printf\<close> prints for one file, the fraction of its time included.\<close>

definition find_record :: "file_info \<times> string \<Rightarrow> string" where
  "find_record e = (case e of (f, frac) \<Rightarrow> itoa (fi_Size f) @ [tab] @ itoa (fi_ModTime f) @ ''.'' @ frac @ [tab] @ fi_Path f)"

definition listed_file :: "file_info \<times> string \<Rightarrow> bool" where
  "listed_file e \<longleftrightarrow>
     in_int64 (fi_Size (fst e)) \<and> in_int64 (fi_ModTime (fst e)) \<and> fi_Path (fst e) \<noteq> [] \<and> CHR 0x00 \<notin> set (fi_Path (fst e))
     \<and> list_all is_digit (snd e)"

lemma itoa_below:
  "(of_char c :: nat) < 48 \<Longrightarrow> c \<noteq> CHR ''-'' \<Longrightarrow> c \<notin> set (itoa n)"
  using nat_digits_no [of c] by (auto simp: itoa_def)

lemma digits_below: "(of_char c :: nat) < 48 \<Longrightarrow> list_all is_digit s \<Longrightarrow> c \<notin> set s"
  by (auto simp: list_all_iff is_digit_def Let_def)

lemma parse_find_record: "listed_file e \<Longrightarrow> parse_file_record (find_record e) = Some (fst e)"
proof -
  assume e: "listed_file e"
  obtain f frac where ff: "e = (f, frac)" by (cases e)
  have frac: "tab \<notin> set frac" using e digits_below [of tab frac] by (simp add: ff listed_file_def)
  have a: "cut_char tab (find_record (f, frac)) = Some (itoa (fi_Size f), itoa (fi_ModTime f) @ ''.'' @ frac @ [tab] @ fi_Path f)"
    using cut_char_first [OF itoa_below, of tab] by (simp add: find_record_def)
  have b: "cut_char tab (itoa (fi_ModTime f) @ ''.'' @ frac @ [tab] @ fi_Path f) = Some (itoa (fi_ModTime f) @ ''.'' @ frac, fi_Path f)"
    using cut_char_first [of tab "itoa (fi_ModTime f) @ ''.'' @ frac" "fi_Path f"] itoa_below [of tab] frac by simp
  have c: "cut_char (CHR ''.'') (itoa (fi_ModTime f) @ ''.'' @ frac) = Some (itoa (fi_ModTime f), frac)"
    using cut_char_first [OF itoa_below, of "CHR ''.''" "fi_ModTime f" frac] by simp
  show ?thesis using e by (simp add: parse_file_record_def a b [simplified] c [simplified] ff listed_file_def atoi_itoa)
qed

lemma find_record_no_nul: "listed_file e \<Longrightarrow> CHR 0x00 \<notin> set (find_record e) \<and> find_record e \<noteq> []"
  using itoa_below [of "CHR 0x00"] digits_below [of "CHR 0x00" "snd e"]
  by (auto simp: find_record_def listed_file_def split: prod.splits)

lemma records_of_printed:
  "\<forall>r\<in>set rs. d \<notin> set r \<and> r \<noteq> [] \<Longrightarrow> stream_records d (concat (map (\<lambda>r. r @ [d]) rs)) = rs"
proof (induction rs)
  case (Cons r rs)
  then show ?case using split_char_append [of d r "concat (map (\<lambda>r. r @ [d]) rs)"]
    by (simp add: stream_records_def split_char_single)
qed (simp add: stream_records_def)

lemma map_filter_all: "(\<And>x. x \<in> set xs \<Longrightarrow> f (g x) = Some (h x)) \<Longrightarrow> List.map_filter f (map g xs) = map h xs"
  by (induction xs) (simp_all add: map_filter_simps)

text \<open>
  The listing of a remote tree reads back exactly: from what \<open>find\<close> prints, every file comes
  back with its path, its size and its time in whole seconds, sorted by path, and nothing else
  does - whatever tabs, newlines or quotes its name holds.
\<close>

lemma remote_listing_reads_back:
  assumes "file_check_ssh loc = Inr (Some cfg)" and "list_all listed_file es"
    and "ssh cfg (find_command (dl_Path loc)) = Inr (concat (map (\<lambda>e. find_record e @ [CHR 0x00]) es))"
  shows "list_files loc walk ssh = Inr (sort_key fi_Path (map fst es))"
proof -
  have "stream_records (CHR 0x00) (concat (map (\<lambda>e. find_record e @ [CHR 0x00]) es)) = map find_record es"
    using records_of_printed [of "map find_record es" "CHR 0x00"] assms(2) find_record_no_nul
    by (simp add: list_all_iff comp_def)
  then have "list_remote_tree (concat (map (\<lambda>e. find_record e @ [CHR 0x00]) es)) = map fst es"
    using assms(2) parse_find_record by (simp add: list_remote_tree_def list_all_iff map_filter_all)
  then show ?thesis by (simp add: list_files_def assms(1,3))
qed

definition checked_host :: core_ssh_config where
  "checked_host = \<lparr>cs_Host = ''h'', cs_Port = 22, cs_Username = ''u'', cs_Password = [], cs_ConnectTimeout = 0, cs_PrivateKey = ''k'',
     cs_PrivateKeyPath = [], cs_UseAgent = False\<rparr>"

definition checked_tree :: data_location where
  "checked_tree = \<lparr>dl_StorageType = StorageTypeFilesystem, dl_Path = ''/a'',
     dl_Filesystem = Some \<lparr>fa_AccessType = AccessTypeSSH, fa_SSH = Some checked_host, fa_Rsync = None\<rparr>, dl_ObjectStorage = None,
     dl_Filter = None, dl_PreCmd = [], dl_PostCmd = []\<rparr>"

lemma checked_tree_ssh: "file_check_ssh checked_tree = Inr (Some checked_host)"
  by (simp add: file_check_ssh_def checked_tree_def)

lemma remote_listing_reads_back_witness:
  "list_files checked_tree (\<lambda>_. Inl []) (\<lambda>c cmd. Inr (concat (map (\<lambda>e. find_record e @ [CHR 0x00])
      [(sized_file [CHR ''b'', tab, newline] 3, ''5''), (sized_file ''a'' 4, ''25'')])))
   = Inr (sort_key fi_Path [sized_file [CHR ''b'', tab, newline] 3, sized_file ''a'' 4])"
proof -
  let ?es = "[(sized_file [CHR ''b'', tab, newline] 3, ''5''), (sized_file ''a'' 4, ''25'')]"
  have "list_all listed_file ?es" by (simp add: listed_file_def sized_file_def in_int64_def is_digit_def)
  from remote_listing_reads_back [OF checked_tree_ssh this, of "\<lambda>c cmd. Inr (concat (map (\<lambda>e. find_record e @ [CHR 0x00]) ?es))" "\<lambda>_. Inl []"]
  show ?thesis by simp
qed

section \<open>The hashes read back\<close>

text \<open>How \<open>sha256sum\<close> prints a name.\<close>

definition escape_name :: "string \<Rightarrow> string" where
  "escape_name s =
     concat (map (\<lambda>c. if c = backslash then [backslash, backslash] else if c = newline then [backslash, CHR ''n'']
                     else if c = carriage then [backslash, CHR ''r''] else [c]) s)"

definition needs_escape :: "string \<Rightarrow> bool" where
  "needs_escape s \<longleftrightarrow> backslash \<in> set s \<or> newline \<in> set s \<or> carriage \<in> set s"

definition sha_line :: "string \<times> string \<Rightarrow> string" where
  "sha_line e =
     (case e of (hash, name) \<Rightarrow>
        (if needs_escape name then [backslash] @ hash @ ''  '' @ escape_name name else hash @ ''  '' @ name))"

definition hash_text :: "string \<Rightarrow> bool" where
  "hash_text h \<longleftrightarrow> h \<noteq> [] \<and> list_all (\<lambda>c. printable c \<and> c \<noteq> backslash) h"

lemma unescape_plain: "c \<noteq> backslash \<Longrightarrow> unescape_sha256_name (c # t) = c # unescape_sha256_name t"
  by (cases t) auto

lemma unescape_escape: "unescape_sha256_name (escape_name s) = s"
proof (induction s)
  case (Cons c s)
  have "escape_name (c # s) = (if c = backslash then [backslash, backslash] else if c = newline then [backslash, CHR ''n'']
      else if c = carriage then [backslash, CHR ''r''] else [c]) @ escape_name s" by (simp add: escape_name_def)
  then show ?case using Cons by (simp add: unescape_plain)
qed (simp add: escape_name_def)

lemma cut_blanks_first: "CHR '' '' \<notin> set h \<Longrightarrow> cut_blanks (h @ ''  '' @ p) = Some (h, p)"
  by (induction h) auto

lemma hash_text_no: "hash_text h \<Longrightarrow> \<not> printable c \<Longrightarrow> c \<notin> set h"
  by (auto simp: hash_text_def list_all_iff)

lemma blanks_not_printable: "\<not> printable (CHR '' '')" "\<not> printable newline"
  by (simp_all add: printable_def)

lemma parse_sha_line: "hash_text h \<Longrightarrow> p \<noteq> [] \<Longrightarrow> parse_sha256_line (sha_line (h, p)) = Some (h, p)"
proof -
  assume h: "hash_text h" and p: "p \<noteq> []"
  obtain c r where c: "h = c # r" "c \<noteq> backslash" using h by (cases h) (auto simp: hash_text_def)
  have blank: "CHR '' '' \<notin> set h" using h hash_text_no blanks_not_printable by blast
  have ne: "escape_name p \<noteq> []" using p by (cases p) (auto simp: escape_name_def)
  show ?thesis using c p ne cut_blanks_first [OF blank, of p] cut_blanks_first [OF blank, of "escape_name p"]
    by (simp add: parse_sha256_line_def sha_line_def unescape_escape)
qed

lemma sha_line_one_line: "hash_text h \<Longrightarrow> newline \<notin> set (sha_line (h, p)) \<and> sha_line (h, p) \<noteq> []"
  using hash_text_no [OF _ blanks_not_printable(2), of h]
  by (auto simp: sha_line_def hash_text_def needs_escape_def escape_name_def split: if_splits)

lemma hash_remote_tree_printed:
  assumes "\<forall>(h, p)\<in>set hs. hash_text h \<and> p \<noteq> []"
  shows "hash_remote_tree (concat (map (\<lambda>e. sha_line e @ [newline]) hs)) = hs"
proof -
  have "stream_records newline (concat (map (\<lambda>e. sha_line e @ [newline]) hs)) = map sha_line hs"
  proof -
    have "\<forall>r\<in>set (map sha_line hs). newline \<notin> set r \<and> r \<noteq> []" using assms by (auto simp: sha_line_one_line)
    from records_of_printed [OF this] show ?thesis by (simp add: comp_def)
  qed
  moreover have "List.map_filter parse_sha256_line (map sha_line hs) = map id hs"
    by (rule map_filter_all) (use assms in \<open>auto simp: parse_sha_line\<close>)
  ultimately show ?thesis by (simp add: hash_remote_tree_def)
qed

lemma fold_hashes:
  "distinct (map snd hs) \<Longrightarrow>
   fold (\<lambda>(h, p) m. m(p \<mapsto> h)) hs m q = (case map_of (map (\<lambda>(h, p). (p, h)) hs) q of Some h \<Rightarrow> Some h | None \<Rightarrow> m q)"
proof (induction hs arbitrary: m)
  case (Cons e hs)
  obtain h p where e: "e = (h, p)" by (cases e)
  have "map_of (map (\<lambda>(h, p). (p, h)) hs) p = None" using Cons.prems e by (auto simp: map_of_eq_None_iff image_iff)
  then show ?case using Cons by (auto simp: e split: option.split)
qed simp

lemma hashes_read_back:
  assumes "file_check_ssh loc = Inr (Some cfg)" and "paths \<noteq> []"
    and "mset (map snd hs) = mset paths" and "distinct paths" and "\<forall>(h, p)\<in>set hs. hash_text h \<and> p \<noteq> [] \<and> CHR 0x00 \<notin> set p"
    and "ssh cfg (hash_command (dl_Path loc)) (hash_input paths) = Inr (concat (map (\<lambda>e. sha_line e @ [newline]) hs))"
  shows "split_char (CHR 0x00) (hash_input paths) = paths @ [[]]
    \<and> (\<exists>m. hash_files loc paths local ssh = Inr m \<and> dom m = set paths \<and> (\<forall>(h, p)\<in>set hs. m p = Some h))"
proof -
  have sets: "set paths = snd ` set hs" using assms(3) by (metis list.set_map set_mset_mset)
  have dist: "distinct (map snd hs)" using assms(3,4) mset_eq_imp_distinct_iff by blast
  have "\<forall>p\<in>set paths. CHR 0x00 \<notin> set p" using assms(5) sets by auto
  then have "split_char (CHR 0x00) (hash_input paths) = paths @ [[]]"
  proof (induction paths)
    case (Cons p ps)
    then show ?case using split_char_append [of "CHR 0x00" p "hash_input ps"]
      by (simp add: hash_input_def split_char_single)
  qed (simp add: hash_input_def)
  moreover have tree: "hash_remote_tree (concat (map (\<lambda>e. sha_line e @ [newline]) hs)) = hs"
    by (rule hash_remote_tree_printed) (use assms(5) in auto)
  let ?m = "fold (\<lambda>(h, p) m. m(p \<mapsto> h)) hs Map.empty"
  have m: "?m q = map_of (map (\<lambda>(h, p). (p, h)) hs) q" for q by (simp add: fold_hashes [OF dist] split: option.split)
  have keys: "map fst (map (\<lambda>(h, p). (p, h)) hs) = map snd hs" by (induction hs) auto
  have "hash_files loc paths local ssh = Inr ?m" by (simp add: hash_files_def assms(1,2,6) tree)
  moreover have "dom ?m = set paths"
    using keys by (auto simp: dom_def m sets map_of_eq_None_iff image_iff split: prod.splits)
  moreover have "\<forall>(h, p)\<in>set hs. ?m p = Some h"
  proof (clarsimp simp: m)
    fix h p assume "(h, p) \<in> set hs"
    then have "(p, h) \<in> set (map (\<lambda>(h, p). (p, h)) hs)" by force
    then show "map_of (map (\<lambda>(h, p). (p, h)) hs) p = Some h" using dist unfolding keys [symmetric] by (intro map_of_is_SomeI)
  qed
  ultimately show ?thesis by blast
qed

text \<open>
  Hashing a remote tree answers for every file: \<open>sha256sum\<close> is fed exactly the paths asked
  for, and from the lines it prints, in whatever order its processes finish, each path gets its
  own hash - names with backslashes and line breaks included, which are printed escaped.
\<close>

lemma remote_hashes_read_back:
  assumes "file_check_ssh loc = Inr (Some cfg)" and "paths \<noteq> []"
    and "mset (map snd hs) = mset paths" and "distinct paths" and "\<forall>(h, p)\<in>set hs. hash_text h \<and> p \<noteq> [] \<and> CHR 0x00 \<notin> set p"
    and "ssh cfg (hash_command (dl_Path loc)) (hash_input paths) = Inr (concat (map (\<lambda>e. sha_line e @ [newline]) hs))"
  shows "split_char (CHR 0x00) (hash_input paths) = paths @ [[]]
    \<and> (\<exists>m. hash_files loc paths local ssh = Inr m \<and> dom m = set paths \<and> (\<forall>(h, p)\<in>set hs. m p = Some h))"
  using assms by (rule hashes_read_back)

lemma remote_hashes_read_back_witness:
  "\<exists>m. hash_files checked_tree [''a'', [backslash, CHR ''b'']] (\<lambda>_ _. Inr [])
        (\<lambda>c cmd inp. Inr (concat (map (\<lambda>e. sha_line e @ [newline]) [(''f0'', [backslash, CHR ''b'']), (''e1'', ''a'')]))) = Inr m
     \<and> m ''a'' = Some ''e1''"
proof -
  let ?ps = "[''a'', [backslash, CHR ''b'']]" and ?hs = "[(''f0'', [backslash, CHR ''b'']), (''e1'', ''a'')]"
  have "split_char (CHR 0x00) (hash_input ?ps) = ?ps @ [[]] \<and>
    (\<exists>m. hash_files checked_tree ?ps (\<lambda>_ _. Inr []) (\<lambda>c cmd inp. Inr (concat (map (\<lambda>e. sha_line e @ [newline]) ?hs))) = Inr m
      \<and> dom m = set ?ps \<and> (\<forall>(h, p)\<in>set ?hs. m p = Some h))"
    by (rule remote_hashes_read_back [OF checked_tree_ssh]) (simp_all add: hash_text_def printable_def)
  then show ?thesis by auto
qed

section \<open>A connection is not given up lightly\<close>

lemma run_past_answer:
  "suffix (replicate n Unanswered) (xs @ Answered # ys) \<longleftrightarrow> suffix (replicate n Unanswered) ys"
proof
  assume "suffix (replicate n Unanswered) (xs @ Answered # ys)"
  then consider "suffix (replicate n Unanswered) (Answered # ys)"
    | zs where "replicate n Unanswered = zs @ Answered # ys" by (auto simp: suffix_append)
  then show "suffix (replicate n Unanswered) ys"
  proof cases
    case 2
    then have "Answered \<in> set (replicate n Unanswered)" by simp
    then show ?thesis by simp
  qed (cases n; auto simp: suffix_Cons)
qed (metis append_Cons append_Nil append_assoc suffix_def)

lemma ex_prefix_Cons:
  "(\<exists>pre. prefix pre (x # es) \<and> P pre) \<longleftrightarrow> P [] \<or> (\<exists>pre. prefix pre es \<and> P (x # pre))"
  by (auto simp: prefix_Cons)

definition lost_prefix :: "nat \<Rightarrow> watch_event list \<Rightarrow> bool" where
  "lost_prefix missed pre \<longleftrightarrow>
     set pre \<subseteq> {Answered, Unanswered} \<and> suffix (replicate 3 Unanswered) (replicate missed Unanswered @ pre)"

lemma lost_prefix_simps:
  "missed < 3 \<Longrightarrow> \<not> lost_prefix missed []"
  "\<not> lost_prefix missed (Stopped # pre)" "\<not> lost_prefix missed (CtxEnded # pre)"
  "lost_prefix missed (Answered # pre) \<longleftrightarrow> lost_prefix 0 pre"
  "lost_prefix missed (Unanswered # pre) \<longleftrightarrow> lost_prefix (Suc missed) pre"
  by (auto simp: lost_prefix_def run_past_answer replicate_app_Cons_same dest: suffix_length_le)

lemma watch_lost_from:
  "missed < 3 \<Longrightarrow> watch_ssh missed es = ClosedAsLost \<longleftrightarrow> (\<exists>pre. prefix pre es \<and> lost_prefix missed pre)"
proof (induction missed es rule: watch_ssh.induct)
  case (5 missed es)
  show ?case
  proof (cases "missed = 2")
    case True
    have "lost_prefix 2 [Unanswered]" by (simp add: lost_prefix_def numeral_3_eq_3 numeral_2_eq_2)
    then show ?thesis using True by (auto simp: ex_prefix_Cons intro!: exI [of _ "[]"])
  qed (use 5 in \<open>simp add: ex_prefix_Cons lost_prefix_simps\<close>)
qed (simp_all add: ex_prefix_Cons lost_prefix_simps)

text \<open>
  A watched connection is closed as lost exactly when three keepalives in a row went
  unanswered before the command ended or was cancelled: one answer in between starts the count
  again, and neither a refusal nor a single miss ends a long run.
\<close>

lemma connection_lost_iff_three_misses:
  "watch_ssh 0 es = ClosedAsLost \<longleftrightarrow>
     (\<exists>pre post. es = pre @ [Unanswered, Unanswered, Unanswered] @ post \<and> set pre \<subseteq> {Answered, Unanswered})"
proof -
  have "lost_prefix 0 p \<longleftrightarrow> (\<exists>pre. p = pre @ [Unanswered, Unanswered, Unanswered] \<and> set pre \<subseteq> {Answered, Unanswered})" for p
    by (auto simp: lost_prefix_def suffix_def numeral_3_eq_3)
  moreover have "watch_ssh 0 es = ClosedAsLost \<longleftrightarrow> (\<exists>p. prefix p es \<and> lost_prefix 0 p)" by (rule watch_lost_from) simp
  moreover have "(\<exists>p. prefix p es \<and> (\<exists>pre. p = pre @ [Unanswered, Unanswered, Unanswered] \<and> Q pre))
      \<longleftrightarrow> (\<exists>pre post. es = pre @ [Unanswered, Unanswered, Unanswered] @ post \<and> Q pre)" for Q
    by (simp only: prefix_def append_assoc [symmetric]) blast
  ultimately show ?thesis by (simp only:)
qed


end
