(* ===== verification/ValidationReport.thy ===== *)
theory ValidationReport
  imports RsyncOutput FileCheck
begin

text \<open>
  What a validation reports, \<open>pkg/core/validation/report.go\<close> and \<open>options.go\<close>: failures are
  listed up to a budget and then counted, warnings of one kind collapse into one line, and what
  the filter left behind is one closing line. The texts of the messages are the constructors
  of a datatype, two messages being equal when their texts are. The loop every comparison runs
  over its two listings is written once here and instantiated by the comparisons.
\<close>

section \<open>Findings\<close>

datatype notice =
    ExcludedButPresent string
  | NotContentVerified
  | RowsNotComparable

datatype detail_message =
    MissingInDestination string
  | ExtraInDestination string
  | SizeDiffers int int
  | TimeDiffers int int
  | ChecksumUnavailable
  | ChecksumMismatch string string
  | EtagMismatch string string
  | RowCountMismatch int int
  | RowCountFailed string
  | ObjectMissing string string
  | ObjectExtra string string
  | CharsetDiffers string string string
  | DeprecatedKey string
  | FailuresInTotal nat nat
  | NoticedItems nat notice string
  | SkippedItems nat string
  | ValidationFailed string

record detail_item =
  vd_ItemPath :: string
  vd_Status :: string
  vd_Message :: detail_message

abbreviation DetailFailed :: string where "DetailFailed \<equiv> ''failed''"
abbreviation DetailWarning :: string where "DetailWarning \<equiv> ''warning''"
abbreviation DetailSkipped :: string where "DetailSkipped \<equiv> ''skipped''"

definition detail :: "string \<Rightarrow> string \<Rightarrow> detail_message \<Rightarrow> detail_item" where
  "detail path status m = \<lparr>vd_ItemPath = path, vd_Status = status, vd_Message = m\<rparr>"

lemma detail_simps [simp]:
  "vd_Status (detail p s m) = s" "vd_ItemPath (detail p s m) = p" "vd_Message (detail p s m) = m"
  by (simp_all add: detail_def)

text \<open>The map of notices and the order their messages were first seen in are one association list.\<close>

record findings =
  fd_root :: string
  fd_items :: "detail_item list"
  fd_failed :: nat
  fd_notices :: "(notice \<times> string list) list"

definition maxItemDetails :: nat where "maxItemDetails = 20"
definition maxNoticeSamples :: nat where "maxNoticeSamples = 5"

definition new_findings :: "string \<Rightarrow> findings" where
  "new_findings root = \<lparr>fd_root = root, fd_items = [], fd_failed = 0, fd_notices = []\<rparr>"

definition add_fail :: "string \<Rightarrow> detail_message \<Rightarrow> findings \<Rightarrow> findings" where
  "add_fail path m f =
     (let f1 = f\<lparr>fd_failed := fd_failed f + 1\<rparr>
      in if fd_failed f1 > maxItemDetails then f1 else f1\<lparr>fd_items := fd_items f1 @ [detail path DetailFailed m]\<rparr>)"

fun note_path :: "notice \<Rightarrow> string \<Rightarrow> (notice \<times> string list) list \<Rightarrow> (notice \<times> string list) list" where
  "note_path m p [] = [(m, [p])]"
| "note_path m p ((k, ps) # ns) = (if k = m then (k, ps @ [p]) # ns else (k, ps) # note_path m p ns)"

definition add_notice :: "notice \<Rightarrow> string \<Rightarrow> findings \<Rightarrow> findings" where
  "add_notice m p f = f\<lparr>fd_notices := note_path m p (fd_notices f)\<rparr>"

definition sample_of :: "string list \<Rightarrow> string" where
  "sample_of paths =
     (if length paths \<le> maxNoticeSamples then join '', '' paths
      else join '', '' (take maxNoticeSamples paths) @ '', ...'')"

definition summarise :: "nat \<Rightarrow> string \<Rightarrow> findings \<Rightarrow> detail_item list" where
  "summarise skipped skippedMessage f =
     fd_items f
     @ (if fd_failed f > maxItemDetails then [detail (fd_root f) DetailFailed (FailuresInTotal (fd_failed f) maxItemDetails)] else [])
     @ map (\<lambda>(m, ps). detail (fd_root f) DetailWarning (NoticedItems (length ps) m (sample_of ps))) (fd_notices f)
     @ (if skipped > 0 then [detail (fd_root f) DetailSkipped (SkippedItems skipped skippedMessage)] else [])"

text \<open>A comparable ETag is a bare MD5: 32 hexadecimal characters.\<close>

definition hex_char :: "char \<Rightarrow> bool" where
  "hex_char c = (let n = of_char c :: nat in (48 \<le> n \<and> n \<le> 57) \<or> (97 \<le> n \<and> n \<le> 102) \<or> (65 \<le> n \<and> n \<le> 70))"

definition comparable_etag :: "string \<Rightarrow> bool" where
  "comparable_etag etag \<longleftrightarrow> length etag = 32 \<and> list_all hex_char etag"

section \<open>Options and progress lines\<close>

abbreviation ModeQuick :: string where "ModeQuick \<equiv> ''quick''"
abbreviation ModeChecksum :: string where "ModeChecksum \<equiv> ''checksum''"

definition valid_mode :: "string \<Rightarrow> bool" where
  "valid_mode mode \<longleftrightarrow> mode = ModeQuick \<or> mode = ModeChecksum"

definition mode_or_quick :: "string \<Rightarrow> string" where
  "mode_or_quick mode = (if mode = [] then ModeQuick else mode)"

definition item_label :: "nat \<Rightarrow> nat \<Rightarrow> string \<Rightarrow> string" where
  "item_label i n name = (if n \<le> 1 then name else itoa (int (i + 1)) @ ''/'' @ itoa (int n) @ '' '' @ name)"

text \<open>The loop of \<open>commas\<close>: a comma goes in at \<open>i\<close>, then three places further left.\<close>

fun commas_loop :: "nat \<Rightarrow> string \<Rightarrow> string" where
  "commas_loop i s = (if i = 0 then s else commas_loop (i - 3) (take i s @ '','' @ drop i s))"

declare commas_loop.simps [simp del]

definition commas :: "int \<Rightarrow> string" where
  "commas n =
     (let s0 = itoa n; neg = n < 0; s1 = (if neg then drop 1 s0 else s0); s = commas_loop (length s1 - 3) s1
      in if neg then CHR ''-'' # s else s)"

text \<open>Both halves of a step run; their errors are joined, one per line.\<close>

fun both_sides :: "string + 'a \<Rightarrow> string + 'b \<Rightarrow> string + 'a \<times> 'b" where
  "both_sides (Inr a) (Inr b) = Inr (a, b)"
| "both_sides (Inl e) (Inr b) = Inl e"
| "both_sides (Inr a) (Inl e) = Inl e"
| "both_sides (Inl e) (Inl e') = Inl (e @ [newline] @ e')"

section \<open>Two listings\<close>

text \<open>
  A Go map filled from a listing: the last entry of a key wins, and the keys are visited in
  sorted order.
\<close>

type_synonym 'a tree = "(string \<times> 'a) list"

definition tree_at :: "'a tree \<Rightarrow> string \<Rightarrow> 'a option" where
  "tree_at t k = map_of (rev t) k"

definition tree_keys :: "'a tree \<Rightarrow> string list" where
  "tree_keys t = sort (remdups (map fst t))"

lemma tree_keys_mem: "set (tree_keys t) = fst ` set t"
  by (simp add: tree_keys_def)

lemma tree_at_iff: "tree_at t k \<noteq> None \<longleftrightarrow> k \<in> set (tree_keys t)"
  by (auto simp: tree_at_def tree_keys_def map_of_eq_None_iff)

lemma tree_at_snoc: "tree_at (t @ [(k, v)]) p = (if p = k then Some v else tree_at t p)"
  by (simp add: tree_at_def)

text \<open>What a comparison says of one key of the source that the filter let through.\<close>

datatype judgement = Agrees | Fails detail_message | Notes notice

fun judge_key :: "(string \<Rightarrow> string) \<Rightarrow> string \<Rightarrow> judgement \<Rightarrow> findings \<Rightarrow> findings" where
  "judge_key place k Agrees f = f"
| "judge_key place k (Fails m) f = add_fail (place k) m f"
| "judge_key place k (Notes n) f = add_notice n k f"

fun source_pass :: "(string \<Rightarrow> string) \<Rightarrow> (string \<Rightarrow> bool) \<Rightarrow> (string \<Rightarrow> judgement) \<Rightarrow> string list \<Rightarrow>
    findings \<times> string list \<Rightarrow> findings \<times> string list" where
  "source_pass place excl judge [] st = st"
| "source_pass place excl judge (k # ks) (f, ex) =
     source_pass place excl judge ks
       (if excl k then (f, ex @ [k]) else (judge_key place k (judge k) f, ex))"

fun dest_pass :: "(string \<Rightarrow> string) \<Rightarrow> (string \<Rightarrow> judgement) \<Rightarrow> string list \<Rightarrow> findings \<Rightarrow> findings" where
  "dest_pass place judge [] f = f"
| "dest_pass place judge (k # ks) f = dest_pass place judge ks (judge_key place k (judge k) f)"

section \<open>What a report says\<close>

text \<open>The failures a run of judgements meets, and those a report lists or counts.\<close>

definition failures :: "(string \<Rightarrow> judgement) \<Rightarrow> string list \<Rightarrow> (string \<times> detail_message) list" where
  "failures judge ks = List.map_filter (\<lambda>k. case judge k of Fails m \<Rightarrow> Some (k, m) | _ \<Rightarrow> None) ks"

definition within_budget :: "findings \<Rightarrow> (string \<times> detail_message) list \<Rightarrow> bool" where
  "within_budget f ms \<longleftrightarrow>
     fd_failed f = length ms \<and> fd_items f = map (\<lambda>(p, m). detail p DetailFailed m) (take maxItemDetails ms)"

lemma within_new: "within_budget (new_findings root) []"
  by (simp add: within_budget_def new_findings_def)

lemma add_fail_within: "within_budget f ms \<Longrightarrow> within_budget (add_fail p m f) (ms @ [(p, m)])"
  by (auto simp: within_budget_def add_fail_def Let_def)

lemma add_notice_within: "within_budget (add_notice n p f) ms \<longleftrightarrow> within_budget f ms"
  by (simp add: within_budget_def add_notice_def)

lemma findings_root [simp]:
  "fd_root (add_fail p m f) = fd_root f" "fd_root (add_notice n p f) = fd_root f" "fd_root (new_findings r) = r"
  by (simp_all add: add_fail_def add_notice_def new_findings_def Let_def)

lemma failures_simps [simp]:
  "failures judge [] = []"
  "failures judge (k # ks) = (case judge k of Fails m \<Rightarrow> [(k, m)] | _ \<Rightarrow> []) @ failures judge ks"
  by (simp_all add: failures_def map_filter_simps split: judgement.split)

definition placed :: "(string \<Rightarrow> string) \<Rightarrow> (string \<times> detail_message) list \<Rightarrow> (string \<times> detail_message) list" where
  "placed place ms = map (\<lambda>(k, m). (place k, m)) ms"

lemma placed_simps [simp]:
  "placed place [] = []" "placed place ((k, m) # ms) = (place k, m) # placed place ms"
  "placed place (xs @ ys) = placed place xs @ placed place ys" "length (placed place xs) = length xs"
  by (simp_all add: placed_def)

lemma judge_key_within:
  "within_budget f ms \<Longrightarrow>
   within_budget (judge_key place k j f) (ms @ placed place (case j of Fails m \<Rightarrow> [(k, m)] | _ \<Rightarrow> []))"
  by (cases j) (simp_all add: add_fail_within add_notice_within)

lemma source_pass_within:
  "within_budget f ms \<Longrightarrow>
   within_budget (fst (source_pass place excl judge ks (f, ex))) (ms @ placed place (failures judge (filter (\<lambda>k. \<not> excl k) ks)))
   \<and> snd (source_pass place excl judge ks (f, ex)) = ex @ filter excl ks"
proof (induction ks arbitrary: f ms ex)
  case (Cons k ks)
  show ?case
  proof (cases "excl k")
    case False
    then show ?thesis using Cons.IH [OF judge_key_within [OF Cons.prems, of place k "judge k"], of ex] by simp
  qed (use Cons in simp)
qed simp

lemma dest_pass_within:
  "within_budget f ms \<Longrightarrow> within_budget (dest_pass place judge ks f) (ms @ placed place (failures judge ks))"
proof (induction ks arbitrary: f ms)
  case (Cons k ks)
  show ?case using Cons.IH [OF judge_key_within [OF Cons.prems, of place k "judge k"]] by simp
qed simp

definition failed_items :: "detail_item list \<Rightarrow> detail_item list" where
  "failed_items ds = filter (\<lambda>d. vd_Status d = DetailFailed) ds"

lemma summarise_failed:
  assumes "within_budget f ms"
  shows "failed_items (summarise n noun f) =
    map (\<lambda>(p, m). detail p DetailFailed m) (take maxItemDetails ms)
    @ (if length ms > maxItemDetails then [detail (fd_root f) DetailFailed (FailuresInTotal (length ms) maxItemDetails)] else [])"
proof -
  have "filter (\<lambda>d. vd_Status d = DetailFailed) (map (\<lambda>(p, m). detail p DetailFailed m) xs) = map (\<lambda>(p, m). detail p DetailFailed m) xs" for xs
    by (induction xs) auto
  moreover have "filter (\<lambda>d. vd_Status d = DetailFailed)
      (map (\<lambda>(m, ps). detail (fd_root f) DetailWarning (NoticedItems (length ps) m (sample_of ps))) ns) = []" for ns
    by (induction ns) auto
  ultimately show ?thesis using assms by (simp add: failed_items_def summarise_def within_budget_def)
qed

lemma summarise_clean_iff: "within_budget f ms \<Longrightarrow> failed_items (summarise n noun f) = [] \<longleftrightarrow> ms = []"
  by (auto simp: summarise_failed maxItemDetails_def)

lemma failures_Nil_iff: "failures judge ks = [] \<longleftrightarrow> (\<forall>k\<in>set ks. \<forall>m. judge k \<noteq> Fails m)"
  by (induction ks) (auto split: judgement.split)

section \<open>Grouped figures read back\<close>

lemma replace_char_append: "replace_char c new (s @ t) = replace_char c new s @ replace_char c new t"
  by (simp add: replace_char_def)

lemma commas_loop_digits: "replace_char (CHR '','') [] (commas_loop i s) = replace_char (CHR '','') [] s"
proof (induction i s rule: commas_loop.induct)
  case (1 i s)
  have "replace_char (CHR '','') [] (take i s @ '','' @ drop i s) = replace_char (CHR '','') [] (take i s @ drop i s)"
    unfolding replace_char_append by (simp add: replace_char_def)
  then show ?case using 1 by (subst commas_loop.simps) simp
qed

lemma replace_absent: "c \<notin> set s \<Longrightarrow> replace_char c new s = s"
  by (induction s) (auto simp: replace_char_def)

text \<open>The commas of a figure are decoration: without them it is the number.\<close>

lemma commas_reads_back: "replace_char (CHR '','') [] (commas n) = itoa n"
proof (cases "n < 0")
  case True
  have "CHR '','' \<notin> set (nat_digits k)" for k using nat_digits_no [of "CHR '',''"] by simp
  then show ?thesis using True
    by (simp add: commas_def Let_def itoa_def replace_char_def [of _ _ "_ # _"]) (simp add: replace_char_def [symmetric] commas_loop_digits replace_absent)
next
  case False
  have "CHR '','' \<notin> set (nat_digits k)" for k using nat_digits_no [of "CHR '',''"] by simp
  then show ?thesis using False by (simp add: commas_def Let_def itoa_def commas_loop_digits replace_absent)
qed

end
