(* ===== verification/FileValidation.thy ===== *)
theory FileValidation
  imports ValidationReport StorageResolve
begin

text \<open>
  Comparing what a migration left behind with what it read, \<open>pkg/core/validation\<close>: folders
  by their listings and hashes, buckets by size and ETag, and a folder with a bucket by path and
  size. The two ends are what their hosts and object stores answer; the order of the verdicts, the
  filter and the reads are the code's.
\<close>

section \<open>The filter\<close>

text \<open>The two nil checks of \<open>migrationFilter\<close> are one \<open>None\<close>.\<close>

definition new_migration_filter :: "path_filter_rule list \<Rightarrow> filter_error + filter_option option" where
  "new_migration_filter rules = (if rules = [] then Inr None else to_data_mig_filter rules)"

definition excludes_file :: "regexp_engine \<Rightarrow> filter_option option \<Rightarrow> string \<Rightarrow> int \<Rightarrow> bool" where
  "excludes_file rx flt rel sz \<longleftrightarrow> flt \<noteq> None \<and> \<not> match_path rx flt rel sz False"

definition excludes_object :: "regexp_engine \<Rightarrow> filter_option option \<Rightarrow> string \<Rightarrow> int \<Rightarrow> bool" where
  "excludes_object rx flt relKey sz \<longleftrightarrow> flt \<noteq> None \<and> \<not> match_path rx flt relKey sz False"

section \<open>Two folders\<close>

record remote_file =
  rf_size :: int
  rf_mtime :: int
  rf_hash :: string

definition paths_to_hash :: "regexp_engine \<Rightarrow> filter_option option \<Rightarrow> remote_file tree \<Rightarrow> remote_file tree \<Rightarrow> string list" where
  "paths_to_hash rx flt src dst =
     filter (\<lambda>p. case tree_at src p of
                   None \<Rightarrow> False
                 | Some s \<Rightarrow>
                     \<not> excludes_file rx flt p (rf_size s)
                     \<and> (case tree_at dst p of None \<Rightarrow> False | Some d \<Rightarrow> rf_size d = rf_size s))
       (tree_keys src)"

definition file_judgement :: "string \<Rightarrow> remote_file \<Rightarrow> remote_file option \<Rightarrow> judgement" where
  "file_judgement mode s dst =
     (case dst of
        None \<Rightarrow> Fails (MissingInDestination ''file'')
      | Some d \<Rightarrow>
          (if rf_size s \<noteq> rf_size d then Fails (SizeDiffers (rf_size s) (rf_size d))
           else if mode = ModeQuick \<and> rf_mtime s \<noteq> rf_mtime d then Fails (TimeDiffers (rf_mtime s) (rf_mtime d))
           else if mode = ModeChecksum \<and> (rf_hash s = [] \<or> rf_hash d = []) then Fails ChecksumUnavailable
           else if mode = ModeChecksum \<and> rf_hash s \<noteq> rf_hash d then Fails (ChecksumMismatch (rf_hash s) (rf_hash d))
           else Agrees))"

definition excluded_in :: "('a \<Rightarrow> string \<Rightarrow> bool) \<Rightarrow> 'a tree \<Rightarrow> string \<Rightarrow> bool" where
  "excluded_in excl t k = (case tree_at t k of None \<Rightarrow> False | Some x \<Rightarrow> excl x k)"

text \<open>The loop over the destination, the same in the three comparisons.\<close>

definition dest_judgement :: "'a tree \<Rightarrow> string list \<Rightarrow> string \<Rightarrow> string \<Rightarrow> string \<Rightarrow> judgement" where
  "dest_judgement src excluded extra kept k =
     (if tree_at src k = None then Fails (ExtraInDestination extra)
      else if k \<in> set excluded then Notes (ExcludedButPresent kept) else Agrees)"

definition compare_file_trees ::
  "regexp_engine \<Rightarrow> filter_option option \<Rightarrow> string \<Rightarrow> string \<Rightarrow> string \<Rightarrow> remote_file tree \<Rightarrow> remote_file tree \<Rightarrow> detail_item list" where
  "compare_file_trees rx flt srcPath dstPath mode src dst =
     (let (f, excluded) = source_pass (\<lambda>k. srcPath @ ''/'' @ k) (excluded_in (\<lambda>s k. excludes_file rx flt k (rf_size s)) src)
            (\<lambda>k. case tree_at src k of None \<Rightarrow> Agrees | Some s \<Rightarrow> file_judgement mode s (tree_at dst k))
            (tree_keys src) (new_findings srcPath, []);
          f' = dest_pass (\<lambda>k. dstPath @ ''/'' @ k) (dest_judgement src excluded ''file'' ''file'') (tree_keys dst) f
      in summarise (length excluded) ''file'' f')"

text \<open>The hosts a validation reads: what each answers to the listing and to the hashing.\<close>

record validation_env =
  vn_rx :: regexp_engine
  vn_ssh :: "core_ssh_config \<Rightarrow> string \<Rightarrow> string + string"
  vn_ssh_in :: "core_ssh_config \<Rightarrow> string \<Rightarrow> string \<Rightarrow> string + string"
  vn_check_text :: "file_check_error \<Rightarrow> string"

definition ssh_folder :: "core_ssh_config \<Rightarrow> string \<Rightarrow> data_location" where
  "ssh_folder cfg root =
     \<lparr>dl_StorageType = StorageTypeFilesystem, dl_Path = root,
      dl_Filesystem = Some \<lparr>fa_AccessType = AccessTypeSSH, fa_SSH = Some cfg, fa_Rsync = None\<rparr>,
      dl_ObjectStorage = None, dl_Filter = None, dl_PreCmd = [], dl_PostCmd = []\<rparr>"

definition read_files :: "validation_env \<Rightarrow> core_ssh_config \<Rightarrow> string \<Rightarrow> string + remote_file tree" where
  "read_files env cfg root =
     (case list_files (ssh_folder cfg root) (\<lambda>_. Inl []) (vn_ssh env) of
        Inl e \<Rightarrow> Inl (vn_check_text env e)
      | Inr fs \<Rightarrow> Inr (map (\<lambda>f. (fi_Path f, \<lparr>rf_size = fi_Size f, rf_mtime = fi_ModTime f, rf_hash = []\<rparr>)) fs))"

definition read_hashes :: "validation_env \<Rightarrow> core_ssh_config \<Rightarrow> string \<Rightarrow> string list \<Rightarrow> string + (string \<rightharpoonup> string)" where
  "read_hashes env cfg root paths =
     (case hash_files (ssh_folder cfg root) paths (\<lambda>_ _. Inr []) (vn_ssh_in env) of
        Inl e \<Rightarrow> Inl (vn_check_text env e)
      | Inr m \<Rightarrow> Inr m)"

definition with_hash :: "(string \<rightharpoonup> string) \<Rightarrow> string \<Rightarrow> remote_file tree \<Rightarrow> remote_file tree" where
  "with_hash hs p t =
     t @ [(p, (case tree_at t p of None \<Rightarrow> \<lparr>rf_size = 0, rf_mtime = 0, rf_hash = []\<rparr> | Some f \<Rightarrow> f)
            \<lparr>rf_hash := (case hs p of None \<Rightarrow> [] | Some h \<Rightarrow> h)\<rparr>)]"

datatype validation_error =
    BuildFilter filter_error
  | ReadFailed string
  | ResolveFailed string store_error
  | ProviderFailed string string
  | ValidationCancelled string

definition named :: "string \<Rightarrow> string \<Rightarrow> string + 'a \<Rightarrow> string + 'a" where
  "named what path r = map_err (\<lambda>e. what @ path @ '': '' @ e) r"

definition validate_ssh_folder ::
  "validation_env \<Rightarrow> core_ssh_config \<Rightarrow> core_ssh_config \<Rightarrow> string \<Rightarrow> string \<Rightarrow> path_filter_rule list \<Rightarrow> string
   \<Rightarrow> validation_error + detail_item list" where
  "validate_ssh_folder env srcCfg dstCfg srcPath dstPath rules mode0 =
     bind_res (map_err BuildFilter (new_migration_filter rules)) (\<lambda>flt.
       let mode = mode_or_quick mode0
       in bind_res (map_err ReadFailed
            (both_sides (named ''list src files '' srcPath (read_files env srcCfg srcPath))
                        (named ''list dst files '' dstPath (read_files env dstCfg dstPath)))) (\<lambda>(src, dst).
          if mode = ModeChecksum then
            (let paths = paths_to_hash (vn_rx env) flt src dst
             in bind_res (map_err ReadFailed
                  (both_sides (named ''compute src checksums '' srcPath (read_hashes env srcCfg srcPath paths))
                              (named ''compute dst checksums '' dstPath (read_hashes env dstCfg dstPath paths)))) (\<lambda>(hs, hd).
                  Inr (compare_file_trees (vn_rx env) flt srcPath dstPath mode
                        (fold (with_hash hs) paths src) (fold (with_hash hd) paths dst))))
          else Inr (compare_file_trees (vn_rx env) flt srcPath dstPath mode src dst)))"

section \<open>A folder and a bucket\<close>

definition join_item :: "string \<Rightarrow> string \<Rightarrow> string" where
  "join_item root rel = trim_suffix root ''/'' @ ''/'' @ rel"

definition cross_judgement :: "string \<Rightarrow> int \<Rightarrow> int option \<Rightarrow> judgement" where
  "cross_judgement noun n dst =
     (case dst of
        None \<Rightarrow> Fails (MissingInDestination noun)
      | Some d \<Rightarrow> if d \<noteq> n then Fails (SizeDiffers n d) else Agrees)"

definition compare_cross_trees ::
  "regexp_engine \<Rightarrow> filter_option option \<Rightarrow> string \<Rightarrow> string \<Rightarrow> string \<Rightarrow> string \<Rightarrow> int tree \<Rightarrow> int tree \<Rightarrow> detail_item list" where
  "compare_cross_trees rx flt srcPath dstPath srcNoun dstNoun src dst =
     (let (f, excluded) = source_pass (join_item srcPath) (excluded_in (\<lambda>n k. excludes_file rx flt k n) src)
            (\<lambda>k. case tree_at src k of None \<Rightarrow> Agrees | Some n \<Rightarrow> cross_judgement srcNoun n (tree_at dst k))
            (tree_keys src) (new_findings srcPath, []);
          f' = dest_pass (join_item dstPath) (dest_judgement src excluded dstNoun srcNoun) (tree_keys dst) f
      in summarise (length excluded) srcNoun f')"

definition folder_sizes :: "validation_env \<Rightarrow> core_ssh_config \<Rightarrow> string \<Rightarrow> string + int tree" where
  "folder_sizes env cfg root = bind_res (read_files env cfg root) (\<lambda>t. Inr (map (\<lambda>(p, f). (p, rf_size f)) t))"

definition validate_cross_storage ::
  "regexp_engine \<Rightarrow> string + int tree \<Rightarrow> string + int tree \<Rightarrow> string \<Rightarrow> string \<Rightarrow> path_filter_rule list \<Rightarrow> string \<Rightarrow> string
   \<Rightarrow> validation_error + detail_item list" where
  "validate_cross_storage rx srcList dstList srcPath dstPath rules srcNoun dstNoun =
     bind_res (map_err BuildFilter (new_migration_filter rules)) (\<lambda>flt.
       bind_res (map_err ReadFailed
         (both_sides (named (''list src '' @ srcNoun @ ''s '') srcPath srcList) (named (''list dst '' @ dstNoun @ ''s '') dstPath dstList)))
         (\<lambda>(src, dst). Inr (compare_cross_trees rx flt srcPath dstPath srcNoun dstNoun src dst)))"

section \<open>Two buckets\<close>

record remote_object =
  ro_etag :: string
  ro_size :: int

definition build_object_map :: "object_info list \<Rightarrow> string \<Rightarrow> remote_object tree" where
  "build_object_map objects prefx =
     List.map_filter
       (\<lambda>o'. let relKey = trim_prefix (trim_prefix (oi_Key o') prefx) ''/''
             in if relKey = [] then None else Some (relKey, \<lparr>ro_etag = oi_ETag o', ro_size = oi_Size o'\<rparr>))
       objects"

definition normalize_etag :: "string \<Rightarrow> string" where
  "normalize_etag etag = trim_char dquote etag"

definition object_judgement :: "remote_object \<Rightarrow> remote_object option \<Rightarrow> judgement" where
  "object_judgement s dst =
     (case dst of
        None \<Rightarrow> Fails (MissingInDestination ''object'')
      | Some d \<Rightarrow>
          (if ro_size s \<noteq> ro_size d then Fails (SizeDiffers (ro_size s) (ro_size d))
           else if \<not> comparable_etag (normalize_etag (ro_etag s)) \<or> \<not> comparable_etag (normalize_etag (ro_etag d))
             then Notes NotContentVerified
           else if normalize_etag (ro_etag s) \<noteq> normalize_etag (ro_etag d) then Fails (EtagMismatch (ro_etag s) (ro_etag d))
           else Agrees))"

definition compare_object_maps ::
  "regexp_engine \<Rightarrow> filter_option option \<Rightarrow> string \<Rightarrow> string \<Rightarrow> remote_object tree \<Rightarrow> remote_object tree \<Rightarrow> detail_item list" where
  "compare_object_maps rx flt srcPath dstPath src dst =
     (let (f, excluded) = source_pass (\<lambda>k. srcPath @ ''/'' @ k) (excluded_in (\<lambda>s k. excludes_object rx flt k (ro_size s)) src)
            (\<lambda>k. case tree_at src k of None \<Rightarrow> Agrees | Some s \<Rightarrow> object_judgement s (tree_at dst k))
            (tree_keys src) (new_findings srcPath, []);
          f' = dest_pass (\<lambda>k. dstPath @ ''/'' @ k) (dest_judgement src excluded ''object'' ''object'') (tree_keys dst) f
      in summarise (length excluded) ''object'' f')"

text \<open>
  \<open>validateObjectBucket\<close>: the providers of the two locations are what \<open>NewS3Provider\<close> makes of
  them, and a provider is its listing. \<open>CloseS3Provider\<close> is I/O.
\<close>

type_synonym object_listing = "data_location \<Rightarrow> string + (string \<Rightarrow> string + object_info list)"

definition validate_object_bucket ::
  "regexp_engine \<Rightarrow> store_services \<Rightarrow> object_listing \<Rightarrow> connection_ref \<Rightarrow> connection_ref \<Rightarrow> string \<Rightarrow> string \<Rightarrow> path_filter_rule list
   \<Rightarrow> validation_error + detail_item list" where
  "validate_object_bucket rx ss prov srcRef dstRef srcPath dstPath rules =
     bind_res (map_err BuildFilter (new_migration_filter rules)) (\<lambda>flt.
     bind_res (map_err (ResolveFailed ''src'') (resolve_object_storage_loc ss srcRef srcPath None)) (\<lambda>srcLoc.
     bind_res (map_err (ResolveFailed ''dst'') (resolve_object_storage_loc ss dstRef dstPath None)) (\<lambda>dstLoc.
     bind_res (map_err (ProviderFailed ''src'') (prov srcLoc)) (\<lambda>srcList.
     bind_res (map_err (ProviderFailed ''dst'') (prov dstLoc)) (\<lambda>dstList.
       let srcPrefix = snd (parse_bucket_and_key srcPath); dstPrefix = snd (parse_bucket_and_key dstPath)
       in bind_res (map_err ReadFailed
            (both_sides (map_err (\<lambda>e. ''list src objects: '' @ e) (srcList srcPrefix))
                        (map_err (\<lambda>e. ''list dst objects: '' @ e) (dstList dstPrefix)))) (\<lambda>(srcObjects, dstObjects).
            Inr (compare_object_maps rx flt srcPath dstPath
                   (build_object_map srcObjects srcPrefix) (build_object_map dstObjects dstPrefix))))))))"

definition bucket_sizes :: "store_services \<Rightarrow> object_listing \<Rightarrow> (store_error \<Rightarrow> string) \<Rightarrow> connection_ref \<Rightarrow> string \<Rightarrow> string + int tree" where
  "bucket_sizes ss prov text ref bucketPath =
     bind_res (map_err (\<lambda>e. ''resolve location: '' @ text e) (resolve_object_storage_loc ss ref bucketPath None)) (\<lambda>loc.
     bind_res (map_err (\<lambda>e. ''create S3 provider: '' @ e) (prov loc)) (\<lambda>list.
       let prefx = snd (parse_bucket_and_key bucketPath)
       in bind_res (list prefx) (\<lambda>objects.
            Inr (map (\<lambda>(k, o'). (k, ro_size o'))
                  (filter (\<lambda>(k, o'). \<not> has_suffix k ''/'') (build_object_map objects prefx))))))"

section \<open>The entries\<close>

definition entry_details :: "string \<Rightarrow> (validation_error \<Rightarrow> string) \<Rightarrow> validation_error + detail_item list \<Rightarrow> detail_item list" where
  "entry_details path text r =
     (case r of Inl e \<Rightarrow> [detail path DetailFailed (ValidationFailed (text e))] | Inr ds \<Rightarrow> ds)"

definition validate_file_system ::
  "validation_env \<Rightarrow> store_services \<Rightarrow> object_listing \<Rightarrow> (store_error \<Rightarrow> string) \<Rightarrow> (validation_error \<Rightarrow> string) \<Rightarrow> string
   \<Rightarrow> migration_file_system_model \<Rightarrow> validation_error + detail_item list" where
  "validate_file_system env ss prov stext text mode m =
     (let cross = (mfs_DstType m = StorageTypeObjectStorage)
      in bind_res (map_err (ResolveFailed ''src connection'') (resolve_ssh_config ss (mfs_SrcConnection m))) (\<lambda>srcSSH.
         bind_res (if cross then Inr srcSSH
                   else map_err (ResolveFailed ''dst connection'') (resolve_ssh_config ss (mfs_DstConnection m))) (\<lambda>dstSSH.
           Inr (concat (map (\<lambda>folder.
             entry_details (fmi_SrcPath folder) text
               (if cross then
                  validate_cross_storage (vn_rx env) (folder_sizes env srcSSH (fmi_SrcPath folder))
                    (bucket_sizes ss prov stext (mfs_DstConnection m) (fmi_DstPath folder))
                    (fmi_SrcPath folder) (fmi_DstPath folder) (fmi_Rules folder) ''file'' ''object''
                else validate_ssh_folder env srcSSH dstSSH (fmi_SrcPath folder) (fmi_DstPath folder) (fmi_Rules folder) mode))
             (mfs_Folders m))))))"

text \<open>\<open>cancelled i\<close> is what \<open>ctx.Err\<close> answers before the \<open>i\<close>-th bucket.\<close>

fun validate_buckets :: "(nat \<Rightarrow> string option) \<Rightarrow> (object_migration_info \<Rightarrow> detail_item list) \<Rightarrow> nat \<Rightarrow> object_migration_info list
   \<Rightarrow> validation_error + detail_item list" where
  "validate_buckets cancelled one i [] = Inr []"
| "validate_buckets cancelled one i (b # bs) =
     (case cancelled i of
        Some e \<Rightarrow> Inl (ValidationCancelled e)
      | None \<Rightarrow> bind_res (validate_buckets cancelled one (Suc i) bs) (\<lambda>ds. Inr (one b @ ds)))"

definition validate_object_storage ::
  "validation_env \<Rightarrow> store_services \<Rightarrow> object_listing \<Rightarrow> (store_error \<Rightarrow> string) \<Rightarrow> (validation_error \<Rightarrow> string)
   \<Rightarrow> (nat \<Rightarrow> string option) \<Rightarrow> migration_object_storage_model \<Rightarrow> validation_error + detail_item list" where
  "validate_object_storage env ss prov stext text cancelled m =
     (if mos_DstType m = StorageTypeFilesystem then
        bind_res (map_err (ResolveFailed ''dst connection'') (resolve_ssh_config ss (mos_DstConnection m))) (\<lambda>dstSSH.
          validate_buckets cancelled (\<lambda>b. entry_details (omi_SrcPath b) text
            (validate_cross_storage (vn_rx env) (bucket_sizes ss prov stext (mos_SrcConnection m) (omi_SrcPath b))
              (folder_sizes env dstSSH (omi_DstPath b)) (omi_SrcPath b) (omi_DstPath b) (omi_Rules b) ''object'' ''file'')) 0 (mos_Buckets m))
      else
        validate_buckets cancelled (\<lambda>b. entry_details (omi_SrcPath b) text
          (validate_object_bucket (vn_rx env) ss prov (mos_SrcConnection m) (mos_DstConnection m)
            (omi_SrcPath b) (omi_DstPath b) (omi_Rules b))) 0 (mos_Buckets m))"

section \<open>What a comparison decides\<close>

text \<open>Any of the comparisons: the filter's dropped keys, the verdicts and the report in one.\<close>

lemma comparison_report:
  assumes "source_pass place excl judge ks (new_findings root, []) = (f, ex)"
  shows "within_budget (dest_pass place' judge' ks' f)
           (placed place (failures judge (filter (\<lambda>k. \<not> excl k) ks)) @ placed place' (failures judge' ks'))"
    and "ex = filter excl ks"
  using source_pass_within [OF within_new, of place excl judge ks root "[]"] assms dest_pass_within by force+

lemma excluded_in_simps: "excluded_in excl t k \<longleftrightarrow> (\<exists>x. tree_at t k = Some x \<and> excl x k)"
  by (auto simp: excluded_in_def split: option.splits)

lemma dest_clean_iff:
  "(\<forall>k\<in>set (tree_keys dst). \<forall>m. dest_judgement src ex extra kept k \<noteq> Fails m) \<longleftrightarrow>
   (\<forall>k. tree_at dst k \<noteq> None \<longrightarrow> tree_at src k \<noteq> None)"
  by (auto simp: dest_judgement_def tree_at_iff [symmetric])

lemma source_clean_iff:
  "(\<forall>k\<in>set (filter (\<lambda>k. \<not> excluded_in excl src k) (tree_keys src)). \<forall>m. (case tree_at src k of None \<Rightarrow> Agrees | Some s \<Rightarrow> J k s) \<noteq> Fails m)
   \<longleftrightarrow> (\<forall>k s. tree_at src k = Some s \<longrightarrow> \<not> excl s k \<longrightarrow> (\<forall>m. J k s \<noteq> Fails m))"
  by (auto simp: excluded_in_simps tree_at_iff [symmetric])

definition same_file :: "string \<Rightarrow> remote_file \<Rightarrow> remote_file option \<Rightarrow> bool" where
  "same_file mode s dst \<longleftrightarrow>
     (\<exists>d. dst = Some d \<and> rf_size s = rf_size d \<and> (mode = ModeQuick \<longrightarrow> rf_mtime s = rf_mtime d)
        \<and> (mode = ModeChecksum \<longrightarrow> rf_hash s \<noteq> [] \<and> rf_hash s = rf_hash d))"

lemma file_judgement_ok: "(\<forall>m. file_judgement mode s dst \<noteq> Fails m) \<longleftrightarrow> same_file mode s dst"
  by (auto simp: file_judgement_def same_file_def split: option.split)

lemma folder_report_clean_iff:
  "failed_items (compare_file_trees rx flt srcPath dstPath mode src dst) = [] \<longleftrightarrow>
     (\<forall>k s. tree_at src k = Some s \<longrightarrow> excludes_file rx flt k (rf_size s) \<or> same_file mode s (tree_at dst k))
     \<and> (\<forall>k. tree_at dst k \<noteq> None \<longrightarrow> tree_at src k \<noteq> None)"
proof -
  let ?excl = "\<lambda>s k. excludes_file rx flt k (rf_size s)"
  let ?judge = "\<lambda>k. case tree_at src k of None \<Rightarrow> Agrees | Some s \<Rightarrow> file_judgement mode s (tree_at dst k)"
  obtain f ex where run: "source_pass (\<lambda>k. srcPath @ ''/'' @ k) (excluded_in ?excl src) ?judge
      (tree_keys src) (new_findings srcPath, []) = (f, ex)" by (meson surj_pair)
  show ?thesis
    unfolding compare_file_trees_def run Let_def prod.case
      summarise_clean_iff [OF comparison_report(1) [OF run]] append_is_Nil_conv placed_def map_is_Nil_conv
      failures_Nil_iff source_clean_iff dest_clean_iff file_judgement_ok
    by blast
qed

text \<open>
  C29: A validated folder is clean exactly when the migration carried it: the report has no failure
  if and only if every file the filter let through is at the destination with the same size and,
  as the mode asks, the same time or the same hash, and the destination holds nothing the source
  does not; whatever the number of differences, a failure is never lost to the budget of the report.
\<close>

theorem clean_report_iff_folders_agree:
  "failed_items (compare_file_trees rx flt srcPath dstPath mode src dst) = [] \<longleftrightarrow>
     (\<forall>k s. tree_at src k = Some s \<longrightarrow> excludes_file rx flt k (rf_size s) \<or> same_file mode s (tree_at dst k))
     \<and> (\<forall>k. tree_at dst k \<noteq> None \<longrightarrow> tree_at src k \<noteq> None)"
  by (rule folder_report_clean_iff)

theorem clean_report_iff_folders_agree_witness:
  "failed_items (compare_file_trees (\<lambda>_ _. True) None ''/a'' ''/b'' ModeQuick
     [(''x'', \<lparr>rf_size = 1, rf_mtime = 5, rf_hash = []\<rparr>)] [(''x'', \<lparr>rf_size = 1, rf_mtime = 6, rf_hash = []\<rparr>)]) \<noteq> []"
  unfolding clean_report_iff_folders_agree
  by (simp add: tree_at_def excludes_file_def same_file_def)

text \<open>
  A folder and a bucket agree exactly when the report says so: by path and size, in both
  directions, the filter's exclusions apart.
\<close>

lemma cross_judgement_ok: "(\<forall>m. cross_judgement noun n dst \<noteq> Fails m) \<longleftrightarrow> dst = Some n"
  by (auto simp: cross_judgement_def split: option.split)

lemma clean_report_iff_cross_agree:
  "failed_items (compare_cross_trees rx flt srcPath dstPath srcNoun dstNoun src dst) = [] \<longleftrightarrow>
     (\<forall>k n. tree_at src k = Some n \<longrightarrow> excludes_file rx flt k n \<or> tree_at dst k = Some n)
     \<and> (\<forall>k. tree_at dst k \<noteq> None \<longrightarrow> tree_at src k \<noteq> None)"
proof -
  let ?excl = "\<lambda>n k. excludes_file rx flt k n"
  let ?judge = "\<lambda>k. case tree_at src k of None \<Rightarrow> Agrees | Some n \<Rightarrow> cross_judgement srcNoun n (tree_at dst k)"
  obtain f ex where run: "source_pass (join_item srcPath) (excluded_in ?excl src) ?judge
      (tree_keys src) (new_findings srcPath, []) = (f, ex)" by (meson surj_pair)
  show ?thesis
    unfolding compare_cross_trees_def run Let_def prod.case
      summarise_clean_iff [OF comparison_report(1) [OF run]] append_is_Nil_conv placed_def map_is_Nil_conv
      failures_Nil_iff source_clean_iff dest_clean_iff cross_judgement_ok
    by blast
qed

section \<open>What cannot be verified is said\<close>

definition noticed :: "notice \<Rightarrow> findings \<Rightarrow> string list" where
  "noticed n f = (case map_of (fd_notices f) n of None \<Rightarrow> [] | Some ps \<Rightarrow> ps)"

lemma note_path_at: "map_of (note_path m p ns) n = (if n = m then Some ((case map_of ns m of None \<Rightarrow> [] | Some ps \<Rightarrow> ps) @ [p]) else map_of ns n)"
  by (induction ns) auto

lemma judge_key_noticed: "noticed n (judge_key place k j f) = noticed n f @ (if j = Notes n then [k] else [])"
  by (cases j) (auto simp: noticed_def add_notice_def add_fail_def note_path_at Let_def split: option.split)

lemma noticed_add_notice [simp]: "noticed n (add_notice n k f) = noticed n f @ [k]"
  using judge_key_noticed [of n id k "Notes n" f] by simp

lemma source_pass_noticed:
  "noticed n (fst (source_pass place excl judge ks (f, ex))) = noticed n f @ filter (\<lambda>k. \<not> excl k \<and> judge k = Notes n) ks"
  by (induction ks arbitrary: f ex) (simp_all add: judge_key_noticed)

lemma dest_pass_noticed: "noticed n (dest_pass place judge ks f) = noticed n f @ filter (\<lambda>k. judge k = Notes n) ks"
  by (induction ks arbitrary: f) (simp_all add: judge_key_noticed)

lemma judge_key_root [simp]: "fd_root (judge_key place k j f) = fd_root f"
  by (cases j) simp_all

lemma source_pass_root: "fd_root (fst (source_pass place excl judge ks (f, ex))) = fd_root f"
  by (induction ks arbitrary: f ex) simp_all

lemma dest_pass_root: "fd_root (dest_pass place judge ks f) = fd_root f"
  by (induction ks arbitrary: f) simp_all

lemma summarise_notices:
  "noticed n f \<noteq> [] \<Longrightarrow>
   detail (fd_root f) DetailWarning (NoticedItems (length (noticed n f)) n (sample_of (noticed n f))) \<in> set (summarise sk noun f)"
  by (auto simp: noticed_def summarise_def dest: map_of_SomeD split: option.splits)

lemma new_noticed [simp]: "noticed n (new_findings root) = []"
  by (simp add: noticed_def new_findings_def)

definition verifiable :: "remote_object \<Rightarrow> bool" where
  "verifiable o' \<longleftrightarrow> comparable_etag (normalize_etag (ro_etag o'))"

definition same_object :: "remote_object \<Rightarrow> remote_object option \<Rightarrow> bool" where
  "same_object s dst \<longleftrightarrow>
     (\<exists>d. dst = Some d \<and> ro_size s = ro_size d
        \<and> (verifiable s \<and> verifiable d \<longrightarrow> normalize_etag (ro_etag s) = normalize_etag (ro_etag d)))"

lemma object_judgement_ok: "(\<forall>m. object_judgement s dst \<noteq> Fails m) \<longleftrightarrow> same_object s dst"
  by (auto simp: object_judgement_def same_object_def verifiable_def split: option.split)

text \<open>The objects that match by size and whose ETags say nothing of their content.\<close>

definition unverified :: "regexp_engine \<Rightarrow> filter_option option \<Rightarrow> remote_object tree \<Rightarrow> remote_object tree \<Rightarrow> string list" where
  "unverified rx flt src dst =
     filter (\<lambda>k. case tree_at src k of
                   None \<Rightarrow> False
                 | Some s \<Rightarrow> \<not> excludes_object rx flt k (ro_size s)
                     \<and> (case tree_at dst k of None \<Rightarrow> False
                        | Some d \<Rightarrow> ro_size s = ro_size d \<and> \<not> (verifiable s \<and> verifiable d))) (tree_keys src)"

text \<open>
  A validated bucket is clean exactly when every object the filter let through is at the
  destination with its size, and with its ETag wherever both ETags stand for the content, and the
  destination holds no other object; and what only the size vouches for is never passed silently:
  one warning counts those objects.
\<close>

lemma clean_report_iff_buckets_agree:
  "(failed_items (compare_object_maps rx flt srcPath dstPath src dst) = [] \<longleftrightarrow>
      (\<forall>k s. tree_at src k = Some s \<longrightarrow> excludes_object rx flt k (ro_size s) \<or> same_object s (tree_at dst k))
      \<and> (\<forall>k. tree_at dst k \<noteq> None \<longrightarrow> tree_at src k \<noteq> None))
   \<and> (unverified rx flt src dst \<noteq> [] \<longrightarrow>
        detail srcPath DetailWarning (NoticedItems (length (unverified rx flt src dst)) NotContentVerified (sample_of (unverified rx flt src dst)))
          \<in> set (compare_object_maps rx flt srcPath dstPath src dst))"
proof
  let ?excl = "\<lambda>s k. excludes_object rx flt k (ro_size s)"
  let ?judge = "\<lambda>k. case tree_at src k of None \<Rightarrow> Agrees | Some s \<Rightarrow> object_judgement s (tree_at dst k)"
  obtain f ex where run: "source_pass (\<lambda>k. srcPath @ ''/'' @ k) (excluded_in ?excl src) ?judge
      (tree_keys src) (new_findings srcPath, []) = (f, ex)" by (meson surj_pair)
  show "failed_items (compare_object_maps rx flt srcPath dstPath src dst) = [] \<longleftrightarrow>
      (\<forall>k s. tree_at src k = Some s \<longrightarrow> excludes_object rx flt k (ro_size s) \<or> same_object s (tree_at dst k))
      \<and> (\<forall>k. tree_at dst k \<noteq> None \<longrightarrow> tree_at src k \<noteq> None)"
    unfolding compare_object_maps_def run Let_def prod.case
      summarise_clean_iff [OF comparison_report(1) [OF run]] append_is_Nil_conv placed_def map_is_Nil_conv
      failures_Nil_iff source_clean_iff dest_clean_iff object_judgement_ok
    by blast
  let ?g = "dest_pass (\<lambda>k. dstPath @ ''/'' @ k) (dest_judgement src ex ''object'' ''object'') (tree_keys dst) f"
  have "f = fst (source_pass (\<lambda>k. srcPath @ ''/'' @ k) (excluded_in ?excl src) ?judge (tree_keys src) (new_findings srcPath, []))"
    by (simp only: run fst_conv)
  then have n: "noticed NotContentVerified f = filter (\<lambda>k. \<not> excluded_in ?excl src k \<and> ?judge k = Notes NotContentVerified) (tree_keys src)"
    and root: "fd_root f = srcPath" by (simp_all add: source_pass_noticed source_pass_root)
  have "noticed NotContentVerified ?g = noticed NotContentVerified f"
    by (simp add: dest_pass_noticed) (auto simp: dest_judgement_def filter_empty_conv)
  also have "\<dots> = unverified rx flt src dst" unfolding n unverified_def
    by (intro filter_cong refl) (auto simp: excluded_in_simps object_judgement_def verifiable_def split: option.splits)
  finally have u: "noticed NotContentVerified ?g = unverified rx flt src dst" .
  show "unverified rx flt src dst \<noteq> [] \<longrightarrow>
      detail srcPath DetailWarning (NoticedItems (length (unverified rx flt src dst)) NotContentVerified (sample_of (unverified rx flt src dst)))
        \<in> set (compare_object_maps rx flt srcPath dstPath src dst)"
    using summarise_notices [of NotContentVerified ?g "length ex" "''object''"]
    unfolding compare_object_maps_def run Let_def prod.case u dest_pass_root root by blast
qed

lemma clean_report_iff_buckets_agree_witness:
  "detail ''b'' DetailWarning (NoticedItems 1 NotContentVerified ''x'')
     \<in> set (compare_object_maps (\<lambda>_ _. True) None ''b'' ''c'' [(''x'', \<lparr>ro_etag = ''a-2'', ro_size = 7\<rparr>)] [(''x'', \<lparr>ro_etag = ''b-3'', ro_size = 7\<rparr>)])"
proof -
  let ?s = "[(''x'', \<lparr>ro_etag = ''a-2'', ro_size = 7\<rparr>)]" and ?d = "[(''x'', \<lparr>ro_etag = ''b-3'', ro_size = 7\<rparr>)]"
  have "unverified (\<lambda>_ _. True) None ?s ?d = [''x'']"
    by (simp add: unverified_def tree_keys_def tree_at_def excludes_object_def verifiable_def normalize_etag_def trim_char_id comparable_etag_def)
  then show ?thesis using conjunct2 [OF clean_report_iff_buckets_agree [of "\<lambda>_ _. True" None "''b''" "''c''" ?s ?d]]
    by (simp add: sample_of_def maxNoticeSamples_def)
qed

section \<open>From the hosts to the verdict\<close>

text \<open>
  A host holding a tree: the listing prints its files, and hashing any of them prints their
  hashes, in some order of its own.
\<close>

definition host_holds :: "validation_env \<Rightarrow> core_ssh_config \<Rightarrow> string \<Rightarrow> (file_info \<times> string) list \<Rightarrow> (string \<Rightarrow> string) \<Rightarrow> bool" where
  "host_holds env cfg root es hash \<longleftrightarrow>
     vn_ssh env cfg (find_command root) = Inr (concat (map (\<lambda>e. find_record e @ [CHR 0x00]) es))
     \<and> list_all listed_file es \<and> distinct (map (fi_Path \<circ> fst) es) \<and> (\<forall>e\<in>set es. hash_text (hash (fi_Path (fst e))))
     \<and> (\<forall>ps. ps \<noteq> [] \<longrightarrow> distinct ps \<longrightarrow> set ps \<subseteq> (fi_Path \<circ> fst) ` set es \<longrightarrow>
          (\<exists>qs. mset qs = mset ps
             \<and> vn_ssh_in env cfg (hash_command root) (hash_input ps) = Inr (concat (map (\<lambda>p. sha_line (hash p, p) @ [newline]) qs))))"

lemma ssh_folder_check: "file_check_ssh (ssh_folder cfg root) = Inr (Some cfg)" "dl_Path (ssh_folder cfg root) = root"
  by (simp_all add: file_check_ssh_def ssh_folder_def)

lemma tree_at_mem: "distinct (map fst t) \<Longrightarrow> tree_at t p = Some x \<longleftrightarrow> (p, x) \<in> set t"
  unfolding tree_at_def by (subst map_of_eq_Some_iff) (simp_all add: rev_map [symmetric])

definition held_file :: "file_info \<Rightarrow> remote_file" where
  "held_file f = \<lparr>rf_size = fi_Size f, rf_mtime = fi_ModTime f, rf_hash = []\<rparr>"

lemma read_files_held:
  assumes "host_holds env cfg root es hash"
  shows "\<exists>t. read_files env cfg root = Inr t \<and> distinct (map fst t)
     \<and> (\<forall>p f. tree_at t p = Some f \<longleftrightarrow> (\<exists>e\<in>set es. fi_Path (fst e) = p \<and> f = held_file (fst e)))"
proof -
  let ?fs = "sort_key fi_Path (map fst es)"
  let ?t = "map (\<lambda>f. (fi_Path f, held_file f)) ?fs"
  have "list_files (ssh_folder cfg root) (\<lambda>_. Inl []) (vn_ssh env) = Inr ?fs"
    by (rule remote_listing_reads_back [OF ssh_folder_check(1)]) (use assms in \<open>simp_all add: host_holds_def ssh_folder_check\<close>)
  then have read: "read_files env cfg root = Inr ?t" by (simp add: read_files_def held_file_def)
  have "mset (map fi_Path ?fs) = mset (map (fi_Path \<circ> fst) es)" by (simp add: multiset.map_comp)
  then have "distinct (map fi_Path ?fs)" using assms mset_eq_imp_distinct_iff unfolding host_holds_def by blast
  then have d: "distinct (map fst ?t)" by (simp add: comp_def)
  then have "tree_at ?t p = Some f \<longleftrightarrow> (p, f) \<in> set ?t" for p f by (rule tree_at_mem)
  then have "tree_at ?t p = Some f \<longleftrightarrow> (\<exists>e\<in>set es. fi_Path (fst e) = p \<and> f = held_file (fst e))" for p f
    by auto
  with read d show ?thesis by blast
qed

lemma read_hashes_held:
  assumes "host_holds env cfg root es hash" and "distinct ps" and "set ps \<subseteq> (fi_Path \<circ> fst) ` set es"
  shows "\<exists>m. read_hashes env cfg root ps = Inr m \<and> (\<forall>p\<in>set ps. m p = Some (hash p))"
proof (cases "ps = []")
  case False
  obtain qs where qs: "mset qs = mset ps"
    "vn_ssh_in env cfg (hash_command root) (hash_input ps) = Inr (concat (map (\<lambda>e. sha_line e @ [newline]) (map (\<lambda>p. (hash p, p)) qs)))"
    using assms False by (auto simp: host_holds_def comp_def)
  have good: "hash_text (hash p) \<and> p \<noteq> [] \<and> CHR 0x00 \<notin> set p" if "p \<in> set qs" for p
  proof -
    have "p \<in> (fi_Path \<circ> fst) ` set es" using assms(3) that mset_eq_setD [OF qs(1)] by blast
    then obtain e where "e \<in> set es" "p = fi_Path (fst e)" by auto
    moreover have "listed_file e" "hash_text (hash (fi_Path (fst e)))"
      using assms(1) \<open>e \<in> set es\<close> by (auto simp: host_holds_def list_all_iff)
    ultimately show ?thesis by (simp add: listed_file_def)
  qed
  have "\<exists>m. hash_files (ssh_folder cfg root) ps (\<lambda>_ _. Inr []) (vn_ssh_in env) = Inr m \<and> dom m = set ps
      \<and> (\<forall>(h, p)\<in>set (map (\<lambda>p. (hash p, p)) qs). m p = Some h)"
    by (rule conjunct2 [OF hashes_read_back [OF ssh_folder_check(1) False _ assms(2)]])
      (use qs good in \<open>auto simp: ssh_folder_check comp_def\<close>)
  then show ?thesis using qs(1) by (auto simp: read_hashes_def dest!: mset_eq_setD)
qed (simp add: read_hashes_def hash_files_def ssh_folder_check)

lemma with_hashes_at:
  "distinct ps \<Longrightarrow> set ps \<subseteq> {p. tree_at t p \<noteq> None} \<Longrightarrow>
   tree_at (fold (with_hash hs) ps t) p =
     (case tree_at t p of None \<Rightarrow> None
      | Some f \<Rightarrow> Some (if p \<in> set ps then f\<lparr>rf_hash := (case hs p of None \<Rightarrow> [] | Some h \<Rightarrow> h)\<rparr> else f))"
proof (induction ps arbitrary: t)
  case (Cons q ps)
  have at: "tree_at (with_hash hs q t) r = (if r = q then map_option (\<lambda>f. f\<lparr>rf_hash := (case hs q of None \<Rightarrow> [] | Some h \<Rightarrow> h)\<rparr>) (tree_at t q) else tree_at t r)" for r
    using Cons.prems(2) by (auto simp: with_hash_def tree_at_snoc split: option.split)
  have "set ps \<subseteq> {p. tree_at (with_hash hs q t) p \<noteq> None}" using Cons.prems by (auto simp: at)
  then show ?case using Cons.IH [of "with_hash hs q t"] Cons.prems by (auto simp: at split: option.split)
qed (auto split: option.split)

lemma hashed_file_judged:
  assumes "\<And>p f. tree_at u p = Some f \<longleftrightarrow> (\<exists>e\<in>set fs. fi_Path (fst e) = p \<and> f = held_file (fst e))"
    and "rf_size s = n" and "k \<in> P \<longrightarrow> rf_hash s = srcHash k"
    and "k \<in> P \<longleftrightarrow> (\<exists>d. tree_at u k = Some d \<and> rf_size d = n)" and "srcHash k \<noteq> []"
    and "tree_at U k = map_option (\<lambda>f. if k \<in> P then f\<lparr>rf_hash := dstHash k\<rparr> else f) (tree_at u k)"
  shows "same_file ModeChecksum s (tree_at U k) \<longleftrightarrow>
    (\<exists>d\<in>set fs. fi_Path (fst d) = k \<and> fi_Size (fst d) = n \<and> srcHash k = dstHash k)"
proof (cases "k \<in> P")
  case True
  then obtain d where d: "tree_at u k = Some d" "rf_size d = n" using assms(4) by blast
  then obtain e where "e \<in> set fs" "fi_Path (fst e) = k" "d = held_file (fst e)" using assms(1) by blast
  then show ?thesis using True d assms(2,3,5,6) by (auto simp: same_file_def held_file_def)
next
  case False
  then have "\<not> (\<exists>d\<in>set fs. fi_Path (fst d) = k \<and> fi_Size (fst d) = n)"
    using assms(1,4) by (metis held_file_def remote_file.select_convs(1))
  then show ?thesis using False assms(2,4,6) by (auto simp: same_file_def)
qed

lemma all_held:
  assumes "\<And>k. T k \<noteq> None \<longleftrightarrow> (\<exists>e\<in>E. path e = k)"
  shows "(\<forall>k s. T k = Some s \<longrightarrow> Q k s) \<longleftrightarrow> (\<forall>e\<in>E. Q (path e) (the (T (path e))))"
proof -
  have "T (path e) = Some (the (T (path e)))" if "e \<in> E" for e using assms [of "path e"] that by auto
  moreover have "\<exists>e\<in>E. path e = k" if "T k = Some s" for k s using assms [of k] that by auto
  ultimately show ?thesis by (metis option.sel)
qed

text \<open>What the two reads of a host, its listing and its hashes, come to.\<close>

lemma checked_trees:
  assumes src: "host_holds env srcCfg srcPath es srcHash" and dst: "host_holds env dstCfg dstPath fs dstHash"
    and flt: "new_migration_filter rules = Inr flt"
  obtains T U where
    "validate_ssh_folder env srcCfg dstCfg srcPath dstPath rules ModeChecksum
       = Inr (compare_file_trees (vn_rx env) flt srcPath dstPath ModeChecksum T U)"
    "\<And>k. tree_at T k \<noteq> None \<longleftrightarrow> (\<exists>e\<in>set es. fi_Path (fst e) = k)"
    "\<And>k. tree_at U k \<noteq> None \<longleftrightarrow> (\<exists>d\<in>set fs. fi_Path (fst d) = k)"
    "\<And>e s. e \<in> set es \<Longrightarrow> tree_at T (fi_Path (fst e)) = Some s \<Longrightarrow>
        (excludes_file (vn_rx env) flt (fi_Path (fst e)) (rf_size s) \<or> same_file ModeChecksum s (tree_at U (fi_Path (fst e))) \<longleftrightarrow>
           excludes_file (vn_rx env) flt (fi_Path (fst e)) (fi_Size (fst e))
           \<or> (\<exists>d\<in>set fs. fi_Path (fst d) = fi_Path (fst e) \<and> fi_Size (fst d) = fi_Size (fst e)
                 \<and> srcHash (fi_Path (fst e)) = dstHash (fi_Path (fst e))))"
proof -
  obtain t where t: "read_files env srcCfg srcPath = Inr t" "distinct (map fst t)"
    "\<And>p f. tree_at t p = Some f \<longleftrightarrow> (\<exists>e\<in>set es. fi_Path (fst e) = p \<and> f = held_file (fst e))"
    using read_files_held [OF src] by blast
  obtain u where u: "read_files env dstCfg dstPath = Inr u" "distinct (map fst u)"
    "\<And>p f. tree_at u p = Some f \<longleftrightarrow> (\<exists>e\<in>set fs. fi_Path (fst e) = p \<and> f = held_file (fst e))"
    using read_files_held [OF dst] by blast
  define ps where "ps = paths_to_hash (vn_rx env) flt t u"
  have mem: "p \<in> set ps \<longleftrightarrow> (\<exists>f d. tree_at t p = Some f \<and> \<not> excludes_file (vn_rx env) flt p (rf_size f)
      \<and> tree_at u p = Some d \<and> rf_size d = rf_size f)" for p
    by (auto simp: ps_def paths_to_hash_def tree_at_iff [symmetric] split: option.splits)
  have ps: "distinct ps" "set ps \<subseteq> {p. tree_at t p \<noteq> None}" "set ps \<subseteq> {p. tree_at u p \<noteq> None}"
    by (simp add: ps_def paths_to_hash_def tree_keys_def) (auto simp: mem)
  have held: "set ps \<subseteq> (fi_Path \<circ> fst) ` set es" "set ps \<subseteq> (fi_Path \<circ> fst) ` set fs"
    using ps(2,3) by (auto simp: t(3) u(3))
  obtain hs where hs: "read_hashes env srcCfg srcPath ps = Inr hs" "\<forall>p\<in>set ps. hs p = Some (srcHash p)"
    using read_hashes_held [OF src ps(1) held(1)] by blast
  obtain hd where hd: "read_hashes env dstCfg dstPath ps = Inr hd" "\<forall>p\<in>set ps. hd p = Some (dstHash p)"
    using read_hashes_held [OF dst ps(1) held(2)] by blast
  let ?T = "fold (with_hash hs) ps t" and ?U = "fold (with_hash hd) ps u"
  have run: "validate_ssh_folder env srcCfg dstCfg srcPath dstPath rules ModeChecksum
      = Inr (compare_file_trees (vn_rx env) flt srcPath dstPath ModeChecksum ?T ?U)"
    by (simp add: validate_ssh_folder_def flt mode_or_quick_def t(1) u(1) hs(1) hd(1) named_def ps_def [symmetric])
  have at: "tree_at ?T p = map_option (\<lambda>f. if p \<in> set ps then f\<lparr>rf_hash := srcHash p\<rparr> else f) (tree_at t p)
    \<and> tree_at ?U p = map_option (\<lambda>f. if p \<in> set ps then f\<lparr>rf_hash := dstHash p\<rparr> else f) (tree_at u p)" for p
    unfolding with_hashes_at [OF ps(1,2)] with_hashes_at [OF ps(1,3)]
    using hs(2) hd(2) by (auto split: option.split)
  have sized: "rf_size s = fi_Size (fst e) \<and> (fi_Path (fst e) \<in> set ps \<longrightarrow> rf_hash s = srcHash (fi_Path (fst e)))"
    if "e \<in> set es" "tree_at ?T (fi_Path (fst e)) = Some s" for e s
  proof -
    have "tree_at t (fi_Path (fst e)) = Some (held_file (fst e))" using that(1) by (auto simp: t(3))
    then show ?thesis using that(2) by (auto simp: at held_file_def split: if_splits)
  qed
  have judged: "excludes_file (vn_rx env) flt (fi_Path (fst e)) (rf_size s) \<or> same_file ModeChecksum s (tree_at ?U (fi_Path (fst e))) \<longleftrightarrow>
      excludes_file (vn_rx env) flt (fi_Path (fst e)) (fi_Size (fst e))
      \<or> (\<exists>d\<in>set fs. fi_Path (fst d) = fi_Path (fst e) \<and> fi_Size (fst d) = fi_Size (fst e)
            \<and> srcHash (fi_Path (fst e)) = dstHash (fi_Path (fst e)))"
    if e: "e \<in> set es" and s: "tree_at ?T (fi_Path (fst e)) = Some s" for e s
  proof (cases "excludes_file (vn_rx env) flt (fi_Path (fst e)) (fi_Size (fst e))")
    case False
    have "tree_at t (fi_Path (fst e)) = Some (held_file (fst e))" using e by (auto simp: t(3))
    then have "fi_Path (fst e) \<in> set ps \<longleftrightarrow> (\<exists>d. tree_at u (fi_Path (fst e)) = Some d \<and> rf_size d = fi_Size (fst e))"
      using False by (auto simp: mem held_file_def)
    moreover have "srcHash (fi_Path (fst e)) \<noteq> []" using src e by (auto simp: host_holds_def hash_text_def)
    ultimately show ?thesis
      using hashed_file_judged [of u fs s "fi_Size (fst e)" "fi_Path (fst e)" "set ps" srcHash "?U" dstHash] u(3) sized [OF e s] at False
      by simp
  qed (use sized [OF e s] in simp)
  have src_some: "tree_at ?T k \<noteq> None \<longleftrightarrow> (\<exists>e\<in>set es. fi_Path (fst e) = k)" for k
    using t(3) [of k] by (auto simp: at)
  have dst_some: "tree_at ?U k \<noteq> None \<longleftrightarrow> (\<exists>d\<in>set fs. fi_Path (fst d) = k)" for k
    using u(3) [of k] by (auto simp: at)
  from that [OF run src_some dst_some judged] show ?thesis by blast
qed

text \<open>
  C28: A validation by checksum is exact end to end: read from hosts that hold the two trees, it
  returns a verdict, and the verdict has no failure if and only if every source file the
  migration's filter let through is at the destination with the same size and the same hash and
  the destination has no file the source has not - only the files whose hashes can still decide are
  hashed, and never one too few.
\<close>

theorem checksum_validation_is_exact:
  assumes src: "host_holds env srcCfg srcPath es srcHash" and dst: "host_holds env dstCfg dstPath fs dstHash"
    and flt: "new_migration_filter rules = Inr flt"
  shows "\<exists>ds. validate_ssh_folder env srcCfg dstCfg srcPath dstPath rules ModeChecksum = Inr ds
    \<and> (failed_items ds = [] \<longleftrightarrow>
         (\<forall>e\<in>set es. excludes_file (vn_rx env) flt (fi_Path (fst e)) (fi_Size (fst e))
            \<or> (\<exists>d\<in>set fs. fi_Path (fst d) = fi_Path (fst e) \<and> fi_Size (fst d) = fi_Size (fst e)
                 \<and> srcHash (fi_Path (fst e)) = dstHash (fi_Path (fst e))))
         \<and> (\<forall>d\<in>set fs. \<exists>e\<in>set es. fi_Path (fst e) = fi_Path (fst d)))"
proof (rule checked_trees [OF src dst flt])
  fix T U
  assume run: "validate_ssh_folder env srcCfg dstCfg srcPath dstPath rules ModeChecksum
       = Inr (compare_file_trees (vn_rx env) flt srcPath dstPath ModeChecksum T U)"
    and src_some: "\<And>k. tree_at T k \<noteq> None \<longleftrightarrow> (\<exists>e\<in>set es. fi_Path (fst e) = k)"
    and dst_some: "\<And>k. tree_at U k \<noteq> None \<longleftrightarrow> (\<exists>d\<in>set fs. fi_Path (fst d) = k)"
    and judged: "\<And>e s. e \<in> set es \<Longrightarrow> tree_at T (fi_Path (fst e)) = Some s \<Longrightarrow>
        (excludes_file (vn_rx env) flt (fi_Path (fst e)) (rf_size s) \<or> same_file ModeChecksum s (tree_at U (fi_Path (fst e))) \<longleftrightarrow>
           excludes_file (vn_rx env) flt (fi_Path (fst e)) (fi_Size (fst e))
           \<or> (\<exists>d\<in>set fs. fi_Path (fst d) = fi_Path (fst e) \<and> fi_Size (fst d) = fi_Size (fst e)
                 \<and> srcHash (fi_Path (fst e)) = dstHash (fi_Path (fst e))))"
  have some: "tree_at T (fi_Path (fst e)) = Some (the (tree_at T (fi_Path (fst e))))" if "e \<in> set es" for e
    using src_some [of "fi_Path (fst e)"] that by auto
  have carried: "(\<forall>k s. tree_at T k = Some s \<longrightarrow> excludes_file (vn_rx env) flt k (rf_size s) \<or> same_file ModeChecksum s (tree_at U k)) \<longleftrightarrow>
      (\<forall>e\<in>set es. excludes_file (vn_rx env) flt (fi_Path (fst e)) (fi_Size (fst e))
         \<or> (\<exists>d\<in>set fs. fi_Path (fst d) = fi_Path (fst e) \<and> fi_Size (fst d) = fi_Size (fst e)
              \<and> srcHash (fi_Path (fst e)) = dstHash (fi_Path (fst e))))"
    unfolding all_held [OF src_some] by (rule ball_cong [OF refl], rule judged, assumption, rule some)
  have nothing_else: "(\<forall>k. tree_at U k \<noteq> None \<longrightarrow> tree_at T k \<noteq> None) \<longleftrightarrow> (\<forall>d\<in>set fs. \<exists>e\<in>set es. fi_Path (fst e) = fi_Path (fst d))"
    unfolding src_some dst_some by blast
  have "failed_items (compare_file_trees (vn_rx env) flt srcPath dstPath ModeChecksum T U) = [] \<longleftrightarrow>
      (\<forall>e\<in>set es. excludes_file (vn_rx env) flt (fi_Path (fst e)) (fi_Size (fst e))
         \<or> (\<exists>d\<in>set fs. fi_Path (fst d) = fi_Path (fst e) \<and> fi_Size (fst d) = fi_Size (fst e)
              \<and> srcHash (fi_Path (fst e)) = dstHash (fi_Path (fst e))))
      \<and> (\<forall>d\<in>set fs. \<exists>e\<in>set es. fi_Path (fst e) = fi_Path (fst d))"
    unfolding folder_report_clean_iff carried nothing_else by (rule refl)
  then show ?thesis unfolding run by blast
qed

text \<open>Two hosts with one file each, of the same content.\<close>

definition one_file_env :: validation_env where
  "one_file_env = \<lparr>vn_rx = (\<lambda>_ _. True), vn_ssh = (\<lambda>_ _. Inr (find_record (sized_file ''x'' 3, ''5'') @ [CHR 0x00])),
     vn_ssh_in = (\<lambda>_ _ inp. Inr (concat (map (\<lambda>p. sha_line (''f0'', p) @ [newline]) (butlast (split_char (CHR 0x00) inp))))),
     vn_check_text = (\<lambda>_. ''io'')\<rparr>"

lemma one_file_held: "host_holds one_file_env checked_host root [(sized_file ''x'' 3, ''5'')] (\<lambda>_. ''f0'')"
proof -
  have "\<exists>qs. mset qs = mset ps \<and> concat (map (\<lambda>p. sha_line (''f0'', p) @ [newline]) (butlast (split_char (CHR 0x00) (concat (map (\<lambda>p. p @ [CHR 0x00]) ps)))))
      = concat (map (\<lambda>p. sha_line (''f0'', p) @ [newline]) qs)" if "ps \<noteq> []" "distinct ps" "set ps \<subseteq> {''x''}" for ps
  proof -
    have "ps = [''x'']" using that by (cases ps rule: list.exhaust; cases "tl ps") auto
    then show ?thesis by (intro exI [of _ ps]) simp
  qed
  then show ?thesis
    by (auto simp: host_holds_def one_file_env_def listed_file_def sized_file_def in_int64_def is_digit_def hash_text_def
        printable_def hash_input_def)
qed

theorem checksum_validation_is_exact_witness:
  "\<exists>ds. validate_ssh_folder one_file_env checked_host checked_host ''/a'' ''/b'' [] ModeChecksum = Inr ds \<and> failed_items ds = []"
proof -
  have "new_migration_filter [] = Inr None" by (simp add: new_migration_filter_def)
  from checksum_validation_is_exact [OF one_file_held one_file_held this] show ?thesis by (auto simp: sized_file_def)
qed

end
