(* ===== verification/DbValidation.thy ===== *)
theory DbValidation
  imports FileValidation DbmsResolve
begin

text \<open>
  Comparing a migrated database with its source, \<open>pkg/core/validation/validator.go\<close>: exact row
  counts table by table, the inventories of schema objects, the character sets and the foreign
  keys MySQL deprecates. Inspecting a server and counting a table are what the servers answer.
\<close>

section \<open>What an inspection returns\<close>

record table_info =
  ti_PgSchema :: string
  ti_Name :: string
  ti_RowCount :: int

text \<open>A nil slice and an empty one are different inventories: \<open>None\<close> is one that was not collected.\<close>

record dbms_info =
  di_ServerVersion :: string
  di_Database :: string
  di_CharacterSet :: string
  di_Collation :: string
  di_Ctype :: string
  di_Tables :: "table_info list"
  di_ForeignKeys :: "string list option"
  di_Views :: "string list option"
  di_Functions :: "string list option"
  di_Procedures :: "string list option"
  di_Triggers :: "string list option"
  di_Events :: "string list option"
  di_MaterializedViews :: "string list option"
  di_Sequences :: "string list option"
  di_Types :: "string list option"
  di_Extensions :: "string list option"
  di_Rules :: "string list option"
  di_Validators :: "string list option"

section \<open>Tables\<close>

definition table_key :: "bool \<Rightarrow> table_info \<Rightarrow> string" where
  "table_key renamed t = (if renamed \<or> ti_PgSchema t = [] then ti_Name t else ti_PgSchema t @ ''.'' @ ti_Name t)"

definition filtered_tables :: "dbms_filter_rule list \<Rightarrow> string set \<times> string set" where
  "filtered_tables rules =
     (set (map dfr_Table (filter (\<lambda>r. dfr_Table r \<noteq> [] \<and> dfr_Type r = DBMSRuleTableColumn \<and> dfr_Columns r = []) rules)),
      set (map dfr_Table (filter (\<lambda>r. dfr_Table r \<noteq> [] \<and> dfr_Type r = DBMSRuleRowExclude) rules)))"

definition names_table :: "string set \<Rightarrow> table_info \<Rightarrow> bool" where
  "names_table names t \<longleftrightarrow> ti_Name t \<in> names \<or> (ti_PgSchema t \<noteq> [] \<and> ti_PgSchema t @ ''.'' @ ti_Name t \<in> names)"

definition keyed :: "bool \<Rightarrow> table_info list \<Rightarrow> table_info tree" where
  "keyed renamed ts = map (\<lambda>t. (table_key renamed t, t)) ts"

definition table_judgement :: "string set \<Rightarrow> table_info \<Rightarrow> table_info option \<Rightarrow> judgement" where
  "table_judgement rowFiltered s dst =
     (case dst of
        None \<Rightarrow> Fails (MissingInDestination ''table'')
      | Some d \<Rightarrow>
          (if ti_RowCount s = ti_RowCount d then Agrees
           else if names_table rowFiltered s \<and> ti_RowCount d < ti_RowCount s then Notes RowsNotComparable
           else Fails (RowCountMismatch (ti_RowCount s) (ti_RowCount d))))"

definition compare_db_tables :: "string \<Rightarrow> string \<Rightarrow> table_info list \<Rightarrow> table_info list \<Rightarrow> bool \<Rightarrow> dbms_filter_rule list \<Rightarrow> detail_item list" where
  "compare_db_tables srcDb dstDb srcTables dstTables renamed rules =
     (let src = keyed renamed srcTables; dst = keyed renamed dstTables; (dropped, rowFiltered) = filtered_tables rules;
          (f, skipped) = source_pass (\<lambda>k. srcDb @ ''/'' @ k) (excluded_in (\<lambda>t k. names_table dropped t) src)
            (\<lambda>k. case tree_at src k of None \<Rightarrow> Agrees | Some t \<Rightarrow> table_judgement rowFiltered t (tree_at dst k))
            (tree_keys src) (new_findings srcDb, []);
          f' = dest_pass (\<lambda>k. dstDb @ ''/'' @ k)
            (\<lambda>k. if tree_at src k \<noteq> None then Agrees else Fails (ExtraInDestination ''table'')) (tree_keys dst) f
      in summarise (length skipped) ''table'' f')"

section \<open>Exact row counts\<close>

text \<open>
  The pairs of positions whose tables are counted. A count of the \<open>n\<close>-th pair is two describe
  calls, each writing its own side's figure; \<open>cancelled n\<close> is the context when it would start.
\<close>

definition last_index :: "bool \<Rightarrow> table_info list \<Rightarrow> string \<Rightarrow> nat option" where
  "last_index renamed ts k = map_of (rev (map (\<lambda>(i, t). (table_key renamed t, i)) (enum 0 ts))) k"

definition count_pairs :: "bool \<Rightarrow> dbms_filter_rule list \<Rightarrow> table_info list \<Rightarrow> table_info list \<Rightarrow> (nat \<times> nat) list" where
  "count_pairs renamed rules src dst =
     List.map_filter
       (\<lambda>(si, t). if names_table (fst (filtered_tables rules)) t then None
                  else map_option (Pair si) (last_index renamed dst (table_key renamed t)))
       (enum 0 src)"

definition set_count :: "nat \<Rightarrow> string + int \<Rightarrow> table_info list \<Rightarrow> table_info list" where
  "set_count i r ts = (case r of Inl e \<Rightarrow> ts | Inr c \<Rightarrow> ts[i := (ts ! i)\<lparr>ti_RowCount := c\<rparr>])"

fun count_all :: "(nat \<Rightarrow> string option) \<Rightarrow> (table_info \<Rightarrow> string + int) \<Rightarrow> (table_info \<Rightarrow> string + int) \<Rightarrow> nat \<Rightarrow> (nat \<times> nat) list
   \<Rightarrow> table_info list \<times> table_info list \<Rightarrow> (nat \<times> nat \<times> string) list \<times> table_info list \<times> table_info list" where
  "count_all cancelled cs cd n [] st = ([], st)"
| "count_all cancelled cs cd n ((si, di) # ps) (src, dst) =
     (case cancelled n of
        Some e \<Rightarrow> (let (errs, st) = count_all cancelled cs cd (Suc n) ps (src, dst) in ((si, di, e) # errs, st))
      | None \<Rightarrow>
          (let rs = cs (src ! si); rd = cd (dst ! di);
               r = both_sides (map_err (\<lambda>e. ''src: '' @ e) rs) (map_err (\<lambda>e. ''dst: '' @ e) rd);
               (errs, st) = count_all cancelled cs cd (Suc n) ps (set_count si rs src, set_count di rd dst)
           in (case r of Inl e \<Rightarrow> ((si, di, e) # errs, st) | Inr _ \<Rightarrow> (errs, st))))"

definition without_tables :: "nat list \<Rightarrow> table_info list \<Rightarrow> table_info list" where
  "without_tables drops ts = map snd (filter (\<lambda>(i, t). i \<notin> set drops) (enum 0 ts))"

definition count_rows ::
  "(nat \<Rightarrow> string option) \<Rightarrow> (table_info \<Rightarrow> string + int) \<Rightarrow> (table_info \<Rightarrow> string + int) \<Rightarrow> bool \<Rightarrow> dbms_filter_rule list \<Rightarrow> string
   \<Rightarrow> table_info list \<Rightarrow> table_info list \<Rightarrow> detail_item list \<times> table_info list \<times> table_info list" where
  "count_rows cancelled cs cd renamed rules srcDb src dst =
     (let (errs, src', dst') = count_all cancelled cs cd 0 (count_pairs renamed rules src dst) (src, dst)
      in (map (\<lambda>(si, di, e). detail (srcDb @ ''/'' @ table_key renamed (src' ! si)) DetailFailed (RowCountFailed e)) errs,
          without_tables (map fst errs) src', without_tables (map (\<lambda>(si, di, e). di) errs) dst'))"

section \<open>Schema objects and character sets\<close>

definition schema_object_kinds :: "dbms_info \<Rightarrow> (string \<times> string list option) list" where
  "schema_object_kinds i =
     [(''foreignKey'', di_ForeignKeys i), (''view'', di_Views i), (''function'', di_Functions i), (''procedure'', di_Procedures i),
      (''trigger'', di_Triggers i), (''event'', di_Events i), (''materializedView'', di_MaterializedViews i),
      (''sequence'', di_Sequences i), (''type'', di_Types i), (''extension'', di_Extensions i), (''rule'', di_Rules i),
      (''validator'', di_Validators i)]"

text \<open>\<open>routineArgModeIN.ReplaceAllString(name, "$1")\<close>.\<close>

fun drop_in_mode :: "string \<Rightarrow> string" where
  "drop_in_mode [] = []"
| "drop_in_mode (c # s) =
     (if has_prefix (c # s) ''(IN '' then ''('' @ drop_in_mode (drop 3 s)
      else if has_prefix (c # s) '', IN '' then '', '' @ drop_in_mode (drop 4 s)
      else c # drop_in_mode s)"

definition schema_object_key :: "string \<Rightarrow> string \<Rightarrow> string" where
  "schema_object_key kind name =
     (if kind \<noteq> ''function'' \<and> kind \<noteq> ''procedure'' then name else drop_in_mode name)"

definition listed :: "string list option \<Rightarrow> string list" where
  "listed l = (case l of None \<Rightarrow> [] | Some ns \<Rightarrow> ns)"

definition compare_kind :: "string \<Rightarrow> string \<Rightarrow> string \<Rightarrow> string list option \<Rightarrow> string list option \<Rightarrow> detail_item list" where
  "compare_kind srcDb dstDb kind srcList dstList =
     (if srcList = None \<and> dstList = None then []
      else (let key = schema_object_key kind; dstSet = key ` set (listed dstList); srcSet = key ` set (listed srcList)
            in map (\<lambda>n. detail (srcDb @ ''/'' @ kind @ '':'' @ n) DetailFailed (ObjectMissing kind n))
                 (filter (\<lambda>n. key n \<notin> dstSet) (listed srcList))
               @ map (\<lambda>n. detail (dstDb @ ''/'' @ kind @ '':'' @ n) DetailFailed (ObjectExtra kind n))
                 (filter (\<lambda>n. key n \<notin> srcSet) (listed dstList))))"

definition compare_schema_objects :: "dbms_info \<Rightarrow> dbms_info \<Rightarrow> detail_item list" where
  "compare_schema_objects src dst =
     concat (map (\<lambda>kind. compare_kind (di_Database src) (di_Database dst) kind
                    (case map_of (schema_object_kinds src) kind of None \<Rightarrow> None | Some l \<Rightarrow> l)
                    (case map_of (schema_object_kinds dst) kind of None \<Rightarrow> None | Some l \<Rightarrow> l))
               (sort (map fst (schema_object_kinds src))))"

definition compare_charsets :: "dbms_info \<Rightarrow> dbms_info \<Rightarrow> detail_item list" where
  "compare_charsets src dst =
     concat (map (\<lambda>(what, a, b). if a = [] \<or> b = [] \<or> a = b then []
                                 else [detail (di_Database src) DetailWarning (CharsetDiffers what a b)])
       [(''characterSet'', di_CharacterSet src, di_CharacterSet dst), (''collation'', di_Collation src, di_Collation dst),
        (''ctype'', di_Ctype src, di_Ctype dst)])"

definition restricts_non_standard_foreign_keys :: "string \<Rightarrow> string \<Rightarrow> bool" where
  "restricts_non_standard_foreign_keys dbmsType version =
     (if dbmsType \<noteq> MySQL then False
      else (let v = parse_server_version version in length v \<ge> 2 \<and> (v ! 0 > 8 \<or> (v ! 0 = 8 \<and> v ! 1 \<ge> 4))))"

definition deprecated_foreign_keys :: "(dbms_location \<Rightarrow> string + string list) \<Rightarrow> dbms_location \<Rightarrow> string \<Rightarrow> detail_item list" where
  "deprecated_foreign_keys keys dstLoc version =
     (if \<not> restricts_non_standard_foreign_keys (loc_DBMSType dstLoc) version then []
      else (case keys dstLoc of
              Inl e \<Rightarrow> []
            | Inr ks \<Rightarrow> map (\<lambda>k. detail (loc_Database dstLoc @ ''/foreign_key:'' @ k) DetailWarning (DeprecatedKey version)) ks))"

section \<open>One database\<close>

text \<open>\<open>splitPgSchemaPairs\<close>: its loop appends to both slices.\<close>

fun split_schema_pairs :: "pg_schema_mapping list \<Rightarrow> bool \<times> string list \<times> string list \<Rightarrow> bool \<times> string list \<times> string list" where
  "split_schema_pairs [] st = st"
| "split_schema_pairs (p # ps) (renamed, src, dst) =
     (let to = (if pg_DstName p = [] then pg_SrcName p else pg_DstName p)
      in split_schema_pairs ps (renamed \<or> to \<noteq> pg_SrcName p, src @ [pg_SrcName p], dst @ [to]))"

definition split_pg_schema_pairs :: "pg_schema_mapping list \<Rightarrow> string list \<times> string list" where
  "split_pg_schema_pairs pairs =
     (if pairs = [] then ([], [])
      else (let (renamed, src, dst) = split_schema_pairs pairs (False, [], []) in if renamed then (src, dst) else (src, [])))"

text \<open>
  What an inspection is asked to collect, by the name of the inventory: \<open>validationMetric\<close>. The
  row counts come from \<open>rowCountMetric\<close>, which asks every engine for exact ones.
\<close>

definition validation_metric :: "string \<Rightarrow> string list option" where
  "validation_metric dbType =
     (if dbType = MySQL \<or> dbType = MariaDB then
        Some [''foreignKey'', ''view'', ''function'', ''procedure'', ''trigger'', ''event'']
      else if dbType = DBMSTypePostgreSQL then
        Some [''foreignKey'', ''view'', ''materializedView'', ''function'', ''procedure'', ''trigger'', ''sequence'', ''type'',
              ''extension'', ''rule'']
      else if dbType = DBMSTypeMongoDB then Some [''view'', ''validator'']
      else None)"

definition row_count_metric :: "string \<Rightarrow> bool" where
  "row_count_metric dbType \<longleftrightarrow> dbType \<in> {MySQL, MariaDB, DBMSTypePostgreSQL, DBMSTypeMongoDB}"

record db_servers =
  ds_inspect :: "dbms_location \<Rightarrow> string list option \<Rightarrow> string + dbms_info"
  ds_describe :: "dbms_location \<Rightarrow> bool \<Rightarrow> string \<Rightarrow> string + int"
  ds_keys :: "dbms_location \<Rightarrow> string + string list"

definition exact_row_count :: "db_servers \<Rightarrow> dbms_location \<Rightarrow> bool \<Rightarrow> table_info \<Rightarrow> string + int" where
  "exact_row_count srv loc exact t =
     ds_describe srv (if ti_PgSchema t \<noteq> [] then loc\<lparr>loc_PgSchema := [ti_PgSchema t]\<rparr> else loc) exact (ti_Name t)"

datatype db_validation_error =
    SrcResolve resolve_error
  | DstResolve resolve_error
  | BuildDbFilter dbms_filter_error
  | InspectFailed string

definition validate_database ::
  "services \<Rightarrow> db_servers \<Rightarrow> (nat \<Rightarrow> string option) \<Rightarrow> migration_db_model \<Rightarrow> db_migration_info \<Rightarrow> db_validation_error + detail_item list" where
  "validate_database sv srv cancelled m d =
     (let dbType = mdb_DBType m; dstName = (if dmi_DstName d = [] then dmi_SrcName d else dmi_DstName d)
      in bind_res (map_err SrcResolve (resolve_dbms_location sv (mdb_SrcConnection m) (dmi_SrcName d) dbType)) (\<lambda>srcLoc0.
         bind_res (map_err DstResolve (resolve_dbms_location sv (mdb_DstConnection m) dstName dbType)) (\<lambda>dstLoc0.
         bind_res (map_err BuildDbFilter (to_dbms_filter (dmi_Rules d))) (\<lambda>flt.
           let (srcSchemas, dstSchemas) = split_pg_schema_pairs (dmi_PgSchemas d);
               srcLoc = srcLoc0\<lparr>loc_PgSchema := srcSchemas, loc_Filter := flt\<rparr>;
               dstLoc = dstLoc0\<lparr>loc_PgSchema := (if dstSchemas = [] then srcSchemas else dstSchemas)\<rparr>;
               metric = validation_metric dbType
           in bind_res (map_err InspectFailed
                (both_sides (named ''inspect src database '' (dmi_SrcName d) (ds_inspect srv srcLoc metric))
                            (named ''inspect dst database '' dstName (ds_inspect srv dstLoc metric)))) (\<lambda>(src, dst).
                let renamed = (dstSchemas \<noteq> []); exact = row_count_metric dbType;
                    (counted, srcTables, dstTables) = count_rows cancelled (exact_row_count srv srcLoc exact) (exact_row_count srv dstLoc exact)
                      renamed (dmi_Rules d) (di_Database src) (di_Tables src) (di_Tables dst)
                in Inr (counted
                        @ compare_db_tables (di_Database src) (di_Database dst) srcTables dstTables renamed (dmi_Rules d)
                        @ compare_schema_objects src dst
                        @ compare_charsets src dst
                        @ deprecated_foreign_keys (ds_keys srv) dstLoc (di_ServerVersion dst)))))))"

fun validate_databases :: "(nat \<Rightarrow> string option) \<Rightarrow> (db_migration_info \<Rightarrow> detail_item list) \<Rightarrow> nat \<Rightarrow> db_migration_info list
   \<Rightarrow> string + detail_item list" where
  "validate_databases cancelled one i [] = Inr []"
| "validate_databases cancelled one i (d # ds) =
     (case cancelled i of
        Some e \<Rightarrow> Inl e
      | None \<Rightarrow> bind_res (validate_databases cancelled one (Suc i) ds) (\<lambda>out. Inr (one d @ out)))"

definition validate_dbms ::
  "services \<Rightarrow> db_servers \<Rightarrow> (nat \<Rightarrow> string option) \<Rightarrow> (nat \<Rightarrow> string option) \<Rightarrow> (db_validation_error \<Rightarrow> string) \<Rightarrow> migration_db_model
   \<Rightarrow> string + detail_item list" where
  "validate_dbms sv srv cancelled counting text m =
     validate_databases cancelled
       (\<lambda>d. case validate_database sv srv counting m d of
              Inl e \<Rightarrow> [detail (dmi_SrcName d) DetailFailed (ValidationFailed (text e))]
            | Inr ds \<Rightarrow> ds) 0 (mdb_Databases m)"

section \<open>What the comparison decides\<close>

text \<open>Validation reads an item's schema pairs exactly as the migration does.\<close>

lemma split_schema_pairs_acc:
  "split_schema_pairs ps (r, ss, ds) = (case split_pairs ps of (r', ss', ds') \<Rightarrow> (r \<or> r', ss @ ss', ds @ ds'))"
  by (induction ps arbitrary: r ss ds) (auto simp: Let_def split: prod.splits)

lemma schema_pairs_as_migrated: "split_pg_schema_pairs pairs = split_pg_schemas pairs"
  by (simp add: split_pg_schema_pairs_def split_pg_schemas_def split_schema_pairs_acc Let_def split: prod.splits)

definition same_rows :: "string set \<Rightarrow> table_info \<Rightarrow> table_info option \<Rightarrow> bool" where
  "same_rows rowFiltered s dst \<longleftrightarrow>
     (\<exists>d. dst = Some d \<and> (ti_RowCount s = ti_RowCount d \<or> (names_table rowFiltered s \<and> ti_RowCount d < ti_RowCount s)))"

lemma table_judgement_ok: "(\<forall>m. table_judgement rf s dst \<noteq> Fails m) \<longleftrightarrow> same_rows rf s dst"
  by (auto simp: table_judgement_def same_rows_def split: option.split)

lemma extra_table_iff:
  "(\<forall>k\<in>set (tree_keys dst). \<forall>m. (if tree_at src k \<noteq> None then Agrees else Fails (ExtraInDestination n)) \<noteq> Fails m) \<longleftrightarrow>
   (\<forall>k. tree_at dst k \<noteq> None \<longrightarrow> tree_at src k \<noteq> None)"
  by (auto simp: tree_at_iff [symmetric])

lemma tables_report_clean_iff:
  "failed_items (compare_db_tables srcDb dstDb srcTables dstTables renamed rules) = [] \<longleftrightarrow>
     (\<forall>k t. tree_at (keyed renamed srcTables) k = Some t \<longrightarrow>
        names_table (fst (filtered_tables rules)) t
        \<or> same_rows (snd (filtered_tables rules)) t (tree_at (keyed renamed dstTables) k))
     \<and> (\<forall>k. tree_at (keyed renamed dstTables) k \<noteq> None \<longrightarrow> tree_at (keyed renamed srcTables) k \<noteq> None)"
proof -
  let ?src = "keyed renamed srcTables" and ?dst = "keyed renamed dstTables"
  obtain dropped rf where rules: "filtered_tables rules = (dropped, rf)" by (meson surj_pair)
  let ?excl = "\<lambda>t k. names_table dropped t"
  let ?judge = "\<lambda>k. case tree_at ?src k of None \<Rightarrow> Agrees | Some t \<Rightarrow> table_judgement rf t (tree_at ?dst k)"
  obtain f ex where run: "source_pass (\<lambda>k. srcDb @ ''/'' @ k) (excluded_in ?excl ?src) ?judge
      (tree_keys ?src) (new_findings srcDb, []) = (f, ex)" by (meson surj_pair)
  show ?thesis
    unfolding compare_db_tables_def Let_def rules prod.case run fst_conv snd_conv
      summarise_clean_iff [OF comparison_report(1) [OF run]] append_is_Nil_conv placed_def map_is_Nil_conv
      failures_Nil_iff source_clean_iff extra_table_iff table_judgement_ok
    by blast
qed

lemma keyed_at:
  assumes "distinct (map (table_key renamed) ts)"
  shows "tree_at (keyed renamed ts) k = Some t \<longleftrightarrow> t \<in> set ts \<and> table_key renamed t = k"
proof -
  have "distinct (map fst (rev (keyed renamed ts)))"
    using assms by (simp add: keyed_def rev_map [symmetric] comp_def)
  then show ?thesis unfolding tree_at_def by (subst map_of_eq_Some_iff) (auto simp: keyed_def)
qed

text \<open>
  C30: Tables go by their qualified name, or by their name alone once a schema was renamed. While
  those names are distinct on each side, a migrated database's tables are reported clean exactly
  when every source table that no rule drops has its counterpart of that name at the destination
  with as many rows, or fewer where a row rule names it, and every destination table is one of the
  source. Once a schema was renamed the names need not be distinct: that case is the next property.
\<close>

theorem clean_report_iff_tables_agree:
  assumes "distinct (map (table_key renamed) srcTables)" and "distinct (map (table_key renamed) dstTables)"
  shows "failed_items (compare_db_tables srcDb dstDb srcTables dstTables renamed rules) = [] \<longleftrightarrow>
     (\<forall>s\<in>set srcTables. names_table (fst (filtered_tables rules)) s
        \<or> (\<exists>d\<in>set dstTables. table_key renamed d = table_key renamed s
             \<and> (ti_RowCount s = ti_RowCount d
                \<or> names_table (snd (filtered_tables rules)) s \<and> ti_RowCount d < ti_RowCount s)))
     \<and> (\<forall>d\<in>set dstTables. \<exists>s\<in>set srcTables. table_key renamed s = table_key renamed d)"
proof -
  note at = keyed_at [OF assms(1)] keyed_at [OF assms(2)]
  have some: "tree_at (keyed renamed ts) k \<noteq> None \<longleftrightarrow> (\<exists>t\<in>set ts. table_key renamed t = k)" if "distinct (map (table_key renamed) ts)" for ts k
    using keyed_at [OF that] by blast
  show ?thesis unfolding tables_report_clean_iff same_rows_def some [OF assms(1)] some [OF assms(2)] at by blast
qed

theorem clean_report_iff_tables_agree_witness:
  "failed_items (compare_db_tables ''a'' ''b'' [\<lparr>ti_PgSchema = ''s'', ti_Name = ''t'', ti_RowCount = 3\<rparr>, \<lparr>ti_PgSchema = ''u'', ti_Name = ''t'', ti_RowCount = 5\<rparr>]
     [\<lparr>ti_PgSchema = ''s'', ti_Name = ''t'', ti_RowCount = 2\<rparr>, \<lparr>ti_PgSchema = ''u'', ti_Name = ''t'', ti_RowCount = 5\<rparr>] False []) \<noteq> []"
  by (subst clean_report_iff_tables_agree) (simp_all add: table_key_def filtered_tables_def names_table_def)

section \<open>After a schema was renamed\<close>

lemma tree_keys_cong: "set (map fst t) = set (map fst u) \<Longrightarrow> tree_keys t = tree_keys u"
  by (metis sorted_list_of_set_sort_remdups tree_keys_def)

lemma keyed_names: "fst ` set (keyed True ts) = ti_Name ` set ts"
  by (simp add: keyed_def table_key_def image_image)

text \<open>
  C31: Once a schema was renamed, a table is identified by its name alone, so of the tables of one
  name in several schemas only one is compared: a report is the same whatever the others hold,
  and whether they arrived at all.
\<close>

theorem renamed_tables_shadow_each_other:
  assumes "\<exists>t'\<in>set after. ti_Name t' = ti_Name t" and "\<exists>u'\<in>set after'. ti_Name u' = ti_Name u"
  shows "compare_db_tables srcDb dstDb (before @ t # after) dstTables True rules
      = compare_db_tables srcDb dstDb (before @ after) dstTables True rules
    \<and> compare_db_tables srcDb dstDb srcTables (before' @ u # after') True rules
      = compare_db_tables srcDb dstDb srcTables (before' @ after') True rules"
proof -
  have same: "tree_at (keyed True (b @ x # a)) = tree_at (keyed True (b @ a)) \<and> tree_keys (keyed True (b @ x # a)) = tree_keys (keyed True (b @ a))"
    if "\<exists>y\<in>set a. ti_Name y = ti_Name x" for b x a
  proof
    have mem: "ti_Name x \<in> ti_Name ` set a" using that by (metis imageI)
    then have "ti_Name x \<in> fst ` set (keyed True a)" by (simp only: keyed_names)
    then have "map_of (rev (keyed True a)) (ti_Name x) \<noteq> None" by (simp add: map_of_eq_None_iff)
    then show "tree_at (keyed True (b @ x # a)) = tree_at (keyed True (b @ a))"
      by (auto simp: fun_eq_iff tree_at_def keyed_def table_key_def map_add_def split: option.split)
    show "tree_keys (keyed True (b @ x # a)) = tree_keys (keyed True (b @ a))"
      by (rule tree_keys_cong) (use mem in \<open>simp add: keyed_names image_Un insert_absorb\<close>)
  qed
  have "excluded_in ex t = excluded_in ex u" if "tree_at t = tree_at u" for ex and t u :: "table_info tree"
    by (simp add: excluded_in_def fun_eq_iff that)
  note ex = this
  show ?thesis
    unfolding compare_db_tables_def Let_def
    by (simp only: same [OF assms(1)] same [OF assms(2)] ex [OF conjunct1 [OF same [OF assms(1)]]])
qed

theorem renamed_tables_shadow_each_other_witness:
  "failed_items (compare_db_tables ''a'' ''b'' [\<lparr>ti_PgSchema = ''s'', ti_Name = ''t'', ti_RowCount = 3\<rparr>, \<lparr>ti_PgSchema = ''u'', ti_Name = ''t'', ti_RowCount = 5\<rparr>]
     [\<lparr>ti_PgSchema = ''v'', ti_Name = ''t'', ti_RowCount = 5\<rparr>] True []) = []"
proof -
  let ?t = "\<lparr>ti_PgSchema = ''s'', ti_Name = ''t'', ti_RowCount = 3\<rparr>" and ?u = "\<lparr>ti_PgSchema = ''u'', ti_Name = ''t'', ti_RowCount = 5\<rparr>"
  let ?v = "\<lparr>ti_PgSchema = ''v'', ti_Name = ''t'', ti_RowCount = 5\<rparr>"
  have "compare_db_tables ''a'' ''b'' ([] @ ?t # [?u]) [?v] True [] = compare_db_tables ''a'' ''b'' ([] @ [?u]) [?v] True []"
    by (rule conjunct1 [OF renamed_tables_shadow_each_other [where after' = "[?u]" and u = ?u]]) simp_all
  also have "failed_items \<dots> = []"
    unfolding tables_report_clean_iff
    by (simp add: keyed_def table_key_def tree_at_def filtered_tables_def names_table_def same_rows_def)
  finally show ?thesis by simp
qed

section \<open>Schema objects\<close>

text \<open>
  Two inventories of a kind are reported equal exactly when they name the same objects, a routine's
  explicit IN modes apart. The names PostgreSQL gives carry their schema.
\<close>

lemma compare_kind_clean_iff:
  "compare_kind a b kind src dst = [] \<longleftrightarrow>
     schema_object_key kind ` set (listed src) = schema_object_key kind ` set (listed dst)"
  unfolding set_eq_subset
  by (auto simp: compare_kind_def Let_def filter_empty_conv listed_def image_subset_iff)

lemma compare_kind_failed: "failed_items (compare_kind a b kind src dst) = compare_kind a b kind src dst"
  by (auto simp: failed_items_def compare_kind_def Let_def filter_id_conv)

lemma clean_report_iff_objects_agree:
  "failed_items (compare_schema_objects src dst) = [] \<longleftrightarrow>
     (\<forall>kind\<in>set (map fst (schema_object_kinds src)).
        schema_object_key kind ` set (listed (case map_of (schema_object_kinds src) kind of None \<Rightarrow> None | Some l \<Rightarrow> l))
        = schema_object_key kind ` set (listed (case map_of (schema_object_kinds dst) kind of None \<Rightarrow> None | Some l \<Rightarrow> l)))"
proof -
  have "failed_items (concat xs) = concat (map failed_items xs)" for xs
    by (induction xs) (simp_all add: failed_items_def)
  then show ?thesis
    by (simp add: compare_schema_objects_def compare_kind_failed compare_kind_clean_iff comp_def)
qed

text \<open>
  So after a schema was renamed every view is reported, as missing and as extra: the names of one
  schema never equal those of another.
\<close>

lemma renamed_view_is_reported:
  assumes "di_Views src = Some [v]" and "di_Views dst = Some [v']" and "v \<noteq> v'"
  shows "failed_items (compare_schema_objects src dst) \<noteq> []"
  unfolding clean_report_iff_objects_agree
  by (auto simp: schema_object_kinds_def assms listed_def schema_object_key_def intro!: bexI [of _ "''view''"])

end
