(* ===== verification/RsyncCommand.thy ===== *)
theory RsyncCommand
  imports FileCheck StoragePlan
begin

text \<open>
  The rsync command lines of \<open>executor-rsync.go\<close>: the argument list of a local rsync, and the one
  string a remote shell runs when the source server transfers straight to the destination. What a
  POSIX shell makes of such a string is written down as the reading it has to have.
\<close>

section \<open>Hosts, ports and paths\<close>

definition host_only :: "string \<Rightarrow> string" where
  "host_only host = (case cut_char (CHR '':'') host of None \<Rightarrow> host | Some (h, p) \<Rightarrow> h)"

definition ssh_port :: "core_ssh_config \<Rightarrow> int" where
  "ssh_port cfg =
     (if cs_Port cfg \<noteq> 0 then cs_Port cfg
      else (case cut_char (CHR '':'') (cs_Host cfg) of
              None \<Rightarrow> 0
            | Some (h, p) \<Rightarrow> (case sscan_int p of None \<Rightarrow> 0 | Some n \<Rightarrow> n)))"

definition format_ssh_address :: "core_ssh_config \<Rightarrow> string" where
  "format_ssh_address cfg =
     (if CHR '':'' \<in> set (cs_Host cfg) then cs_Host cfg
      else cs_Host cfg @ '':'' @ itoa (if cs_Port cfg = 0 then 22 else cs_Port cfg))"

definition is_directory_path :: "string \<Rightarrow> bool" where
  "is_directory_path path \<longleftrightarrow> CHR ''.'' \<notin> set (after_last_slash path)"

definition with_slash :: "string \<Rightarrow> string" where
  "with_slash path = (if \<not> has_suffix path ''/'' \<and> is_directory_path path then path @ ''/'' else path)"

definition user_or_root :: "core_ssh_config \<Rightarrow> string" where
  "user_or_root cfg = (if cs_Username cfg = [] then ''root'' else cs_Username cfg)"

definition build_path :: "data_location \<Rightarrow> string" where
  "build_path loc =
     (let path = with_slash (dl_Path loc)
      in case dl_Filesystem loc of
           None \<Rightarrow> path
         | Some f \<Rightarrow> (case fa_SSH f of
                        None \<Rightarrow> path
                      | Some cfg \<Rightarrow> user_or_root cfg @ ''@'' @ host_only (cs_Host cfg) @ '':'' @ path))"

section \<open>SSH options\<close>

definition port_option :: "core_ssh_config \<Rightarrow> string list" where
  "port_option cfg = (if ssh_port cfg > 0 \<and> ssh_port cfg \<noteq> 22 then [''-p '' @ itoa (ssh_port cfg)] else [])"

definition build_remote_ssh_options :: "core_ssh_config \<Rightarrow> string" where
  "build_remote_ssh_options cfg =
     join '' '' ([''ssh''] @ port_option cfg @ [''-o StrictHostKeyChecking=no'', ''-o UserKnownHostsFile=/dev/null''])"

text \<open>A key held as text goes to a temporary file; \<open>tmp\<close> is where, when the file could be written.\<close>

definition side_ssh :: "transfer_mode \<Rightarrow> data_location \<Rightarrow> data_location \<Rightarrow> core_ssh_config option" where
  "side_ssh mode src dst =
     (case mode of
        ModePull \<Rightarrow> (case dl_Filesystem src of None \<Rightarrow> None | Some f \<Rightarrow> fa_SSH f)
      | ModePush \<Rightarrow> (case dl_Filesystem dst of None \<Rightarrow> None | Some f \<Rightarrow> fa_SSH f)
      | ModeAgentForward \<Rightarrow> None)"

definition build_ssh_command :: "(string \<Rightarrow> string option) \<Rightarrow> transfer_mode \<Rightarrow> data_location \<Rightarrow> data_location \<Rightarrow> string" where
  "build_ssh_command tmp mode src dst =
     (case side_ssh mode src dst of
        None \<Rightarrow> []
      | Some cfg \<Rightarrow>
          join '' '' ([''ssh''] @ port_option cfg
            @ (if cs_PrivateKey cfg \<noteq> [] then (case tmp (cs_PrivateKey cfg) of None \<Rightarrow> [] | Some f \<Rightarrow> [''-i '' @ f])
               else if cs_PrivateKeyPath cfg \<noteq> [] then [''-i '' @ cs_PrivateKeyPath cfg] else [])
            @ [''-o StrictHostKeyChecking=no'', ''-o UserKnownHostsFile=/dev/null'', ''-o BatchMode=yes'', ''-o ConnectTimeout=10'']))"

text \<open>What the temporary file holds: the key with its line breaks, ending in one.\<close>

fun normalize_private_key :: "string \<Rightarrow> string" where
  "normalize_private_key [] = []"
| "normalize_private_key [c] = [c]"
| "normalize_private_key (c # d # s) =
     (if c = backslash \<and> d = CHR ''n'' then newline # normalize_private_key s else c # normalize_private_key (d # s))"

definition temp_key_content :: "string \<Rightarrow> string" where
  "temp_key_content key =
     (let k = normalize_private_key key in if has_suffix k [newline] then k else k @ [newline])"

section \<open>The commands\<close>

definition rsync_flags :: "rsync_executor \<Rightarrow> string list" where
  "rsync_flags e =
     (if re_DeleteExtraneous e then [''--delete''] else []) @ (if re_DryRun e then [''--dry-run''] else [])
     @ (if re_Verbose e then [''-v''] else [])"

definition build_local_rsync_args ::
  "(string \<Rightarrow> string option) \<Rightarrow> rsync_executor \<Rightarrow> data_location \<Rightarrow> data_location \<Rightarrow> filter_error + string list" where
  "build_local_rsync_args tmp e src dst =
     (let sshCmd = build_ssh_command tmp (re_Mode e) src dst
      in bind_res (rsync_filter_args (dl_Filter src)) (\<lambda>fs.
         bind_res (rsync_filter_args (dl_Filter dst)) (\<lambda>fd.
           Inr ([''-avz'', ''--stats'', rsyncOutFormat] @ rsync_flags e @ (if sshCmd \<noteq> [] then [''-e'', sshCmd] else [])
                @ fs @ fd @ re_AdditionalArgs e @ [build_path src, build_path dst]))))"

definition remote_parts :: "rsync_executor \<Rightarrow> string list \<Rightarrow> string \<Rightarrow> string \<Rightarrow> core_ssh_config \<Rightarrow> string list" where
  "remote_parts e fs srcPath dstPath cfg =
     [''rsync'', ''-avz'', ''--stats'', shell_quote_single rsyncOutFormat] @ rsync_flags e
     @ (if build_remote_ssh_options cfg \<noteq> [] then [''-e'', [squote] @ build_remote_ssh_options cfg @ [squote]] else [])
     @ map shell_quote_single fs @ re_AdditionalArgs e
     @ [with_slash srcPath, user_or_root cfg @ ''@'' @ host_only (cs_Host cfg) @ '':'' @ dstPath]"

definition build_remote_rsync_command ::
  "rsync_executor \<Rightarrow> data_location \<Rightarrow> data_location \<Rightarrow> core_ssh_config \<Rightarrow> filter_error + string" where
  "build_remote_rsync_command e src dst cfg =
     bind_res (rsync_filter_args (dl_Filter src)) (\<lambda>fs. Inr (join '' '' (remote_parts e fs (dl_Path src) (dl_Path dst) cfg)))"

definition mkdir_command :: "string \<Rightarrow> string" where
  "mkdir_command dirPath = ''mkdir -p '' @ shell_quote_single dirPath"

section \<open>What a shell reads\<close>

text \<open>
  The words a POSIX shell splits a simple command into, as long as it holds nothing but ordinary
  characters, single quotes and backslashes; \<open>None\<close> is a command outside that reading - one
  with an operator, an expansion, a pattern or a quote left open.
\<close>

definition shell_special :: "char set" where
  "shell_special = set ''|&;<>()$`*?[]#~!{}'' \<union> {CHR 0x22, newline, CHR 0x09}"

definition so_far :: "string option \<Rightarrow> string" where
  "so_far w = (case w of None \<Rightarrow> [] | Some s \<Rightarrow> s)"

definition finished :: "string option \<Rightarrow> string list" where
  "finished w = (case w of None \<Rightarrow> [] | Some s \<Rightarrow> [s])"

function shell_words :: "string option \<Rightarrow> string \<Rightarrow> string list option" where
  "shell_words w [] = Some (finished w)"
| "shell_words w (c # s) =
     (if c = CHR '' '' then map_option (\<lambda>ws. finished w @ ws) (shell_words None s)
      else if c = squote then
        (case cut_char squote s of None \<Rightarrow> None | Some (q, r) \<Rightarrow> shell_words (Some (so_far w @ q)) r)
      else if c = backslash then (case s of [] \<Rightarrow> None | d # r \<Rightarrow> shell_words (Some (so_far w @ [d])) r)
      else if c \<in> shell_special then None
      else shell_words (Some (so_far w @ [c])) s)"
  by pat_completeness auto
termination
  by (relation "measure (\<lambda>(w, s). length s)") (auto simp: cut_char_Some)

text \<open>A piece of text that reads as \<open>w\<close> wherever it stands.\<close>

definition reads :: "string \<Rightarrow> string \<Rightarrow> bool" where
  "reads p w \<longleftrightarrow> (\<forall>u r. shell_words u (p @ r) = shell_words (Some (so_far u @ w)) r)"

definition ordinary :: "char \<Rightarrow> bool" where
  "ordinary c \<longleftrightarrow> c \<noteq> CHR '' '' \<and> c \<noteq> squote \<and> c \<noteq> backslash \<and> c \<notin> shell_special"

lemma so_far_Some [simp]: "so_far (Some s) = s"
  by (simp add: so_far_def)

lemma reads_ordinary: "list_all ordinary p \<Longrightarrow> p \<noteq> [] \<Longrightarrow> reads p p"
proof -
  have step: "list_all ordinary q \<Longrightarrow> shell_words (Some s) (q @ r) = shell_words (Some (s @ q)) r" for q s r
    by (induction q arbitrary: s) (simp_all add: ordinary_def)
  show "list_all ordinary p \<Longrightarrow> p \<noteq> [] \<Longrightarrow> reads p p"
    unfolding reads_def by (cases p) (auto simp: step ordinary_def)
qed

lemma reads_quoted_from:
  "squote \<notin> set p \<Longrightarrow>
   shell_words u ([squote] @ p @ replace_char squote [squote, backslash, squote, squote] a @ [squote] @ r)
   = shell_words (Some (so_far u @ p @ a)) r"
proof (induction a arbitrary: p u)
  case Nil
  then show ?case using cut_char_first [of squote p r] by (simp add: replace_char_def)
next
  case (Cons c a)
  show ?case
  proof (cases "c = squote")
    case True
    let ?q = "replace_char squote [squote, backslash, squote, squote] a"
    have "shell_words u ([squote] @ p @ replace_char squote [squote, backslash, squote, squote] (c # a) @ [squote] @ r)
        = shell_words u (squote # p @ squote # backslash # squote # [squote] @ [] @ ?q @ [squote] @ r)"
      using True by (simp add: replace_char_def)
    also have "\<dots> = shell_words (Some (so_far u @ p @ [squote])) ([squote] @ [] @ ?q @ [squote] @ r)"
      using cut_char_first [OF Cons.prems, of "backslash # squote # [squote] @ [] @ ?q @ [squote] @ r"] by simp
    also have "\<dots> = shell_words (Some (so_far u @ p @ c # a)) r" using Cons.IH [of "[]"] True by simp
    finally show ?thesis .
  next
    case False
    then show ?thesis using Cons.IH [of "p @ [c]" u] Cons.prems by (simp add: replace_char_def)
  qed
qed

lemma reads_quoted: "reads (shell_quote_single a) a"
  using reads_quoted_from [of "[]"] by (simp add: reads_def shell_quote_single_def)

lemma reads_in_quotes: "squote \<notin> set a \<Longrightarrow> reads ([squote] @ a @ [squote]) a"
  using cut_char_first by (simp add: reads_def)

lemma shell_words_joined:
  "list_all2 reads ps ws \<Longrightarrow> shell_words None (join '' '' ps) = Some ws"
proof (induction ps arbitrary: ws rule: induct_list012)
  case (2 p)
  then obtain w where "ws = [w]" "reads p w" by (auto simp: list_all2_Cons1)
  then have "shell_words None (p @ []) = shell_words (Some w) []" unfolding reads_def by (metis append_Nil option.simps(4) so_far_def)
  then show ?case using \<open>ws = [w]\<close> by (simp add: finished_def)
next
  case (3 p q ps)
  then obtain w vs where ws: "ws = w # vs" "reads p w" "list_all2 reads (q # ps) vs" by (auto simp: list_all2_Cons1)
  have "shell_words None (p @ '' '' @ join '' '' (q # ps)) = shell_words (Some w) ('' '' @ join '' '' (q # ps))"
    using ws(2) unfolding reads_def by (metis append_Nil option.simps(4) so_far_def)
  then show ?case using 3(2) [OF ws(3)] ws(1) by (simp add: finished_def)
qed (simp add: finished_def)

section \<open>The remote command\<close>

lemma squote_not_special: "\<not> ordinary squote"
  by (simp add: ordinary_def)

lemma ssh_options_shape: "build_remote_ssh_options cfg \<noteq> [] \<and> squote \<notin> set (build_remote_ssh_options cfg)"
  using itoa_below [of squote "ssh_port cfg"] by (auto simp: build_remote_ssh_options_def port_option_def)

lemma reads_literals:
  "reads ''rsync'' ''rsync''" "reads ''-avz'' ''-avz''" "reads ''--stats'' ''--stats''" "reads ''--delete'' ''--delete''"
  "reads ''--dry-run'' ''--dry-run''" "reads ''-v'' ''-v''" "reads ''-e'' ''-e''"
  by (rule reads_ordinary; simp add: ordinary_def shell_special_def)+

lemma reads_all_quoted: "list_all2 reads (map shell_quote_single fs) fs"
  by (induction fs) (simp_all add: reads_quoted)

lemma reads_all_ordinary: "list_all (\<lambda>a. a \<noteq> [] \<and> list_all ordinary a) as \<Longrightarrow> list_all2 reads as as"
  by (induction as) (simp_all add: reads_ordinary)

definition remote_words :: "rsync_executor \<Rightarrow> string list \<Rightarrow> core_ssh_config \<Rightarrow> string list" where
  "remote_words e fs cfg =
     [''rsync'', ''-avz'', ''--stats'', rsyncOutFormat] @ rsync_flags e @ [''-e'', build_remote_ssh_options cfg] @ fs @ re_AdditionalArgs e"

lemma reads_remote_parts:
  assumes "list_all (\<lambda>a. a \<noteq> [] \<and> list_all ordinary a) (re_AdditionalArgs e)" and "list_all2 reads ps ws"
  shows "list_all2 reads
    ([''rsync'', ''-avz'', ''--stats'', shell_quote_single rsyncOutFormat] @ rsync_flags e
       @ (if build_remote_ssh_options cfg \<noteq> [] then [''-e'', [squote] @ build_remote_ssh_options cfg @ [squote]] else [])
       @ map shell_quote_single fs @ re_AdditionalArgs e @ ps)
    (remote_words e fs cfg @ ws)"
proof -
  have "list_all2 reads (rsync_flags e) (rsync_flags e)" by (simp add: rsync_flags_def reads_literals)
  then show ?thesis
    using assms reads_in_quotes [OF conjunct2 [OF ssh_options_shape]] conjunct1 [OF ssh_options_shape]
    by (auto simp: remote_words_def reads_literals reads_quoted reads_all_quoted reads_all_ordinary intro!: list_all2_appendI)
qed

text \<open>
  C32: The command a source server runs is read by its shell as the arguments that were meant: the
  flags, the ssh command as one word, every filter rule as it was translated - whatever quotes,
  blanks or wildcards its pattern holds - and then the source and the destination, as long as
  their paths need no quoting.
\<close>

theorem remote_command_is_read_as_meant:
  assumes "rsync_filter_args (dl_Filter src) = Inr fs"
    and "list_all (\<lambda>a. a \<noteq> [] \<and> list_all ordinary a) (re_AdditionalArgs e)"
    and "list_all ordinary (with_slash (dl_Path src))"
    and "list_all ordinary (user_or_root cfg @ ''@'' @ host_only (cs_Host cfg) @ '':'' @ dl_Path dst)"
  shows "\<exists>cmd. build_remote_rsync_command e src dst cfg = Inr cmd
    \<and> shell_words None cmd = Some (remote_words e fs cfg
         @ [with_slash (dl_Path src), user_or_root cfg @ ''@'' @ host_only (cs_Host cfg) @ '':'' @ dl_Path dst])"
proof -
  have "with_slash (dl_Path src) \<noteq> []" by (auto simp: with_slash_def has_suffix_def is_directory_path_def after_last_slash_def)
  then have "list_all2 reads [with_slash (dl_Path src), user_or_root cfg @ ''@'' @ host_only (cs_Host cfg) @ '':'' @ dl_Path dst]
      [with_slash (dl_Path src), user_or_root cfg @ ''@'' @ host_only (cs_Host cfg) @ '':'' @ dl_Path dst]"
    using reads_ordinary [OF assms(3)] reads_ordinary [OF assms(4)] by simp
  from shell_words_joined [OF reads_remote_parts [OF assms(2) this, of cfg fs]] show ?thesis
    by (simp only: build_remote_rsync_command_def assms(1) bind_res_simps remote_parts_def) blast
qed

definition quoting_source :: data_location where
  "quoting_source = checked_tree\<lparr>dl_Filter := Some \<lparr>fo_Rules = [\<lparr>fr_Action = ActionExclude,
     fr_Matcher = Some (GlobMatcher (''it'' @ [squote] @ ''s *''))\<rparr>], fo_Include = [], fo_Exclude = [], fo_MaxDepth = 0\<rparr>\<rparr>"

definition plain_executor :: rsync_executor where
  "plain_executor = \<lparr>re_Mode = ModeAgentForward, re_DeleteExtraneous = False, re_DryRun = False, re_Verbose = False, re_AdditionalArgs = []\<rparr>"

theorem remote_command_is_read_as_meant_witness:
  "\<exists>cmd. build_remote_rsync_command plain_executor quoting_source checked_tree checked_host = Inr cmd
    \<and> shell_words None cmd = Some (remote_words plain_executor [''--exclude=it'' @ [squote] @ ''s *''] checked_host @ [''/a/'', ''u@h:/a''])"
proof -
  have fs: "rsync_filter_args (dl_Filter quoting_source) = Inr [''--exclude=it'' @ [squote] @ ''s *'']"
    by (simp add: quoting_source_def rsync_filter_args_def effective_rules_def with_dir_pass_def has_include_def build_effective_def glob_rsync_args_def rules_rsync_args.simps matcher_rsync_args.simps)
  have path: "with_slash (dl_Path quoting_source) = ''/a/''"
    by (simp add: quoting_source_def checked_tree_def with_slash_def has_suffix_def is_directory_path_def after_last_slash_def)
  have host: "user_or_root checked_host @ ''@'' @ host_only (cs_Host checked_host) @ '':'' @ dl_Path checked_tree = ''u@h:/a''"
    by (simp add: checked_host_def checked_tree_def user_or_root_def host_only_def cut_char_def)
  from remote_command_is_read_as_meant [OF fs, of plain_executor checked_host checked_tree] show ?thesis
    unfolding path host by (simp add: plain_executor_def ordinary_def shell_special_def)
qed

text \<open>The paths are not quoted: a blank in the source path makes two arguments of it.\<close>

lemma join_two_words: "join '' '' (xs @ (a @ '' '' @ b) # ys) = join '' '' (xs @ [a, b] @ ys)"
proof -
  have "join '' '' ((a @ '' '' @ b) # ys) = join '' '' (a # b # ys)" by (cases ys) simp_all
  then show ?thesis by (cases "xs = []") (simp_all add: join_append del: join.simps)
qed

lemma blank_in_path_splits_it:
  assumes "rsync_filter_args (dl_Filter src) = Inr fs"
    and "list_all (\<lambda>a. a \<noteq> [] \<and> list_all ordinary a) (re_AdditionalArgs e)"
    and "with_slash (dl_Path src) = a @ '' '' @ b" and "list_all ordinary a" and "list_all ordinary b" and "a \<noteq> []" and "b \<noteq> []"
    and "list_all ordinary (user_or_root cfg @ ''@'' @ host_only (cs_Host cfg) @ '':'' @ dl_Path dst)"
  shows "\<exists>cmd. build_remote_rsync_command e src dst cfg = Inr cmd
    \<and> shell_words None cmd = Some (remote_words e fs cfg @ [a, b, user_or_root cfg @ ''@'' @ host_only (cs_Host cfg) @ '':'' @ dl_Path dst])"
proof -
  let ?d = "user_or_root cfg @ ''@'' @ host_only (cs_Host cfg) @ '':'' @ dl_Path dst"
  have "list_all2 reads [a, b, ?d] [a, b, ?d]"
    using reads_ordinary [OF assms(4,6)] reads_ordinary [OF assms(5,7)] reads_ordinary [OF assms(8)] by simp
  note words = shell_words_joined [OF reads_remote_parts [OF assms(2) this, of cfg fs]]
  let ?xs = "[''rsync'', ''-avz'', ''--stats'', shell_quote_single rsyncOutFormat] @ rsync_flags e
       @ (if build_remote_ssh_options cfg \<noteq> [] then [''-e'', [squote] @ build_remote_ssh_options cfg @ [squote]] else [])
       @ map shell_quote_single fs @ re_AdditionalArgs e"
  have "join '' '' (remote_parts e fs (dl_Path src) (dl_Path dst) cfg) = join '' '' (?xs @ [a, b] @ [?d])"
    using join_two_words [of ?xs a b "[?d]"] unfolding remote_parts_def assms(3) by (simp only: append_assoc append_Cons append_Nil)
  with words show ?thesis
    by (simp only: build_remote_rsync_command_def assms(1) bind_res_simps append_assoc append_Cons append_Nil) blast
qed

end
