(* ===== verification/RsyncExecute.thy ===== *)
theory RsyncExecute
  imports RsyncCommand
begin

text \<open>
  Running rsync, the rest of \<open>executor-rsync.go\<close>: pulling and pushing with a local process,
  transferring from server to server with a forwarded agent, and the parallel phase ahead of
  either. Processes, SSH sessions and files are what the environment answers; the state is the
  temporary key files on disk.
\<close>

section \<open>The environment\<close>

text \<open>
  What a running rsync emits, in the order it arrives: lines of its output, as the scanner cut
  them, and text on its error stream, written by another goroutine.
\<close>

datatype emitted = OutLine string | ErrText string

record rsync_env =
  xe_cancelled :: "string option"
  xe_concurrency :: "int option"
  xe_mkdir :: "string \<Rightarrow> string option"
  xe_temp_key :: "string list \<Rightarrow> string option"
  xe_read_file :: "string \<Rightarrow> string + string"
  xe_parse_signer :: "string \<Rightarrow> string option"
  xe_parse_raw :: "string \<Rightarrow> string + string"
  xe_remote_command :: "core_ssh_config \<Rightarrow> string \<Rightarrow> string \<Rightarrow> string option"
  xe_local_rsync :: "string list \<Rightarrow> string + emitted list \<times> string option"
  xe_remote_rsync :: "core_ssh_config \<Rightarrow> string list \<Rightarrow> string \<Rightarrow> string + emitted list \<times> string option"

datatype rsync_error =
    TransferCancelled string
  | LocalDirFailed string
  | RemoteDirFailed string
  | FilterNotExpressible filter_error
  | RsyncStartFailed string
  | RsyncFailed string string
  | SSHConfigRequired string
  | KeyFailed string string

definition stream_emitted :: "emitted \<Rightarrow> rsync_stream \<Rightarrow> rsync_stream" where
  "stream_emitted x st =
     (case x of OutLine l \<Rightarrow> stream_line rsyncTailBytes l st
      | ErrText t \<Rightarrow> st\<lparr>rs_tail := tail_write rsyncTailBytes t (rs_tail st)\<rparr>)"

text \<open>The end of \<open>runLocal\<close> and of \<open>executeAgentForward\<close>: what was emitted, then how the process ended.\<close>

definition finish_rsync :: "string + emitted list \<times> string option \<Rightarrow> rsync_error option \<times> update list" where
  "finish_rsync r =
     (case r of
        Inl e \<Rightarrow> (Some (RsyncStartFailed e), [])
      | Inr (xs, werr) \<Rightarrow>
          (let st = fold stream_emitted xs \<lparr>rs_moved = 0, rs_tail = [], rs_reports = []\<rparr>
           in case werr of
                Some e \<Rightarrow> (Some (RsyncFailed e (rs_tail st)), rs_reports st)
              | None \<Rightarrow> (None, rs_reports st @ [report_final (rs_moved st) (rs_tail st)])))"

section \<open>Keys\<close>

definition load_private_key_data :: "rsync_env \<Rightarrow> core_ssh_config \<Rightarrow> string + string" where
  "load_private_key_data env cfg =
     (if cs_PrivateKey cfg \<noteq> [] then Inr (normalize_private_key (cs_PrivateKey cfg))
      else if cs_PrivateKeyPath cfg \<noteq> [] then xe_read_file env (cs_PrivateKeyPath cfg)
      else Inl ''no private key provided'')"

definition ensure_remote_dir :: "rsync_env \<Rightarrow> core_ssh_config \<Rightarrow> string \<Rightarrow> string option" where
  "ensure_remote_dir env cfg dirPath =
     (case load_private_key_data env cfg of
        Inl e \<Rightarrow> Some e
      | Inr key \<Rightarrow> (case xe_parse_signer env key of
                       Some e \<Rightarrow> Some e
                     | None \<Rightarrow> xe_remote_command env cfg key (mkdir_command dirPath)))"

text \<open>The temporary key file a side needs: \<open>buildSSHCommand\<close> writes it, \<open>cleanupTempKeyFile\<close> removes it.\<close>

definition key_file_made :: "rsync_env \<Rightarrow> transfer_mode \<Rightarrow> data_location \<Rightarrow> data_location \<Rightarrow> string list \<Rightarrow> string option" where
  "key_file_made env mode src dst keys =
     (case side_ssh mode src dst of
        None \<Rightarrow> None
      | Some cfg \<Rightarrow> if cs_PrivateKey cfg \<noteq> [] then xe_temp_key env keys else None)"

definition cleanup_temp_key_file :: "string option \<Rightarrow> string list \<Rightarrow> string list" where
  "cleanup_temp_key_file made keys = (case made of None \<Rightarrow> keys | Some f \<Rightarrow> filter (\<lambda>k. k \<noteq> f) keys)"

section \<open>The three modes\<close>

definition run_local :: "rsync_env \<Rightarrow> rsync_executor \<Rightarrow> data_location \<Rightarrow> data_location \<Rightarrow> string list
    \<Rightarrow> (rsync_error option \<times> update list) \<times> string list" where
  "run_local env e src dst keys =
     (let made = key_file_made env (re_Mode e) src dst keys;
          keys1 = (case made of None \<Rightarrow> keys | Some f \<Rightarrow> f # keys);
          r = (case build_local_rsync_args (\<lambda>_. made) e src dst of
                 Inl fe \<Rightarrow> (Some (FilterNotExpressible fe), [])
               | Inr args \<Rightarrow> finish_rsync (xe_local_rsync env args))
      in (r, cleanup_temp_key_file made keys1))"

definition execute_pull :: "rsync_env \<Rightarrow> rsync_executor \<Rightarrow> data_location \<Rightarrow> data_location \<Rightarrow> string list
    \<Rightarrow> (rsync_error option \<times> update list) \<times> string list" where
  "execute_pull env e src dst keys =
     (case xe_cancelled env of
        Some c \<Rightarrow> ((Some (TransferCancelled c), []), keys)
      | None \<Rightarrow> (case xe_mkdir env (dl_Path dst) of
                    Some m \<Rightarrow> ((Some (LocalDirFailed m), []), keys)
                  | None \<Rightarrow> run_local env e src dst keys))"

definition ssh_of :: "data_location \<Rightarrow> core_ssh_config option" where
  "ssh_of loc = (case dl_Filesystem loc of None \<Rightarrow> None | Some f \<Rightarrow> fa_SSH f)"

definition execute_push :: "rsync_env \<Rightarrow> rsync_executor \<Rightarrow> data_location \<Rightarrow> data_location \<Rightarrow> string list
    \<Rightarrow> (rsync_error option \<times> update list) \<times> string list" where
  "execute_push env e src dst keys =
     (case xe_cancelled env of
        Some c \<Rightarrow> ((Some (TransferCancelled c), []), keys)
      | None \<Rightarrow>
          (case (case ssh_of dst of None \<Rightarrow> None | Some cfg \<Rightarrow> ensure_remote_dir env cfg (dl_Path dst)) of
             Some m \<Rightarrow> ((Some (RemoteDirFailed m), []), keys)
           | None \<Rightarrow> run_local env e src dst keys))"

text \<open>The agent that is forwarded holds the source's key and, when there is one, the destination's.\<close>

definition agent_keyring :: "rsync_env \<Rightarrow> core_ssh_config \<Rightarrow> core_ssh_config \<Rightarrow> rsync_error + string list" where
  "agent_keyring env srcSSH dstSSH =
     bind_res (map_err (KeyFailed ''source'') (load_private_key_data env srcSSH)) (\<lambda>keyData.
     check (map_option (KeyFailed ''source'') (xe_parse_signer env keyData))
       (bind_res (map_err (KeyFailed ''source'') (xe_parse_raw env keyData)) (\<lambda>raw.
          if cs_PrivateKey dstSSH \<noteq> [] \<or> cs_PrivateKeyPath dstSSH \<noteq> [] then
            bind_res (map_err (KeyFailed ''destination'') (load_private_key_data env dstSSH)) (\<lambda>dstData.
            bind_res (map_err (KeyFailed ''destination'') (xe_parse_raw env dstData)) (\<lambda>dstRaw. Inr [raw, dstRaw]))
          else Inr [raw])))"

definition execute_agent_forward :: "rsync_env \<Rightarrow> rsync_executor \<Rightarrow> data_location \<Rightarrow> data_location
    \<Rightarrow> rsync_error option \<times> update list" where
  "execute_agent_forward env e src dst =
     (case xe_cancelled env of
        Some c \<Rightarrow> (Some (TransferCancelled c), [])
      | None \<Rightarrow>
          (case ssh_of src of
             None \<Rightarrow> (Some (SSHConfigRequired ''source''), [])
           | Some srcSSH \<Rightarrow>
               (case ssh_of dst of
                  None \<Rightarrow> (Some (SSHConfigRequired ''destination''), [])
                | Some dstSSH \<Rightarrow>
                    (case ensure_remote_dir env dstSSH (dl_Path dst) of
                       Some m \<Rightarrow> (Some (RemoteDirFailed m), [])
                     | None \<Rightarrow>
                         (case agent_keyring env srcSSH dstSSH of
                            Inl x \<Rightarrow> (Some x, [])
                          | Inr keyring \<Rightarrow>
                              (case build_remote_rsync_command e src dst dstSSH of
                                 Inl fe \<Rightarrow> (Some (FilterNotExpressible fe), [])
                               | Inr cmd \<Rightarrow> finish_rsync (xe_remote_rsync env srcSSH keyring cmd)))))))"

definition rsync_transfer :: "rsync_env \<Rightarrow> rsync_executor \<Rightarrow> data_location \<Rightarrow> data_location \<Rightarrow> string list
    \<Rightarrow> (rsync_error option \<times> update list) \<times> string list" where
  "rsync_transfer env e src dst keys =
     (case re_Mode e of
        ModePull \<Rightarrow> execute_pull env e src dst keys
      | ModePush \<Rightarrow> execute_push env e src dst keys
      | ModeAgentForward \<Rightarrow> (execute_agent_forward env e src dst, keys))"

section \<open>The parallel phase and the transfer\<close>

definition without_filter :: "data_location \<Rightarrow> data_location" where
  "without_filter loc = loc\<lparr>dl_Filter := None\<rparr>"

definition shard_executor :: "rsync_executor \<Rightarrow> rsync_executor" where
  "shard_executor e =
     e\<lparr>re_DeleteExtraneous := False, re_AdditionalArgs := re_AdditionalArgs e @ [''--from0'', ''--files-from=-'']\<rparr>"

text \<open>
  The shards run side by side. A shard starts, which writes its key file when it gets as far as
  running rsync, and later ends, which removes it; between the two other shards start and end as
  \<open>schedule\<close> says, a list of the shards that take their next step. Each runs in the environment it
  meets (the group's context is cancelled once one of them failed). The wait at the end lets every
  shard that is left take its steps.
\<close>

definition reaches_rsync :: "rsync_env \<Rightarrow> rsync_executor \<Rightarrow> data_location \<Rightarrow> bool" where
  "reaches_rsync env e dst \<longleftrightarrow>
     xe_cancelled env = None
     \<and> (case re_Mode e of
          ModePull \<Rightarrow> xe_mkdir env (dl_Path dst) = None
        | ModePush \<Rightarrow> (case ssh_of dst of None \<Rightarrow> True | Some cfg \<Rightarrow> ensure_remote_dir env cfg (dl_Path dst) = None)
        | ModeAgentForward \<Rightarrow> False)"

definition transfer_key :: "rsync_env \<Rightarrow> rsync_executor \<Rightarrow> data_location \<Rightarrow> data_location \<Rightarrow> string list \<Rightarrow> string option" where
  "transfer_key env e src dst keys = (if reaches_rsync env e dst then key_file_made env (re_Mode e) src dst keys else None)"

datatype shard_state =
    ShardWaiting
  | ShardRunning "rsync_error option \<times> update list" "string option"
  | ShardEnded "rsync_error option \<times> update list"

type_synonym shards = "shard_state list \<times> string list"

definition shard_step :: "rsync_executor \<Rightarrow> data_location \<Rightarrow> data_location \<Rightarrow> rsync_env list \<Rightarrow> nat \<Rightarrow> shards \<Rightarrow> shards" where
  "shard_step e src dst envs i sh =
     (case sh of (sts, keys) \<Rightarrow>
       if i \<ge> length sts then sh
       else (case sts ! i of
               ShardWaiting \<Rightarrow>
                 (let e = shard_executor e; src = without_filter src; dst = without_filter dst;
                      made = transfer_key (envs ! i) e src dst keys
                  in (sts[i := ShardRunning (fst (rsync_transfer (envs ! i) e src dst keys)) made],
                      case made of None \<Rightarrow> keys | Some f \<Rightarrow> f # keys))
             | ShardRunning r made \<Rightarrow> (sts[i := ShardEnded r], cleanup_temp_key_file made keys)
             | ShardEnded r \<Rightarrow> sh))"

definition shard_result :: "shard_state \<Rightarrow> rsync_error option \<times> update list" where
  "shard_result st = (case st of ShardWaiting \<Rightarrow> (None, []) | ShardRunning r made \<Rightarrow> r | ShardEnded r \<Rightarrow> r)"

definition run_shard_list :: "rsync_executor \<Rightarrow> data_location \<Rightarrow> data_location \<Rightarrow> nat list \<Rightarrow> rsync_env list \<Rightarrow> string list
    \<Rightarrow> (rsync_error option \<times> update list) list \<times> string list" where
  "run_shard_list e src dst schedule envs keys =
     (let n = length envs;
          (sts, keys1) = fold (shard_step e src dst envs) (schedule @ [0..<n] @ [0..<n]) (replicate n ShardWaiting, keys)
      in (map shard_result sts, keys1))"

definition rsync_execute ::
  "regexp_engine \<Rightarrow> (shard_note \<Rightarrow> string) \<Rightarrow> rsync_env \<Rightarrow> string + file_info list \<Rightarrow> rsync_env list \<Rightarrow> nat list
   \<Rightarrow> ((rsync_error option \<times> update list) list \<Rightarrow> (nat \<times> update) list) \<Rightarrow> rsync_executor \<Rightarrow> data_location \<Rightarrow> data_location \<Rightarrow> string list
   \<Rightarrow> (rsync_error option \<times> update list) \<times> string list" where
  "rsync_execute rx note env listing envs schedule mixed e src dst keys =
     (let plan = shard_plan (xe_concurrency env) (re_DryRun e) (dl_Filter src)
      in if fst plan \<le> 1 then
           (let ((err, us), keys1) = rsync_transfer env e src dst keys
            in ((err, concurrency_update 1 (note (snd plan)) # us), keys1))
         else
           (let (lists, m, why) = shard_lists rx (dl_Filter src) plan (concurrency_from (xe_concurrency env)) listing
            in if lists = [] then
                 (let ((err, us), keys1) = rsync_transfer env e src dst keys
                  in ((err, concurrency_update 1 (note why) # us), keys1))
               else
                 (let (rs, keys1) = run_shard_list e src dst schedule (take (length lists) envs) keys;
                      (sent, total_sum) = shard_reports (mixed rs) (new_shard_sum (length lists));
                      failed = (case find (\<lambda>r. fst r \<noteq> None) rs of
                                  None \<Rightarrow> []
                                | Some r \<Rightarrow> if xe_cancelled env = None then [concurrency_update 1 ''parallel phase failed''] else []);
                      ((err, us), keys2) = rsync_transfer env e src dst keys1
                  in ((err, concurrency_update m (note why) # sent @ failed @ map (offset_report total_sum) us), keys2))))"

section \<open>No key is left on disk\<close>

text \<open>\<open>os.CreateTemp\<close> makes a file that was not there.\<close>

definition fresh_keys :: "rsync_env \<Rightarrow> bool" where
  "fresh_keys env \<longleftrightarrow> (\<forall>keys. case xe_temp_key env keys of None \<Rightarrow> True | Some f \<Rightarrow> f \<notin> set keys)"

lemma run_local_keys: "fresh_keys env \<Longrightarrow> snd (run_local env e src dst keys) = keys"
proof -
  assume fresh: "fresh_keys env"
  have "f \<notin> set keys" if "key_file_made env (re_Mode e) src dst keys = Some f" for f
    using fresh [unfolded fresh_keys_def, rule_format, of keys] that
    by (auto simp: key_file_made_def split: option.splits if_splits)
  then show ?thesis
    by (auto simp: run_local_def Let_def cleanup_temp_key_file_def filter_id_conv split: option.split)
qed

lemma transfer_keys: "fresh_keys env \<Longrightarrow> snd (rsync_transfer env e src dst keys) = keys"
  by (auto simp: rsync_transfer_def execute_pull_def execute_push_def run_local_keys split: transfer_mode.split option.split)

text \<open>A shard writes one key file at most, and only it removes that file.\<close>

lemma transfer_key_fresh: "fresh_keys env \<Longrightarrow> transfer_key env e src dst keys = Some f \<Longrightarrow> f \<notin> set keys"
  using fresh_keys_def [of env] by (auto simp: transfer_key_def key_file_made_def split: option.splits if_splits)

text \<open>A transfer on its own writes that file and removes it.\<close>

lemma transfer_writes_its_key:
  "snd (rsync_transfer env e src dst keys) =
     (let made = transfer_key env e src dst keys in cleanup_temp_key_file made (case made of None \<Rightarrow> keys | Some f \<Rightarrow> f # keys))"
  by (auto simp: rsync_transfer_def execute_pull_def execute_push_def run_local_def transfer_key_def reaches_rsync_def Let_def
      cleanup_temp_key_file_def split: transfer_mode.split option.split)

definition held_key :: "shard_state \<Rightarrow> string option" where
  "held_key st = (case st of ShardRunning r made \<Rightarrow> made | _ \<Rightarrow> None)"

definition held_keys :: "shard_state list \<Rightarrow> string set" where
  "held_keys sts = {f. \<exists>i<length sts. held_key (sts ! i) = Some f}"

definition keys_kept :: "string list \<Rightarrow> shards \<Rightarrow> bool" where
  "keys_kept keys0 sh \<longleftrightarrow>
     (case sh of (sts, keys) \<Rightarrow>
        filter (\<lambda>k. k \<notin> held_keys sts) keys = keys0 \<and> held_keys sts \<subseteq> set keys
        \<and> (\<forall>i<length sts. \<forall>j<length sts. held_key (sts ! i) = held_key (sts ! j) \<and> held_key (sts ! i) \<noteq> None \<longrightarrow> i = j))"

lemma held_keys_update:
  assumes "i < length sts" and "\<And>j. j < length sts \<Longrightarrow> j \<noteq> i \<Longrightarrow> held_key (sts ! j) \<noteq> held_key (sts ! i) \<or> held_key (sts ! i) = None"
  shows "held_keys (sts[i := st]) = (held_keys sts - set_option (held_key (sts ! i))) \<union> set_option (held_key st)"
proof -
  have "f \<in> held_keys (sts[i := st]) \<longleftrightarrow> held_key st = Some f \<or> (\<exists>j<length sts. j \<noteq> i \<and> held_key (sts ! j) = Some f)" for f
    using assms(1) by (auto simp: held_keys_def nth_list_update)
  moreover have "f \<in> held_keys sts \<and> held_key (sts ! i) \<noteq> Some f \<longleftrightarrow> (\<exists>j<length sts. j \<noteq> i \<and> held_key (sts ! j) = Some f)" for f
    using assms by (auto simp: held_keys_def)
  ultimately show ?thesis by (auto simp: set_eq_iff)
qed

lemma shard_step_keys:
  assumes "keys_kept keys0 (sts, keys)" and "\<forall>env\<in>set envs. fresh_keys env" and "length envs = length sts"
  shows "keys_kept keys0 (shard_step e src dst envs i (sts, keys)) \<and> length (fst (shard_step e src dst envs i (sts, keys))) = length sts"
proof (cases "i < length sts")
  case False
  then show ?thesis using assms(1) by (simp add: shard_step_def)
next
  case True
  note kept = assms(1) [unfolded keys_kept_def prod.case]
  have apart: "held_key (sts ! j) \<noteq> held_key (sts ! i) \<or> held_key (sts ! i) = None" if "j < length sts" "j \<noteq> i" for j
    using kept that True by metis
  note held = held_keys_update [OF True apart]
  show ?thesis
  proof (cases "sts ! i")
    case ShardWaiting
    define made where "made = transfer_key (envs ! i) (shard_executor e) (without_filter src) (without_filter dst) keys"
    define st where "st = ShardRunning (fst (rsync_transfer (envs ! i) (shard_executor e) (without_filter src) (without_filter dst) keys)) made"
    have step: "shard_step e src dst envs i (sts, keys) = (sts[i := st], case made of None \<Rightarrow> keys | Some f \<Rightarrow> f # keys)"
      using True ShardWaiting by (simp add: shard_step_def made_def st_def Let_def)
    have h: "held_keys (sts[i := st]) = held_keys sts \<union> set_option made"
      using held [of st] by (simp add: ShardWaiting held_key_def st_def)
    have fresh: "f \<notin> set keys" if "made = Some f" for f
      using that assms(2,3) True transfer_key_fresh unfolding made_def by (metis nth_mem)
    have "filter (\<lambda>k. k \<notin> held_keys sts \<and> f \<noteq> k) keys = filter (\<lambda>k. k \<notin> held_keys sts) keys" if "made = Some f" for f
      using fresh [OF that] by (intro filter_cong) auto
    moreover have "held_key ((sts[i := st]) ! j) = held_key ((sts[i := st]) ! k) \<and> held_key ((sts[i := st]) ! j) \<noteq> None \<longrightarrow> j = k"
      if "j < length sts" "k < length sts" for j k
    proof -
      have "held_key (sts ! x) \<noteq> made \<or> made = None" if x: "x < length sts" for x
      proof (cases made)
        case (Some f)
        have "held_key (sts ! x) = Some f \<Longrightarrow> f \<in> set keys" using kept x by (auto simp: held_keys_def)
        then show ?thesis using fresh [OF Some] Some by auto
      qed simp
      moreover have "held_key (sts[i := st] ! x) = (if x = i then made else held_key (sts ! x))" if "x < length sts" for x
        using that by (simp add: nth_list_update) (simp add: held_key_def st_def)
      moreover have "held_key (sts ! j) = held_key (sts ! k) \<and> held_key (sts ! j) \<noteq> None \<longrightarrow> j = k"
        using kept that by blast
      ultimately show ?thesis using that by metis
    qed
    ultimately show ?thesis
      using kept by (auto simp: step keys_kept_def h split: option.split)
  next
    case (ShardRunning r made)
    have step: "shard_step e src dst envs i (sts, keys) = (sts[i := ShardEnded r], cleanup_temp_key_file made keys)"
      using True ShardRunning by (simp add: shard_step_def)
    have h: "held_keys (sts[i := ShardEnded r]) = held_keys sts - set_option made"
      using held [of "ShardEnded r"] by (simp add: ShardRunning held_key_def)
    have inside: "set_option made \<subseteq> held_keys sts" using True ShardRunning by (auto simp: held_keys_def held_key_def)
    have "filter (\<lambda>k. k \<notin> held_keys sts - set_option made) (cleanup_temp_key_file made keys) = filter (\<lambda>k. k \<notin> held_keys sts) keys"
      using inside by (cases made) (auto simp: cleanup_temp_key_file_def intro!: filter_cong)
    then have "filter (\<lambda>k. k \<notin> held_keys sts - set_option made) (cleanup_temp_key_file made keys) = keys0" using kept by (simp only:)
    moreover have "held_keys sts - set_option made \<subseteq> set (cleanup_temp_key_file made keys)"
      using kept by (auto simp: cleanup_temp_key_file_def split: option.split)
    moreover have "held_key ((sts[i := ShardEnded r]) ! j) = held_key ((sts[i := ShardEnded r]) ! k) \<and> held_key ((sts[i := ShardEnded r]) ! j) \<noteq> None \<longrightarrow> j = k"
      if "j < length sts" "k < length sts" for j k
      using kept that True by (auto simp: nth_list_update held_key_def [of "ShardEnded r"])
    ultimately show ?thesis unfolding step keys_kept_def prod.case h fst_conv length_list_update by blast
  next
    case (ShardEnded r)
    then show ?thesis using assms(1) True by (simp add: shard_step_def)
  qed
qed

lemma shard_steps_keys:
  "keys_kept keys0 (sts, keys) \<Longrightarrow> \<forall>env\<in>set envs. fresh_keys env \<Longrightarrow> length envs = length sts \<Longrightarrow>
   keys_kept keys0 (fold (shard_step e src dst envs) is (sts, keys)) \<and> length (fst (fold (shard_step e src dst envs) is (sts, keys))) = length sts"
proof (induction "is" arbitrary: sts keys)
  case (Cons i "is")
  obtain sts1 keys1 where step: "shard_step e src dst envs i (sts, keys) = (sts1, keys1)" by (meson surj_pair)
  then show ?case using shard_step_keys [OF Cons.prems, of e src dst i] Cons.IH [of sts1 keys1] Cons.prems by simp
qed simp

text \<open>Two steps end a shard.\<close>

definition steps_taken :: "shard_state \<Rightarrow> nat" where
  "steps_taken st = (case st of ShardWaiting \<Rightarrow> 0 | ShardRunning r made \<Rightarrow> 1 | ShardEnded r \<Rightarrow> 2)"

lemma shard_step_taken:
  "j < length sts \<Longrightarrow> steps_taken (fst (shard_step e src dst envs i (sts, keys)) ! j) = (if i = j then min 2 (Suc (steps_taken (sts ! j))) else steps_taken (sts ! j))
   \<and> length (fst (shard_step e src dst envs i (sts, keys))) = length sts"
  by (cases "sts ! i") (auto simp: shard_step_def steps_taken_def Let_def nth_list_update)

lemma steps_le_two: "steps_taken st \<le> 2"
  by (cases st) (simp_all add: steps_taken_def)

lemma shard_steps_taken:
  "j < length sts \<Longrightarrow> steps_taken (fst (fold (shard_step e src dst envs) is (sts, keys)) ! j) = min 2 (steps_taken (sts ! j) + count_list is j)"
proof (induction "is" arbitrary: sts keys)
  case Nil
  then show ?case using steps_le_two [of "sts ! j"] by simp
next
  case (Cons i "is")
  obtain sts1 keys1 where step: "shard_step e src dst envs i (sts, keys) = (sts1, keys1)" by (meson surj_pair)
  then show ?case using shard_step_taken [OF Cons.prems, of e src dst envs i keys] Cons.IH [of sts1 keys1] Cons.prems by auto
qed

lemma shard_list_keys:
  assumes "\<forall>env\<in>set envs. fresh_keys env"
  shows "snd (run_shard_list e src dst schedule envs keys) = keys"
proof -
  let ?n = "length envs" and ?waiting = "replicate (length envs) ShardWaiting"
  let ?is = "schedule @ [0..<?n] @ [0..<?n]"
  obtain sts keys1 where run: "fold (shard_step e src dst envs) ?is (?waiting, keys) = (sts, keys1)" by (meson surj_pair)
  have "keys_kept keys (?waiting, keys)" by (auto simp: keys_kept_def held_keys_def held_key_def)
  from shard_steps_keys [OF this assms, of e src dst ?is] have kept: "keys_kept keys (sts, keys1)" "length sts = ?n"
    unfolding run by simp_all
  have "held_key (sts ! j) = None" if "j < length sts" for j
  proof -
    have "count_list [0..<?n] j = 1" using that kept(2) by (simp add: count_list_eq_length_filter distinct_length_filter) 
    then have "steps_taken (sts ! j) = 2"
      using shard_steps_taken [of j ?waiting e src dst envs ?is keys] that kept(2) unfolding run by simp
    then show ?thesis by (cases "sts ! j") (simp_all add: steps_taken_def held_key_def)
  qed
  then have "held_keys sts = {}" by (auto simp: held_keys_def)
  then have "keys1 = keys" using kept(1) by (simp add: keys_kept_def)
  then show ?thesis using run by (simp add: run_shard_list_def)
qed

text \<open>
  C33: However a transfer ends (cancelled, a directory that cannot be made, filters rsync cannot
  express, a process that fails to start or ends in an error, shards that fail, or a clean end),
  the temporary private key files on disk afterwards are those that were there before: no key
  written for a shard or for the final run is left behind, nor one of another transfer removed,
  in whatever order the shards that run side by side start and end. The hypotheses say that a
  temporary file gets a name no file has. Removing a file is taken to work: the code ignores an
  error of \<open>os.Remove\<close>.
\<close>

theorem no_key_is_left_on_disk:
  assumes "fresh_keys env"
    and "\<forall>sh\<in>set envs. fresh_keys sh"
  shows "snd (rsync_execute rx note env listing envs schedule mixed e src dst keys) = keys"
proof -
  have run: "snd (rsync_transfer env e src dst keys) = keys"
    using assms(1) by (rule transfer_keys)
  have shards: "snd (run_shard_list e src dst schedule (take n envs) keys) = keys" for n
    using assms(2) by (intro shard_list_keys) (auto dest: in_set_takeD)
  show ?thesis
    unfolding rsync_execute_def Let_def
    using run shards by (auto simp: case_prod_beta)
qed

definition keys_env :: rsync_env where
  "keys_env =
     \<lparr>xe_cancelled = None, xe_concurrency = Some 4, xe_mkdir = (\<lambda>_. None),
      xe_temp_key = (\<lambda>keys. Some (''key'' @ concat keys)),
      xe_read_file = (\<lambda>_. Inl ''no such file''), xe_parse_signer = (\<lambda>_. None), xe_parse_raw = Inr,
      xe_remote_command = (\<lambda>_ _ _. None),
      xe_local_rsync = (\<lambda>_. Inr ([OutLine ''a.txt''], Some ''exit status 23'')),
      xe_remote_rsync = (\<lambda>_ _ _. Inl ''unused'')\<rparr>"

lemma member_not_longer: "x \<in> set xs \<Longrightarrow> length x \<le> length (concat xs)"
  by (auto simp: length_concat intro: member_le_sum_list)

lemma keys_env_fresh: "fresh_keys keys_env"
proof -
  have "''key'' @ concat keys \<notin> set keys" for keys
    using member_not_longer [of "''key'' @ concat keys" keys] by auto
  then show ?thesis by (simp add: fresh_keys_def keys_env_def)
qed

theorem no_key_is_left_on_disk_witness:
  "key_file_made keys_env ModePull checked_tree checked_tree [''other''] = Some ''keyother''
   \<and> snd (rsync_execute (\<lambda>_ _. False) (\<lambda>_. []) keys_env (Inl ''gone'') [keys_env] [] (\<lambda>_. []) (plain_executor\<lparr>re_Mode := ModePull\<rparr>)
       checked_tree checked_tree [''other'']) = [''other'']"
proof
  show "key_file_made keys_env ModePull checked_tree checked_tree [''other''] = Some ''keyother''"
    by (simp add: key_file_made_def side_ssh_def keys_env_def checked_tree_def checked_host_def)
  show "snd (rsync_execute (\<lambda>_ _. False) (\<lambda>_. []) keys_env (Inl ''gone'') [keys_env] [] (\<lambda>_. []) (plain_executor\<lparr>re_Mode := ModePull\<rparr>)
      checked_tree checked_tree [''other'']) = [''other'']"
    by (rule no_key_is_left_on_disk) (simp_all add: keys_env_fresh)
qed

end
