(* ===== verification/SqlText.thy ===== *)
theory SqlText
  imports FileCheck
begin

text \<open>
  Reading SQL text as the drivers do, \<open>data-mig/dbmsx/driver/base/statement.go\<close>: quoted
  identifiers, the object a statement acts on, the comments a dump writes above it, and the
  folding of case that keyword tests use.
\<close>

section \<open>Case\<close>

text \<open>
  \<open>strings.ToUpper\<close> where it matters to the code, which looks for ASCII keywords in the result: the
  ASCII letters, and the two other letters whose upper case is ASCII, a dotless i and a long s.
\<close>

definition upper_char :: "char \<Rightarrow> char" where
  "upper_char c = (let n = of_char c :: nat in if 97 \<le> n \<and> n \<le> 122 then char_of (n - 32) else c)"

fun to_upper :: "string \<Rightarrow> string" where
  "to_upper [] = []"
| "to_upper [c] = [upper_char c]"
| "to_upper (c # d # s) =
     (if c = CHR 0xC4 \<and> d = CHR 0xB1 then CHR ''I'' # to_upper s
      else if c = CHR 0xC5 \<and> d = CHR 0xBF then CHR ''S'' # to_upper s
      else upper_char c # to_upper (d # s))"

text \<open>
  A keyword at the front of a text, compared without case as \<open>strings.EqualFold\<close> and \<open>(?i)\<close> do: the
  long s folds with s and the Kelvin sign with k. The result is what follows the keyword.
\<close>

definition fold_letter :: "char \<Rightarrow> string \<Rightarrow> string option" where
  "fold_letter k s =
     (case s of
        [] \<Rightarrow> None
      | c # t \<Rightarrow>
          (if lower_char c = lower_char k then Some t
           else if lower_char k = CHR ''s'' \<and> has_prefix s [CHR 0xC5, CHR 0xBF] then Some (drop 2 s)
           else if lower_char k = CHR ''k'' \<and> has_prefix s [CHR 0xE2, CHR 0x84, CHR 0xAA] then Some (drop 3 s)
           else None))"

fun fold_prefix :: "string \<Rightarrow> string \<Rightarrow> string option" where
  "fold_prefix [] s = Some s"
| "fold_prefix (k # ks) s = Option.bind (fold_letter k s) (fold_prefix ks)"

definition fold_equal :: "string \<Rightarrow> string \<Rightarrow> bool" where
  "fold_equal s keyword \<longleftrightarrow> fold_prefix keyword s = Some []"

section \<open>Quoted identifiers\<close>

abbreviation backtick :: char where "backtick \<equiv> CHR 0x60"

abbreviation is_quote :: "char \<Rightarrow> bool" where
  "is_quote c \<equiv> c = backtick \<or> c = squote \<or> c = dquote"

text \<open>\<open>QuoteMySQLIdent\<close> and \<open>pgQuoteIdent\<close> differ in the quote alone.\<close>

definition quote_with :: "char \<Rightarrow> string \<Rightarrow> string" where
  "quote_with q s = [q] @ replace_char q [q, q] s @ [q]"

definition quote_mysql_ident :: "string \<Rightarrow> string" where
  "quote_mysql_ident s = quote_with backtick s"

definition pg_qualify_ident :: "string \<Rightarrow> string \<Rightarrow> string" where
  "pg_qualify_ident schema name =
     (if schema = [] then pg_quote_ident name else pg_quote_ident schema @ ''.'' @ pg_quote_ident name)"

text \<open>\<open>strings.ReplaceAll\<close> of a doubled quote by one.\<close>

fun undouble :: "char \<Rightarrow> string \<Rightarrow> string" where
  "undouble q (a # b # s) = (if a = q \<and> b = q then q # undouble q s else a # undouble q (b # s))"
| "undouble q s = s"

definition unquote_ident :: "string \<Rightarrow> string" where
  "unquote_ident s =
     (if length s \<ge> 2 \<and> is_quote (hd s) \<and> last s = hd s then undouble (hd s) (butlast (tl s)) else s)"

text \<open>The last dot outside quotes: \<open>i\<close> is the position, \<open>q\<close> the quote that is open.\<close>

fun last_dot :: "nat \<Rightarrow> char option \<Rightarrow> nat option \<Rightarrow> string \<Rightarrow> nat option" where
  "last_dot i q dot [] = dot"
| "last_dot i (Some k) dot (c # s) = last_dot (Suc i) (if c = k then None else Some k) dot s"
| "last_dot i None dot (c # s) =
     (if is_quote c then last_dot (Suc i) (Some c) dot s
      else if c = CHR ''.'' then last_dot (Suc i) None (Some i) s
      else last_dot (Suc i) None dot s)"

definition split_qualified_ident :: "string \<Rightarrow> string \<times> string" where
  "split_qualified_ident tok =
     (let tok = trim_right_char (CHR '','') tok
      in case last_dot 0 None None tok of
           None \<Rightarrow> ([], unquote_ident tok)
         | Some i \<Rightarrow> (unquote_ident (take i tok), unquote_ident (drop (Suc i) tok)))"

section \<open>Tokens\<close>

abbreviation flushed :: "string \<Rightarrow> string list" where
  "flushed cur \<equiv> (if cur = [] then [] else [cur])"

text \<open>\<open>n\<close> is how many tokens may still be read, \<open>cur\<close> the token being read.\<close>

fun sql_tokens_from :: "nat \<Rightarrow> char option \<Rightarrow> string \<Rightarrow> string \<Rightarrow> string list" where
  "sql_tokens_from n q cur [] = flushed cur"
| "sql_tokens_from n (Some k) cur (c # s) =
     (if n = 0 then flushed cur
      else sql_tokens_from n (if c = k then None else Some k) (cur @ [c]) s)"
| "sql_tokens_from n None cur (c # s) =
     (if n = 0 then flushed cur
      else if is_quote c then sql_tokens_from n (Some c) (cur @ [c]) s
      else if c \<in> {CHR '' '', tab, carriage, newline} then
        (if cur = [] then sql_tokens_from n None [] s else cur # sql_tokens_from (n - 1) None [] s)
      else if c \<in> {CHR ''('', CHR '';''} then flushed cur
      else sql_tokens_from n None (cur @ [c]) s)"

definition sql_tokens :: "string \<Rightarrow> nat \<Rightarrow> string list" where
  "sql_tokens s limit = sql_tokens_from limit None [] s"

section \<open>The object a statement acts on\<close>

record statement_subject =
  ss_Kind :: string
  ss_Owner :: string
  ss_Name :: string
  ss_Action :: string

definition no_subject :: statement_subject where
  "no_subject = \<lparr>ss_Kind = [], ss_Owner = [], ss_Name = [], ss_Action = []\<rparr>"

definition recognised :: "statement_subject \<Rightarrow> bool" where
  "recognised s \<longleftrightarrow> ss_Kind s \<noteq> []"

definition statement_kinds :: "(string \<times> string) list" where
  "statement_kinds =
     [(''TABLE'', ''table''), (''VIEW'', ''view''), (''FUNCTION'', ''function''), (''PROCEDURE'', ''procedure''),
      (''TRIGGER'', ''trigger''), (''EVENT'', ''event''), (''INDEX'', ''index''), (''SEQUENCE'', ''sequence''),
      (''TYPE'', ''type''), (''EXTENSION'', ''extension''), (''RULE'', ''rule''), (''DATABASE'', ''database''),
      (''SCHEMA'', ''database''), (''COLLECTION'', ''validator'')]"

text \<open>\<open>skipExistenceClause\<close> on the tokens from its position on.\<close>

definition skip_keyword :: "string \<Rightarrow> string list \<Rightarrow> string list" where
  "skip_keyword k toks = (case toks of t # ts \<Rightarrow> if fold_equal t k then ts else toks | [] \<Rightarrow> [])"

definition skip_existence_clause :: "string list \<Rightarrow> string list" where
  "skip_existence_clause toks =
     (case toks of
        [] \<Rightarrow> []
      | t # ts \<Rightarrow> if fold_equal t ''IF'' then skip_keyword ''EXISTS'' (skip_keyword ''NOT'' ts) else toks)"

fun subject_after :: "string option \<Rightarrow> string list \<Rightarrow> string \<Rightarrow> statement_subject" where
  "subject_after before [] action = no_subject"
| "subject_after before (tok # toks) action =
     (case map_of statement_kinds (to_upper tok) of
        None \<Rightarrow> subject_after (Some tok) toks action
      | Some kind \<Rightarrow>
          (let kind = (case before of
                         Some b \<Rightarrow> if kind = ''view'' \<and> fold_equal b ''MATERIALIZED'' then ''materialized_view'' else kind
                       | None \<Rightarrow> kind);
               (owner, name) = (case skip_existence_clause toks of [] \<Rightarrow> ([], []) | t # _ \<Rightarrow> split_qualified_ident t)
           in \<lparr>ss_Kind = kind, ss_Owner = owner, ss_Name = name, ss_Action = action\<rparr>))"

definition subject_after_keyword :: "string list \<Rightarrow> string \<Rightarrow> statement_subject" where
  "subject_after_keyword toks action = subject_after None toks action"

definition rows_of :: "string \<times> string \<Rightarrow> statement_subject" where
  "rows_of on = \<lparr>ss_Kind = ''table'', ss_Owner = fst on, ss_Name = snd on, ss_Action = ''insert''\<rparr>"

text \<open>The token after the first \<open>keyword\<close> that has one.\<close>

fun token_after :: "string \<Rightarrow> string list \<Rightarrow> string option" where
  "token_after keyword (a # b # ts) = (if to_upper a = keyword then Some b else token_after keyword (b # ts))"
| "token_after keyword ts = None"

text \<open>\<open>versionCommentOpen\<close>, the opening of a version gate.\<close>

definition is_digit :: "char \<Rightarrow> bool" where
  "is_digit c \<longleftrightarrow> 48 \<le> (of_char c :: nat) \<and> (of_char c :: nat) \<le> 57"

definition is_re_space :: "char \<Rightarrow> bool" where
  "is_re_space c \<longleftrightarrow> c \<in> {tab, newline, CHR 0x0C, carriage, CHR '' ''}"

definition open_version_comment :: "string \<Rightarrow> string" where
  "open_version_comment s =
     (if has_prefix s ''/*!'' then dropWhile is_re_space (dropWhile is_digit (drop 3 s)) else s)"

definition statementTokenLimit :: nat where "statementTokenLimit = 16"

definition classify_statement :: "string \<Rightarrow> statement_subject" where
  "classify_statement stmt =
     (let toks = sql_tokens (open_version_comment (trim_space stmt)) statementTokenLimit
      in case toks of
           [] \<Rightarrow> no_subject
         | t # ts \<Rightarrow>
             (let verb = to_upper t
              in if verb = ''INSERT'' \<or> verb = ''REPLACE'' then
                   rows_of (case token_after ''INTO'' ts of None \<Rightarrow> ([], []) | Some x \<Rightarrow> split_qualified_ident x)
                 else if verb = ''COPY'' then
                   rows_of (case ts of [] \<Rightarrow> ([], []) | x # _ \<Rightarrow> split_qualified_ident x)
                 else if verb = ''CREATE'' then subject_after_keyword ts ''create''
                 else if verb = ''DROP'' then subject_after_keyword ts ''drop''
                 else if verb = ''ALTER'' then
                   (case (if list_ex (\<lambda>x. fold_equal x ''FOREIGN'') toks then token_after ''CONSTRAINT'' ts else None) of
                      Some x \<Rightarrow> (let (owner, name) = split_qualified_ident x
                                 in \<lparr>ss_Kind = ''foreign_key'', ss_Owner = owner, ss_Name = name, ss_Action = ''create''\<rparr>)
                    | None \<Rightarrow> subject_after_keyword ts ''alter'')
                 else no_subject))"

section \<open>Comments above a statement\<close>

definition is_line_space :: "char \<Rightarrow> bool" where
  "is_line_space c \<longleftrightarrow> c \<in> {CHR '' '', tab, carriage, newline}"

function strip_leading_comments :: "string \<Rightarrow> string" where
  "strip_leading_comments stmt =
     (let trimmed = dropWhile is_line_space stmt
      in if \<not> has_prefix trimmed ''--'' then trim_space trimmed
         else (case cut_char newline trimmed of
                 None \<Rightarrow> []
               | Some (c, rest) \<Rightarrow> strip_leading_comments rest))"
  by pat_completeness auto
termination
proof (relation "measure length")
  fix stmt trimmed p c rest
  assume "trimmed = dropWhile is_line_space stmt" "\<not> \<not> has_prefix trimmed ''--''"
    "cut_char newline trimmed = Some p" "(c, rest) = p"
  then have "length rest < length trimmed" by (auto simp: cut_char_Some)
  also have "length trimmed \<le> length stmt" using \<open>trimmed = _\<close> by (simp add: length_dropWhile_le)
  finally show "(rest, stmt) \<in> measure length" by simp
qed simp

declare strip_leading_comments.simps [simp del]

section \<open>The error of a failed statement\<close>

definition truncate_statement :: "string \<Rightarrow> nat \<Rightarrow> string" where
  "truncate_statement stmt limit = (if length stmt \<le> limit then stmt else take limit stmt @ ''...'')"

datatype restore_failure =
    StatementAt int int string string
  | StatementOn string string string string int int string

definition statementSnippet :: nat where "statementSnippet = 120"

definition restore_statement_error :: "string \<Rightarrow> string \<Rightarrow> int \<Rightarrow> int \<Rightarrow> string \<Rightarrow> restore_failure" where
  "restore_statement_error owner stmt index total_stmts err =
     (let subject = classify_statement stmt; owner = (if ss_Owner subject \<noteq> [] then ss_Owner subject else owner)
      in if \<not> recognised subject then
           StatementAt index (if total_stmts > 0 then total_stmts else 0) (truncate_statement stmt statementSnippet) err
         else StatementOn (ss_Kind subject) owner (ss_Name subject) (ss_Action subject) index total_stmts err)"

section \<open>Quoting round-trips\<close>

lemma replace_char_Nil [simp]: "replace_char c new [] = []"
  by (simp add: replace_char_def)

lemma replace_char_Cons [simp]: "replace_char c new (x # s) = (if x = c then new else [x]) @ replace_char c new s"
  by (simp add: replace_char_def)

lemma undouble_ordinary: "x \<noteq> q \<Longrightarrow> undouble q (x # s) = x # undouble q s"
  by (cases s) auto

lemma undouble_doubled: "undouble q (replace_char q [q, q] s) = s"
  by (induction s) (simp_all add: undouble_ordinary)

lemma unquote_quote: "is_quote q \<Longrightarrow> unquote_ident (quote_with q s) = s"
  by (auto simp: unquote_ident_def quote_with_def undouble_doubled)

lemma last_dot_in_quotes:
  "is_quote q \<Longrightarrow> last_dot i (Some q) dot (replace_char q [q, q] s @ q # r) = last_dot (i + length (replace_char q [q, q] s) + 1) None dot r"
  by (induction s arbitrary: i) auto

lemma last_dot_quoted:
  "is_quote q \<Longrightarrow> last_dot i None dot (quote_with q s @ r) = last_dot (i + length (quote_with q s)) None dot r"
  by (auto simp: quote_with_def last_dot_in_quotes)

lemma trim_quoted: "is_quote q \<Longrightarrow> trim_right_char (CHR '','') (p @ quote_with q s) = p @ quote_with q s"
  by (rule trim_right_char_id) (auto simp: quote_with_def)

lemma split_bare_quoted: "is_quote q \<Longrightarrow> split_qualified_ident (quote_with q s) = ([], s)"
  using trim_quoted [of q "[]" s] last_dot_quoted [of q 0 None s "[]"]
  by (simp add: split_qualified_ident_def unquote_quote)

lemma split_qualified_quoted:
  assumes "is_quote q"
  shows "split_qualified_ident (quote_with q a @ ''.'' @ quote_with q b) = (a, b)"
proof -
  have "last_dot 0 None None (quote_with q a @ CHR ''.'' # quote_with q b) = Some (length (quote_with q a))"
    using last_dot_quoted [OF assms, of 0 None a "CHR ''.'' # quote_with q b"]
      last_dot_quoted [OF assms, of "Suc (length (quote_with q a))" "Some (length (quote_with q a))" b "[]"]
    by simp
  then show ?thesis
    using trim_quoted [OF assms, of "quote_with q a @ ''.''" b]
    by (simp add: split_qualified_ident_def unquote_quote assms)
qed

lemma pg_quote_as_quote_with: "pg_quote_ident name = quote_with dquote name"
  by (simp add: pg_quote_ident_def quote_with_def)

text \<open>A name the PostgreSQL dump writes is read back as the pair it was written from.\<close>

lemma pg_qualified_read_back: "split_qualified_ident (pg_qualify_ident schema name) = (schema, name)"
  using split_qualified_quoted [of dquote schema name] split_bare_quoted [of dquote name]
  by (simp add: pg_qualify_ident_def pg_quote_as_quote_with)

lemma mysql_ident_read_back: "split_qualified_ident (quote_mysql_ident name) = ([], name)"
  by (simp add: quote_mysql_ident_def split_bare_quoted)

section \<open>A statement is reported by the object it acts on\<close>

lemma tokens_in_quotes:
  "0 < n \<Longrightarrow> is_quote q \<Longrightarrow> sql_tokens_from n (Some q) cur (replace_char q [q, q] s @ q # r)
     = sql_tokens_from n None (cur @ replace_char q [q, q] s @ [q]) r"
  by (induction s arbitrary: cur) auto

lemma tokens_quoted:
  "0 < n \<Longrightarrow> is_quote q \<Longrightarrow> sql_tokens_from n None cur (quote_with q s @ r) = sql_tokens_from n None (cur @ quote_with q s) r"
  by (auto simp: quote_with_def tokens_in_quotes)

lemma tokens_qualified:
  assumes "0 < n"
  shows "sql_tokens_from n None [] (pg_qualify_ident schema name @ CHR '' '' # r)
    = pg_qualify_ident schema name # sql_tokens_from (n - 1) None [] r"
proof -
  have "quote_with dquote x \<noteq> []" for x by (simp add: quote_with_def)
  then show ?thesis
    using assms by (simp add: pg_qualify_ident_def pg_quote_as_quote_with tokens_quoted)
qed

definition plain_char :: "char \<Rightarrow> bool" where
  "plain_char c \<longleftrightarrow> \<not> is_quote c \<and> c \<notin> {CHR '' '', tab, carriage, newline} \<and> c \<notin> {CHR ''('', CHR '';''}"

lemma tokens_word:
  "0 < n \<Longrightarrow> list_all plain_char w \<Longrightarrow> sql_tokens_from n None cur (w @ r) = sql_tokens_from n None (cur @ w) r"
  by (induction w arbitrary: cur) (auto simp: plain_char_def)

lemma tokens_word_blank:
  "0 < n \<Longrightarrow> list_all plain_char w \<Longrightarrow> w \<noteq> [] \<Longrightarrow> sql_tokens_from n None [] (w @ CHR '' '' # r) = w # sql_tokens_from (n - 1) None [] r"
  by (simp add: tokens_word)

lemma trim_space_unchanged_head: "trim_space (c # s) = c # s \<Longrightarrow> c \<noteq> CHR ''/'' \<Longrightarrow> open_version_comment (trim_space (c # s)) = c # s"
  by (simp add: open_version_comment_def)

lemma quoted_is_not_if: "\<not> fold_equal (dquote # s) ''IF''"
proof -
  have "lower_char (CHR ''I'') = CHR ''i''" "lower_char dquote = dquote" by code_simp+
  then show ?thesis by (simp add: fold_equal_def fold_letter_def)
qed

lemma create_table_subject:
  assumes "trim_space (''CREATE TABLE '' @ pg_qualify_ident schema name @ '' '' @ body) = ''CREATE TABLE '' @ pg_qualify_ident schema name @ '' '' @ body"
  shows "classify_statement (''CREATE TABLE '' @ pg_qualify_ident schema name @ '' '' @ body)
    = \<lparr>ss_Kind = ''table'', ss_Owner = schema, ss_Name = name, ss_Action = ''create''\<rparr>"
proof -
  let ?rest = "sql_tokens_from 13 None [] body"
  have head: "list_all plain_char ''CREATE''" "list_all plain_char ''TABLE''" by (simp_all add: plain_char_def)
  have "sql_tokens (''CREATE TABLE '' @ pg_qualify_ident schema name @ '' '' @ body) 16
      = ''CREATE'' # ''TABLE'' # pg_qualify_ident schema name # ?rest"
    using tokens_word_blank [OF _ head(1), of 16] tokens_word_blank [OF _ head(2), of 15] tokens_qualified [of 14]
    by (simp add: sql_tokens_def)
  moreover have "skip_existence_clause (pg_qualify_ident schema name # ?rest) = pg_qualify_ident schema name # ?rest"
    by (simp add: skip_existence_clause_def quoted_is_not_if pg_qualify_ident_def pg_quote_ident_def)
  ultimately show ?thesis
    using assms
    by (simp add: classify_statement_def statementTokenLimit_def open_version_comment_def subject_after_keyword_def
        statement_kinds_def upper_char_def pg_qualified_read_back)
qed

lemma copy_subject:
  assumes "trim_space (''COPY '' @ pg_qualify_ident schema name @ '' '' @ body) = ''COPY '' @ pg_qualify_ident schema name @ '' '' @ body"
  shows "classify_statement (''COPY '' @ pg_qualify_ident schema name @ '' '' @ body)
    = \<lparr>ss_Kind = ''table'', ss_Owner = schema, ss_Name = name, ss_Action = ''insert''\<rparr>"
proof -
  have head: "list_all plain_char ''COPY''" by (simp add: plain_char_def)
  have "sql_tokens (''COPY '' @ pg_qualify_ident schema name @ '' '' @ body) 16
      = ''COPY'' # pg_qualify_ident schema name # sql_tokens_from 14 None [] body"
    using tokens_word_blank [OF _ head(1), of 16] tokens_qualified [of 15] by (simp add: sql_tokens_def)
  then show ?thesis
    using assms
    by (simp add: classify_statement_def statementTokenLimit_def open_version_comment_def rows_of_def
        upper_char_def pg_qualified_read_back)
qed

text \<open>
  A CREATE TABLE or COPY statement of a PostgreSQL dump that the target refuses is reported by
  the table it acts on: its schema and name come back exactly as they were before quoting, whatever
  characters they hold (dots, blanks, quotes, semicolons), and a statement without a schema is
  reported under the database. The hypotheses say that the statement carries no surrounding blanks,
  as the splitter hands it over.
\<close>

lemma failed_statement_names_its_table:
  assumes "trim_space (''CREATE TABLE '' @ pg_qualify_ident schema name @ '' '' @ cols) = ''CREATE TABLE '' @ pg_qualify_ident schema name @ '' '' @ cols"
    and "trim_space (''COPY '' @ pg_qualify_ident schema name @ '' '' @ rest) = ''COPY '' @ pg_qualify_ident schema name @ '' '' @ rest"
  shows "restore_statement_error db (''CREATE TABLE '' @ pg_qualify_ident schema name @ '' '' @ cols) i n err
      = StatementOn ''table'' (if schema = [] then db else schema) name ''create'' i n err
    \<and> restore_statement_error db (''COPY '' @ pg_qualify_ident schema name @ '' '' @ rest) i n err
      = StatementOn ''table'' (if schema = [] then db else schema) name ''insert'' i n err"
  using create_table_subject [OF assms(1)] copy_subject [OF assms(2)]
  by (simp add: restore_statement_error_def recognised_def)

lemma failed_statement_names_its_table_witness:
  "restore_statement_error ''app'' (''CREATE TABLE '' @ pg_qualify_ident ''sa.les'' [CHR ''o'', dquote, CHR '' '', CHR '';''] @ '' '' @ ''(id int);'') 3 9 ''exists''
     = StatementOn ''table'' ''sa.les'' [CHR ''o'', dquote, CHR '' '', CHR '';''] ''create'' 3 9 ''exists''
   \<and> restore_statement_error ''app'' (''COPY '' @ pg_qualify_ident ''sa.les'' [CHR ''o'', dquote, CHR '' '', CHR '';''] @ '' '' @ ''FROM STDIN;'') 3 9 ''exists''
     = StatementOn ''table'' ''sa.les'' [CHR ''o'', dquote, CHR '' '', CHR '';''] ''insert'' 3 9 ''exists''"
proof -
  have trims: "trim_space (CHR ''C'' # s @ '';'') = CHR ''C'' # s @ '';''" for s
    by (rule trim_space_printable) (simp add: printable_def)
  show ?thesis
    using failed_statement_names_its_table [of "''sa.les''" "[CHR ''o'', dquote, CHR '' '', CHR '';'']" "''(id int);''" "''FROM STDIN;''" "''app''" 3 9 "''exists''"]
      trims [of "''REATE TABLE '' @ pg_qualify_ident ''sa.les'' [CHR ''o'', dquote, CHR '' '', CHR '';''] @ '' (id int)''"]
      trims [of "''OPY '' @ pg_qualify_ident ''sa.les'' [CHR ''o'', dquote, CHR '' '', CHR '';''] @ '' FROM STDIN''"]
    by simp
qed

text \<open>A comment block above a statement goes, and the statement below it stays.\<close>

lemma comments_above_are_dropped:
  assumes "list_all (\<lambda>c. newline \<notin> set c) cs" and "\<not> has_prefix (dropWhile is_line_space stmt) ''--''"
  shows "strip_leading_comments (concat (map (\<lambda>c. ''--'' @ c @ [newline]) cs) @ stmt) = trim_space (dropWhile is_line_space stmt)"
  using assms(1)
proof (induction cs)
  case Nil
  show ?case using assms(2) by (simp add: strip_leading_comments.simps [of stmt] Let_def)
next
  case (Cons c cs)
  have "cut_char newline (''--'' @ c @ newline # r) = Some (''--'' @ c, r)" for r
    using Cons.prems cut_char_first [of newline "''--'' @ c" r] by simp
  then show ?case
    using Cons strip_leading_comments.simps [of "''--'' @ c @ newline # concat (map (\<lambda>c. ''--'' @ c @ [newline]) cs) @ stmt"]
    by (simp add: is_line_space_def)
qed

end
