(* ===== verification/PgSplit.thy ===== *)
theory PgSplit
  imports SqlText
begin

text \<open>
  Reading a PostgreSQL dump statement by statement, \<open>eachPGStatement\<close> and its helpers of
  \<open>data-mig/dbmsx/driver/postgresql/postgresql.go\<close>: dollar-quoted bodies, psql's own commands and
  the rows of COPY blocks; and the text of those rows as \<open>dumpDataViaSQL\<close> writes it.
\<close>

section \<open>Lines\<close>

text \<open>
  What the scanner gives: the lines it reads, each without its newline and one carriage return
  before it, and the fault that ends it, if one does: a read error, or a line past the limit.
\<close>

definition drop_carriage :: "string \<Rightarrow> string" where
  "drop_carriage l = (if l \<noteq> [] \<and> last l = carriage then butlast l else l)"

fun cut_lines :: "string \<Rightarrow> string list" where
  "cut_lines s = (let ls = split_char newline s in if last ls = [] then butlast ls else ls)"

datatype scan_fault = LineTooLong | ReadFault string

definition dump_lines :: "nat \<Rightarrow> string \<Rightarrow> scan_fault option \<Rightarrow> string list \<times> scan_fault option" where
  "dump_lines limit text fault =
     (let ls = cut_lines text; ok = takeWhile (\<lambda>l. length l < limit) ls
      in (map drop_carriage ok, if length ok < length ls then Some LineTooLong else fault))"

definition MaxStatementLine :: nat where "MaxStatementLine = 268435456"

section \<open>Dollar quotes and COPY headers\<close>

definition is_tag_char :: "char \<Rightarrow> bool" where
  "is_tag_char c \<longleftrightarrow> (let n = of_char c :: nat in (65 \<le> n \<and> n \<le> 90) \<or> (97 \<le> n \<and> n \<le> 122) \<or> n = 95 \<or> (48 \<le> n \<and> n \<le> 57))"

text \<open>\<open>pgDollarTagRe\<close> at the front of a text, and its first match in one, with what follows.\<close>

definition dollar_tag_here :: "string \<Rightarrow> string option" where
  "dollar_tag_here s =
     (case s of
        [] \<Rightarrow> None
      | c # t \<Rightarrow>
          (let w = takeWhile is_tag_char t
           in if c = CHR ''$'' \<and> has_prefix (drop (length w) t) ''$'' \<and> (w = [] \<or> \<not> is_digit (hd w))
              then Some (''$'' @ w @ ''$'') else None))"

fun find_dollar_quote :: "string \<Rightarrow> (string \<times> string) option" where
  "find_dollar_quote [] = None"
| "find_dollar_quote (c # s) =
     (case dollar_tag_here (c # s) of
        Some tag \<Rightarrow> Some (tag, drop (length tag) (c # s))
      | None \<Rightarrow> find_dollar_quote s)"

text \<open>What follows the first occurrence of a text.\<close>

fun after_first :: "string \<Rightarrow> string \<Rightarrow> string option" where
  "after_first t s =
     (if has_prefix s t then Some (drop (length t) s)
      else (case s of [] \<Rightarrow> None | c # s' \<Rightarrow> after_first t s'))"

declare after_first.simps [simp del]

definition pg_is_meta_command :: "string \<Rightarrow> bool" where
  "pg_is_meta_command line \<longleftrightarrow> has_prefix line [backslash] \<and> line \<noteq> [backslash, CHR ''.''] \<and> newline \<notin> set line"

definition pg_is_copy_from_stdin :: "string \<Rightarrow> bool" where
  "pg_is_copy_from_stdin line =
     (let upper = to_upper (trim_space line)
      in has_prefix upper ''COPY '' \<and> contains upper ''FROM STDIN'' \<and> has_suffix upper '';'')"

section \<open>The splitter\<close>

text \<open>
  What the callback is given: a statement, or the header of a COPY block with the rows below it
  and how they end. A fault inside the rows is met by whoever reads them to the end, and the
  splitter does; a fault outside ends it.
\<close>

datatype rows_end = RowsTerminated | RowsCut | RowsFault scan_fault

datatype pg_entry =
    Statement string
  | CopyBlock string "string list" rows_end

fun copy_rows :: "scan_fault option \<Rightarrow> string list \<Rightarrow> string list \<times> rows_end \<times> string list" where
  "copy_rows fault [] = ([], (case fault of None \<Rightarrow> RowsCut | Some f \<Rightarrow> RowsFault f), [])"
| "copy_rows fault (line # ls) =
     (if trim_right_char carriage line = [backslash, CHR ''.''] then ([], RowsTerminated, ls)
      else (let (rows, e, rest) = copy_rows fault ls in (line # rows, e, rest)))"

lemma copy_rows_shorter: "copy_rows fault ls = (rows, e, rest) \<Longrightarrow> length rest \<le> length ls"
  by (induction ls arbitrary: rows) (auto split: if_splits prod.splits)

definition ends_statement :: "string \<Rightarrow> bool" where
  "ends_statement current \<longleftrightarrow> has_suffix (trim_right_char newline (trim_space current)) '';''"

text \<open>\<open>buf\<close> is the statement being read, \<open>tag\<close> the dollar quote that is open.\<close>

function pg_statements :: "scan_fault option \<Rightarrow> string \<Rightarrow> string option \<Rightarrow> string list \<Rightarrow> pg_entry list \<times> scan_fault option" where
  "pg_statements fault buf tag [] =
     (case fault of
        Some f \<Rightarrow> ([], Some f)
      | None \<Rightarrow> (if trim_space buf = [] then [] else [Statement (trim_space buf)], None))"
| "pg_statements fault buf None (line # ls) =
     (if pg_is_meta_command (trim_space line) then pg_statements fault buf None ls
      else (let current = buf @ line @ [newline]
            in if pg_is_copy_from_stdin line then
                 (let (rows, e, rest) = copy_rows fault ls; header = strip_leading space_encodings current
                  in case e of
                       RowsFault f \<Rightarrow> ([CopyBlock header rows e], Some f)
                     | _ \<Rightarrow> (let (es, r) = pg_statements fault [] None rest in (CopyBlock header rows e # es, r)))
               else (let opened = (case find_dollar_quote line of
                                     None \<Rightarrow> None
                                   | Some (t, after) \<Rightarrow> if contains after t then None else Some t)
                     in if ends_statement current \<and> opened = None then
                          (let (es, r) = pg_statements fault [] None ls in (Statement (trim_space current) # es, r))
                        else pg_statements fault current opened ls)))"
| "pg_statements fault buf (Some t) (line # ls) =
     (let current = buf @ line @ [newline]
      in case after_first t line of
           None \<Rightarrow> pg_statements fault current (Some t) ls
         | Some after \<Rightarrow>
             (if CHR ''$'' \<in> set (trim_space after) then pg_statements fault current (Some t) ls
              else if ends_statement current then
                (let (es, r) = pg_statements fault [] None ls in (Statement (trim_space current) # es, r))
              else pg_statements fault current None ls))"
  by pat_completeness auto
termination
  by (relation "measure (\<lambda>(fault, buf, tag, ls). length ls)") (auto dest!: copy_rows_shorter [OF sym])

declare pg_statements.simps [simp del]

definition each_pg_statement :: "string \<Rightarrow> scan_fault option \<Rightarrow> pg_entry list \<times> scan_fault option" where
  "each_pg_statement text fault =
     (let (ls, f) = dump_lines MaxStatementLine text fault in pg_statements f [] None ls)"

text \<open>\<open>splitPGStatements\<close>, and \<open>pgSplitCopyBlock\<close> on what it gives for a COPY block.\<close>

definition joined_rows :: "string list \<Rightarrow> string" where
  "joined_rows rows = concat (map (\<lambda>r. r @ [newline]) rows)"

definition whole_entry :: "pg_entry \<Rightarrow> string" where
  "whole_entry e =
     (case e of
        Statement s \<Rightarrow> s
      | CopyBlock h rows r \<Rightarrow> trim_space (h @ joined_rows rows @ (if r = RowsTerminated then [backslash, CHR ''.''] else [])))"

definition split_pg_statements :: "string \<Rightarrow> string list" where
  "split_pg_statements script = map whole_entry (fst (each_pg_statement script None))"

section \<open>Rows as the dump writes them\<close>

text \<open>
  A value as the driver scanned it, by its Go type: nil, an integer, a float, a boolean, bytes, a
  string, a time, and any other. Floats and times are given as the text Go prints for them. A value
  of another type may have a \<open>driver.Valuer\<close>: what it yields (\<open>None\<close> is its error) and what \<open>%v\<close>
  prints for it; one without has the latter alone.
\<close>

datatype pg_value =
    PgNull
  | PgInt int
  | PgFloat string
  | PgBool bool
  | PgBytes string
  | PgText string
  | PgTime string
  | PgValuer "pg_value option" string
  | PgOther string

definition pg_escape_copy :: "string \<Rightarrow> string" where
  "pg_escape_copy s =
     replace_char carriage [backslash, CHR ''r''] (replace_char newline [backslash, CHR ''n'']
       (replace_char tab [backslash, CHR ''t''] (replace_char backslash [backslash, backslash] s)))"

fun pg_format_copy_value :: "pg_value \<Rightarrow> string" where
  "pg_format_copy_value PgNull = [backslash, CHR ''N'']"
| "pg_format_copy_value (PgInt i) = itoa i"
| "pg_format_copy_value (PgFloat s) = s"
| "pg_format_copy_value (PgBool b) = (if b then ''t'' else ''f'')"
| "pg_format_copy_value (PgBytes s) = pg_escape_copy s"
| "pg_format_copy_value (PgText s) = pg_escape_copy s"
| "pg_format_copy_value (PgTime s) = s"
| "pg_format_copy_value (PgValuer (Some v) shown) = pg_format_copy_value v"
| "pg_format_copy_value (PgValuer None shown) = pg_escape_copy shown"
| "pg_format_copy_value (PgOther shown) = pg_escape_copy shown"

definition copy_line :: "pg_value list \<Rightarrow> string" where
  "copy_line vals = join [tab] (map pg_format_copy_value vals)"

definition copy_header :: "string \<Rightarrow> string \<Rightarrow> string" where
  "copy_header ident colClause = ''COPY '' @ ident @ colClause @ '' FROM STDIN;''"

definition copy_block_text :: "string \<Rightarrow> string \<Rightarrow> pg_value list list \<Rightarrow> string" where
  "copy_block_text ident colClause rows =
     copy_header ident colClause @ [newline] @ joined_rows (map copy_line rows) @ [backslash, CHR ''.'', newline, newline]"

section \<open>What the server reads in a row\<close>

text \<open>
  The COPY text format as PostgreSQL documents it: fields between tabs, \<open>\N\<close> for null, a
  backslash in front of a letter for a control character and in front of any other character for
  that character. Octal and hexadecimal escapes, which the dump never writes, are left out.
\<close>

fun copy_unescape :: "string \<Rightarrow> string option" where
  "copy_unescape [] = Some []"
| "copy_unescape [c] = (if c = backslash then None else Some [c])"
| "copy_unescape (c # d # s) =
     (if c \<noteq> backslash then map_option ((#) c) (copy_unescape (d # s))
      else if is_digit d \<or> d = CHR ''x'' then None
      else map_option ((#) (if d = CHR ''n'' then newline else if d = CHR ''t'' then tab else if d = CHR ''r'' then carriage
                            else if d = CHR ''b'' then CHR 0x08 else if d = CHR ''f'' then CHR 0x0C
                            else if d = CHR ''v'' then CHR 0x0B else d)) (copy_unescape s))"

definition copy_field :: "string \<Rightarrow> string option option" where
  "copy_field f = (if f = [backslash, CHR ''N''] then Some None else map_option Some (copy_unescape f))"

text \<open>
  What a bytea column makes of the text it is given: \<open>\x\<close> and pairs of hexadecimal digits, or
  else bytes as they are but for \<open>\\\<close> and a backslash with three octal digits.
\<close>

definition hex_digit :: "char \<Rightarrow> nat option" where
  "hex_digit c =
     (let n = of_char c :: nat
      in if 48 \<le> n \<and> n \<le> 57 then Some (n - 48) else if 97 \<le> n \<and> n \<le> 102 then Some (n - 87)
         else if 65 \<le> n \<and> n \<le> 70 then Some (n - 55) else None)"

fun hex_bytes :: "string \<Rightarrow> string option" where
  "hex_bytes [] = Some []"
| "hex_bytes [c] = None"
| "hex_bytes (c # d # s) =
     (case (hex_digit c, hex_digit d) of
        (Some a, Some b) \<Rightarrow> map_option ((#) (char_of (16 * a + b))) (hex_bytes s)
      | _ \<Rightarrow> None)"

definition octal_byte :: "char \<Rightarrow> char \<Rightarrow> char \<Rightarrow> char option" where
  "octal_byte c d e =
     (let digits = map (\<lambda>x. of_char x - 48 :: nat) [c, d, e]
      in if c \<in> set ''0123'' \<and> d \<in> set ''01234567'' \<and> e \<in> set ''01234567''
         then Some (char_of (64 * digits ! 0 + 8 * digits ! 1 + digits ! 2)) else None)"

fun escaped_bytes :: "string \<Rightarrow> string option" where
  "escaped_bytes [] = Some []"
| "escaped_bytes (c # s) =
     (if c \<noteq> backslash then map_option ((#) c) (escaped_bytes s)
      else (case s of
              [] \<Rightarrow> None
            | d # t \<Rightarrow>
                (if d = backslash then map_option ((#) backslash) (escaped_bytes t)
                 else (case t of
                         e # g # u \<Rightarrow> (case octal_byte d e g of None \<Rightarrow> None | Some x \<Rightarrow> map_option ((#) x) (escaped_bytes u))
                       | _ \<Rightarrow> None))))"

definition bytea_in :: "string \<Rightarrow> string option" where
  "bytea_in s = (if has_prefix s [backslash, CHR ''x''] then hex_bytes (drop 2 s) else escaped_bytes s)"

text \<open>
  A row of a table whose columns are bytea where \<open>types\<close> says so: a line of another number of
  fields is refused, and so is one with a field its column cannot read.
\<close>

definition column_reads :: "bool \<Rightarrow> string option \<Rightarrow> string option option" where
  "column_reads bytea f = (case f of None \<Rightarrow> Some None | Some s \<Rightarrow> map_option Some (if bytea then bytea_in s else Some s))"

definition server_reads :: "bool list \<Rightarrow> string \<Rightarrow> string option list option" where
  "server_reads types line =
     (let fields = split_char tab line
      in if length fields \<noteq> length types then None
         else those (map2 (\<lambda>bytea f. Option.bind (copy_field f) (column_reads bytea)) types fields))"

fun value_text :: "pg_value \<Rightarrow> string option" where
  "value_text PgNull = None"
| "value_text (PgInt i) = Some (itoa i)"
| "value_text (PgBool b) = Some (if b then ''t'' else ''f'')"
| "value_text (PgValuer (Some v) shown) = value_text v"
| "value_text (PgValuer None shown) = Some shown"
| "value_text (PgFloat s) = Some s"
| "value_text (PgBytes s) = Some s"
| "value_text (PgText s) = Some s"
| "value_text (PgTime s) = Some s"
| "value_text (PgOther s) = Some s"

abbreviation copy_special :: "char set" where
  "copy_special \<equiv> {backslash, tab, newline, carriage}"

text \<open>
  The values whose printed form is the text their column reads: all but bytes with a backslash,
  a zero byte or one above 127, and values that only \<open>%v\<close> prints. A float and a time are taken to
  print without a backslash, tab or line end, as Go's formats do.
\<close>

definition plain_bytes :: "string \<Rightarrow> bool" where
  "plain_bytes s \<longleftrightarrow> list_all (\<lambda>c. c \<noteq> backslash \<and> 0 < (of_char c :: nat) \<and> (of_char c :: nat) < 128) s"

fun readable_value :: "bool \<Rightarrow> pg_value \<Rightarrow> bool" where
  "readable_value bytea PgNull \<longleftrightarrow> True"
| "readable_value bytea (PgInt i) \<longleftrightarrow> \<not> bytea"
| "readable_value bytea (PgFloat s) \<longleftrightarrow> \<not> bytea \<and> set s \<inter> copy_special = {}"
| "readable_value bytea (PgBool b) \<longleftrightarrow> \<not> bytea"
| "readable_value bytea (PgBytes s) \<longleftrightarrow> bytea \<and> plain_bytes s"
| "readable_value bytea (PgText s) \<longleftrightarrow> \<not> bytea"
| "readable_value bytea (PgTime s) \<longleftrightarrow> \<not> bytea \<and> set s \<inter> copy_special = {}"
| "readable_value bytea (PgValuer (Some v) shown) \<longleftrightarrow> readable_value bytea v"
| "readable_value bytea (PgValuer None shown) \<longleftrightarrow> False"
| "readable_value bytea (PgOther shown) \<longleftrightarrow> False"

definition escape_char :: "char \<Rightarrow> string" where
  "escape_char c =
     (if c = backslash then [backslash, backslash] else if c = tab then [backslash, CHR ''t'']
      else if c = newline then [backslash, CHR ''n''] else if c = carriage then [backslash, CHR ''r''] else [c])"

lemma copy_replace_append: "replace_char c new (s @ t) = replace_char c new s @ replace_char c new t"
  by (simp add: replace_char_def)

lemma pg_escape_copy_Nil: "pg_escape_copy [] = []"
  by (simp add: pg_escape_copy_def)

lemma pg_escape_copy_Cons: "pg_escape_copy (c # s) = escape_char c @ pg_escape_copy s"
  by (simp add: pg_escape_copy_def escape_char_def)

lemma unescape_escaped: "copy_unescape (escape_char c @ s) = map_option ((#) c) (copy_unescape s)"
proof -
  consider "c = backslash" | "c = tab" | "c = newline" | "c = carriage" | "c \<notin> copy_special" by blast
  then show ?thesis
  proof cases
    case 5
    then show ?thesis by (cases s) (simp_all add: escape_char_def)
  qed (simp_all add: escape_char_def is_digit_def)
qed

lemma copy_unescape_escape: "copy_unescape (pg_escape_copy s) = Some s"
  by (induction s) (simp_all add: pg_escape_copy_Nil pg_escape_copy_Cons unescape_escaped)

lemma escape_is_not_null: "pg_escape_copy s \<noteq> [backslash, CHR ''N'']"
  by (cases s) (auto simp: pg_escape_copy_Nil pg_escape_copy_Cons escape_char_def)

lemma copy_unescape_plain: "set s \<inter> copy_special = {} \<Longrightarrow> copy_unescape s = Some s"
proof -
  assume "set s \<inter> copy_special = {}"
  then have "pg_escape_copy s = s" by (induction s) (auto simp: pg_escape_copy_Nil pg_escape_copy_Cons escape_char_def)
  then show ?thesis using copy_unescape_escape [of s] by simp
qed

lemma itoa_plain: "set (itoa i) \<inter> copy_special = {}"
proof -
  have "c \<notin> copy_special" if "c \<in> set (nat_digits n)" for c n
    using nat_digits_digit [OF that] by auto
  then show ?thesis by (auto simp: itoa_def)
qed

lemma plain_field: "set s \<inter> copy_special = {} \<Longrightarrow> copy_field s = Some (Some s)"
  using copy_unescape_plain by (auto simp: copy_field_def)

lemma escaped_field: "copy_field (pg_escape_copy s) = Some (Some s)"
  by (simp add: copy_field_def copy_unescape_escape escape_is_not_null)

lemma plain_bytes_read: "plain_bytes s \<Longrightarrow> bytea_in s = Some s"
proof -
  assume plain: "plain_bytes s"
  then have "\<not> has_prefix s [backslash, CHR ''x'']" by (cases s) (simp_all add: plain_bytes_def)
  moreover have "escaped_bytes s = Some s" using plain by (induction s) (simp_all add: plain_bytes_def)
  ultimately show ?thesis by (simp add: bytea_in_def)
qed

lemma field_reads_back:
  "readable_value bytea v \<Longrightarrow> Option.bind (copy_field (pg_format_copy_value v)) (column_reads bytea) = Some (value_text v)"
proof (induction v rule: pg_format_copy_value.induct)
  case (2 i)
  then show ?case using plain_field [OF itoa_plain] by (simp add: column_reads_def)
next
  case 1
  show ?case by (simp add: column_reads_def copy_field_def)
qed (auto simp: column_reads_def escaped_field plain_field plain_bytes_read)

lemma escaped_chars: "c \<in> set (pg_escape_copy s) \<Longrightarrow> c \<notin> {tab, newline, carriage}"
  by (induction s) (auto simp: pg_escape_copy_Nil pg_escape_copy_Cons escape_char_def split: if_splits)

lemma field_chars: "readable_value bytea v \<Longrightarrow> c \<in> set (pg_format_copy_value v) \<Longrightarrow> c \<notin> {tab, newline, carriage}"
proof (induction v rule: pg_format_copy_value.induct)
  case (2 i)
  then show ?case using itoa_plain [of i] by auto
qed (auto dest: escaped_chars split: if_splits)

text \<open>A row whose columns read its values.\<close>

definition readable_row :: "bool list \<Rightarrow> pg_value list \<Rightarrow> bool" where
  "readable_row types vals \<longleftrightarrow> list_all2 readable_value types vals"

lemma readable_row_value: "readable_row types vals \<Longrightarrow> v \<in> set vals \<Longrightarrow> \<exists>bytea. readable_value bytea v"
  by (auto simp: readable_row_def list_all2_conv_all_nth in_set_conv_nth)

lemma those_Some: "those (map Some xs) = Some xs"
  by (induction xs) simp_all

lemma row_fields:
  assumes "vals \<noteq> []" and "readable_row types vals"
  shows "split_char tab (copy_line vals) = map pg_format_copy_value vals"
  unfolding copy_line_def using assms(1) readable_row_value [OF assms(2)] field_chars
  by (intro split_char_join) fastforce+

lemma row_reads_back:
  assumes "vals \<noteq> []" and "readable_row types vals"
  shows "server_reads types (copy_line vals) = Some (map value_text vals)"
proof -
  have "list_all2 readable_value types vals" using assms(2) by (simp add: readable_row_def)
  then have "map2 (\<lambda>bytea f. Option.bind (copy_field f) (column_reads bytea)) types (map pg_format_copy_value vals)
      = map Some (map value_text vals) \<and> length types = length vals"
    by (induction types vals rule: list_all2_induct) (simp_all add: field_reads_back)
  then show ?thesis unfolding server_reads_def row_fields [OF assms] Let_def by (simp only: those_Some length_map if_False simp_thms)
qed

lemma join_chars: "set (join sep ws) \<subseteq> set sep \<union> \<Union> (set (map set ws))"
  by (induction sep ws rule: join.induct) auto

lemma row_chars: "readable_row types vals \<Longrightarrow> c \<in> set (copy_line vals) \<Longrightarrow> c \<noteq> newline \<and> c \<noteq> carriage"
  using join_chars [of "[tab]" "map pg_format_copy_value vals"] field_chars readable_row_value [of types vals]
  by (fastforce simp: copy_line_def)

text \<open>No row can be taken for the end of its block.\<close>

lemma escape_no_end: "\<not> has_prefix (pg_escape_copy s) [backslash, CHR ''.'']"
  by (cases s) (auto simp: pg_escape_copy_Nil pg_escape_copy_Cons escape_char_def)

lemma plain_no_end: "set s \<inter> copy_special = {} \<Longrightarrow> \<not> has_prefix s [backslash, CHR ''.'']"
  by (auto simp: has_prefix_iff)

lemma field_no_end: "readable_value bytea v \<Longrightarrow> \<not> has_prefix (pg_format_copy_value v) [backslash, CHR ''.'']"
proof (induction v rule: pg_format_copy_value.induct)
  case (2 i)
  then show ?case using plain_no_end [OF itoa_plain] by simp
qed (auto simp: plain_no_end escape_no_end)

lemma row_is_no_end: "readable_row types vals \<Longrightarrow> trim_right_char carriage (copy_line vals) \<noteq> [backslash, CHR ''.'']"
proof -
  assume plain: "readable_row types vals"
  then have "trim_right_char carriage (copy_line vals) = copy_line vals"
    by (intro trim_right_char_id) (metis last_in_set row_chars)
  moreover have "copy_line vals \<noteq> [backslash, CHR ''.'']"
  proof
    assume eq: "copy_line vals = [backslash, CHR ''.'']"
    then obtain v vs where vals: "vals = v # vs" by (cases vals) (auto simp: copy_line_def)
    then have "pg_format_copy_value v = [backslash, CHR ''.'']" using eq row_fields [OF _ plain] by simp
    moreover obtain bytea where "readable_value bytea v" using readable_row_value [OF plain] vals by auto
    ultimately show False using field_no_end [of bytea v] by simp
  qed
  ultimately show ?thesis by simp
qed

section \<open>A dump of rows is split into its blocks\<close>

lemma split_lines: "list_all (\<lambda>l. newline \<notin> set l) ls \<Longrightarrow> split_char newline (joined_rows ls @ r) = ls @ split_char newline r"
proof (induction ls)
  case (Cons l ls)
  have "split_char newline (l @ newline # joined_rows ls @ r) = [l] @ split_char newline (joined_rows ls @ r)"
    using Cons.prems by (simp add: split_char_append split_char_single)
  then show ?case using Cons by (simp add: joined_rows_def)
qed (simp add: joined_rows_def)

lemma cut_joined: "list_all (\<lambda>l. newline \<notin> set l) ls \<Longrightarrow> cut_lines (joined_rows ls) = ls"
  using split_lines [of ls "[]"] by simp

lemma upper_first: "c \<noteq> CHR 0xC4 \<Longrightarrow> c \<noteq> CHR 0xC5 \<Longrightarrow> to_upper (c # s) = upper_char c # to_upper s"
  by (cases s) auto

lemma upper_append: "c \<noteq> CHR 0xB1 \<Longrightarrow> c \<noteq> CHR 0xBF \<Longrightarrow> to_upper (a @ c # s) = to_upper a @ to_upper (c # s)"
proof (induction a rule: to_upper.induct)
  case (2 d)
  then show ?case by simp
next
  case (3 d e a)
  then show ?case by simp
qed simp

lemma contains_infix: "contains (a @ t @ b) t"
proof (induction a)
  case Nil
  show ?case using has_prefix_append [of t b] by (cases "t @ b") auto
qed simp

lemma copy_header_found:
  "trim_space (copy_header ident cols) = copy_header ident cols" "pg_is_copy_from_stdin (copy_header ident cols)"
proof -
  show trim: "trim_space (copy_header ident cols) = copy_header ident cols"
    by (rule trim_space_printable) (simp add: copy_header_def printable_def)
  have upper: "to_upper (copy_header ident cols) = ''COPY '' @ to_upper (ident @ cols) @ '' FROM STDIN;''"
    using upper_append [of "CHR '' ''" "ident @ cols" "''FROM STDIN;''"]
    by (simp add: copy_header_def upper_first upper_char_def)
  show "pg_is_copy_from_stdin (copy_header ident cols)"
    unfolding pg_is_copy_from_stdin_def Let_def trim upper
    using contains_infix [of "''COPY '' @ to_upper (ident @ cols) @ '' ''" "''FROM STDIN''" "'';''"]
    by (auto simp: has_suffix_iff intro!: exI [of _ "''COPY '' @ to_upper (ident @ cols) @ '' FROM STDIN''"])
qed

lemma rows_of_block:
  "list_all (readable_row types) rows \<Longrightarrow>
   copy_rows f (map copy_line rows @ [backslash, CHR ''.''] # ls) = (map copy_line rows, RowsTerminated, ls)"
proof (induction rows)
  case Nil
  show ?case by (simp add: trim_right_char_def)
next
  case (Cons r rows)
  then show ?case using row_is_no_end [of types r] by simp
qed

lemma strip_leading_newline: "strip_leading space_encodings (newline # s) = strip_leading space_encodings s"
proof -
  have enc: "space_encodings = [map char_of [9::nat], [newline]] @ drop 2 space_encodings"
    by (simp add: space_encodings_def char_of_def bit_numeral_rec bit_0)
  have "strip_one space_encodings (newline # s) = Some s"
    by (subst enc) (simp add: char_of_def bit_numeral_rec bit_0)
  then show ?thesis by (subst strip_leading.simps) simp
qed

lemma block_is_read:
  assumes "list_all (readable_row types) rows" and "buf = [] \<or> buf = [newline]"
  shows "pg_statements f buf None (copy_header ident cols # map copy_line rows @ [backslash, CHR ''.''] # [] # ls)
    = (let (es, r) = pg_statements f [newline] None ls
       in (CopyBlock (copy_header ident cols @ [newline]) (map copy_line rows) RowsTerminated # es, r))"
proof -
  have meta: "\<not> pg_is_meta_command (trim_space (copy_header ident cols))"
    unfolding copy_header_found by (simp add: pg_is_meta_command_def copy_header_def)
  have header: "strip_leading space_encodings (buf @ copy_header ident cols @ [newline]) = copy_header ident cols @ [newline]"
    using assms(2) strip_leading_printable [OF space_encodings_first, of "CHR ''C''"]
    by (auto simp: copy_header_def strip_leading_newline printable_def)
  have blank: "pg_statements f [] None ([] # ls) = pg_statements f [newline] None ls"
  proof -
    have "trim_space [newline] = []" by (simp add: trim_space_def strip_leading_newline)
    then show ?thesis
      by (simp add: pg_statements.simps(2) pg_is_meta_command_def pg_is_copy_from_stdin_def ends_statement_def
          trim_right_char_def has_suffix_def)
  qed
  show ?thesis
    using meta copy_header_found(2) [of ident cols] header blank
    by (simp add: pg_statements.simps(2) rows_of_block [OF assms(1)] Let_def split: prod.split)
qed

text \<open>A table of the dump: its name and column clause as written, which columns are bytea, its rows.\<close>

type_synonym dumped_table = "string \<times> string \<times> bool list \<times> pg_value list list"

definition table_block :: "dumped_table \<Rightarrow> string" where
  "table_block t = (case t of (ident, cols, types, rows) \<Rightarrow> copy_block_text ident cols rows)"

definition table_entry :: "dumped_table \<Rightarrow> pg_entry" where
  "table_entry t = (case t of (ident, cols, types, rows) \<Rightarrow> CopyBlock (copy_header ident cols @ [newline]) (map copy_line rows) RowsTerminated)"

definition table_lines :: "dumped_table \<Rightarrow> string list" where
  "table_lines t = (case t of (ident, cols, types, rows) \<Rightarrow> copy_header ident cols # map copy_line rows @ [[backslash, CHR ''.''], []])"

definition writable_table :: "dumped_table \<Rightarrow> bool" where
  "writable_table t \<longleftrightarrow>
     (case t of (ident, cols, types, rows) \<Rightarrow> newline \<notin> set ident \<and> newline \<notin> set cols \<and> list_all (readable_row types) rows
        \<and> types \<noteq> []) \<and> list_all (\<lambda>l. length l < MaxStatementLine) (table_lines t)"

lemma table_block_lines: "table_block t = joined_rows (table_lines t)"
  by (simp add: table_block_def table_lines_def copy_block_text_def joined_rows_def split: prod.split)

lemma table_lines_clean:
  assumes "writable_table t"
  shows "list_all (\<lambda>l. newline \<notin> set l) (table_lines t)" and "map drop_carriage (table_lines t) = table_lines t"
proof -
  obtain ident cols types rows where t: "t = (ident, cols, types, rows)" by (cases t) auto
  have rows: "newline \<notin> set (copy_line r)" "drop_carriage (copy_line r) = copy_line r" if "r \<in> set rows" for r
    using assms that row_chars [of types r] by (auto simp: writable_table_def t list_all_iff drop_carriage_def)
  have "drop_carriage (copy_header ident cols) = copy_header ident cols" by (simp add: drop_carriage_def copy_header_def)
  then show "map drop_carriage (table_lines t) = table_lines t"
    using rows(2) by (simp add: table_lines_def t) (simp add: drop_carriage_def)
  show "list_all (\<lambda>l. newline \<notin> set l) (table_lines t)"
    using assms rows(1) by (auto simp: writable_table_def t table_lines_def list_all_iff copy_header_def)
qed

lemma tables_are_read:
  "list_all writable_table ts \<Longrightarrow> buf = [] \<or> buf = [newline] \<Longrightarrow>
   pg_statements None buf None (concat (map table_lines ts)) = (map table_entry ts, None)"
proof (induction ts arbitrary: buf)
  case Nil
  then show ?case by (auto simp: pg_statements.simps(1) trim_space_def strip_leading_newline)
next
  case (Cons t ts)
  obtain ident cols types rows where t: "t = (ident, cols, types, rows)" by (cases t) auto
  have "list_all (readable_row types) rows" using Cons.prems(1) by (simp add: writable_table_def t)
  have rest: "pg_statements None [newline] None (concat (map table_lines ts)) = (map table_entry ts, None)"
    using Cons.prems(1) by (intro Cons.IH) simp_all
  have "concat (map table_lines (t # ts)) = copy_header ident cols # map copy_line rows @ [backslash, CHR ''.''] # [] # concat (map table_lines ts)"
    by (simp add: t table_lines_def)
  then show ?case
    using block_is_read [OF \<open>list_all (readable_row types) rows\<close> Cons.prems(2), of None ident cols "concat (map table_lines ts)"]
    unfolding rest by (simp add: t table_entry_def)
qed

lemma dump_splits:
  assumes "list_all writable_table ts"
  shows "each_pg_statement (concat (map table_block ts)) None = (map table_entry ts, None)"
proof -
  let ?ls = "concat (map table_lines ts)"
  have script: "concat (map table_block ts) = joined_rows ?ls"
    by (induction ts) (simp_all add: table_block_lines joined_rows_def)
  have clean: "list_all (\<lambda>l. newline \<notin> set l) ?ls" "map drop_carriage ?ls = ?ls"
    using assms by (induction ts) (simp_all add: table_lines_clean list_all_append)
  have short: "takeWhile (\<lambda>l. length l < MaxStatementLine) ?ls = ?ls"
    using assms by (induction ts) (auto simp: takeWhile_eq_all_conv writable_table_def list_all_iff)
  show ?thesis
    unfolding each_pg_statement_def dump_lines_def script cut_joined [OF clean(1)] Let_def short clean(2)
    using tables_are_read [OF assms, of "[]"] by simp
qed

text \<open>What the server takes from an entry: the header and what it reads in every line below it.\<close>

definition copy_values :: "bool list \<Rightarrow> pg_entry \<Rightarrow> string \<times> string option list option list" where
  "copy_values types e = (case e of Statement s \<Rightarrow> (s, []) | CopyBlock h rows r \<Rightarrow> (h, map (server_reads types) rows))"

text \<open>
  C34: The rows of a PostgreSQL dump survive the file: reading what the dump wrote gives one COPY
  block per table, in order, each under its own header, without a fault, and what the server reads
  in the block's lines is every row with every value as it was, nulls apart from empty texts, and
  tabs, newlines, carriage returns, backslashes and a text \<open>\.\<close> as they were. This is for the values
  whose printed form is the text their column reads: nulls, integers, floats, booleans, texts,
  times, what a Valuer yields of these, and bytes that are plain ASCII without a backslash; not for
  other bytes and not for values only \<open>%v\<close> prints, which the next lemmas show changed. Names hold no
  newline, tables have a column, and no line passes the scanner's 256 MB.
\<close>

theorem copied_rows_survive_the_dump:
  assumes "list_all writable_table ts"
  shows "snd (each_pg_statement (concat (map table_block ts)) None) = None
    \<and> list_all2 (\<lambda>(ident, cols, types, rows) e. copy_values types e = (copy_header ident cols @ [newline], map (\<lambda>r. Some (map value_text r)) rows))
        ts (fst (each_pg_statement (concat (map table_block ts)) None))"
proof -
  have "copy_values types (table_entry (ident, cols, types, rows)) = (copy_header ident cols @ [newline], map (\<lambda>r. Some (map value_text r)) rows)"
    if t: "(ident, cols, types, rows) \<in> set ts" for ident cols types rows
  proof -
    have "writable_table (ident, cols, types, rows)" using assms t by (simp add: list_all_iff)
    then have "server_reads types (copy_line r) = Some (map value_text r)" if "r \<in> set rows" for r
      using that by (intro row_reads_back) (auto simp: writable_table_def list_all_iff readable_row_def)
    then show ?thesis by (simp add: table_entry_def copy_values_def)
  qed
  then show ?thesis unfolding dump_splits [OF assms] by (auto simp: list_all2_map2 list_all2_same)
qed

definition awkward_table :: dumped_table where
  "awkward_table =
     (pg_quote_ident ''t'', [], [False, True],
      [[PgText [backslash, CHR ''.''], PgNull], [PgText [tab, newline], PgBytes ''ab''], [PgValuer (Some (PgInt (- 7))) ''{}'', PgBytes []]])"

theorem copied_rows_survive_the_dump_witness:
  "map (copy_values [False, True]) (fst (each_pg_statement (table_block awkward_table @ table_block awkward_table) None))
   = (let block = (copy_header (pg_quote_ident ''t'') [] @ [newline],
        [Some [Some [backslash, CHR ''.''], None], Some [Some [tab, newline], Some ''ab''], Some [Some (itoa (- 7)), Some []]])
      in [block, block])"
proof -
  have "length (itoa (- 7)) = 2" by (simp add: itoa_def nat_digits.simps)
  then have "list_all writable_table [awkward_table, awkward_table]"
    by (simp add: writable_table_def awkward_table_def pg_quote_ident_def readable_row_def plain_bytes_def table_lines_def copy_header_def
        copy_line_def pg_escape_copy_def MaxStatementLine_def)
  from copied_rows_survive_the_dump [OF this] show ?thesis
    by (auto simp: awkward_table_def Let_def list_all2_Cons1)
qed

text \<open>
  Bytes are written raw, so a bytea column reads those that look like its input format as what
  they spell: four bytes come back as one.
\<close>

lemma bytes_are_read_as_hex:
  "value_text (PgBytes [backslash, CHR ''x'', CHR ''4'', CHR ''1'']) = Some [backslash, CHR ''x'', CHR ''4'', CHR ''1'']"
  "server_reads [True] (copy_line [PgBytes [backslash, CHR ''x'', CHR ''4'', CHR ''1'']]) = Some [Some ''A'']"
  by (simp_all add: server_reads_def copy_line_def pg_escape_copy_def replace_char_def copy_field_def column_reads_def bytea_in_def is_digit_def
      hex_digit_def char_of_def bit_numeral_rec bit_0 has_prefix_iff)

text \<open>A value without a Valuer arrives as what \<open>%v\<close> prints: an array of numbers between brackets, not braces.\<close>

lemma other_values_arrive_printed:
  "server_reads [False] (copy_line [PgOther ''[1 2 3]'']) = Some [Some ''[1 2 3]'']"
  by (simp add: server_reads_def copy_line_def pg_escape_copy_def replace_char_def copy_field_def column_reads_def)

section \<open>Dollar-quoted bodies\<close>

definition opens_quote :: "string \<Rightarrow> string \<Rightarrow> bool" where
  "opens_quote line t \<longleftrightarrow>
     \<not> pg_is_meta_command (trim_space line) \<and> \<not> pg_is_copy_from_stdin line
     \<and> (case find_dollar_quote line of None \<Rightarrow> False | Some (tag, after) \<Rightarrow> tag = t \<and> \<not> contains after t)"

definition closes_quote :: "string \<Rightarrow> string \<Rightarrow> bool" where
  "closes_quote line t \<longleftrightarrow> (case after_first t line of None \<Rightarrow> False | Some after \<Rightarrow> CHR ''$'' \<notin> set (trim_space after))"

lemma joined_rows_simps [simp]: "joined_rows [] = []" "joined_rows (l # ls) = l @ newline # joined_rows ls"
  "joined_rows (ls @ ms) = joined_rows ls @ joined_rows ms"
  by (simp_all add: joined_rows_def)

lemma quote_opened: "opens_quote line t \<Longrightarrow> pg_statements f buf None (line # ls) = pg_statements f (buf @ line @ [newline]) (Some t) ls"
  by (auto simp: opens_quote_def pg_statements.simps(2) split: option.splits)

lemma body_is_kept:
  "list_all (\<lambda>l. after_first t l = None) body \<Longrightarrow>
   pg_statements f buf (Some t) (body @ ls) = pg_statements f (buf @ joined_rows body) (Some t) ls"
  by (induction body arbitrary: buf) (simp_all add: pg_statements.simps(3))

text \<open>A line outside a quote that opens none: it has no tag, or has one twice.\<close>

definition quiet_line :: "string \<Rightarrow> bool" where
  "quiet_line l \<longleftrightarrow>
     \<not> pg_is_meta_command (trim_space l) \<and> \<not> pg_is_copy_from_stdin l
     \<and> (case find_dollar_quote l of None \<Rightarrow> True | Some (tag, after) \<Rightarrow> contains after tag)"

lemma quiet_line_read:
  "quiet_line l \<Longrightarrow> pg_statements f buf None (l # ls) =
     (let current = buf @ l @ [newline]
      in if ends_statement current then (let (es, r) = pg_statements f [] None ls in (Statement (trim_space current) # es, r))
         else pg_statements f current None ls)"
  by (auto simp: quiet_line_def pg_statements.simps(2) Let_def split: option.splits)

text \<open>Lines after which the statement goes on, and lines the last of which ends it.\<close>

fun open_lines :: "string \<Rightarrow> string list \<Rightarrow> bool" where
  "open_lines buf [] \<longleftrightarrow> True"
| "open_lines buf (l # ls) \<longleftrightarrow> quiet_line l \<and> \<not> ends_statement (buf @ l @ [newline]) \<and> open_lines (buf @ l @ [newline]) ls"

fun ending_lines :: "string \<Rightarrow> string list \<Rightarrow> bool" where
  "ending_lines buf [] \<longleftrightarrow> ends_statement buf"
| "ending_lines buf (l # ls) \<longleftrightarrow> \<not> ends_statement buf \<and> quiet_line l \<and> ending_lines (buf @ l @ [newline]) ls"

lemma open_lines_are_kept: "open_lines buf before \<Longrightarrow> pg_statements f buf None (before @ ls) = pg_statements f (buf @ joined_rows before) None ls"
  by (induction buf before rule: open_lines.induct) (simp_all add: quiet_line_read)

lemma ending_lines_end:
  "\<not> ends_statement buf \<Longrightarrow> ending_lines buf tail \<Longrightarrow> pg_statements f buf None (tail @ ls) =
     (let (es, r) = pg_statements f [] None ls in (Statement (trim_space (buf @ joined_rows tail)) # es, r))"
proof (induction tail arbitrary: buf)
  case (Cons l rest)
  show ?case
  proof (cases "ends_statement (buf @ l @ [newline])")
    case True
    then have "rest = []" using Cons.prems(2) by (cases rest) simp_all
    then show ?thesis using Cons True by (simp add: quiet_line_read)
  next
    case False
    then show ?thesis using Cons by (simp add: quiet_line_read)
  qed
qed simp

text \<open>
  A routine in a dump: the lines down to the one that opens its body's quote, the body, the line that
  closes the quote, and the lines from there to the semicolon, none when it is on the closing line.
\<close>

definition routine_text :: "string list \<Rightarrow> string \<Rightarrow> string list \<Rightarrow> string \<Rightarrow> string list \<Rightarrow> string list" where
  "routine_text before opening body closing tail = before @ opening # body @ closing # tail"

definition routine_shape :: "string \<Rightarrow> string list \<Rightarrow> string \<Rightarrow> string list \<Rightarrow> string \<Rightarrow> string list \<Rightarrow> bool" where
  "routine_shape t before opening body closing tail \<longleftrightarrow>
     open_lines [] before \<and> opens_quote opening t \<and> list_all (\<lambda>l. after_first t l = None) body \<and> closes_quote closing t
     \<and> ending_lines (joined_rows (before @ opening # body @ [closing])) tail"

text \<open>
  C35: A routine of a dump is one statement, whatever its body holds: from its first line to the one
  with its semicolon, whether that is the line that closes the dollar quote or one below it, as
  the driver writes it; every line in between is kept (semicolons at line ends, COPY headers and
  psql commands in the body among them), and reading goes on below with nothing pending. The body
  may hold any line but one with the routine's own tag. The lines outside it are no COPY headers or
  psql commands and end with a semicolon only at the last; a quote one of them opens it closes.
\<close>

theorem routine_body_is_one_statement:
  assumes "routine_shape t before opening body closing tail"
  shows "pg_statements f [] None (routine_text before opening body closing tail @ ls)
    = (let (es, r) = pg_statements f [] None ls in (Statement (trim_space (joined_rows (routine_text before opening body closing tail))) # es, r))"
proof -
  let ?buf = "joined_rows (before @ opening # body @ [closing])"
  have shape: "open_lines [] before" "opens_quote opening t" "list_all (\<lambda>l. after_first t l = None) body" "closes_quote closing t"
      "ending_lines ?buf tail"
    using assms by (simp_all add: routine_shape_def)
  have body: "pg_statements f [] None (routine_text before opening body closing tail @ ls)
      = pg_statements f (joined_rows (before @ opening # body)) (Some t) (closing # tail @ ls)"
    using open_lines_are_kept [OF shape(1)] quote_opened [OF shape(2)] body_is_kept [OF shape(3)] by (simp add: routine_text_def)
  show ?thesis
  proof (cases "ends_statement ?buf")
    case True
    then have "tail = []" using shape(5) by (cases tail) simp_all
    then show ?thesis unfolding body
      using True shape(4) by (auto simp: pg_statements.simps(3) closes_quote_def routine_text_def split: option.splits)
  next
    case False
    have "pg_statements f (joined_rows (before @ opening # body)) (Some t) (closing # tail @ ls) = pg_statements f ?buf None (tail @ ls)"
      using False shape(4) by (auto simp: pg_statements.simps(3) closes_quote_def split: option.splits)
    then show ?thesis unfolding body using ending_lines_end [OF False shape(5)] by (simp add: routine_text_def)
  qed
qed

definition routine_head :: "string list" where
  "routine_head = [''CREATE FUNCTION f() RETURNS void'']"

definition routine_lines :: "string list" where
  "routine_lines = [''BEGIN;'', ''  COPY t FROM STDIN;'', ''END;'']"

lemma trim_line:
  assumes "a \<noteq> []" and "printable (hd a)" and "printable (last a)"
  shows "trim_space (a @ [newline]) = a"
proof -
  obtain c t where c: "a = c # t" using assms(1) by (cases a) auto
  obtain d u where d: "a = u @ [d]" using assms(1) by (cases a rule: rev_cases) auto
  have enc: "map rev space_encodings = [[char_of (9::nat)], [newline]] @ drop 2 (map rev space_encodings)"
    by (simp add: space_encodings_def char_of_def bit_numeral_rec bit_0)
  have "strip_one (map rev space_encodings) (newline # rev a) = Some (rev a)"
    by (subst enc) (simp add: char_of_def bit_numeral_rec bit_0)
  moreover have "strip_leading (map rev space_encodings) (rev a) = rev a"
    unfolding d rev_append rev.simps append.simps
    by (rule strip_leading_printable [OF space_encodings_last]) (use assms d in simp)
  moreover have "strip_leading space_encodings (a @ [newline]) = a @ [newline]"
    unfolding c append.simps
    by (rule strip_leading_printable [OF space_encodings_first]) (use assms c in simp)
  ultimately show ?thesis
    by (simp add: trim_space_def strip_leading.simps [of _ "newline # rev a"])
qed

lemma line_ends_statement:
  assumes "a \<noteq> []" and "printable (hd a)" and "printable (last a)"
  shows "ends_statement (a @ [newline]) \<longleftrightarrow> last a = CHR '';''"
proof -
  have "last a \<noteq> newline" using assms(3) by (auto simp: printable_def)
  then have "ends_statement (a @ [newline]) \<longleftrightarrow> has_suffix a '';''"
    unfolding ends_statement_def trim_line [OF assms] by simp
  then show ?thesis
    using assms(1) by (cases a rule: rev_cases) (simp_all add: has_suffix_def)
qed

theorem routine_body_is_one_statement_witness:
  "fst (pg_statements None [] None (routine_text routine_head ''AS $function$'' routine_lines ''$function$'' ['';''] @ [''SELECT 1;'']))
   = Statement (trim_space (joined_rows (routine_text routine_head ''AS $function$'' routine_lines ''$function$'' ['';''])))
     # fst (pg_statements None [] None [''SELECT 1;''])"
proof -
  have body: "list_all (\<lambda>l. after_first ''$function$'' l = None) routine_lines"
    by (simp add: routine_lines_def after_first.simps)
  have closing: "closes_quote ''$function$'' ''$function$''"
    by (simp add: closes_quote_def after_first.simps trim_space_def strip_leading.simps space_encodings_def)
  have head: "trim_space ''CREATE FUNCTION f() RETURNS void'' = ''CREATE FUNCTION f() RETURNS void''"
    by (rule trim_space_printable) (simp add: printable_def)
  have before: "open_lines [] routine_head"
    using line_ends_statement [of "''CREATE FUNCTION f() RETURNS void''"]
    by (simp add: routine_head_def head quiet_line_def pg_is_meta_command_def pg_is_copy_from_stdin_def upper_char_def dollar_tag_here_def printable_def)
  have first: "trim_space ''AS $function$'' = ''AS $function$''"
    by (rule trim_space_printable) (simp add: printable_def)
  have opens: "opens_quote ''AS $function$'' ''$function$''"
    by (simp add: opens_quote_def first pg_is_meta_command_def pg_is_copy_from_stdin_def upper_char_def dollar_tag_here_def
        is_tag_char_def is_digit_def)
  have semi: "trim_space '';'' = '';''" by (rule trim_space_printable) (simp add: printable_def)
  let ?text = "joined_rows (routine_head @ ''AS $function$'' # routine_lines) @ ''$function$''"
  have "\<not> ends_statement (?text @ [newline])" "ends_statement ((?text @ newline # '';'') @ [newline])"
    using line_ends_statement [of ?text] line_ends_statement [of "?text @ newline # '';''"] by (simp_all add: routine_head_def printable_def)
  then have "ending_lines (joined_rows (routine_head @ ''AS $function$'' # routine_lines @ [''$function$''])) ['';'']"
    by (simp add: quiet_line_def semi pg_is_meta_command_def pg_is_copy_from_stdin_def upper_char_def dollar_tag_here_def)
  then have "routine_shape ''$function$'' routine_head ''AS $function$'' routine_lines ''$function$'' ['';'']"
    using before opens body closing by (simp add: routine_shape_def)
  from routine_body_is_one_statement [OF this, of None "[''SELECT 1;'']"] show ?thesis by (simp add: Let_def split: prod.split)
qed

lemma strip_one_took: "strip_one es s = Some s' \<Longrightarrow> \<exists>e\<in>set es. s = e @ s'"
  by (induction es) (auto simp: has_prefix_iff split: if_splits)

lemma strip_leading_keeps:
  "\<forall>e\<in>set es. \<forall>x\<in>set e. \<not> printable x \<Longrightarrow> printable c \<Longrightarrow> c \<in> set s \<Longrightarrow> c \<in> set (strip_leading es s)"
proof (induction es s rule: strip_leading.induct)
  case (1 es s)
  show ?case
  proof (cases "strip_one es s")
    case None
    then show ?thesis using 1 by (simp add: strip_leading.simps)
  next
    case (Some s')
    then obtain e where "e \<in> set es" "s = e @ s'" using strip_one_took by blast
    then have "c \<in> set s'" using 1 by auto
    then show ?thesis using 1 Some strip_leading.simps [of es s] by simp
  qed
qed

lemma trim_space_keeps: "printable c \<Longrightarrow> c \<in> set s \<Longrightarrow> c \<in> set (trim_space s)"
proof -
  assume c: "printable c" "c \<in> set s"
  have enc: "\<forall>e\<in>set space_encodings. \<forall>x\<in>set e. \<not> printable x" by (simp add: space_encodings_def printable_def)
  then have rev: "\<forall>e\<in>set (map rev space_encodings). \<forall>x\<in>set e. \<not> printable x" by simp
  from strip_leading_keeps [OF enc c] strip_leading_keeps [OF rev c(1)] show ?thesis by (simp add: trim_space_def)
qed

lemma dollar_found: "find_dollar_quote s = Some p \<Longrightarrow> CHR ''$'' \<in> set s"
  by (induction s rule: find_dollar_quote.induct) (auto simp: dollar_tag_here_def Let_def split: option.splits if_splits)

text \<open>
  C36: A dollar quote inside an ordinary literal is taken for one that opens a body: when no later
  line holds the same tag, everything from that line to the end of the dump, the rows of every table
  still to come included, is handed to the server as one statement, and no COPY block is seen.
\<close>

theorem dollar_in_a_literal_swallows_the_dump:
  assumes "opens_quote line t" and "list_all (\<lambda>l. after_first t l = None) ls"
  shows "pg_statements None [] None (line # ls) = ([Statement (trim_space (joined_rows (line # ls)))], None)"
proof -
  have "CHR ''$'' \<in> set line" using assms(1) dollar_found by (auto simp: opens_quote_def split: option.splits)
  then have "CHR ''$'' \<in> set (trim_space (joined_rows (line # ls)))" by (intro trim_space_keeps) (simp_all add: printable_def)
  then have "trim_space (joined_rows (line # ls)) \<noteq> []" by force
  then show ?thesis
    using body_is_kept [OF assms(2), of None "line @ [newline]" "[]"]
    by (simp add: quote_opened [OF assms(1)] pg_statements.simps(1))
qed

definition unit_check :: string where
  "unit_check = ''ALTER TABLE p ADD CHECK (unit <> '' @ [squote] @ ''$$'' @ [squote] @ '');''"

definition unit_rows :: "string list" where
  "unit_rows = [''COPY p FROM STDIN;'', ''1'', [backslash, CHR ''.''], [], ''CREATE INDEX i ON p (unit);'']"

theorem dollar_in_a_literal_swallows_the_dump_witness:
  "pg_statements None [] None (unit_check # unit_rows) = ([Statement (trim_space (joined_rows (unit_check # unit_rows)))], None)"
proof -
  have trim: "trim_space unit_check = unit_check"
    by (rule trim_space_printable) (simp add: unit_check_def printable_def)
  have "\<not> has_prefix (to_upper unit_check) ''COPY ''" by (simp add: unit_check_def upper_char_def)
  then have "opens_quote unit_check ''$$''"
    unfolding opens_quote_def pg_is_copy_from_stdin_def trim
    by (simp add: unit_check_def pg_is_meta_command_def dollar_tag_here_def is_tag_char_def)
  moreover have "list_all (\<lambda>l. after_first ''$$'' l = None) unit_rows"
    by (simp add: unit_rows_def after_first.simps)
  ultimately show ?thesis by (rule dollar_in_a_literal_swallows_the_dump)
qed

end
