(* ===== verification/PgRestore.thy ===== *)
theory PgRestore
  imports PgSplit
begin

text \<open>
  Dumping and restoring a PostgreSQL database over a connection, the rest of the order in which
  things happen in \<open>postgresql.go\<close> and \<open>postgresql_parallel.go\<close>: the schemas a dump is written
  under, and what a restore sends when. The server's answers are the environment.
\<close>

section \<open>The schemas of a dump\<close>

record pg_dump_scope =
  pd_schemas :: "string list"
  pd_rename :: "string \<rightharpoonup> string"
  pd_qualify :: bool

definition new_pg_dump_scope :: "string list \<Rightarrow> (string \<rightharpoonup> string) \<Rightarrow> pg_dump_scope" where
  "new_pg_dump_scope schemas rename = \<lparr>pd_schemas = schemas, pd_rename = rename, pd_qualify = (length schemas > 1)\<rparr>"

definition scope_out :: "pg_dump_scope \<Rightarrow> string \<Rightarrow> string" where
  "scope_out s schema = (case pd_rename s schema of Some to \<Rightarrow> if to \<noteq> [] then to else schema | None \<Rightarrow> schema)"

definition scope_ident :: "pg_dump_scope \<Rightarrow> string \<Rightarrow> string \<Rightarrow> string" where
  "scope_ident s schema name = (if \<not> pd_qualify s then pg_quote_ident name else pg_qualify_ident schema name)"

definition scope_covers :: "pg_dump_scope \<Rightarrow> string \<Rightarrow> bool" where
  "scope_covers s schema \<longleftrightarrow> list_ex (\<lambda>h. h = schema) (pd_schemas s)"

definition scope_preamble :: "pg_dump_scope \<Rightarrow> string" where
  "scope_preamble s =
     (if \<not> pd_qualify s then []
      else concat (map (\<lambda>schema. ''CREATE SCHEMA IF NOT EXISTS '' @ pg_quote_ident schema @ '';'' @ [newline]) (pd_schemas s)) @ [newline])"

text \<open>Which schemas \<open>pgRenameStatements\<close> renames, in order, and the statements it writes for them.\<close>

definition rename_list :: "string list \<Rightarrow> (string \<rightharpoonup> string) \<Rightarrow> (string \<times> string) list" where
  "rename_list order rename =
     List.map_filter
       (\<lambda>schema. case rename schema of
                   None \<Rightarrow> None
                 | Some to \<Rightarrow> if to = [] \<or> to = schema then None else Some (schema, to)) order"

definition rename_statement :: "string \<times> string \<Rightarrow> string" where
  "rename_statement r = ''ALTER SCHEMA '' @ pg_quote_ident (fst r) @ '' RENAME TO '' @ pg_quote_ident (snd r) @ '';''"

definition pg_rename_statements :: "string list \<Rightarrow> (string \<rightharpoonup> string) \<Rightarrow> string" where
  "pg_rename_statements order rename =
     (let ss = concat (map (\<lambda>r. rename_statement r @ [newline]) (rename_list order rename))
      in if ss = [] then [] else newline # ss)"

definition scope_rename_tail :: "pg_dump_scope \<Rightarrow> string" where
  "scope_rename_tail s = (if \<not> pd_qualify s then [] else pg_rename_statements (pd_schemas s) (pd_rename s))"

section \<open>Kinds of statements\<close>

definition upper_head :: "string \<Rightarrow> string" where
  "upper_head stmt = to_upper (trim_space stmt)"

definition pg_is_post_data_stmt :: "string \<Rightarrow> bool" where
  "pg_is_post_data_stmt stmt =
     (let head = upper_head stmt
      in has_prefix head ''CREATE TRIGGER'' \<or> has_prefix head ''CREATE CONSTRAINT TRIGGER''
         \<or> (has_prefix head ''ALTER TABLE'' \<and> contains head ''ADD CONSTRAINT'' \<and> contains head ''FOREIGN KEY''))"

definition pg_is_create_index_stmt :: "string \<Rightarrow> bool" where
  "pg_is_create_index_stmt stmt =
     (let head = upper_head stmt in has_prefix head ''CREATE INDEX'' \<or> has_prefix head ''CREATE UNIQUE INDEX'')"

definition pg_is_session_setting :: "string \<Rightarrow> bool" where
  "pg_is_session_setting stmt =
     (let s = upper_head stmt
      in (has_prefix s ''SET '' \<and> \<not> has_prefix s ''SET LOCAL '') \<or> has_prefix s ''SELECT PG_CATALOG.SET_CONFIG('')"

definition pg_is_setval :: "string \<Rightarrow> bool" where
  "pg_is_setval stmt = has_prefix (upper_head stmt) ''SELECT PG_CATALOG.SETVAL(''"

text \<open>
  \<open>pgMatViewRe\<close>: an identifier, quoted or of word characters; the optional schema in front of one;
  the keywords; and the first place in a statement where all of it is found.
\<close>

definition ident_here :: "string \<Rightarrow> (string \<times> string) option" where
  "ident_here s =
     (if has_prefix s [dquote] then
        (case pg_quoted (drop 1 s) of Some (i, r) \<Rightarrow> if i = [] then None else Some (i, r) | None \<Rightarrow> None)
      else (let w = takeWhile is_tag_char s in if w = [] then None else Some (w, drop (length w) s)))"

definition ident_pattern :: "string \<Rightarrow> (string \<times> string) option" where
  "ident_pattern s =
     (case ident_here s of
        None \<Rightarrow> None
      | Some (a, r) \<Rightarrow>
          (case dropWhile is_re_space r of
             [] \<Rightarrow> Some ([], a)
           | c # r' \<Rightarrow>
               (if c \<noteq> CHR ''.'' then Some ([], a)
                else (case ident_here (dropWhile is_re_space r') of
                        None \<Rightarrow> Some ([], a)
                      | Some (b, _) \<Rightarrow> Some (a, b)))))"

definition some_space :: "string \<Rightarrow> string option" where
  "some_space s = (case s of [] \<Rightarrow> None | c # _ \<Rightarrow> if is_re_space c then Some (dropWhile is_re_space s) else None)"

definition mat_view_here :: "string \<Rightarrow> (string \<times> string) option" where
  "mat_view_here s =
     Option.bind (fold_prefix ''CREATE'' s) (\<lambda>s. Option.bind (some_space s) (\<lambda>s.
     Option.bind (fold_prefix ''MATERIALIZED'' s) (\<lambda>s. Option.bind (some_space s) (\<lambda>s.
     Option.bind (fold_prefix ''VIEW'' s) (\<lambda>s. Option.bind (some_space s) ident_pattern)))))"

fun find_mat_view :: "string \<Rightarrow> (string \<times> string) option" where
  "find_mat_view [] = None"
| "find_mat_view (c # s) = (case mat_view_here (c # s) of Some p \<Rightarrow> Some p | None \<Rightarrow> find_mat_view s)"

definition pg_extract_mat_view_ident :: "string \<Rightarrow> string" where
  "pg_extract_mat_view_ident stmt =
     (case find_mat_view stmt of None \<Rightarrow> [] | Some (schema, name) \<Rightarrow> if name = [] then [] else pg_qualify_ident schema name)"

section \<open>What a restore sends\<close>

text \<open>
  In order: the driver's own settings, a statement of the dump, rows on the restore's connection,
  the opening of the copy connections with the settings they start with, a block handed to them,
  a wait for every block in flight, a setting repeated on each of them, and a refresh.
\<close>

datatype pg_event =
    Setting string
  | Run string
  | CopyIn string "string list"
  | OpenCopiers "string list" bool
  | Spool string "string list"
  | WaitCopies
  | SetCopiers string
  | Refresh string

type_synonym pg_trace = "pg_event list"

record pg_target =
  pt_answer :: "pg_trace \<Rightarrow> pg_event \<Rightarrow> string option"
  pt_mem_lower :: "pg_trace \<Rightarrow> string + bool"

datatype pg_restore_error =
    ServerRefused string
  | StatementFailed restore_failure
  | DumpUnreadable scan_fault

record pg_run =
  pr_trace :: pg_trace
  pr_ncopy :: int
  pr_copier :: bool
  pr_replica :: bool
  pr_session :: "string list"
  pr_copied :: bool
  pr_memTried :: bool
  pr_mem :: bool
  pr_indexes :: "string list"
  pr_post :: "string list"
  pr_views :: "string list"

type_synonym pg_result = "pg_restore_error option \<times> pg_run"

definition send :: "pg_target \<Rightarrow> pg_event \<Rightarrow> (string \<Rightarrow> pg_restore_error) \<Rightarrow> pg_run \<Rightarrow> pg_result" where
  "send srv ev wrap st =
     (map_option wrap (pt_answer srv (pr_trace st) ev), st\<lparr>pr_trace := pr_trace st @ [ev]\<rparr>)"

text \<open>The next step, when the one before it did not fail.\<close>

definition and_then :: "pg_result \<Rightarrow> (pg_run \<Rightarrow> pg_result) \<Rightarrow> pg_result" where
  "and_then r f = (case fst r of Some e \<Rightarrow> (Some e, snd r) | None \<Rightarrow> f (snd r))"

definition set_restore_search_path :: "pg_target \<Rightarrow> dbms_location \<Rightarrow> pg_run \<Rightarrow> pg_result" where
  "set_restore_search_path srv loc st =
     (case loc_PgSchema loc of
        [s] \<Rightarrow> and_then (send srv (Setting (''CREATE SCHEMA IF NOT EXISTS '' @ pg_quote_ident s)) ServerRefused st)
                 (send srv (Setting (''SET search_path = '' @ pg_quote_ident s)) ServerRefused)
      | _ \<Rightarrow> (None, st))"

definition raise_index_build_mem :: "pg_target \<Rightarrow> pg_run \<Rightarrow> bool \<times> pg_run" where
  "raise_index_build_mem srv st =
     (case pt_mem_lower srv (pr_trace st) of
        Inr True \<Rightarrow>
          (let (err, st') = send srv (Setting (''SET maintenance_work_mem = '' @ [squote] @ ''512MB'' @ [squote])) ServerRefused st
           in (err = None, st'))
      | _ \<Rightarrow> (False, st))"

definition failed_statement :: "dbms_location \<Rightarrow> int \<Rightarrow> string \<Rightarrow> int \<Rightarrow> string \<Rightarrow> pg_restore_error" where
  "failed_statement loc found stmt i err = StatementFailed (restore_statement_error (loc_Database loc) stmt i found err)"

fun run_all :: "pg_target \<Rightarrow> (string \<Rightarrow> pg_event) \<Rightarrow> (int \<Rightarrow> string \<Rightarrow> string \<Rightarrow> pg_restore_error) \<Rightarrow> int \<Rightarrow> string list \<Rightarrow> pg_run \<Rightarrow> pg_result" where
  "run_all srv ev wrap i [] st = (None, st)"
| "run_all srv ev wrap i (s # ss) st = and_then (send srv (ev s) (wrap i s) st) (run_all srv ev wrap (i + 1) ss)"

definition build_post_indexes :: "pg_target \<Rightarrow> dbms_location \<Rightarrow> string list \<Rightarrow> pg_run \<Rightarrow> pg_result" where
  "build_post_indexes srv loc stmts st =
     (if stmts = [] then (None, st)
      else (let (raised, st) = raise_index_build_mem srv st
            in and_then (run_all srv Run (\<lambda>i s. failed_statement loc (int (length stmts)) s i) 1 stmts st)
                 (\<lambda>st. if raised then send srv (Setting ''RESET maintenance_work_mem'') ServerRefused st else (None, st))))"

section \<open>One entry of the dump\<close>

definition note_mat_view :: "string \<Rightarrow> pg_run \<Rightarrow> pg_run" where
  "note_mat_view stmt st =
     (if contains (to_upper stmt) ''CREATE MATERIALIZED VIEW'' \<and> pg_extract_mat_view_ident stmt \<noteq> []
      then st\<lparr>pr_views := pr_views st @ [pg_extract_mat_view_ident stmt]\<rparr> else st)"

definition rows_fault :: "rows_end \<Rightarrow> scan_fault option" where
  "rows_fault e = (case e of RowsFault f \<Rightarrow> Some f | _ \<Rightarrow> None)"

definition open_copiers :: "pg_target \<Rightarrow> pg_run \<Rightarrow> pg_run" where
  "open_copiers srv st =
     (if pr_ncopy st > 1 \<and> \<not> pr_copier st then
        (let (err, st') = send srv (OpenCopiers (pr_session st) (pr_replica st)) ServerRefused st
         in if err = None then st'\<lparr>pr_copier := True\<rparr> else st'\<lparr>pr_ncopy := 1\<rparr>)
      else st)"

definition restore_copy :: "pg_target \<Rightarrow> dbms_location \<Rightarrow> int \<Rightarrow> int \<Rightarrow> string \<Rightarrow> string list \<Rightarrow> rows_end \<Rightarrow> pg_run \<Rightarrow> pg_result" where
  "restore_copy srv loc found i header rows e st =
     (let st = open_copiers srv (st\<lparr>pr_copied := True\<rparr>)
      in if pr_copier st then
           (case rows_fault e of
              Some f \<Rightarrow> (Some (DumpUnreadable f), st)
            | None \<Rightarrow> send srv (Spool header rows) ServerRefused st)
         else
           (case rows_fault e of
              Some f \<Rightarrow> (Some (DumpUnreadable f), st\<lparr>pr_trace := pr_trace st @ [CopyIn header rows]\<rparr>)
            | None \<Rightarrow> and_then (send srv (CopyIn header rows) (failed_statement loc found header i) st)
                        (\<lambda>st. (None, note_mat_view header st))))"

definition wait_copies :: "pg_target \<Rightarrow> pg_run \<Rightarrow> pg_result" where
  "wait_copies srv st = send srv WaitCopies ServerRefused st"

definition restore_plain :: "pg_target \<Rightarrow> dbms_location \<Rightarrow> int \<Rightarrow> int \<Rightarrow> string \<Rightarrow> pg_run \<Rightarrow> pg_result" where
  "restore_plain srv loc found i stmt st =
     (let st = (if pr_copied st \<and> \<not> pr_memTried st \<and> pg_is_create_index_stmt stmt then
                  (let (m, st') = raise_index_build_mem srv st in st'\<lparr>pr_memTried := True, pr_mem := m\<rparr>) else st)
      in and_then
           (if pr_copier st \<and> \<not> pg_is_setval stmt then
              and_then (wait_copies srv st)
                (\<lambda>st. if pg_is_session_setting stmt then send srv (SetCopiers stmt) ServerRefused st else (None, st))
            else (None, st))
           (\<lambda>st. and_then (send srv (Run stmt) (failed_statement loc found stmt i) st)
             (\<lambda>st. let st = (if \<not> pr_copier st \<and> pg_is_session_setting stmt then st\<lparr>pr_session := pr_session st @ [stmt]\<rparr> else st)
                   in (None, note_mat_view stmt st))))"

definition restore_entry :: "pg_target \<Rightarrow> dbms_location \<Rightarrow> int \<Rightarrow> int \<Rightarrow> pg_entry \<Rightarrow> pg_run \<Rightarrow> pg_result" where
  "restore_entry srv loc found i entry st =
     (case entry of
        CopyBlock header rows e \<Rightarrow>
          (let stmt = strip_leading_comments header
           in if stmt = [] then (map_option DumpUnreadable (rows_fault e), st) else restore_copy srv loc found i stmt rows e st)
      | Statement s \<Rightarrow>
          (let stmt = strip_leading_comments s
           in if stmt = [] then (None, st)
              else if pg_is_post_data_stmt stmt then (None, st\<lparr>pr_post := pr_post st @ [stmt]\<rparr>)
              else if \<not> pr_copied st \<and> pg_is_create_index_stmt stmt then (None, st\<lparr>pr_indexes := pr_indexes st @ [stmt]\<rparr>)
              else restore_plain srv loc found i stmt st))"

fun restore_entries :: "pg_target \<Rightarrow> dbms_location \<Rightarrow> int \<Rightarrow> int \<Rightarrow> pg_entry list \<Rightarrow> pg_run \<Rightarrow> pg_result" where
  "restore_entries srv loc found i [] st = (None, st)"
| "restore_entries srv loc found i (e # es) st = and_then (restore_entry srv loc found i e st) (restore_entries srv loc found (i + 1) es)"

section \<open>The restore\<close>

definition new_pg_run :: "int \<Rightarrow> pg_run" where
  "new_pg_run ncopy =
     \<lparr>pr_trace = [], pr_ncopy = ncopy, pr_copier = False, pr_replica = False, pr_session = [], pr_copied = False,
      pr_memTried = False, pr_mem = False, pr_indexes = [], pr_post = [], pr_views = []\<rparr>"

definition restore_setup :: "pg_target \<Rightarrow> dbms_location \<Rightarrow> pg_run \<Rightarrow> pg_result" where
  "restore_setup srv loc st =
     and_then (set_restore_search_path srv loc st) (\<lambda>st.
       let (err, st) = send srv (Setting ''SET session_replication_role = replica'') ServerRefused st
       in send srv (Setting ''SET check_function_bodies = false'') ServerRefused (st\<lparr>pr_replica := (err = None)\<rparr>))"

definition restore_finish :: "pg_target \<Rightarrow> dbms_location \<Rightarrow> pg_run \<Rightarrow> pg_result" where
  "restore_finish srv loc st =
     and_then (build_post_indexes srv loc (pr_indexes st) st) (\<lambda>st.
     and_then (run_all srv Run (\<lambda>i s. failed_statement loc (int (length (pr_post st))) s i) 1 (pr_post st) st) (\<lambda>st.
     and_then (if pr_replica st then send srv (Setting ''SET session_replication_role = DEFAULT'') ServerRefused st else (None, st)) (\<lambda>st.
     and_then (if pr_mem st then send srv (Setting ''RESET maintenance_work_mem'') ServerRefused st else (None, st)) (\<lambda>st.
       run_all srv Refresh (\<lambda>i mv e. ServerRefused e) 1 (pr_views st) st))))"

text \<open>
  \<open>ncopy\<close> is what \<open>RestoreConnections\<close> allows and \<open>found\<close> the statements counted beside the
  restore by the time one fails. A load in flight that failed is the cause, ahead of the reader.
\<close>

definition restore_via_sql :: "pg_target \<Rightarrow> dbms_location \<Rightarrow> int \<Rightarrow> int \<Rightarrow> string \<Rightarrow> scan_fault option \<Rightarrow> pg_result" where
  "restore_via_sql srv loc ncopy found text fault =
     and_then (restore_setup srv loc (new_pg_run ncopy)) (\<lambda>st.
       let (entries, f) = each_pg_statement text fault;
           (err, st) = restore_entries srv loc found 1 entries st;
           (werr, st) = (if pr_copier st then wait_copies srv st else (None, st))
       in case werr of
            Some e \<Rightarrow> (Some e, st)
          | None \<Rightarrow> (case (case err of Some e \<Rightarrow> Some e | None \<Rightarrow> map_option DumpUnreadable f) of
                       Some e \<Rightarrow> (Some e, st)
                     | None \<Rightarrow> restore_finish srv loc st))"

section \<open>The order of a restore\<close>

text \<open>
  What is sent of the dump itself: its statements and the rows of its COPY blocks, in the order they
  leave, whichever connection takes the rows. A block handed to the copy connections is loaded there
  while the restore goes on; \<open>in_flight\<close> below says until when.
\<close>

datatype sent = Ran string | Loaded string "string list"

definition sent_by :: "pg_event \<Rightarrow> sent list" where
  "sent_by ev = (case ev of Run s \<Rightarrow> [Ran s] | CopyIn h r \<Rightarrow> [Loaded h r] | Spool h r \<Rightarrow> [Loaded h r] | _ \<Rightarrow> [])"

definition sent_in :: "pg_trace \<Rightarrow> sent list" where
  "sent_in t = concat (map sent_by t)"

fun sent_at_once :: "bool \<Rightarrow> pg_entry list \<Rightarrow> sent list" where
  "sent_at_once copied [] = []"
| "sent_at_once copied (CopyBlock h rows e # es) =
     (let stmt = strip_leading_comments h
      in if stmt = [] then sent_at_once copied es else Loaded stmt rows # sent_at_once True es)"
| "sent_at_once copied (Statement s # es) =
     (let stmt = strip_leading_comments s
      in if stmt = [] \<or> pg_is_post_data_stmt stmt \<or> (\<not> copied \<and> pg_is_create_index_stmt stmt)
         then sent_at_once copied es else Ran stmt # sent_at_once copied es)"

fun held_indexes :: "bool \<Rightarrow> pg_entry list \<Rightarrow> string list" where
  "held_indexes copied [] = []"
| "held_indexes copied (CopyBlock h rows e # es) = held_indexes (copied \<or> strip_leading_comments h \<noteq> []) es"
| "held_indexes copied (Statement s # es) =
     (let stmt = strip_leading_comments s
      in if stmt \<noteq> [] \<and> \<not> pg_is_post_data_stmt stmt \<and> \<not> copied \<and> pg_is_create_index_stmt stmt
         then stmt # held_indexes copied es else held_indexes copied es)"

fun held_post_data :: "pg_entry list \<Rightarrow> string list" where
  "held_post_data [] = []"
| "held_post_data (CopyBlock h rows e # es) = held_post_data es"
| "held_post_data (Statement s # es) =
     (let stmt = strip_leading_comments s
      in if stmt \<noteq> [] \<and> pg_is_post_data_stmt stmt then stmt # held_post_data es else held_post_data es)"

lemma sent_in_simps [simp]: "sent_in [] = []" "sent_in (t @ u) = sent_in t @ sent_in u" "sent_in (ev # t) = sent_by ev @ sent_in t"
  by (simp_all add: sent_in_def)

text \<open>What a step leaves alone: the statements held back and whether rows were met.\<close>

definition plan_of :: "pg_run \<Rightarrow> bool \<times> string list \<times> string list" where
  "plan_of st = (pr_copied st, pr_indexes st, pr_post st)"

lemma and_then_done: "and_then r f = (None, st') \<longleftrightarrow> fst r = None \<and> f (snd r) = (None, st')"
  by (auto simp: and_then_def split: option.split)

lemma and_then_iff: "and_then r f = (None, st') \<longleftrightarrow> (\<exists>s. r = (None, s) \<and> f s = (None, st'))"
  by (cases r) (auto simp: and_then_def split: option.split)

lemma send_sent [simp]:
  "sent_in (pr_trace (snd (send srv ev w st))) = sent_in (pr_trace st) @ sent_by ev"
  "plan_of (snd (send srv ev w st)) = plan_of st"
  by (simp_all add: send_def plan_of_def)

lemma send_keeps [simp]:
  "pr_copier (snd (send srv ev w st)) = pr_copier st" "pr_copied (snd (send srv ev w st)) = pr_copied st"
  by (simp_all add: send_def)

lemma raise_sent [simp]:
  "sent_in (pr_trace (snd (raise_index_build_mem srv st))) = sent_in (pr_trace st)"
  "plan_of (snd (raise_index_build_mem srv st)) = plan_of st"
  by (auto simp: raise_index_build_mem_def send_def plan_of_def sent_by_def split: sum.split bool.split)

lemma note_sent [simp]:
  "pr_trace (note_mat_view stmt st) = pr_trace st" "plan_of (note_mat_view stmt st) = plan_of st"
  by (simp_all add: note_mat_view_def plan_of_def)

lemma open_copiers_sent [simp]:
  "sent_in (pr_trace (open_copiers srv st)) = sent_in (pr_trace st)" "plan_of (open_copiers srv st) = plan_of st"
  by (auto simp: open_copiers_def send_def plan_of_def sent_by_def)

lemma restore_copy_sent:
  assumes "restore_copy srv loc found i h rows e st = (None, st')"
  shows "sent_in (pr_trace st') = sent_in (pr_trace st) @ [Loaded h rows] \<and> plan_of st' = (True, pr_indexes st, pr_post st)"
proof -
  let ?o = "open_copiers srv (st\<lparr>pr_copied := True\<rparr>)"
  have o: "plan_of ?o = (True, pr_indexes st, pr_post st)" "sent_in (pr_trace ?o) = sent_in (pr_trace st)"
    by (simp_all, simp add: plan_of_def)
  show ?thesis
  proof (cases "pr_copier ?o")
    case True
    then have "st' = snd (send srv (Spool h rows) ServerRefused ?o)"
      using assms by (auto simp: restore_copy_def Let_def split: option.splits)
    then show ?thesis using o by (simp add: sent_by_def)
  next
    case False
    then have "st' = note_mat_view h (snd (send srv (CopyIn h rows) (failed_statement loc found h i) ?o))"
      using assms by (auto simp: restore_copy_def Let_def and_then_done split: option.splits)
    then show ?thesis using o by (simp add: sent_by_def)
  qed
qed

lemma wait_and_set_sent:
  assumes "(if c then and_then (wait_copies srv st) (\<lambda>st. if d then send srv (SetCopiers s) ServerRefused st else (None, st)) else (None, st)) = (None, st')"
  shows "sent_in (pr_trace st') = sent_in (pr_trace st) \<and> plan_of st' = plan_of st"
proof -
  have "st' = snd (send srv (SetCopiers s) ServerRefused (snd (send srv WaitCopies ServerRefused st)))
      \<or> st' = snd (send srv WaitCopies ServerRefused st) \<or> st' = st"
    using assms by (auto simp: wait_copies_def and_then_done split: if_splits)
  then show ?thesis by (auto simp: sent_by_def)
qed

lemma restore_plain_sent:
  assumes "restore_plain srv loc found i stmt st = (None, st')"
  shows "sent_in (pr_trace st') = sent_in (pr_trace st) @ [Ran stmt] \<and> plan_of st' = plan_of st"
proof -
  define st1 where "st1 = (if pr_copied st \<and> \<not> pr_memTried st \<and> pg_is_create_index_stmt stmt then
      (let (m, st') = raise_index_build_mem srv st in st'\<lparr>pr_memTried := True, pr_mem := m\<rparr>) else st)"
  obtain m st0 where raised: "raise_index_build_mem srv st = (m, st0)" by fastforce
  have "sent_in (pr_trace st0) = sent_in (pr_trace st)" "plan_of st0 = plan_of st"
    using raise_sent [of srv st] unfolding raised by simp_all
  then have 1: "sent_in (pr_trace st1) = sent_in (pr_trace st) \<and> plan_of st1 = plan_of st"
    by (auto simp: st1_def raised plan_of_def)
  have "and_then (if pr_copier st1 \<and> \<not> pg_is_setval stmt then and_then (wait_copies srv st1)
        (\<lambda>st. if pg_is_session_setting stmt then send srv (SetCopiers stmt) ServerRefused st else (None, st)) else (None, st1))
      (\<lambda>st. and_then (send srv (Run stmt) (failed_statement loc found stmt i) st)
        (\<lambda>st. let st = (if \<not> pr_copier st \<and> pg_is_session_setting stmt then st\<lparr>pr_session := pr_session st @ [stmt]\<rparr> else st)
              in (None, note_mat_view stmt st))) = (None, st')"
    using assms by (simp only: restore_plain_def st1_def Let_def)
  then obtain st2 where st2: "(if pr_copier st1 \<and> \<not> pg_is_setval stmt then and_then (wait_copies srv st1)
        (\<lambda>st. if pg_is_session_setting stmt then send srv (SetCopiers stmt) ServerRefused st else (None, st)) else (None, st1)) = (None, st2)"
    and st3: "and_then (send srv (Run stmt) (failed_statement loc found stmt i) st2)
        (\<lambda>st. let st = (if \<not> pr_copier st \<and> pg_is_session_setting stmt then st\<lparr>pr_session := pr_session st @ [stmt]\<rparr> else st)
              in (None, note_mat_view stmt st)) = (None, st')"
    unfolding and_then_iff [of "if pr_copier st1 \<and> \<not> pg_is_setval stmt then _ else _"] by blast
  have 2: "sent_in (pr_trace st2) = sent_in (pr_trace st1) \<and> plan_of st2 = plan_of st1"
    using wait_and_set_sent [OF st2] .
  let ?st4 = "snd (send srv (Run stmt) (failed_statement loc found stmt i) st2)"
  have "\<exists>st5. st' = note_mat_view stmt st5 \<and> pr_trace st5 = pr_trace ?st4 \<and> plan_of st5 = plan_of ?st4"
    using st3 by (auto simp: and_then_done Let_def plan_of_def split: if_splits)
  then show ?thesis using 1 2 send_sent [of srv "Run stmt" "failed_statement loc found stmt i" st2]
    by (auto simp: sent_by_def)
qed

lemma restore_entry_sent:
  assumes "restore_entry srv loc found i e st = (None, st')"
  shows "sent_in (pr_trace st') @ sent_at_once (pr_copied st') es = sent_in (pr_trace st) @ sent_at_once (pr_copied st) (e # es)
    \<and> pr_indexes st' @ held_indexes (pr_copied st') es = pr_indexes st @ held_indexes (pr_copied st) (e # es)
    \<and> pr_post st' @ held_post_data es = pr_post st @ held_post_data (e # es)"
proof (cases e)
  case (CopyBlock h rows r)
  show ?thesis
  proof (cases "strip_leading_comments h = []")
    case False
    then have "restore_copy srv loc found i (strip_leading_comments h) rows r st = (None, st')"
      using assms CopyBlock by (simp add: restore_entry_def Let_def)
    from restore_copy_sent [OF this] show ?thesis using False CopyBlock by (simp add: plan_of_def)
  qed (use assms CopyBlock in \<open>simp add: restore_entry_def Let_def\<close>)
next
  case (Statement s)
  let ?s = "strip_leading_comments s"
  consider "?s = []" | "?s \<noteq> []" "pg_is_post_data_stmt ?s"
    | "?s \<noteq> []" "\<not> pg_is_post_data_stmt ?s" "\<not> pr_copied st" "pg_is_create_index_stmt ?s"
    | "?s \<noteq> []" "\<not> pg_is_post_data_stmt ?s" "pr_copied st \<or> \<not> pg_is_create_index_stmt ?s" by blast
  then show ?thesis
  proof cases
    case 4
    then have "restore_plain srv loc found i ?s st = (None, st')"
      using assms Statement by (auto simp: restore_entry_def Let_def)
    from restore_plain_sent [OF this] show ?thesis using 4 Statement by (auto simp: plan_of_def Let_def)
  qed (use assms Statement in \<open>auto simp: restore_entry_def Let_def\<close>)
qed

lemma restore_entries_sent:
  assumes "restore_entries srv loc found i es st = (None, st')"
  shows "sent_in (pr_trace st') = sent_in (pr_trace st) @ sent_at_once (pr_copied st) es
    \<and> pr_indexes st' = pr_indexes st @ held_indexes (pr_copied st) es
    \<and> pr_post st' = pr_post st @ held_post_data es"
  using assms
proof (induction es arbitrary: i st)
  case (Cons e es)
  obtain st1 where 1: "restore_entry srv loc found i e st = (None, st1)" "restore_entries srv loc found (i + 1) es st1 = (None, st')"
    using Cons.prems by (auto simp: and_then_iff)
  show ?case using Cons.IH [OF 1(2)] restore_entry_sent [OF 1(1), of es] by auto
qed simp

lemma run_all_sent:
  assumes "run_all srv ev wrap i ss st = (None, st')"
  shows "sent_in (pr_trace st') = sent_in (pr_trace st) @ concat (map (\<lambda>s. sent_by (ev s)) ss) \<and> plan_of st' = plan_of st"
  using assms
proof (induction ss arbitrary: i st)
  case (Cons s ss)
  have "run_all srv ev wrap (i + 1) ss (snd (send srv (ev s) (wrap i s) st)) = (None, st')"
    using Cons.prems by (simp add: and_then_done)
  from Cons.IH [OF this] show ?case by simp
qed simp

lemma setting_sent:
  "(if c then send srv (Setting s) ServerRefused st else (None, st)) = (None, st') \<Longrightarrow>
   sent_in (pr_trace st') = sent_in (pr_trace st) \<and> plan_of st' = plan_of st"
  using send_sent [of srv "Setting s" ServerRefused st] by (cases c) (simp_all add: sent_by_def)

lemma ran_all: "concat (map (\<lambda>s. sent_by (Run s)) ss) = map Ran ss"
  by (induction ss) (simp_all add: sent_by_def)

lemma build_indexes_sent:
  assumes "build_post_indexes srv loc ss st = (None, st')"
  shows "sent_in (pr_trace st') = sent_in (pr_trace st) @ map Ran ss \<and> plan_of st' = plan_of st"
proof (cases "ss = []")
  case False
  obtain m st0 where raised: "raise_index_build_mem srv st = (m, st0)" by fastforce
  obtain st1 where 1: "run_all srv Run (\<lambda>i s. failed_statement loc (int (length ss)) s i) 1 ss st0 = (None, st1)"
    and 2: "(if m then send srv (Setting ''RESET maintenance_work_mem'') ServerRefused st1 else (None, st1)) = (None, st')"
    using assms False by (auto simp: build_post_indexes_def raised and_then_iff)
  show ?thesis
    using run_all_sent [OF 1] setting_sent [OF 2] raise_sent [of srv st] unfolding raised ran_all by simp
qed (use assms in \<open>simp add: build_post_indexes_def\<close>)

lemma restore_finish_sent:
  assumes "restore_finish srv loc st = (None, st')"
  shows "sent_in (pr_trace st') = sent_in (pr_trace st) @ map Ran (pr_indexes st) @ map Ran (pr_post st)"
proof -
  obtain s1 where 1: "build_post_indexes srv loc (pr_indexes st) st = (None, s1)"
    and r1: "and_then (run_all srv Run (\<lambda>i s. failed_statement loc (int (length (pr_post s1))) s i) 1 (pr_post s1) s1) (\<lambda>st.
     and_then (if pr_replica st then send srv (Setting ''SET session_replication_role = DEFAULT'') ServerRefused st else (None, st)) (\<lambda>st.
     and_then (if pr_mem st then send srv (Setting ''RESET maintenance_work_mem'') ServerRefused st else (None, st)) (\<lambda>st.
       run_all srv Refresh (\<lambda>i mv e. ServerRefused e) 1 (pr_views st) st))) = (None, st')"
    using assms unfolding restore_finish_def and_then_iff [of "build_post_indexes srv loc (pr_indexes st) st"] by blast
  obtain s2 where 2: "run_all srv Run (\<lambda>i s. failed_statement loc (int (length (pr_post s1))) s i) 1 (pr_post s1) s1 = (None, s2)"
    and r2: "and_then (if pr_replica s2 then send srv (Setting ''SET session_replication_role = DEFAULT'') ServerRefused s2 else (None, s2)) (\<lambda>st.
     and_then (if pr_mem st then send srv (Setting ''RESET maintenance_work_mem'') ServerRefused st else (None, st)) (\<lambda>st.
       run_all srv Refresh (\<lambda>i mv e. ServerRefused e) 1 (pr_views st) st)) = (None, st')"
    using r1 unfolding and_then_iff [of "run_all srv Run _ _ _ _"] by blast
  obtain s3 where 3: "(if pr_replica s2 then send srv (Setting ''SET session_replication_role = DEFAULT'') ServerRefused s2 else (None, s2)) = (None, s3)"
    and r3: "and_then (if pr_mem s3 then send srv (Setting ''RESET maintenance_work_mem'') ServerRefused s3 else (None, s3)) (\<lambda>st.
       run_all srv Refresh (\<lambda>i mv e. ServerRefused e) 1 (pr_views st) st) = (None, st')"
    using r2 unfolding and_then_iff [of "if pr_replica s2 then _ else _"] by blast
  obtain s4 where 4: "(if pr_mem s3 then send srv (Setting ''RESET maintenance_work_mem'') ServerRefused s3 else (None, s3)) = (None, s4)"
    and 5: "run_all srv Refresh (\<lambda>i mv e. ServerRefused e) 1 (pr_views s4) s4 = (None, st')"
    using r3 unfolding and_then_iff by blast
  have "concat (map (\<lambda>s. sent_by (Refresh s)) vs) = []" for vs by (simp add: sent_by_def)
  then show ?thesis
    using build_indexes_sent [OF 1] run_all_sent [OF 2] setting_sent [OF 3] setting_sent [OF 4] run_all_sent [OF 5]
    by (simp add: ran_all plan_of_def)
qed

lemma restore_setup_sent:
  assumes "restore_setup srv loc (new_pg_run n) = (None, st)"
  shows "sent_in (pr_trace st) = [] \<and> pr_copied st = False \<and> pr_indexes st = [] \<and> pr_post st = []"
proof -
  obtain s1 where 1: "set_restore_search_path srv loc (new_pg_run n) = (None, s1)"
    and 2: "st = snd (send srv (Setting ''SET check_function_bodies = false'') ServerRefused
        ((snd (send srv (Setting ''SET session_replication_role = replica'') ServerRefused s1))
          \<lparr>pr_replica := (fst (send srv (Setting ''SET session_replication_role = replica'') ServerRefused s1) = None)\<rparr>))"
    using assms by (auto simp: restore_setup_def and_then_iff case_prod_beta Let_def)
  have "sent_in (pr_trace s1) = [] \<and> plan_of s1 = (False, [], [])"
    using 1 by (auto simp: set_restore_search_path_def and_then_iff send_def new_pg_run_def plan_of_def sent_by_def sent_in_def split: list.splits)
  then show ?thesis using 2 by (simp add: send_def plan_of_def sent_by_def)
qed

lemma restore_order:
  assumes "restore_via_sql srv loc ncopy found script fault = (None, st)"
  shows "sent_in (pr_trace st) = sent_at_once False (fst (each_pg_statement script fault))
      @ map Ran (held_indexes False (fst (each_pg_statement script fault)))
      @ map Ran (held_post_data (fst (each_pg_statement script fault)))"
proof -
  obtain entries f where dump: "each_pg_statement script fault = (entries, f)" by fastforce
  obtain s0 where 0: "restore_setup srv loc (new_pg_run ncopy) = (None, s0)"
    using assms by (auto simp: restore_via_sql_def and_then_iff)
  obtain err s1 where 1: "restore_entries srv loc found 1 entries s0 = (err, s1)" by fastforce
  obtain werr s2 where 2: "(if pr_copier s1 then wait_copies srv s1 else (None, s1)) = (werr, s2)" by fastforce
  have ok: "err = None" "werr = None" "restore_finish srv loc s2 = (None, st)"
    using assms unfolding restore_via_sql_def 0 dump
    by (auto simp: 1 2 Let_def and_then_def split: option.splits)
  have "sent_in (pr_trace s2) = sent_in (pr_trace s1) \<and> plan_of s2 = plan_of s1"
    using 2 send_sent [of srv WaitCopies ServerRefused s1] by (cases "pr_copier s1") (simp_all add: wait_copies_def sent_by_def)
  then show ?thesis
    using restore_setup_sent [OF 0] restore_entries_sent [OF 1 [unfolded ok(1)]] restore_finish_sent [OF ok(3)]
    by (simp add: dump plan_of_def)
qed

section \<open>Every statement once, and the rows before their guards\<close>

definition commands :: "pg_entry \<Rightarrow> sent list" where
  "commands e =
     (case e of
        CopyBlock h rows r \<Rightarrow> (let stmt = strip_leading_comments h in if stmt = [] then [] else [Loaded stmt rows])
      | Statement s \<Rightarrow> (let stmt = strip_leading_comments s in if stmt = [] then [] else [Ran stmt]))"

lemma commands_once:
  "mset (sent_at_once c es) + mset (map Ran (held_indexes c es)) + mset (map Ran (held_post_data es)) = mset (concat (map commands es))"
proof (induction es arbitrary: c)
  case (Cons e es)
  show ?case
  proof (cases e)
    case (CopyBlock h rows r)
    then show ?thesis
      using Cons.IH [of c] Cons.IH [of True] by (cases "strip_leading_comments h = []") (simp_all add: commands_def [of "CopyBlock h rows r"])
  next
    case (Statement s)
    then show ?thesis using Cons.IH [of c] by (auto simp: commands_def [of "Statement s"] Let_def)
  qed
qed simp

lemma at_once_no_guard: "Ran s \<in> set (sent_at_once c es) \<Longrightarrow> \<not> pg_is_post_data_stmt s"
  by (induction c es rule: sent_at_once.induct) (auto simp: Let_def split: if_splits)

lemma held_index_no_guard: "s \<in> set (held_indexes c es) \<Longrightarrow> \<not> pg_is_post_data_stmt s"
  by (induction c es rule: held_indexes.induct) (auto simp: Let_def split: if_splits)

lemma guard_splits:
  assumes "as @ bs = xs @ Ran s # ys" and "Ran s \<notin> set as" and "\<forall>h r. Loaded h r \<notin> set bs"
  shows "Loaded h r \<notin> set ys"
proof -
  have "\<exists>zs. bs = zs @ Ran s # ys"
    using assms(1, 2) by (auto simp: append_eq_append_conv2 append_eq_Cons_conv)
  then show ?thesis using assms(3) by auto
qed

section \<open>Rows in flight\<close>

text \<open>
  The blocks handed to the copy connections that no wait has answered for: \<open>wait\<close> returns when the
  loads of all blocks handed over before it have ended, and not before.
\<close>

definition flight_step :: "pg_event \<Rightarrow> (string \<times> string list) list \<Rightarrow> (string \<times> string list) list" where
  "flight_step ev bs = (case ev of Spool h r \<Rightarrow> bs @ [(h, r)] | WaitCopies \<Rightarrow> [] | _ \<Rightarrow> bs)"

definition in_flight :: "pg_trace \<Rightarrow> (string \<times> string list) list" where
  "in_flight t = fold flight_step t []"

lemma in_flight_simps [simp]: "in_flight [] = []" "in_flight (t @ [ev]) = flight_step ev (in_flight t)"
  by (simp_all add: in_flight_def)

text \<open>The statements that wait for the rows: all but \<open>setval\<close>, and all that guard rows.\<close>

definition waits_for_rows :: "string \<Rightarrow> bool" where
  "waits_for_rows s \<longleftrightarrow> pg_is_post_data_stmt s \<or> \<not> pg_is_setval s"

definition in_turn :: "pg_trace \<Rightarrow> bool" where
  "in_turn t \<longleftrightarrow> (\<forall>u s v. t = u @ Run s # v \<and> waits_for_rows s \<longrightarrow> in_flight u = [])"

lemma in_turn_Nil [simp]: "in_turn []"
  by (simp add: in_turn_def)

lemma in_turn_snoc: "in_turn t \<Longrightarrow> (\<forall>s. ev = Run s \<and> waits_for_rows s \<longrightarrow> in_flight t = []) \<Longrightarrow> in_turn (t @ [ev])"
proof (unfold in_turn_def, intro allI impI)
  fix u s v
  assume t: "\<forall>u s v. t = u @ Run s # v \<and> waits_for_rows s \<longrightarrow> in_flight u = []"
    and ev: "\<forall>s. ev = Run s \<and> waits_for_rows s \<longrightarrow> in_flight t = []"
    and at: "t @ [ev] = u @ Run s # v \<and> waits_for_rows s"
  show "in_flight u = []"
  proof (cases v rule: rev_cases)
    case Nil
    then show ?thesis using at ev by simp
  next
    case (snoc v' x)
    then show ?thesis using at t by simp
  qed
qed

text \<open>
  Between entries, rows are in flight only when there are copy connections; and while the restore
  winds up, none are.
\<close>

definition between :: "pg_run \<Rightarrow> bool" where
  "between st \<longleftrightarrow> in_turn (pr_trace st) \<and> (\<not> pr_copier st \<longrightarrow> in_flight (pr_trace st) = [])"

definition all_in :: "pg_run \<Rightarrow> bool" where
  "all_in st \<longleftrightarrow> in_turn (pr_trace st) \<and> in_flight (pr_trace st) = []"

lemma all_in_between: "all_in st \<Longrightarrow> between st"
  by (simp add: all_in_def between_def)

lemma between_all_in: "between st \<Longrightarrow> \<not> pr_copier st \<Longrightarrow> all_in st"
  by (simp add: all_in_def between_def)

lemma send_all_in: "all_in st \<Longrightarrow> \<forall>h r. ev \<noteq> Spool h r \<Longrightarrow> all_in (snd (send srv ev w st))"
  by (auto simp: all_in_def send_def flight_step_def intro!: in_turn_snoc split: pg_event.split)

lemma send_between:
  "between st \<Longrightarrow> \<forall>s. ev = Run s \<longrightarrow> \<not> waits_for_rows s \<Longrightarrow> \<forall>h r. ev = Spool h r \<longrightarrow> pr_copier st \<Longrightarrow> between (snd (send srv ev w st))"
  by (auto simp: between_def send_def flight_step_def intro!: in_turn_snoc split: pg_event.split)

lemma wait_all_in: "between st \<Longrightarrow> all_in (snd (send srv WaitCopies w st))"
  by (auto simp: all_in_def between_def send_def flight_step_def intro!: in_turn_snoc)

lemma sent_all_in: "send srv ev w st = (None, st') \<Longrightarrow> all_in st \<Longrightarrow> \<forall>h r. ev \<noteq> Spool h r \<Longrightarrow> all_in st'"
  by (metis send_all_in snd_conv)

lemma if_sent_all_in:
  "(if c then send srv ev w st else (None, st)) = (None, st') \<Longrightarrow> all_in st \<Longrightarrow> \<forall>h r. ev \<noteq> Spool h r \<Longrightarrow> all_in st'"
  by (cases c) (auto dest: sent_all_in)

lemma run_all_in:
  "run_all srv ev wrap i ss st = (None, st') \<Longrightarrow> all_in st \<Longrightarrow> \<forall>s h r. ev s \<noteq> Spool h r \<Longrightarrow> all_in st'"
  by (induction ss arbitrary: i st) (auto simp: and_then_iff dest: sent_all_in)

lemma raise_keeps:
  "between st \<Longrightarrow> between (snd (raise_index_build_mem srv st))" "all_in st \<Longrightarrow> all_in (snd (raise_index_build_mem srv st))"
  "pr_copier (snd (raise_index_build_mem srv st)) = pr_copier st"
  by (auto simp: raise_index_build_mem_def case_prod_beta Let_def intro: send_between send_all_in split: sum.split bool.split)

lemma between_fields [simp]:
  "between (st\<lparr>pr_copied := a\<rparr>) = between st" "between (st\<lparr>pr_memTried := b\<rparr>) = between st" "between (st\<lparr>pr_mem := c\<rparr>) = between st"
  "between (st\<lparr>pr_session := d\<rparr>) = between st" "between (st\<lparr>pr_post := e\<rparr>) = between st" "between (st\<lparr>pr_indexes := f\<rparr>) = between st"
  "between (st\<lparr>pr_ncopy := g\<rparr>) = between st" "between (note_mat_view h st) = between st" "all_in (note_mat_view h st) = all_in st"
  "all_in (st\<lparr>pr_session := d\<rparr>) = all_in st" "all_in (st\<lparr>pr_replica := k\<rparr>) = all_in st"
  by (simp_all add: between_def all_in_def note_mat_view_def)

lemma open_copiers_between: "between st \<Longrightarrow> between (open_copiers srv st)"
proof -
  assume "between st"
  then have "between (snd (send srv (OpenCopiers (pr_session st) (pr_replica st)) ServerRefused st))" by (rule send_between) simp_all
  then show ?thesis using \<open>between st\<close>
    by (auto simp: open_copiers_def case_prod_beta Let_def) (simp add: between_def)
qed

lemma restore_copy_between:
  assumes "restore_copy srv loc found i h rows e st = (None, st')" and "between st"
  shows "between st'"
proof -
  have o: "between (open_copiers srv (st\<lparr>pr_copied := True\<rparr>))" using assms(2) by (intro open_copiers_between) simp
  show ?thesis
  proof (cases "pr_copier (open_copiers srv (st\<lparr>pr_copied := True\<rparr>))")
    case True
    then have "st' = snd (send srv (Spool h rows) ServerRefused (open_copiers srv (st\<lparr>pr_copied := True\<rparr>)))"
      using assms(1) by (auto simp: restore_copy_def Let_def split: option.splits)
    then show ?thesis using send_between [OF o, of "Spool h rows"] True by simp
  next
    case False
    then have "st' = note_mat_view h (snd (send srv (CopyIn h rows) (failed_statement loc found h i) (open_copiers srv (st\<lparr>pr_copied := True\<rparr>))))"
      using assms(1) by (auto simp: restore_copy_def Let_def and_then_done split: option.splits)
    then show ?thesis using send_between [OF o, of "CopyIn h rows"] by simp
  qed
qed

lemma restore_plain_between:
  assumes "restore_plain srv loc found i stmt st = (None, st')" and "between st" and "\<not> pg_is_post_data_stmt stmt"
  shows "between st'"
proof -
  define st1 where "st1 = (if pr_copied st \<and> \<not> pr_memTried st \<and> pg_is_create_index_stmt stmt then
      (let (m, st') = raise_index_build_mem srv st in st'\<lparr>pr_memTried := True, pr_mem := m\<rparr>) else st)"
  have 1: "between st1" using raise_keeps(1) [OF assms(2)] assms(2) by (simp add: st1_def case_prod_beta)
  have "and_then (if pr_copier st1 \<and> \<not> pg_is_setval stmt then and_then (wait_copies srv st1)
        (\<lambda>st. if pg_is_session_setting stmt then send srv (SetCopiers stmt) ServerRefused st else (None, st)) else (None, st1))
      (\<lambda>st. and_then (send srv (Run stmt) (failed_statement loc found stmt i) st)
        (\<lambda>st. let st = (if \<not> pr_copier st \<and> pg_is_session_setting stmt then st\<lparr>pr_session := pr_session st @ [stmt]\<rparr> else st)
              in (None, note_mat_view stmt st))) = (None, st')"
    using assms(1) by (simp only: restore_plain_def st1_def Let_def)
  then obtain st2 where 2: "(if pr_copier st1 \<and> \<not> pg_is_setval stmt then and_then (wait_copies srv st1)
        (\<lambda>st. if pg_is_session_setting stmt then send srv (SetCopiers stmt) ServerRefused st else (None, st)) else (None, st1)) = (None, st2)"
    and 3: "and_then (send srv (Run stmt) (failed_statement loc found stmt i) st2)
        (\<lambda>st. let st = (if \<not> pr_copier st \<and> pg_is_session_setting stmt then st\<lparr>pr_session := pr_session st @ [stmt]\<rparr> else st)
              in (None, note_mat_view stmt st)) = (None, st')"
    unfolding and_then_iff [of "if pr_copier st1 \<and> \<not> pg_is_setval stmt then _ else _"] by blast
  let ?st4 = "snd (send srv (Run stmt) (failed_statement loc found stmt i) st2)"
  have "between ?st4"
  proof (cases "pg_is_setval stmt")
    case True
    then have "between st2" using 1 2 by simp
    then show ?thesis using True assms(3) by (intro send_between) (simp_all add: waits_for_rows_def)
  next
    case False
    have "all_in st2"
    proof (cases "pr_copier st1")
      case True
      then obtain st3 where w: "send srv WaitCopies ServerRefused st1 = (None, st3)"
        and rest: "(if pg_is_session_setting stmt then send srv (SetCopiers stmt) ServerRefused st3 else (None, st3)) = (None, st2)"
        using 2 False by (auto simp: wait_copies_def and_then_iff)
      have "all_in st3" using wait_all_in [OF 1, of srv ServerRefused] by (simp add: w)
      then show ?thesis by (intro if_sent_all_in [OF rest]) simp_all
    next
      case False
      then show ?thesis using 2 between_all_in [OF 1] by simp
    qed
    then show ?thesis by (intro all_in_between send_all_in) simp_all
  qed
  then show ?thesis using 3 by (auto simp: and_then_done Let_def split: if_splits)
qed

lemma restore_entries_between:
  "restore_entries srv loc found i es st = (None, st') \<Longrightarrow> between st \<Longrightarrow> between st'"
proof (induction es arbitrary: i st)
  case (Cons e es)
  obtain s1 where 1: "restore_entry srv loc found i e st = (None, s1)" "restore_entries srv loc found (i + 1) es s1 = (None, st')"
    using Cons.prems(1) by (auto simp: and_then_iff)
  have "between s1"
    using 1(1) Cons.prems(2)
    by (auto simp: restore_entry_def Let_def split: pg_entry.splits if_splits dest: restore_copy_between restore_plain_between)
  then show ?case by (rule Cons.IH [OF 1(2)])
qed simp

lemma build_indexes_all_in: "build_post_indexes srv loc ss st = (None, st') \<Longrightarrow> all_in st \<Longrightarrow> all_in st'"
  using raise_keeps(2) [of st srv]
  by (auto simp: build_post_indexes_def case_prod_beta and_then_iff split: if_splits dest!: run_all_in dest: sent_all_in)

lemma restore_finish_all_in: "restore_finish srv loc st = (None, st') \<Longrightarrow> all_in st \<Longrightarrow> all_in st'"
  unfolding restore_finish_def and_then_iff
  by (elim exE conjE) (drule build_indexes_all_in, assumption, drule run_all_in, assumption, simp,
      drule if_sent_all_in, assumption, simp, drule if_sent_all_in, assumption, simp, drule run_all_in, assumption, simp, assumption)

lemma restore_setup_all_in: "restore_setup srv loc (new_pg_run n) = (None, st) \<Longrightarrow> all_in st"
proof -
  assume su: "restore_setup srv loc (new_pg_run n) = (None, st)"
  have fresh: "all_in (new_pg_run n)" by (simp add: all_in_def new_pg_run_def)
  obtain s1 where 1: "set_restore_search_path srv loc (new_pg_run n) = (None, s1)"
    and 2: "send srv (Setting ''SET check_function_bodies = false'') ServerRefused
        ((snd (send srv (Setting ''SET session_replication_role = replica'') ServerRefused s1))
          \<lparr>pr_replica := (fst (send srv (Setting ''SET session_replication_role = replica'') ServerRefused s1) = None)\<rparr>) = (None, st)"
    using su by (auto simp: restore_setup_def and_then_iff case_prod_beta Let_def)
  have "all_in s1"
    using 1 fresh by (auto simp: set_restore_search_path_def and_then_iff split: list.splits dest!: sent_all_in)
  then have "all_in (snd (send srv (Setting ''SET session_replication_role = replica'') ServerRefused s1))"
    by (rule send_all_in) simp
  then show ?thesis by (intro sent_all_in [OF 2]) simp_all
qed

lemma restore_all_in:
  assumes "restore_via_sql srv loc ncopy found script fault = (None, st)"
  shows "all_in st"
proof -
  obtain entries f where dump: "each_pg_statement script fault = (entries, f)" by fastforce
  obtain s0 where 0: "restore_setup srv loc (new_pg_run ncopy) = (None, s0)"
    using assms by (auto simp: restore_via_sql_def and_then_iff)
  obtain err s1 where 1: "restore_entries srv loc found 1 entries s0 = (err, s1)" by fastforce
  obtain werr s2 where 2: "(if pr_copier s1 then wait_copies srv s1 else (None, s1)) = (werr, s2)" by fastforce
  have ok: "err = None" "werr = None" "restore_finish srv loc s2 = (None, st)"
    using assms unfolding restore_via_sql_def 0 dump
    by (auto simp: 1 2 Let_def and_then_def split: option.splits)
  have s1: "between s1"
    using restore_entries_between [OF 1 [unfolded ok(1)] all_in_between [OF restore_setup_all_in [OF 0]]] .
  have "all_in s2"
  proof (cases "pr_copier s1")
    case True
    then show ?thesis using 2 wait_all_in [OF s1, of srv ServerRefused] by (simp add: wait_copies_def)
  next
    case False
    then show ?thesis using 2 between_all_in [OF s1] by simp
  qed
  then show ?thesis by (rule restore_finish_all_in [OF ok(3)])
qed

text \<open>
  C37: A restore that succeeds has sent the target every statement and every COPY block of the dump,
  each exactly once, and no rows go in beside or after a foreign key or a trigger: when one of
  those is sent, over one connection or several, no block is still loading, and none is sent after
  it, in whatever order the dump has them. The same wait stands ahead of every other statement but
  \<open>setval\<close>, which may pass the rows, and nothing is left loading at the end.
\<close>

theorem rows_are_in_before_their_guards:
  assumes "restore_via_sql srv loc ncopy found script fault = (None, st)"
  shows "mset (sent_in (pr_trace st)) = mset (concat (map commands (fst (each_pg_statement script fault))))
    \<and> (\<forall>u s v. pr_trace st = u @ Run s # v \<and> (pg_is_post_data_stmt s \<or> \<not> pg_is_setval s) \<longrightarrow> in_flight u = [])
    \<and> (\<forall>u s v h r. pr_trace st = u @ Run s # v \<and> pg_is_post_data_stmt s \<longrightarrow> Loaded h r \<notin> set (sent_in v))
    \<and> in_flight (pr_trace st) = []"
proof (intro conjI allI impI)
  let ?es = "fst (each_pg_statement script fault)"
  note order = restore_order [OF assms]
  show "mset (sent_in (pr_trace st)) = mset (concat (map commands ?es))"
    using commands_once [of False ?es] unfolding order by (simp add: add.assoc)
  show "in_flight u = []" if "pr_trace st = u @ Run s # v \<and> (pg_is_post_data_stmt s \<or> \<not> pg_is_setval s)" for u s v
    using restore_all_in [OF assms] that by (auto simp: all_in_def in_turn_def waits_for_rows_def)
  show "in_flight (pr_trace st) = []" using restore_all_in [OF assms] by (simp add: all_in_def)
  fix u s v h r
  assume s: "pr_trace st = u @ Run s # v \<and> pg_is_post_data_stmt s"
  then have sent: "sent_in (pr_trace st) = sent_in u @ Ran s # sent_in v" by (simp add: sent_by_def)
  have "Ran s \<notin> set (sent_at_once False ?es)" "s \<notin> set (held_indexes False ?es)"
    using s at_once_no_guard held_index_no_guard by blast+
  then show "Loaded h r \<notin> set (sent_in v)"
    using sent order by (intro guard_splits [of "sent_at_once False ?es @ map Ran (held_indexes False ?es)"]) auto
qed

section \<open>Renamed schemas\<close>

text \<open>What a restore that succeeds was never refused: a statement of the dump.\<close>

definition accepted :: "pg_target \<Rightarrow> pg_trace \<Rightarrow> bool" where
  "accepted srv t \<longleftrightarrow> (\<forall>u s v. t = u @ Run s # v \<longrightarrow> pt_answer srv u (Run s) = None)"

lemma accepted_snoc: "accepted srv t \<Longrightarrow> (\<forall>s. ev = Run s \<longrightarrow> pt_answer srv t ev = None) \<Longrightarrow> accepted srv (t @ [ev])"
  unfolding accepted_def by (metis (no_types, lifting) append_eq_Cons_conv append_eq_append_conv2 append_self_conv butlast_append butlast_snoc last_snoc list.sel(3) list.simps(3) rev_exhaust append.assoc append_Cons)

abbreviation was_accepted :: "pg_target \<Rightarrow> pg_run \<Rightarrow> bool" where
  "was_accepted srv st \<equiv> accepted srv (pr_trace st)"

lemma send_accepted: "send srv ev w st = (None, st') \<Longrightarrow> was_accepted srv st \<Longrightarrow> was_accepted srv st'"
  by (auto simp: send_def intro: accepted_snoc)

lemma other_accepted: "was_accepted srv st \<Longrightarrow> \<forall>s. ev \<noteq> Run s \<Longrightarrow> was_accepted srv (snd (send srv ev w st))"
  by (auto simp: send_def intro: accepted_snoc)

lemma raise_accepted: "was_accepted srv st \<Longrightarrow> was_accepted srv (snd (raise_index_build_mem srv st))"
  using other_accepted [of srv st] by (auto simp: raise_index_build_mem_def case_prod_beta Let_def split: sum.split bool.split)

lemma open_accepted: "was_accepted srv st \<Longrightarrow> was_accepted srv (open_copiers srv st)"
  using other_accepted [of srv st] by (auto simp: open_copiers_def case_prod_beta Let_def)

lemma if_send_accepted:
  "(if c then send srv ev w st else (None, st)) = (None, st') \<Longrightarrow> was_accepted srv st \<Longrightarrow> was_accepted srv st'"
  by (auto split: if_splits dest: send_accepted)

lemma run_all_accepted: "run_all srv ev wrap i ss st = (None, st') \<Longrightarrow> was_accepted srv st \<Longrightarrow> was_accepted srv st'"
  by (induction ss arbitrary: i st) (auto simp: and_then_iff dest: send_accepted)

lemma restore_copy_accepted:
  "restore_copy srv loc found i h rows e st = (None, st') \<Longrightarrow> was_accepted srv st \<Longrightarrow> was_accepted srv st'"
  using open_accepted [of srv "st\<lparr>pr_copied := True\<rparr>"]
  by (auto simp: restore_copy_def Let_def and_then_iff split: if_splits option.splits dest: send_accepted)

lemma restore_plain_accepted:
  assumes "restore_plain srv loc found i stmt st = (None, st')" and "was_accepted srv st"
  shows "was_accepted srv st'"
proof -
  define st1 where "st1 = (if pr_copied st \<and> \<not> pr_memTried st \<and> pg_is_create_index_stmt stmt then
      (let (m, st') = raise_index_build_mem srv st in st'\<lparr>pr_memTried := True, pr_mem := m\<rparr>) else st)"
  have 1: "was_accepted srv st1" using raise_accepted [OF assms(2)] assms(2) by (simp add: st1_def case_prod_beta)
  have "and_then (if pr_copier st1 \<and> \<not> pg_is_setval stmt then and_then (wait_copies srv st1)
        (\<lambda>st. if pg_is_session_setting stmt then send srv (SetCopiers stmt) ServerRefused st else (None, st)) else (None, st1))
      (\<lambda>st. and_then (send srv (Run stmt) (failed_statement loc found stmt i) st)
        (\<lambda>st. let st = (if \<not> pr_copier st \<and> pg_is_session_setting stmt then st\<lparr>pr_session := pr_session st @ [stmt]\<rparr> else st)
              in (None, note_mat_view stmt st))) = (None, st')"
    using assms(1) by (simp only: restore_plain_def st1_def Let_def)
  then obtain st2 where 2: "(if pr_copier st1 \<and> \<not> pg_is_setval stmt then and_then (wait_copies srv st1)
        (\<lambda>st. if pg_is_session_setting stmt then send srv (SetCopiers stmt) ServerRefused st else (None, st)) else (None, st1)) = (None, st2)"
    and 3: "and_then (send srv (Run stmt) (failed_statement loc found stmt i) st2)
        (\<lambda>st. let st = (if \<not> pr_copier st \<and> pg_is_session_setting stmt then st\<lparr>pr_session := pr_session st @ [stmt]\<rparr> else st)
              in (None, note_mat_view stmt st)) = (None, st')"
    unfolding and_then_iff [of "if pr_copier st1 \<and> \<not> pg_is_setval stmt then _ else _"] by blast
  have "was_accepted srv st2"
    using 2 1 by (auto simp: wait_copies_def and_then_iff split: if_splits dest: send_accepted)
  then show ?thesis
    using 3 by (auto simp: and_then_iff Let_def split: if_splits dest: send_accepted)
qed

lemma restore_entries_accepted:
  "restore_entries srv loc found i es st = (None, st') \<Longrightarrow> was_accepted srv st \<Longrightarrow> was_accepted srv st'"
proof (induction es arbitrary: i st)
  case (Cons e es)
  obtain s1 where 1: "restore_entry srv loc found i e st = (None, s1)" "restore_entries srv loc found (i + 1) es s1 = (None, st')"
    using Cons.prems(1) by (auto simp: and_then_iff)
  have "was_accepted srv s1"
    using 1(1) Cons.prems(2)
    by (auto simp: restore_entry_def Let_def split: pg_entry.splits if_splits dest: restore_copy_accepted restore_plain_accepted)
  then show ?case by (rule Cons.IH [OF 1(2)])
qed simp

lemma build_indexes_accepted:
  "build_post_indexes srv loc ss st = (None, st') \<Longrightarrow> was_accepted srv st \<Longrightarrow> was_accepted srv st'"
  using raise_accepted [of srv st]
  by (auto simp: build_post_indexes_def case_prod_beta and_then_iff split: if_splits dest!: run_all_accepted dest: send_accepted)

lemma restore_finish_accepted:
  "restore_finish srv loc st = (None, st') \<Longrightarrow> was_accepted srv st \<Longrightarrow> was_accepted srv st'"
  unfolding restore_finish_def and_then_iff
  by (elim exE conjE) (drule build_indexes_accepted, assumption, drule run_all_accepted, assumption,
      drule if_send_accepted, assumption, drule if_send_accepted, assumption, drule run_all_accepted, assumption+)

lemma restore_setup_accepted: "restore_setup srv loc (new_pg_run n) = (None, st) \<Longrightarrow> was_accepted srv st"
proof -
  assume su: "restore_setup srv loc (new_pg_run n) = (None, st)"
  have fresh: "was_accepted srv (new_pg_run n)" by (simp add: accepted_def new_pg_run_def)
  obtain s1 where 1: "set_restore_search_path srv loc (new_pg_run n) = (None, s1)"
    and 2: "send srv (Setting ''SET check_function_bodies = false'') ServerRefused
        ((snd (send srv (Setting ''SET session_replication_role = replica'') ServerRefused s1))
          \<lparr>pr_replica := (fst (send srv (Setting ''SET session_replication_role = replica'') ServerRefused s1) = None)\<rparr>) = (None, st)"
    using su by (auto simp: restore_setup_def and_then_iff case_prod_beta Let_def)
  have "was_accepted srv s1"
    using 1 fresh by (auto simp: set_restore_search_path_def and_then_iff split: list.splits dest!: send_accepted)
  then have "was_accepted srv (snd (send srv (Setting ''SET session_replication_role = replica'') ServerRefused s1))"
    by (rule other_accepted) simp
  then show ?thesis by (intro send_accepted [OF 2]) simp
qed

lemma restore_accepted:
  assumes "restore_via_sql srv loc ncopy found script fault = (None, st)"
  shows "was_accepted srv st"
proof -
  obtain entries f where dump: "each_pg_statement script fault = (entries, f)" by fastforce
  obtain s0 where 0: "restore_setup srv loc (new_pg_run ncopy) = (None, s0)"
    using assms by (auto simp: restore_via_sql_def and_then_iff)
  obtain err s1 where 1: "restore_entries srv loc found 1 entries s0 = (err, s1)" by fastforce
  obtain werr s2 where 2: "(if pr_copier s1 then wait_copies srv s1 else (None, s1)) = (werr, s2)" by fastforce
  have ok: "err = None" "werr = None" "restore_finish srv loc s2 = (None, st)"
    using assms unfolding restore_via_sql_def 0 dump
    by (auto simp: 1 2 Let_def and_then_def split: option.splits)
  have "was_accepted srv s1"
    using restore_entries_accepted [OF 1 [unfolded ok(1)] restore_setup_accepted [OF 0]] .
  then have "was_accepted srv s2" using 2 ok(2) by (auto simp: wait_copies_def split: if_splits dest: send_accepted)
  then show ?thesis by (rule restore_finish_accepted [OF ok(3)])
qed

lemma sent_back: "sent_in t = xs @ Ran s # ys \<Longrightarrow> \<exists>u v. t = u @ Run s # v \<and> sent_in u = xs"
proof (induction t arbitrary: xs)
  case (Cons ev t)
  show ?case
  proof (cases "\<exists>x. sent_by ev = [x] \<and> xs \<noteq> []")
    case True
    then obtain x xs' where x: "sent_by ev = [x]" "xs = x # xs'" using Cons.prems by (cases xs) auto
    then obtain u v where "t = u @ Run s # v \<and> sent_in u = xs'" using Cons by fastforce
    then show ?thesis using x by (intro exI [of _ "ev # u"] exI [of _ v]) simp
  next
    case False
    then consider "sent_by ev = []" | "xs = []" "\<exists>x. sent_by ev = [x]"
      by (auto simp: sent_by_def split: pg_event.splits)
    then show ?thesis
    proof cases
      case 1
      then obtain u v where "t = u @ Run s # v \<and> sent_in u = xs" using Cons by fastforce
      then show ?thesis using 1 by (intro exI [of _ "ev # u"] exI [of _ v]) simp
    next
      case 2
      then have "ev = Run s" using Cons.prems by (auto simp: sent_by_def split: pg_event.splits)
      then show ?thesis using 2 by (intro exI [of _ "[]"] exI [of _ t]) simp
    qed
  qed
qed simp

lemma ran_is_run: "Ran s \<in> set (sent_in t) \<Longrightarrow> Run s \<in> set t"
  by (induction t) (auto simp: sent_by_def split: pg_event.splits)

lemma direct_is_sent:
  assumes "strip_leading_comments s \<noteq> []" and "\<not> pg_is_post_data_stmt (strip_leading_comments s)"
    and "\<not> pg_is_create_index_stmt (strip_leading_comments s)"
  shows "Statement s \<in> set es \<Longrightarrow> Ran (strip_leading_comments s) \<in> set (sent_at_once c es)"
  by (induction c es rule: sent_at_once.induct) (use assms in \<open>auto simp: Let_def\<close>)

lemma guard_is_held:
  assumes "strip_leading_comments s \<noteq> []" and "pg_is_post_data_stmt (strip_leading_comments s)"
  shows "Statement s \<in> set es \<Longrightarrow> strip_leading_comments s \<in> set (held_post_data es)"
  by (induction es rule: held_post_data.induct) (use assms in \<open>auto simp: Let_def\<close>)

lemma rename_is_direct:
  "rename_statement r \<noteq> []" "\<not> pg_is_post_data_stmt (rename_statement r)" "\<not> pg_is_create_index_stmt (rename_statement r)"
proof -
  have "trim_space (rename_statement r) = rename_statement r"
    by (rule trim_space_printable) (simp add: rename_statement_def printable_def)
  then have "upper_head (rename_statement r) = ''ALTER SCHEMA '' @ to_upper (pg_quote_ident (fst r) @ '' RENAME TO '' @ pg_quote_ident (snd r) @ '';'')"
    by (simp add: upper_head_def rename_statement_def upper_first upper_char_def)
  then show "\<not> pg_is_post_data_stmt (rename_statement r)" "\<not> pg_is_create_index_stmt (rename_statement r)"
    by (simp_all add: pg_is_post_data_stmt_def pg_is_create_index_stmt_def)
qed (simp add: rename_statement_def)

definition names_schema :: "string \<Rightarrow> string \<Rightarrow> bool" where
  "names_schema stmt schema \<longleftrightarrow> contains stmt (pg_quote_ident schema @ ''.'')"

text \<open>
  C38: A dump of several schemas that renames one of them cannot be restored over a connection when
  a foreign key or a trigger names that schema: the statements held back are sent after the whole
  file, and so after the ALTER SCHEMA at its end, under a name the schema no longer has. The
  hypothesis on the target is that it refuses a statement naming a schema that was renamed away.
\<close>

theorem renamed_schema_fails_its_foreign_keys:
  assumes "Statement r \<in> set (fst (each_pg_statement script fault))" and "strip_leading_comments r = rename_statement (from, to)"
    and "Statement p \<in> set (fst (each_pg_statement script fault))" and "pg_is_post_data_stmt (strip_leading_comments p)"
    and "names_schema (strip_leading_comments p) from"
    and "\<And>t s. Run (rename_statement (from, to)) \<in> set t \<Longrightarrow> names_schema s from \<Longrightarrow> pt_answer srv t (Run s) \<noteq> None"
  shows "fst (restore_via_sql srv loc ncopy found script fault) \<noteq> None"
proof
  let ?es = "fst (each_pg_statement script fault)" and ?p = "strip_leading_comments p"
  assume "fst (restore_via_sql srv loc ncopy found script fault) = None"
  then obtain st where ok: "restore_via_sql srv loc ncopy found script fault = (None, st)" by (metis prod.collapse)
  have r: "Ran (rename_statement (from, to)) \<in> set (sent_at_once False ?es)"
    using direct_is_sent [of r ?es False] assms(1, 2) rename_is_direct [of "(from, to)"] by simp
  have "?p \<noteq> []" using assms(5) by (auto simp: names_schema_def pg_quote_ident_def)
  then have "?p \<in> set (held_post_data ?es)" using guard_is_held assms(3, 4) by blast
  then obtain bs cs where "held_post_data ?es = bs @ ?p # cs" by (metis split_list)
  then have "sent_in (pr_trace st) = (sent_at_once False ?es @ map Ran (held_indexes False ?es) @ map Ran bs) @ Ran ?p # map Ran cs"
    using restore_order [OF ok] by simp
  then obtain u v where u: "pr_trace st = u @ Run ?p # v"
    "sent_in u = sent_at_once False ?es @ map Ran (held_indexes False ?es) @ map Ran bs"
    using sent_back by blast
  then have "Run (rename_statement (from, to)) \<in> set u" using r by (intro ran_is_run) simp
  then have "pt_answer srv u (Run ?p) \<noteq> None" using assms(5, 6) by blast
  then show False using restore_accepted [OF ok] u(1) by (simp add: accepted_def)
qed

text \<open>A line that is a statement by itself.\<close>

definition one_liner :: "string \<Rightarrow> bool" where
  "one_liner l \<longleftrightarrow> l \<noteq> [] \<and> printable (hd l) \<and> last l = CHR '';'' \<and> newline \<notin> set l \<and> length l < MaxStatementLine
     \<and> hd l \<noteq> backslash \<and> \<not> has_prefix (to_upper l) ''COPY '' \<and> CHR ''$'' \<notin> set l"

lemma no_dollar: "CHR ''$'' \<notin> set l \<Longrightarrow> find_dollar_quote l = None"
  using dollar_found [of l] by (cases "find_dollar_quote l") auto

lemma one_liner_read:
  assumes "one_liner l"
  shows "pg_statements f [] None (l # ls) = (let (es, r) = pg_statements f [] None ls in (Statement l # es, r))"
proof -
  have p: "l \<noteq> []" "printable (hd l)" "printable (last l)" using assms by (simp_all add: one_liner_def printable_def)
  have t: "trim_space l = l" using p by (intro trim_space_printable) simp
  have "\<not> pg_is_meta_command l" using assms by (cases l) (auto simp: one_liner_def pg_is_meta_command_def)
  moreover have "\<not> pg_is_copy_from_stdin l" using assms by (simp add: one_liner_def pg_is_copy_from_stdin_def t)
  moreover have "ends_statement (l @ [newline])" using line_ends_statement [OF p] assms by (simp add: one_liner_def)
  moreover have "find_dollar_quote l = None" using assms no_dollar by (simp add: one_liner_def)
  ultimately show ?thesis by (simp add: pg_statements.simps(2) t trim_line [OF p])
qed

lemma one_liners_read:
  assumes "list_all one_liner ls"
  shows "each_pg_statement (joined_rows ls) None = (map Statement ls, None)"
proof -
  have short: "list_all (\<lambda>l. newline \<notin> set l) ls" "map drop_carriage ls = ls"
    using assms by (induction ls) (auto simp: one_liner_def drop_carriage_def)
  have cut: "takeWhile (\<lambda>l. length l < MaxStatementLine) ls = ls"
    using assms by (auto simp: takeWhile_eq_all_conv one_liner_def list_all_iff)
  have "pg_statements None [] None ls = (map Statement ls, None)"
    using assms by (induction ls) (simp_all add: one_liner_read pg_statements.simps(1))
  then show ?thesis
    unfolding each_pg_statement_def dump_lines_def cut_joined [OF short(1)] Let_def cut short(2) by simp
qed

definition sales_key :: string where
  "sales_key = ''ALTER TABLE '' @ pg_qualify_ident ''sales'' ''o'' @ '' ADD CONSTRAINT k FOREIGN KEY (c) REFERENCES t (c);''"

definition renaming_target :: pg_target where
  "renaming_target =
     \<lparr>pt_answer = (\<lambda>t ev. case ev of Run s \<Rightarrow> if Run (rename_statement (''sales'', ''prod'')) \<in> set t \<and> names_schema s ''sales''
                                        then Some ''schema does not exist'' else None | _ \<Rightarrow> None),
      pt_mem_lower = (\<lambda>_. Inr False)\<rparr>"

lemma plain_statement_kept: "one_liner l \<Longrightarrow> hd l \<noteq> CHR ''-'' \<Longrightarrow> strip_leading_comments l = l"
proof -
  assume l: "one_liner l" "hd l \<noteq> CHR ''-''"
  obtain c s where c: "l = c # s" using l by (cases l) (auto simp: one_liner_def)
  have "\<not> is_line_space c" using l c by (auto simp: one_liner_def is_line_space_def printable_def)
  moreover have "trim_space l = l" using l by (intro trim_space_printable) (simp add: one_liner_def printable_def)
  ultimately show ?thesis using l(2) by (subst strip_leading_comments.simps) (simp add: c)
qed

theorem renamed_schema_fails_its_foreign_keys_witness:
  "fst (restore_via_sql renaming_target (sample_direct [''sales'', ''public'']) 1 2
     (joined_rows [sales_key, rename_statement (''sales'', ''prod'')]) None) \<noteq> None"
proof -
  have k: "one_liner sales_key"
    by (simp add: one_liner_def sales_key_def printable_def MaxStatementLine_def pg_qualify_ident_def pg_quote_ident_def upper_char_def)
  have r: "one_liner (rename_statement (''sales'', ''prod''))"
    by (simp add: one_liner_def rename_statement_def printable_def MaxStatementLine_def pg_quote_ident_def upper_char_def)
  have read: "fst (each_pg_statement (joined_rows [sales_key, rename_statement (''sales'', ''prod'')]) None)
      = [Statement sales_key, Statement (rename_statement (''sales'', ''prod''))]"
    using one_liners_read [of "[sales_key, rename_statement (''sales'', ''prod'')]"] k r by simp
  have kept: "strip_leading_comments sales_key = sales_key"
      "strip_leading_comments (rename_statement (''sales'', ''prod'')) = rename_statement (''sales'', ''prod'')"
    using plain_statement_kept k r by (simp_all add: sales_key_def rename_statement_def)
  have "trim_space sales_key = sales_key"
    using k by (intro trim_space_printable) (simp add: one_liner_def printable_def)
  then have guard: "pg_is_post_data_stmt sales_key"
    unfolding pg_is_post_data_stmt_def upper_head_def
    by (simp add: sales_key_def pg_qualify_ident_def pg_quote_ident_def upper_char_def)
  have named: "names_schema sales_key ''sales''"
    by (simp add: names_schema_def sales_key_def pg_qualify_ident_def pg_quote_ident_def)
  show ?thesis
  proof (rule renamed_schema_fails_its_foreign_keys [where p = sales_key and r = "rename_statement (''sales'', ''prod'')"])
    show "Statement sales_key \<in> set (fst (each_pg_statement (joined_rows [sales_key, rename_statement (''sales'', ''prod'')]) None))"
      "Statement (rename_statement (''sales'', ''prod'')) \<in> set (fst (each_pg_statement (joined_rows [sales_key, rename_statement (''sales'', ''prod'')]) None))"
      unfolding read by simp_all
    show "pt_answer renaming_target t (Run s) \<noteq> None"
      if "Run (rename_statement (''sales'', ''prod'')) \<in> set t" "names_schema s ''sales''" for t s
      using that by (simp add: renaming_target_def)
  qed (simp_all add: kept guard named)
qed

section \<open>Chains of renames\<close>

text \<open>What ALTER SCHEMA does with the schemas there are: it refuses a missing one and a name that is taken.\<close>

fun rename_schemas :: "string set \<Rightarrow> (string \<times> string) list \<Rightarrow> string set option" where
  "rename_schemas there [] = Some there"
| "rename_schemas there ((from, to) # rs) =
     (if from \<in> there \<and> to \<notin> there then rename_schemas (insert to (there - {from})) rs else None)"

lemma rename_list_simps [simp]:
  "rename_list [] rename = []"
  "rename_list (x # xs) rename =
     (case rename x of None \<Rightarrow> [] | Some to \<Rightarrow> if to = [] \<or> to = x then [] else [(x, to)]) @ rename_list xs rename"
  by (auto simp: rename_list_def List.map_filter_def split: option.split)

text \<open>
  The renames at the end of a dump are applied one after another, in the order of the schemas,
  so a schema whose new name another schema of the dump still carries is refused: the one it is
  renamed to comes later in the order, or keeps its name. Such a rename passes validation, which
  asks only that the names on each side differ from one another.
\<close>

lemma rename_onto_a_later_schema_is_refused:
  assumes "order = us @ x # vs" and "distinct order" and "y \<in> set vs" and "rename x = Some y" and "y \<noteq> []"
    and "set order \<subseteq> schemas"
  shows "rename_schemas schemas (rename_list order rename) = None"
  using assms
proof (induction us arbitrary: order schemas)
  case Nil
  then show ?case by auto
next
  case (Cons u us)
  have rest: "set (us @ x # vs) \<subseteq> schemas" "distinct (us @ x # vs)" "u \<notin> set (us @ x # vs)"
    using Cons.prems by auto
  show ?case
  proof (cases "rename_list [u] rename = []")
    case True
    then show ?thesis using Cons.IH [OF refl rest(2) Cons.prems(3-5) rest(1)] Cons.prems(1)
      by (simp split: option.splits)
  next
    case False
    then obtain w where w: "rename_list [u] rename = [(u, w)]" by (auto split: option.splits if_splits)
    have "set (us @ x # vs) \<subseteq> insert w (schemas - {u})" using rest by auto
    from Cons.IH [OF refl rest(2) Cons.prems(3-5) this] show ?thesis
      using w Cons.prems(1) by (auto split: option.splits if_splits)
  qed
qed

lemma rename_onto_a_later_schema_is_refused_witness:
  "rename_schemas {''a'', ''b'', ''public''} (rename_list [''a'', ''b''] [''a'' \<mapsto> ''b'', ''b'' \<mapsto> ''c'']) = None"
  by (rule rename_onto_a_later_schema_is_refused [of _ "[]" "''a''" "[''b'']" "''b''"]) auto

section \<open>A target that refuses nothing\<close>

text \<open>On such a target a readable dump restores to its end.\<close>

definition accepting :: "pg_target \<Rightarrow> bool" where
  "accepting srv \<longleftrightarrow> (\<forall>t ev. pt_answer srv t ev = None)"

lemma accepting_send: "accepting srv \<Longrightarrow> fst (send srv ev w st) = None"
  by (simp add: accepting_def send_def)

lemma and_then_ok: "fst r = None \<Longrightarrow> (\<And>st. fst (f st) = None) \<Longrightarrow> fst (and_then r f) = None"
  by (cases r) (simp add: and_then_def)

lemma accepting_run_all: "accepting srv \<Longrightarrow> fst (run_all srv ev w i ss st) = None"
  by (induction ss arbitrary: i st) (simp_all add: and_then_ok accepting_send)

lemma accepting_copy: "accepting srv \<Longrightarrow> rows_fault e = None \<Longrightarrow> fst (restore_copy srv loc found i h rows e st) = None"
  by (simp add: restore_copy_def Let_def and_then_ok accepting_send)

lemma accepting_plain: "accepting srv \<Longrightarrow> fst (restore_plain srv loc found i stmt st) = None"
  unfolding restore_plain_def Let_def wait_copies_def by (auto intro!: and_then_ok accepting_send)

lemma accepting_entries:
  "accepting srv \<Longrightarrow> \<forall>h rows e. CopyBlock h rows e \<in> set es \<longrightarrow> rows_fault e = None
   \<Longrightarrow> fst (restore_entries srv loc found i es st) = None"
proof (induction es arbitrary: i st)
  case (Cons e es)
  have "fst (restore_entry srv loc found i e st) = None"
    using Cons.prems by (cases e) (auto simp: restore_entry_def Let_def accepting_copy accepting_plain)
  then show ?case using Cons by (simp add: and_then_ok)
qed simp

lemma accepting_finish: "accepting srv \<Longrightarrow> fst (restore_finish srv loc st) = None"
  unfolding restore_finish_def build_post_indexes_def case_prod_beta Let_def
  by (auto intro!: and_then_ok accepting_send accepting_run_all)

lemma accepting_setup: "accepting srv \<Longrightarrow> fst (restore_setup srv loc st) = None"
  unfolding restore_setup_def set_restore_search_path_def case_prod_beta Let_def
  by (auto intro!: and_then_ok accepting_send split: list.split)

lemma accepting_restore:
  assumes srv: "accepting srv" and dump: "each_pg_statement script fault = (es, None)"
    and rows: "\<forall>h rows e. CopyBlock h rows e \<in> set es \<longrightarrow> rows_fault e = None"
  shows "fst (restore_via_sql srv loc ncopy found script fault) = None"
  unfolding restore_via_sql_def dump
proof (rule and_then_ok [OF accepting_setup [OF srv]])
  fix st
  obtain s1 where 1: "restore_entries srv loc found 1 es st = (None, s1)"
    using accepting_entries [OF srv rows] by (metis prod.collapse)
  obtain s2 where 2: "(if pr_copier s1 then wait_copies srv s1 else (None, s1)) = (None, s2)"
    using accepting_send [OF srv] by (metis prod.collapse wait_copies_def)
  show "fst (let (entries, f) = (es, None); (err, st) = restore_entries srv loc found 1 entries st;
           (werr, st) = (if pr_copier st then wait_copies srv st else (None, st))
       in case werr of
            Some e \<Rightarrow> (Some e, st)
          | None \<Rightarrow> (case (case err of Some e \<Rightarrow> Some e | None \<Rightarrow> map_option DumpUnreadable f) of
                       Some e \<Rightarrow> (Some e, st)
                     | None \<Rightarrow> restore_finish srv loc st)) = None"
    by (simp add: 1 2 accepting_finish [OF srv])
qed

definition easy_target :: pg_target where
  "easy_target = \<lparr>pt_answer = (\<lambda>_ _. None), pt_mem_lower = (\<lambda>_. Inr True)\<rparr>"

text \<open>A dump whose foreign key comes ahead of its rows, over four connections.\<close>

theorem rows_are_in_before_their_guards_witness:
  "\<exists>st. restore_via_sql easy_target (sample_direct [''sales'', ''public'']) 4 0 (joined_rows (sales_key # table_lines awkward_table)) None = (None, st)
     \<and> mset (sent_in (pr_trace st)) = mset (concat (map commands [Statement sales_key, table_entry awkward_table]))"
proof -
  let ?script = "joined_rows (sales_key # table_lines awkward_table)"
  have "length (itoa (- 7)) = 2" by (simp add: itoa_def nat_digits.simps)
  then have t: "writable_table awkward_table"
    by (simp add: writable_table_def awkward_table_def pg_quote_ident_def readable_row_def plain_bytes_def table_lines_def copy_header_def
        copy_line_def pg_escape_copy_def MaxStatementLine_def)
  have k: "one_liner sales_key"
    by (simp add: one_liner_def sales_key_def printable_def MaxStatementLine_def pg_qualify_ident_def pg_quote_ident_def upper_char_def)
  have clean: "list_all (\<lambda>l. newline \<notin> set l) (sales_key # table_lines awkward_table)"
    "map drop_carriage (sales_key # table_lines awkward_table) = sales_key # table_lines awkward_table"
    using k table_lines_clean [OF t] by (simp_all add: one_liner_def drop_carriage_def)
  have short: "takeWhile (\<lambda>l. length l < MaxStatementLine) (sales_key # table_lines awkward_table) = sales_key # table_lines awkward_table"
    using k t by (simp add: one_liner_def writable_table_def takeWhile_eq_all_conv list_all_iff split: prod.splits)
  have read: "each_pg_statement ?script None = ([Statement sales_key, table_entry awkward_table], None)"
    unfolding each_pg_statement_def dump_lines_def cut_joined [OF clean(1)] Let_def short clean(2)
    using tables_are_read [of "[awkward_table]" "[]"] t by (simp add: one_liner_read [OF k])
  have "fst (restore_via_sql easy_target (sample_direct [''sales'', ''public'']) 4 0 ?script None) = None"
    by (rule accepting_restore [OF _ read])
       (auto simp: accepting_def easy_target_def rows_fault_def table_entry_def awkward_table_def)
  then obtain st where st: "restore_via_sql easy_target (sample_direct [''sales'', ''public'']) 4 0 ?script None = (None, st)"
    by (metis prod.collapse)
  show ?thesis
    using rows_are_in_before_their_guards [OF st] st unfolding read by auto
qed

end
