(* ===== verification/MysqlDump.thy ===== *)
theory MysqlDump
  imports PgSplit RsyncOutput
begin

text \<open>
  The text of a MySQL dump, \<open>data-mig/dbmsx/driver/mysql/mysql.go\<close>: values as literals, the rows of a
  table batched into INSERT statements, and the splitter that reads a dump back statement by
  statement.
\<close>

section \<open>Values\<close>

text \<open>
  A value as \<open>database/sql\<close> scans it: null, an integer, a boolean, text or bytes, a time (its text to
  the second, and the fraction as digits), and a float as Go prints it.
\<close>

datatype my_value = MyNull | MyInt int | MyBool bool | MyText string | MyTime string string | MyFloat string

abbreviation substitute :: char where "substitute \<equiv> CHR 0x1A"
abbreviation nul :: char where "nul \<equiv> CHR 0x00"

definition mysql_escape :: "string \<Rightarrow> string" where
  "mysql_escape s =
     replace_char substitute [backslash, CHR ''Z''] (replace_char nul [backslash, CHR ''0'']
       (replace_char carriage [backslash, CHR ''r''] (replace_char newline [backslash, CHR ''n'']
         (replace_char squote [backslash, squote] (replace_char backslash [backslash, backslash] s)))))"

definition mysql_format_value :: "my_value \<Rightarrow> string" where
  "mysql_format_value v =
     (case v of
        MyNull \<Rightarrow> ''NULL''
      | MyInt i \<Rightarrow> itoa i
      | MyBool b \<Rightarrow> (if b then ''1'' else ''0'')
      | MyText s \<Rightarrow> [squote] @ mysql_escape s @ [squote]
      | MyTime s frac \<Rightarrow> [squote] @ s @ [squote]
      | MyFloat s \<Rightarrow> s)"

definition row_tuple :: "my_value list \<Rightarrow> string" where
  "row_tuple vals = ''('' @ join '', '' (map mysql_format_value vals) @ '')''"

section \<open>Batches of rows\<close>

definition mysqlInsertBatchBytes :: nat where "mysqlInsertBatchBytes = 1048576"

record insert_batch =
  ib_out :: string
  ib_prefix :: string
  ib_values :: string

definition new_insert_batch :: "string \<Rightarrow> string \<Rightarrow> insert_batch" where
  "new_insert_batch out pre = \<lparr>ib_out = out, ib_prefix = pre, ib_values = []\<rparr>"

definition batch_flush :: "insert_batch \<Rightarrow> insert_batch" where
  "batch_flush b =
     (if ib_values b = [] then b
      else b\<lparr>ib_out := ib_out b @ ib_prefix b @ ib_values b @ '';'' @ [newline], ib_values := []\<rparr>)"

definition batch_add :: "nat \<Rightarrow> string \<Rightarrow> insert_batch \<Rightarrow> insert_batch" where
  "batch_add limit tuple b =
     (let b = (if ib_values b \<noteq> [] \<and> length (ib_prefix b) + length (ib_values b) + 1 + length tuple + 2 > limit
               then batch_flush b else b);
          b = (if ib_values b \<noteq> [] then b\<lparr>ib_values := ib_values b @ '',''\<rparr> else b)
      in b\<lparr>ib_values := ib_values b @ tuple\<rparr>)"

definition insert_prefix :: "string \<Rightarrow> string list option \<Rightarrow> string" where
  "insert_prefix table cols =
     ''INSERT INTO '' @ [backtick] @ table @ [backtick]
     @ (case cols of None \<Rightarrow> [] | Some cs \<Rightarrow> '' ('' @ join '', '' (map (\<lambda>c. [backtick] @ c @ [backtick]) cs) @ '')'')
     @ '' VALUES ''"

text \<open>The rows of one table, as \<open>dumpDataViaSQL\<close> writes them.\<close>

definition table_rows_text :: "nat \<Rightarrow> string \<Rightarrow> string list option \<Rightarrow> my_value list list \<Rightarrow> string" where
  "table_rows_text limit table cols rows =
     ib_out (batch_flush (fold (batch_add limit) (map row_tuple rows) (new_insert_batch [] (insert_prefix table cols)))) @ [newline]"

section \<open>The splitter\<close>

definition trim_right_blank :: "string \<Rightarrow> string" where
  "trim_right_blank s = rev (dropWhile is_line_space (rev s))"

definition emitted_if :: "string \<Rightarrow> string list \<Rightarrow> string list" where
  "emitted_if s ss = (if s = [] then ss else s # ss)"

fun mysql_statements :: "scan_fault option \<Rightarrow> string \<Rightarrow> string \<Rightarrow> string list \<Rightarrow> string list \<times> scan_fault option" where
  "mysql_statements fault delim buf [] =
     (case fault of Some f \<Rightarrow> ([], Some f) | None \<Rightarrow> (emitted_if (trim_space buf) [], None))"
| "mysql_statements fault delim buf (line # ls) =
     (let t = trim_space line
      in if length t \<ge> 9 \<and> fold_equal (take 9 t) ''DELIMITER'' then
           (let parts = go_fields line;
                (ss, r) = mysql_statements fault (if length parts \<ge> 2 then parts ! 1 else delim) [] ls
            in (emitted_if (trim_space buf) ss, r))
         else
           (let whole = buf @ line @ [newline]; current = trim_right_blank whole
            in if has_suffix current delim then
                 (let (ss, r) = mysql_statements fault delim [] ls
                  in (emitted_if (trim_space (take (length current - length delim) current)) ss, r))
               else mysql_statements fault delim whole ls))"

definition each_mysql_statement :: "string \<Rightarrow> scan_fault option \<Rightarrow> string list \<times> scan_fault option" where
  "each_mysql_statement script fault =
     (let (ls, f) = dump_lines MaxStatementLine script fault in mysql_statements f '';'' [] ls)"

definition split_mysql_statements :: "string \<Rightarrow> string list" where
  "split_mysql_statements script = fst (each_mysql_statement script None)"

section \<open>Batching keeps every row, in order\<close>

lemma flush_fields [simp]: "ib_prefix (batch_flush b) = ib_prefix b" "ib_values (batch_flush b) = []"
  by (simp_all add: batch_flush_def)

lemma add_prefix [simp]: "ib_prefix (batch_add limit t b) = ib_prefix b"
  by (simp add: batch_add_def Let_def)

definition statement_line :: "string \<Rightarrow> string list \<Rightarrow> string" where
  "statement_line pre ts = pre @ join '','' ts @ '';''"

definition fits :: "nat \<Rightarrow> string \<Rightarrow> string list \<Rightarrow> bool" where
  "fits limit pre ts \<longleftrightarrow> ts \<noteq> [] \<and> (length (statement_line pre ts) + 1 \<le> limit \<or> length ts = 1)"

text \<open>The rows a batch holds (\<open>last\<close>) and those of the statements it has written (\<open>bs\<close>).\<close>

definition holds_rows :: "nat \<Rightarrow> string list list \<Rightarrow> string list \<Rightarrow> insert_batch \<Rightarrow> bool" where
  "holds_rows limit bs ts b \<longleftrightarrow>
     ib_out b = joined_rows (map (statement_line (ib_prefix b)) bs) \<and> ib_values b = join '','' ts
     \<and> list_all (fits limit (ib_prefix b)) bs \<and> (ts = [] \<or> fits limit (ib_prefix b) ts)"

lemma join_snoc: "ts \<noteq> [] \<Longrightarrow> join sep (ts @ [t]) = join sep ts @ sep @ t"
  by (induction sep ts rule: join.induct) auto

lemma join_empty: "t \<noteq> [] \<Longrightarrow> join sep (t # ts) \<noteq> []"
  by (cases ts) auto

lemma holds_flush:
  assumes "holds_rows limit bs ts b" and "ts \<noteq> []" and "hd ts \<noteq> []"
  shows "holds_rows limit (bs @ [ts]) [] (batch_flush b)"
proof -
  have "join '','' ts \<noteq> []" using assms(2, 3) join_empty [of "hd ts" "'',''" "tl ts"] by simp
  then show ?thesis
    using assms by (simp add: holds_rows_def batch_flush_def statement_line_def)
qed

lemma holds_add:
  assumes "holds_rows limit bs ts b" and "list_all (\<lambda>t. t \<noteq> []) ts" and "t \<noteq> []"
  shows "\<exists>bs' ts'. holds_rows limit bs' ts' (batch_add limit t b) \<and> concat bs' @ ts' = concat bs @ ts @ [t]
    \<and> list_all (\<lambda>t. t \<noteq> []) ts'"
proof (cases "ts = []")
  case True
  then have "holds_rows limit bs [t] (batch_add limit t b)"
    using assms by (simp add: holds_rows_def batch_add_def fits_def)
  then show ?thesis using True assms(3) by (intro exI [of _ bs] exI [of _ "[t]"]) simp
next
  case False
  then have v: "ib_values b \<noteq> []" "hd ts \<noteq> []" "ib_values b = join '','' ts"
    using assms join_empty [of "hd ts" "'',''" "tl ts"] by (auto simp: holds_rows_def neq_Nil_conv)
  show ?thesis
  proof (cases "length (ib_prefix b) + length (ib_values b) + 1 + length t + 2 > limit")
    case True
    have "holds_rows limit (bs @ [ts]) [] (batch_flush b)" using holds_flush [OF assms(1) False v(2)] .
    then have "holds_rows limit (bs @ [ts]) [t] (batch_add limit t b)"
      using True v(1) by (simp add: batch_add_def holds_rows_def fits_def)
    then show ?thesis using assms(3) by (intro exI [of _ "bs @ [ts]"] exI [of _ "[t]"]) simp
  next
    case fit: False
    have "holds_rows limit bs (ts @ [t]) (batch_add limit t b)"
      using assms(1) False fit v by (simp add: batch_add_def holds_rows_def fits_def join_snoc statement_line_def)
    then show ?thesis using assms(2, 3) by (intro exI [of _ bs] exI [of _ "ts @ [t]"]) simp
  qed
qed

lemma holds_nothing: "holds_rows limit [] [] (new_insert_batch [] pre)" "ib_prefix (new_insert_batch [] pre) = pre"
  by (simp_all add: holds_rows_def new_insert_batch_def)

lemma batches_of_rows:
  assumes "list_all (\<lambda>t. t \<noteq> []) tuples"
  shows "\<exists>bs. ib_out (batch_flush (fold (batch_add limit) tuples (new_insert_batch [] pre))) = joined_rows (map (statement_line pre) bs)
    \<and> concat bs = tuples \<and> list_all (fits limit pre) bs"
proof -
  have "\<exists>bs ts. holds_rows limit bs ts (fold (batch_add limit) tuples b) \<and> concat bs @ ts = concat bs0 @ ts0 @ tuples
      \<and> list_all (\<lambda>t. t \<noteq> []) ts \<and> ib_prefix (fold (batch_add limit) tuples b) = ib_prefix b"
    if "holds_rows limit bs0 ts0 b" "list_all (\<lambda>t. t \<noteq> []) ts0" for bs0 ts0 b
    using assms that
  proof (induction tuples arbitrary: bs0 ts0 b)
    case Nil
    then show ?case by auto
  next
    case (Cons t tuples)
    obtain bs1 ts1 where 1: "holds_rows limit bs1 ts1 (batch_add limit t b)" "concat bs1 @ ts1 = concat bs0 @ ts0 @ [t]"
      "list_all (\<lambda>t. t \<noteq> []) ts1"
      using holds_add [OF Cons.prems(2, 3), of t] Cons.prems(1) by auto
    from Cons.IH [OF _ 1(1, 3)] Cons.prems(1) 1(2) show ?case by fastforce
  qed
  from this [of "[]" "[]" "new_insert_batch [] pre"] holds_nothing obtain bs ts where
    end_state: "holds_rows limit bs ts (fold (batch_add limit) tuples (new_insert_batch [] pre))" "concat bs @ ts = tuples"
      "list_all (\<lambda>t. t \<noteq> []) ts" "ib_prefix (fold (batch_add limit) tuples (new_insert_batch [] pre)) = pre"
    by auto
  show ?thesis
  proof (cases "ts = []")
    case True
    then show ?thesis using end_state by (auto simp: holds_rows_def batch_flush_def)
  next
    case False
    then have "holds_rows limit (bs @ [ts]) [] (batch_flush (fold (batch_add limit) tuples (new_insert_batch [] pre)))"
      using end_state(3) by (intro holds_flush [OF end_state(1)]) (auto simp: neq_Nil_conv)
    then show ?thesis using end_state(2, 4) by (intro exI [of _ "bs @ [ts]"]) (simp add: holds_rows_def)
  qed
qed


section \<open>The rows of a dump\<close>

record row_table =
  rt_name :: string
  rt_cols :: "string list option"
  rt_rows :: "my_value list list"

definition mysql_data_prologue :: string where
  "mysql_data_prologue = ''SET @OLD_SQL_MODE = @@SESSION.sql_mode, SESSION sql_mode = ''
     @ ''IF(@@SESSION.sql_mode = '' @ [squote, squote] @ '', '' @ [squote] @ ''NO_AUTO_VALUE_ON_ZERO'' @ [squote]
     @ '', CONCAT(@@SESSION.sql_mode, '' @ [squote] @ '',NO_AUTO_VALUE_ON_ZERO'' @ [squote] @ ''));''"

definition mysql_data_epilogue :: string where
  "mysql_data_epilogue = ''SET SESSION sql_mode = @OLD_SQL_MODE;''"

definition dump_rows_text :: "row_table list \<Rightarrow> string" where
  "dump_rows_text ts =
     mysql_data_prologue @ [newline, newline]
     @ concat (map (\<lambda>t. table_rows_text mysqlInsertBatchBytes (rt_name t) (rt_cols t) (rt_rows t)) ts)
     @ mysql_data_epilogue @ [newline, newline]"

section \<open>A line that is one statement\<close>

definition whole_line :: "string \<Rightarrow> bool" where
  "whole_line l \<longleftrightarrow> l \<noteq> [] \<and> last l = CHR '';'' \<and> butlast l \<noteq> [] \<and> printable (hd l) \<and> printable (last (butlast l))
     \<and> \<not> fold_equal (take 9 l) ''DELIMITER'' \<and> newline \<notin> set l \<and> length l < MaxStatementLine"

lemma strip_newline: "strip_leading space_encodings (newline # r) = strip_leading space_encodings r"
proof -
  have enc: "space_encodings = [[char_of (9::nat)], [newline]] @ drop 2 space_encodings"
    by (simp add: space_encodings_def char_of_def bit_numeral_rec bit_0)
  have "strip_one space_encodings (newline # r) = Some r"
    by (subst enc) (simp add: char_of_def bit_numeral_rec bit_0)
  then show ?thesis by (simp add: strip_leading.simps [of _ "newline # r"])
qed

lemma trim_after_newlines:
  assumes "a \<noteq> []" and "printable (hd a)" and "printable (last a)"
  shows "trim_space (replicate k newline @ a) = a"
proof -
  have "strip_leading space_encodings (replicate k newline @ a) = strip_leading space_encodings a"
    by (induction k) (simp_all add: strip_newline)
  moreover have "trim_space a = a" using assms by (intro trim_space_printable) simp
  ultimately show ?thesis by (simp add: trim_space_def)
qed

lemma trim_right_keeps: "\<not> is_line_space c \<Longrightarrow> trim_right_blank (s @ [c, newline]) = s @ [c]"
  by (simp add: trim_right_blank_def is_line_space_def)

lemma whole_line_read:
  assumes "whole_line l"
  shows "mysql_statements f '';'' (replicate k newline) (l # ls)
    = (let (ss, r) = mysql_statements f '';'' [] ls in (butlast l # ss, r))"
proof -
  let ?s = "butlast l"
  have l: "l = ?s @ '';''" and s: "?s \<noteq> []" "printable (hd ?s)" "printable (last ?s)"
    using assms by (auto simp: whole_line_def) (metis append_butlast_last_id, metis append_butlast_last_id hd_append2)
  have t: "trim_space l = l" using assms by (intro trim_space_printable) (simp add: whole_line_def printable_def)
  have current: "trim_right_blank (replicate k newline @ l @ [newline]) = (replicate k newline @ ?s) @ '';''"
    by (subst (1 2) l) (use trim_right_keeps [of "CHR '';''" "replicate k newline @ ?s"] in \<open>simp add: is_line_space_def\<close>)
  show ?thesis
    using assms s
    by (simp add: Let_def t current has_suffix_def emitted_if_def trim_after_newlines whole_line_def split: prod.split)
qed

lemma blank_line_read:
  "mysql_statements f '';'' (replicate k newline) ([] # ls) = mysql_statements f '';'' (replicate (Suc k) newline) ls"
proof -
  have "trim_right_blank (replicate k newline @ [newline]) = []"
    by (simp add: trim_right_blank_def is_line_space_def)
  moreover have "replicate k newline @ [newline] = newline # replicate k newline" by (induction k) simp_all
  ultimately show ?thesis by (simp add: has_suffix_def)
qed

lemma newlines_are_nothing: "mysql_statements None '';'' (replicate k newline) [] = ([], None)"
proof -
  have "trim_space (replicate k newline) = []"
    by (induction k) (simp_all add: trim_space_def strip_newline)
  then show ?thesis by (simp add: emitted_if_def)
qed

lemma lines_read:
  "list_all (\<lambda>l. l = [] \<or> whole_line l) ls \<Longrightarrow>
   mysql_statements None '';'' (replicate k newline) ls = (map butlast (filter (\<lambda>l. l \<noteq> []) ls), None)"
proof (induction ls arbitrary: k)
  case (Cons l ls)
  show ?case
  proof (cases "l = []")
    case True
    then have "mysql_statements None '';'' (replicate k newline) (l # ls) = mysql_statements None '';'' (replicate (Suc k) newline) ls"
      by (simp only: blank_line_read)
    then show ?thesis using Cons.IH [of "Suc k"] Cons.prems True by (simp del: mysql_statements.simps)
  next
    case False
    then have "whole_line l" using Cons.prems by simp
    then show ?thesis using Cons.IH [of 0] Cons.prems False by (simp add: whole_line_read del: mysql_statements.simps)
  qed
qed (simp add: newlines_are_nothing del: mysql_statements.simps)

lemma script_read:
  assumes "list_all (\<lambda>l. l = [] \<or> whole_line l) ls"
  shows "split_mysql_statements (joined_rows ls) = map butlast (filter (\<lambda>l. l \<noteq> []) ls)"
proof -
  have clean: "list_all (\<lambda>l. newline \<notin> set l) ls" "map drop_carriage ls = ls" "list_all (\<lambda>l. length l < MaxStatementLine) ls"
    using assms by (induction ls) (auto simp: whole_line_def drop_carriage_def MaxStatementLine_def)
  have cut: "takeWhile (\<lambda>l. length l < MaxStatementLine) ls = ls"
    using clean(3) by (simp add: takeWhile_eq_all_conv list_all_iff)
  show ?thesis
    using lines_read [OF assms, of 0]
    by (simp add: split_mysql_statements_def each_mysql_statement_def dump_lines_def cut_joined [OF clean(1)] cut clean(2) Let_def
        del: cut_lines.simps)
qed

section \<open>How the engine reads the rows\<close>

text \<open>
  The value list of an INSERT as the MySQL manual documents it: a string literal ends at a quote that
  no backslash escapes, and a backslash gives the character its letter stands for.
\<close>

definition unescaped :: "char \<Rightarrow> char" where
  "unescaped c =
     (if c = CHR ''0'' then nul else if c = CHR ''n'' then newline else if c = CHR ''r'' then carriage
      else if c = CHR ''t'' then tab else if c = CHR ''b'' then CHR 0x08 else if c = CHR ''Z'' then substitute else c)"

fun read_literal :: "string \<Rightarrow> (string \<times> string) option" where
  "read_literal [] = None"
| "read_literal (c # s) =
     (if c = squote then Some ([], s)
      else if c = backslash then
        (case s of [] \<Rightarrow> None | d # r \<Rightarrow> map_option (\<lambda>(v, rest). (unescaped d # v, rest)) (read_literal r))
      else map_option (\<lambda>(v, rest). (c # v, rest)) (read_literal s))"

datatype my_literal = Bare string | Quoted string

definition bare_char :: "char \<Rightarrow> bool" where
  "bare_char c \<longleftrightarrow> c \<notin> {CHR '','', CHR '')'', squote, backslash, CHR '' '', newline}"

definition read_value :: "string \<Rightarrow> (my_literal \<times> string) option" where
  "read_value s =
     (if s \<noteq> [] \<and> hd s = squote then map_option (\<lambda>(v, r). (Quoted v, r)) (read_literal (tl s))
      else Some (Bare (takeWhile bare_char s), dropWhile bare_char s))"

fun read_row :: "nat \<Rightarrow> string \<Rightarrow> (my_literal list \<times> string) option" where
  "read_row 0 s = None"
| "read_row (Suc n) s =
     (case read_value s of
        None \<Rightarrow> None
      | Some (v, r) \<Rightarrow>
          if has_prefix r '')'' then Some ([v], tl r)
          else if has_prefix r '', '' then map_option (\<lambda>(vs, r'). (v # vs, r')) (read_row n (drop 2 r))
          else None)"

fun read_rows :: "nat \<Rightarrow> string \<Rightarrow> my_literal list list option" where
  "read_rows 0 s = None"
| "read_rows (Suc n) s =
     (if \<not> has_prefix s ''('' then None
      else case read_row (length s) (tl s) of
        None \<Rightarrow> None
      | Some (vs, r) \<Rightarrow>
          if r = [] then Some [vs]
          else if has_prefix r '','' then map_option ((#) vs) (read_rows n (tl r))
          else None)"

definition value_literal :: "my_value \<Rightarrow> my_literal" where
  "value_literal v =
     (case v of
        MyNull \<Rightarrow> Bare ''NULL'' | MyInt i \<Rightarrow> Bare (itoa i) | MyBool b \<Rightarrow> Bare (if b then ''1'' else ''0'')
      | MyText s \<Rightarrow> Quoted s | MyTime s frac \<Rightarrow> Quoted (if frac = [] then s else s @ ''.'' @ frac) | MyFloat s \<Rightarrow> Bare s)"

text \<open>A value as the dump writes it: a time is cut to the second, and any other value is whole.\<close>

definition to_second :: "my_value \<Rightarrow> my_value" where
  "to_second v = (case v of MyTime s frac \<Rightarrow> MyTime s [] | _ \<Rightarrow> v)"

lemma to_second_whole: "(\<And>s frac. v = MyTime s frac \<Longrightarrow> frac = []) \<Longrightarrow> to_second v = v"
  by (cases v) (simp_all add: to_second_def)

text \<open>A time and a float as Go formats them hold nothing to escape.\<close>

definition plain_value :: "my_value \<Rightarrow> bool" where
  "plain_value v \<longleftrightarrow>
     (case v of MyTime s frac \<Rightarrow> list_all (\<lambda>c. c \<notin> {squote, backslash, newline, carriage}) s | MyFloat s \<Rightarrow> list_all bare_char s
      | _ \<Rightarrow> True)"

section \<open>A row is read back\<close>

definition escape_my :: "char \<Rightarrow> string" where
  "escape_my c =
     (if c = backslash then [backslash, backslash] else if c = squote then [backslash, squote]
      else if c = newline then [backslash, CHR ''n''] else if c = carriage then [backslash, CHR ''r'']
      else if c = nul then [backslash, CHR ''0''] else if c = substitute then [backslash, CHR ''Z''] else [c])"

lemma mysql_escape_Nil: "mysql_escape [] = []"
  by (simp add: mysql_escape_def)

lemma mysql_escape_Cons: "mysql_escape (c # s) = escape_my c @ mysql_escape s"
  by (simp add: mysql_escape_def escape_my_def)

lemma read_escaped: "read_literal (escape_my c @ s) = map_option (\<lambda>(v, r). (c # v, r)) (read_literal s)"
  by (auto simp: escape_my_def unescaped_def)

lemma literal_read_back: "read_literal (mysql_escape s @ squote # r) = Some (s, r)"
  by (induction s) (simp_all add: mysql_escape_Nil mysql_escape_Cons read_escaped del: read_literal.simps(2),
    simp)

lemma literal_no_newline: "newline \<notin> set (mysql_escape s)"
  by (induction s) (auto simp: mysql_escape_Nil mysql_escape_Cons escape_my_def)

lemma itoa_bare: "list_all bare_char (itoa i)"
proof -
  have "bare_char c" if "c \<in> set (nat_digits n)" for c n
    using nat_digits_digit [OF that] by (auto simp: bare_char_def)
  then show ?thesis by (auto simp: itoa_def list_all_iff bare_char_def)
qed

lemma bare_read:
  "list_all bare_char s \<Longrightarrow> r \<noteq> [] \<Longrightarrow> hd r \<in> {CHR '','', CHR '')''} \<Longrightarrow> read_value (s @ r) = Some (Bare s, r)"
proof -
  assume s: "list_all bare_char s" and r: "r \<noteq> []" "hd r \<in> {CHR '','', CHR '')''}"
  have "\<not> bare_char (hd r)" "hd r \<noteq> squote" using r(2) by (auto simp: bare_char_def)
  then have "takeWhile bare_char (s @ r) = s" "dropWhile bare_char (s @ r) = r"
    using s r(1) by (induction s) (cases r, simp_all)+
  moreover have "hd (s @ r) \<noteq> squote"
    using s \<open>hd r \<noteq> squote\<close> by (cases s) (auto simp: bare_char_def)
  ultimately show ?thesis by (simp add: read_value_def)
qed

lemma plain_literal: "list_all (\<lambda>c. c \<notin> {squote, backslash, newline, carriage}) s \<Longrightarrow> read_literal (s @ squote # r) = Some (s, r)"
  by (induction s) auto

lemma value_read:
  assumes "plain_value v" and "r \<noteq> []" and "hd r \<in> {CHR '','', CHR '')''}"
  shows "read_value (mysql_format_value v @ r) = Some (value_literal (to_second v), r)"
proof (cases v)
  case (MyText s)
  then show ?thesis using literal_read_back [of s r] by (simp add: mysql_format_value_def value_literal_def to_second_def read_value_def)
next
  case (MyTime s frac)
  then show ?thesis using assms(1) plain_literal [of s r]
    by (simp add: mysql_format_value_def value_literal_def to_second_def read_value_def plain_value_def)
next
  case MyNull
  then show ?thesis using bare_read [OF _ assms(2, 3), of "''NULL''"] by (simp add: mysql_format_value_def value_literal_def to_second_def bare_char_def)
next
  case (MyInt i)
  then show ?thesis using bare_read [OF itoa_bare assms(2, 3)] by (simp add: mysql_format_value_def value_literal_def to_second_def)
next
  case (MyBool b)
  then show ?thesis using bare_read [OF _ assms(2, 3), of "if b then ''1'' else ''0''"]
    by (simp add: mysql_format_value_def value_literal_def to_second_def bare_char_def)
next
  case (MyFloat s)
  then show ?thesis using bare_read [OF _ assms(2, 3), of s] assms(1)
    by (simp add: mysql_format_value_def value_literal_def to_second_def plain_value_def)
qed

lemma row_read:
  "vals \<noteq> [] \<Longrightarrow> list_all plain_value vals \<Longrightarrow> length vals \<le> n \<Longrightarrow>
   read_row n (join '', '' (map mysql_format_value vals) @ CHR '')'' # r) = Some (map (value_literal \<circ> to_second) vals, r)"
proof (induction vals arbitrary: n)
  case (Cons v vals)
  then obtain m where n: "n = Suc m" by (cases n) auto
  show ?case
  proof (cases vals)
    case Nil
    then show ?thesis using Cons.prems value_read [of v "CHR '')'' # r"] by (simp add: n)
  next
    case (Cons w ws)
    then show ?thesis
      using Cons.prems Cons.IH [of m] value_read [of v "'', '' @ join '', '' (map mysql_format_value vals) @ CHR '')'' # r"]
      by (simp add: n)
  qed
qed simp

lemma join_longer: "length xs \<le> Suc (length (join '', '' xs))"
  by (induction "'', ''" xs rule: join.induct) auto

lemma rows_read:
  "rows \<noteq> [] \<Longrightarrow> list_all (\<lambda>vals. vals \<noteq> [] \<and> list_all plain_value vals) rows \<Longrightarrow> length rows \<le> n \<Longrightarrow>
   read_rows n (join '','' (map row_tuple rows)) = Some (map (map (value_literal \<circ> to_second)) rows)"
proof (induction rows arbitrary: n)
  case (Cons vals rows)
  then obtain m where n: "n = Suc m" by (cases n) auto
  have head: "read_row (length (row_tuple vals @ r)) (tl (row_tuple vals @ r)) = Some (map (value_literal \<circ> to_second) vals, r)" for r
    using row_read [of vals "length (row_tuple vals @ r)" r] Cons.prems join_longer [of "map mysql_format_value vals"]
    by (simp add: row_tuple_def)
  show ?case
  proof (cases rows)
    case Nil
    then show ?thesis using head [of "[]"] by (simp add: n row_tuple_def)
  next
    case (Cons w ws)
    let ?r = "CHR '','' # join '','' (map row_tuple rows)"
    have whole: "join '','' (map row_tuple (vals # rows)) = row_tuple vals @ ?r" using Cons by simp
    have "has_prefix (row_tuple vals @ ?r) ''(''" by (simp add: row_tuple_def)
    moreover have "read_rows m (join '','' (map row_tuple rows)) = Some (map (map (value_literal \<circ> to_second)) rows)"
      using Cons Cons.IH [of m] Cons.prems by (simp add: n)
    ultimately show ?thesis unfolding whole n read_rows.simps head by simp
  qed
qed simp

section \<open>The rows of every table reach the restore\<close>

definition table_prefix :: "row_table \<Rightarrow> string" where
  "table_prefix t = insert_prefix (rt_name t) (rt_cols t)"

text \<open>
  What is asked of a table: names on one line, every row has a value in every column, times and
  floats are what Go prints, and a row alone fits a line the restore reads.
\<close>

definition readable_table :: "row_table \<Rightarrow> bool" where
  "readable_table t \<longleftrightarrow> newline \<notin> set (rt_name t)
     \<and> (case rt_cols t of None \<Rightarrow> True | Some cs \<Rightarrow> list_all (\<lambda>c. newline \<notin> set c) cs)
     \<and> list_all (\<lambda>vals. vals \<noteq> [] \<and> list_all plain_value vals
          \<and> length (statement_line (table_prefix t) [row_tuple vals]) < MaxStatementLine) (rt_rows t)"

definition rows_of :: "row_table \<Rightarrow> string \<Rightarrow> my_literal list list option" where
  "rows_of t stmt =
     (if has_prefix stmt (table_prefix t)
      then (let s = drop (length (table_prefix t)) stmt in read_rows (length s) s) else None)"

lemma join_no_newline: "newline \<notin> set sep \<Longrightarrow> list_all (\<lambda>x. newline \<notin> set x) xs \<Longrightarrow> newline \<notin> set (join sep xs)"
  by (induction sep xs rule: join.induct) auto

lemma prefix_no_newline: "readable_table t \<Longrightarrow> newline \<notin> set (table_prefix t)"
proof -
  assume t: "readable_table t"
  have "newline \<notin> set (join '', '' (map (\<lambda>c. [backtick] @ c @ [backtick]) cs))" if "rt_cols t = Some cs" for cs
    using t that by (intro join_no_newline) (simp_all add: readable_table_def list_all_iff)
  then show ?thesis using t by (auto simp: readable_table_def table_prefix_def insert_prefix_def split: option.splits)
qed

lemma bare_no_newline: "list_all bare_char s \<Longrightarrow> newline \<notin> set s"
  by (auto simp: list_all_iff bare_char_def)

lemma value_no_newline: "plain_value v \<Longrightarrow> newline \<notin> set (mysql_format_value v)"
proof (cases v)
  case (MyInt i)
  then show ?thesis using bare_no_newline [OF itoa_bare] by (simp add: mysql_format_value_def)
next
  case (MyText s)
  then show ?thesis using literal_no_newline [of s] by (simp add: mysql_format_value_def)
next
  case (MyFloat s)
  then show "plain_value v \<Longrightarrow> ?thesis" using bare_no_newline [of s] by (simp add: mysql_format_value_def plain_value_def)
next
  case (MyTime s frac)
  then show "plain_value v \<Longrightarrow> ?thesis" by (auto simp: mysql_format_value_def plain_value_def list_all_iff)
qed (simp_all add: mysql_format_value_def)

lemma row_no_newline: "list_all plain_value vals \<Longrightarrow> newline \<notin> set (row_tuple vals)"
  using join_no_newline [of "'', ''" "map mysql_format_value vals"] value_no_newline
  by (simp add: row_tuple_def list_all_iff)

lemma row_tuple_ends: "row_tuple vals \<noteq> []" "last (row_tuple vals) = CHR '')''"
  by (simp_all add: row_tuple_def)

lemma join_rows_end: "rows \<noteq> [] \<Longrightarrow> join '','' (map row_tuple rows) \<noteq> [] \<and> last (join '','' (map row_tuple rows)) = CHR '')''"
proof (cases rows rule: rev_cases)
  case (snoc ys y)
  then show ?thesis
    using join_snoc [of "map row_tuple ys" "'',''" "row_tuple y"] row_tuple_ends [of y]
    by (cases "ys = []") simp_all
qed simp

lemma insert_line_is_whole:
  assumes "readable_table t" and "fits mysqlInsertBatchBytes (table_prefix t) (map row_tuple rows)"
    and "set rows \<subseteq> set (rt_rows t)"
  shows "whole_line (statement_line (table_prefix t) (map row_tuple rows))"
proof -
  let ?j = "join '','' (map row_tuple rows)"
  have rows: "rows \<noteq> []" using assms(2) by (auto simp: fits_def)
  have ok: "list_all plain_value vals" if "vals \<in> set rows" for vals
    using assms(1, 3) that by (auto simp: readable_table_def list_all_iff)
  have short: "length (statement_line (table_prefix t) (map row_tuple rows)) < MaxStatementLine"
  proof (cases "length rows = 1")
    case True
    then obtain vals where "rows = [vals]" by (cases rows) auto
    then show ?thesis using assms(1, 3) by (auto simp: readable_table_def list_all_iff)
  next
    case False
    then show ?thesis using assms(2) by (auto simp: fits_def mysqlInsertBatchBytes_def MaxStatementLine_def)
  qed
  have clean: "newline \<notin> set ?j" using ok row_no_newline by (intro join_no_newline) (auto simp: list_all_iff)
  have "table_prefix t = ''INSERT INTO '' @ drop 12 (table_prefix t)" by (simp add: table_prefix_def insert_prefix_def)
  then obtain p where p: "table_prefix t = ''INSERT INTO '' @ p" by blast
  have "butlast (table_prefix t @ ?j @ '';'') = table_prefix t @ ?j" by (simp add: butlast_append)
  moreover have "\<not> fold_equal ''INSERT IN'' ''DELIMITER''" by code_simp
  ultimately show ?thesis
    using short clean prefix_no_newline [OF assms(1)] join_rows_end [OF rows]
    by (simp add: whole_line_def statement_line_def p printable_def)
qed

lemma concat_map_split: "concat bs = map f xs \<Longrightarrow> \<exists>xss. concat xss = xs \<and> bs = map (map f) xss"
proof (induction bs arbitrary: xs)
  case (Cons b bs)
  then obtain us vs where xs: "xs = us @ vs" "map f us = b" "map f vs = concat bs"
    using Cons.prems [symmetric] by (auto simp: map_eq_append_conv)
  with Cons.IH [of vs] obtain xss where "concat xss = vs" "bs = map (map f) xss" by auto
  then show ?case using xs by (intro exI [of _ "us # xss"]) simp
qed (auto intro: exI [of _ "[]"])

definition insert_line :: "row_table \<Rightarrow> my_value list list \<Rightarrow> string" where
  "insert_line t rows = statement_line (table_prefix t) (map row_tuple rows)"

lemma table_text_lines:
  "\<exists>rss. table_rows_text mysqlInsertBatchBytes (rt_name t) (rt_cols t) (rt_rows t) = joined_rows (map (insert_line t) rss @ [[]])
    \<and> concat rss = rt_rows t \<and> list_all (\<lambda>rs. fits mysqlInsertBatchBytes (table_prefix t) (map row_tuple rs)) rss"
proof -
  have "list_all (\<lambda>t. t \<noteq> []) (map row_tuple (rt_rows t))" by (simp add: list_all_iff row_tuple_def)
  from batches_of_rows [OF this, of mysqlInsertBatchBytes "table_prefix t"] obtain bs where bs:
    "ib_out (batch_flush (fold (batch_add mysqlInsertBatchBytes) (map row_tuple (rt_rows t)) (new_insert_batch [] (table_prefix t))))
      = joined_rows (map (statement_line (table_prefix t)) bs)"
    "concat bs = map row_tuple (rt_rows t)" "list_all (fits mysqlInsertBatchBytes (table_prefix t)) bs"
    by blast
  from concat_map_split [OF bs(2)] obtain rss where "concat rss = rt_rows t" "bs = map (map row_tuple) rss" by blast
  then show ?thesis using bs(1, 3)
    by (intro exI [of _ rss]) (simp add: table_rows_text_def table_prefix_def insert_line_def [abs_def] comp_def list_all_iff)
qed

definition holds_all_rows :: "row_table \<Rightarrow> string list \<Rightarrow> bool" where
  "holds_all_rows t stmts \<longleftrightarrow> None \<notin> set (map (rows_of t) stmts)
     \<and> concat (map (\<lambda>s. the (rows_of t s)) stmts) = map (map (value_literal \<circ> to_second)) (rt_rows t)
     \<and> list_all (\<lambda>s. length s + 2 \<le> mysqlInsertBatchBytes \<or> length (the (rows_of t s)) = 1) stmts"

lemma statement_rows:
  assumes "readable_table t" and "fits mysqlInsertBatchBytes (table_prefix t) (map row_tuple rs)" and "set rs \<subseteq> set (rt_rows t)"
  shows "rows_of t (butlast (insert_line t rs)) = Some (map (map (value_literal \<circ> to_second)) rs)"
    and "length (butlast (insert_line t rs)) + 2 \<le> mysqlInsertBatchBytes \<or> length rs = 1"
proof -
  let ?j = "join '','' (map row_tuple rs)"
  have b: "butlast (insert_line t rs) = table_prefix t @ ?j" by (simp add: insert_line_def statement_line_def butlast_append)
  have rs: "rs \<noteq> []" using assms(2) by (auto simp: fits_def)
  have "list_all (\<lambda>x. x \<noteq> []) xs \<Longrightarrow> length xs \<le> length (join '','' xs)" for xs :: "string list"
    by (induction "'',''" xs rule: join.induct) (auto simp: neq_Nil_conv)
  from this [of "map row_tuple rs"] have "length rs \<le> length ?j" by (simp add: row_tuple_def list_all_iff)
  then have "read_rows (length ?j) ?j = Some (map (map (value_literal \<circ> to_second)) rs)"
    using rs assms(1, 3) by (intro rows_read) (auto simp: readable_table_def list_all_iff)
  then show "rows_of t (butlast (insert_line t rs)) = Some (map (map (value_literal \<circ> to_second)) rs)"
    by (simp add: rows_of_def b has_prefix_append)
  show "length (butlast (insert_line t rs)) + 2 \<le> mysqlInsertBatchBytes \<or> length rs = 1"
    using assms(2) by (auto simp: fits_def insert_line_def statement_line_def)
qed

lemma table_holds_rows:
  assumes "readable_table t"
  shows "\<exists>rss. table_rows_text mysqlInsertBatchBytes (rt_name t) (rt_cols t) (rt_rows t) = joined_rows (map (insert_line t) rss @ [[]])
    \<and> list_all whole_line (map (insert_line t) rss) \<and> holds_all_rows t (map (\<lambda>rs. butlast (insert_line t rs)) rss)"
proof -
  from table_text_lines [of t] obtain rss where rss:
    "table_rows_text mysqlInsertBatchBytes (rt_name t) (rt_cols t) (rt_rows t) = joined_rows (map (insert_line t) rss @ [[]])"
    "concat rss = rt_rows t" "list_all (\<lambda>rs. fits mysqlInsertBatchBytes (table_prefix t) (map row_tuple rs)) rss"
    by blast
  have each: "fits mysqlInsertBatchBytes (table_prefix t) (map row_tuple rs)" "set rs \<subseteq> set (rt_rows t)" if "rs \<in> set rss" for rs
    using that rss(2, 3) by (auto simp: list_all_iff) (metis UN_I set_concat)
  note read = statement_rows [OF assms each]
  have "list_all whole_line (map (insert_line t) rss)"
    using insert_line_is_whole [OF assms each] by (auto simp: list_all_iff insert_line_def)
  moreover have "concat (map (\<lambda>s. the (rows_of t s)) (map (\<lambda>rs. butlast (insert_line t rs)) rss)) = map (map (value_literal \<circ> to_second)) (concat rss)"
    by (simp add: map_concat comp_def read(1) cong: map_cong)
  ultimately show ?thesis
    using rss(1) read by (intro exI [of _ rss]) (auto simp: holds_all_rows_def rss(2) list_all_iff)
qed

lemma prologue_whole: "whole_line mysql_data_prologue" "whole_line mysql_data_epilogue"
proof -
  have "\<not> fold_equal ''SET @OLD_'' ''DELIMITER''" "\<not> fold_equal ''SET SESSI'' ''DELIMITER''" by code_simp+
  then show "whole_line mysql_data_prologue" "whole_line mysql_data_epilogue"
    by (simp_all add: whole_line_def mysql_data_prologue_def mysql_data_epilogue_def printable_def MaxStatementLine_def)
qed

lemma tables_lines:
  "list_all readable_table ts \<Longrightarrow>
   \<exists>lss sss. concat (map (\<lambda>t. table_rows_text mysqlInsertBatchBytes (rt_name t) (rt_cols t) (rt_rows t)) ts) = joined_rows (concat lss)
     \<and> list_all (\<lambda>l. l = [] \<or> whole_line l) (concat lss)
     \<and> map butlast (filter (\<lambda>l. l \<noteq> []) (concat lss)) = concat sss \<and> list_all2 holds_all_rows ts sss"
proof (induction ts)
  case Nil
  show ?case by (intro exI [of _ "[]"]) simp
next
  case (Cons t ts)
  then obtain lss sss where ih:
    "concat (map (\<lambda>t. table_rows_text mysqlInsertBatchBytes (rt_name t) (rt_cols t) (rt_rows t)) ts) = joined_rows (concat lss)"
    "list_all (\<lambda>l. l = [] \<or> whole_line l) (concat lss)"
    "map butlast (filter (\<lambda>l. l \<noteq> []) (concat lss)) = concat sss" "list_all2 holds_all_rows ts sss"
    by auto
  from table_holds_rows [of t] Cons.prems obtain rss where t:
    "table_rows_text mysqlInsertBatchBytes (rt_name t) (rt_cols t) (rt_rows t) = joined_rows (map (insert_line t) rss @ [[]])"
    "list_all whole_line (map (insert_line t) rss)" "holds_all_rows t (map (\<lambda>rs. butlast (insert_line t rs)) rss)"
    by auto
  have "filter (\<lambda>l. l \<noteq> []) (map (insert_line t) rss) = map (insert_line t) rss"
    using t(2) by (auto simp: filter_id_conv list_all_iff whole_line_def)
  then show ?case using ih t
    by (intro exI [of _ "(map (insert_line t) rss @ [[]]) # lss"] exI [of _ "map (\<lambda>rs. butlast (insert_line t rs)) rss # sss"])
      (auto simp: list_all_iff comp_def)
qed

text \<open>
  C39: The rows of a set of MySQL tables survive the dump but for the fraction of a time: whatever the
  texts hold (quotes, backslashes, line breaks, semicolons, a line that says DELIMITER), the dump is
  split into the statement that sets the mode, the INSERTs of each table in turn and the statement
  that resets it; the rows the engine reads from a table's INSERTs are its rows, in order, each
  value as it was and each time cut to the second, so rows without a fraction are read whole; and a
  statement passes the one-megabyte limit only for a single row. The hypotheses: no newline in a
  table or column name, no row without a column, a row's own statement below the splitter's 256 MB,
  and times and floats in the characters Go prints them with.
\<close>

theorem inserted_rows_survive_the_dump:
  assumes "list_all readable_table ts"
  shows "\<exists>sss. split_mysql_statements (dump_rows_text ts) = butlast mysql_data_prologue # concat sss @ [butlast mysql_data_epilogue]
    \<and> list_all2 holds_all_rows ts sss"
proof -
  from tables_lines [OF assms] obtain lss sss where lss:
    "concat (map (\<lambda>t. table_rows_text mysqlInsertBatchBytes (rt_name t) (rt_cols t) (rt_rows t)) ts) = joined_rows (concat lss)"
    "list_all (\<lambda>l. l = [] \<or> whole_line l) (concat lss)"
    "map butlast (filter (\<lambda>l. l \<noteq> []) (concat lss)) = concat sss" "list_all2 holds_all_rows ts sss"
    by blast
  let ?ls = "[mysql_data_prologue, []] @ concat lss @ [mysql_data_epilogue, []]"
  have script: "dump_rows_text ts = joined_rows ?ls" by (simp add: dump_rows_text_def lss(1))
  have "list_all (\<lambda>l. l = [] \<or> whole_line l) ?ls" using lss(2) prologue_whole by simp
  moreover have "mysql_data_prologue \<noteq> []" "mysql_data_epilogue \<noteq> []" using prologue_whole by (auto simp: whole_line_def)
  ultimately have "split_mysql_statements (dump_rows_text ts) = butlast mysql_data_prologue # concat sss @ [butlast mysql_data_epilogue]"
    unfolding script by (subst script_read) (simp_all add: lss(3))
  then show ?thesis using lss(4) by blast
qed

definition awkward_rows :: row_table where
  "awkward_rows = \<lparr>rt_name = ''t'', rt_cols = None,
     rt_rows = [[MyInt 1, MyText ([squote, backslash, newline] @ ''DELIMITER //''), MyNull],
                [MyInt (-2), MyText (''('' @ [squote] @ '');''), MyTime ''2024-01-02 03:04:05'' ''678'']]\<rparr>"

theorem inserted_rows_survive_the_dump_witness:
  "\<exists>sss. split_mysql_statements (dump_rows_text [awkward_rows]) = butlast mysql_data_prologue # concat sss @ [butlast mysql_data_epilogue]
    \<and> list_all2 holds_all_rows [awkward_rows] sss"
  by (rule inserted_rows_survive_the_dump)
    (simp add: readable_table_def awkward_rows_def plain_value_def statement_line_def table_prefix_def insert_prefix_def row_tuple_def
      mysql_format_value_def mysql_escape_def itoa_def nat_digits.simps MaxStatementLine_def)

text \<open>The fraction of a second a DATETIME(6) holds is not written: rows that differ in it are dumped alike.\<close>

lemma fractions_are_lost:
  "table_rows_text limit t cols (rows1 @ [vals @ MyTime s f1 # ws] @ rows2) = table_rows_text limit t cols (rows1 @ [vals @ MyTime s f2 # ws] @ rows2)"
  by (simp add: table_rows_text_def row_tuple_def mysql_format_value_def)

end
