(* ===== verification/IndexDefer.thy ===== *)
theory IndexDefer
  imports SqlText
begin

text \<open>
  Indexes held back while rows load, \<open>data-mig/dbmsx/driver/base/indexdefer.go\<close>: which indexes of a
  table may be dropped, when a restore drops them, and the rebuild that puts them back over several
  connections without two joined tables at once.
\<close>

section \<open>Index lines of SHOW CREATE TABLE\<close>

record deferrable_index =
  di_name :: string
  di_def :: string
  di_fulltext :: bool
  di_cols :: "string list"

fun backtick_rest :: "string \<Rightarrow> (string \<times> string) option" where
  "backtick_rest [] = None"
| "backtick_rest (c # s) =
     (if c \<noteq> backtick then map_option (\<lambda>(i, r). (c # i, r)) (backtick_rest s)
      else case s of
        [] \<Rightarrow> Some ([], [])
      | d # t \<Rightarrow> if d = backtick then map_option (\<lambda>(i, r). (backtick # i, r)) (backtick_rest t) else Some ([], s))"

definition cut_backtick_ident :: "string \<Rightarrow> (string \<times> string) option" where
  "cut_backtick_ident s = (case s of [] \<Rightarrow> None | c # t \<Rightarrow> if c = backtick then backtick_rest t else None)"

lemma backtick_rest_shorter: "backtick_rest s = Some (i, r) \<Longrightarrow> length r < length s"
  by (induction s arbitrary: i r rule: backtick_rest.induct) (fastforce split: if_splits list.splits)+

lemma cut_backtick_shorter: "cut_backtick_ident s = Some (i, r) \<Longrightarrow> length r < length s"
  by (auto simp: cut_backtick_ident_def dest!: backtick_rest_shorter split: list.splits if_splits)

lemma trim_space_shorter: "length (trim_space s) \<le> length s"
proof -
  from trim_space_infix obtain p q where "s = p @ trim_space s @ q" by blast
  then show ?thesis by (metis le_add1 le_add2 le_trans length_append)
qed

text \<open>What follows a key column: an optional prefix length in parentheses, an optional direction.\<close>

definition after_column :: "string \<Rightarrow> string option" where
  "after_column s =
     (let after = trim_space s;
          cut = (if has_prefix after ''('' then
                   (if CHR '')'' \<notin> set after then None
                    else Some (trim_space (tl (dropWhile (\<lambda>c. c \<noteq> CHR '')'') after))))
                 else Some after)
      in map_option (\<lambda>a. trim_space (trim_prefix (trim_prefix a ''DESC'') ''ASC'')) cut)"

lemma trim_prefix_shorter: "length (trim_prefix s p) \<le> length s"
  by (simp add: trim_prefix_def)

lemma drop_while_shorter: "length (dropWhile P s) \<le> length s"
  by (induction s) auto

lemma after_column_shorter: "after_column s = Some r \<Longrightarrow> length r \<le> length s"
proof -
  assume r: "after_column s = Some r"
  let ?after = "trim_space s"
  obtain a where a: "length a \<le> length ?after" "r = trim_space (trim_prefix (trim_prefix a ''DESC'') ''ASC'')"
  proof (cases "has_prefix ?after ''(''")
    case True
    let ?d = "trim_space (tl (dropWhile (\<lambda>c. c \<noteq> CHR '')'') ?after))"
    have "length ?d \<le> length ?after"
      using trim_space_shorter [of "tl (dropWhile (\<lambda>c. c \<noteq> CHR '')'') ?after)"] drop_while_shorter [of "\<lambda>c. c \<noteq> CHR '')''" ?after] by simp
    then show ?thesis using that [of ?d] r True by (simp add: after_column_def Let_def split: if_splits)
  next
    case False
    then show ?thesis using that [of ?after] r by (simp add: after_column_def Let_def)
  qed
  have "length r \<le> length a"
    unfolding a(2) using trim_space_shorter trim_prefix_shorter by (metis le_trans)
  then show ?thesis using a(1) trim_space_shorter [of s] by simp
qed

function key_parts :: "string \<Rightarrow> string list option" where
  "key_parts rest =
     (case cut_backtick_ident (trim_space rest) of
        None \<Rightarrow> None
      | Some (col, s) \<Rightarrow>
          (case after_column s of
             None \<Rightarrow> None
           | Some after \<Rightarrow>
               if has_prefix after '','' then map_option ((#) col) (key_parts (tl after))
               else if has_prefix after '')'' then Some [col]
               else None))"
  by pat_completeness auto
termination
proof (relation "measure length")
  fix rest p col s after
  assume a: "cut_backtick_ident (trim_space rest) = Some p" "(col, s) = p" "after_column s = Some after" "has_prefix after '',''"
  then have "length s < length rest" using cut_backtick_shorter trim_space_shorter by (metis le_trans less_le_trans)
  moreover have "length after \<le> length s" using after_column_shorter a(3) by blast
  ultimately show "(tl after, rest) \<in> measure length" by simp
qed simp

declare key_parts.simps [simp del]

definition parse_deferrable_index :: "string \<Rightarrow> deferrable_index option" where
  "parse_deferrable_index line =
     (let s = trim_suffix (trim_space line) '','';
          plain = has_prefix s (''KEY '' @ [backtick]); full = has_prefix s (''FULLTEXT KEY '' @ [backtick])
      in if \<not> plain \<and> \<not> full then None
         else case cut_backtick_ident (drop (if plain then 4 else 13) s) of
           None \<Rightarrow> None
         | Some (name, r) \<Rightarrow>
             (let rest = trim_space r
              in if \<not> has_prefix rest ''('' then None
                 else map_option (\<lambda>cols. \<lparr>di_name = name, di_def = s, di_fulltext = \<not> plain, di_cols = cols\<rparr>) (key_parts (tl rest))))"

text \<open>The leading columns of the index are the foreign key's; \<open>eqf\<close> is \<open>strings.EqualFold\<close>.\<close>

definition serves_foreign_key :: "(string \<Rightarrow> string \<Rightarrow> bool) \<Rightarrow> deferrable_index \<Rightarrow> string list list \<Rightarrow> bool" where
  "serves_foreign_key eqf ix fks \<longleftrightarrow>
     list_ex (\<lambda>fk. fk \<noteq> [] \<and> length fk \<le> length (di_cols ix) \<and> list_all2 eqf (take (length fk) (di_cols ix)) fk) fks"

text \<open>The rows of the key column usage: schema, constraint, table, side, column; one list per key.\<close>

type_synonym key_row = "string \<times> string \<times> string \<times> string \<times> string"

definition key_of :: "key_row \<Rightarrow> string" where
  "key_of r = (case r of (sch, name, tbl, side, col) \<Rightarrow> sch @ ''.'' @ name @ ''.'' @ tbl @ ''.'' @ side)"

definition column_of :: "key_row \<Rightarrow> string" where
  "column_of r = (case r of (sch, name, tbl, side, col) \<Rightarrow> col)"

fun key_columns :: "string \<Rightarrow> string list list \<Rightarrow> key_row list \<Rightarrow> string list list" where
  "key_columns prev out [] = out"
| "key_columns prev out (r # rs) =
     (let fresh = key_of r \<noteq> prev \<or> out = [];
          out = (if fresh then out @ [[]] else out)
      in key_columns (if fresh then key_of r else prev) (butlast out @ [List.last out @ [column_of r]]) rs)"

definition foreign_key_columns :: "key_row list \<Rightarrow> string list list" where
  "foreign_key_columns rows = key_columns [] [] rows"

section \<open>Tables that foreign keys join\<close>

text \<open>
  \<open>parent\<close> of \<open>relatedGroups\<close>: a map whose links lead to the name of a group. The search writes the
  root it found into every link it followed; it is total on the maps the code builds
  (\<open>find_root_finds\<close>).
\<close>

definition link :: "(string \<rightharpoonup> string) \<Rightarrow> string \<Rightarrow> string" where
  "link p s = (case p s of None \<Rightarrow> [] | Some q \<Rightarrow> q)"

partial_function (option) find_root :: "string \<Rightarrow> (string \<rightharpoonup> string) \<Rightarrow> (string \<times> (string \<rightharpoonup> string)) option" where
  "find_root s p =
     (if link p s \<noteq> s then Option.bind (find_root (link p s) p) (\<lambda>(r, q). Some (r, q(s \<mapsto> r)))
      else Some (link p s, p))"

fun join_related :: "(string \<times> string) list \<Rightarrow> (string \<rightharpoonup> string) \<Rightarrow> (string \<rightharpoonup> string) option" where
  "join_related [] p = Some p"
| "join_related ((child, ref) # rs) p =
     (if p child = None \<or> p ref = None then join_related rs p
      else Option.bind (find_root child p) (\<lambda>(rc, p1). Option.bind (find_root ref p1) (\<lambda>(rr, p2).
             join_related rs (p2(rc \<mapsto> rr)))))"

definition add_to_group :: "string \<Rightarrow> string \<Rightarrow> (string \<times> string list) list \<Rightarrow> (string \<times> string list) list" where
  "add_to_group root t gs =
     (if root \<in> fst ` set gs then map (\<lambda>(r, ts). if r = root then (r, ts @ [t]) else (r, ts)) gs else gs @ [(root, [t])])"

fun group_tables :: "string list \<Rightarrow> (string \<rightharpoonup> string) \<Rightarrow> (string \<times> string list) list \<Rightarrow> (string \<times> string list) list option" where
  "group_tables [] p gs = Some gs"
| "group_tables (t # ts) p gs =
     Option.bind (find_root t p) (\<lambda>(root, q). group_tables ts q (add_to_group root t gs))"

text \<open>\<open>keys\<close>: the joined tables as the server lists them, \<open>None\<close> when they cannot be read.\<close>

definition related_groups :: "(string \<times> string) list option \<Rightarrow> string list \<Rightarrow> string list list option" where
  "related_groups keys tables =
     (case keys of
        None \<Rightarrow> Some [tables]
      | Some rows \<Rightarrow>
          Option.bind (join_related rows (map_of (map (\<lambda>t. (t, t)) tables)))
            (\<lambda>p. map_option (map snd) (group_tables tables p [])))"

text \<open>Every link leads nearer (\<open>d\<close>) to the root \<open>rho\<close> its name stands under.\<close>

definition forest :: "(string \<rightharpoonup> string) \<Rightarrow> (string \<Rightarrow> string) \<Rightarrow> (string \<Rightarrow> nat) \<Rightarrow> bool" where
  "forest p rho d \<longleftrightarrow>
     (\<forall>s\<in>dom p. link p s \<in> dom p \<and> rho (link p s) = rho s \<and> (link p s = s \<longrightarrow> rho s = s)
        \<and> (link p s \<noteq> s \<longrightarrow> d (link p s) < d s) \<and> rho s \<in> dom p \<and> link p (rho s) = rho s)"

lemma forestD:
  assumes "forest p rho d" and "s \<in> dom p"
  shows "link p s \<in> dom p" "rho (link p s) = rho s" "link p s = s \<Longrightarrow> rho s = s"
    "link p s \<noteq> s \<Longrightarrow> d (link p s) < d s" "rho s \<in> dom p" "link p (rho s) = rho s" "rho (rho s) = rho s"
proof -
  show facts: "link p s \<in> dom p" "rho (link p s) = rho s" "link p s = s \<Longrightarrow> rho s = s"
    "link p s \<noteq> s \<Longrightarrow> d (link p s) < d s" "rho s \<in> dom p" "link p (rho s) = rho s"
    using assms unfolding forest_def by blast+
  show "rho (rho s) = rho s" using assms(1) facts(5, 6) unfolding forest_def by blast
qed

lemma root_is_nearer: "forest p rho d \<Longrightarrow> s \<in> dom p \<Longrightarrow> rho s \<noteq> s \<Longrightarrow> d (rho s) < d s"
proof (induction "d s" arbitrary: s rule: less_induct)
  case less
  have n: "link p s \<noteq> s" using forestD(3) [OF less.prems(1, 2)] less.prems(3) by blast
  have s: "link p s \<in> dom p" "rho (link p s) = rho s" "d (link p s) < d s"
    using forestD(1, 2, 4) [OF less.prems(1, 2)] n by blast+
  show ?case
  proof (cases "rho s = link p s")
    case True
    then show ?thesis using s(3) by simp
  next
    case False
    then show ?thesis using less.hyps [OF s(3) less.prems(1) s(1)] s(2, 3) by simp
  qed
qed

lemma link_update [simp]: "link (p(s \<mapsto> r)) x = (if x = s then r else link p x)"
  by (simp add: link_def)

lemma compressed_forest:
  assumes f: "forest p rho d" and s: "s \<in> dom p"
  shows "forest (p(s \<mapsto> rho s)) rho d"
proof -
  have "link (p(s \<mapsto> rho s)) x \<in> dom p \<and> rho (link (p(s \<mapsto> rho s)) x) = rho x
      \<and> (link (p(s \<mapsto> rho s)) x = x \<longrightarrow> rho x = x) \<and> (link (p(s \<mapsto> rho s)) x \<noteq> x \<longrightarrow> d (link (p(s \<mapsto> rho s)) x) < d x)
      \<and> rho x \<in> dom p \<and> link (p(s \<mapsto> rho s)) (rho x) = rho x" if x: "x \<in> dom p" for x
    using forestD [OF f x] forestD [OF f s] root_is_nearer [OF f s] by auto
  then show ?thesis using s unfolding forest_def by (simp add: insert_absorb)
qed

lemma find_root_finds:
  "forest p rho d \<Longrightarrow> s \<in> dom p \<Longrightarrow> \<exists>q. find_root s p = Some (rho s, q) \<and> forest q rho d \<and> dom q = dom p"
proof (induction "d s" arbitrary: s rule: less_induct)
  case less
  note f = forestD [OF less.prems]
  show ?case
  proof (cases "link p s = s")
    case True
    then show ?thesis using f(3) less.prems(1) by (subst find_root.simps) simp
  next
    case False
    from less.hyps [OF f(4) [OF False] less.prems(1) f(1)] obtain q where
      q: "find_root (link p s) p = Some (rho s, q)" "forest q rho d" "dom q = dom p"
      using f(2) by auto
    have "forest (q(s \<mapsto> rho s)) rho d" using compressed_forest [OF q(2)] q(3) less.prems(2) by simp
    then show ?thesis
      using False q less.prems(2) by (subst find_root.simps) (simp add: insert_absorb)
  qed
qed

lemma linked_forest:
  assumes f: "forest p rho d" and c: "c \<in> dom p" and r: "r \<in> dom p"
  shows "forest (p(rho c \<mapsto> rho r)) (\<lambda>x. if rho x = rho c then rho r else rho x)
    (\<lambda>x. if rho x = rho c then d x + d (rho r) + 1 else d x)"
    (is "forest ?p ?rho ?d")
proof (cases "rho c = rho r")
  case True
  have "link p (rho r) = rho r" using forestD(6) [OF f r] .
  moreover have "rho r \<in> dom p" using forestD(5) [OF f r] .
  ultimately have p: "?p = p" using True by (auto simp: link_def fun_eq_iff)
  have rho: "?rho = rho" using True by auto
  have "link p x \<in> dom p \<and> rho (link p x) = rho x \<and> (link p x = x \<longrightarrow> rho x = x)
      \<and> (link p x \<noteq> x \<longrightarrow> ?d (link p x) < ?d x) \<and> rho x \<in> dom p \<and> link p (rho x) = rho x" if "x \<in> dom p" for x
    using forestD [OF f that] by simp
  then show ?thesis unfolding p rho forest_def by blast
next
  case False
  note fc = forestD [OF f c] and fr = forestD [OF f r]
  have dom: "dom ?p = dom p" using fc(5) by auto
  have "link ?p x \<in> dom p \<and> ?rho (link ?p x) = ?rho x \<and> (link ?p x = x \<longrightarrow> ?rho x = x)
      \<and> (link ?p x \<noteq> x \<longrightarrow> ?d (link ?p x) < ?d x) \<and> ?rho x \<in> dom p \<and> link ?p (?rho x) = ?rho x" if x: "x \<in> dom p" for x
    using forestD [OF f x] fc fr False by auto
  then show ?thesis unfolding forest_def dom by blast
qed

definition joined_tables :: "string list \<Rightarrow> (string \<times> string) list \<Rightarrow> (string \<times> string) set" where
  "joined_tables tables rows =
     {(x, y). x \<in> set tables \<and> y \<in> set tables \<and> ((x, y) \<in> set rows \<or> (y, x) \<in> set rows)}"

lemma join_related_roots:
  assumes "forest p rho d" and "\<And>x. x \<in> dom p \<Longrightarrow> (x, rho x) \<in> E\<^sup>*" and "sym E"
    and "\<And>c r. (c, r) \<in> set rows \<Longrightarrow> c \<in> dom p \<Longrightarrow> r \<in> dom p \<Longrightarrow> (c, r) \<in> E"
  shows "\<exists>q rho' d'. join_related rows p = Some q \<and> forest q rho' d' \<and> dom q = dom p \<and> (\<forall>x\<in>dom p. (x, rho' x) \<in> E\<^sup>*)
    \<and> (\<forall>(c, r)\<in>set rows. c \<in> dom p \<longrightarrow> r \<in> dom p \<longrightarrow> rho' c = rho' r)
    \<and> (\<forall>x\<in>dom p. \<forall>y\<in>dom p. rho x = rho y \<longrightarrow> rho' x = rho' y)"
  using assms
proof (induction rows arbitrary: p rho d)
  case Nil
  then show ?case by auto
next
  case (Cons row rows)
  obtain c r where row: "row = (c, r)" by (cases row)
  show ?case
  proof (cases "c \<in> dom p \<and> r \<in> dom p")
    case False
    then have eq: "join_related (row # rows) p = join_related rows p" by (auto simp: row dom_def)
    have "\<And>c' r'. (c', r') \<in> set rows \<Longrightarrow> c' \<in> dom p \<Longrightarrow> r' \<in> dom p \<Longrightarrow> (c', r') \<in> E"
      using Cons.prems(4) by simp
    from Cons.IH [OF Cons.prems(1, 2, 3) this] obtain q rho' d' where
      q: "join_related rows p = Some q" "forest q rho' d'" "dom q = dom p" "\<forall>x\<in>dom p. (x, rho' x) \<in> E\<^sup>*"
        "\<forall>(c, r)\<in>set rows. c \<in> dom p \<longrightarrow> r \<in> dom p \<longrightarrow> rho' c = rho' r"
        "\<forall>x\<in>dom p. \<forall>y\<in>dom p. rho x = rho y \<longrightarrow> rho' x = rho' y"
      by blast
    have "\<forall>(c, r)\<in>set (row # rows). c \<in> dom p \<longrightarrow> r \<in> dom p \<longrightarrow> rho' c = rho' r"
      using q(5) False unfolding row list.set by blast
    with q show ?thesis unfolding eq by blast
  next
    case True
    obtain p1 where p1: "find_root c p = Some (rho c, p1)" "forest p1 rho d" "dom p1 = dom p"
      using find_root_finds [OF Cons.prems(1)] True by blast
    obtain p2 where p2: "find_root r p1 = Some (rho r, p2)" "forest p2 rho d" "dom p2 = dom p"
      using find_root_finds [OF p1(2), of r] p1(3) True by auto
    let ?p = "p2(rho c \<mapsto> rho r)" and ?rho = "\<lambda>x. if rho x = rho c then rho r else rho x"
    have dom: "dom ?p = dom p" using forestD(5) [OF p2(2), of c] p2(3) True by auto
    have eq: "join_related (row # rows) p = join_related rows ?p"
      using True p1(1) p2(1) by (auto simp: row)
    have near: "(x, ?rho x) \<in> E\<^sup>*" if x: "x \<in> dom ?p" for x
    proof (cases "rho x = rho c")
      case same: True
      have "(x, rho c) \<in> E\<^sup>*" using Cons.prems(2) [OF x [unfolded dom]] same by simp
      moreover have "(rho c, c) \<in> E\<^sup>*"
        using Cons.prems(2) [of c] True Cons.prems(3) by (metis sym_rtrancl symD)
      moreover have "(c, r) \<in> E" using Cons.prems(4) [of c r] True by (simp add: row)
      moreover have "(r, rho r) \<in> E\<^sup>*" using Cons.prems(2) True by blast
      ultimately show ?thesis using same by (simp add: rtrancl_trans)
    next
      case False
      then show ?thesis using Cons.prems(2) [OF x [unfolded dom]] by simp
    qed
    have f: "forest ?p ?rho (\<lambda>x. if rho x = rho c then d x + d (rho r) + 1 else d x)"
      using linked_forest [OF p2(2), of c r] p2(3) True by simp
    have inE: "\<And>c' r'. (c', r') \<in> set rows \<Longrightarrow> c' \<in> dom ?p \<Longrightarrow> r' \<in> dom ?p \<Longrightarrow> (c', r') \<in> E"
      using Cons.prems(4) unfolding dom by simp
    from Cons.IH [OF f near Cons.prems(3) inE] obtain q rho' d' where
      q: "join_related rows ?p = Some q" "forest q rho' d'" "dom q = dom p" "\<forall>x\<in>dom p. (x, rho' x) \<in> E\<^sup>*"
        "\<forall>(c, r)\<in>set rows. c \<in> dom p \<longrightarrow> r \<in> dom p \<longrightarrow> rho' c = rho' r"
        "\<forall>x\<in>dom p. \<forall>y\<in>dom p. ?rho x = ?rho y \<longrightarrow> rho' x = rho' y"
      unfolding dom by blast
    have "rho' c = rho' r" using q(6) True by (metis (lifting))
    then have "\<forall>(c, r)\<in>set (row # rows). c \<in> dom p \<longrightarrow> r \<in> dom p \<longrightarrow> rho' c = rho' r"
      using q(5) unfolding row list.set by blast
    moreover have "\<forall>x\<in>dom p. \<forall>y\<in>dom p. rho x = rho y \<longrightarrow> rho' x = rho' y" using q(6) by (metis (lifting))
    ultimately show ?thesis unfolding eq using q(1-4) by blast
  qed
qed

definition sorted_out :: "(string \<Rightarrow> string) \<Rightarrow> string list \<Rightarrow> (string \<times> string list) list \<Rightarrow> bool" where
  "sorted_out rho ts gs \<longleftrightarrow> distinct (map fst gs) \<and> (\<forall>(r, us)\<in>set gs. \<forall>u\<in>set us. rho u = r)
     \<and> mset (concat (map snd gs)) = mset ts"

lemma add_to_absent: "r \<notin> fst ` set gs \<Longrightarrow> map (\<lambda>(r', ts). if r' = r then (r', ts @ [t]) else (r', ts)) gs = gs"
  by (induction gs) (auto split: prod.splits)

lemma add_to_group_mset: "distinct (map fst gs) \<Longrightarrow> mset (concat (map snd (add_to_group r t gs))) = add_mset t (mset (concat (map snd gs)))"
proof (induction gs)
  case Nil
  then show ?case by (simp add: add_to_group_def)
next
  case (Cons g gs)
  obtain r' us where g: "g = (r', us)" by (cases g)
  show ?case
  proof (cases "r' = r")
    case True
    then show ?thesis using Cons.prems by (simp add: g add_to_group_def add_to_absent)
  next
    case False
    then show ?thesis using Cons by (auto simp: g add_to_group_def split: if_splits)
  qed
qed

lemma add_to_group_sorted:
  assumes "sorted_out rho ts gs" and "rho t = r"
  shows "sorted_out rho (t # ts) (add_to_group r t gs)"
proof -
  have "map fst (add_to_group r t gs) = (if r \<in> fst ` set gs then map fst gs else map fst gs @ [r])"
    by (induction gs) (auto simp: add_to_group_def split: prod.splits)
  moreover have "\<forall>(r', us)\<in>set (add_to_group r t gs). \<forall>u\<in>set us. rho u = r'"
    using assms by (fastforce simp: sorted_out_def add_to_group_def split: if_splits)
  ultimately show ?thesis using assms by (auto simp: sorted_out_def add_to_group_mset)
qed

lemma group_tables_sorted:
  "forest p rho d \<Longrightarrow> set ts \<subseteq> dom p \<Longrightarrow> sorted_out rho us gs \<Longrightarrow>
   \<exists>gs'. group_tables ts p gs = Some gs' \<and> sorted_out rho (rev ts @ us) gs'"
proof (induction ts arbitrary: p gs us)
  case (Cons t ts)
  from find_root_finds [OF Cons.prems(1), of t] Cons.prems(2) obtain q where
    q: "find_root t p = Some (rho t, q)" "forest q rho d" "dom q = dom p" by auto
  have "sorted_out rho (t # us) (add_to_group (rho t) t gs)"
    using add_to_group_sorted [OF Cons.prems(3)] by blast
  from Cons.IH [OF q(2) _ this] Cons.prems(2) q(1, 3) show ?case by simp
qed simp

lemma same_group_iff:
  assumes "sorted_out rho ts gs" and "x \<in> set ts" and "y \<in> set ts"
  shows "(\<exists>g\<in>set (map snd gs). x \<in> set g \<and> y \<in> set g) \<longleftrightarrow> rho x = rho y"
proof
  assume "\<exists>g\<in>set (map snd gs). x \<in> set g \<and> y \<in> set g"
  then show "rho x = rho y" using assms(1) by (fastforce simp: sorted_out_def)
next
  assume eq: "rho x = rho y"
  have all: "set (concat (map snd gs)) = set ts" using assms(1) unfolding sorted_out_def by (metis set_mset_mset)
  have member: "\<exists>r g. (r, g) \<in> set gs \<and> z \<in> set g" if "z \<in> set ts" for z
  proof -
    have "z \<in> set (concat (map snd gs))" using that all by simp
    then obtain g where "g \<in> set gs" "z \<in> set (snd g)" by auto
    then show ?thesis by (metis prod.collapse)
  qed
  from member [OF assms(2)] obtain rx gx where gx: "(rx, gx) \<in> set gs" "x \<in> set gx" by blast
  from member [OF assms(3)] obtain ry gy where gy: "(ry, gy) \<in> set gs" "y \<in> set gy" by blast
  have "rx = rho x" "ry = rho y" using gx gy assms(1) by (fastforce simp: sorted_out_def)+
  then have "(rx, gy) \<in> set gs" using gy(1) eq by simp
  moreover have "distinct (map fst gs)" using assms(1) by (simp add: sorted_out_def)
  ultimately have "gx = gy" using gx(1) by (blast dest: eq_key_imp_eq_value)
  then show "\<exists>g\<in>set (map snd gs). x \<in> set g \<and> y \<in> set g" using gx gy by force
qed

lemma sym_joined: "sym (joined_tables tables rows)"
  by (auto simp: sym_def joined_tables_def)

text \<open>
  The rebuild never works on two joined tables at once: the groups it runs side by side hold every
  table with indexes to rebuild once, and two of them stand in the same group exactly when a chain of
  foreign keys between such tables leads from one to the other, whichever way the keys point; the
  search for a group's name ends.
\<close>

lemma groups_are_the_joined_tables:
  "\<exists>gs. related_groups (Some rows) tables = Some gs \<and> mset (concat gs) = mset tables
     \<and> (\<forall>x\<in>set tables. \<forall>y\<in>set tables. (\<exists>g\<in>set gs. x \<in> set g \<and> y \<in> set g) \<longleftrightarrow> (x, y) \<in> (joined_tables tables rows)\<^sup>*)"
proof -
  let ?p = "map_of (map (\<lambda>t. (t, t)) tables)" and ?E = "joined_tables tables rows"
  have p: "?p = (\<lambda>x. if x \<in> set tables then Some x else None)"
    by (induction tables) (auto simp: fun_eq_iff)
  have dom: "dom ?p = set tables" by (auto simp: p dom_def)
  have "forest ?p id (\<lambda>x. 0)" by (auto simp: forest_def p link_def dom_def split: if_splits)
  from join_related_roots [OF this _ sym_joined [of tables rows], of rows] obtain q rho d where
    q: "join_related rows ?p = Some q" "forest q rho d" "dom q = set tables" "\<forall>x\<in>set tables. (x, rho x) \<in> ?E\<^sup>*"
      "\<forall>(c, r)\<in>set rows. c \<in> set tables \<longrightarrow> r \<in> set tables \<longrightarrow> rho c = rho r"
    by (simp add: dom joined_tables_def) blast
  from group_tables_sorted [OF q(2), of tables "[]" "[]"] q(3) obtain gs where
    gs: "group_tables tables q [] = Some gs" "sorted_out rho (rev tables) gs"
    by (auto simp: sorted_out_def)
  have "rho x = rho y \<longleftrightarrow> (x, y) \<in> ?E\<^sup>*" if xy: "x \<in> set tables" "y \<in> set tables" for x y
  proof
    assume "rho x = rho y"
    then have "(x, rho y) \<in> ?E\<^sup>*" "(rho y, y) \<in> ?E\<^sup>*"
      using q(4) xy sym_rtrancl [OF sym_joined [of tables rows]] by (auto dest: symD)
    then show "(x, y) \<in> ?E\<^sup>*" by simp
  next
    assume "(x, y) \<in> ?E\<^sup>*"
    then show "rho x = rho y"
    proof induction
      case (step y z)
      have "rho y = rho z" using step.hyps(2) q(5) by (fastforce simp: joined_tables_def)
      then show ?case using step.IH by simp
    qed simp
  qed
  then show ?thesis
    using same_group_iff [OF gs(2)] gs q(1) by (intro exI [of _ "map snd gs"]) (simp add: related_groups_def sorted_out_def)
qed

section \<open>Following a restore\<close>

record defer_table =
  dt_bytes :: int
  dt_fulltextChecked :: bool
  dt_btreeChecked :: bool
  dt_btree :: "string list"
  dt_fulltext :: "string list"

record deferrer =
  df_threshold :: int
  df_deferred :: nat
  df_tables :: "string \<rightharpoonup> defer_table"
  df_pending :: "string list"

definition DeferIndexOff :: int where "DeferIndexOff = -2"
definition deferIndexMinBytes :: int where "deferIndexMinBytes = 64 * 2 ^ 20"
definition deferIndexUnknownBytes :: int where "deferIndexUnknownBytes = 2 ^ 30"

text \<open>\<open>pool\<close> is what the server says of its buffer pool, \<open>None\<close> when it cannot be read.\<close>

definition new_index_deferrer :: "int \<Rightarrow> int option \<Rightarrow> deferrer" where
  "new_index_deferrer setting pool =
     \<lparr>df_threshold =
        (if setting = DeferIndexOff then -1
         else if setting \<ge> 0 then setting
         else case pool of None \<Rightarrow> deferIndexUnknownBytes | Some n \<Rightarrow> max (n div 4) deferIndexMinBytes),
      df_deferred = 0, df_tables = (\<lambda>_. None), df_pending = []\<rparr>"

text \<open>What the target and the writers answer while an INSERT is counted.\<close>

record 'e defer_answers =
  da_create :: "string option"
  da_keys :: "key_row list option"
  da_barrier :: "'e option"
  da_dropped :: bool

datatype defer_call =
    Barrier
  | DropIndexes string "deferrable_index list" bool
  | PhaseDeferred nat
  | AddIndexes string "string list" bool

definition drop_statement :: "string \<Rightarrow> deferrable_index list \<Rightarrow> string" where
  "drop_statement table ixs =
     ''ALTER TABLE '' @ quote_mysql_ident table @ '' '' @ join '', '' (map (\<lambda>ix. ''DROP INDEX '' @ quote_mysql_ident (di_name ix)) ixs)"

definition add_statement :: "string \<Rightarrow> string list \<Rightarrow> string" where
  "add_statement table defs = ''ALTER TABLE '' @ quote_mysql_ident table @ '' ADD '' @ join '', ADD '' defs"

definition droppable :: "(string \<Rightarrow> string \<Rightarrow> bool) \<Rightarrow> bool \<Rightarrow> bool \<Rightarrow> string list list \<Rightarrow> deferrable_index \<Rightarrow> bool" where
  "droppable eqf fulltext btree fks ix \<longleftrightarrow>
     \<not> ((di_fulltext ix \<and> \<not> fulltext) \<or> (\<not> di_fulltext ix \<and> \<not> btree) \<or> serves_foreign_key eqf ix fks)"

definition droppable_indexes :: "(string \<Rightarrow> string \<Rightarrow> bool) \<Rightarrow> bool \<Rightarrow> bool \<Rightarrow> string list list \<Rightarrow> string \<Rightarrow> deferrable_index list" where
  "droppable_indexes eqf fulltext btree fks create =
     filter (droppable eqf fulltext btree fks) (List.map_filter parse_deferrable_index (split_char newline create))"

definition defer_drop :: "(string \<Rightarrow> string \<Rightarrow> bool) \<Rightarrow> 'e defer_answers \<Rightarrow> string \<Rightarrow> defer_table \<Rightarrow> bool \<Rightarrow> bool \<Rightarrow> deferrer
    \<Rightarrow> 'e option \<times> deferrer \<times> defer_call list" where
  "defer_drop eqf ans name t fulltext btree d =
     (let t = t\<lparr>dt_fulltextChecked := dt_fulltextChecked t \<or> fulltext, dt_btreeChecked := dt_btreeChecked t \<or> btree\<rparr>;
          d = d\<lparr>df_tables := (df_tables d)(name \<mapsto> t)\<rparr>
      in case da_create ans of
           None \<Rightarrow> (None, d, [])
         | Some create \<Rightarrow>
             if \<not> contains create ''ENGINE=InnoDB'' then (None, d, [])
             else case da_keys ans of
               None \<Rightarrow> (None, d, [])
             | Some keys \<Rightarrow>
                 (let ixs = droppable_indexes eqf fulltext btree (foreign_key_columns keys) create
                  in if ixs = [] then (None, d, [])
                     else case da_barrier ans of
                       Some e \<Rightarrow> (Some e, d, [Barrier])
                     | None \<Rightarrow>
                         if \<not> da_dropped ans then (None, d, [Barrier, DropIndexes name ixs False])
                         else
                           (let first = dt_btree t = [] \<and> dt_fulltext t = [];
                                d = (if first then d\<lparr>df_pending := df_pending d @ [name], df_deferred := Suc (df_deferred d)\<rparr> else d);
                                t = t\<lparr>dt_btree := dt_btree t @ map di_def (filter (\<lambda>ix. \<not> di_fulltext ix) ixs),
                                     dt_fulltext := dt_fulltext t @ map di_def (filter di_fulltext ixs)\<rparr>
                            in (None, d\<lparr>df_tables := (df_tables d)(name \<mapsto> t)\<rparr>,
                                [Barrier, DropIndexes name ixs True] @ (if first then [PhaseDeferred (df_deferred d)] else [])))))"

definition new_defer_table :: defer_table where
  "new_defer_table = \<lparr>dt_bytes = 0, dt_fulltextChecked = False, dt_btreeChecked = False, dt_btree = [], dt_fulltext = []\<rparr>"

definition defer_insert :: "(string \<Rightarrow> string \<Rightarrow> bool) \<Rightarrow> 'e defer_answers \<Rightarrow> string \<Rightarrow> int \<Rightarrow> deferrer
    \<Rightarrow> 'e option \<times> deferrer \<times> defer_call list" where
  "defer_insert eqf ans table n d =
     (if df_threshold d < 0 \<or> table = [] then (None, d, [])
      else
        (let t = (case df_tables d table of None \<Rightarrow> new_defer_table | Some t \<Rightarrow> t);
             t = t\<lparr>dt_bytes := dt_bytes t + n\<rparr>;
             d = d\<lparr>df_tables := (df_tables d)(table \<mapsto> t)\<rparr>;
             fulltext = (\<not> dt_fulltextChecked t);
             btree = (\<not> dt_btreeChecked t \<and> dt_bytes t \<ge> df_threshold d)
         in if \<not> fulltext \<and> \<not> btree then (None, d, [])
            else defer_drop eqf ans table t fulltext btree d))"

section \<open>The rebuild\<close>

text \<open>
  What the server answers to a rebuild: which tables are joined, whether a table gets a connection with
  its session, and each ALTER.
\<close>

record 'e rebuild_answers =
  ra_keys :: "(string \<times> string) list option"
  ra_conn :: "string \<Rightarrow> 'e option"
  ra_add :: "string \<Rightarrow> string list \<Rightarrow> 'e option"

definition rebuild_batches :: "defer_table \<Rightarrow> string list list" where
  "rebuild_batches t = (if dt_btree t \<noteq> [] then [dt_btree t] else []) @ map (\<lambda>def. [def]) (dt_fulltext t)"

fun add_batches :: "'e rebuild_answers \<Rightarrow> string \<Rightarrow> string list list \<Rightarrow> 'e option \<times> defer_call list" where
  "add_batches ans name [] = (None, [])"
| "add_batches ans name (defs # rest) =
     (case ra_add ans name defs of
        Some e \<Rightarrow> (Some e, [AddIndexes name defs False])
      | None \<Rightarrow> (let (e, calls) = add_batches ans name rest in (e, AddIndexes name defs True # calls)))"

definition rebuild_table :: "'e rebuild_answers \<Rightarrow> string \<Rightarrow> defer_table \<Rightarrow> 'e option \<times> defer_table \<times> defer_call list" where
  "rebuild_table ans name t =
     (case ra_conn ans name of
        Some e \<Rightarrow> (Some e, t, [])
      | None \<Rightarrow>
          (case add_batches ans name (rebuild_batches t) of
             (Some e, calls) \<Rightarrow> (Some e, t, calls)
           | (None, calls) \<Rightarrow> (None, t\<lparr>dt_btree := [], dt_fulltext := []\<rparr>, calls)))"

type_synonym defer_tables = "string \<rightharpoonup> defer_table"

fun rebuild_group :: "'e rebuild_answers \<Rightarrow> string list \<Rightarrow> defer_tables \<Rightarrow> (string \<times> 'e) list \<times> defer_tables \<times> defer_call list" where
  "rebuild_group ans [] ts = ([], ts, [])"
| "rebuild_group ans (name # names) ts =
     (let (e, t, calls) = rebuild_table ans name (case ts name of None \<Rightarrow> new_defer_table | Some t \<Rightarrow> t);
          (errs, ts', calls') = rebuild_group ans names (ts(name \<mapsto> t))
      in ((case e of None \<Rightarrow> errs | Some e \<Rightarrow> (name, e) # errs), ts', calls @ calls'))"

text \<open>
  The groups run side by side, each on a connection of its own and on tables of its own, so the state
  they leave does not depend on how they interleave; the calls are listed group by group.
\<close>

fun rebuild_groups :: "'e rebuild_answers \<Rightarrow> string list list \<Rightarrow> defer_tables \<Rightarrow> (string \<times> 'e) list \<times> defer_tables \<times> defer_call list list" where
  "rebuild_groups ans [] ts = ([], ts, [])"
| "rebuild_groups ans (g # gs) ts =
     (let (errs, ts', calls) = rebuild_group ans g ts; (errs', ts'', callss) = rebuild_groups ans gs ts'
      in (errs @ errs', ts'', calls # callss))"

definition mark_checked :: "string list \<Rightarrow> defer_tables \<Rightarrow> defer_tables" where
  "mark_checked names ts =
     (\<lambda>n. if n \<in> set names then map_option (\<lambda>t. t\<lparr>dt_fulltextChecked := True, dt_btreeChecked := True\<rparr>) (ts n) else ts n)"

definition defer_rebuild :: "'e rebuild_answers \<Rightarrow> deferrer \<Rightarrow> ((string \<times> 'e) list \<times> deferrer \<times> defer_call list list) option" where
  "defer_rebuild ans d =
     (let names = df_pending d; d = d\<lparr>df_pending := []\<rparr>
      in if names = [] then Some ([], d, [])
         else
           (let d = d\<lparr>df_tables := mark_checked names (df_tables d)\<rparr>
            in map_option (\<lambda>gs. let (errs, ts, callss) = rebuild_groups ans gs (df_tables d) in (errs, d\<lparr>df_tables := ts\<rparr>, callss))
                 (related_groups (ra_keys ans) names)))"

section \<open>What is dropped and what comes back\<close>

definition dropped_defs :: "string \<Rightarrow> defer_call list \<Rightarrow> string list" where
  "dropped_defs name calls =
     concat (map (\<lambda>c. case c of DropIndexes t ixs done_ok \<Rightarrow> if t = name \<and> done_ok then map di_def ixs else [] | _ \<Rightarrow> []) calls)"

definition added_defs :: "string \<Rightarrow> defer_call list \<Rightarrow> string list" where
  "added_defs name calls =
     concat (map (\<lambda>c. case c of AddIndexes t defs done_ok \<Rightarrow> if t = name \<and> done_ok then defs else [] | _ \<Rightarrow> []) calls)"

lemma defs_simps [simp]:
  "dropped_defs n [] = []" "dropped_defs n (Barrier # cs) = dropped_defs n cs"
  "dropped_defs n (PhaseDeferred k # cs) = dropped_defs n cs" "dropped_defs n (AddIndexes t defs b # cs) = dropped_defs n cs"
  "dropped_defs n (DropIndexes t ixs b # cs) = (if t = n \<and> b then map di_def ixs else []) @ dropped_defs n cs"
  "dropped_defs n (cs @ cs') = dropped_defs n cs @ dropped_defs n cs'"
  "added_defs n [] = []" "added_defs n (Barrier # cs) = added_defs n cs"
  "added_defs n (PhaseDeferred k # cs) = added_defs n cs" "added_defs n (DropIndexes t ixs b # cs) = added_defs n cs"
  "added_defs n (AddIndexes t defs b # cs) = (if t = n \<and> b then defs else []) @ added_defs n cs"
  "added_defs n (cs @ cs') = added_defs n cs @ added_defs n cs'"
  by (simp_all add: dropped_defs_def added_defs_def)

definition held :: "defer_tables \<Rightarrow> string \<Rightarrow> string list" where
  "held ts n = (case ts n of None \<Rightarrow> [] | Some t \<Rightarrow> dt_btree t @ dt_fulltext t)"

lemma add_batches_ok:
  "add_batches ans name bs = (None, calls) \<Longrightarrow> added_defs n calls = (if n = name then concat bs else []) \<and> dropped_defs n calls = []"
  by (induction bs arbitrary: calls) (auto split: option.splits prod.splits)

lemma rebuild_table_ok:
  assumes "rebuild_table ans name t = (None, t', calls)"
  shows "t' = t\<lparr>dt_btree := [], dt_fulltext := []\<rparr>" "dropped_defs n calls = []"
    "added_defs n calls = (if n = name then dt_btree t @ dt_fulltext t else [])"
proof -
  have a: "add_batches ans name (rebuild_batches t) = (None, calls)" "t' = t\<lparr>dt_btree := [], dt_fulltext := []\<rparr>"
    using assms by (auto simp: rebuild_table_def split: option.splits prod.splits)
  show "t' = t\<lparr>dt_btree := [], dt_fulltext := []\<rparr>" by fact
  have "concat (rebuild_batches t) = dt_btree t @ dt_fulltext t" by (simp add: rebuild_batches_def)
  with add_batches_ok [OF a(1), where n = n] show "dropped_defs n calls = []" "added_defs n calls = (if n = name then dt_btree t @ dt_fulltext t else [])"
    by simp_all
qed

lemma rebuild_group_ok:
  "rebuild_group ans names ts = ([], ts', calls) \<Longrightarrow> distinct names \<Longrightarrow>
   added_defs n calls = (if n \<in> set names then held ts n else []) \<and> held ts' n = (if n \<in> set names then [] else held ts n)
   \<and> dropped_defs n calls = []"
proof (induction names arbitrary: ts ts' calls)
  case (Cons name names)
  let ?t = "case ts name of None \<Rightarrow> new_defer_table | Some t \<Rightarrow> t"
  obtain e t calls1 where 1: "rebuild_table ans name ?t = (e, t, calls1)" by (metis prod_cases3)
  obtain errs ts2 calls2 where 2: "rebuild_group ans names (ts(name \<mapsto> t)) = (errs, ts2, calls2)" by (metis prod_cases3)
  have r: "e = None" "errs = []" "ts' = ts2" "calls = calls1 @ calls2"
    using Cons.prems(1) 1 2 by (auto split: option.splits)
  have t: "held ts name = dt_btree ?t @ dt_fulltext ?t"
    by (simp add: held_def new_defer_table_def split: option.splits)
  note ok = rebuild_table_ok [OF 1 [unfolded r(1)]]
  have "held (ts(name \<mapsto> t)) n = (if n = name then [] else held ts n)" by (simp add: held_def ok(1))
  then show ?case
    using Cons.IH [OF 2 [unfolded r(2)]] Cons.prems(2) ok(2, 3) t by (auto simp: r(3, 4))
qed simp

lemma rebuild_groups_ok:
  "rebuild_groups ans gs ts = ([], ts', callss) \<Longrightarrow> distinct (concat gs) \<Longrightarrow>
   added_defs n (concat callss) = (if n \<in> set (concat gs) then held ts n else [])
   \<and> held ts' n = (if n \<in> set (concat gs) then [] else held ts n) \<and> dropped_defs n (concat callss) = []"
proof (induction gs arbitrary: ts ts' callss)
  case (Cons g gs)
  obtain errs ts1 calls where 1: "rebuild_group ans g ts = (errs, ts1, calls)" by (metis prod_cases3)
  obtain errs' ts2 callss2 where 2: "rebuild_groups ans gs ts1 = (errs', ts2, callss2)" by (metis prod_cases3)
  have r: "errs = []" "errs' = []" "ts' = ts2" "callss = calls # callss2"
    using Cons.prems(1) 1 2 by auto
  have d: "distinct g" "distinct (concat gs)" "set g \<inter> set (concat gs) = {}" using Cons.prems(2) by auto
  show ?case
    using rebuild_group_ok [OF 1 [unfolded r(1)] d(1), of n] Cons.IH [OF 2 [unfolded r(2)] d(2)] d(3)
    by (auto simp: r(3, 4) simp del: set_concat)
qed simp

definition kept :: "deferrer \<Rightarrow> bool" where
  "kept d \<longleftrightarrow> distinct (df_pending d) \<and> (\<forall>n. held (df_tables d) n \<noteq> [] \<longleftrightarrow> n \<in> set (df_pending d))"

lemma groups_of_pending:
  assumes "related_groups keys names = Some gs"
  shows "mset (concat gs) = mset names"
proof (cases keys)
  case None
  then show ?thesis using assms by (auto simp: related_groups_def)
next
  case (Some rows)
  with groups_are_the_joined_tables [of rows names] assms show ?thesis by auto
qed

lemma held_marked [simp]: "held (mark_checked names ts) n = held ts n"
  by (cases "ts n") (simp_all add: held_def mark_checked_def)

lemma grouped: "\<exists>gs. related_groups keys names = Some gs"
proof (cases keys)
  case (Some rows)
  with groups_are_the_joined_tables [of rows names] show ?thesis by auto
qed (simp add: related_groups_def)

lemma rebuild_returns: "\<exists>r. defer_rebuild ans d = Some r"
  using grouped [of "ra_keys ans" "df_pending d"] by (cases "df_pending d = []") (auto simp: defer_rebuild_def Let_def simp del: split_paired_Ex)

lemma rebuild_inv:
  assumes "defer_rebuild ans d = Some (errs, d', callss)" and "df_pending d \<noteq> []"
  shows "\<exists>gs ts. related_groups (ra_keys ans) (df_pending d) = Some gs
    \<and> rebuild_groups ans gs (mark_checked (df_pending d) (df_tables d)) = (errs, ts, callss)
    \<and> d' = d\<lparr>df_pending := [], df_tables := ts\<rparr>"
proof -
  obtain gs where gs: "related_groups (ra_keys ans) (df_pending d) = Some gs" using grouped by blast
  obtain x y z where r: "rebuild_groups ans gs (mark_checked (df_pending d) (df_tables d)) = (x, y, z)" by (metis prod_cases3)
  show ?thesis using assms gs r by (simp add: defer_rebuild_def Let_def)
qed

lemma rebuild_ok:
  assumes "defer_rebuild ans d = Some ([], d', callss)" and "kept d"
  shows "kept d'" "df_pending d' = []" "added_defs n (concat callss) = held (df_tables d) n" "dropped_defs n (concat callss) = []"
proof -
  show p: "df_pending d' = []"
  proof (cases "df_pending d = []")
    case True
    then show ?thesis using assms(1) by (auto simp: defer_rebuild_def)
  qed (use rebuild_inv [OF assms(1)] in auto)
  have *: "added_defs n (concat callss) = held (df_tables d) n \<and> held (df_tables d') n = [] \<and> dropped_defs n (concat callss) = []" for n
  proof (cases "df_pending d = []")
    case True
    then show ?thesis using assms by (auto simp: defer_rebuild_def kept_def)
  next
    case False
    then obtain gs ts where g: "related_groups (ra_keys ans) (df_pending d) = Some gs"
      "rebuild_groups ans gs (mark_checked (df_pending d) (df_tables d)) = ([], ts, callss)" "df_tables d' = ts"
      using rebuild_inv [OF assms(1) False] by auto
    from groups_of_pending [OF g(1)] have m: "mset (concat gs) = mset (df_pending d)" .
    then have names: "set (concat gs) = set (df_pending d)" "distinct (concat gs)"
      using assms(2) mset_eq_setD [OF m] mset_eq_imp_distinct_iff [OF m] unfolding kept_def by blast+
    have "n \<notin> set (df_pending d) \<Longrightarrow> held (df_tables d) n = []" using assms(2) by (auto simp: kept_def)
    then show ?thesis
      using rebuild_groups_ok [OF g(2) names(2), of n] unfolding names(1) held_marked g(3) [symmetric] by simp
  qed
  then show "added_defs n (concat callss) = held (df_tables d) n" "dropped_defs n (concat callss) = []" by simp_all
  show "kept d'" using * p by (simp add: kept_def)
qed

section \<open>An INSERT keeps the books\<close>

definition with_drops :: "defer_table \<Rightarrow> deferrable_index list \<Rightarrow> defer_table" where
  "with_drops t ixs =
     t\<lparr>dt_btree := dt_btree t @ map di_def (filter (\<lambda>ix. \<not> di_fulltext ix) ixs),
       dt_fulltext := dt_fulltext t @ map di_def (filter di_fulltext ixs)\<rparr>"

definition noted :: "string \<Rightarrow> defer_table \<Rightarrow> deferrer \<Rightarrow> deferrer" where
  "noted name t d =
     (if dt_btree t = [] \<and> dt_fulltext t = [] then d\<lparr>df_pending := df_pending d @ [name], df_deferred := Suc (df_deferred d)\<rparr> else d)"

lemma drop_inv:
  assumes "defer_drop eqf ans name t fulltext btree d = (e, d', calls)"
  shows "\<exists>t1. dt_btree t1 = dt_btree t \<and> dt_fulltext t1 = dt_fulltext t \<and>
    ((df_tables d' = (df_tables d)(name \<mapsto> t1) \<and> df_pending d' = df_pending d
        \<and> (calls = [] \<or> calls = [Barrier] \<or> (\<exists>ixs. calls = [Barrier, DropIndexes name ixs False])))
     \<or> (\<exists>create keys ixs tail. da_create ans = Some create \<and> da_keys ans = Some keys
        \<and> ixs = droppable_indexes eqf fulltext btree (foreign_key_columns keys) create \<and> ixs \<noteq> []
        \<and> df_tables d' = (df_tables d)(name \<mapsto> with_drops t1 ixs) \<and> df_pending d' = df_pending (noted name t d)
        \<and> calls = [Barrier, DropIndexes name ixs True] @ tail \<and> (tail = [] \<or> (\<exists>k. tail = [PhaseDeferred k]))))"
  using assms
  by (intro exI [of _ "t\<lparr>dt_fulltextChecked := dt_fulltextChecked t \<or> fulltext, dt_btreeChecked := dt_btreeChecked t \<or> btree\<rparr>"])
    (auto simp: defer_drop_def Let_def with_drops_def noted_def split: option.splits if_splits)

lemma mset_split: "mset (map di_def (filter (\<lambda>ix. \<not> di_fulltext ix) ixs)) + mset (map di_def (filter di_fulltext ixs)) = mset (map di_def ixs)"
  by (induction ixs) auto

lemma held_update: "held (ts(name \<mapsto> t)) n = (if n = name then dt_btree t @ dt_fulltext t else held ts n)"
  by (simp add: held_def)

lemma drop_ok:
  assumes "defer_drop eqf ans name t fulltext btree d = (e, d', calls)"
    and h: "held (df_tables d) name = dt_btree t @ dt_fulltext t" and "kept d"
  shows "kept d'" "mset (held (df_tables d') n) = mset (held (df_tables d) n) + mset (dropped_defs n calls)" "added_defs n calls = []"
proof -
  from drop_inv [OF assms(1)] obtain t1 where t1: "dt_btree t1 = dt_btree t" "dt_fulltext t1 = dt_fulltext t" and
    d': "(df_tables d' = (df_tables d)(name \<mapsto> t1) \<and> df_pending d' = df_pending d
        \<and> (calls = [] \<or> calls = [Barrier] \<or> (\<exists>ixs. calls = [Barrier, DropIndexes name ixs False])))
     \<or> (\<exists>ixs tail. ixs \<noteq> [] \<and> df_tables d' = (df_tables d)(name \<mapsto> with_drops t1 ixs) \<and> df_pending d' = df_pending (noted name t d)
        \<and> calls = [Barrier, DropIndexes name ixs True] @ tail \<and> (tail = [] \<or> (\<exists>k. tail = [PhaseDeferred k])))"
    by blast
  from d' have "kept d' \<and> mset (held (df_tables d') n) = mset (held (df_tables d) n) + mset (dropped_defs n calls) \<and> added_defs n calls = []"
  proof
    assume quiet: "df_tables d' = (df_tables d)(name \<mapsto> t1) \<and> df_pending d' = df_pending d
        \<and> (calls = [] \<or> calls = [Barrier] \<or> (\<exists>ixs. calls = [Barrier, DropIndexes name ixs False]))"
    then have same: "held (df_tables d') m = held (df_tables d) m" for m by (simp add: held_update h t1)
    have "dropped_defs n calls = []" "added_defs n calls = []" "df_pending d' = df_pending d" using quiet by auto
    then show ?thesis using assms(3) by (simp add: kept_def same)
  next
    assume "\<exists>ixs tail. ixs \<noteq> [] \<and> df_tables d' = (df_tables d)(name \<mapsto> with_drops t1 ixs) \<and> df_pending d' = df_pending (noted name t d)
        \<and> calls = [Barrier, DropIndexes name ixs True] @ tail \<and> (tail = [] \<or> (\<exists>k. tail = [PhaseDeferred k]))"
    then obtain ixs tail where ixs: "ixs \<noteq> []" "df_tables d' = (df_tables d)(name \<mapsto> with_drops t1 ixs)"
      "df_pending d' = df_pending (noted name t d)" "calls = [Barrier, DropIndexes name ixs True] @ tail"
      "tail = [] \<or> (\<exists>k. tail = [PhaseDeferred k])" by blast
    have calls: "dropped_defs n calls = (if n = name then map di_def ixs else [])" "added_defs n calls = []"
      using ixs(4, 5) by auto
    have now: "held (df_tables d') m = (if m = name then dt_btree (with_drops t1 ixs) @ dt_fulltext (with_drops t1 ixs) else held (df_tables d) m)" for m
      by (simp add: ixs(2) held_update)
    have "mset (dt_btree (with_drops t1 ixs) @ dt_fulltext (with_drops t1 ixs)) = mset (held (df_tables d) name) + mset (map di_def ixs)"
      using mset_split [of ixs] by (simp add: with_drops_def h t1 ac_simps)
    moreover from this have "dt_btree (with_drops t1 ixs) @ dt_fulltext (with_drops t1 ixs) \<noteq> []" using ixs(1) by force
    moreover have "df_pending d' = (if held (df_tables d) name = [] then df_pending d @ [name] else df_pending d)"
      by (simp add: ixs(3) noted_def h)
    ultimately show ?thesis using assms(3) calls by (auto simp: kept_def now)
  qed
  then show "kept d'" "mset (held (df_tables d') n) = mset (held (df_tables d) n) + mset (dropped_defs n calls)" "added_defs n calls = []"
    by blast+
qed

lemma insert_ok:
  assumes "defer_insert eqf ans table k d = (e, d', calls)" and "kept d"
  shows "kept d'" "mset (held (df_tables d') n) = mset (held (df_tables d) n) + mset (dropped_defs n calls)" "added_defs n calls = []"
proof -
  let ?t0 = "case df_tables d table of None \<Rightarrow> new_defer_table | Some t \<Rightarrow> t"
  let ?t = "?t0\<lparr>dt_bytes := dt_bytes ?t0 + k\<rparr>"
  let ?d = "d\<lparr>df_tables := (df_tables d)(table \<mapsto> ?t)\<rparr>"
  let ?ft = "\<not> dt_fulltextChecked ?t" and ?bt = "\<not> dt_btreeChecked ?t \<and> dt_bytes ?t \<ge> df_threshold ?d"
  have h: "held (df_tables ?d) m = held (df_tables d) m" for m
    by (simp add: held_def new_defer_table_def split: option.splits)
  have kd: "kept ?d" using assms(2) h by (simp add: kept_def)
  consider "df_threshold d < 0 \<or> table = []" "(e, d', calls) = (None, d, [])"
    | "\<not> ?ft \<and> \<not> ?bt" "(e, d', calls) = (None, ?d, [])"
    | "defer_drop eqf ans table ?t ?ft ?bt ?d = (e, d', calls)"
    using assms(1) unfolding defer_insert_def Let_def by (metis (no_types, lifting))
  then have "kept d' \<and> mset (held (df_tables d') n) = mset (held (df_tables d) n) + mset (dropped_defs n calls) \<and> added_defs n calls = []"
  proof cases
    case 1
    then show ?thesis using assms(2) by simp
  next
    case 2
    then show ?thesis using kd h by simp
  next
    case 3
    have "held (df_tables ?d) table = dt_btree ?t @ dt_fulltext ?t" by (simp add: held_update)
    note ok = this
    show ?thesis using drop_ok(1) [OF 3 ok kd] drop_ok(2, 3) [OF 3 ok kd, where n = n] h [of n] by simp
  qed
  then show "kept d'" "mset (held (df_tables d') n) = mset (held (df_tables d) n) + mset (dropped_defs n calls)" "added_defs n calls = []"
    by blast+
qed

section \<open>A whole restore\<close>

datatype 'e defer_op = OpInsert "'e defer_answers" string int | OpRebuild "'e rebuild_answers"

datatype 'e defer_fault = BarrierFailed 'e | RebuildFailed "(string \<times> 'e) list"

text \<open>The calls a restore makes on its deferrer, in order, up to the first that fails.\<close>

fun defer_run :: "(string \<Rightarrow> string \<Rightarrow> bool) \<Rightarrow> 'e defer_op list \<Rightarrow> deferrer \<Rightarrow> ('e defer_fault option \<times> deferrer \<times> defer_call list) option" where
  "defer_run eqf [] d = Some (None, d, [])"
| "defer_run eqf (OpInsert ans table n # ops) d =
     (case defer_insert eqf ans table n d of
        (Some e, d1, calls) \<Rightarrow> Some (Some (BarrierFailed e), d1, calls)
      | (None, d1, calls) \<Rightarrow> map_option (\<lambda>(f, d2, calls'). (f, d2, calls @ calls')) (defer_run eqf ops d1))"
| "defer_run eqf (OpRebuild ans # ops) d =
     Option.bind (defer_rebuild ans d) (\<lambda>(errs, d1, callss).
       if errs \<noteq> [] then Some (Some (RebuildFailed errs), d1, concat callss)
       else map_option (\<lambda>(f, d2, calls'). (f, d2, concat callss @ calls')) (defer_run eqf ops d1))"

lemma run_returns: "\<exists>r. defer_run eqf ops d = Some r"
proof (induction ops arbitrary: d)
  case (Cons x ops)
  show ?case
  proof (cases x)
    case (OpInsert ans table n)
    obtain e d1 calls where "defer_insert eqf ans table n d = (e, d1, calls)" by (metis prod_cases3)
    then show ?thesis using Cons.IH [of d1] by (cases e) (auto simp: OpInsert)
  next
    case (OpRebuild ans)
    obtain errs d1 callss where "defer_rebuild ans d = Some (errs, d1, callss)" using rebuild_returns by (metis prod_cases3)
    then show ?thesis using Cons.IH [of d1] by (auto simp: OpRebuild)
  qed
qed simp

lemma run_ok:
  "defer_run eqf ops d = Some (None, d', calls) \<Longrightarrow> kept d \<Longrightarrow>
   kept d' \<and> mset (held (df_tables d) n) + mset (dropped_defs n calls) = mset (held (df_tables d') n) + mset (added_defs n calls)"
proof (induction ops arbitrary: d calls)
  case (Cons x ops)
  show ?case
  proof (cases x)
    case (OpInsert ans table k)
    obtain e d1 calls1 where 1: "defer_insert eqf ans table k d = (e, d1, calls1)" by (metis prod_cases3)
    have "e = None" using Cons.prems(1) 1 by (cases e) (auto simp: OpInsert)
    then obtain calls2 where 2: "defer_run eqf ops d1 = Some (None, d', calls2)" "calls = calls1 @ calls2"
      using Cons.prems(1) 1 by (auto simp: OpInsert)
    show ?thesis using insert_ok(1) [OF 1 Cons.prems(2)] insert_ok(2, 3) [OF 1 Cons.prems(2), where n = n] Cons.IH [OF 2(1)] by (simp add: 2(2) ac_simps)
  next
    case (OpRebuild ans)
    obtain errs d1 callss where 1: "defer_rebuild ans d = Some (errs, d1, callss)" using rebuild_returns by (metis prod_cases3)
    have none: "errs = []" using Cons.prems(1) 1 by (auto simp: OpRebuild split: if_splits)
    then obtain calls2 where 2: "defer_run eqf ops d1 = Some (None, d', calls2)" "calls = concat callss @ calls2"
      using Cons.prems(1) 1 by (auto simp: OpRebuild)
    note ok = rebuild_ok [OF 1 [unfolded none] Cons.prems(2)]
    have "held (df_tables d1) n = []" using ok(1, 2) by (auto simp: kept_def)
    then show ?thesis using ok(3, 4) [of n] Cons.IH [OF 2(1) ok(1)] by (simp add: 2(2) ac_simps)
  qed
qed simp

lemma new_kept: "kept (new_index_deferrer setting pool)" "held (df_tables (new_index_deferrer setting pool)) n = []"
  by (simp_all add: kept_def held_def new_index_deferrer_def)

lemma run_append:
  "defer_run eqf (ops @ [OpRebuild ans]) d = Some (None, d', calls) \<Longrightarrow> kept d \<Longrightarrow> df_pending d' = []"
proof (induction ops arbitrary: d calls)
  case Nil
  then show ?case
    by (auto simp: bind_eq_Some_conv split: if_splits dest: rebuild_ok(2))
next
  case (Cons x ops)
  show ?case
  proof (cases x)
    case (OpInsert ans' table k)
    obtain e d1 calls1 where 1: "defer_insert eqf ans' table k d = (e, d1, calls1)" by (metis prod_cases3)
    have "e = None" using Cons.prems(1) 1 by (cases e) (auto simp: OpInsert)
    then show ?thesis using Cons.prems 1 Cons.IH insert_ok(1) [OF 1 Cons.prems(2)] by (auto simp: OpInsert)
  next
    case (OpRebuild ans')
    obtain errs d1 callss where 1: "defer_rebuild ans' d = Some (errs, d1, callss)" using rebuild_returns by (metis prod_cases3)
    have none: "errs = []" using Cons.prems(1) 1 by (auto simp: OpRebuild split: if_splits)
    show ?thesis
      using Cons.prems 1 none Cons.IH rebuild_ok(1) [OF 1 [unfolded none] Cons.prems(2)] by (auto simp: OpRebuild)
  qed
qed

section \<open>An index line as the server prints it is read\<close>

type_synonym printed_part = "string \<times> nat option \<times> bool"

definition part_tail :: "nat option \<Rightarrow> bool \<Rightarrow> string" where
  "part_tail len desc = (case len of None \<Rightarrow> [] | Some n \<Rightarrow> ''('' @ nat_digits n @ '')'') @ (if desc then '' DESC'' else [])"

definition printed_part :: "printed_part \<Rightarrow> string" where
  "printed_part p = (case p of (col, len, desc) \<Rightarrow> quote_mysql_ident col @ part_tail len desc)"

definition index_line :: "bool \<Rightarrow> string \<Rightarrow> printed_part list \<Rightarrow> string \<Rightarrow> string" where
  "index_line full name parts tail =
     (if full then ''FULLTEXT KEY '' else ''KEY '') @ quote_mysql_ident name @ '' ('' @ join '','' (map printed_part parts) @ '')'' @ tail"

lemma strip_blank: "strip_leading space_encodings (CHR '' '' # r) = strip_leading space_encodings r"
proof -
  have "strip_one space_encodings (CHR '' '' # r) = Some r"
    by (simp add: space_encodings_def char_of_def bit_numeral_rec bit_0)
  then show ?thesis by (simp add: strip_leading.simps [of _ "CHR '' '' # r"])
qed

lemma trim_blank:
  assumes "s \<noteq> []" and "printable (hd s)" and "printable (List.last s)"
  shows "trim_space (CHR '' '' # s) = s"
proof -
  have "trim_space (CHR '' '' # s) = trim_space s" by (simp add: trim_space_def strip_blank)
  then show ?thesis using assms trim_space_printable [of s] by simp
qed

lemma backtick_rest_quoted: "r = [] \<or> hd r \<noteq> backtick \<Longrightarrow> backtick_rest (replace_char backtick [backtick, backtick] n @ backtick # r) = Some (n, r)"
  by (induction n) (auto split: list.splits)

lemma cut_quoted: "r = [] \<or> hd r \<noteq> backtick \<Longrightarrow> cut_backtick_ident (quote_mysql_ident n @ r) = Some (n, r)"
  using backtick_rest_quoted [of r n] by (simp add: cut_backtick_ident_def quote_mysql_ident_def quote_with_def)

lemma digits_no_paren: "CHR '')'' \<notin> set (nat_digits n)"
proof
  assume "CHR '')'' \<in> set (nat_digits n)"
  from nat_digits_digit [OF this] show False by simp
qed

lemma after_part:
  assumes "r \<noteq> []" and "hd r = CHR '','' \<or> hd r = CHR '')''" and "printable (List.last r)"
  shows "after_column (part_tail len desc @ r) = Some r"
proof -
  have r: "printable (hd r)" "trim_space r = r" using assms by (auto simp: printable_def intro: trim_space_printable)
  have dir: "trim_space ((if desc then '' DESC'' else []) @ r) = (if desc then ''DESC'' else []) @ r"
    using assms r trim_blank [of "''DESC'' @ r"] by (auto simp: printable_def)
  have none: "trim_prefix (trim_prefix ((if desc then ''DESC'' else []) @ r) ''DESC'') ''ASC'' = r"
    using assms(1, 2) by (cases r) (auto simp: trim_prefix_def)
  show ?thesis
  proof (cases len)
    case None
    then show ?thesis using dir none r assms(1, 2)
      by (cases r) (auto simp: after_column_def part_tail_def Let_def)
  next
    case (Some n)
    let ?s = "''('' @ nat_digits n @ '')'' @ (if desc then '' DESC'' else []) @ r"
    have t: "trim_space ?s = ?s" using assms by (intro trim_space_printable) (simp add: printable_def)
    have d: "dropWhile (\<lambda>c. c \<noteq> CHR '')'') ?s = '')'' @ (if desc then '' DESC'' else []) @ r"
      using digits_no_paren [of n] by (simp add: dropWhile_append)
    have e: "part_tail len desc @ r = ?s" by (simp add: part_tail_def Some)
    show ?thesis unfolding e after_column_def Let_def t d using dir none r by simp
  qed
qed

lemma key_parts_printed:
  "parts \<noteq> [] \<Longrightarrow> tail = [] \<or> printable (List.last tail) \<Longrightarrow> key_parts (join '','' (map printed_part parts) @ CHR '')'' # tail) = Some (map fst parts)"
proof (induction parts)
  case (Cons p parts)
  obtain col len desc where p: "p = (col, len, desc)" by (cases p)
  define r where "r = (if parts = [] then CHR '')'' # tail else CHR '','' # join '','' (map printed_part parts) @ CHR '')'' # tail)"
  have r: "r \<noteq> []" "hd r = CHR '','' \<or> hd r = CHR '')''" "printable (List.last r)"
    using Cons.prems(2) by (auto simp: r_def printable_def)
  have s: "join '','' (map printed_part (p # parts)) @ CHR '')'' # tail = quote_mysql_ident col @ part_tail len desc @ r"
    by (cases parts) (simp_all add: r_def p printed_part_def)
  have t: "trim_space (quote_mysql_ident col @ part_tail len desc @ r) = quote_mysql_ident col @ part_tail len desc @ r"
    using r by (intro trim_space_printable) (simp add: quote_mysql_ident_def quote_with_def printable_def)
  have "hd (part_tail len desc @ r) \<noteq> backtick" using r by (auto simp: part_tail_def split: option.splits)
  then have c: "cut_backtick_ident (quote_mysql_ident col @ part_tail len desc @ r) = Some (col, part_tail len desc @ r)"
    by (intro cut_quoted) simp
  show ?case
    unfolding s key_parts.simps [of "quote_mysql_ident col @ part_tail len desc @ r"] t c
    using after_part [OF r] Cons.IH Cons.prems(2) by (simp add: r_def p)
qed simp

lemma index_line_is_read:
  assumes "parts \<noteq> []" and "tail = [] \<or> (printable (List.last tail) \<and> List.last tail \<noteq> CHR '','')"
  shows "parse_deferrable_index (''  '' @ index_line full name parts tail @ (if comma then '','' else []))
    = Some \<lparr>di_name = name, di_def = index_line full name parts tail, di_fulltext = full, di_cols = map fst parts\<rparr>"
proof -
  let ?l = "index_line full name parts tail" and ?m = "if comma then '','' else []"
  let ?k = "join '','' (map printed_part parts) @ CHR '')'' # tail"
  have l: "?l \<noteq> []" "printable (hd ?l)" "printable (List.last ?l)" "List.last ?l \<noteq> CHR '',''"
    using assms(2) by (auto simp: index_line_def printable_def)
  have ends: "?l @ ?m \<noteq> []" "printable (hd (?l @ ?m))" "printable (List.last (?l @ ?m))" using l by (auto simp: printable_def)
  have "trim_space (''  '' @ ?l @ ?m) = ?l @ ?m"
    using trim_blank [OF ends] trim_space_printable [of "?l @ ?m"] ends by (simp add: trim_space_def strip_blank)
  moreover have "trim_suffix (?l @ ?m) '','' = ?l"
    using l(1, 4) by (cases ?l rule: rev_cases) (auto simp: trim_suffix_def has_suffix_def)
  moreover have "cut_backtick_ident (quote_mysql_ident name @ '' ('' @ ?k) = Some (name, '' ('' @ ?k)"
    by (intro cut_quoted) simp
  moreover have "trim_space ('' ('' @ ?k) = CHR ''('' # ?k"
    using trim_blank [of "CHR ''('' # ?k"] assms(2) by (auto simp: printable_def)
  moreover have "drop (if full then 13 else 4) ?l = quote_mysql_ident name @ '' ('' @ ?k"
    by (simp add: index_line_def)
  moreover have "has_prefix ?l (''KEY '' @ [backtick]) = (\<not> full)" "has_prefix ?l (''FULLTEXT KEY '' @ [backtick]) = full"
    by (simp_all add: index_line_def quote_mysql_ident_def quote_with_def)
  ultimately show ?thesis
    using key_parts_printed [OF assms(1), of tail] assms(2) by (cases full) (auto simp: parse_deferrable_index_def Let_def)
qed

section \<open>The properties\<close>


definition plain_create :: string where
  "plain_create = ''CREATE TABLE `t` ('' @ [newline] @ ''  `a` int,'' @ [newline] @ ''  KEY `k` (`a`)'' @ [newline] @ '') ENGINE=InnoDB''"

definition easy_insert :: "unit defer_answers" where
  "easy_insert = \<lparr>da_create = Some plain_create, da_keys = Some [], da_barrier = None, da_dropped = True\<rparr>"

definition easy_rebuild :: "unit rebuild_answers" where
  "easy_rebuild = \<lparr>ra_keys = Some [], ra_conn = (\<lambda>_. None), ra_add = (\<lambda>_ _. None)\<rparr>"

lemma trim_space_blank: "trim_space (CHR '' '' # s) = trim_space s"
  by (simp add: trim_space_def strip_blank)

lemma plain_index: "parse_deferrable_index ''  KEY `k` (`a`)'' = Some \<lparr>di_name = ''k'', di_def = ''KEY `k` (`a`)'', di_fulltext = False, di_cols = [''a'']\<rparr>"
  using index_line_is_read [of "[(''a'', None, False)]" "[]" False "''k''" False]
  by (simp add: index_line_def quote_mysql_ident_def quote_with_def printed_part_def part_tail_def)

lemma plain_droppable:
  "droppable_indexes eqf True True (foreign_key_columns []) plain_create
   = [\<lparr>di_name = ''k'', di_def = ''KEY `k` (`a`)'', di_fulltext = False, di_cols = [''a'']\<rparr>]"
proof -
  have "split_char newline plain_create = [''CREATE TABLE `t` ('', ''  `a` int,'', ''  KEY `k` (`a`)'', '') ENGINE=InnoDB'']"
    by (simp add: plain_create_def)
  moreover have "parse_deferrable_index ''CREATE TABLE `t` ('' = None" "parse_deferrable_index ''  `a` int,'' = None"
    "parse_deferrable_index '') ENGINE=InnoDB'' = None"
    by (simp_all add: parse_deferrable_index_def Let_def trim_space_blank trim_space_printable printable_def trim_suffix_def has_suffix_def)
  ultimately show ?thesis
    by (simp add: droppable_indexes_def map_filter_simps plain_index droppable_def serves_foreign_key_def foreign_key_columns_def)
qed


end
