(* ===== verification/Spec2Isabelle.thy ===== *)
theory Spec2Isabelle
  imports PlanController S3Progress S3Multipart MigrationExecutor DbValidation RsyncExecute PgRestore MysqlDump IndexDefer
begin

text \<open>
  Verification development of cm-centipede: the service that plans a data migration (file
  systems, object storage, databases) and the transfer library that carries it out.

  \<^bold>\<open>How the program works.\<close> A client posts a plan request to the plan handler
  (\<open>pkg/api/rest/controller/plan.go\<close>). The plan builder (\<open>pkg/core/plan/target.go\<close>) pairs each
  source folder, bucket or database with its destination, checks the rules and the names, and
  returns entries; the handler seals every secret of the answer (\<open>pkg/connsec\<close>). A migration
  later unseals the plan, resolves each connection reference to an endpoint
  (\<open>pkg/core/migration\<close>) and hands the item to the library under \<open>data-mig\<close>: \<open>storagex\<close> moves
  files with rsync and objects with presigned requests, \<open>dbmsx\<close> dumps and restores databases.
  Both run their steps in a pipeline and report through a handle (\<open>data-mig/core\<close>).

  \<^bold>\<open>Conventions.\<close> A Go function returning \<open>(T, error)\<close> is a function into \<open>'e + 't\<close>, one returning
  \<open>error\<close> a function into \<open>'e option\<close> (theory \<open>Prelude\<close>); error texts are constructors with the
  data the text is made of. Strings are byte strings, as Go's are; \<open>GoRunes\<close> decodes them where
  the code works on runes. Integers are unbounded, with \<open>wrap64\<close> written out where the code can
  overflow. I/O is an argument: the reply of a server, a clock, a directory listing, a
  random-id source, the verdict of an SDK. What a component does to the outside is a trace, a
  list of calls. Code under a \<open>sync.Once\<close> or a lock is a function of the fields it guards.

  \<^bold>\<open>The theories.\<close>
  \<^item> \<open>Prelude\<close>, \<open>GoStrings\<close>, \<open>GoRunes\<close>, \<open>GoPath\<close>: results, Go's \<open>strings\<close>, UTF-8 and
    \<open>path\<close> packages, each with the lemmas the components share.
  \<^item> \<open>CommonModel\<close>, \<open>MigrationModels\<close> (\<open>dmdl\<close>): the records a plan is made of. \<open>PlanEntry\<close>
    (\<open>pkg/core/plan/entry.go\<close>): entry ids, duplicate destinations, root to root. \<open>ConnSec\<close>
    (\<open>pkg/connsec\<close>, \<open>pkg/cryptoutil\<close>): sealing, unsealing, masking.
  \<^item> \<open>GlobMatch\<close>, \<open>PathFilter\<close> (\<open>data-mig/storagex/filter\<close>): glob compilation to regular
    expressions, ordered rules, the ancestor walk and the translation to rsync flags.
    \<open>DbmsFilter\<close>, \<open>PgObjectName\<close> (\<open>data-mig/dbmsx/filter\<close>).
  \<^item> \<open>PlanRules\<close>, \<open>PlanTarget\<close>, \<open>PlanController\<close>: the checks, the builder and the handler.
  \<^item> \<open>TransferCore\<close> (\<open>data-mig/core\<close>): pipelines, handles (the locale \<open>progress_contract\<close>),
    observations, concurrency.
  \<^item> \<open>ServerVersion\<close>, \<open>DbmsLocation\<close>, \<open>DbmsResolve\<close>, \<open>DbmsDdl\<close>, \<open>DbmsHandle\<close>, \<open>DbmsMigrate\<close>: the
    database side, from versions and locations to the migration of every database of an entry.
  \<^item> \<open>SqlText\<close>, \<open>PgSplit\<close>, \<open>PgRestore\<close>: the text and the files of a PostgreSQL migration
    (\<open>data-mig/dbmsx/driver\<close>): failing statements and their names, the COPY escape, the splitting
    of a dump into statements, the phases of a restore with the guards held back to the end.
  \<^item> \<open>MysqlDump\<close> (\<open>data-mig/dbmsx/driver/mysql\<close>): the rows of a MySQL dump as INSERTs and the
    splitter that reads them back. \<open>IndexDefer\<close> (\<open>data-mig/dbmsx/driver/base/indexdefer.go\<close>): the
    indexes a MySQL restore drops while rows load, and the rebuild that puts every one back, tables
    joined by foreign keys one after the other (a union-find, shown to end).
  \<^item> \<open>ObjectPath\<close>, \<open>StorageModel\<close>: where objects are placed, storage locations and providers.
  \<^item> \<open>StoragePlan\<close>, \<open>StorageHandle\<close>, \<open>StorageResolve\<close>, \<open>StorageMigrate\<close>: the storage side of a
    plan, from entries and filters to the run of every path pair, and the handle that folds
    several legs into one progress. \<open>MigrationExecutor\<close> (\<open>pkg/core/migration\<close>): the tasks of a
    migration, their statuses, cancellation and the selection a retry makes.
  \<^item> \<open>Lanes\<close>: the goroutines of an object transfer as lists of scheduling events, so the theorems
    hold for every interleaving. \<open>S3Transfer\<close>, \<open>S3Progress\<close>, \<open>S3Multipart\<close>, \<open>S3Execute\<close>: the
    size check, order, retries, byte accounting, uploads in parts and the executors.
  \<^item> \<open>RsyncShard\<close>, \<open>RsyncOutput\<close>, \<open>RsyncCommand\<close>, \<open>RsyncExecute\<close>: a file-system transfer: how the
    files are dealt out to parallel processes, how rsync's output is read, how the command lines
    are built and read back by the remote shell, and the steps of a run with their cleanup.
  \<^item> \<open>FileCheck\<close>, \<open>ValidationReport\<close>, \<open>FileValidation\<close>, \<open>DbValidation\<close>: the comparison of source and
    destination after a migration, for files, objects and databases.

  \<^bold>\<open>What the lemmas show.\<close> Each numbered property (C1 to C40) states in its text block what it
  says of the code; the witness after it applies it to concrete values. Lemmas without a number
  are the steps, or record behaviour worth knowing (for instance \<open>ObjectPath.stream_key_escapes\<close>,
  \<open>Lanes.later_failure_reported\<close>). By part: plans reach only destinations their checks have
  seen and leave with sealed secrets; filters decide as their documented rules do; a transfer is
  reported successful only when every item of it was moved, whatever the interleaving; the bytes
  counted are the bytes acknowledged; rows written into a dump are read back, for the kinds of
  values the theorems name; no index is lost to a restore; a
  validation report is clean just when the two sides agree on what the check compares. Where the
  code falls short of that, the theorem states the exact behaviour.

  \<^bold>\<open>Fuel and termination.\<close> Recursion follows the code's loops and terminates by structure or by
  a measure given with the definition. The walk over the directories above an object
  (\<open>ObjectPath.clash_above\<close>) need not end for an empty root and is a partial function; its
  property shows when it ends. Schedules are finite lists, and \<open>Lanes.lanes_terminate\<close> bounds
  their length.

  \<^bold>\<open>Not modelled.\<close> The MariaDB and MongoDB drivers and the catalogue queries, inspection and
  pooling of the other drivers are traffic with engines; processes, sockets and ssh
  sessions appear only as arguments and traces. The REST layer besides the plan handler, the
  REST clients, the persistence, configuration and logging are glue over libraries; the test
  environment and the examples are no part of the service. Error texts and log lines are kept
  only as far as a decision reads them. Removing a file or a directory is taken to work, since the
  code ignores the error it may return.
\<close>

end
